(* ===== verification/Prelude.thy ===== *)
theory Prelude
  imports Main "HOL-Library.Word"
begin

unbundle bit_operations_syntax

text \<open>
  Shared vocabulary of the development: the machine integers of the C++ code, the scans over
  fixed arrays that every component of the gateway writes out by hand (find the first matching
  entry, count the matching entries), the laws of wrapping millisecond deadlines, and the
  interfaces (locales) that several components provide.

  A \<^verbatim>\<open>std::array\<close> is a list whose length is an invariant; the index \<open>-1\<close> that a scan
  returns for "not found" is \<open>None\<close>.
\<close>

section \<open>Machine integers\<close>

type_synonym u8 = "8 word"
type_synonym u16 = "16 word"
type_synonym u32 = "32 word"

text \<open>
  Signed integers of the code are words too (\<open>int32_t\<close> is a \<open>32 word\<close>), read by \<open>sint\<close>;
  a narrowing \<open>static_cast\<close> is \<open>ucast\<close>, which keeps the low bits.
\<close>

lemma bit31_iff: "bit (w::u32) 31 \<longleftrightarrow> 2 ^ 31 \<le> unat w"
proof -
  have b: "bit w 31 \<longleftrightarrow> odd (unat w div 2 ^ 31)"
    using bit_iff_odd[of "unat w" 31] by (simp add: bit_unsigned_iff)
  have "unat w < 2 ^ 32" using unsigned_less[of w] by simp
  then have "unat w div 2 ^ 31 < 2" by simp
  then have "odd (unat w div 2 ^ 31) \<longleftrightarrow> unat w div 2 ^ 31 \<noteq> 0"
    unfolding less_2_cases_iff by (elim disjE) simp_all
  also have "\<dots> \<longleftrightarrow> 2 ^ 31 \<le> unat w" by (simp add: div_eq_0_iff not_less)
  finally show ?thesis using b by simp
qed

lemma sint32_nonneg_iff: "0 \<le> sint (w::u32) \<longleftrightarrow> unat w < 2 ^ 31"
  using bit_last_iff[of w] bit31_iff[of w] by auto

lemma unat_u32_less [simp]: "unat (w::u32) < 4294967296"
  using unsigned_less[of w] by simp

lemma unat_u16_less [simp]: "unat (w::u16) < 65536"
  using unsigned_less[of w] by simp

lemma unat_u8_less [simp]: "unat (w::u8) < 256"
  using unsigned_less[of w] by simp

lemma u32_succ_neq [simp]: "(w::u32) + 1 \<noteq> w"
  by simp

lemma u8_of_nat_unat: "of_nat (unat (w::u8)) = w"
  by simp

lemma unat_of_nat_u32: "n < 2 ^ 32 \<Longrightarrow> unat (of_nat n :: u32) = n"
  by (simp add: unat_of_nat)

section \<open>Scans over fixed arrays\<close>

text \<open>
  \<^verbatim>\<open>for (i = 0; i < size; ++i) if (P(a[i])) return i; return -1;\<close>
\<close>

fun find_index :: "('a \<Rightarrow> bool) \<Rightarrow> 'a list \<Rightarrow> nat option" where
  "find_index P [] = None"
| "find_index P (x # xs) = (if P x then Some 0 else map_option Suc (find_index P xs))"

lemma find_index_None_iff: "find_index P xs = None \<longleftrightarrow> (\<forall>x \<in> set xs. \<not> P x)"
  by (induction xs) auto

lemma find_index_Some_iff:
  "find_index P xs = Some i \<longleftrightarrow> i < length xs \<and> P (xs ! i) \<and> (\<forall>j < i. \<not> P (xs ! j))"
proof (induction xs arbitrary: i)
  case Nil
  then show ?case by simp
next
  case (Cons x xs)
  show ?case
  proof (cases i)
    case 0
    then show ?thesis by (simp add: map_option_case split: option.split)
  next
    case (Suc k)
    have "(\<forall>j < Suc k. \<not> P ((x # xs) ! j)) \<longleftrightarrow> \<not> P x \<and> (\<forall>j < k. \<not> P (xs ! j))"
      by (simp add: All_less_Suc2)
    with Suc show ?thesis by (simp add: Cons.IH)
  qed
qed

lemma find_index_SomeD:
  assumes "find_index P xs = Some i"
  shows "i < length xs" and "P (xs ! i)"
  using assms unfolding find_index_Some_iff by simp_all

lemma find_index_nth_None:
  "find_index P xs = None \<Longrightarrow> j < length xs \<Longrightarrow> \<not> P (xs ! j)"
  by (auto simp: find_index_None_iff)

lemma find_index_unique:
  assumes "i < length xs" "P (xs ! i)"
    and "\<And>j. j < length xs \<Longrightarrow> P (xs ! j) \<Longrightarrow> j = i"
  shows "find_index P xs = Some i"
  using assms unfolding find_index_Some_iff by (metis less_trans nat_neq_iff)

lemma find_index_cong_nth:
  assumes "length xs = length ys" "\<And>i. i < length xs \<Longrightarrow> P (xs ! i) = Q (ys ! i)"
  shows "find_index P xs = find_index Q ys"
  using assms
proof (induction xs ys rule: list_induct2)
  case Nil
  then show ?case by simp
next
  case (Cons x xs y ys)
  have "P x = Q y" using Cons.prems[of 0] by simp
  moreover have "find_index P xs = find_index Q ys"
  proof (rule Cons.IH)
    fix i assume "i < length xs"
    then show "P (xs ! i) = Q (ys ! i)" using Cons.prems[of "Suc i"] by simp
  qed
  ultimately show ?case by simp
qed

lemma list_update_known: "xs ! i = x \<Longrightarrow> xs[i := x] = xs"
  by auto

lemma list_all_update: "list_all P xs \<Longrightarrow> P y \<Longrightarrow> list_all P (xs[i := y])"
  using set_update_subset_insert[of xs i y] by (auto simp: list_all_iff)

lemma find_index_cong_pred: "(\<And>x. P x = Q x) \<Longrightarrow> find_index P xs = find_index Q xs"
  by (intro find_index_cong_nth) auto

text \<open>\<^verbatim>\<open>std::count_if(a.begin(), a.end(), P)\<close>.\<close>

lemma find_index_map: "find_index P (map f xs) = find_index (P \<circ> f) xs"
  by (induction xs) simp_all

lemma find_index_same:
  "find_index (\<lambda>e. k e = a) xs = Some i \<Longrightarrow> k y = a \<Longrightarrow> find_index (\<lambda>e. k e = a) (xs[i := y]) = Some i"
  by (auto simp: find_index_Some_iff nth_list_update)

lemma find_index_update_same:
  "P (xs ! i) = P y \<Longrightarrow> i < length xs \<Longrightarrow> find_index P (xs[i := y]) = find_index P xs"
proof (induction xs arbitrary: i)
  case (Cons x xs)
  then show ?case by (cases i) simp_all
qed simp

definition count_where :: "('a \<Rightarrow> bool) \<Rightarrow> 'a list \<Rightarrow> nat" where
  "count_where P xs = length (filter P xs)"

lemma count_where_simps [simp]:
  "count_where P [] = 0"
  "count_where P (x # xs) = (if P x then Suc (count_where P xs) else count_where P xs)"
  "count_where P (xs @ ys) = count_where P xs + count_where P ys"
  by (simp_all add: count_where_def)

lemma count_where_replicate [simp]:
  "count_where P (replicate n x) = (if P x then n else 0)"
  by (simp add: count_where_def)

lemma count_where_le: "count_where P xs \<le> length xs"
  by (simp add: count_where_def)

lemma count_where_update:
  "i < length xs \<Longrightarrow>
   count_where P (xs[i := y]) + of_bool (P (xs ! i)) = count_where P xs + of_bool (P y)"
proof (induction xs arbitrary: i)
  case Nil
  then show ?case by simp
next
  case (Cons x xs)
  then show ?case by (cases i) fastforce+
qed

lemma count_where_update_same [simp]:
  assumes "i < length xs" "P (xs ! i) = P y"
  shows "count_where P (xs[i := y]) = count_where P xs"
  using count_where_update[OF assms(1), of P y] assms(2) by simp

lemma count_where_update_gain:
  assumes "i < length xs" "\<not> P (xs ! i)" "P y"
  shows "count_where P (xs[i := y]) = Suc (count_where P xs)"
  using count_where_update[OF assms(1), of P y] assms(2,3) by simp

lemma count_where_update_loss:
  assumes "i < length xs" "P (xs ! i)" "\<not> P y"
  shows "Suc (count_where P (xs[i := y])) = count_where P xs"
  using count_where_update[OF assms(1), of P y] assms(2,3) by simp

lemma count_where_0_iff: "count_where P xs = 0 \<longleftrightarrow> (\<forall>x \<in> set xs. \<not> P x)"
  by (simp add: count_where_def filter_empty_conv)

lemma count_where_full_iff: "count_where P xs = length xs \<longleftrightarrow> (\<forall>x \<in> set xs. P x)"
proof (induction xs)
  case Nil
  then show ?case by simp
next
  case (Cons x xs)
  then show ?case using count_where_le[of P xs] by auto
qed

lemma count_where_pos: "x \<in> set xs \<Longrightarrow> P x \<Longrightarrow> 0 < count_where P xs"
  by (auto simp: count_where_def filter_empty_conv)

lemma find_index_free_iff:
  "(\<exists>i. find_index (\<lambda>x. \<not> P x) xs = Some i) \<longleftrightarrow> count_where P xs < length xs"
proof -
  have "(\<exists>i. find_index (\<lambda>x. \<not> P x) xs = Some i) \<longleftrightarrow> \<not> (\<forall>x \<in> set xs. P x)"
    using find_index_None_iff[of "\<lambda>x. \<not> P x" xs] by (cases "find_index (\<lambda>x. \<not> P x) xs") auto
  also have "\<dots> \<longleftrightarrow> count_where P xs < length xs"
    using count_where_full_iff[of P xs] count_where_le[of P xs] by linarith
  finally show ?thesis .
qed

section \<open>Wrapping deadlines\<close>

text \<open>
  All timers of the gateway compare a \<^verbatim>\<open>uint32_t\<close> millisecond clock that wraps after about 49
  days. Three components implement the test "is the deadline reached" on their own, one through
  a signed cast and one through an unsigned comparison. The interface states what they all
  promise; the lemmas say when a timer that was armed at \<open>s\<close> for \<open>t\<close> milliseconds fires.
\<close>

locale deadline_clock =
  fixes due :: "u32 \<Rightarrow> u32 \<Rightarrow> bool"
  assumes due_iff: "due now d \<longleftrightarrow> unat (now - d) < 2 ^ 31"
begin

lemma due_at_deadline: "due d d"
  by (simp add: due_iff)

lemma due_elapsed:
  assumes "unat e < 2 ^ 31" "unat t < 2 ^ 31"
  shows "due (s + e) (s + t) \<longleftrightarrow> t \<le> e"
proof -
  have "(s + e) - (s + t) = e - t" by simp
  moreover have "unat (e - t) < 2 ^ 31 \<longleftrightarrow> t \<le> e"
    using assms by (auto simp: unat_sub_if_size word_le_nat_alt word_size)
  ultimately show ?thesis by (simp add: due_iff)
qed

lemma not_due_when_armed:
  assumes "t \<noteq> 0" "unat t < 2 ^ 31"
  shows "\<not> due s (s + t)"
  using due_elapsed[of 0 t s] assms by simp

lemma due_when_elapsed: "unat t < 2 ^ 31 \<Longrightarrow> due (s + t) (s + t)"
  by (rule due_at_deadline)

lemma due_monotone:
  assumes "due now d" "unat (now - d) + unat e < 2 ^ 31"
  shows "due (now + e) d"
proof -
  obtain w where w: "w = now - d" by blast
  have "unat (w + e) = unat w + unat e"
    using assms(2) unfolding w[symmetric] by (simp add: unat_word_ariths(1))
  moreover have "now + e - d = w + e" by (simp add: w)
  ultimately have "unat (now + e - d) = unat (now - d) + unat e" by (simp only: w)
  then show ?thesis using assms(2) unfolding due_iff by (simp only:)
qed

lemma remaining_bound:
  assumes "\<not> due now d"
  shows "0 < unat (d - now)" and "unat (d - now) \<le> 2 ^ 31"
proof -
  have far: "2 ^ 31 \<le> unat (now - d)" using assms by (simp add: due_iff)
  then have "now \<noteq> d" by auto
  then show "0 < unat (d - now)" by (simp add: unat_gt_0)
  show "unat (d - now) \<le> 2 ^ 31"
    using far unat_u32_less[of now] unat_u32_less[of d]
    unfolding unat_sub_if_size word_size by (auto split: if_splits)
qed

end

end
