(* ===== verification/DeviceIdentity.thy ===== *)
theory DeviceIdentity
  imports Prelude "HOL-Library.Char_ord"
begin

text \<open>
  \<^verbatim>\<open>core::DeviceId\<close> (\<^verbatim>\<open>components/core/device_id.cpp\<close>, \<^verbatim>\<open>include/device_id.hpp\<close>): the durable
  identity of a device, a Zigbee EUI-64 of eight bytes, most significant first. The theory models
  the text form (\<open>parse\<close>, \<open>format\<close>), validity and the ordering, and shows the round trip in both
  directions and that the ordering is a linear order.

  An output pointer is an \<open>option\<close>: \<open>None\<close> is the null pointer, \<open>Some v\<close> a pointer to \<open>v\<close>; a
  function returns the pointee after the call.
\<close>

section \<open>The type\<close>

text \<open>The array of the class has a fixed length of eight bytes, so it is eight fields here.\<close>

datatype DeviceId = DeviceId u8 u8 u8 u8 u8 u8 u8 u8

fun bytes :: "DeviceId \<Rightarrow> u8 list" where
  "bytes (DeviceId a b c d e f g h) = [a, b, c, d, e, f, g, h]"

definition device_id_of :: "u8 list \<Rightarrow> DeviceId" where
  "device_id_of bs =
     DeviceId (bs ! 0) (bs ! 1) (bs ! 2) (bs ! 3) (bs ! 4) (bs ! 5) (bs ! 6) (bs ! 7)"

text \<open>The default constructor: all bytes zero.\<close>

definition no_device_id :: DeviceId where
  "no_device_id = DeviceId 0 0 0 0 0 0 0 0"

definition kByteLength :: nat where "kByteLength = 8"

definition kHexLength :: nat where "kHexLength = kByteLength * 2"

lemma length_bytes [simp]: "length (bytes i) = 8"
  by (cases i) simp

lemma bytes_inj: "bytes i = bytes j \<longleftrightarrow> i = j"
  by (cases i; cases j) simp

lemma device_id_of_bytes [simp]: "device_id_of (bytes i) = i"
  by (cases i) (simp add: device_id_of_def)

lemma bytes_device_id_of: "length bs = 8 \<Longrightarrow> bytes (device_id_of bs) = bs"
  by (auto simp: device_id_of_def numeral_eq_Suc length_Suc_conv)

section \<open>Text form\<close>

definition hex_nibble :: "char \<Rightarrow> u8 option" where
  "hex_nibble c =
     (let n = (of_char c :: nat)
      in if 48 \<le> n \<and> n \<le> 57 then Some (of_nat (n - 48))
         else if 97 \<le> n \<and> n \<le> 102 then Some (of_nat (n - 97 + 10))
         else None)"

definition kHexDigits :: string where
  "kHexDigits = ''0123456789abcdef''"

function parse_loop :: "string \<Rightarrow> nat \<Rightarrow> u8 list \<Rightarrow> u8 list option" where
  "parse_loop text i bs =
     (if i < kByteLength
      then (case hex_nibble (text ! (i * 2)) of
              None \<Rightarrow> None
            | Some high \<Rightarrow>
                (case hex_nibble (text ! (i * 2 + 1)) of
                   None \<Rightarrow> None
                 | Some low \<Rightarrow> parse_loop text (i + 1) (bs[i := push_bit 4 high OR low])))
      else Some bs)"
  by pat_completeness auto
termination by (relation "measure (\<lambda>(text, i, bs). kByteLength - i)") auto

declare parse_loop.simps [simp del]

text \<open>\<open>DeviceId::parse\<close>: a null text, a null result or a wrong length is refused.\<close>

definition parse :: "string option \<Rightarrow> nat \<Rightarrow> DeviceId option \<Rightarrow> bool \<times> DeviceId option" where
  "parse text len out =
     (case (text, out) of
        (Some t, Some old) \<Rightarrow>
          if len \<noteq> kHexLength then (False, Some old)
          else (case parse_loop t 0 (replicate kByteLength 0) of
                  None \<Rightarrow> (False, Some old)
                | Some bs \<Rightarrow> (True, Some (device_id_of bs)))
      | _ \<Rightarrow> (False, out))"

definition hex_high :: "u8 \<Rightarrow> char" where
  "hex_high b = kHexDigits ! unat (drop_bit 4 b AND 15)"

definition hex_low :: "u8 \<Rightarrow> char" where
  "hex_low b = kHexDigits ! unat (b AND 15)"

function format_loop :: "u8 list \<Rightarrow> nat \<Rightarrow> string \<Rightarrow> string" where
  "format_loop bs i out =
     (if i < kByteLength
      then format_loop bs (i + 1)
             (out[i * 2 := hex_high (bs ! i), i * 2 + 1 := hex_low (bs ! i)])
      else out)"
  by pat_completeness auto
termination by (relation "measure (\<lambda>(bs, i, out). kByteLength - i)") auto

declare format_loop.simps [simp del]

definition format_id :: "DeviceId \<Rightarrow> string option \<Rightarrow> nat \<Rightarrow> bool \<times> string option" where
  "format_id i out out_capacity =
     (case out of
        None \<Rightarrow> (False, None)
      | Some buf \<Rightarrow>
          if out_capacity < kHexLength then (False, Some buf)
          else (True, Some (format_loop (bytes i) 0 buf)))"

section \<open>Validity and ordering\<close>

text \<open>The loop keeps the two flags \<open>all_zero\<close> and \<open>all_ff\<close>.\<close>

fun valid_loop :: "u8 list \<Rightarrow> bool \<Rightarrow> bool \<Rightarrow> bool" where
  "valid_loop [] all_zero all_ff \<longleftrightarrow> \<not> all_zero \<and> \<not> all_ff"
| "valid_loop (b # bs) all_zero all_ff \<longleftrightarrow>
     valid_loop bs (if b \<noteq> 0 then False else all_zero) (if b \<noteq> 255 then False else all_ff)"

definition valid :: "DeviceId \<Rightarrow> bool" where
  "valid i = valid_loop (bytes i) True True"

fun bytes_less :: "u8 list \<Rightarrow> u8 list \<Rightarrow> bool" where
  "bytes_less (x # xs) (y # ys) = (if x \<noteq> y then x < y else bytes_less xs ys)"
| "bytes_less _ _ = False"

lemma valid_loop_iff:
  "valid_loop bs z f \<longleftrightarrow> (z \<longrightarrow> (\<exists>b \<in> set bs. b \<noteq> 0)) \<and> (f \<longrightarrow> (\<exists>b \<in> set bs. b \<noteq> 255))"
  by (induction bs z f rule: valid_loop.induct) auto

lemma valid_iff:
  "valid i \<longleftrightarrow> i \<noteq> no_device_id \<and> i \<noteq> DeviceId 255 255 255 255 255 255 255 255"
  by (cases i) (auto simp: valid_def valid_loop_iff no_device_id_def)

lemma not_valid_default [simp]: "\<not> valid no_device_id"
  by (simp add: valid_iff)

instantiation DeviceId :: linorder
begin

definition less_DeviceId :: "DeviceId \<Rightarrow> DeviceId \<Rightarrow> bool" where
  "less_DeviceId i j = bytes_less (bytes i) (bytes j)"

definition less_eq_DeviceId :: "DeviceId \<Rightarrow> DeviceId \<Rightarrow> bool" where
  "less_eq_DeviceId i j \<longleftrightarrow> i = j \<or> bytes_less (bytes i) (bytes j)"

instance
proof
  fix x y z :: DeviceId
  have irr: "\<not> bytes_less a a" for a by (induction a) auto
  have asym: "bytes_less a b \<Longrightarrow> \<not> bytes_less b a" for a b
    by (induction a b rule: bytes_less.induct) (auto split: if_splits)
  have trans: "bytes_less a b \<Longrightarrow> bytes_less b c \<Longrightarrow> bytes_less a c" for a b c
  proof (induction a b arbitrary: c rule: bytes_less.induct)
    case (1 u a v b)
    then show ?case by (cases c) (auto split: if_splits)
  qed auto
  have tot: "length a = length b \<Longrightarrow> a = b \<or> bytes_less a b \<or> bytes_less b a" for a b
    by (induction a b rule: list_induct2) auto
  show "x < y \<longleftrightarrow> x \<le> y \<and> \<not> y \<le> x"
    using irr asym by (auto simp: less_DeviceId_def less_eq_DeviceId_def)
  show "x \<le> x" by (simp add: less_eq_DeviceId_def)
  show "x \<le> y \<Longrightarrow> y \<le> z \<Longrightarrow> x \<le> z"
    using trans by (auto simp: less_eq_DeviceId_def)
  show "x \<le> y \<Longrightarrow> y \<le> x \<Longrightarrow> x = y"
    using asym by (auto simp: less_eq_DeviceId_def)
  show "x \<le> y \<or> y \<le> x"
    using tot[of "bytes x" "bytes y"] by (auto simp: less_eq_DeviceId_def bytes_inj)
qed

end

section \<open>Round trip\<close>

text \<open>One hex digit, one byte.\<close>

lemma hex_digits_char:
  "\<forall>m \<in> set [0..<10]. kHexDigits ! m = char_of (48 + m)"
  "\<forall>m \<in> set [10..<16]. kHexDigits ! m = char_of (87 + m)"
  by code_simp+

lemma hex_digit_num: "m < 10 \<Longrightarrow> kHexDigits ! m = char_of (48 + m)"
  using hex_digits_char(1) unfolding set_upt by (metis atLeastLessThan_iff zero_le)

lemma hex_digit_letter: "m < 6 \<Longrightarrow> kHexDigits ! (10 + m) = char_of (97 + m)"
proof -
  assume "m < 6"
  then have "10 + m \<in> {10..<16}" by simp
  then have "kHexDigits ! (10 + m) = char_of (87 + (10 + m))"
    using hex_digits_char(2) unfolding set_upt by blast
  then show "kHexDigits ! (10 + m) = char_of (97 + m)" by simp
qed

lemma hex_digit_nibble: "n < 16 \<Longrightarrow> hex_nibble (kHexDigits ! n) = Some (of_nat n)"
proof (cases "n < 10")
  case True
  then show ?thesis by (simp add: hex_nibble_def hex_digit_num)
next
  case False
  assume "n < 16"
  with False obtain m where "n = 10 + m" "m < 6" by (auto simp: not_less dest!: le_Suc_ex)
  then show ?thesis by (simp add: hex_nibble_def hex_digit_letter)
qed

lemma hex_nibble_digit:
  assumes "hex_nibble c = Some v"
  shows "unat v < 16 \<and> kHexDigits ! unat v = c"
proof -
  define n where "n = (of_char c :: nat)"
  have c: "c = char_of n" by (simp add: n_def)
  have "48 \<le> n \<and> n < 58 \<and> v = of_nat (n - 48) \<or> 97 \<le> n \<and> n < 103 \<and> v = of_nat (10 + (n - 97))"
    using assms unfolding hex_nibble_def Let_def n_def[symmetric]
    by (auto split: if_splits simp: add.commute)
  then show ?thesis
  proof (elim disjE conjE)
    assume n: "48 \<le> n" "n < 58" "v = of_nat (n - 48)"
    define m where "m = n - 48"
    then have m: "n = 48 + m" "m < 10" using n by auto
    then have "unat v = m" using n(3) unfolding m_def[symmetric]
      by (simp add: unat_of_nat take_bit_nat_eq_self)
    then show ?thesis using m hex_digit_num[of m] by (simp add: c)
  next
    assume n: "97 \<le> n" "n < 103" "v = of_nat (10 + (n - 97))"
    define m where "m = n - 97"
    then have m: "n = 97 + m" "m < 6" using n by auto
    then have "unat v = 10 + m" using n(3) unfolding m_def[symmetric]
      by (simp only: unat_of_nat) (simp add: take_bit_nat_eq_self)
    then show ?thesis using m hex_digit_letter[of m] by (simp add: c)
  qed
qed

lemma bit_15_iff: "bit (15::int) n \<longleftrightarrow> n < 4"
proof -
  have "bit (mask 4 :: int) n \<longleftrightarrow> n < 4" unfolding bit_mask_iff by simp
  then show ?thesis by (simp add: mask_eq_exp_minus_1)
qed

lemma nibbles_compose: "push_bit 4 (drop_bit 4 b AND 15) OR (b AND 15) = (b::u8)"
  by (rule bit_word_eqI) (auto simp: bit_simps bit_15_iff simp del: push_bit_and)

lemma nibble_bits: "unat (h::u8) < 16 \<Longrightarrow> bit h n \<Longrightarrow> n < 4"
proof -
  assume "unat h < 16" and b: "bit h n"
  then have "take_bit 4 h = h"
    by (simp add: word_eq_iff_unsigned[where 'a = nat] unsigned_take_bit_eq take_bit_nat_eq_self)
  then show "n < 4" using b by (metis bit_take_bit_iff)
qed

lemma nibbles_split:
  assumes "unat h < 16" "unat l < 16"
  shows "drop_bit 4 (push_bit 4 h OR l) AND 15 = (h::u8) \<and> (push_bit 4 h OR l) AND 15 = l"
  by (auto intro!: bit_word_eqI simp: bit_simps bit_15_iff simp del: push_bit_or drop_bit_or
      dest: nibble_bits[OF assms(1)] nibble_bits[OF assms(2)])

lemma low_nibble_less: "unat ((b::u8) AND 15) < 16"
proof -
  have "b AND 15 \<le> 15" by (rule word_and_le1)
  then show ?thesis by (simp add: word_le_nat_alt)
qed

text \<open>Both loops, as operations on whole lists.\<close>

definition byte_at :: "string \<Rightarrow> nat \<Rightarrow> u8 option" where
  "byte_at t k =
     (case hex_nibble (t ! (k * 2)) of
        None \<Rightarrow> None
      | Some h \<Rightarrow> map_option (\<lambda>l. push_bit 4 h OR l) (hex_nibble (t ! (k * 2 + 1))))"

lemma parse_loop_eq:
  assumes "i \<le> 8" "length bs = 8"
  shows "parse_loop t i bs = map_option ((@) (take i bs)) (those (map (byte_at t) [i..<8]))"
  using assms
proof (induction t i bs rule: parse_loop.induct)
  case (1 t i bs)
  show ?case
  proof (cases "i < 8")
    case True
    then have split: "[i..<8] = i # [Suc i..<8]" by (rule upt_conv_Cons)
    show ?thesis
    proof (cases "byte_at t i")
      case None
      then show ?thesis using True
        by (subst parse_loop.simps) (auto simp: split byte_at_def kByteLength_def split: option.splits)
    next
      case (Some b)
      then obtain h l where hl: "hex_nibble (t ! (i * 2)) = Some h"
          "hex_nibble (t ! (i * 2 + 1)) = Some l" "b = push_bit 4 h OR l"
        by (auto simp: byte_at_def split: option.splits)
      have "parse_loop t i bs = parse_loop t (i + 1) (bs[i := b])"
        using True hl by (subst parse_loop.simps) (simp add: kByteLength_def)
      also have "\<dots> = map_option ((@) (take (i + 1) (bs[i := b]))) (those (map (byte_at t) [Suc i..<8]))"
        using "1.IH"[OF _ hl(1,2)] True "1.prems" hl(3) by (simp add: kByteLength_def)
      also have "take (i + 1) (bs[i := b]) = take i bs @ [b]"
        using True "1.prems" by (simp add: take_Suc_conv_app_nth)
      finally show ?thesis using Some by (simp add: split option.map_comp comp_def)
    qed
  next
    case False
    then show ?thesis using "1.prems" by (subst parse_loop.simps) (simp add: kByteLength_def)
  qed
qed

lemma format_loop_eq:
  assumes "i \<le> 8" "16 \<le> length out"
  shows "format_loop bs i out =
    take (i * 2) out @ concat (map (\<lambda>k. [hex_high (bs ! k), hex_low (bs ! k)]) [i..<8]) @ drop 16 out"
  using assms
proof (induction bs i out rule: format_loop.induct)
  case (1 bs i out)
  show ?case
  proof (cases "i < 8")
    case True
    then have split: "[i..<8] = i # [Suc i..<8]" by (rule upt_conv_Cons)
    let ?out = "out[i * 2 := hex_high (bs ! i), i * 2 + 1 := hex_low (bs ! i)]"
    have "format_loop bs i out = format_loop bs (i + 1) ?out"
      using True by (subst format_loop.simps) (simp add: kByteLength_def)
    also have "\<dots> = take (Suc (Suc (i * 2))) ?out @
        concat (map (\<lambda>k. [hex_high (bs ! k), hex_low (bs ! k)]) [Suc i..<8]) @ drop 16 ?out"
      using "1.IH" True "1.prems" by (simp add: kByteLength_def)
    also have "take (Suc (Suc (i * 2))) ?out = take (i * 2) out @ [hex_high (bs ! i), hex_low (bs ! i)]"
      using True "1.prems" by (simp add: take_Suc_conv_app_nth)
    also have "drop 16 ?out = drop 16 out" using True by simp
    finally show ?thesis by (simp add: split)
  next
    case False
    then have "i = 8" using "1.prems" by simp
    then show ?thesis by (subst format_loop.simps) (simp add: kByteLength_def)
  qed
qed

definition hex_text :: "DeviceId \<Rightarrow> string" where
  "hex_text i = concat (map (\<lambda>b. [hex_high b, hex_low b]) (bytes i))"

lemma length_hex_text [simp]: "length (hex_text i) = 16"
  by (cases i) (simp add: hex_text_def)

lemma format_id_eq:
  assumes "16 \<le> out_capacity" "16 \<le> length buf"
  shows "format_id i (Some buf) out_capacity = (True, Some (hex_text i @ drop 16 buf))"
proof -
  have "concat (map (\<lambda>k. [hex_high (bytes i ! k), hex_low (bytes i ! k)]) [0..<8]) = hex_text i"
    by (cases i) (simp add: hex_text_def upt_conv_Cons)
  then show ?thesis
    using assms format_loop_eq[of 0 buf "bytes i"] by (simp add: format_id_def kHexLength_def kByteLength_def)
qed

lemma parse_eq:
  assumes "length t = 16"
  shows "parse (Some t) (length t) (Some old) =
    (case those (map (byte_at t) [0..<8]) of None \<Rightarrow> (False, Some old)
     | Some bs \<Rightarrow> (True, Some (device_id_of bs)))"
  using parse_loop_eq[of 0 "replicate 8 0" t] assms
  by (simp add: parse_def kHexLength_def kByteLength_def option.map_id split: option.splits)

lemma those_Some_iff: "those xs = Some ys \<longleftrightarrow> xs = map Some ys"
  by (induction xs arbitrary: ys) (auto split: option.splits)

lemma hex_text_nth:
  assumes "k < 8"
  shows "hex_text i ! (k * 2) = hex_high (bytes i ! k)"
    and "hex_text i ! (k * 2 + 1) = hex_low (bytes i ! k)"
proof -
  have "k \<in> {0, 1, 2, 3, 4, 5, 6, 7}" using assms by auto
  then show "hex_text i ! (k * 2) = hex_high (bytes i ! k)"
      "hex_text i ! (k * 2 + 1) = hex_low (bytes i ! k)"
    by (cases i; auto simp: hex_text_def)+
qed

lemma byte_at_iff:
  "byte_at t k = Some b \<longleftrightarrow> t ! (k * 2) = hex_high b \<and> t ! (k * 2 + 1) = hex_low b"
proof
  assume "byte_at t k = Some b"
  then obtain h l where hl: "hex_nibble (t ! (k * 2)) = Some h"
      "hex_nibble (t ! (k * 2 + 1)) = Some l" "b = push_bit 4 h OR l"
    by (auto simp: byte_at_def split: option.splits)
  note d = hex_nibble_digit[OF hl(1)] hex_nibble_digit[OF hl(2)]
  from nibbles_split[of h l] d
  show "t ! (k * 2) = hex_high b \<and> t ! (k * 2 + 1) = hex_low b"
    by (simp add: hl(3) hex_high_def hex_low_def)
next
  assume "t ! (k * 2) = hex_high b \<and> t ! (k * 2 + 1) = hex_low b"
  then have t: "t ! (k * 2) = hex_high b" "t ! (k * 2 + 1) = hex_low b" by blast+
  have "hex_nibble (hex_high b) = Some (drop_bit 4 b AND 15)" "hex_nibble (hex_low b) = Some (b AND 15)"
    unfolding hex_high_def hex_low_def
    by (simp_all add: hex_digit_nibble[OF low_nibble_less])
  then show "byte_at t k = Some b"
    unfolding byte_at_def t by (simp only: option.case option.map nibbles_compose)
qed

lemma parse_hex_text:
  "parse (Some t) (length t) (Some old) = (True, Some i) \<longleftrightarrow> t = hex_text i"
proof
  assume p: "parse (Some t) (length t) (Some old) = (True, Some i)"
  then have len: "length t = 16"
    by (auto simp: parse_def kHexLength_def kByteLength_def split: if_splits)
  from p obtain bs where bs: "those (map (byte_at t) [0..<8]) = Some bs" "i = device_id_of bs"
    using parse_eq[OF len, of old] by (auto split: option.splits)
  have map: "map (byte_at t) [0..<8] = map Some bs" using bs(1) by (simp add: those_Some_iff)
  have lb: "length bs = 8" using arg_cong[OF map, of length] by simp
  have i: "bytes i = bs" using bs(2) lb by (simp add: bytes_device_id_of)
  have at: "t ! (k * 2) = hex_high (bs ! k) \<and> t ! (k * 2 + 1) = hex_low (bs ! k)" if "k < 8" for k
    using arg_cong[OF map, of "\<lambda>xs. xs ! k"] that lb by (simp add: byte_at_iff)
  show "t = hex_text i"
  proof (rule nth_equalityI)
    fix n assume "n < length t"
    then have k: "n div 2 < 8" using len by simp
    have "n = n div 2 * 2 \<or> n = n div 2 * 2 + 1" by presburger
    then show "t ! n = hex_text i ! n"
      using at[OF k] hex_text_nth[OF k, of i] by (metis i)
  qed (simp add: len)
next
  assume t: "t = hex_text i"
  have "map (byte_at t) [0..<8] = map Some (bytes i)"
    using hex_text_nth[of _ i] by (intro nth_equalityI) (auto simp: t byte_at_iff)
  then have "those (map (byte_at t) [0..<8]) = Some (bytes i)" by (simp add: those_Some_iff)
  then show "parse (Some t) (length t) (Some old) = (True, Some i)"
    using parse_eq[of t old] by (simp add: t)
qed

section \<open>Properties\<close>

text \<open>
  C11: the canonical text form is a bijection: \<open>parse\<close> accepts a text and yields an identity
  exactly when \<open>format\<close> writes that very text for that identity. So every formatted identity parses
  back to itself, and nothing but the sixteen canonical lowercase digits is accepted.
\<close>

theorem device_id_text_roundtrip:
  "parse (Some t) (length t) (Some old) = (True, Some i) \<longleftrightarrow>
   format_id i (Some (replicate 16 c)) kHexLength = (True, Some t)"
proof -
  have "format_id i (Some (replicate 16 c)) kHexLength = (True, Some (hex_text i))"
    using format_id_eq[of kHexLength "replicate 16 c" i] by (simp add: kHexLength_def kByteLength_def)
  then show ?thesis by (auto simp: parse_hex_text)
qed

lemma parse_failure_keeps_out: "parse t n out = (False, out') \<Longrightarrow> out' = out"
  by (auto simp: parse_def split: option.splits if_splits)

end
