(* ===== verification/CoreTypes.thy ===== *)
theory CoreTypes
  imports DeviceIdentity
begin

text \<open>
  The data of the core layer: errors, events, effects, the device record and the core state, and
  the effect list (\<^verbatim>\<open>components/core/include/\<close>). The constructors of an \<^verbatim>\<open>enum class\<close> keep their
  names; where two enums share a name the enum is named in it (\<^verbatim>\<open>CoreEventType::kUnknown\<close> is
  \<open>kEventUnknown\<close>). A value outside an enum's list, which only a cast could make, takes the
  \<^verbatim>\<open>default\<close> branch in the code and has no counterpart here. \<^verbatim>\<open>int32_t\<close>, \<^verbatim>\<open>int16_t\<close> and \<^verbatim>\<open>int8_t\<close>
  fields are words of that width, read by \<open>sint\<close>. A default constructor is a constant
  (\<open>core_event_default\<close>, ...).
\<close>

section \<open>Errors, events, effects\<close>

datatype CoreError =
  kOk | kInvalidArgument | kNotFound | kBusy | kTimeout | kNoCapacity | kInternal

definition kNoCorrelationId :: u32 where "kNoCorrelationId = 0"

definition kUnknownDeviceShortAddr :: u16 where "kUnknownDeviceShortAddr = 0xFFFF"

definition kMaxDevices :: nat where "kMaxDevices = 64"

definition kMaxEffectsPerReduce :: nat where "kMaxEffectsPerReduce = 4"

datatype CoreEventType =
  kEventUnknown | kDeviceJoined | kDeviceLeft | kNetworkUp | kNetworkDown | kAttributeReported
| kCommandSetDevicePowerRequested | kCommandRefreshNetworkRequested
| kCommandResultSuccess | kCommandResultTimeout | kCommandResultFailed
| kDeviceInterviewCompleted | kDeviceBindingReady | kDeviceReportingConfigured
| kDeviceTelemetryUpdated | kDeviceStale

datatype CoreTelemetryKind =
  kTelemetryNone | kTemperatureCentiC | kOccupancy | kContactIasZoneStatus
| kBatteryPercent | kBatteryVoltageMilliV | kLqi | kRssiDbm

record CoreEvent =
  ev_type :: CoreEventType
  ev_correlation_id :: u32
  ev_device_id :: DeviceId
  ev_device_short_addr :: u16
  ev_cluster_id :: u16
  ev_attribute_id :: u16
  ev_value_u32 :: u32
  ev_value_bool :: bool
  ev_telemetry_kind :: CoreTelemetryKind
  ev_telemetry_i32 :: u32
  ev_telemetry_valid :: bool

definition core_event_default :: CoreEvent where
  "core_event_default =
     \<lparr>ev_type = kEventUnknown, ev_correlation_id = kNoCorrelationId, ev_device_id = no_device_id,
      ev_device_short_addr = kUnknownDeviceShortAddr, ev_cluster_id = 0, ev_attribute_id = 0,
      ev_value_u32 = 0, ev_value_bool = False, ev_telemetry_kind = kTelemetryNone,
      ev_telemetry_i32 = 0, ev_telemetry_valid = False\<rparr>"

datatype CoreEffectType =
  kEffectNone | kPersistState | kPublishTelemetry | kSetLed | kSendZigbeeOnOff
| kEffectRefreshNetwork | kEmitCommandResult | kZigbeeInterview | kZigbeeBind
| kZigbeeConfigureReporting | kZigbeeReadAttributes

record CoreEffect =
  ef_type :: CoreEffectType
  ef_correlation_id :: u32
  ef_device_short_addr :: u16
  ef_arg_u32 :: u32
  ef_arg_bool :: bool

definition core_effect_default :: CoreEffect where
  "core_effect_default =
     \<lparr>ef_type = kEffectNone, ef_correlation_id = kNoCorrelationId,
      ef_device_short_addr = kUnknownDeviceShortAddr, ef_arg_u32 = 0, ef_arg_bool = False\<rparr>"

section \<open>State\<close>

datatype CoreReportingState =
  kReportingUnknown | kInterviewCompleted | kBindingReady | kReportingConfigured
| kReportingActive | kStale

datatype CoreOccupancyState = kOccupancyUnknown | kNotOccupied | kOccupied

datatype CoreContactState = kContactUnknown | kClosed | kOpen

record CoreDeviceRecord =
  dr_device_id :: DeviceId
  dr_short_addr :: u16
  dr_online :: bool
  dr_power_on :: bool
  dr_reporting_state :: CoreReportingState
  dr_last_report_at_ms :: u32
  dr_stale :: bool
  dr_temperature_centi_c :: u16
  dr_has_temperature :: bool
  dr_occupancy_state :: CoreOccupancyState
  dr_contact_state :: CoreContactState
  dr_contact_tamper :: bool
  dr_contact_battery_low :: bool
  dr_battery_percent :: u8
  dr_has_battery :: bool
  dr_battery_voltage_mv :: u16
  dr_has_battery_voltage :: bool
  dr_lqi :: u8
  dr_has_lqi :: bool
  dr_rssi_dbm :: u8
  dr_has_rssi :: bool

definition device_record_default :: CoreDeviceRecord where
  "device_record_default =
     \<lparr>dr_device_id = no_device_id, dr_short_addr = kUnknownDeviceShortAddr, dr_online = False,
      dr_power_on = False, dr_reporting_state = kReportingUnknown, dr_last_report_at_ms = 0,
      dr_stale = False, dr_temperature_centi_c = 0, dr_has_temperature = False,
      dr_occupancy_state = kOccupancyUnknown, dr_contact_state = kContactUnknown,
      dr_contact_tamper = False, dr_contact_battery_low = False, dr_battery_percent = 0,
      dr_has_battery = False, dr_battery_voltage_mv = 0, dr_has_battery_voltage = False,
      dr_lqi = 0, dr_has_lqi = False, dr_rssi_dbm = 0, dr_has_rssi = False\<rparr>"

record CoreState =
  st_revision :: u32
  st_device_count :: u16
  st_network_connected :: bool
  st_last_command_status :: u8
  st_devices :: "CoreDeviceRecord list"

definition core_state_default :: CoreState where
  "core_state_default =
     \<lparr>st_revision = 0, st_device_count = 0, st_network_connected = False,
      st_last_command_status = 0, st_devices = replicate kMaxDevices device_record_default\<rparr>"

section \<open>The effect list\<close>

record CoreEffectList =
  el_items :: "CoreEffect list"
  el_count :: nat

definition effect_list_default :: CoreEffectList where
  "effect_list_default =
     \<lparr>el_items = replicate kMaxEffectsPerReduce core_effect_default, el_count = 0\<rparr>"

definition effect_list_push :: "CoreEffect \<Rightarrow> CoreEffectList \<Rightarrow> bool \<times> CoreEffectList" where
  "effect_list_push e l =
     (if el_count l \<ge> length (el_items l) then (False, l)
      else (True, \<lparr>el_items = (el_items l)[el_count l := e], el_count = el_count l + 1\<rparr>))"

text \<open>The effects the executor sees: the first \<open>count\<close> items.\<close>

definition effects_of :: "CoreEffectList \<Rightarrow> CoreEffect list" where
  "effects_of l = take (el_count l) (el_items l)"

record CoreReduceResult =
  rr_next :: CoreState
  rr_effects :: CoreEffectList

lemma effects_of_default [simp]: "effects_of effect_list_default = []"
  by (simp add: effects_of_def effect_list_default_def)

lemma effect_list_push_room:
  assumes "el_count l < length (el_items l)"
  shows "fst (effect_list_push e l)"
    and "effects_of (snd (effect_list_push e l)) = effects_of l @ [e]"
    and "length (el_items (snd (effect_list_push e l))) = length (el_items l)"
    and "el_count (snd (effect_list_push e l)) = Suc (el_count l)"
  using assms by (simp_all add: effect_list_push_def effects_of_def take_Suc_conv_app_nth)

end
