(* ===== verification/SlotTable.thy ===== *)
theory SlotTable
  imports Prelude
begin

text \<open>
  The fixed arrays of slots that most managers of the gateway keep: a slot is in use or free, a
  used slot has a key, and every operation scans for the key and falls back to the first free
  slot. The interface \<open>slot_table\<close> gives the map such an array stands for; its lemmas say what
  writing, modifying and clearing a slot do to that map and to the uniqueness of keys. The
  components instantiate it with their own slot type.
\<close>

definition unique_slots :: "('e \<Rightarrow> bool) \<Rightarrow> ('e \<Rightarrow> 'k) \<Rightarrow> 'e list \<Rightarrow> bool" where
  "unique_slots used key xs \<longleftrightarrow>
     (\<forall>i < length xs. \<forall>j < length xs.
        used (xs ! i) \<and> used (xs ! j) \<and> key (xs ! i) = key (xs ! j) \<longrightarrow> i = j)"

definition find_slot :: "('e \<Rightarrow> bool) \<Rightarrow> ('e \<Rightarrow> 'k) \<Rightarrow> 'k \<Rightarrow> 'e list \<Rightarrow> nat option" where
  "find_slot used key k xs = find_index (\<lambda>e. used e \<and> key e = k) xs"

definition slot_map :: "('e \<Rightarrow> bool) \<Rightarrow> ('e \<Rightarrow> 'k) \<Rightarrow> 'e list \<Rightarrow> 'k \<Rightarrow> 'e option" where
  "slot_map used key xs k = map_option ((!) xs) (find_slot used key k xs)"

lemma unique_slotsD:
  assumes "unique_slots used key xs" "i < length xs" "j < length xs"
    and "used (xs ! i)" "used (xs ! j)" "key (xs ! i) = key (xs ! j)"
  shows "i = j"
  using assms unfolding unique_slots_def by blast

lemma unique_slots_replicate: "\<not> used b \<Longrightarrow> unique_slots used key (replicate n b)"
  by (simp add: unique_slots_def)

lemma unique_slots_write:
  assumes "unique_slots used key xs"
    and "\<And>j. j < length xs \<Longrightarrow> j \<noteq> i \<Longrightarrow> used y \<Longrightarrow> used (xs ! j) \<Longrightarrow> key (xs ! j) \<noteq> key y"
  shows "unique_slots used key (xs[i := y])"
  unfolding unique_slots_def
proof (intro allI impI)
  fix a b
  assume ab: "a < length (xs[i := y])" "b < length (xs[i := y])"
    and h: "used (xs[i := y] ! a) \<and> used (xs[i := y] ! b) \<and> key (xs[i := y] ! a) = key (xs[i := y] ! b)"
  show "a = b"
  proof (cases "a = i \<or> b = i")
    case True
    then show ?thesis using ab h assms(2)[of a] assms(2)[of b] by (auto simp: nth_list_update split: if_splits)
  next
    case False
    then show ?thesis using ab h unique_slotsD[OF assms(1), of a b] by (simp add: nth_list_update)
  qed
qed

lemma unique_slots_Cons:
  assumes "unique_slots used key (x # xs)"
  shows "unique_slots used key xs" "\<And>y. y \<in> set xs \<Longrightarrow> used x \<Longrightarrow> used y \<Longrightarrow> key y \<noteq> key x"
proof -
  show "unique_slots used key xs"
    unfolding unique_slots_def
  proof (intro allI impI)
    fix i j
    assume "i < length xs" "j < length xs" "used (xs ! i) \<and> used (xs ! j) \<and> key (xs ! i) = key (xs ! j)"
    then show "i = j" using unique_slotsD[OF assms, of "Suc i" "Suc j"] by simp
  qed
  fix y
  assume y: "y \<in> set xs" "used x" "used y"
  then obtain j where "j < length xs" "xs ! j = y" by (auto simp: in_set_conv_nth)
  with y show "key y \<noteq> key x" using unique_slotsD[OF assms, of 0 "Suc j"] by auto
qed

lemma unique_slots_distinct:
  "unique_slots used key xs \<Longrightarrow> distinct (map key (filter (\<lambda>x. used x \<and> P x) xs))"
proof (induction xs)
  case Nil
  then show ?case by simp
next
  case (Cons x xs)
  note c = unique_slots_Cons[OF Cons.prems]
  have "distinct (map key (filter (\<lambda>x. used x \<and> P x) xs))" by (rule Cons.IH) (rule c(1))
  moreover have "key x \<notin> key ` {y \<in> set xs. used y \<and> P y}" if "used x" using c(2) that by force
  ultimately show ?case by simp
qed

lemma finite_dom_slot_map: "finite (dom (slot_map used key xs))"
proof (rule finite_subset)
  show "dom (slot_map used key xs) \<subseteq> key ` set xs"
    by (force simp: slot_map_def find_slot_def dest: find_index_SomeD)
qed simp

locale slot_table =
  fixes used :: "'e \<Rightarrow> bool" and key :: "'e \<Rightarrow> 'k" and blank :: "'e"
  assumes blank_free: "\<not> used blank"
begin

lemma empty_unique: "unique_slots used key (replicate n blank)"
  by (rule unique_slots_replicate) (rule blank_free)

lemma empty_map: "slot_map used key (replicate n blank) k = None"
proof -
  have "find_slot used key k (replicate n blank) = None"
    by (simp add: find_slot_def find_index_None_iff blank_free)
  then show ?thesis by (simp add: slot_map_def)
qed

lemma find_slotD:
  assumes "find_slot used key k xs = Some i"
  shows "i < length xs" and "used (xs ! i)" and "key (xs ! i) = k"
  using find_index_SomeD[OF assms[unfolded find_slot_def]] by simp_all

lemma find_slot_iff:
  assumes "unique_slots used key xs"
  shows "find_slot used key k xs = Some i \<longleftrightarrow> i < length xs \<and> used (xs ! i) \<and> key (xs ! i) = k"
proof
  assume "i < length xs \<and> used (xs ! i) \<and> key (xs ! i) = k"
  with unique_slotsD[OF assms, of i] show "find_slot used key k xs = Some i"
    unfolding find_slot_def by (intro find_index_unique) auto
qed (simp add: find_slotD)

lemma slot_map_iff:
  assumes "unique_slots used key xs"
  shows "slot_map used key xs k = Some e \<longleftrightarrow>
    (\<exists>i < length xs. xs ! i = e \<and> used e \<and> key e = k)"
  using find_slot_iff[OF assms, of k] unfolding slot_map_def by (auto 4 3)

lemma slot_map_None_iff:
  "slot_map used key xs k = None \<longleftrightarrow> (\<forall>i < length xs. used (xs ! i) \<longrightarrow> key (xs ! i) \<noteq> k)"
  unfolding slot_map_def find_slot_def by (auto simp: find_index_None_iff all_set_conv_all_nth)

lemma slot_map_update_iff:
  assumes "unique_slots used key (xs[i := y])" "i < length xs"
  shows "slot_map used key (xs[i := y]) k = Some d \<longleftrightarrow>
    y = d \<and> used d \<and> key d = k \<or> (\<exists>j < length xs. j \<noteq> i \<and> xs ! j = d \<and> used d \<and> key d = k)"
  unfolding slot_map_iff[OF assms(1)] using assms(2)
  by (auto simp: nth_list_update split: if_splits)

text \<open>Writing a used entry over its own slot or over a free one.\<close>

definition writable :: "nat \<Rightarrow> 'e \<Rightarrow> 'e list \<Rightarrow> bool" where
  "writable i e xs \<longleftrightarrow> i < length xs \<and> used e \<and>
     (find_slot used key (key e) xs = Some i \<or>
      find_slot used key (key e) xs = None \<and> \<not> used (xs ! i))"

lemma writable_others:
  assumes "unique_slots used key xs" "writable i e xs" "j < length xs" "j \<noteq> i" "used (xs ! j)"
  shows "key (xs ! j) \<noteq> key e"
proof
  assume "key (xs ! j) = key e"
  with assms(1,3,5) have "find_slot used key (key e) xs = Some j" by (simp add: find_slot_iff)
  with assms(2,4) show False by (simp add: writable_def)
qed

lemma write_unique:
  assumes "unique_slots used key xs" "writable i e xs"
  shows "unique_slots used key (xs[i := e])"
  using writable_others[OF assms] by (intro unique_slots_write[OF assms(1)]) auto

lemma write_map:
  assumes u: "unique_slots used key xs" and w: "writable i e xs"
  shows "slot_map used key (xs[i := e]) = (slot_map used key xs)(key e \<mapsto> e)"
proof
  fix k
  have u': "unique_slots used key (xs[i := e])" by (rule write_unique[OF u w])
  have i: "i < length xs" "used e" using w by (simp_all add: writable_def)
  show "slot_map used key (xs[i := e]) k = ((slot_map used key xs)(key e \<mapsto> e)) k"
  proof (cases "k = key e")
    case True
    then show ?thesis using slot_map_iff[OF u', of k e] i by auto
  next
    case False
    have old: "used (xs ! i) \<Longrightarrow> key (xs ! i) = key e"
      using w by (auto simp: writable_def dest: find_slotD)
    have "slot_map used key (xs[i := e]) k = Some d \<longleftrightarrow> slot_map used key xs k = Some d" for d
      unfolding slot_map_iff[OF u] slot_map_update_iff[OF u' i(1)] using False old by (auto; metis)
    then show ?thesis using False by (metis fun_upd_other option.exhaust)
  qed
qed

lemma write_count:
  assumes "writable i e xs"
  shows "count_where used (xs[i := e]) =
    (case find_slot used key (key e) xs of Some _ \<Rightarrow> count_where used xs
     | None \<Rightarrow> Suc (count_where used xs))"
  using assms find_slotD[of "key e" xs i]
  by (auto simp: writable_def count_where_update_gain split: option.split)

text \<open>Changing an entry without touching its key or its use.\<close>

lemma modify_unique:
  assumes "unique_slots used key xs" "i < length xs" "used e = used (xs ! i)" "key e = key (xs ! i)"
  shows "unique_slots used key (xs[i := e])"
  using assms by (intro unique_slots_write[OF assms(1)]) (metis unique_slotsD)

lemma modify_map_other:
  assumes u: "unique_slots used key xs" and i: "i < length xs"
    and e: "used e = used (xs ! i)" "key e = key (xs ! i)" and k: "k \<noteq> key e \<or> \<not> used e"
  shows "slot_map used key (xs[i := e]) k = slot_map used key xs k"
proof -
  have u': "unique_slots used key (xs[i := e])" by (rule modify_unique[OF u i e])
  have "slot_map used key (xs[i := e]) k = Some d \<longleftrightarrow> slot_map used key xs k = Some d" for d
    unfolding slot_map_iff[OF u] slot_map_update_iff[OF u' i] using i e k by (auto; metis)
  then show ?thesis by (metis option.exhaust)
qed

text \<open>Clearing a slot.\<close>

lemma clear_unique:
  "unique_slots used key xs \<Longrightarrow> unique_slots used key (xs[i := blank])"
  using blank_free by (intro unique_slots_write) auto

lemma clear_map:
  assumes u: "unique_slots used key xs" and f: "find_slot used key k xs = Some i"
  shows "slot_map used key (xs[i := blank]) = (slot_map used key xs)(k := None)"
proof
  fix k'
  have u': "unique_slots used key (xs[i := blank])" by (rule clear_unique[OF u])
  note i = find_slotD[OF f]
  have "slot_map used key (xs[i := blank]) k' = Some d \<longleftrightarrow>
        ((slot_map used key xs)(k := None)) k' = Some d" for d
  proof (cases "k' = k")
    case True
    have "j = i" if "j < length xs" "used (xs ! j)" "key (xs ! j) = k" for j
      using unique_slotsD[OF u that(1) i(1) that(2) i(2)] that(3) i(3) by simp
    then show ?thesis
      unfolding slot_map_update_iff[OF u' i(1)] using True blank_free by auto
  next
    case False
    then show ?thesis
      using i blank_free slot_map_iff[OF u, of k' d]
      unfolding slot_map_update_iff[OF u' i(1)] by (metis fun_upd_other)
  qed
  then show "slot_map used key (xs[i := blank]) k' = ((slot_map used key xs)(k := None)) k'"
    by (metis option.exhaust)
qed

lemma clear_count:
  assumes "find_slot used key k xs = Some i"
  shows "Suc (count_where used (xs[i := blank])) = count_where used xs"
  using find_slotD[OF assms] blank_free by (intro count_where_update_loss)

text \<open>The number of used slots is the size of the map.\<close>

lemma card_dom_slot_map:
  assumes u: "unique_slots used key xs"
  shows "card (dom (slot_map used key xs)) = count_where used xs"
proof -
  let ?I = "{i. i < length xs \<and> used (xs ! i)}"
  have "dom (slot_map used key xs) = (\<lambda>i. key (xs ! i)) ` ?I"
    unfolding dom_def using slot_map_iff[OF u] by (auto simp: image_iff)
  moreover have "inj_on (\<lambda>i. key (xs ! i)) ?I"
    using unique_slotsD[OF u] by (auto intro!: inj_onI)
  moreover have "card ?I = count_where used xs"
    by (simp add: count_where_def length_filter_conv_card)
  ultimately show ?thesis by (simp add: card_image)
qed

end

end
