(* ===== verification/CoreReducer.thy ===== *)
theory CoreReducer
  imports CoreTypes SlotTable
begin

text \<open>
  \<^verbatim>\<open>components/core/core_reducer.cpp\<close>: the pure state transition of the gateway. \<open>core_reduce\<close>
  takes the previous state and an event and returns the next state with the effects to execute.
  The helpers that mutate \<^verbatim>\<open>*out\<close> take and return the result record; the flag
  \<^verbatim>\<open>state_changed\<close> is returned beside it. One definition per helper and per \<^verbatim>\<open>case\<close> of the
  switch.
\<close>

section \<open>Finding records\<close>

definition find_device_index :: "CoreState \<Rightarrow> DeviceId \<Rightarrow> u16 \<Rightarrow> nat option" where
  "find_device_index s device_id short_addr =
     (if valid device_id
      then find_index (\<lambda>d. dr_device_id d = device_id) (st_devices s)
      else if short_addr = kUnknownDeviceShortAddr then None
      else find_index (\<lambda>d. \<not> valid (dr_device_id d) \<and> dr_short_addr d = short_addr) (st_devices s))"

definition find_free_slot :: "CoreState \<Rightarrow> nat option" where
  "find_free_slot s =
     find_index (\<lambda>d. \<not> valid (dr_device_id d) \<and> dr_short_addr d = kUnknownDeviceShortAddr)
       (st_devices s)"

section \<open>Updating the result\<close>

definition push_effect :: "CoreEffect \<Rightarrow> CoreReduceResult \<Rightarrow> CoreReduceResult" where
  "push_effect e out = out\<lparr>rr_effects := snd (effect_list_push e (rr_effects out))\<rparr>"

definition put_device :: "nat \<Rightarrow> CoreDeviceRecord \<Rightarrow> CoreReduceResult \<Rightarrow> CoreReduceResult" where
  "put_device i d out =
     out\<lparr>rr_next := (rr_next out)\<lparr>st_devices := (st_devices (rr_next out))[i := d]\<rparr>\<rparr>"

definition set_device_count :: "u16 \<Rightarrow> CoreReduceResult \<Rightarrow> CoreReduceResult" where
  "set_device_count n out = out\<lparr>rr_next := (rr_next out)\<lparr>st_device_count := n\<rparr>\<rparr>"

definition push_state_persist_and_telemetry :: "CoreReduceResult \<Rightarrow> CoreReduceResult" where
  "push_state_persist_and_telemetry out =
     (let next_revision = st_revision (rr_next out) + 1;
          out1 = push_effect
            \<lparr>ef_type = kPersistState, ef_correlation_id = kNoCorrelationId,
             ef_device_short_addr = kUnknownDeviceShortAddr, ef_arg_u32 = next_revision,
             ef_arg_bool = st_network_connected (rr_next out)\<rparr> out
      in push_effect
            \<lparr>ef_type = kPublishTelemetry, ef_correlation_id = kNoCorrelationId,
             ef_device_short_addr = kUnknownDeviceShortAddr,
             ef_arg_u32 = ucast (st_device_count (rr_next out1)),
             ef_arg_bool = st_network_connected (rr_next out1)\<rparr> out1)"

definition apply_onoff_attribute :: "CoreReduceResult \<Rightarrow> CoreEvent \<Rightarrow> CoreReduceResult \<times> bool" where
  "apply_onoff_attribute out event =
     (if ev_cluster_id event \<noteq> 0x0006 \<or> ev_attribute_id event \<noteq> 0x0000 then (out, False)
      else (case find_device_index (rr_next out) (ev_device_id event) (ev_device_short_addr event) of
              None \<Rightarrow> (out, False)
            | Some i \<Rightarrow>
                (let device = st_devices (rr_next out) ! i
                 in if dr_power_on device \<noteq> ev_value_bool event \<or> \<not> dr_online device
                    then (put_device i (device\<lparr>dr_power_on := ev_value_bool event, dr_online := True\<rparr>) out,
                          True)
                    else (out, False))))"

definition apply_reporting_state ::
  "CoreReduceResult \<Rightarrow> DeviceId \<Rightarrow> u16 \<Rightarrow> CoreReportingState \<Rightarrow> bool \<Rightarrow> CoreReduceResult \<times> bool" where
  "apply_reporting_state out device_id short_addr reporting_state stale =
     (case find_device_index (rr_next out) device_id short_addr of
        None \<Rightarrow> (out, False)
      | Some i \<Rightarrow>
          (let d0 = st_devices (rr_next out) ! i;
               (d1, changed1) = (if dr_reporting_state d0 \<noteq> reporting_state
                                 then (d0\<lparr>dr_reporting_state := reporting_state\<rparr>, True)
                                 else (d0, False));
               (d2, changed2) = (if dr_stale d1 \<noteq> stale
                                 then (d1\<lparr>dr_stale := stale\<rparr>, True)
                                 else (d1, changed1))
           in (put_device i d2 out, changed2)))"

section \<open>Telemetry\<close>

text \<open>The device record after one telemetry kind, and whether a field changed.\<close>

definition telemetry_temperature :: "CoreEvent \<Rightarrow> CoreDeviceRecord \<Rightarrow> CoreDeviceRecord \<times> bool" where
  "telemetry_temperature event d =
     (let next_temp = (ucast (ev_telemetry_i32 event) :: u16)
      in if ev_telemetry_valid event
         then (if \<not> dr_has_temperature d \<or> dr_temperature_centi_c d \<noteq> next_temp
               then (d\<lparr>dr_temperature_centi_c := next_temp, dr_has_temperature := True\<rparr>, True)
               else (d, False))
         else if dr_has_temperature d then (d\<lparr>dr_has_temperature := False\<rparr>, True)
         else (d, False))"

definition telemetry_occupancy :: "CoreEvent \<Rightarrow> CoreDeviceRecord \<Rightarrow> CoreDeviceRecord \<times> bool" where
  "telemetry_occupancy event d =
     (let next_state = (if ev_telemetry_valid event
                        then (if ev_telemetry_i32 event \<noteq> 0 then kOccupied else kNotOccupied)
                        else kOccupancyUnknown)
      in if dr_occupancy_state d \<noteq> next_state
         then (d\<lparr>dr_occupancy_state := next_state\<rparr>, True)
         else (d, False))"

definition telemetry_contact :: "CoreEvent \<Rightarrow> CoreDeviceRecord \<Rightarrow> CoreDeviceRecord \<times> bool" where
  "telemetry_contact event d =
     (let status_mask = ev_telemetry_i32 event;
          (next_contact_state, next_tamper, next_battery_low) =
            (if ev_telemetry_valid event
             then (if status_mask AND 1 \<noteq> 0 then kOpen else kClosed,
                   status_mask AND 2 \<noteq> 0, status_mask AND 4 \<noteq> 0)
             else (kContactUnknown, dr_contact_tamper d, dr_contact_battery_low d));
          (d1, c1) = (if dr_contact_state d \<noteq> next_contact_state
                      then (d\<lparr>dr_contact_state := next_contact_state\<rparr>, True) else (d, False));
          (d2, c2) = (if dr_contact_tamper d1 \<noteq> next_tamper
                      then (d1\<lparr>dr_contact_tamper := next_tamper\<rparr>, True) else (d1, c1))
      in if dr_contact_battery_low d2 \<noteq> next_battery_low
         then (d2\<lparr>dr_contact_battery_low := next_battery_low\<rparr>, True) else (d2, c2))"

text \<open>\<^verbatim>\<open>raw <= lo ? lo : (raw >= hi ? hi : static_cast<T>(raw))\<close> on a signed 32-bit value.\<close>

definition clamp_i32 :: "int \<Rightarrow> int \<Rightarrow> u32 \<Rightarrow> 'a::len word" where
  "clamp_i32 lo hi raw =
     (if sint raw \<le> lo then word_of_int lo
      else if sint raw \<ge> hi then word_of_int hi
      else ucast raw)"

definition telemetry_battery_percent :: "CoreEvent \<Rightarrow> CoreDeviceRecord \<Rightarrow> CoreDeviceRecord \<times> bool" where
  "telemetry_battery_percent event d =
     (let next_percent = clamp_i32 0 100 (ev_telemetry_i32 event)
      in if ev_telemetry_valid event
         then (if \<not> dr_has_battery d \<or> dr_battery_percent d \<noteq> next_percent
               then (d\<lparr>dr_battery_percent := next_percent, dr_has_battery := True\<rparr>, True)
               else (d, False))
         else if dr_has_battery d then (d\<lparr>dr_has_battery := False\<rparr>, True)
         else (d, False))"

definition telemetry_battery_voltage :: "CoreEvent \<Rightarrow> CoreDeviceRecord \<Rightarrow> CoreDeviceRecord \<times> bool" where
  "telemetry_battery_voltage event d =
     (let next_mv = clamp_i32 0 65535 (ev_telemetry_i32 event)
      in if ev_telemetry_valid event
         then (if \<not> dr_has_battery_voltage d \<or> dr_battery_voltage_mv d \<noteq> next_mv
               then (d\<lparr>dr_battery_voltage_mv := next_mv, dr_has_battery_voltage := True\<rparr>, True)
               else (d, False))
         else if dr_has_battery_voltage d then (d\<lparr>dr_has_battery_voltage := False\<rparr>, True)
         else (d, False))"

definition telemetry_lqi :: "CoreEvent \<Rightarrow> CoreDeviceRecord \<Rightarrow> CoreDeviceRecord \<times> bool" where
  "telemetry_lqi event d =
     (let next_lqi = clamp_i32 0 255 (ev_telemetry_i32 event)
      in if ev_telemetry_valid event
         then (if \<not> dr_has_lqi d \<or> dr_lqi d \<noteq> next_lqi
               then (d\<lparr>dr_lqi := next_lqi, dr_has_lqi := True\<rparr>, True)
               else (d, False))
         else if dr_has_lqi d then (d\<lparr>dr_has_lqi := False\<rparr>, True)
         else (d, False))"

definition telemetry_rssi :: "CoreEvent \<Rightarrow> CoreDeviceRecord \<Rightarrow> CoreDeviceRecord \<times> bool" where
  "telemetry_rssi event d =
     (let next_rssi = clamp_i32 (-128) 127 (ev_telemetry_i32 event)
      in if ev_telemetry_valid event
         then (if \<not> dr_has_rssi d \<or> dr_rssi_dbm d \<noteq> next_rssi
               then (d\<lparr>dr_rssi_dbm := next_rssi, dr_has_rssi := True\<rparr>, True)
               else (d, False))
         else if dr_has_rssi d then (d\<lparr>dr_has_rssi := False\<rparr>, True)
         else (d, False))"

text \<open>The first three updates of every telemetry event: active again, not stale, report time.\<close>

definition telemetry_refresh :: "CoreEvent \<Rightarrow> CoreDeviceRecord \<Rightarrow> CoreDeviceRecord \<times> bool" where
  "telemetry_refresh event d0 =
     (let (d1, c1) = (if dr_reporting_state d0 \<noteq> kReportingActive
                      then (d0\<lparr>dr_reporting_state := kReportingActive\<rparr>, True) else (d0, False));
          (d2, c2) = (if dr_stale d1 then (d1\<lparr>dr_stale := False\<rparr>, True) else (d1, c1))
      in if dr_last_report_at_ms d2 \<noteq> ev_value_u32 event
         then (d2\<lparr>dr_last_report_at_ms := ev_value_u32 event\<rparr>, True) else (d2, c2))"

definition telemetry_kind_update :: "CoreEvent \<Rightarrow> CoreDeviceRecord \<Rightarrow> CoreDeviceRecord \<times> bool" where
  "telemetry_kind_update event d =
     (case ev_telemetry_kind event of
        kTemperatureCentiC \<Rightarrow> telemetry_temperature event d
      | kOccupancy \<Rightarrow> telemetry_occupancy event d
      | kContactIasZoneStatus \<Rightarrow> telemetry_contact event d
      | kBatteryPercent \<Rightarrow> telemetry_battery_percent event d
      | kBatteryVoltageMilliV \<Rightarrow> telemetry_battery_voltage event d
      | kLqi \<Rightarrow> telemetry_lqi event d
      | kRssiDbm \<Rightarrow> telemetry_rssi event d
      | kTelemetryNone \<Rightarrow> (d, False))"

definition apply_telemetry_update :: "CoreReduceResult \<Rightarrow> CoreEvent \<Rightarrow> CoreReduceResult \<times> bool" where
  "apply_telemetry_update out event =
     (case find_device_index (rr_next out) (ev_device_id event) (ev_device_short_addr event) of
        None \<Rightarrow> (out, False)
      | Some i \<Rightarrow>
          (let (d1, c1) = telemetry_refresh event (st_devices (rr_next out) ! i);
               (d2, c2) = telemetry_kind_update event d1
           in (put_device i d2 out, c1 \<or> c2)))"

section \<open>The cases of the switch\<close>

definition plain_effect :: "CoreEffectType \<Rightarrow> u32 \<Rightarrow> u16 \<Rightarrow> u32 \<Rightarrow> bool \<Rightarrow> CoreEffect" where
  "plain_effect t c a n b =
     \<lparr>ef_type = t, ef_correlation_id = c, ef_device_short_addr = a, ef_arg_u32 = n, ef_arg_bool = b\<rparr>"

definition reduce_device_joined :: "CoreReduceResult \<Rightarrow> CoreEvent \<Rightarrow> CoreReduceResult \<times> bool" where
  "reduce_device_joined out event =
     (if \<not> valid (ev_device_id event) \<and> ev_device_short_addr event = kUnknownDeviceShortAddr
      then (out, False)
      else
        let (out1, state_changed, became_online) =
          (case find_device_index (rr_next out) (ev_device_id event) (ev_device_short_addr event) of
             None \<Rightarrow>
               (case find_free_slot (rr_next out) of
                  None \<Rightarrow> (out, False, False)
                | Some i \<Rightarrow>
                    let device = st_devices (rr_next out) ! i
                    in (set_device_count (st_device_count (rr_next out) + 1)
                          (put_device i
                             (device\<lparr>dr_device_id := ev_device_id event,
                                     dr_short_addr := ev_device_short_addr event,
                                     dr_online := True, dr_power_on := False\<rparr>) out),
                        True, True))
           | Some i \<Rightarrow>
               let device = st_devices (rr_next out) ! i
               in if \<not> dr_online device
                  then (set_device_count (st_device_count (rr_next out) + 1)
                          (put_device i
                             (device\<lparr>dr_short_addr := ev_device_short_addr event,
                                     dr_online := True\<rparr>) out),
                        True, True)
                  else if dr_short_addr device \<noteq> ev_device_short_addr event
                  then (put_device i (device\<lparr>dr_short_addr := ev_device_short_addr event\<rparr>) out,
                        True, False)
                  else (out, False, False));
            out2 = (if state_changed
                    then let out' = push_state_persist_and_telemetry out1
                         in if became_online
                            then push_effect (plain_effect kZigbeeInterview kNoCorrelationId
                                   (ev_device_short_addr event) 0 False) out'
                            else out'
                    else out1)
        in (out2, state_changed))"

definition reduce_device_left :: "CoreReduceResult \<Rightarrow> CoreEvent \<Rightarrow> CoreReduceResult \<times> bool" where
  "reduce_device_left out event =
     (if \<not> valid (ev_device_id event) \<and> ev_device_short_addr event = kUnknownDeviceShortAddr
      then (out, False)
      else (case find_device_index (rr_next out) (ev_device_id event) (ev_device_short_addr event) of
              None \<Rightarrow> (out, False)
            | Some i \<Rightarrow>
                let device = st_devices (rr_next out) ! i;
                    out1 = (if dr_online device \<and> st_device_count (rr_next out) > 0
                            then set_device_count (st_device_count (rr_next out) - 1) out
                            else out);
                    out2 = put_device i device_record_default out1
                in (push_state_persist_and_telemetry out2, True)))"

definition reduce_network :: "bool \<Rightarrow> CoreReduceResult \<Rightarrow> CoreReduceResult \<times> bool" where
  "reduce_network up out =
     (if st_network_connected (rr_next out) \<noteq> up
      then (push_state_persist_and_telemetry
              (out\<lparr>rr_next := (rr_next out)\<lparr>st_network_connected := up\<rparr>\<rparr>), True)
      else (out, False))"

definition reduce_attribute_reported :: "CoreReduceResult \<Rightarrow> CoreEvent \<Rightarrow> CoreReduceResult \<times> bool" where
  "reduce_attribute_reported out event =
     (let (out1, state_changed) = apply_onoff_attribute out event
      in (if state_changed then push_state_persist_and_telemetry out1 else out1, state_changed))"

definition reduce_command_result ::
  "u8 \<Rightarrow> bool \<Rightarrow> CoreReduceResult \<Rightarrow> CoreEvent \<Rightarrow> CoreReduceResult \<times> bool" where
  "reduce_command_result status ok out event =
     (push_effect (plain_effect kEmitCommandResult (ev_correlation_id event)
          (ev_device_short_addr event) (ucast status) ok)
        (out\<lparr>rr_next := (rr_next out)\<lparr>st_last_command_status := status\<rparr>\<rparr>), True)"

text \<open>The interview, binding and reporting steps differ in the state they set and the next effect.\<close>

definition reduce_reporting_step ::
  "CoreReportingState \<Rightarrow> CoreEffectType \<Rightarrow> CoreReduceResult \<Rightarrow> CoreEvent \<Rightarrow> CoreReduceResult \<times> bool" where
  "reduce_reporting_step rs effect out event =
     (let (out1, state_changed) =
            apply_reporting_state out (ev_device_id event) (ev_device_short_addr event) rs False
      in (if state_changed
          then push_effect (plain_effect effect kNoCorrelationId (ev_device_short_addr event) 0 False)
                 (push_state_persist_and_telemetry out1)
          else out1, state_changed))"

definition reduce_telemetry :: "CoreReduceResult \<Rightarrow> CoreEvent \<Rightarrow> CoreReduceResult \<times> bool" where
  "reduce_telemetry out event =
     (let (out1, state_changed) = apply_telemetry_update out event
      in (if state_changed then push_state_persist_and_telemetry out1 else out1, state_changed))"

definition reduce_stale :: "CoreReduceResult \<Rightarrow> CoreEvent \<Rightarrow> CoreReduceResult \<times> bool" where
  "reduce_stale out event =
     (let (out1, state_changed) =
            apply_reporting_state out (ev_device_id event) (ev_device_short_addr event) kStale True
      in (if state_changed then push_state_persist_and_telemetry out1 else out1, state_changed))"

definition reduce_case :: "CoreReduceResult \<Rightarrow> CoreEvent \<Rightarrow> CoreReduceResult \<times> bool" where
  "reduce_case out event =
     (case ev_type event of
        kDeviceJoined \<Rightarrow> reduce_device_joined out event
      | kDeviceLeft \<Rightarrow> reduce_device_left out event
      | kNetworkUp \<Rightarrow> reduce_network True out
      | kNetworkDown \<Rightarrow> reduce_network False out
      | kAttributeReported \<Rightarrow> reduce_attribute_reported out event
      | kCommandSetDevicePowerRequested \<Rightarrow>
          (push_effect (plain_effect kSendZigbeeOnOff (ev_correlation_id event)
             (ev_device_short_addr event) 0 (ev_value_bool event)) out, False)
      | kCommandRefreshNetworkRequested \<Rightarrow>
          (push_effect (plain_effect kEffectRefreshNetwork (ev_correlation_id event)
             kUnknownDeviceShortAddr 0 False) out, False)
      | kCommandResultSuccess \<Rightarrow> reduce_command_result 1 True out event
      | kCommandResultTimeout \<Rightarrow> reduce_command_result 2 False out event
      | kCommandResultFailed \<Rightarrow> reduce_command_result 3 False out event
      | kDeviceInterviewCompleted \<Rightarrow> reduce_reporting_step kInterviewCompleted kZigbeeBind out event
      | kDeviceBindingReady \<Rightarrow>
          reduce_reporting_step kBindingReady kZigbeeConfigureReporting out event
      | kDeviceReportingConfigured \<Rightarrow>
          reduce_reporting_step kReportingConfigured kZigbeeReadAttributes out event
      | kDeviceTelemetryUpdated \<Rightarrow> reduce_telemetry out event
      | kDeviceStale \<Rightarrow> reduce_stale out event
      | kEventUnknown \<Rightarrow> (out, False))"

definition core_reduce :: "CoreState \<Rightarrow> CoreEvent \<Rightarrow> CoreReduceResult" where
  "core_reduce prev event =
     (let (out, state_changed) = reduce_case \<lparr>rr_next = prev, rr_effects = effect_list_default\<rparr> event
      in if state_changed
         then out\<lparr>rr_next := (rr_next out)\<lparr>st_revision := st_revision prev + 1\<rparr>\<rparr>
         else out)"

text \<open>A run: the state after a sequence of events.\<close>

definition core_step :: "CoreState \<Rightarrow> CoreEvent \<Rightarrow> CoreState" where
  "core_step s e = rr_next (core_reduce s e)"

definition core_run :: "CoreState \<Rightarrow> CoreEvent list \<Rightarrow> CoreState" where
  "core_run s es = foldl core_step s es"

end
