(* ===== verification/CoreSpec.thy ===== *)
theory CoreSpec
  imports CoreReducer
begin

text \<open>
  What the reducer promises, apart from how it computes it: an abstract transition relation on
  core states (one rule per kind of change), the refinement of that relation by \<open>core_reduce\<close>,
  and the exact list of effects of a step. The invariants of the core state are proved over the
  relation by rule induction.
\<close>

section \<open>Bookkeeping of the result record\<close>

definition effs :: "CoreReduceResult \<Rightarrow> CoreEffect list" where
  "effs out = effects_of (rr_effects out)"

definition room :: "nat \<Rightarrow> CoreReduceResult \<Rightarrow> bool" where
  "room n out \<longleftrightarrow> length (el_items (rr_effects out)) = 4 \<and> el_count (rr_effects out) + n \<le> 4"

definition reduce_start :: "CoreState \<Rightarrow> CoreReduceResult" where
  "reduce_start s = \<lparr>rr_next = s, rr_effects = effect_list_default\<rparr>"

lemma reduce_start_simps [simp]:
  "rr_next (reduce_start s) = s" "effs (reduce_start s) = []" "n \<le> 4 \<Longrightarrow> room n (reduce_start s)"
  by (simp_all add: reduce_start_def effs_def room_def effect_list_default_def
      effects_of_def kMaxEffectsPerReduce_def)

lemma put_device_simps [simp]:
  "rr_next (put_device i d out) = (rr_next out)\<lparr>st_devices := (st_devices (rr_next out))[i := d]\<rparr>"
  "effs (put_device i d out) = effs out" "room n (put_device i d out) = room n out"
  by (simp_all add: put_device_def effs_def room_def)

lemma set_device_count_simps [simp]:
  "rr_next (set_device_count c out) = (rr_next out)\<lparr>st_device_count := c\<rparr>"
  "effs (set_device_count c out) = effs out" "room n (set_device_count c out) = room n out"
  by (simp_all add: set_device_count_def effs_def room_def)

lemma update_next_simps [simp]:
  "effs (out\<lparr>rr_next := s\<rparr>) = effs out" "room n (out\<lparr>rr_next := s\<rparr>) = room n out"
  by (simp_all add: effs_def room_def)

lemma push_effect_next [simp]: "rr_next (push_effect e out) = rr_next out"
  by (simp add: push_effect_def)

lemma push_effect_effs:
  assumes "room (Suc n) out"
  shows "effs (push_effect e out) = effs out @ [e]" "room n (push_effect e out)"
proof -
  have lt: "el_count (rr_effects out) < length (el_items (rr_effects out))"
    using assms by (simp add: room_def)
  show "effs (push_effect e out) = effs out @ [e]"
    using effect_list_push_room(2)[OF lt] by (simp add: effs_def push_effect_def)
  show "room n (push_effect e out)"
    using effect_list_push_room(3,4)[OF lt] assms by (simp add: room_def push_effect_def)
qed

text \<open>The two effects of \<open>push_state_persist_and_telemetry\<close>, as functions of the next state.\<close>

definition persist_effect :: "CoreState \<Rightarrow> CoreEffect" where
  "persist_effect s = plain_effect kPersistState kNoCorrelationId kUnknownDeviceShortAddr
     (st_revision s + 1) (st_network_connected s)"

definition telemetry_effect :: "CoreState \<Rightarrow> CoreEffect" where
  "telemetry_effect s = plain_effect kPublishTelemetry kNoCorrelationId kUnknownDeviceShortAddr
     (ucast (st_device_count s)) (st_network_connected s)"

lemma persist_and_telemetry_next [simp]:
  "rr_next (push_state_persist_and_telemetry out) = rr_next out"
  by (simp add: push_state_persist_and_telemetry_def Let_def)

lemma persist_and_telemetry_effs:
  assumes "room (Suc (Suc n)) out"
  shows "effs (push_state_persist_and_telemetry out) =
      effs out @ [persist_effect (rr_next out), telemetry_effect (rr_next out)]"
    and "room n (push_state_persist_and_telemetry out)"
  using push_effect_effs[OF assms] push_effect_effs[OF push_effect_effs(2)[OF assms]]
  by (simp_all add: push_state_persist_and_telemetry_def Let_def persist_effect_def
      telemetry_effect_def plain_effect_def)

section \<open>Telemetry only touches measurements\<close>

text \<open>The fields by which a record is found and counted.\<close>

definition record_key :: "CoreDeviceRecord \<Rightarrow> DeviceId \<times> u16 \<times> bool" where
  "record_key d = (dr_device_id d, dr_short_addr d, dr_online d)"

lemmas telemetry_defs =
  telemetry_temperature_def telemetry_occupancy_def telemetry_contact_def
  telemetry_battery_percent_def telemetry_battery_voltage_def telemetry_lqi_def telemetry_rssi_def

lemma telemetry_refresh_key: "record_key (fst (telemetry_refresh e d)) = record_key d"
  by (simp add: telemetry_refresh_def record_key_def Let_def)

lemma telemetry_kind_update_key: "record_key (fst (telemetry_kind_update e d)) = record_key d"
  by (cases "ev_telemetry_kind e")
     (simp_all add: telemetry_kind_update_def telemetry_defs record_key_def Let_def)

lemma telemetry_refresh_unchanged: "\<not> snd (telemetry_refresh e d) \<Longrightarrow> fst (telemetry_refresh e d) = d"
  by (auto simp: telemetry_refresh_def Let_def split: if_splits)

lemma telemetry_kind_update_unchanged:
  "\<not> snd (telemetry_kind_update e d) \<Longrightarrow> fst (telemetry_kind_update e d) = d"
proof (cases "ev_telemetry_kind e")
  case kContactIasZoneStatus
  then show "\<not> snd (telemetry_kind_update e d) \<Longrightarrow> ?thesis"
    by (cases "ev_telemetry_valid e")
       (simp_all only: telemetry_kind_update_def telemetry_contact_def CoreTelemetryKind.case
          Let_def prod.case if_True if_False fst_conv snd_conv simp_thms
          split: if_split if_split_asm prod.split)
qed (simp only: telemetry_kind_update_def telemetry_defs CoreTelemetryKind.case Let_def
      fst_conv snd_conv simp_thms split: if_split if_split_asm)+

section \<open>Saturation\<close>

lemma uint_clamp_i32:
  assumes "0 \<le> hi" "hi < 2 ^ LENGTH('a::len)"
  shows "uint (clamp_i32 0 hi raw :: 'a word) = max 0 (min hi (sint raw))"
proof -
  consider "sint raw \<le> 0" | "hi \<le> sint raw" "0 < sint raw" | "0 < sint raw" "sint raw < hi"
    by linarith
  then show ?thesis
  proof cases
    case 3
    have "uint raw = sint raw"
    proof -
      have "take_bit 32 (uint raw) = uint raw"
        using unsigned_less[of raw, where ?'a = int] by (intro take_bit_int_eq_self) simp_all
      then have "uint raw = take_bit 32 (sint raw)"
        by (simp add: take_bit_signed_take_bit sint_uint)
      also have "\<dots> = sint raw" using 3 sint_less[of raw] by (intro take_bit_int_eq_self) auto
      finally show ?thesis .
    qed
    then have "uint (ucast raw :: 'a word) = sint raw"
      using 3 assms by (simp add: unsigned_ucast_eq take_bit_int_eq_self)
    then show ?thesis using 3 by (simp add: clamp_i32_def)
  qed (use assms in \<open>auto simp: clamp_i32_def uint_word_of_int_eq take_bit_int_eq_self\<close>)
qed

lemma sint_clamp_i8: "sint (clamp_i32 (-128) 127 raw :: u8) = max (-128) (min 127 (sint raw))"
proof -
  consider "sint raw \<le> -128" | "127 \<le> sint raw" | "-128 < sint raw" "sint raw < 127"
    by linarith
  then show ?thesis
  proof cases
    case 3
    have "sint (ucast raw :: u8) = signed_take_bit 7 (uint raw)"
      by (simp add: sint_uint unsigned_ucast_eq signed_take_bit_take_bit)
    also have "\<dots> = signed_take_bit 7 (sint raw)" by (simp add: sint_uint)
    also have "\<dots> = sint raw" using 3 by (intro signed_take_bit_int_eq_self) auto
    finally show ?thesis using 3 by (simp add: clamp_i32_def)
  qed (auto simp: clamp_i32_def)
qed

section \<open>The abstract transition relation\<close>

text \<open>
  What an event may do to a record it matches: keep its identity, locator and presence (it may
  bring it online), and keep the battery level a percentage.
\<close>

definition record_update :: "CoreDeviceRecord \<Rightarrow> CoreDeviceRecord \<Rightarrow> bool" where
  "record_update d d' \<longleftrightarrow>
     dr_device_id d' = dr_device_id d \<and> dr_short_addr d' = dr_short_addr d \<and>
     (dr_online d \<longrightarrow> dr_online d') \<and>
     (unat (dr_battery_percent d) \<le> 100 \<longrightarrow> unat (dr_battery_percent d') \<le> 100)"

definition event_index :: "CoreEvent \<Rightarrow> CoreState \<Rightarrow> nat option" where
  "event_index e s = find_device_index s (ev_device_id e) (ev_device_short_addr e)"

definition joined_record :: "CoreEvent \<Rightarrow> CoreDeviceRecord \<Rightarrow> CoreDeviceRecord" where
  "joined_record e d = d\<lparr>dr_device_id := ev_device_id e, dr_short_addr := ev_device_short_addr e,
     dr_online := True, dr_power_on := False\<rparr>"

inductive core_change :: "CoreEvent \<Rightarrow> CoreState \<Rightarrow> CoreState \<Rightarrow> bool" for e s where
  keep: "core_change e s s"
| change_record: "event_index e s = Some i \<Longrightarrow> record_update (st_devices s ! i) d \<Longrightarrow>
     core_change e s (s\<lparr>st_devices := (st_devices s)[i := d]\<rparr>)"
| join_new: "valid (ev_device_id e) \<or> ev_device_short_addr e \<noteq> kUnknownDeviceShortAddr \<Longrightarrow>
     event_index e s = None \<Longrightarrow> find_free_slot s = Some i \<Longrightarrow>
     core_change e s (s\<lparr>st_devices := (st_devices s)[i := joined_record e (st_devices s ! i)],
                        st_device_count := st_device_count s + 1\<rparr>)"
| join_again: "event_index e s = Some i \<Longrightarrow> \<not> dr_online (st_devices s ! i) \<Longrightarrow>
     core_change e s (s\<lparr>st_devices := (st_devices s)[i := (st_devices s ! i)
                          \<lparr>dr_short_addr := ev_device_short_addr e, dr_online := True\<rparr>],
                        st_device_count := st_device_count s + 1\<rparr>)"
| remap: "event_index e s = Some i \<Longrightarrow>
     core_change e s (s\<lparr>st_devices := (st_devices s)[i := (st_devices s ! i)
                          \<lparr>dr_short_addr := ev_device_short_addr e\<rparr>]\<rparr>)"
| leave: "event_index e s = Some i \<Longrightarrow>
     core_change e s (s\<lparr>st_devices := (st_devices s)[i := device_record_default],
       st_device_count := (if dr_online (st_devices s ! i) \<and> st_device_count s > 0
                           then st_device_count s - 1 else st_device_count s)\<rparr>)"
| network: "core_change e s (s\<lparr>st_network_connected := b\<rparr>)"
| status: "core_change e s (s\<lparr>st_last_command_status := n\<rparr>)"

lemma clamp_percent_le: "unat (clamp_i32 0 100 raw :: u8) \<le> 100"
proof -
  have "uint (clamp_i32 0 100 raw :: u8) \<le> 100" by (simp add: uint_clamp_i32)
  then have "nat (uint (clamp_i32 0 100 raw :: u8)) \<le> nat 100" by (rule nat_mono)
  then show ?thesis by simp
qed

lemma telemetry_update_record:
  "record_update d (fst (telemetry_kind_update e (fst (telemetry_refresh e d))))"
proof -
  let ?d = "fst (telemetry_refresh e d)"
  have k: "record_key (fst (telemetry_kind_update e ?d)) = record_key d"
    by (simp add: telemetry_kind_update_key telemetry_refresh_key)
  have "dr_battery_percent ?d = dr_battery_percent d"
    by (simp add: telemetry_refresh_def Let_def)
  moreover have "dr_battery_percent (fst (telemetry_kind_update e x)) = dr_battery_percent x \<or>
      dr_battery_percent (fst (telemetry_kind_update e x)) = clamp_i32 0 100 (ev_telemetry_i32 e)" for x
    by (cases "ev_telemetry_kind e")
       (simp_all add: telemetry_kind_update_def telemetry_defs Let_def)
  ultimately have "unat (dr_battery_percent d) \<le> 100 \<Longrightarrow>
      unat (dr_battery_percent (fst (telemetry_kind_update e ?d))) \<le> 100"
    by (metis clamp_percent_le)
  with k show ?thesis by (simp add: record_update_def record_key_def)
qed

section \<open>The reducer refines the relation\<close>

text \<open>
  What every helper does to the result record: it makes an allowed change (none when it reports
  none) and leaves the effects alone.
\<close>

definition helper_ok :: "CoreEvent \<Rightarrow> CoreReduceResult \<Rightarrow> CoreReduceResult \<times> bool \<Rightarrow> bool" where
  "helper_ok e out r \<longleftrightarrow>
     core_change e (rr_next out) (rr_next (fst r)) \<and>
     (\<not> snd r \<longrightarrow> rr_next (fst r) = rr_next out) \<and>
     effs (fst r) = effs out \<and> (\<forall>n. room n (fst r) = room n out)"

lemma helper_ok_keep: "helper_ok e out (out, False)"
  by (simp add: helper_ok_def core_change.keep)

lemma helper_ok_put:
  assumes "event_index e (rr_next out) = Some i" "record_update (st_devices (rr_next out) ! i) d"
    and "\<not> ch \<Longrightarrow> d = st_devices (rr_next out) ! i"
  shows "helper_ok e out (put_device i d out, ch)"
  using assms by (auto simp: helper_ok_def intro: core_change.change_record)

lemma onoff_ok: "helper_ok e out (apply_onoff_attribute out e)"
  unfolding apply_onoff_attribute_def event_index_def[symmetric] Let_def
  by (auto split: option.split intro!: helper_ok_keep helper_ok_put simp: record_update_def)

lemma reporting_state_ok:
  "helper_ok e out (apply_reporting_state out (ev_device_id e) (ev_device_short_addr e) rs st)"
proof (cases "event_index e (rr_next out)")
  case None
  then show ?thesis
    by (simp add: apply_reporting_state_def helper_ok_keep flip: event_index_def)
next
  case (Some i)
  define d where "d = st_devices (rr_next out) ! i"
  have "apply_reporting_state out (ev_device_id e) (ev_device_short_addr e) rs st =
      (put_device i (d\<lparr>dr_reporting_state := rs, dr_stale := st\<rparr>) out,
       dr_reporting_state d \<noteq> rs \<or> dr_stale d \<noteq> st)"
    using Some unfolding apply_reporting_state_def event_index_def[symmetric] d_def
    by (cases "st_devices (rr_next out) ! i") (simp add: Let_def)
  moreover have "helper_ok e out (put_device i (d\<lparr>dr_reporting_state := rs, dr_stale := st\<rparr>) out,
       dr_reporting_state d \<noteq> rs \<or> dr_stale d \<noteq> st)"
  proof (rule helper_ok_put)
    assume "\<not> (dr_reporting_state d \<noteq> rs \<or> dr_stale d \<noteq> st)"
    then show "d\<lparr>dr_reporting_state := rs, dr_stale := st\<rparr> = st_devices (rr_next out) ! i"
      unfolding d_def[symmetric] by (cases d) simp
  qed (simp_all add: Some record_update_def d_def)
  ultimately show ?thesis by simp
qed

lemma telemetry_ok: "helper_ok e out (apply_telemetry_update out e)"
proof (cases "event_index e (rr_next out)")
  case None
  then show ?thesis
    by (simp add: apply_telemetry_update_def helper_ok_keep flip: event_index_def)
next
  case (Some i)
  define d where "d = st_devices (rr_next out) ! i"
  define d1 where "d1 = fst (telemetry_refresh e d)"
  have eq: "apply_telemetry_update out e =
      (put_device i (fst (telemetry_kind_update e d1)) out,
       snd (telemetry_refresh e d) \<or> snd (telemetry_kind_update e d1))"
    using Some by (simp add: apply_telemetry_update_def Let_def d_def d1_def case_prod_unfold
        flip: event_index_def)
  have "record_update d (fst (telemetry_kind_update e d1))"
    by (simp add: d1_def telemetry_update_record)
  moreover have "fst (telemetry_kind_update e d1) = d"
    if "\<not> (snd (telemetry_refresh e d) \<or> snd (telemetry_kind_update e d1))"
    using that telemetry_refresh_unchanged[of e d] telemetry_kind_update_unchanged[of e d1]
    by (simp add: d1_def)
  ultimately show ?thesis
    unfolding eq using Some by (intro helper_ok_put) (simp_all add: d_def)
qed

text \<open>
  The effects a step must emit: a command request or result is forwarded as one effect; a change
  of the state is persisted and published, followed by the next step of the device lifecycle.
\<close>

definition becomes_online :: "CoreEvent \<Rightarrow> CoreState \<Rightarrow> bool" where
  "becomes_online e s \<longleftrightarrow>
     (case event_index e s of None \<Rightarrow> True | Some i \<Rightarrow> \<not> dr_online (st_devices s ! i))"

definition follow_up :: "CoreEvent \<Rightarrow> CoreState \<Rightarrow> CoreEffect list" where
  "follow_up e s =
     (let next = (\<lambda>t. [plain_effect t kNoCorrelationId (ev_device_short_addr e) 0 False])
      in case ev_type e of
           kDeviceJoined \<Rightarrow> if becomes_online e s then next kZigbeeInterview else []
         | kDeviceInterviewCompleted \<Rightarrow> next kZigbeeBind
         | kDeviceBindingReady \<Rightarrow> next kZigbeeConfigureReporting
         | kDeviceReportingConfigured \<Rightarrow> next kZigbeeReadAttributes
         | _ \<Rightarrow> [])"

definition case_effects :: "CoreEvent \<Rightarrow> CoreState \<Rightarrow> CoreState \<Rightarrow> bool \<Rightarrow> CoreEffect list" where
  "case_effects e s t changed =
     (let emit = (\<lambda>n ok. [plain_effect kEmitCommandResult (ev_correlation_id e)
                            (ev_device_short_addr e) n ok])
      in case ev_type e of
           kCommandSetDevicePowerRequested \<Rightarrow>
             [plain_effect kSendZigbeeOnOff (ev_correlation_id e) (ev_device_short_addr e) 0
                (ev_value_bool e)]
         | kCommandRefreshNetworkRequested \<Rightarrow>
             [plain_effect kEffectRefreshNetwork (ev_correlation_id e) kUnknownDeviceShortAddr 0 False]
         | kCommandResultSuccess \<Rightarrow> emit 1 True
         | kCommandResultTimeout \<Rightarrow> emit 2 False
         | kCommandResultFailed \<Rightarrow> emit 3 False
         | _ \<Rightarrow> if changed then [persist_effect t, telemetry_effect t] @ follow_up e s else [])"

definition case_ok :: "CoreEvent \<Rightarrow> CoreState \<Rightarrow> CoreReduceResult \<times> bool \<Rightarrow> bool" where
  "case_ok e s r \<longleftrightarrow>
     core_change e s (rr_next (fst r)) \<and> (\<not> snd r \<longrightarrow> rr_next (fst r) = s) \<and>
     effs (fst r) = case_effects e s (rr_next (fst r)) (snd r)"

text \<open>Publishing after a helper, with or without one follow-up effect.\<close>

lemma publish_effs:
  assumes "effs out = []" "room 4 out"
  shows "effs (push_state_persist_and_telemetry out) =
      [persist_effect (rr_next out), telemetry_effect (rr_next out)]"
    and "effs (push_effect x (push_state_persist_and_telemetry out)) =
      [persist_effect (rr_next out), telemetry_effect (rr_next out), x]"
proof -
  have r: "room (Suc (Suc 2)) out" using assms(2) by (simp add: numeral_eq_Suc)
  show "effs (push_state_persist_and_telemetry out) =
      [persist_effect (rr_next out), telemetry_effect (rr_next out)]"
    using persist_and_telemetry_effs(1)[OF r] assms(1) by simp
  have "room (Suc 1) (push_state_persist_and_telemetry out)"
    using persist_and_telemetry_effs(2)[OF r] by (simp add: numeral_eq_Suc)
  from push_effect_effs(1)[OF this] persist_and_telemetry_effs(1)[OF r] assms(1)
  show "effs (push_effect x (push_state_persist_and_telemetry out)) =
      [persist_effect (rr_next out), telemetry_effect (rr_next out), x]" by simp
qed

lemma single_effs:
  assumes "effs out = []" "room 4 out"
  shows "effs (push_effect x out) = [x]"
  using push_effect_effs(1)[of 3 out x] assms by (simp add: numeral_eq_Suc)

lemma helper_okD:
  assumes "helper_ok e (reduce_start s) (out, ch)"
  shows "core_change e s (rr_next out)" "\<not> ch \<Longrightarrow> rr_next out = s" "effs out = []" "room 4 out"
  using assms by (simp_all add: helper_ok_def)

lemma publish_case:
  assumes "helper_ok e (reduce_start s) (out, ch)"
    and "ev_type e \<in> {kAttributeReported, kDeviceTelemetryUpdated, kDeviceStale}"
  shows "case_ok e s (if ch then push_state_persist_and_telemetry out else out, ch)"
  using helper_okD[OF assms(1)] assms(2) publish_effs(1)[of out]
  by (auto simp: case_ok_def case_effects_def follow_up_def)

lemma reporting_step_case:
  assumes "ev_type e = kDeviceInterviewCompleted \<and> x = kZigbeeBind \<or>
      ev_type e = kDeviceBindingReady \<and> x = kZigbeeConfigureReporting \<or>
      ev_type e = kDeviceReportingConfigured \<and> x = kZigbeeReadAttributes"
  shows "case_ok e s (reduce_reporting_step rs x (reduce_start s) e)"
proof -
  obtain out ch where r: "apply_reporting_state (reduce_start s) (ev_device_id e)
      (ev_device_short_addr e) rs False = (out, ch)" by fastforce
  have ok: "helper_ok e (reduce_start s) (out, ch)"
    using reporting_state_ok[of e "reduce_start s" rs False] by (simp add: r)
  show ?thesis
    using helper_okD[OF ok] publish_effs(2)[of out] assms
    by (auto simp: reduce_reporting_step_def r case_ok_def case_effects_def follow_up_def)
qed

text \<open>The helpers' index is the index of the event; in \<open>find_device_index\<close> this is definitional.\<close>

lemma put_count_next:
  "rr_next (set_device_count c (put_device i d out)) =
   (rr_next out)\<lparr>st_devices := (st_devices (rr_next out))[i := d], st_device_count := c\<rparr>"
  by simp

lemma joined_case:
  assumes "ev_type e = kDeviceJoined"
  shows "case_ok e s (reduce_device_joined (reduce_start s) e)"
proof (cases "valid (ev_device_id e) \<or> ev_device_short_addr e \<noteq> kUnknownDeviceShortAddr")
  case False
  then show ?thesis
    using assms by (simp add: reduce_device_joined_def case_ok_def case_effects_def core_change.keep)
next
  case key: True
  then have guard: "(\<not> valid (ev_device_id e) \<and> ev_device_short_addr e = kUnknownDeviceShortAddr) = False"
    by simp
  let ?next = "\<lambda>t. plain_effect t kNoCorrelationId (ev_device_short_addr e) 0 False"
  have fin: "case_ok e s (if b then push_effect (?next kZigbeeInterview) (push_state_persist_and_telemetry out)
         else push_state_persist_and_telemetry out, True)"
    if "core_change e s (rr_next out)" "effs out = []" "room 4 out" "becomes_online e s = b" for out b
    using that publish_effs[OF that(2,3)] assms
    by (auto simp: case_ok_def case_effects_def follow_up_def Let_def)
  show ?thesis
  proof (cases "event_index e s")
    case None
    show ?thesis
    proof (cases "find_free_slot s")
      case full: None
      then show ?thesis using key None assms unfolding reduce_device_joined_def
        by (simp add: case_ok_def case_effects_def core_change.keep flip: event_index_def)
    next
      case (Some i)
      define out where "out = set_device_count (st_device_count s + 1)
        (put_device i (joined_record e (st_devices s ! i)) (reduce_start s))"
      have "reduce_device_joined (reduce_start s) e =
          (push_effect (?next kZigbeeInterview) (push_state_persist_and_telemetry out), True)"
        using key None Some unfolding reduce_device_joined_def out_def joined_record_def
        by (simp add: Let_def flip: event_index_def)
      moreover have "core_change e s (rr_next out)"
        using core_change.join_new[OF key None Some] by (simp add: out_def)
      ultimately show ?thesis using fin[of out True] None by (simp add: out_def becomes_online_def)
    qed
  next
    case (Some i)
    let ?d = "st_devices s ! i" and ?a = "ev_device_short_addr e"
    show ?thesis
    proof (cases "dr_online ?d")
      case False
      define out where "out = set_device_count (st_device_count s + 1)
        (put_device i (?d\<lparr>dr_short_addr := ?a, dr_online := True\<rparr>) (reduce_start s))"
      have "reduce_device_joined (reduce_start s) e =
          (push_effect (?next kZigbeeInterview) (push_state_persist_and_telemetry out), True)"
        using key Some False unfolding reduce_device_joined_def out_def
        by (simp add: Let_def flip: event_index_def)
      moreover have "core_change e s (rr_next out)"
        using core_change.join_again[OF Some False] by (simp add: out_def)
      ultimately show ?thesis using fin[of out True] Some False by (simp add: out_def becomes_online_def)
    next
      case online: True
      define out where "out = put_device i (?d\<lparr>dr_short_addr := ?a\<rparr>) (reduce_start s)"
      have red: "reduce_device_joined (reduce_start s) e =
          (if dr_short_addr ?d \<noteq> ?a then (push_state_persist_and_telemetry out, True)
           else (reduce_start s, False))"
        using Some online unfolding reduce_device_joined_def out_def guard
        by (simp add: Let_def flip: event_index_def)
      have "core_change e s (rr_next out)"
        using core_change.remap[OF Some] by (simp add: out_def)
      then show ?thesis
        using fin[of out False] Some online assms unfolding red
        by (auto simp: out_def becomes_online_def case_ok_def case_effects_def core_change.keep)
    qed
  qed
qed

lemma left_case:
  assumes "ev_type e = kDeviceLeft"
  shows "case_ok e s (reduce_device_left (reduce_start s) e)"
proof (cases "(valid (ev_device_id e) \<or> ev_device_short_addr e \<noteq> kUnknownDeviceShortAddr) \<and>
              event_index e s \<noteq> None")
  case False
  then have "reduce_device_left (reduce_start s) e = (reduce_start s, False)"
    by (auto simp: reduce_device_left_def simp flip: event_index_def)
  then show ?thesis using assms by (simp add: case_ok_def case_effects_def core_change.keep)
next
  case True
  then obtain i where i: "event_index e s = Some i" by blast
  define out where "out = put_device i device_record_default
      (if dr_online (st_devices s ! i) \<and> st_device_count s > 0
       then set_device_count (st_device_count s - 1) (reduce_start s) else reduce_start s)"
  have "reduce_device_left (reduce_start s) e = (push_state_persist_and_telemetry out, True)"
    using True i by (simp add: reduce_device_left_def out_def Let_def flip: event_index_def)
  moreover have "rr_next out = s\<lparr>st_devices := (st_devices s)[i := device_record_default],
       st_device_count := (if dr_online (st_devices s ! i) \<and> st_device_count s > 0
                           then st_device_count s - 1 else st_device_count s)\<rparr>"
    by (cases s) (simp add: out_def)
  then have "core_change e s (rr_next out)" using core_change.leave[OF i] by simp
  moreover have "effs out = []" "room 4 out" by (simp_all add: out_def)
  ultimately show ?thesis
    using assms publish_effs(1)[of out] by (simp add: case_ok_def case_effects_def follow_up_def)
qed

lemma network_case:
  assumes "ev_type e = (if up then kNetworkUp else kNetworkDown)"
  shows "case_ok e s (reduce_network up (reduce_start s))"
  using assms publish_effs(1)[of "(reduce_start s)\<lparr>rr_next := s\<lparr>st_network_connected := up\<rparr>\<rparr>"]
  by (auto simp: reduce_network_def case_ok_def case_effects_def follow_up_def
      intro: core_change.keep core_change.network split: if_splits)

lemma reduce_case_ok: "case_ok e s (reduce_case (reduce_start s) e)"
proof (cases "ev_type e")
  case kAttributeReported
  obtain out ch where r: "apply_onoff_attribute (reduce_start s) e = (out, ch)" by fastforce
  then show ?thesis using kAttributeReported onoff_ok[of e "reduce_start s"] publish_case[of e s out ch]
    by (simp add: reduce_case_def reduce_attribute_reported_def)
next
  case kDeviceTelemetryUpdated
  obtain out ch where r: "apply_telemetry_update (reduce_start s) e = (out, ch)" by fastforce
  then show ?thesis using kDeviceTelemetryUpdated telemetry_ok[of e "reduce_start s"] publish_case[of e s out ch]
    by (simp add: reduce_case_def reduce_telemetry_def)
next
  case kDeviceStale
  obtain out ch where r: "apply_reporting_state (reduce_start s) (ev_device_id e)
      (ev_device_short_addr e) kStale True = (out, ch)" by fastforce
  then show ?thesis using kDeviceStale reporting_state_ok[of e "reduce_start s" kStale True]
      publish_case[of e s out ch]
    by (simp add: reduce_case_def reduce_stale_def)
next
  case kDeviceJoined
  then show ?thesis using joined_case[of e s] by (simp add: reduce_case_def)
next
  case kDeviceLeft
  then show ?thesis using left_case[of e s] by (simp add: reduce_case_def)
next
  case kNetworkUp
  then show ?thesis using network_case[of e True s] by (simp add: reduce_case_def)
next
  case kNetworkDown
  then show ?thesis using network_case[of e False s] by (simp add: reduce_case_def)
next
  case kDeviceInterviewCompleted
  then show ?thesis using reporting_step_case[of e kZigbeeBind s] by (simp add: reduce_case_def)
next
  case kDeviceBindingReady
  then show ?thesis using reporting_step_case[of e kZigbeeConfigureReporting s] by (simp add: reduce_case_def)
next
  case kDeviceReportingConfigured
  then show ?thesis using reporting_step_case[of e kZigbeeReadAttributes s] by (simp add: reduce_case_def)
qed (simp_all add: reduce_case_def reduce_command_result_def case_ok_def case_effects_def
      core_change.keep core_change.status single_effs)

section \<open>One step of the core\<close>

definition step_changed :: "CoreState \<Rightarrow> CoreEvent \<Rightarrow> bool" where
  "step_changed s e = snd (reduce_case (reduce_start s) e)"

lemma core_change_revision: "core_change e s t \<Longrightarrow> st_revision t = st_revision s"
  by (induction rule: core_change.induct) simp_all

lemma core_step_cases:
  obtains t where "core_change e s t" "core_step s e = (if step_changed s e
      then t\<lparr>st_revision := st_revision s + 1\<rparr> else t)" "\<not> step_changed s e \<Longrightarrow> t = s"
    "effects_of (rr_effects (core_reduce s e)) = case_effects e s t (step_changed s e)"
proof -
  obtain out ch where r: "reduce_case (reduce_start s) e = (out, ch)" by fastforce
  have ok: "case_ok e s (out, ch)" using reduce_case_ok[of e s] by (simp add: r)
  show thesis
    by (rule that[of "rr_next out"])
       (use ok r in \<open>auto simp: case_ok_def core_step_def core_reduce_def step_changed_def effs_def
          simp flip: reduce_start_def\<close>)
qed

end
