(* ===== verification/CoreInvariants.thy ===== *)
theory CoreInvariants
  imports CoreSpec
begin

text \<open>
  The device table of the core state as a directory: a record is found by its permanent identity,
  or by its short address when it has none. The invariant of the table holds in the initial state
  and after every event; under it each step of \<open>core_reduce\<close> is one update of the directory.
\<close>

section \<open>The directory\<close>

definition occupied :: "CoreDeviceRecord \<Rightarrow> bool" where
  "occupied d \<longleftrightarrow> valid (dr_device_id d) \<or> dr_short_addr d \<noteq> kUnknownDeviceShortAddr"

definition identity :: "CoreDeviceRecord \<Rightarrow> DeviceId + u16" where
  "identity d = (if valid (dr_device_id d) then Inl (dr_device_id d) else Inr (dr_short_addr d))"

definition event_key :: "CoreEvent \<Rightarrow> (DeviceId + u16) option" where
  "event_key e =
     (if valid (ev_device_id e) then Some (Inl (ev_device_id e))
      else if ev_device_short_addr e \<noteq> kUnknownDeviceShortAddr
      then Some (Inr (ev_device_short_addr e)) else None)"

definition devices_of :: "CoreState \<Rightarrow> DeviceId + u16 \<Rightarrow> CoreDeviceRecord option" where
  "devices_of s = slot_map occupied identity (st_devices s)"

text \<open>
  The invariant: 64 slots, no two records with the same identity, a record is online exactly when
  its slot is in use, a free slot is blank (so a device that joins inherits nothing),
  \<^verbatim>\<open>device_count\<close> is the number of devices online, and battery levels are percentages.
\<close>

definition record_ok :: "CoreDeviceRecord \<Rightarrow> bool" where
  "record_ok d \<longleftrightarrow> unat (dr_battery_percent d) \<le> 100 \<and>
     (if occupied d then dr_online d else d = device_record_default)"

definition core_inv :: "CoreState \<Rightarrow> bool" where
  "core_inv s \<longleftrightarrow> length (st_devices s) = kMaxDevices \<and>
     unique_slots occupied identity (st_devices s) \<and>
     list_all record_ok (st_devices s) \<and>
     unat (st_device_count s) = count_where dr_online (st_devices s)"

lemma default_free [simp]: "\<not> occupied device_record_default" "\<not> dr_online device_record_default"
  "record_ok device_record_default"
  by (simp_all add: occupied_def device_record_default_def record_ok_def not_valid_default)

interpretation dir: slot_table occupied identity device_record_default
  by unfold_locales simp

lemma event_index_key:
  "event_index e s =
     (case event_key e of None \<Rightarrow> None | Some k \<Rightarrow> find_slot occupied identity k (st_devices s))"
proof (cases "valid (ev_device_id e)")
  case True
  then have "(dr_device_id d = ev_device_id e) = (occupied d \<and> identity d = Inl (ev_device_id e))" for d
    by (cases "valid (dr_device_id d)") (auto simp: occupied_def identity_def)
  with True show ?thesis
    unfolding event_index_def find_device_index_def event_key_def find_slot_def by simp
next
  case False
  have "(\<not> valid (dr_device_id d) \<and> dr_short_addr d = ev_device_short_addr e) =
        (occupied d \<and> identity d = Inr (ev_device_short_addr e))"
    if "ev_device_short_addr e \<noteq> kUnknownDeviceShortAddr" for d
    using that by (cases "valid (dr_device_id d)") (auto simp: occupied_def identity_def)
  with False show ?thesis
    unfolding event_index_def find_device_index_def event_key_def find_slot_def by simp
qed

lemma find_free_slot_eq: "find_free_slot s = find_index (\<lambda>d. \<not> occupied d) (st_devices s)"
  by (simp add: find_free_slot_def occupied_def)

lemma event_index_SomeD:
  assumes "event_index e s = Some i"
  obtains k where "event_key e = Some k" "find_slot occupied identity k (st_devices s) = Some i"
    "i < length (st_devices s)" "occupied (st_devices s ! i)" "identity (st_devices s ! i) = k"
proof -
  from assms obtain k where k: "event_key e = Some k"
      "find_slot occupied identity k (st_devices s) = Some i"
    by (auto simp: event_index_key split: option.splits)
  from that[OF this dir.find_slotD[OF k(2)]] show thesis .
qed

lemma core_inv_record: "core_inv s \<Longrightarrow> i < length (st_devices s) \<Longrightarrow> record_ok (st_devices s ! i)"
  by (simp add: core_inv_def list_all_length)

lemma core_inv_online:
  "core_inv s \<Longrightarrow> i < length (st_devices s) \<Longrightarrow> dr_online (st_devices s ! i) = occupied (st_devices s ! i)"
  using core_inv_record[of s i] by (auto simp: record_ok_def split: if_splits)

lemma core_inv_free:
  "core_inv s \<Longrightarrow> i < length (st_devices s) \<Longrightarrow> \<not> occupied (st_devices s ! i) \<Longrightarrow>
   st_devices s ! i = device_record_default"
  using core_inv_record[of s i] by (simp add: record_ok_def)

section \<open>Writing and clearing records\<close>

lemma identity_online [simp]:
  "identity (d\<lparr>dr_online := b\<rparr>) = identity d" "occupied (d\<lparr>dr_online := b\<rparr>) = occupied d"
  by (simp_all add: identity_def occupied_def)

lemma matched_identity:
  assumes "event_index e s = Some i"
  shows "identity ((st_devices s ! i)\<lparr>dr_short_addr := ev_device_short_addr e\<rparr>) =
      identity (st_devices s ! i)"
    and "occupied ((st_devices s ! i)\<lparr>dr_short_addr := ev_device_short_addr e\<rparr>)"
  using assms
  by (auto elim!: event_index_SomeD simp: event_key_def identity_def occupied_def split: if_splits)

lemma core_inv_put:
  assumes inv: "core_inv s" and w: "dir.writable i d (st_devices s)" and d: "record_ok d"
    and c: "unat c = count_where dr_online ((st_devices s)[i := d])"
  shows "core_inv (s\<lparr>st_devices := (st_devices s)[i := d], st_device_count := c\<rparr>)"
  using inv d c dir.write_unique[OF _ w]
  by (simp add: core_inv_def list_all_update)

lemma core_inv_put_same:
  assumes inv: "core_inv s" and i: "event_index e s = Some i"
    and d: "record_ok d" "identity d = identity (st_devices s ! i)" "occupied d"
  shows "core_inv (s\<lparr>st_devices := (st_devices s)[i := d]\<rparr>)"
proof -
  obtain k where k: "find_slot occupied identity k (st_devices s) = Some i" "i < length (st_devices s)"
      "occupied (st_devices s ! i)" "identity (st_devices s ! i) = k"
    using event_index_SomeD[OF i] by metis
  have w: "dir.writable i d (st_devices s)" using k d by (simp add: dir.writable_def)
  have "dr_online d = dr_online (st_devices s ! i)"
    using core_inv_online[OF inv k(2)] k(3) d by (simp add: record_ok_def)
  then have "unat (st_device_count s) = count_where dr_online ((st_devices s)[i := d])"
    using k(2) inv by (simp add: core_inv_def)
  from core_inv_put[OF inv w d(1) this] show ?thesis by simp
qed

lemma core_inv_count_less:
  assumes "core_inv s" "i < length (st_devices s)" "\<not> dr_online (st_devices s ! i)"
  shows "unat (st_device_count s + 1) = Suc (unat (st_device_count s))"
proof -
  have "count_where dr_online (st_devices s) \<le> kMaxDevices"
    using count_where_le[of dr_online "st_devices s"] assms(1) by (simp add: core_inv_def)
  then have "unat (st_device_count s) \<le> 64" using assms(1) by (simp add: core_inv_def kMaxDevices_def)
  then show ?thesis by (simp add: unat_word_ariths(1))
qed

lemma core_inv_join:
  assumes inv: "core_inv s" and e: "event_index e s = None" "event_key e = Some k"
    and free: "find_free_slot s = Some i"
  shows "dir.writable i (joined_record e (st_devices s ! i)) (st_devices s)"
    and "core_inv (s\<lparr>st_devices := (st_devices s)[i := joined_record e (st_devices s ! i)],
           st_device_count := st_device_count s + 1\<rparr>)"
    and "joined_record e (st_devices s ! i) = joined_record e device_record_default"
    and "identity (joined_record e (st_devices s ! i)) = k"
proof -
  let ?d = "joined_record e (st_devices s ! i)"
  have i: "i < length (st_devices s)" "\<not> occupied (st_devices s ! i)"
    using find_index_SomeD[OF free[unfolded find_free_slot_eq]] by simp_all
  show k: "identity ?d = k"
    using e(2) by (auto simp: joined_record_def identity_def event_key_def split: if_splits)
  have "occupied ?d" using e(2) by (auto simp: joined_record_def occupied_def event_key_def split: if_splits)
  then show w: "dir.writable i ?d (st_devices s)"
    using e i by (simp add: dir.writable_def event_index_key k)
  have b: "st_devices s ! i = device_record_default" by (rule core_inv_free[OF inv i])
  then show "?d = joined_record e device_record_default" by simp
  have "record_ok ?d"
    using \<open>occupied ?d\<close> b by (simp add: record_ok_def) (simp add: joined_record_def device_record_default_def)
  moreover have "unat (st_device_count s + 1) = count_where dr_online ((st_devices s)[i := ?d])"
    using core_inv_count_less[OF inv i(1)] inv i(1) b
    by (simp add: core_inv_def count_where_update_gain joined_record_def)
  ultimately show "core_inv (s\<lparr>st_devices := (st_devices s)[i := ?d],
           st_device_count := st_device_count s + 1\<rparr>)"
    by (rule core_inv_put[OF inv w])
qed

lemma core_inv_leave:
  assumes inv: "core_inv s" and e: "event_index e s = Some i"
  shows "core_inv (s\<lparr>st_devices := (st_devices s)[i := device_record_default],
       st_device_count := (if dr_online (st_devices s ! i) \<and> st_device_count s > 0
                           then st_device_count s - 1 else st_device_count s)\<rparr>)"
proof -
  obtain k where k: "find_slot occupied identity k (st_devices s) = Some i" "i < length (st_devices s)"
      "occupied (st_devices s ! i)"
    using event_index_SomeD[OF e] by metis
  have on: "dr_online (st_devices s ! i)" using core_inv_online[OF inv k(2)] k(3) by simp
  have cnt: "Suc (count_where dr_online ((st_devices s)[i := device_record_default])) =
      unat (st_device_count s)"
    using count_where_update_loss[OF k(2), of dr_online device_record_default] on inv
    by (simp add: core_inv_def)
  then have pos: "st_device_count s > 0" by (simp add: word_gt_0 flip: unat_gt_0)
  then have "unat (st_device_count s - 1) = unat (st_device_count s) - 1"
    by (simp add: unat_minus_one word_gt_0)
  then show ?thesis
    using inv dir.clear_unique[of "st_devices s" i] on pos cnt
    by (simp add: core_inv_def list_all_update)
qed

section \<open>Every event keeps the invariant\<close>

lemma event_key_iff:
  "(\<exists>k. event_key e = Some k) \<longleftrightarrow>
   valid (ev_device_id e) \<or> ev_device_short_addr e \<noteq> kUnknownDeviceShortAddr"
  by (auto simp: event_key_def)

lemma record_update_identity:
  "record_update d d' \<Longrightarrow> identity d' = identity d"
  "record_update d d' \<Longrightarrow> occupied d' = occupied d"
  by (simp_all add: record_update_def identity_def occupied_def)

lemma core_change_inv:
  assumes "core_change e s t" "core_inv s"
  shows "core_inv t"
  using assms
proof (induction rule: core_change.induct)
  case (change_record i d)
  obtain i': "i < length (st_devices s)" "occupied (st_devices s ! i)"
    using event_index_SomeD[OF change_record(1)] by metis
  have "record_ok d"
    using core_inv_record[OF change_record(3) i'(1)] i'(2) change_record(2)
    by (auto simp: record_ok_def record_update_def occupied_def)
  then show ?case
    using core_inv_put_same[OF change_record(3,1)] record_update_identity[OF change_record(2)] i'(2) by simp
next
  case (join_new i)
  from join_new(1) obtain k where "event_key e = Some k" by (auto simp flip: event_key_iff)
  from core_inv_join(2)[OF join_new(4,2) this join_new(3)] show ?case .
next
  case (join_again i)
  obtain k where "i < length (st_devices s)" "occupied (st_devices s ! i)"
    using event_index_SomeD[OF join_again(1)] by metis
  with core_inv_online[OF join_again(3)] join_again(2) show ?case by simp
next
  case (remap i)
  let ?d = "(st_devices s ! i)\<lparr>dr_short_addr := ev_device_short_addr e\<rparr>"
  obtain i': "i < length (st_devices s)" "occupied (st_devices s ! i)"
    using event_index_SomeD[OF remap(1)] by metis
  have on: "dr_online (st_devices s ! i)" using core_inv_online[OF remap(2) i'(1)] i'(2) by simp
  have same: "identity ?d = identity (st_devices s ! i)" "occupied ?d"
    using matched_identity[OF remap(1)] by simp_all
  have "record_ok ?d"
    using core_inv_record[OF remap(2) i'(1)] i' same(2) on by (simp add: record_ok_def)
  from core_inv_put_same[OF remap(2,1) this same] show ?case .
next
  case (leave i)
  from core_inv_leave[OF leave(2,1)] show ?case .
qed (simp_all add: core_inv_def)

lemma core_inv_revision [simp]: "core_inv (s\<lparr>st_revision := r\<rparr>) = core_inv s"
  by (simp add: core_inv_def)

lemma core_step_inv: "core_inv s \<Longrightarrow> core_inv (core_step s e)"
  by (rule core_step_cases[of e s]) (auto dest: core_change_inv)

lemma core_inv_default: "core_inv core_state_default"
  by (simp add: core_inv_def core_state_default_def unique_slots_replicate list_all_length)

lemma core_run_inv: "core_inv s \<Longrightarrow> core_inv (core_run s es)"
  by (induction es arbitrary: s) (simp_all add: core_run_def core_step_inv)

section \<open>Each step is one update of the directory\<close>

text \<open>What an event does to the record it matches, field by field.\<close>

definition record_event :: "CoreEvent \<Rightarrow> CoreDeviceRecord \<Rightarrow> CoreDeviceRecord" where
  "record_event e d =
     (case ev_type e of
        kDeviceJoined \<Rightarrow> d\<lparr>dr_short_addr := ev_device_short_addr e, dr_online := True\<rparr>
      | kAttributeReported \<Rightarrow>
          if ev_cluster_id e = 0x0006 \<and> ev_attribute_id e = 0
          then d\<lparr>dr_power_on := ev_value_bool e, dr_online := True\<rparr> else d
      | kDeviceInterviewCompleted \<Rightarrow> d\<lparr>dr_reporting_state := kInterviewCompleted, dr_stale := False\<rparr>
      | kDeviceBindingReady \<Rightarrow> d\<lparr>dr_reporting_state := kBindingReady, dr_stale := False\<rparr>
      | kDeviceReportingConfigured \<Rightarrow>
          d\<lparr>dr_reporting_state := kReportingConfigured, dr_stale := False\<rparr>
      | kDeviceTelemetryUpdated \<Rightarrow>
          fst (telemetry_kind_update e
                 (d\<lparr>dr_reporting_state := kReportingActive, dr_stale := False,
                    dr_last_report_at_ms := ev_value_u32 e\<rparr>))
      | kDeviceStale \<Rightarrow> d\<lparr>dr_reporting_state := kStale, dr_stale := True\<rparr>
      | _ \<Rightarrow> d)"

definition directory_step ::
  "CoreEvent \<Rightarrow> (DeviceId + u16 \<Rightarrow> CoreDeviceRecord option) \<Rightarrow> DeviceId + u16 \<Rightarrow> CoreDeviceRecord option" where
  "directory_step e m =
     (case event_key e of
        None \<Rightarrow> m
      | Some k \<Rightarrow>
          (case m k of
             None \<Rightarrow> if ev_type e = kDeviceJoined \<and> card (dom m) < kMaxDevices
                     then m(k \<mapsto> joined_record e device_record_default) else m
           | Some d \<Rightarrow> if ev_type e = kDeviceLeft then m(k := None) else m(k \<mapsto> record_event e d)))"

lemma core_step_devices:
  "st_devices (core_step s e) = st_devices (rr_next (fst (reduce_case (reduce_start s) e)))"
  by (simp add: core_step_def core_reduce_def case_prod_unfold Let_def flip: reduce_start_def)

lemma refresh_eq:
  "fst (telemetry_refresh e d) = d\<lparr>dr_reporting_state := kReportingActive, dr_stale := False,
     dr_last_report_at_ms := ev_value_u32 e\<rparr>"
  by (cases d) (auto simp: telemetry_refresh_def Let_def)

lemma devices_unmatched:
  assumes "event_index e s = None" "ev_type e \<noteq> kDeviceJoined"
  shows "st_devices (core_step s e) = st_devices s"
  using assms unfolding core_step_devices reduce_case_def
  by (cases "ev_type e")
     (auto simp: reduce_device_left_def reduce_network_def reduce_attribute_reported_def
       reduce_command_result_def reduce_reporting_step_def reduce_telemetry_def reduce_stale_def
       apply_onoff_attribute_def apply_reporting_state_def apply_telemetry_update_def
       simp flip: event_index_def)

lemma reporting_state_devices:
  assumes "find_device_index (rr_next out) did a = Some i"
  shows "st_devices (rr_next (fst (apply_reporting_state out did a rs st))) =
    (st_devices (rr_next out))[i := (st_devices (rr_next out) ! i)\<lparr>dr_reporting_state := rs, dr_stale := st\<rparr>]"
  using assms by (cases "st_devices (rr_next out) ! i") (simp add: apply_reporting_state_def Let_def)

lemma reduce_reporting_devices:
  "st_devices (rr_next (fst (reduce_reporting_step rs x out e))) =
   st_devices (rr_next (fst (apply_reporting_state out (ev_device_id e) (ev_device_short_addr e) rs False)))"
  "st_devices (rr_next (fst (reduce_stale out e))) =
   st_devices (rr_next (fst (apply_reporting_state out (ev_device_id e) (ev_device_short_addr e) kStale True)))"
  by (simp_all add: reduce_reporting_step_def reduce_stale_def case_prod_unfold Let_def)

lemma telemetry_devices:
  assumes "event_index e (rr_next out) = Some i"
  shows "st_devices (rr_next (fst (reduce_telemetry out e))) =
    (st_devices (rr_next out))[i := fst (telemetry_kind_update e (fst (telemetry_refresh e
       (st_devices (rr_next out) ! i))))]"
  using assms by (simp add: reduce_telemetry_def apply_telemetry_update_def case_prod_unfold Let_def
      flip: event_index_def)

lemma onoff_devices:
  assumes "event_index e (rr_next out) = Some i"
  shows "st_devices (rr_next (fst (reduce_attribute_reported out e))) =
    (st_devices (rr_next out))[i := (let d = st_devices (rr_next out) ! i in
       if ev_cluster_id e = 0x0006 \<and> ev_attribute_id e = 0
       then d\<lparr>dr_power_on := ev_value_bool e, dr_online := True\<rparr> else d)]"
  using assms by (cases "st_devices (rr_next out) ! i")
    (auto simp: reduce_attribute_reported_def apply_onoff_attribute_def case_prod_unfold Let_def
      list_update_known simp flip: event_index_def)

lemma joined_devices:
  assumes "event_index e (rr_next out) = Some i"
    and "valid (ev_device_id e) \<or> ev_device_short_addr e \<noteq> kUnknownDeviceShortAddr"
  shows "st_devices (rr_next (fst (reduce_device_joined out e))) =
    (st_devices (rr_next out))[i := (st_devices (rr_next out) ! i)
       \<lparr>dr_short_addr := ev_device_short_addr e, dr_online := True\<rparr>]"
  using assms by (cases "st_devices (rr_next out) ! i")
    (auto simp: reduce_device_joined_def Let_def list_update_known simp flip: event_index_def)

lemma devices_matched:
  assumes i: "event_index e s = Some i" and nl: "ev_type e \<noteq> kDeviceLeft"
  shows "st_devices (core_step s e) = (st_devices s)[i := record_event e (st_devices s ! i)]"
proof -
  have i': "find_device_index s (ev_device_id e) (ev_device_short_addr e) = Some i"
    using i by (simp add: event_index_def)
  have k: "valid (ev_device_id e) \<or> ev_device_short_addr e \<noteq> kUnknownDeviceShortAddr"
    using event_index_SomeD[OF i] event_key_iff[of e] by metis
  show ?thesis
    unfolding core_step_devices reduce_case_def record_event_def
    using nl joined_devices[of e "reduce_start s" i] telemetry_devices[of e "reduce_start s" i]
      onoff_devices[of e "reduce_start s" i] i k
      reporting_state_devices[of "reduce_start s" "ev_device_id e" "ev_device_short_addr e" i] i'
    by (cases "ev_type e")
       (simp_all add: reduce_reporting_devices reduce_network_def reduce_command_result_def
         Let_def refresh_eq)
qed

lemma devices_left:
  assumes i: "event_index e s = Some i" and "ev_type e = kDeviceLeft"
  shows "st_devices (core_step s e) = (st_devices s)[i := device_record_default]"
proof -
  have "valid (ev_device_id e) \<or> ev_device_short_addr e \<noteq> kUnknownDeviceShortAddr"
    using event_index_SomeD[OF i] event_key_iff[of e] by metis
  then show ?thesis
    using assms unfolding core_step_devices reduce_case_def
    by (auto simp: reduce_device_left_def Let_def simp flip: event_index_def)
qed

lemma devices_joined_new:
  assumes "event_index e s = None" "ev_type e = kDeviceJoined"
    and "event_key e = Some k"
  shows "st_devices (core_step s e) =
    (case find_free_slot s of None \<Rightarrow> st_devices s
     | Some i \<Rightarrow> (st_devices s)[i := joined_record e (st_devices s ! i)])"
proof -
  have "valid (ev_device_id e) \<or> ev_device_short_addr e \<noteq> kUnknownDeviceShortAddr"
    using assms(3) event_key_iff[of e] by metis
  then show ?thesis
    using assms(1,2) unfolding core_step_devices reduce_case_def joined_record_def
    by (auto simp: reduce_device_joined_def Let_def split: option.split simp flip: event_index_def)
qed

lemma record_event_key:
  assumes "event_index e s = Some i"
  shows "identity (record_event e (st_devices s ! i)) = identity (st_devices s ! i)"
    and "occupied (record_event e (st_devices s ! i))"
proof -
  let ?d = "st_devices s ! i"
  have occ: "occupied ?d" using event_index_SomeD[OF assms] by metis
  have m: "identity (?d\<lparr>dr_short_addr := ev_device_short_addr e, dr_online := True\<rparr>) = identity ?d"
    "occupied (?d\<lparr>dr_short_addr := ev_device_short_addr e, dr_online := True\<rparr>)"
    using matched_identity[OF assms] by simp_all
  have t: "identity (fst (telemetry_kind_update e x)) = identity x"
    "occupied (fst (telemetry_kind_update e x)) = occupied x" for x
    using telemetry_kind_update_key[of e x] by (simp_all add: record_key_def identity_def occupied_def)
  show "identity (record_event e ?d) = identity ?d"
    using m(1) by (cases "ev_type e") (simp_all add: record_event_def t, simp_all add: identity_def)
  show "occupied (record_event e ?d)"
    using m(2) occ by (cases "ev_type e") (simp_all add: record_event_def t, simp_all add: occupied_def)
qed

lemma free_slot_iff:
  assumes "core_inv s"
  shows "(\<exists>i. find_free_slot s = Some i) \<longleftrightarrow> card (dom (devices_of s)) < kMaxDevices"
  using assms find_index_free_iff[of occupied "st_devices s"]
  by (simp add: find_free_slot_eq devices_of_def dir.card_dom_slot_map core_inv_def)

lemma step_unmatched:
  assumes "core_inv s" "event_index e s = None" "event_key e = Some k" "ev_type e = kDeviceJoined"
  shows "devices_of (core_step s e) =
    (if card (dom (devices_of s)) < kMaxDevices
     then (devices_of s)(k \<mapsto> joined_record e device_record_default) else devices_of s)"
proof (cases "find_free_slot s")
  case None
  then show ?thesis
    using devices_joined_new[OF assms(2,4,3)] free_slot_iff[OF assms(1)]
    by (simp add: devices_of_def)
next
  case (Some i)
  note w = core_inv_join[OF assms(1,2,3) Some]
  have "unique_slots occupied identity (st_devices s)" using assms(1) by (simp add: core_inv_def)
  from dir.write_map[OF this w(1)] show ?thesis
    using devices_joined_new[OF assms(2,4,3)] free_slot_iff[OF assms(1)] Some w(3,4)
    by (auto simp: devices_of_def)
qed

lemma step_matched:
  assumes inv: "core_inv s" and i: "event_index e s = Some i" and k: "event_key e = Some k"
  shows "devices_of s k = Some (st_devices s ! i)"
    and "devices_of (core_step s e) =
      (if ev_type e = kDeviceLeft then (devices_of s)(k := None)
       else (devices_of s)(k \<mapsto> record_event e (st_devices s ! i)))"
proof -
  have f: "find_slot occupied identity k (st_devices s) = Some i"
    using i k by (simp add: event_index_key)
  then show "devices_of s k = Some (st_devices s ! i)" by (simp add: devices_of_def slot_map_def)
  have u: "unique_slots occupied identity (st_devices s)" using inv by (simp add: core_inv_def)
  note d = dir.find_slotD[OF f] record_event_key[OF i]
  have "dir.writable i (record_event e (st_devices s ! i)) (st_devices s)"
    using d f by (simp add: dir.writable_def)
  from dir.write_map[OF u this] dir.clear_map[OF u f] devices_matched[OF i] devices_left[OF i] d
  show "devices_of (core_step s e) =
      (if ev_type e = kDeviceLeft then (devices_of s)(k := None)
       else (devices_of s)(k \<mapsto> record_event e (st_devices s ! i)))"
    by (auto simp: devices_of_def)
qed

lemma core_step_refines_directory_aux:
  assumes "core_inv s"
  shows "devices_of (core_step s e) = directory_step e (devices_of s)"
proof (cases "event_key e")
  case None
  have "devices_of (core_step s e) = devices_of s"
  proof (cases "ev_type e = kDeviceJoined")
    case True
    then show ?thesis using None event_key_iff[of e]
      by (simp add: devices_of_def core_step_devices reduce_case_def reduce_device_joined_def)
  next
    case False
    then show ?thesis using devices_unmatched[of e s] None by (simp add: devices_of_def event_index_key)
  qed
  then show ?thesis using None by (simp add: directory_step_def)
next
  case (Some k)
  show ?thesis
  proof (cases "event_index e s")
    case (Some i)
    then show ?thesis using step_matched[OF assms Some \<open>event_key e = Some k\<close>] \<open>event_key e = Some k\<close>
      by (simp add: directory_step_def)
  next
    case None
    have "devices_of s k = None"
      using None \<open>event_key e = Some k\<close> by (simp add: event_index_key devices_of_def slot_map_def)
    then show ?thesis
      using step_unmatched[OF assms None \<open>event_key e = Some k\<close>] devices_unmatched[OF None]
        \<open>event_key e = Some k\<close>
      by (cases "ev_type e = kDeviceJoined") (simp_all add: directory_step_def devices_of_def)
  qed
qed

text \<open>
  C1: every step of the reducer is exactly one update of the device directory: a new device is
  entered with a fresh record while there is room (and dropped when the 64 slots are used), a known
  device is updated field by field as \<open>record_event\<close> says, a device that leaves is removed, and
  every other event leaves the directory as it was.
\<close>

theorem core_step_refines_directory:
  assumes "core_inv s"
  shows "devices_of (core_step s e) = directory_step e (devices_of s)"
  by (rule core_step_refines_directory_aux[OF assms])

text \<open>Two devices that join, one of which leaves: what the directory holds then.\<close>

definition sample_id :: DeviceId where "sample_id = DeviceId 0 0x12 0x4B 0 1 2 3 4"

definition sample_event :: "CoreEventType \<Rightarrow> DeviceId \<Rightarrow> u16 \<Rightarrow> CoreEvent" where
  "sample_event t i a = core_event_default\<lparr>ev_type := t, ev_device_id := i, ev_device_short_addr := a\<rparr>"

definition sample_state :: CoreState where
  "sample_state = core_run core_state_default
     [sample_event kDeviceJoined sample_id 7, sample_event kDeviceJoined no_device_id 9]"

lemma sample_state_inv: "core_inv sample_state"
  unfolding sample_state_def by (rule core_run_inv) (rule core_inv_default)

lemma core_step_refines_directory_witness:
  "devices_of (core_step sample_state (sample_event kDeviceLeft no_device_id 9)) =
   directory_step (sample_event kDeviceLeft no_device_id 9) (devices_of sample_state)"
  by (rule core_step_refines_directory[OF sample_state_inv])

text \<open>
  C2: from the initial state, after any sequence of events: the table has 64 slots, no two records
  share an identity, a record is online exactly when its slot is used, free slots are blank,
  \<^verbatim>\<open>device_count\<close> is the number of devices online and every battery level is at most 100.
\<close>

theorem core_run_invariant: "core_inv (core_run core_state_default es)"
  by (rule core_run_inv) (rule core_inv_default)

section \<open>Effects\<close>

text \<open>
  The effects an event calls for, as a function of the states before and after: a command request
  or result is forwarded as one effect; a step that changed the state (its revision moved) persists
  that very revision, publishes the device count, and starts the next step of the device lifecycle.
\<close>

definition expected_effects :: "CoreEvent \<Rightarrow> CoreState \<Rightarrow> CoreState \<Rightarrow> CoreEffect list" where
  "expected_effects e s t =
     (let emit = (\<lambda>n ok. [plain_effect kEmitCommandResult (ev_correlation_id e)
                            (ev_device_short_addr e) n ok])
      in case ev_type e of
           kCommandSetDevicePowerRequested \<Rightarrow>
             [plain_effect kSendZigbeeOnOff (ev_correlation_id e) (ev_device_short_addr e) 0
                (ev_value_bool e)]
         | kCommandRefreshNetworkRequested \<Rightarrow>
             [plain_effect kEffectRefreshNetwork (ev_correlation_id e) kUnknownDeviceShortAddr 0 False]
         | kCommandResultSuccess \<Rightarrow> emit 1 True
         | kCommandResultTimeout \<Rightarrow> emit 2 False
         | kCommandResultFailed \<Rightarrow> emit 3 False
         | _ \<Rightarrow> if st_revision t \<noteq> st_revision s
                then [plain_effect kPersistState kNoCorrelationId kUnknownDeviceShortAddr
                        (st_revision t) (st_network_connected t),
                      plain_effect kPublishTelemetry kNoCorrelationId kUnknownDeviceShortAddr
                        (ucast (st_device_count t)) (st_network_connected t)] @ follow_up e s
                else [])"

text \<open>
  C8: the revision of the core state moves by one exactly when the step changed the state (a step
  that leaves the revision leaves the whole state), and the effect list holds exactly the effects
  the event calls for: none is lost to the four slots of the list, and the persist effect carries
  the revision of the state it is to persist.
\<close>

theorem core_reduce_effects:
  "(core_step s e = s \<or> st_revision (core_step s e) = st_revision s + 1) \<and>
   effects_of (rr_effects (core_reduce s e)) = expected_effects e s (core_step s e)"
proof (rule core_step_cases[of e s])
  fix t
  assume t: "core_change e s t" "core_step s e = (if step_changed s e
      then t\<lparr>st_revision := st_revision s + 1\<rparr> else t)" "\<not> step_changed s e \<Longrightarrow> t = s"
    "effects_of (rr_effects (core_reduce s e)) = case_effects e s t (step_changed s e)"
  have r: "st_revision t = st_revision s" by (rule core_change_revision[OF t(1)])
  have "case_effects e s t (step_changed s e) = expected_effects e s (core_step s e)"
    using t(2,3) r unfolding case_effects_def expected_effects_def Let_def
    by (cases "ev_type e") (auto simp: persist_effect_def telemetry_effect_def)
  with t show ?thesis by auto
qed

section \<open>Identities\<close>

text \<open>
  C9: an event that carries no permanent identity never touches a device that has one, and an event
  with a permanent identity touches no other device: every directory entry but the event's own is
  the same before and after.
\<close>

theorem event_touches_only_its_device:
  assumes "core_inv s" "event_key e \<noteq> Some k"
  shows "devices_of (core_step s e) k = devices_of s k"
  using assms(2) unfolding core_step_refines_directory_aux[OF assms(1)] directory_step_def
  by (auto split: option.splits)

lemma event_touches_only_its_device_witness:
  "devices_of (core_step sample_state (sample_event kDeviceLeft no_device_id 7)) (Inl sample_id) =
   devices_of sample_state (Inl sample_id)"
proof (rule event_touches_only_its_device[OF sample_state_inv])
  show "event_key (sample_event kDeviceLeft no_device_id 7) \<noteq> Some (Inl sample_id)"
    by (simp add: event_key_def sample_event_def core_event_default_def not_valid_default)
qed

section \<open>Repeated events\<close>

lemma telemetry_kind_same:
  "fst (telemetry_kind_update e (fst (telemetry_kind_update e d))) = fst (telemetry_kind_update e d)"
proof (cases "ev_telemetry_kind e")
  case kContactIasZoneStatus
  then show ?thesis
    by (cases d; cases "ev_telemetry_valid e")
       (auto simp: telemetry_kind_update_def telemetry_contact_def Let_def split: if_splits prod.splits)
qed (cases d; auto simp: telemetry_kind_update_def telemetry_defs Let_def)+

lemma telemetry_contact_changed: "snd (telemetry_contact e d) \<longleftrightarrow> fst (telemetry_contact e d) \<noteq> d"
  by (cases d; cases "ev_telemetry_valid e") (auto simp: telemetry_contact_def Let_def)

lemma telemetry_kind_changed: "snd (telemetry_kind_update e d) \<longleftrightarrow> fst (telemetry_kind_update e d) \<noteq> d"
  by (cases "ev_telemetry_kind e"; cases d)
     (auto simp: telemetry_kind_update_def telemetry_contact_changed
       telemetry_temperature_def telemetry_occupancy_def telemetry_battery_percent_def
       telemetry_battery_voltage_def telemetry_lqi_def telemetry_rssi_def Let_def)

lemma telemetry_refresh_changed: "snd (telemetry_refresh e d) \<longleftrightarrow> fst (telemetry_refresh e d) \<noteq> d"
  by (cases d) (auto simp: telemetry_refresh_def Let_def)

definition refresh_fields :: "CoreDeviceRecord \<Rightarrow> CoreReportingState \<times> bool \<times> u32" where
  "refresh_fields d = (dr_reporting_state d, dr_stale d, dr_last_report_at_ms d)"

lemma telemetry_kind_refresh_fields: "refresh_fields (fst (telemetry_kind_update e d)) = refresh_fields d"
  by (cases "ev_telemetry_kind e")
     (simp_all add: telemetry_kind_update_def telemetry_defs refresh_fields_def Let_def)

lemma telemetry_refresh_id:
  "refresh_fields d = (kReportingActive, False, ev_value_u32 e) \<Longrightarrow> fst (telemetry_refresh e d) = d"
  by (cases d) (simp add: refresh_eq refresh_fields_def)

lemma telemetry_refresh_fields:
  "refresh_fields (fst (telemetry_refresh e d)) = (kReportingActive, False, ev_value_u32 e)"
  by (simp add: refresh_eq refresh_fields_def)

definition device_event :: "CoreEventType \<Rightarrow> bool" where
  "device_event t \<longleftrightarrow> t \<in> {kDeviceJoined, kAttributeReported, kDeviceInterviewCompleted,
     kDeviceBindingReady, kDeviceReportingConfigured, kDeviceTelemetryUpdated, kDeviceStale}"

lemma record_event_same: "record_event e (record_event e d) = record_event e d"
proof (cases "ev_type e = kDeviceTelemetryUpdated")
  case True
  let ?x = "fst (telemetry_refresh e d)"
  have "fst (telemetry_refresh e (fst (telemetry_kind_update e ?x))) = fst (telemetry_kind_update e ?x)"
    by (intro telemetry_refresh_id) (simp add: telemetry_kind_refresh_fields telemetry_refresh_fields)
  then show ?thesis
    using True telemetry_kind_same[of e ?x] by (simp add: record_event_def flip: refresh_eq)
next
  case False
  then show ?thesis by (cases "ev_type e"; cases d) (simp_all add: record_event_def)
qed

lemma step_unchanged_telemetry:
  assumes "fst (telemetry_kind_update e (fst (telemetry_refresh e d))) = d"
  shows "\<not> snd (telemetry_refresh e d)" "\<not> snd (telemetry_kind_update e (fst (telemetry_refresh e d)))"
proof -
  have "refresh_fields d = (kReportingActive, False, ev_value_u32 e)"
    using telemetry_kind_refresh_fields[of e "fst (telemetry_refresh e d)"] assms
    by (simp add: telemetry_refresh_fields)
  then have "fst (telemetry_refresh e d) = d" by (rule telemetry_refresh_id)
  then show "\<not> snd (telemetry_refresh e d)" "\<not> snd (telemetry_kind_update e (fst (telemetry_refresh e d)))"
    using assms by (simp_all add: telemetry_refresh_changed telemetry_kind_changed)
qed

lemma reporting_unchanged:
  assumes "find_device_index (rr_next out) did a = Some i"
    and "(st_devices (rr_next out) ! i)\<lparr>dr_reporting_state := rs, dr_stale := st\<rparr> = st_devices (rr_next out) ! i"
  shows "\<not> snd (apply_reporting_state out did a rs st)"
proof (cases "st_devices (rr_next out) ! i")
  case (fields)
  from assms(2) have "dr_reporting_state (st_devices (rr_next out) ! i) = rs"
    "dr_stale (st_devices (rr_next out) ! i) = st"
    by (simp_all add: fields)
  then show ?thesis using assms(1) by (simp add: apply_reporting_state_def Let_def)
qed

lemma step_unchanged_matched:
  assumes i: "event_index e s = Some i" and t: "device_event (ev_type e)"
    and same: "record_event e (st_devices s ! i) = st_devices s ! i"
  shows "\<not> step_changed s e"
proof -
  let ?d = "st_devices s ! i"
  have i': "find_device_index s (ev_device_id e) (ev_device_short_addr e) = Some i"
    using i by (simp add: event_index_def)
  note r = reporting_unchanged[of "reduce_start s", simplified, OF i']
  have j: "dr_online ?d \<and> dr_short_addr ?d = ev_device_short_addr e"
    if "?d\<lparr>dr_short_addr := ev_device_short_addr e, dr_online := True\<rparr> = ?d"
    using that by (cases ?d) simp
  have a: "dr_online ?d \<and> dr_power_on ?d = ev_value_bool e"
    if "?d\<lparr>dr_power_on := ev_value_bool e, dr_online := True\<rparr> = ?d"
    using that by (cases ?d) simp
  note reporting_defs = step_changed_def reduce_case_def reduce_reporting_step_def reduce_stale_def
    case_prod_unfold Let_def
  show ?thesis
  proof (cases "ev_type e")
    case kDeviceJoined
    with j same have "dr_online ?d" "dr_short_addr ?d = ev_device_short_addr e"
      by (simp_all add: record_event_def)
    with kDeviceJoined i' show ?thesis
      by (simp add: step_changed_def reduce_case_def reduce_device_joined_def)
  next
    case kAttributeReported
    show ?thesis
    proof (cases "ev_cluster_id e = 0x0006 \<and> ev_attribute_id e = 0")
      case True
      with same kAttributeReported have "?d\<lparr>dr_power_on := ev_value_bool e, dr_online := True\<rparr> = ?d"
        by (simp add: record_event_def)
      from a[OF this] True i' kAttributeReported show ?thesis
        by (simp add: step_changed_def reduce_case_def reduce_attribute_reported_def
            apply_onoff_attribute_def)
    next
      case False
      then have "apply_onoff_attribute (reduce_start s) e = (reduce_start s, False)"
        unfolding apply_onoff_attribute_def by (simp only: de_Morgan_conj if_True)
      with kAttributeReported show ?thesis
        by (simp add: step_changed_def reduce_case_def reduce_attribute_reported_def)
    qed
  next
    case kDeviceInterviewCompleted
    with r[where rs = kInterviewCompleted and st = False] same show ?thesis by (simp add: reporting_defs record_event_def)
  next
    case kDeviceBindingReady
    with r[where rs = kBindingReady and st = False] same show ?thesis by (simp add: reporting_defs record_event_def)
  next
    case kDeviceReportingConfigured
    with r[where rs = kReportingConfigured and st = False] same show ?thesis by (simp add: reporting_defs record_event_def)
  next
    case kDeviceStale
    with r[where rs = kStale and st = True] same show ?thesis by (simp add: reporting_defs record_event_def)
  next
    case kDeviceTelemetryUpdated
    with same have "fst (telemetry_kind_update e (fst (telemetry_refresh e ?d))) = ?d"
      by (simp add: record_event_def refresh_eq)
    from step_unchanged_telemetry[OF this] kDeviceTelemetryUpdated i' show ?thesis
      by (simp add: step_changed_def reduce_case_def reduce_telemetry_def apply_telemetry_update_def
          case_prod_unfold Let_def)
  qed (use t in \<open>simp_all add: device_event_def\<close>)
qed

lemma step_unchanged_unmatched:
  assumes "event_index e s = None" "ev_type e \<in> {kDeviceLeft, kEventUnknown} \<or> device_event (ev_type e)"
    and "ev_type e = kDeviceJoined \<Longrightarrow> find_free_slot s = None"
  shows "\<not> step_changed s e"
proof -
  have i: "find_device_index s (ev_device_id e) (ev_device_short_addr e) = None"
    using assms(1) by (simp add: event_index_def)
  show ?thesis
    using assms(2,3) i
    by (cases "ev_type e")
       (simp_all add: step_changed_def reduce_case_def device_event_def reduce_device_left_def
         reduce_device_joined_def reduce_attribute_reported_def apply_onoff_attribute_def
         reduce_reporting_step_def reduce_stale_def apply_reporting_state_def reduce_telemetry_def
         apply_telemetry_update_def Let_def)
qed

lemma step_unchanged_same: "\<not> step_changed s e \<Longrightarrow> core_step s e = s"
  by (rule core_step_cases[of e s]) simp

definition command_result :: "CoreEventType \<Rightarrow> bool" where
  "command_result t \<longleftrightarrow> t \<in> {kCommandResultSuccess, kCommandResultTimeout, kCommandResultFailed}"

lemma step_again_matched:
  assumes inv: "core_inv s" and i: "event_index e s = Some i" and t: "device_event (ev_type e)"
  shows "\<not> step_changed (core_step s e) e"
proof -
  let ?d = "record_event e (st_devices s ! i)"
  obtain k where k: "event_key e = Some k" "i < length (st_devices s)" "identity (st_devices s ! i) = k"
    using event_index_SomeD[OF i] by metis
  have ds: "st_devices (core_step s e) = (st_devices s)[i := ?d]"
    using devices_matched[OF i] t by (auto simp: device_event_def)
  have "unique_slots occupied identity (st_devices (core_step s e))"
    using core_step_inv[OF inv] by (simp add: core_inv_def)
  then have "event_index e (core_step s e) = Some i"
    using k record_event_key[OF i] dir.find_slot_iff
    by (simp add: event_index_key ds)
  moreover have "st_devices (core_step s e) ! i = ?d" using ds k(2) by simp
  ultimately show ?thesis
    using step_unchanged_matched[of e "core_step s e" i] t record_event_same[of e "st_devices s ! i"] by simp
qed

lemma step_again_joined:
  assumes inv: "core_inv s" and i: "event_index e s = None" and t: "ev_type e = kDeviceJoined"
  shows "\<not> step_changed (core_step s e) e"
proof (cases "event_key e")
  case None
  then show ?thesis using t event_key_iff[of e]
    by (simp add: step_changed_def reduce_case_def reduce_device_joined_def)
next
  case (Some k)
  show ?thesis
  proof (cases "find_free_slot s")
    case None
    then have "\<not> step_changed s e" using step_unchanged_unmatched[OF i] t by (simp add: device_event_def)
    then show ?thesis using step_unchanged_same[of s e] by simp
  next
    case (Some f)
    note w = core_inv_join[OF inv i \<open>event_key e = Some k\<close> Some]
    have ds: "st_devices (core_step s e) = (st_devices s)[f := joined_record e device_record_default]"
      using devices_joined_new[OF i t \<open>event_key e = Some k\<close>] Some w(3) by simp
    have f: "f < length (st_devices s)" using w(1) by (simp add: dir.writable_def)
    have "unique_slots occupied identity (st_devices (core_step s e))"
      using core_step_inv[OF inv] by (simp add: core_inv_def)
    then have "event_index e (core_step s e) = Some f"
      using w(1,3,4) f \<open>event_key e = Some k\<close> dir.find_slot_iff
      by (simp add: event_index_key ds dir.writable_def)
    moreover have "st_devices (core_step s e) ! f = joined_record e device_record_default"
      using ds f by simp
    moreover have "record_event e (joined_record e device_record_default) =
        joined_record e device_record_default"
      using t by (simp add: record_event_def joined_record_def device_record_default_def)
    ultimately show ?thesis
      using step_unchanged_matched[of e "core_step s e" f] t by (simp add: device_event_def)
  qed
qed

lemma step_again_left:
  assumes inv: "core_inv s" and t: "ev_type e = kDeviceLeft"
  shows "\<not> step_changed (core_step s e) e"
proof -
  have "devices_of (core_step s e) k = None" if "event_key e = Some k" for k
    using core_step_refines_directory_aux[OF inv, of e] that t
    by (auto simp: directory_step_def split: option.splits)
  then have "event_index e (core_step s e) = None"
    by (auto simp: event_index_key devices_of_def slot_map_def split: option.splits)
  from step_unchanged_unmatched[OF this] t show ?thesis by simp
qed

lemma step_again_network:
  assumes "ev_type e = (if up then kNetworkUp else kNetworkDown)"
  shows "\<not> step_changed (core_step s e) e"
proof -
  have "st_network_connected (core_step s e) = up"
    using assms by (cases up)
      (simp_all add: core_step_def core_reduce_def reduce_case_def reduce_network_def)
  then show ?thesis using assms
    by (cases up) (simp_all add: step_changed_def reduce_case_def reduce_network_def)
qed

text \<open>
  Handling an event twice is the same as handling it once (command results apart, which always
  count as a change): a repeated join, leave, report, telemetry or network event changes nothing,
  moves no revision and so triggers no second write of the state to storage.
\<close>

theorem repeated_event_is_absorbed:
  assumes inv: "core_inv s" and t: "\<not> command_result (ev_type e)"
  shows "core_step (core_step s e) e = core_step s e"
proof (rule step_unchanged_same)
  show "\<not> step_changed (core_step s e) e"
  proof (cases "device_event (ev_type e)")
    case True
    show ?thesis
    proof (cases "event_index e s")
      case None
      show ?thesis
      proof (cases "ev_type e = kDeviceJoined")
        case True
        from step_again_joined[OF inv None this] show ?thesis .
      next
        case False
        with None \<open>device_event (ev_type e)\<close> have "\<not> step_changed s e"
          by (intro step_unchanged_unmatched) auto
        then show ?thesis using step_unchanged_same[of s e] by simp
      qed
    next
      case (Some i)
      from step_again_matched[OF inv Some True] show ?thesis .
    qed
  next
    case False
    then show ?thesis
      using t step_again_left[OF inv, of e] step_again_network[of e True s] step_again_network[of e False s]
      by (cases "ev_type e")
         (simp_all add: device_event_def command_result_def step_changed_def reduce_case_def)
  qed
qed

lemma repeated_event_is_absorbed_witness:
  "core_step (core_step sample_state (sample_event kDeviceLeft sample_id 7))
     (sample_event kDeviceLeft sample_id 7) =
   core_step sample_state (sample_event kDeviceLeft sample_id 7)"
  by (rule repeated_event_is_absorbed[OF sample_state_inv])
     (simp add: command_result_def sample_event_def core_event_default_def)

section \<open>Measurements\<close>

definition telemetry_event_for :: "CoreEvent \<Rightarrow> CoreTelemetryKind \<Rightarrow> bool" where
  "telemetry_event_for e t \<longleftrightarrow>
     ev_type e = kDeviceTelemetryUpdated \<and> ev_telemetry_kind e = t \<and> ev_telemetry_valid e"


definition sample_telemetry :: CoreEvent where
  "sample_telemetry = (sample_event kDeviceTelemetryUpdated no_device_id 9)
     \<lparr>ev_telemetry_kind := kBatteryPercent, ev_telemetry_i32 := 250, ev_telemetry_valid := True\<rparr>"

lemma devices_of_default: "devices_of core_state_default = Map.empty"
  by (rule ext) (simp add: devices_of_def core_state_default_def dir.empty_map)

lemma sample_devices: "\<exists>d. devices_of sample_state (Inr 9) = Some d"
proof -
  let ?e1 = "sample_event kDeviceJoined sample_id 7" and ?e2 = "sample_event kDeviceJoined no_device_id 9"
  have "valid sample_id" unfolding sample_id_def by code_simp
  then have k: "event_key ?e1 = Some (Inl sample_id)" "event_key ?e2 = Some (Inr 9)"
    "ev_type ?e1 = kDeviceJoined" "ev_type ?e2 = kDeviceJoined"
    by (simp_all add: event_key_def sample_event_def core_event_default_def not_valid_default
        kUnknownDeviceShortAddr_def)
  let ?s1 = "core_step core_state_default ?e1"
  have d1: "devices_of ?s1 = [Inl sample_id \<mapsto> joined_record ?e1 device_record_default]"
    by (simp add: core_step_refines_directory_aux[OF core_inv_default] devices_of_default
        directory_step_def k kMaxDevices_def)
  have "devices_of sample_state = directory_step ?e2 (devices_of ?s1)"
    using core_step_refines_directory_aux[OF core_step_inv[OF core_inv_default, of ?e1], of ?e2]
    by (simp add: sample_state_def core_run_def)
  then show ?thesis by (simp add: d1 directory_step_def k kMaxDevices_def)
qed


end
