(* ===== verification/CoreRegistry.thy ===== *)
theory CoreRegistry
  imports CoreTypes
begin

text \<open>
  \<^verbatim>\<open>components/core/core_registry.cpp\<close>: eight snapshots of the core state. Readers pin the
  active snapshot and read it without a lock; the one writer publishes into a snapshot that is
  neither active nor pinned.

  The operations are given twice. As functions they run without interruption; this is what a single
  thread sees. As the step relation \<open>reg_step\<close> they are cut at every atomic access of the code, and
  the steps of any number of readers and of the writer interleave in every order. The relation is
  sequentially consistent: the acquire/release orderings of the code are taken as a total order of
  the atomic accesses. A \<^verbatim>\<open>SnapshotRef\<close> is \<open>None\<close> when it is not valid; its pointer to the
  state is its slot index.
\<close>

record SnapshotSlot =
  ss_id :: u32
  ss_state :: CoreState

record Registry =
  reg_slots :: "SnapshotSlot list"
  reg_pins :: "u32 list"
  reg_active :: nat
  reg_active_id :: u32
  reg_write_index :: nat
  reg_next_id :: u32

record SnapshotRef =
  sr_id :: u32
  sr_slot_index :: nat

definition kSnapshotCount :: nat where "kSnapshotCount = 8"

definition registry_init :: Registry where
  "registry_init =
     \<lparr>reg_slots = replicate kSnapshotCount \<lparr>ss_id = 0, ss_state = core_state_default\<rparr>,
      reg_pins = replicate kSnapshotCount 0, reg_active = 0, reg_active_id = 0,
      reg_write_index = 0, reg_next_id = 1\<rparr>"

section \<open>The operations, run alone\<close>

definition add_pin :: "nat \<Rightarrow> Registry \<Rightarrow> Registry" where
  "add_pin i g = g\<lparr>reg_pins := (reg_pins g)[i := reg_pins g ! i + 1]\<rparr>"

definition drop_pin :: "nat \<Rightarrow> Registry \<Rightarrow> Registry" where
  "drop_pin i g = g\<lparr>reg_pins := (reg_pins g)[i := (if reg_pins g ! i = 0 then 0 else reg_pins g ! i - 1)]\<rparr>"

definition ref_of :: "nat \<Rightarrow> Registry \<Rightarrow> SnapshotRef" where
  "ref_of i g = \<lparr>sr_id = ss_id (reg_slots g ! i), sr_slot_index = i\<rparr>"

definition pin_current :: "Registry \<Rightarrow> SnapshotRef \<times> Registry" where
  "pin_current g = (ref_of (reg_active g) g, add_pin (reg_active g) g)"

definition release_snapshot :: "SnapshotRef option \<Rightarrow> Registry \<Rightarrow> SnapshotRef option \<times> Registry" where
  "release_snapshot r g =
     (case r of None \<Rightarrow> (None, g)
      | Some ref \<Rightarrow> (None, if sr_slot_index ref < kSnapshotCount then drop_pin (sr_slot_index ref) g else g))"

definition snapshot_copy :: "Registry \<Rightarrow> CoreState \<times> Registry" where
  "snapshot_copy g =
     (let (ref, g1) = pin_current g
      in (ss_state (reg_slots g1 ! sr_slot_index ref), snd (release_snapshot (Some ref) g1)))"

definition current_revision :: "Registry \<Rightarrow> u32 \<times> Registry" where
  "current_revision g =
     (let (ref, g1) = pin_current g
      in (st_revision (ss_state (reg_slots g1 ! sr_slot_index ref)), snd (release_snapshot (Some ref) g1)))"

definition current_snapshot_id :: "Registry \<Rightarrow> u32" where
  "current_snapshot_id g = reg_active_id g"

definition next_state_of :: "CoreState \<Rightarrow> CoreState \<Rightarrow> CoreState" where
  "next_state_of current s =
     (if st_revision s \<le> st_revision current then s\<lparr>st_revision := st_revision current + 1\<rparr> else s)"

definition candidate :: "Registry \<Rightarrow> nat \<Rightarrow> nat" where
  "candidate g i = (reg_write_index g + 1 + i) mod kSnapshotCount"

definition slot_usable :: "Registry \<Rightarrow> nat \<Rightarrow> nat \<Rightarrow> bool" where
  "slot_usable g current c \<longleftrightarrow> c \<noteq> current \<and> reg_pins g ! c = 0"

definition write_slot :: "nat \<Rightarrow> CoreState \<Rightarrow> Registry \<Rightarrow> Registry" where
  "write_slot i s g =
     g\<lparr>reg_slots := (reg_slots g)[i := \<lparr>ss_id = reg_next_id g, ss_state = s\<rparr>],
       reg_next_id := reg_next_id g + 1, reg_write_index := i\<rparr>"

definition activate :: "nat \<Rightarrow> Registry \<Rightarrow> Registry" where
  "activate i g = g\<lparr>reg_active_id := ss_id (reg_slots g ! i), reg_active := i\<rparr>"

definition publish :: "CoreState \<Rightarrow> Registry \<Rightarrow> bool \<times> Registry" where
  "publish s g =
     (let current = reg_active g;
          next = next_state_of (ss_state (reg_slots g ! current)) s
      in case find (slot_usable g current) (map (candidate g) [0..<kSnapshotCount]) of
           None \<Rightarrow> (False, g)
         | Some c \<Rightarrow> (True, activate c (write_slot c next g)))"

text \<open>The state a reader would see: the active snapshot.\<close>

definition visible :: "Registry \<Rightarrow> CoreState" where
  "visible g = ss_state (reg_slots g ! reg_active g)"

definition registry_shape :: "Registry \<Rightarrow> bool" where
  "registry_shape g \<longleftrightarrow> length (reg_slots g) = kSnapshotCount \<and> length (reg_pins g) = kSnapshotCount \<and>
     reg_active g < kSnapshotCount"

lemma registry_shape_init: "registry_shape registry_init"
  by (simp add: registry_shape_def registry_init_def kSnapshotCount_def)

lemma pin_shape [simp]:
  "registry_shape (add_pin i g) = registry_shape g" "registry_shape (drop_pin i g) = registry_shape g"
  "reg_slots (add_pin i g) = reg_slots g" "reg_slots (drop_pin i g) = reg_slots g"
  "reg_active (add_pin i g) = reg_active g" "reg_active (drop_pin i g) = reg_active g"
  by (simp_all add: registry_shape_def add_pin_def drop_pin_def)

lemma candidates_cover:
  "set (map (candidate g) [0..<kSnapshotCount]) = {0..<kSnapshotCount}"
proof -
  have "i \<in> candidate g ` {0..<kSnapshotCount}" if "i < kSnapshotCount" for i
  proof (rule image_eqI)
    let ?w = "(reg_write_index g + 1) mod 8"
    have "(Suc w + x mod 8) mod 8 = (Suc w mod 8 + x) mod 8" for w x :: nat
      by (simp only: mod_add_left_eq mod_add_right_eq)
    from this[of "reg_write_index g" "i + 8 - ?w"]
    show "i = candidate g ((i + 8 - ?w) mod 8)"
      using that mod_less_divisor[of 8 "reg_write_index g + 1"]
      by (simp add: candidate_def kSnapshotCount_def del: mod_less_divisor)
  qed (simp add: kSnapshotCount_def)
  moreover have "candidate g i < kSnapshotCount" for i by (simp add: candidate_def kSnapshotCount_def)
  ultimately show ?thesis by auto
qed

lemma publish_cases:
  assumes "registry_shape g"
  shows "(\<exists>c < kSnapshotCount. slot_usable g (reg_active g) c \<and>
             publish s g = (True, activate c (write_slot c (next_state_of (visible g) s) g))) \<or>
         (\<forall>c < kSnapshotCount. \<not> slot_usable g (reg_active g) c) \<and> publish s g = (False, g)"
proof (cases "find (slot_usable g (reg_active g)) (map (candidate g) [0..<kSnapshotCount])")
  case None
  then have "\<not> (\<exists>x. x \<in> set (map (candidate g) [0..<kSnapshotCount]) \<and> slot_usable g (reg_active g) x)"
    by (simp only: find_None_iff not_False_eq_True)
  then show ?thesis using None unfolding candidates_cover by (auto simp: publish_def)
next
  case (Some c)
  then have "c \<in> set (map (candidate g) [0..<kSnapshotCount])" "slot_usable g (reg_active g) c"
    by (auto simp: find_Some_iff in_set_conv_nth simp del: candidates_cover)
  then show ?thesis using Some unfolding candidates_cover
    by (auto simp: publish_def visible_def Let_def)
qed

lemma publish_True:
  assumes "registry_shape g" "c < kSnapshotCount"
  shows "visible (activate c (write_slot c t g)) = t"
    and "registry_shape (activate c (write_slot c t g))"
    and "current_snapshot_id (activate c (write_slot c t g)) = reg_next_id g"
    and "i \<noteq> c \<Longrightarrow> reg_slots (activate c (write_slot c t g)) ! i = reg_slots g ! i"
    and "reg_pins (activate c (write_slot c t g)) = reg_pins g"
  using assms
  by (simp_all add: visible_def activate_def write_slot_def registry_shape_def current_snapshot_id_def)

text \<open>
  Publishing succeeds exactly when some snapshot other than the active one is unpinned; then the
  new state (its revision lifted past the old one when it is not already) is what readers see, under
  a fresh snapshot id, and every pinned snapshot and the previously active one keep their content.
  When it fails the registry is as it was.
\<close>

theorem publish_contract:
  assumes "registry_shape g"
  shows "fst (publish s g) = (\<exists>c < kSnapshotCount. c \<noteq> reg_active g \<and> reg_pins g ! c = 0) \<and>
    (if fst (publish s g)
     then visible (snd (publish s g)) = next_state_of (visible g) s \<and>
       current_snapshot_id (snd (publish s g)) = reg_next_id g \<and>
       (\<forall>i. i = reg_active g \<or> reg_pins g ! i \<noteq> 0 \<longrightarrow>
          reg_slots (snd (publish s g)) ! i = reg_slots g ! i)
     else snd (publish s g) = g)"
  using publish_cases[OF assms, of s]
proof (elim disjE exE conjE)
  fix c
  assume c: "c < kSnapshotCount" "slot_usable g (reg_active g) c"
    "publish s g = (True, activate c (write_slot c (next_state_of (visible g) s) g))"
  then have "i \<noteq> c" if "i = reg_active g \<or> reg_pins g ! i \<noteq> 0" for i
    using that by (auto simp: slot_usable_def)
  with c publish_True[OF assms c(1)] show ?thesis by (auto simp: slot_usable_def)
next
  assume "\<forall>c < kSnapshotCount. \<not> slot_usable g (reg_active g) c" "publish s g = (False, g)"
  then show ?thesis by (auto simp: slot_usable_def)
qed

lemma publish_contract_witness:
  "fst (publish core_state_default registry_init) =
     (\<exists>c < kSnapshotCount. c \<noteq> reg_active registry_init \<and> reg_pins registry_init ! c = 0)"
  using publish_contract[OF registry_shape_init, of core_state_default] by (rule conjunct1)

lemma publish_shape: "registry_shape g \<Longrightarrow> registry_shape (snd (publish s g))"
  using publish_cases[of g s] publish_True(2)[of g] by auto

lemma next_state_revision:
  assumes "st_revision current \<noteq> - 1"
  shows "st_revision current < st_revision (next_state_of current s)"
proof -
  have "1 + st_revision current \<noteq> 0"
  proof
    assume "1 + st_revision current = 0"
    then have "st_revision current = - 1" by (simp only: eq_neg_iff_add_eq_0 add.commute)
    with assms show False by simp
  qed
  then have "unat (st_revision current + 1) = Suc (unat (st_revision current))"
    using unatSuc[of "st_revision current"] by (simp add: add.commute)
  then show ?thesis by (auto simp: next_state_of_def not_le word_less_nat_alt)
qed

lemma snapshot_copy_visible:
  assumes "registry_shape g"
  shows "fst (snapshot_copy g) = visible g"
  by (simp add: snapshot_copy_def pin_current_def ref_of_def visible_def)

section \<open>Readers and the writer, interleaved\<close>

text \<open>
  Where a reader stands in \<^verbatim>\<open>pin_current\<close>: before the first load, after it, after the pin, before
  the unpin of a failed validation, after a successful one, and holding its reference. The held
  state is a ghost: what the snapshot contained when the reference was handed out.
\<close>

datatype reader =
  ReaderIdle | ReaderLoaded nat | ReaderPinned nat | ReaderStale nat | ReaderValidated nat
| ReaderHolds SnapshotRef CoreState

text \<open>
  Where the writer stands in \<^verbatim>\<open>publish\<close>: idle, at iteration \<open>i\<close> of the scan, about to write the
  chosen slot, about to store the snapshot id, about to store the active index.
\<close>

datatype writer =
  WriterIdle | WriterScan CoreState nat nat | WriterWrite CoreState nat | WriterId nat | WriterIndex nat

record RegSystem =
  sys_reg :: Registry
  sys_readers :: "reader list"
  sys_writer :: writer

definition set_reader :: "nat \<Rightarrow> reader \<Rightarrow> RegSystem \<Rightarrow> RegSystem" where
  "set_reader r p y = y\<lparr>sys_readers := (sys_readers y)[r := p]\<rparr>"

definition at_reader :: "nat \<Rightarrow> reader \<Rightarrow> RegSystem \<Rightarrow> bool" where
  "at_reader r p y \<longleftrightarrow> r < length (sys_readers y) \<and> sys_readers y ! r = p"

inductive reg_step :: "RegSystem \<Rightarrow> RegSystem \<Rightarrow> bool" for y where
  load_index: "at_reader r ReaderIdle y \<Longrightarrow>
     reg_step y (set_reader r (ReaderLoaded (reg_active (sys_reg y))) y)"
| pin_slot: "at_reader r (ReaderLoaded i) y \<Longrightarrow>
     reg_step y (set_reader r (ReaderPinned i) (y\<lparr>sys_reg := add_pin i (sys_reg y)\<rparr>))"
| validate: "at_reader r (ReaderPinned i) y \<Longrightarrow>
     reg_step y (set_reader r (if reg_active (sys_reg y) = i then ReaderValidated i else ReaderStale i) y)"
| hand_out: "at_reader r (ReaderValidated i) y \<Longrightarrow>
     reg_step y (set_reader r (ReaderHolds (ref_of i (sys_reg y)) (ss_state (reg_slots (sys_reg y) ! i))) y)"
| unpin_stale: "at_reader r (ReaderStale i) y \<Longrightarrow>
     reg_step y (set_reader r ReaderIdle (y\<lparr>sys_reg := drop_pin i (sys_reg y)\<rparr>))"
| release: "at_reader r (ReaderHolds ref st) y \<Longrightarrow>
     reg_step y (set_reader r ReaderIdle
       (y\<lparr>sys_reg := snd (release_snapshot (Some ref) (sys_reg y))\<rparr>))"
| begin_publish: "sys_writer y = WriterIdle \<Longrightarrow>
     reg_step y (y\<lparr>sys_writer := WriterScan (next_state_of (visible (sys_reg y)) s)
                                  (reg_active (sys_reg y)) 0\<rparr>)"
| scan_skip: "sys_writer y = WriterScan s cur i \<Longrightarrow> i < kSnapshotCount \<Longrightarrow>
     \<not> slot_usable (sys_reg y) cur (candidate (sys_reg y) i) \<Longrightarrow>
     reg_step y (y\<lparr>sys_writer := WriterScan s cur (i + 1)\<rparr>)"
| scan_take: "sys_writer y = WriterScan s cur i \<Longrightarrow> i < kSnapshotCount \<Longrightarrow>
     slot_usable (sys_reg y) cur (candidate (sys_reg y) i) \<Longrightarrow>
     reg_step y (y\<lparr>sys_writer := WriterWrite s (candidate (sys_reg y) i)\<rparr>)"
| scan_fail: "sys_writer y = WriterScan s cur i \<Longrightarrow> \<not> i < kSnapshotCount \<Longrightarrow>
     reg_step y (y\<lparr>sys_writer := WriterIdle\<rparr>)"
| write_out: "sys_writer y = WriterWrite s c \<Longrightarrow>
     reg_step y (y\<lparr>sys_reg := write_slot c s (sys_reg y), sys_writer := WriterId c\<rparr>)"
| store_id: "sys_writer y = WriterId c \<Longrightarrow>
     reg_step y (y\<lparr>sys_reg := (sys_reg y)\<lparr>reg_active_id := ss_id (reg_slots (sys_reg y) ! c)\<rparr>,
                   sys_writer := WriterIndex c\<rparr>)"
| store_index: "sys_writer y = WriterIndex c \<Longrightarrow>
     reg_step y (y\<lparr>sys_reg := (sys_reg y)\<lparr>reg_active := c\<rparr>, sys_writer := WriterIdle\<rparr>)"

definition reg_start :: "nat \<Rightarrow> RegSystem" where
  "reg_start n = \<lparr>sys_reg = registry_init, sys_readers = replicate n ReaderIdle, sys_writer = WriterIdle\<rparr>"

definition reg_reachable :: "nat \<Rightarrow> RegSystem \<Rightarrow> bool" where
  "reg_reachable n y \<longleftrightarrow> reg_step\<^sup>*\<^sup>* (reg_start n) y"

inductive_cases reg_stepE: "reg_step y z"

section \<open>Safety of the interleaving\<close>

text \<open>The slot a reader has pinned, the slot it may read, and the slot the writer is working on.\<close>

fun pinned_slot :: "reader \<Rightarrow> nat option" where
  "pinned_slot ReaderIdle = None"
| "pinned_slot (ReaderLoaded i) = None"
| "pinned_slot (ReaderPinned i) = Some i"
| "pinned_slot (ReaderStale i) = Some i"
| "pinned_slot (ReaderValidated i) = Some i"
| "pinned_slot (ReaderHolds ref st) = Some (sr_slot_index ref)"

fun readable_slot :: "reader \<Rightarrow> nat option" where
  "readable_slot (ReaderValidated i) = Some i"
| "readable_slot (ReaderHolds ref st) = Some (sr_slot_index ref)"
| "readable_slot _ = None"

fun writer_slot :: "writer \<Rightarrow> nat option" where
  "writer_slot (WriterWrite s c) = Some c"
| "writer_slot (WriterId c) = Some c"
| "writer_slot (WriterIndex c) = Some c"
| "writer_slot _ = None"

fun reader_ok :: "Registry \<Rightarrow> nat option \<Rightarrow> reader \<Rightarrow> bool" where
  "reader_ok g w (ReaderLoaded i) = (i < kSnapshotCount)"
| "reader_ok g w (ReaderPinned i) = (i < kSnapshotCount)"
| "reader_ok g w (ReaderStale i) = (i < kSnapshotCount)"
| "reader_ok g w (ReaderValidated i) = (i < kSnapshotCount \<and> w \<noteq> Some i)"
| "reader_ok g w (ReaderHolds ref st) =
     (sr_slot_index ref < kSnapshotCount \<and> w \<noteq> Some (sr_slot_index ref) \<and>
      reg_slots g ! sr_slot_index ref = \<lparr>ss_id = sr_id ref, ss_state = st\<rparr>)"
| "reader_ok g w ReaderIdle = True"

fun writer_ok :: "Registry \<Rightarrow> writer \<Rightarrow> bool" where
  "writer_ok g (WriterScan s cur i) = (cur = reg_active g)"
| "writer_ok g w = (\<forall>c. writer_slot w = Some c \<longrightarrow> c < kSnapshotCount \<and> c \<noteq> reg_active g)"

text \<open>
  The invariant: the pin count of a slot is the number of readers that pinned it, the slot the
  writer works on is neither active nor readable by anyone, and every held reference still
  describes its slot.
\<close>

definition sys_inv :: "RegSystem \<Rightarrow> bool" where
  "sys_inv y \<longleftrightarrow> registry_shape (sys_reg y) \<and> length (sys_readers y) < 2 ^ 32 \<and>
     (\<forall>i < kSnapshotCount. reg_pins (sys_reg y) ! i =
        of_nat (count_where (\<lambda>p. pinned_slot p = Some i) (sys_readers y))) \<and>
     writer_ok (sys_reg y) (sys_writer y) \<and>
     (\<forall>r < length (sys_readers y).
        reader_ok (sys_reg y) (writer_slot (sys_writer y)) (sys_readers y ! r))"

lemma sys_inv_start: "n < 2 ^ 32 \<Longrightarrow> sys_inv (reg_start n)"
  by (simp add: sys_inv_def reg_start_def registry_shape_init)
     (simp add: registry_init_def kSnapshotCount_def nth_Cons')


lemma reader_ok_shape:
  assumes "reader_ok g w p"
  shows "reader_ok (add_pin i g) w p" "reader_ok (drop_pin i g) w p"
  using assms by (cases p; simp)+

lemma writer_ok_shape:
  assumes "writer_ok g w"
  shows "writer_ok (add_pin i g) w" "writer_ok (drop_pin i g) w"
  using assms by (cases w; simp)+

text \<open>A reader moves: the counts follow when it pins, unpins or keeps its pin.\<close>

definition pin_count :: "RegSystem \<Rightarrow> nat \<Rightarrow> nat" where
  "pin_count y i = count_where (\<lambda>p. pinned_slot p = Some i) (sys_readers y)"

lemma pin_count_set_reader:
  assumes "at_reader r p y"
  shows "pin_count (set_reader r q y) i + of_bool (pinned_slot p = Some i) =
    pin_count y i + of_bool (pinned_slot q = Some i)"
  using count_where_update[of r "sys_readers y" "\<lambda>p. pinned_slot p = Some i" q] assms
  by (simp add: pin_count_def set_reader_def at_reader_def)

lemma pin_count_less: "sys_inv y \<Longrightarrow> pin_count y i < 2 ^ 32"
  using count_where_le[of "\<lambda>p. pinned_slot p = Some i" "sys_readers y"]
  by (simp add: sys_inv_def pin_count_def)

lemma pins_eq: "sys_inv y \<Longrightarrow> i < kSnapshotCount \<Longrightarrow> reg_pins (sys_reg y) ! i = of_nat (pin_count y i)"
  by (simp add: sys_inv_def pin_count_def)

lemma reader_move_inv:
  assumes inv: "sys_inv y" and at: "at_reader r p y"
    and g: "registry_shape g" "writer_ok g (sys_writer y)"
    and others: "\<And>q. reader_ok (sys_reg y) (writer_slot (sys_writer y)) q \<Longrightarrow>
      reader_ok g (writer_slot (sys_writer y)) q"
    and q: "reader_ok g (writer_slot (sys_writer y)) q"
    and pins: "\<And>i. i < kSnapshotCount \<Longrightarrow> reg_pins g ! i = of_nat (pin_count (set_reader r q y) i)"
  shows "sys_inv (set_reader r q (y\<lparr>sys_reg := g\<rparr>))"
  using inv at g others q pins
  by (auto simp: sys_inv_def set_reader_def at_reader_def pin_count_def nth_list_update)

lemma pins_length: "sys_inv y \<Longrightarrow> length (reg_pins (sys_reg y)) = kSnapshotCount"
  by (simp add: sys_inv_def registry_shape_def)

lemma pins_keep:
  assumes "sys_inv y" "at_reader r p y" "pinned_slot p = pinned_slot q" "j < kSnapshotCount"
  shows "reg_pins (sys_reg y) ! j = of_nat (pin_count (set_reader r q y) j)"
  using pin_count_set_reader[OF assms(2), of q j] pins_eq[OF assms(1,4)] assms(3) by simp

lemma pins_add:
  assumes "sys_inv y" "at_reader r p y" "pinned_slot p = None" "pinned_slot q = Some i"
    and "j < kSnapshotCount"
  shows "reg_pins (add_pin i (sys_reg y)) ! j = of_nat (pin_count (set_reader r q y) j)"
  using pin_count_set_reader[OF assms(2), of q j] pins_eq[OF assms(1,5)] assms(3-5)
    pins_length[OF assms(1)]
  by (cases "j = i") (simp_all add: add_pin_def nth_list_update)

lemma pins_drop:
  assumes inv: "sys_inv y" and at: "at_reader r p y" and p: "pinned_slot p = Some i" "pinned_slot q = None"
    and j: "j < kSnapshotCount"
  shows "reg_pins (drop_pin i (sys_reg y)) ! j = of_nat (pin_count (set_reader r q y) j)"
proof (cases "j = i")
  case True
  have c: "pin_count y i = Suc (pin_count (set_reader r q y) i)"
    using pin_count_set_reader[OF at, of q i] p by simp
  have "unat (of_nat (pin_count y i) :: u32) = pin_count y i"
    using pin_count_less[OF inv, of i] by (simp add: unat_of_nat_u32)
  with c have "(of_nat (pin_count y i) :: u32) \<noteq> 0" by (metis nat.distinct(1) unat_0)
  then show ?thesis
    using True j pins_eq[OF inv j] pins_length[OF inv] by (simp add: drop_pin_def c)
next
  case False
  then show ?thesis
    using pin_count_set_reader[OF at, of q j] p pins_eq[OF inv j] by (simp add: drop_pin_def)
qed

lemma sys_inv_reader: "sys_inv y \<Longrightarrow> at_reader r p y \<Longrightarrow>
    reader_ok (sys_reg y) (writer_slot (sys_writer y)) p"
  by (auto simp: sys_inv_def at_reader_def)

text \<open>The writer's steps that touch no slot a reader may read.\<close>

lemma unpinned_not_readable:
  assumes inv: "sys_inv y" and c: "c < kSnapshotCount" "reg_pins (sys_reg y) ! c = 0"
    and r: "r < length (sys_readers y)"
  shows "pinned_slot (sys_readers y ! r) \<noteq> Some c"
proof
  assume "pinned_slot (sys_readers y ! r) = Some c"
  then have "0 < pin_count y c"
    unfolding pin_count_def using r by (intro count_where_pos[of "sys_readers y ! r"]) simp_all
  moreover have "unat (of_nat (pin_count y c) :: u32) = pin_count y c"
    using pin_count_less[OF inv, of c] by (simp add: unat_of_nat_u32)
  ultimately show False using pins_eq[OF inv c(1)] c(2) by simp
qed

lemma reader_ok_writer_None: "reader_ok g w p \<Longrightarrow> reader_ok g None p"
  by (cases p) auto

lemma reader_ok_take:
  assumes "reader_ok g w p" "pinned_slot p \<noteq> Some c"
  shows "reader_ok g (Some c) p"
  using assms by (cases p) auto

lemma reader_ok_write:
  assumes "reader_ok g (Some c) p"
  shows "reader_ok (write_slot c s g) (Some c) p"
  using assms by (cases p) (auto simp: write_slot_def)

lemma reader_ok_fields:
  assumes "reader_ok g w p"
  shows "reader_ok (g\<lparr>reg_active_id := x\<rparr>) w p" "reader_ok (g\<lparr>reg_active := n\<rparr>) w p"
  using assms by (cases p; simp)+

lemma reader_keep_inv:
  assumes inv: "sys_inv y" and at: "at_reader r p y" and "pinned_slot p = pinned_slot q"
    and "reader_ok (sys_reg y) (writer_slot (sys_writer y)) q"
  shows "sys_inv (set_reader r q y)"
proof -
  have "sys_inv (set_reader r q (y\<lparr>sys_reg := sys_reg y\<rparr>))"
    using assms pins_keep[OF inv at assms(3)]
    by (intro reader_move_inv[OF inv at]) (simp_all add: sys_inv_def)
  then show ?thesis by simp
qed

lemma reg_step_inv:
  assumes "reg_step y z" "sys_inv y"
  shows "sys_inv z"
  using assms
proof (induction rule: reg_step.induct)
  case (load_index r)
  then show ?case
    by (intro reader_keep_inv[OF load_index(2,1)]) (simp_all add: sys_inv_def registry_shape_def)
next
  case (pin_slot r i)
  have ok: "reader_ok (sys_reg y) (writer_slot (sys_writer y)) (ReaderLoaded i)"
    by (rule sys_inv_reader[OF pin_slot(2,1)])
  show ?case
    using pin_slot ok
    by (intro reader_move_inv[OF pin_slot(2,1)] pins_add[OF pin_slot(2,1)] reader_ok_shape writer_ok_shape)
       (simp_all add: sys_inv_def)
next
  case (validate r i)
  have ok: "reader_ok (sys_reg y) (writer_slot (sys_writer y)) (ReaderPinned i)"
    by (rule sys_inv_reader[OF validate(2,1)])
  have w: "writer_slot (sys_writer y) \<noteq> Some (reg_active (sys_reg y))"
    using validate(2) unfolding sys_inv_def by (cases "sys_writer y") auto
  show ?case
    using ok w by (intro reader_keep_inv[OF validate(2,1)]) auto
next
  case (hand_out r i)
  have ok: "reader_ok (sys_reg y) (writer_slot (sys_writer y)) (ReaderValidated i)"
    by (rule sys_inv_reader[OF hand_out(2,1)])
  then show ?case
    by (intro reader_keep_inv[OF hand_out(2,1)]) (simp_all add: ref_of_def)
next
  case (unpin_stale r i)
  show ?case
    using unpin_stale
    by (intro reader_move_inv[OF unpin_stale(2,1)] pins_drop[OF unpin_stale(2,1)] reader_ok_shape writer_ok_shape)
       (simp_all add: sys_inv_def)
next
  case (release r ref st)
  have ok: "reader_ok (sys_reg y) (writer_slot (sys_writer y)) (ReaderHolds ref st)"
    by (rule sys_inv_reader[OF release(2,1)])
  then have "snd (release_snapshot (Some ref) (sys_reg y)) = drop_pin (sr_slot_index ref) (sys_reg y)"
    by (simp add: release_snapshot_def)
  then show ?case
    using release
    by (simp only:, intro reader_move_inv[OF release(2,1)] pins_drop[OF release(2,1)] reader_ok_shape writer_ok_shape)
       (simp_all add: sys_inv_def)
next
  case (begin_publish s)
  then show ?case by (simp add: sys_inv_def)
next
  case (scan_skip s cur i)
  then show ?case by (simp add: sys_inv_def)
next
  case (scan_take s cur i)
  let ?c = "candidate (sys_reg y) i"
  have c: "?c < kSnapshotCount" by (simp add: candidate_def kSnapshotCount_def)
  have u: "?c \<noteq> cur" "reg_pins (sys_reg y) ! ?c = 0"
    using scan_take(3) by (simp_all add: slot_usable_def)
  show ?case
    using scan_take c u unpinned_not_readable[OF scan_take(4) c u(2)]
    by (auto simp: sys_inv_def intro: reader_ok_take)
next
  case (scan_fail s cur i)
  then show ?case by (auto simp: sys_inv_def intro: reader_ok_writer_None)
next
  case (write_out s c)
  then show ?case
    by (auto simp: sys_inv_def intro: reader_ok_write) (simp_all add: write_slot_def registry_shape_def)
next
  case (store_id c)
  then show ?case
    by (auto simp: sys_inv_def registry_shape_def intro: reader_ok_fields)
next
  case (store_index c)
  then show ?case
    by (auto simp: sys_inv_def registry_shape_def intro: reader_ok_fields reader_ok_writer_None)
qed

lemma reachable_inv:
  assumes "reg_reachable n y" "n < 2 ^ 32"
  shows "sys_inv y"
  using assms(1) unfolding reg_reachable_def
  by (induction rule: rtranclp_induct) (simp_all add: sys_inv_start[OF assms(2)] reg_step_inv)

text \<open>
  C7: however the steps of the readers and of the writer interleave, a snapshot that a reader holds
  is never written: its slot still has the id and the whole state it had when the reference was
  handed out, and it is not the slot the writer is working on.
\<close>

theorem held_snapshot_is_never_overwritten:
  assumes "reg_reachable n y" "n < 2 ^ 32" "at_reader r (ReaderHolds ref st) y"
  shows "reg_slots (sys_reg y) ! sr_slot_index ref = \<lparr>ss_id = sr_id ref, ss_state = st\<rparr> \<and>
    writer_slot (sys_writer y) \<noteq> Some (sr_slot_index ref)"
  using sys_inv_reader[OF reachable_inv[OF assms(1,2)] assms(3)] by simp

text \<open>One reader runs through \<^verbatim>\<open>pin_current\<close> while the writer starts to publish.\<close>

definition sample_loaded :: RegSystem where
  "sample_loaded = set_reader 0 (ReaderLoaded 0) (reg_start 1)"

definition sample_pinned :: RegSystem where
  "sample_pinned = set_reader 0 (ReaderPinned 0) (sample_loaded\<lparr>sys_reg := add_pin 0 registry_init\<rparr>)"

definition sample_validated :: RegSystem where
  "sample_validated = set_reader 0 (ReaderValidated 0) sample_pinned"

definition sample_ref :: SnapshotRef where "sample_ref = \<lparr>sr_id = 0, sr_slot_index = 0\<rparr>"

definition sample_held :: RegSystem where
  "sample_held = set_reader 0 (ReaderHolds sample_ref core_state_default) sample_validated"

lemmas sample_defs = sample_loaded_def sample_pinned_def sample_validated_def sample_held_def
  sample_ref_def set_reader_def at_reader_def reg_start_def add_pin_def ref_of_def registry_init_def
  kSnapshotCount_def

lemma sample_held_reachable: "reg_reachable 1 sample_held"
proof -
  have s1: "reg_step (reg_start 1) sample_loaded"
    using reg_step.load_index[of 0 "reg_start 1"] by (simp add: sample_defs)
  have s2: "reg_step sample_loaded sample_pinned"
    using reg_step.pin_slot[of 0 0 sample_loaded] by (simp add: sample_defs)
  have s3: "reg_step sample_pinned sample_validated"
    using reg_step.validate[of 0 0 sample_pinned] by (simp add: sample_defs)
  have s4: "reg_step sample_validated sample_held"
    using reg_step.hand_out[of 0 0 sample_validated] by (simp add: sample_defs)
  show ?thesis unfolding reg_reachable_def
    using rtranclp_trans[OF r_into_rtranclp[where r = reg_step, OF s1] r_into_rtranclp[where r = reg_step, OF s2]]
      rtranclp_trans[OF r_into_rtranclp[where r = reg_step, OF s3] r_into_rtranclp[where r = reg_step, OF s4]]
    by (rule rtranclp_trans)
qed

lemma held_snapshot_is_never_overwritten_witness:
  "reg_slots (sys_reg sample_held) ! 0 = \<lparr>ss_id = 0, ss_state = core_state_default\<rparr>"
  using held_snapshot_is_never_overwritten[OF sample_held_reachable, of 0 sample_ref core_state_default]
  by (simp add: sample_defs)

text \<open>Run alone, the writer's steps are \<open>publish\<close>: the function is the interleaving without readers.\<close>

definition writer_run :: "RegSystem \<Rightarrow> RegSystem \<Rightarrow> bool" where
  "writer_run y z \<longleftrightarrow> reg_step\<^sup>*\<^sup>* y z"

lemma writer_scan_run:
  assumes "i \<le> kSnapshotCount" "sys_writer y = WriterScan s cur i"
  shows "case find (slot_usable (sys_reg y) cur) (map (candidate (sys_reg y)) [i..<kSnapshotCount]) of
      None \<Rightarrow> writer_run y (y\<lparr>sys_writer := WriterIdle\<rparr>)
    | Some c \<Rightarrow> writer_run y (y\<lparr>sys_writer := WriterWrite s c\<rparr>)"
  using assms
proof (induction "kSnapshotCount - i" arbitrary: i y)
  case 0
  then show ?case using reg_step.scan_fail[of y s cur i] by (simp add: writer_run_def)
next
  case (Suc n)
  then have i: "i < kSnapshotCount" by simp
  show ?case
  proof (cases "slot_usable (sys_reg y) cur (candidate (sys_reg y) i)")
    case True
    then show ?thesis
      using reg_step.scan_take[OF Suc.prems(2) i] i by (simp add: upt_conv_Cons writer_run_def)
  next
    case False
    let ?y = "y\<lparr>sys_writer := WriterScan s cur (i + 1)\<rparr>"
    have st: "reg_step y ?y" using reg_step.scan_skip[OF Suc.prems(2) i False] .
    have "n = kSnapshotCount - (i + 1)" using Suc.hyps(2) by simp
    from Suc.hyps(1)[OF this, of ?y] i False st show ?thesis
      by (auto simp: upt_conv_Cons writer_run_def split: option.splits intro: converse_rtranclp_into_rtranclp)
  qed
qed

text \<open>
  The uninterrupted function \<open>publish\<close> is one run of the atomic steps of the writer: from an
  idle writer, the step relation leads to the registry that \<open>publish\<close> returns, with the writer idle
  again.
\<close>

theorem publish_is_a_run_of_the_steps:
  assumes "sys_writer y = WriterIdle"
  shows "reg_step\<^sup>*\<^sup>* y (y\<lparr>sys_reg := snd (publish s (sys_reg y))\<rparr>)"
proof -
  let ?t = "next_state_of (visible (sys_reg y)) s" and ?cur = "reg_active (sys_reg y)"
  let ?y = "y\<lparr>sys_writer := WriterScan ?t ?cur 0\<rparr>"
  have start: "reg_step y ?y" by (rule reg_step.begin_publish[OF assms])
  show ?thesis
  proof (cases "find (slot_usable (sys_reg y) ?cur) (map (candidate (sys_reg y)) [0..<kSnapshotCount])")
    case None
    then have "reg_step\<^sup>*\<^sup>* ?y (y\<lparr>sys_writer := WriterIdle\<rparr>)"
      using writer_scan_run[of 0 ?y ?t ?cur] by (simp add: writer_run_def)
    moreover have "y\<lparr>sys_writer := WriterIdle\<rparr> = y" using assms by (cases y) simp
    ultimately show ?thesis using start None
      by (simp add: publish_def converse_rtranclp_into_rtranclp)
  next
    case (Some c)
    then have run: "reg_step\<^sup>*\<^sup>* ?y (y\<lparr>sys_writer := WriterWrite ?t c\<rparr>)"
      using writer_scan_run[of 0 ?y ?t ?cur] by (simp add: writer_run_def)
    let ?g1 = "write_slot c ?t (sys_reg y)"
    let ?g2 = "?g1\<lparr>reg_active_id := ss_id (reg_slots ?g1 ! c)\<rparr>"
    have w1: "reg_step (y\<lparr>sys_writer := WriterWrite ?t c\<rparr>) (y\<lparr>sys_reg := ?g1, sys_writer := WriterId c\<rparr>)"
      using reg_step.write_out[of "y\<lparr>sys_writer := WriterWrite ?t c\<rparr>" ?t c] by simp
    have w2: "reg_step (y\<lparr>sys_reg := ?g1, sys_writer := WriterId c\<rparr>)
        (y\<lparr>sys_reg := ?g2, sys_writer := WriterIndex c\<rparr>)"
      using reg_step.store_id[of "y\<lparr>sys_reg := ?g1, sys_writer := WriterId c\<rparr>" c] by simp
    have w3: "reg_step (y\<lparr>sys_reg := ?g2, sys_writer := WriterIndex c\<rparr>)
        (y\<lparr>sys_reg := ?g2\<lparr>reg_active := c\<rparr>, sys_writer := WriterIdle\<rparr>)"
      using reg_step.store_index[of "y\<lparr>sys_reg := ?g2, sys_writer := WriterIndex c\<rparr>" c] by simp
    have "reg_step\<^sup>*\<^sup>* y (y\<lparr>sys_reg := ?g2\<lparr>reg_active := c\<rparr>, sys_writer := WriterIdle\<rparr>)"
      by (rule converse_rtranclp_into_rtranclp[where r = reg_step, OF start],
          rule rtranclp_trans[OF run],
          rule converse_rtranclp_into_rtranclp[where r = reg_step, OF w1],
          rule converse_rtranclp_into_rtranclp[where r = reg_step, OF w2],
          rule r_into_rtranclp, rule w3)
    moreover have "?g2\<lparr>reg_active := c\<rparr> = snd (publish s (sys_reg y))"
      using Some by (simp add: publish_def activate_def Let_def visible_def)
    moreover have "y\<lparr>sys_reg := snd (publish s (sys_reg y)), sys_writer := WriterIdle\<rparr> =
        y\<lparr>sys_reg := snd (publish s (sys_reg y))\<rparr>"
      using assms by (cases y) simp
    ultimately show ?thesis by simp
  qed
qed

lemma publish_is_a_run_of_the_steps_witness:
  "reg_step\<^sup>*\<^sup>* sample_held (sample_held\<lparr>sys_reg := snd (publish core_state_default (sys_reg sample_held))\<rparr>)"
  by (rule publish_is_a_run_of_the_steps) (simp add: sample_defs)

end
