(* ===== verification/EventBus.thy ===== *)
theory EventBus
  imports CoreTypes SlotTable "HOL-Library.Multiset"
begin

text \<open>
  \<^verbatim>\<open>components/core/core_event_bus.cpp\<close>: sixteen subscriber slots. A handler is a value of the
  type \<open>'h\<close> (the function pointer, \<open>None\<close> for \<^verbatim>\<open>nullptr\<close>) and a context of the type \<open>'c\<close>; what a
  handler does is outside the bus, so \<open>publish\<close> returns the calls it makes, in order. \<open>subscribe\<close>
  returns the id it hands out (\<open>None\<close> for \<^verbatim>\<open>false\<close>).
\<close>

record ('h, 'c) Subscriber =
  sb_id :: u16
  sb_handler :: "'h option"
  sb_context :: "'c option"
  sb_active :: bool

record ('h, 'c) EventBus =
  eb_subscribers :: "('h, 'c) Subscriber list"
  eb_next_id :: u16
  eb_count :: nat

definition kMaxSubscribers :: nat where "kMaxSubscribers = 16"

definition subscriber_default :: "('h, 'c) Subscriber" where
  "subscriber_default = \<lparr>sb_id = 0, sb_handler = None, sb_context = None, sb_active = False\<rparr>"

definition event_bus_init :: "('h, 'c) EventBus" where
  "event_bus_init =
     \<lparr>eb_subscribers = replicate kMaxSubscribers subscriber_default, eb_next_id = 1, eb_count = 0\<rparr>"

definition subscribe ::
  "'h option \<Rightarrow> 'c option \<Rightarrow> ('h, 'c) EventBus \<Rightarrow> u16 option \<times> ('h, 'c) EventBus" where
  "subscribe handler context b =
     (if handler = None \<or> eb_count b \<ge> kMaxSubscribers then (None, b)
      else (case find_index (\<lambda>x. \<not> sb_active x) (eb_subscribers b) of
              None \<Rightarrow> (None, b)
            | Some i \<Rightarrow>
                let new_id = eb_next_id b;
                    next1 = new_id + 1
                in (Some new_id,
                    \<lparr>eb_subscribers = (eb_subscribers b)[i :=
                       \<lparr>sb_id = new_id, sb_handler = handler, sb_context = context, sb_active = True\<rparr>],
                     eb_next_id = (if next1 = 0 then 1 else next1),
                     eb_count = eb_count b + 1\<rparr>)))"

definition unsubscribe :: "u16 \<Rightarrow> ('h, 'c) EventBus \<Rightarrow> bool \<times> ('h, 'c) EventBus" where
  "unsubscribe i b =
     (if i = 0 then (False, b)
      else (case find_index (\<lambda>x. sb_active x \<and> sb_id x = i) (eb_subscribers b) of
              None \<Rightarrow> (False, b)
            | Some k \<Rightarrow>
                (True, b\<lparr>eb_subscribers := (eb_subscribers b)[k := subscriber_default],
                         eb_count := eb_count b - 1\<rparr>)))"

definition bus_publish :: "CoreEvent \<Rightarrow> ('h, 'c) EventBus \<Rightarrow> ('h \<times> 'c option \<times> CoreEvent) list" where
  "bus_publish e b =
     concat (map (\<lambda>x. case (sb_active x, sb_handler x) of
                        (True, Some h) \<Rightarrow> [(h, sb_context x, e)]
                      | _ \<Rightarrow> []) (eb_subscribers b))"

definition subscriber_count :: "('h, 'c) EventBus \<Rightarrow> nat" where
  "subscriber_count b = eb_count b"

definition subscriber_ok :: "('h, 'c) Subscriber \<Rightarrow> bool" where
  "subscriber_ok x \<longleftrightarrow> (if sb_active x then sb_id x \<noteq> 0 \<and> sb_handler x \<noteq> None else x = subscriber_default)"

lemma subscriber_default_ok [simp]: "subscriber_ok subscriber_default" "\<not> sb_active subscriber_default"
  by (simp_all add: subscriber_ok_def subscriber_default_def)

definition bus_inv :: "('h, 'c) EventBus \<Rightarrow> bool" where
  "bus_inv b \<longleftrightarrow> length (eb_subscribers b) = kMaxSubscribers \<and>
     eb_count b = count_where sb_active (eb_subscribers b) \<and> eb_next_id b \<noteq> 0 \<and>
     list_all subscriber_ok (eb_subscribers b)"

interpretation bus: slot_table sb_active sb_id "subscriber_default :: ('h, 'c) Subscriber"
  by unfold_locales (simp add: subscriber_default_def)

lemma bus_inv_init: "bus_inv event_bus_init"
  by (simp add: bus_inv_def event_bus_init_def list_all_length)

lemma subscribe_inv:
  assumes "bus_inv b"
  shows "bus_inv (snd (subscribe h c b))"
proof (cases "find_index (\<lambda>x. \<not> sb_active x) (eb_subscribers b)")
  case None
  then show ?thesis using assms by (simp add: subscribe_def)
next
  case (Some i)
  note i = find_index_SomeD[OF Some]
  show ?thesis
  proof (cases "h = None \<or> eb_count b \<ge> kMaxSubscribers")
    case True
    then show ?thesis using assms by (simp add: subscribe_def)
  next
    case False
    then show ?thesis using assms i Some
      by (auto simp: subscribe_def bus_inv_def Let_def count_where_update_gain subscriber_ok_def
          intro!: list_all_update)
  qed
qed

lemma unsubscribe_inv:
  assumes "bus_inv b"
  shows "bus_inv (snd (unsubscribe k b))"
proof (cases "find_index (\<lambda>x. sb_active x \<and> sb_id x = k) (eb_subscribers b)")
  case None
  then show ?thesis using assms by (simp add: unsubscribe_def)
next
  case (Some i)
  note i = find_index_SomeD[OF Some]
  have "Suc (count_where sb_active ((eb_subscribers b)[i := subscriber_default])) =
      count_where sb_active (eb_subscribers b)"
    using i by (intro count_where_update_loss) (simp_all add: subscriber_default_def)
  then have "count_where sb_active ((eb_subscribers b)[i := subscriber_default]) =
      count_where sb_active (eb_subscribers b) - 1" by simp
  moreover have "list_all subscriber_ok ((eb_subscribers b)[i := subscriber_default])"
    using assms by (intro list_all_update) (simp_all add: bus_inv_def)
  ultimately show ?thesis using assms Some by (simp add: unsubscribe_def bus_inv_def)
qed

lemma bus_publish_inv:
  assumes "bus_inv b"
  shows "bus_publish e b =
    map (\<lambda>x. (the (sb_handler x), sb_context x, e)) (filter sb_active (eb_subscribers b))"
proof -
  have "\<forall>x \<in> set (eb_subscribers b). sb_active x \<longrightarrow> sb_handler x \<noteq> None"
    using assms by (auto simp: bus_inv_def list_all_iff subscriber_ok_def split: if_splits)
  moreover have "concat (map (\<lambda>x. case (sb_active x, sb_handler x) of
        (True, Some h) \<Rightarrow> [(h, sb_context x, e)] | _ \<Rightarrow> []) xs) =
      map (\<lambda>x. (the (sb_handler x), sb_context x, e)) (filter sb_active xs)"
    if "\<forall>x \<in> set xs. sb_active x \<longrightarrow> sb_handler x \<noteq> None" for xs :: "('a, 'b) Subscriber list"
    using that by (induction xs) auto
  ultimately show ?thesis by (simp add: bus_publish_def)
qed

text \<open>
  Subscribing and then unsubscribing with the id that was handed out restores the subscriber
  table, as long as the 16-bit id counter has not come round to an id still in use; in between the
  handler is called once per published event, and every other subscriber is called as before.
\<close>

theorem subscribe_unsubscribe_roundtrip:
  assumes inv: "bus_inv b" and room: "subscriber_count b < kMaxSubscribers"
    and fresh: "\<forall>x \<in> set (eb_subscribers b). sb_active x \<longrightarrow> sb_id x \<noteq> eb_next_id b"
  shows "\<exists>b1. subscribe (Some h) c b = (Some (eb_next_id b), b1) \<and>
    mset (bus_publish e b1) = add_mset (h, c, e) (mset (bus_publish e b)) \<and>
    (\<exists>b2. unsubscribe (eb_next_id b) b1 = (True, b2) \<and>
       eb_subscribers b2 = eb_subscribers b \<and> eb_count b2 = eb_count b)"
proof -
  have "count_where sb_active (eb_subscribers b) < length (eb_subscribers b)"
    using inv room by (simp add: bus_inv_def subscriber_count_def)
  then obtain i where f: "find_index (\<lambda>x. \<not> sb_active x) (eb_subscribers b) = Some i"
    using find_index_free_iff[of sb_active "eb_subscribers b"] by auto
  note i = find_index_SomeD[OF f]
  define x where "x = \<lparr>sb_id = eb_next_id b, sb_handler = Some h, sb_context = c, sb_active = True\<rparr>"
  define b1 where "b1 = snd (subscribe (Some h) c b)"
  have s1: "subscribe (Some h) c b = (Some (eb_next_id b), b1)"
    "eb_subscribers b1 = (eb_subscribers b)[i := x]" "eb_count b1 = eb_count b + 1"
    using f room by (simp_all add: b1_def subscribe_def subscriber_count_def Let_def x_def)
  have inv1: "bus_inv b1" unfolding b1_def by (rule subscribe_inv[OF inv])
  have split: "eb_subscribers b = take i (eb_subscribers b) @ eb_subscribers b ! i # drop (Suc i) (eb_subscribers b)"
    using i(1) by (rule id_take_nth_drop)
  have "mset (filter sb_active (eb_subscribers b1)) = add_mset x (mset (filter sb_active (eb_subscribers b)))"
    using i arg_cong[OF split, of "\<lambda>xs. mset (filter sb_active xs)"]
    by (simp add: s1 upd_conv_take_nth_drop x_def)
  then have pub: "mset (bus_publish e b1) = add_mset (h, c, e) (mset (bus_publish e b))"
    by (simp add: bus_publish_inv inv inv1 mset_map x_def)
  have blank: "eb_subscribers b ! i = subscriber_default"
    using inv i by (auto simp: bus_inv_def list_all_length subscriber_ok_def)
  have "find_index (\<lambda>y. sb_active y \<and> sb_id y = eb_next_id b) (eb_subscribers b1) = Some i"
    unfolding s1 using i fresh
    by (intro find_index_unique) (auto simp: x_def nth_list_update split: if_splits)
  then have "unsubscribe (eb_next_id b) b1 =
      (True, b1\<lparr>eb_subscribers := eb_subscribers b, eb_count := eb_count b\<rparr>)"
    using inv by (simp add: unsubscribe_def bus_inv_def s1 flip: blank)
  with s1(1) pub show ?thesis by simp
qed

lemma subscribe_unsubscribe_roundtrip_witness:
  "\<exists>b1. subscribe (Some True) (Some (5::nat)) event_bus_init = (Some 1, b1) \<and>
     mset (bus_publish core_event_default b1) = {#(True, Some 5, core_event_default)#}"
  using subscribe_unsubscribe_roundtrip[OF bus_inv_init, of True "Some (5::nat)" core_event_default]
  by (auto simp: event_bus_init_def subscriber_count_def kMaxSubscribers_def bus_publish_def
      subscriber_default_def)

end
