(* ===== verification/Ledger.thy ===== *)
theory Ledger
  imports Main "HOL-Library.Multiset"
begin

text \<open>
  Components that take something in and must give it back exactly once: a command dispatcher that
  answers each accepted command with one completion, a queue that delivers each accepted entry
  once. The interface states the balance of one operation; the lemmas add it up over any sequence
  of operations.
\<close>

locale ledger =
  fixes step :: "'op \<Rightarrow> 's \<Rightarrow> 's"
    and held :: "'s \<Rightarrow> 'k multiset"
    and taken :: "'op \<Rightarrow> 's \<Rightarrow> 'k multiset"
    and given :: "'op \<Rightarrow> 's \<Rightarrow> 'k multiset"
    and inv :: "'s \<Rightarrow> bool"
  assumes step_inv: "inv s \<Longrightarrow> inv (step a s)"
    and balance: "inv s \<Longrightarrow> held (step a s) + given a s = held s + taken a s"
begin

fun run :: "'op list \<Rightarrow> 's \<Rightarrow> 's" where
  "run [] s = s"
| "run (a # as) s = run as (step a s)"

fun total :: "('op \<Rightarrow> 's \<Rightarrow> 'k multiset) \<Rightarrow> 'op list \<Rightarrow> 's \<Rightarrow> 'k multiset" where
  "total f [] s = {#}"
| "total f (a # as) s = f a s + total f as (step a s)"

lemma run_inv: "inv s \<Longrightarrow> inv (run as s)"
  by (induction as arbitrary: s) (simp_all add: step_inv)

lemma run_balance: "inv s \<Longrightarrow> held (run as s) + total given as s = held s + total taken as s"
proof (induction as arbitrary: s)
  case Nil
  then show ?case by simp
next
  case (Cons a as)
  have "held (run as (step a s)) + total given as (step a s) =
      held (step a s) + total taken as (step a s)"
    by (rule Cons.IH) (rule step_inv[OF Cons.prems])
  then have "held (run (a # as) s) + total given (a # as) s =
      (held (step a s) + given a s) + total taken as (step a s)"
    by (simp add: ac_simps)
  then show ?case using balance[OF Cons.prems, of a] by (simp add: ac_simps)
qed

lemma given_at_most_taken: "inv s \<Longrightarrow> held s = {#} \<Longrightarrow> total given as s \<subseteq># total taken as s"
  using run_balance[of s as] by (metis add_0 mset_subset_eq_add_right)

lemma all_given_when_empty:
  "inv s \<Longrightarrow> held s = {#} \<Longrightarrow> held (run as s) = {#} \<Longrightarrow> total given as s = total taken as s"
  using run_balance[of s as] by simp

end

end
