(* ===== verification/CommandDispatcher.thy ===== *)
theory CommandDispatcher
  imports CoreTypes SlotTable Ledger
begin

text \<open>
  \<^verbatim>\<open>components/core/core_command_dispatcher.cpp\<close>: the sixteen commands in flight. An output
  pointer is an option, \<open>None\<close> for \<^verbatim>\<open>nullptr\<close>; the operations return the event they wrote
  through it. \<open>resolve\<close> sets some fields of the event it is given, so it takes and returns it.
\<close>

datatype CoreCommandType =
  kCommandUnknown | kSetDevicePower | kRefreshNetwork | kUpdateReportingProfile

record CoreCommand =
  cc_type :: CoreCommandType
  cc_correlation_id :: u32
  cc_device_id :: DeviceId
  cc_device_short_addr :: u16
  cc_desired_power_on :: bool
  cc_issued_at_ms :: u32
  cc_reporting_endpoint :: u8
  cc_reporting_cluster_id :: u16
  cc_reporting_min_interval_seconds :: u16
  cc_reporting_max_interval_seconds :: u16
  cc_reporting_reportable_change :: u32
  cc_reporting_capability_flags :: u8

definition core_command_default :: CoreCommand where
  "core_command_default =
     \<lparr>cc_type = kCommandUnknown, cc_correlation_id = kNoCorrelationId, cc_device_id = no_device_id,
      cc_device_short_addr = kUnknownDeviceShortAddr, cc_desired_power_on = False,
      cc_issued_at_ms = 0, cc_reporting_endpoint = 0, cc_reporting_cluster_id = 0,
      cc_reporting_min_interval_seconds = 0, cc_reporting_max_interval_seconds = 0,
      cc_reporting_reportable_change = 0, cc_reporting_capability_flags = 0\<rparr>"

datatype CoreCommandResultType = kResultSuccess | kResultTimeout | kResultFailed

record CoreCommandResult =
  cr_correlation_id :: u32
  cr_type :: CoreCommandResultType
  cr_completed_at_ms :: u32

record PendingEntry =
  pe_in_use :: bool
  pe_command :: CoreCommand

definition pending_entry_default :: PendingEntry where
  "pending_entry_default = \<lparr>pe_in_use = False, pe_command = core_command_default\<rparr>"

record Dispatcher =
  dp_pending :: "PendingEntry list"
  dp_count :: nat

definition kMaxPending :: nat where "kMaxPending = 16"

definition dispatcher_init :: Dispatcher where
  "dispatcher_init = \<lparr>dp_pending = replicate kMaxPending pending_entry_default, dp_count = 0\<rparr>"

section \<open>Operations\<close>

fun is_supported_command :: "CoreCommandType \<Rightarrow> bool" where
  "is_supported_command kSetDevicePower = True"
| "is_supported_command kRefreshNetwork = True"
| "is_supported_command _ = False"

fun map_result_to_event :: "CoreCommandResultType \<Rightarrow> CoreEventType" where
  "map_result_to_event kResultSuccess = kCommandResultSuccess"
| "map_result_to_event kResultTimeout = kCommandResultTimeout"
| "map_result_to_event kResultFailed = kCommandResultFailed"

fun command_event_type :: "CoreCommandType \<Rightarrow> CoreEventType" where
  "command_event_type kSetDevicePower = kCommandSetDevicePowerRequested"
| "command_event_type kRefreshNetwork = kCommandRefreshNetworkRequested"
| "command_event_type _ = kEventUnknown"

definition command_to_event :: "CoreCommand \<Rightarrow> CoreEvent" where
  "command_to_event c =
     core_event_default\<lparr>ev_correlation_id := cc_correlation_id c, ev_device_id := cc_device_id c,
       ev_device_short_addr := cc_device_short_addr c, ev_value_bool := cc_desired_power_on c,
       ev_value_u32 := cc_issued_at_ms c, ev_type := command_event_type (cc_type c)\<rparr>"

definition pe_id :: "PendingEntry \<Rightarrow> u32" where
  "pe_id e = cc_correlation_id (pe_command e)"

definition submit ::
  "CoreCommand \<Rightarrow> CoreEvent option \<Rightarrow> Dispatcher \<Rightarrow> CoreError \<times> CoreEvent option \<times> Dispatcher" where
  "submit command request_event_out d =
     (if request_event_out = None then (kInvalidArgument, request_event_out, d)
      else if cc_correlation_id command = kNoCorrelationId \<or> \<not> is_supported_command (cc_type command)
      then (kInvalidArgument, request_event_out, d)
      else if dp_count d \<ge> kMaxPending then (kNoCapacity, request_event_out, d)
      else if list_ex (\<lambda>e. pe_in_use e \<and> pe_id e = cc_correlation_id command) (dp_pending d)
      then (kBusy, request_event_out, d)
      else (case find_index (\<lambda>e. \<not> pe_in_use e) (dp_pending d) of
              None \<Rightarrow> (kInternal, request_event_out, d)
            | Some i \<Rightarrow>
                (kOk, Some (command_to_event command),
                 \<lparr>dp_pending = (dp_pending d)[i := \<lparr>pe_in_use = True, pe_command = command\<rparr>],
                  dp_count = dp_count d + 1\<rparr>)))"

definition completion_event :: "CoreCommandResult \<Rightarrow> CoreCommand \<Rightarrow> CoreEvent \<Rightarrow> CoreEvent" where
  "completion_event result command out =
     out\<lparr>ev_type := map_result_to_event (cr_type result),
         ev_correlation_id := cr_correlation_id result,
         ev_device_id := cc_device_id command,
         ev_device_short_addr := cc_device_short_addr command,
         ev_value_u32 := cr_completed_at_ms result,
         ev_value_bool := (cr_type result = kResultSuccess)\<rparr>"

definition resolve ::
  "CoreCommandResult \<Rightarrow> CoreEvent option \<Rightarrow> Dispatcher \<Rightarrow> CoreError \<times> CoreEvent option \<times> Dispatcher" where
  "resolve result completion_event_out d =
     (case completion_event_out of
        None \<Rightarrow> (kInvalidArgument, None, d)
      | Some out \<Rightarrow>
          if cr_correlation_id result = kNoCorrelationId then (kInvalidArgument, Some out, d)
          else (case find_index (\<lambda>e. pe_in_use e \<and> pe_id e = cr_correlation_id result) (dp_pending d) of
                  None \<Rightarrow> (kNotFound, Some out, d)
                | Some i \<Rightarrow>
                    (kOk, Some (completion_event result (pe_command (dp_pending d ! i)) out),
                     \<lparr>dp_pending = (dp_pending d)[i := pending_entry_default],
                      dp_count = dp_count d - 1\<rparr>)))"

definition timeout_event :: "u32 \<Rightarrow> CoreCommand \<Rightarrow> CoreEvent" where
  "timeout_event now_ms c =
     core_event_default\<lparr>ev_type := kCommandResultTimeout, ev_correlation_id := cc_correlation_id c,
       ev_device_id := cc_device_id c, ev_device_short_addr := cc_device_short_addr c,
       ev_value_u32 := now_ms, ev_value_bool := False\<rparr>"

definition timed_out :: "u32 \<Rightarrow> u32 \<Rightarrow> PendingEntry \<Rightarrow> bool" where
  "timed_out now_ms timeout_ms e \<longleftrightarrow>
     pe_in_use e \<and> \<not> now_ms - cc_issued_at_ms (pe_command e) < timeout_ms"

text \<open>
  The loop over the slots: the room left in \<^verbatim>\<open>events_out\<close> counts down as events are produced, and
  the loop stops when it is used up.
\<close>

fun expire_loop ::
  "u32 \<Rightarrow> u32 \<Rightarrow> nat \<Rightarrow> nat \<Rightarrow> PendingEntry list \<Rightarrow> CoreEvent list \<times> PendingEntry list \<times> nat" where
  "expire_loop now_ms timeout_ms capacity cnt [] = ([], [], cnt)"
| "expire_loop now_ms timeout_ms capacity cnt (e # es) =
     (if capacity = 0 then ([], e # es, cnt)
      else if timed_out now_ms timeout_ms e
      then (let (evs, es', cnt') = expire_loop now_ms timeout_ms (capacity - 1) (cnt - 1) es
            in (timeout_event now_ms (pe_command e) # evs, pending_entry_default # es', cnt'))
      else (let (evs, es', cnt') = expire_loop now_ms timeout_ms capacity cnt es
            in (evs, e # es', cnt')))"

text \<open>\<open>events_capacity\<close> is \<open>None\<close> when \<^verbatim>\<open>events_out\<close> is null; the events produced are returned.\<close>

definition expire_timeouts ::
  "u32 \<Rightarrow> u32 \<Rightarrow> nat option \<Rightarrow> Dispatcher \<Rightarrow> CoreEvent list \<times> Dispatcher" where
  "expire_timeouts now_ms timeout_ms events_capacity d =
     (case events_capacity of
        None \<Rightarrow> ([], d)
      | Some capacity \<Rightarrow>
          if capacity = 0 \<or> timeout_ms = 0 then ([], d)
          else (let (evs, es, cnt) = expire_loop now_ms timeout_ms capacity (dp_count d) (dp_pending d)
                in (evs, \<lparr>dp_pending = es, dp_count = cnt\<rparr>)))"

definition pending_count :: "Dispatcher \<Rightarrow> nat" where
  "pending_count d = dp_count d"

section \<open>Invariant and contract\<close>

interpretation pending: slot_table pe_in_use pe_id pending_entry_default
  by unfold_locales (simp add: pending_entry_default_def)

lemma pending_default_free [simp]: "\<not> pe_in_use pending_entry_default"
  by (rule pending.blank_free)

definition entry_ok :: "PendingEntry \<Rightarrow> bool" where
  "entry_ok e \<longleftrightarrow> (pe_in_use e \<longrightarrow> pe_id e \<noteq> kNoCorrelationId \<and> is_supported_command (cc_type (pe_command e)))"

definition dispatcher_inv :: "Dispatcher \<Rightarrow> bool" where
  "dispatcher_inv d \<longleftrightarrow> length (dp_pending d) = kMaxPending \<and>
     dp_count d = count_where pe_in_use (dp_pending d) \<and>
     unique_slots pe_in_use pe_id (dp_pending d) \<and> list_all entry_ok (dp_pending d)"

text \<open>The commands in flight, by correlation id.\<close>

definition in_flight :: "Dispatcher \<Rightarrow> u32 \<Rightarrow> CoreCommand option" where
  "in_flight d c = map_option pe_command (slot_map pe_in_use pe_id (dp_pending d) c)"

lemma dispatcher_inv_init: "dispatcher_inv dispatcher_init"
  by (simp add: dispatcher_inv_def dispatcher_init_def pending.empty_unique list_all_length entry_ok_def)

lemma in_flight_init: "in_flight dispatcher_init = Map.empty"
  by (rule ext) (simp add: in_flight_def dispatcher_init_def pending.empty_map)

lemma in_flight_dom: "dom (in_flight d) = dom (slot_map pe_in_use pe_id (dp_pending d))"
  by (auto simp: in_flight_def)

lemma in_flight_card: "dispatcher_inv d \<Longrightarrow> card (dom (in_flight d)) = pending_count d"
  by (simp add: in_flight_dom pending.card_dom_slot_map dispatcher_inv_def pending_count_def)

lemma in_flight_None_iff:
  "in_flight d c = None \<longleftrightarrow> \<not> list_ex (\<lambda>e. pe_in_use e \<and> pe_id e = c) (dp_pending d)"
  by (auto simp: in_flight_def pending.slot_map_None_iff list_ex_length)

section \<open>What each operation does\<close>

definition submit_verdict :: "CoreCommand \<Rightarrow> (u32 \<Rightarrow> CoreCommand option) \<Rightarrow> CoreError" where
  "submit_verdict c m =
     (if cc_correlation_id c = kNoCorrelationId \<or> \<not> is_supported_command (cc_type c) then kInvalidArgument
      else if card (dom m) \<ge> kMaxPending then kNoCapacity
      else if m (cc_correlation_id c) \<noteq> None then kBusy
      else kOk)"

lemma submit_spec:
  assumes "dispatcher_inv d"
  shows "submit c (Some out) d =
      (if submit_verdict c (in_flight d) = kOk then (kOk, Some (command_to_event c), snd (snd (submit c (Some out) d)))
       else (submit_verdict c (in_flight d), Some out, d))"
    and "dispatcher_inv (snd (snd (submit c (Some out) d)))"
    and "submit_verdict c (in_flight d) = kOk \<Longrightarrow>
      in_flight (snd (snd (submit c (Some out) d))) = (in_flight d)(cc_correlation_id c \<mapsto> c)"
proof -
  have card: "card (dom (in_flight d)) = dp_count d"
    using in_flight_card[OF assms] by (simp add: pending_count_def)
  have "submit c (Some out) d =
      (if submit_verdict c (in_flight d) = kOk then (kOk, Some (command_to_event c), snd (snd (submit c (Some out) d)))
       else (submit_verdict c (in_flight d), Some out, d)) \<and>
    dispatcher_inv (snd (snd (submit c (Some out) d))) \<and>
    (submit_verdict c (in_flight d) = kOk \<longrightarrow>
      in_flight (snd (snd (submit c (Some out) d))) = (in_flight d)(cc_correlation_id c \<mapsto> c))"
  proof (cases "submit_verdict c (in_flight d) = kOk")
    case False
    then have "submit c (Some out) d = (submit_verdict c (in_flight d), Some out, d)"
      unfolding submit_def submit_verdict_def card in_flight_None_iff by (auto split: if_splits)
    with False assms show ?thesis by simp
  next
    case True
    then have ok: "cc_correlation_id c \<noteq> kNoCorrelationId" "is_supported_command (cc_type c)"
        "dp_count d < kMaxPending" "in_flight d (cc_correlation_id c) = None"
      by (auto simp: submit_verdict_def card split: if_splits)
    have u: "unique_slots pe_in_use pe_id (dp_pending d)" "length (dp_pending d) = kMaxPending"
        "dp_count d = count_where pe_in_use (dp_pending d)"
      using assms by (simp_all add: dispatcher_inv_def)
    obtain i where f: "find_index (\<lambda>e. \<not> pe_in_use e) (dp_pending d) = Some i"
      using find_index_free_iff[of pe_in_use "dp_pending d"] ok(3) u(2,3) by auto
    note i = find_index_SomeD[OF f]
    let ?e = "\<lparr>pe_in_use = True, pe_command = c\<rparr>"
    have s: "submit c (Some out) d = (kOk, Some (command_to_event c),
        \<lparr>dp_pending = (dp_pending d)[i := ?e], dp_count = dp_count d + 1\<rparr>)"
      using ok f in_flight_None_iff[of d "cc_correlation_id c"] by (simp add: submit_def)
    have none: "find_slot pe_in_use pe_id (cc_correlation_id c) (dp_pending d) = None"
      using ok(4) by (simp add: in_flight_def slot_map_def)
    have w: "pending.writable i ?e (dp_pending d)"
      using i none by (simp add: pending.writable_def pe_id_def)
    have "in_flight \<lparr>dp_pending = (dp_pending d)[i := ?e], dp_count = dp_count d + 1\<rparr> =
        (in_flight d)(cc_correlation_id c \<mapsto> c)"
      using pending.write_map[OF u(1) w] by (auto simp: in_flight_def fun_eq_iff pe_id_def)
    moreover have "dispatcher_inv \<lparr>dp_pending = (dp_pending d)[i := ?e], dp_count = dp_count d + 1\<rparr>"
      using assms u i ok pending.write_unique[OF u(1) w]
      by (simp add: dispatcher_inv_def count_where_update_gain list_all_update entry_ok_def pe_id_def)
    ultimately show ?thesis using True s by simp
  qed
  then show "submit c (Some out) d =
      (if submit_verdict c (in_flight d) = kOk then (kOk, Some (command_to_event c), snd (snd (submit c (Some out) d)))
       else (submit_verdict c (in_flight d), Some out, d))"
    "dispatcher_inv (snd (snd (submit c (Some out) d)))"
    "submit_verdict c (in_flight d) = kOk \<Longrightarrow>
      in_flight (snd (snd (submit c (Some out) d))) = (in_flight d)(cc_correlation_id c \<mapsto> c)"
    by blast+
qed

lemma resolve_spec:
  assumes "dispatcher_inv d" "cr_correlation_id r \<noteq> kNoCorrelationId"
  shows "in_flight d (cr_correlation_id r) = None \<Longrightarrow> resolve r (Some out) d = (kNotFound, Some out, d)"
    and "in_flight d (cr_correlation_id r) = Some c \<Longrightarrow> \<exists>d'.
      resolve r (Some out) d = (kOk, Some (completion_event r c out), d') \<and> dispatcher_inv d' \<and>
      in_flight d' = (in_flight d)(cr_correlation_id r := None)"
proof -
  let ?f = "find_index (\<lambda>e. pe_in_use e \<and> pe_id e = cr_correlation_id r) (dp_pending d)"
  have fs: "?f = find_slot pe_in_use pe_id (cr_correlation_id r) (dp_pending d)" by (simp add: find_slot_def)
  show "in_flight d (cr_correlation_id r) = None \<Longrightarrow> resolve r (Some out) d = (kNotFound, Some out, d)"
    using assms(2) by (simp add: resolve_def in_flight_def slot_map_def fs)
  assume "in_flight d (cr_correlation_id r) = Some c"
  then obtain i where i: "?f = Some i" "pe_command (dp_pending d ! i) = c"
    by (auto simp: in_flight_def slot_map_def fs)
  let ?d = "\<lparr>dp_pending = (dp_pending d)[i := pending_entry_default], dp_count = dp_count d - 1\<rparr>"
  have u: "unique_slots pe_in_use pe_id (dp_pending d)" using assms by (simp add: dispatcher_inv_def)
  have "resolve r (Some out) d = (kOk, Some (completion_event r c out), ?d)"
    using i assms(2) by (simp add: resolve_def)
  moreover have "dispatcher_inv ?d"
    using assms(1) pending.clear_unique[OF u, of i] pending.clear_count[OF i(1)[unfolded fs]]
    by (auto simp: dispatcher_inv_def entry_ok_def intro!: list_all_update)
  moreover have "in_flight ?d = (in_flight d)(cr_correlation_id r := None)"
    using pending.clear_map[OF u i(1)[unfolded fs]] by (auto simp: in_flight_def fun_eq_iff)
  ultimately show "\<exists>d'. resolve r (Some out) d = (kOk, Some (completion_event r c out), d') \<and>
      dispatcher_inv d' \<and> in_flight d' = (in_flight d)(cr_correlation_id r := None)" by blast
qed

text \<open>The first \<open>n\<close> entries that timed out, and the table without them.\<close>

fun drop_expired :: "u32 \<Rightarrow> u32 \<Rightarrow> nat \<Rightarrow> PendingEntry list \<Rightarrow> PendingEntry list" where
  "drop_expired now t n [] = []"
| "drop_expired now t n (e # es) =
     (if n = 0 then e # es
      else if timed_out now t e then pending_entry_default # drop_expired now t (n - 1) es
      else e # drop_expired now t n es)"

lemma expire_loop_eq:
  "expire_loop now t n cnt es =
     (map (\<lambda>e. timeout_event now (pe_command e)) (take n (filter (timed_out now t) es)),
      drop_expired now t n es, cnt - min n (length (filter (timed_out now t) es)))"
proof (induction es arbitrary: n cnt)
  case Nil
  then show ?case by simp
next
  case (Cons e es)
  then show ?case by (cases n) (simp_all add: Let_def)
qed

lemma drop_expired_length [simp]: "length (drop_expired now t n es) = length es"
  by (induction es arbitrary: n) auto

lemma drop_expired_nth:
  "i < length es \<Longrightarrow> drop_expired now t n es ! i = es ! i \<or>
   drop_expired now t n es ! i = pending_entry_default \<and> timed_out now t (es ! i)"
proof (induction es arbitrary: n i)
  case Nil
  then show ?case by simp
next
  case (Cons e es)
  then show ?case by (cases i) auto
qed

lemma drop_expired_balance:
  "mset (filter pe_in_use es) =
   mset (filter pe_in_use (drop_expired now t n es)) + mset (take n (filter (timed_out now t) es))"
proof (induction es arbitrary: n)
  case Nil
  then show ?case by simp
next
  case (Cons e es)
  then show ?case by (cases n) (auto simp: timed_out_def)
qed

lemma drop_expired_complete:
  "length (filter (timed_out now t) es) \<le> n \<Longrightarrow> e \<in> set (drop_expired now t n es) \<Longrightarrow> \<not> timed_out now t e"
proof (induction es arbitrary: n)
  case Nil
  then show ?case by simp
next
  case (Cons x es)
  then show ?case by (cases n) (auto simp: timed_out_def filter_empty_conv split: if_splits)
qed

lemma drop_expired_unique:
  assumes "unique_slots pe_in_use pe_id es"
  shows "unique_slots pe_in_use pe_id (drop_expired now t n es)"
proof -
  have "es ! i = drop_expired now t n es ! i" if "i < length es" "pe_in_use (drop_expired now t n es ! i)" for i
    using drop_expired_nth[OF that(1), of now t n] that(2) by auto
  with assms show ?thesis unfolding unique_slots_def by (metis drop_expired_length)
qed

lemma expire_spec:
  assumes inv: "dispatcher_inv d" and args: "0 < n" "t \<noteq> 0"
  shows "expire_timeouts now t (Some n) d =
      (map (\<lambda>e. timeout_event now (pe_command e)) (take n (filter (timed_out now t) (dp_pending d))),
       snd (expire_timeouts now t (Some n) d))"
    and "dp_pending (snd (expire_timeouts now t (Some n) d)) = drop_expired now t n (dp_pending d)"
    and "dispatcher_inv (snd (expire_timeouts now t (Some n) d))"
proof -
  have eq: "expire_timeouts now t (Some n) d =
      (map (\<lambda>e. timeout_event now (pe_command e)) (take n (filter (timed_out now t) (dp_pending d))),
       \<lparr>dp_pending = drop_expired now t n (dp_pending d),
        dp_count = dp_count d - min n (length (filter (timed_out now t) (dp_pending d)))\<rparr>)"
    using args by (simp add: expire_timeouts_def expire_loop_eq)
  then show "expire_timeouts now t (Some n) d =
      (map (\<lambda>e. timeout_event now (pe_command e)) (take n (filter (timed_out now t) (dp_pending d))),
       snd (expire_timeouts now t (Some n) d))"
    "dp_pending (snd (expire_timeouts now t (Some n) d)) = drop_expired now t n (dp_pending d)"
    by simp_all
  have "length (filter pe_in_use (dp_pending d)) =
      length (filter pe_in_use (drop_expired now t n (dp_pending d))) +
      length (take n (filter (timed_out now t) (dp_pending d)))"
    using arg_cong[OF drop_expired_balance[of "dp_pending d" now t n], of size]
    by (simp only: size_mset size_union)
  then have "count_where pe_in_use (drop_expired now t n (dp_pending d)) =
      dp_count d - min n (length (filter (timed_out now t) (dp_pending d)))"
    using inv by (simp add: dispatcher_inv_def count_where_def min.commute)
  moreover have "list_all entry_ok (drop_expired now t n (dp_pending d))"
    using inv drop_expired_nth[of _ "dp_pending d" now t n]
    by (auto simp: dispatcher_inv_def list_all_length entry_ok_def) (metis pending_default_free)+
  ultimately show "dispatcher_inv (snd (expire_timeouts now t (Some n) d))"
    using inv drop_expired_unique by (simp add: eq dispatcher_inv_def)
qed

section \<open>Every accepted command is answered exactly once\<close>

datatype dispatcher_op =
  OpSubmit CoreCommand "CoreEvent option"
| OpResolve CoreCommandResult "CoreEvent option"
| OpExpire u32 u32 "nat option"

fun dispatcher_step :: "dispatcher_op \<Rightarrow> Dispatcher \<Rightarrow> Dispatcher" where
  "dispatcher_step (OpSubmit c out) d = snd (snd (submit c out d))"
| "dispatcher_step (OpResolve r out) d = snd (snd (resolve r out d))"
| "dispatcher_step (OpExpire now t n) d = snd (expire_timeouts now t n d)"

text \<open>The correlation ids an operation accepts, and those of the completion events it hands out.\<close>

fun accepted_by :: "dispatcher_op \<Rightarrow> Dispatcher \<Rightarrow> u32 multiset" where
  "accepted_by (OpSubmit c out) d =
     (if fst (submit c out d) = kOk then {#cc_correlation_id c#} else {#})"
| "accepted_by _ d = {#}"

fun answered_by :: "dispatcher_op \<Rightarrow> Dispatcher \<Rightarrow> u32 multiset" where
  "answered_by (OpSubmit c out) d = {#}"
| "answered_by (OpResolve r out) d =
     (case resolve r out d of (kOk, Some e, _) \<Rightarrow> {#ev_correlation_id e#} | _ \<Rightarrow> {#})"
| "answered_by (OpExpire now t n) d = mset (map ev_correlation_id (fst (expire_timeouts now t n d)))"

definition flying :: "Dispatcher \<Rightarrow> u32 multiset" where
  "flying d = image_mset pe_id (mset (filter pe_in_use (dp_pending d)))"

lemma filter_update_mset:
  assumes "i < length xs"
  shows "mset (filter P (xs[i := y])) + mset (filter P [xs ! i]) = mset (filter P xs) + mset (filter P [y])"
proof -
  have "mset (filter P xs) = mset (filter P (take i xs @ xs ! i # drop (Suc i) xs))"
    using id_take_nth_drop[OF assms] by simp
  then show ?thesis using assms by (simp add: upd_conv_take_nth_drop)
qed

lemma submit_balance:
  assumes "dispatcher_inv d"
  shows "flying (snd (snd (submit c out d))) = flying d + accepted_by (OpSubmit c out) d"
proof (cases "\<exists>i. fst (submit c out d) = kOk \<and> find_index (\<lambda>e. \<not> pe_in_use e) (dp_pending d) = Some i \<and>
    dp_pending (snd (snd (submit c out d))) = (dp_pending d)[i := \<lparr>pe_in_use = True, pe_command = c\<rparr>]")
  case True
  then obtain i where i: "fst (submit c out d) = kOk" "find_index (\<lambda>e. \<not> pe_in_use e) (dp_pending d) = Some i"
    "dp_pending (snd (snd (submit c out d))) = (dp_pending d)[i := \<lparr>pe_in_use = True, pe_command = c\<rparr>]"
    by blast
  then show ?thesis
    using filter_update_mset[OF find_index_SomeD(1)[OF i(2)], of pe_in_use "\<lparr>pe_in_use = True, pe_command = c\<rparr>"]
      find_index_SomeD(2)[OF i(2)]
    by (simp add: flying_def pe_id_def)
next
  case False
  then have "snd (snd (submit c out d)) = d \<and> fst (submit c out d) \<noteq> kOk"
    by (auto simp: submit_def split: option.splits if_splits)
  then show ?thesis by simp
qed

lemma resolve_balance:
  assumes "dispatcher_inv d"
  shows "flying (snd (snd (resolve r out d))) + answered_by (OpResolve r out) d = flying d"
proof (cases out)
  case None
  then show ?thesis by (simp add: resolve_def)
next
  case out: (Some e)
  show ?thesis
  proof (cases "cr_correlation_id r = kNoCorrelationId")
    case True
    then show ?thesis by (simp add: resolve_def out)
  next
    case False
    show ?thesis
    proof (cases "find_index (\<lambda>e. pe_in_use e \<and> pe_id e = cr_correlation_id r) (dp_pending d)")
      case None
      then show ?thesis using False by (simp add: resolve_def out)
    next
      case (Some i)
      then show ?thesis
        using False find_index_SomeD[OF Some]
          arg_cong[OF filter_update_mset[of i "dp_pending d" pe_in_use pending_entry_default], of "image_mset pe_id"]
        by (simp add: resolve_def out flying_def completion_event_def)
    qed
  qed
qed

lemma expire_balance:
  assumes "dispatcher_inv d"
  shows "flying (snd (expire_timeouts now t n d)) + answered_by (OpExpire now t n) d = flying d"
proof (cases "\<exists>k. n = Some k \<and> 0 < k \<and> t \<noteq> 0")
  case True
  then obtain k where k: "n = Some k" "0 < k" "t \<noteq> 0" by blast
  note spec = expire_spec[OF assms k(2,3), of now]
  have "fst (expire_timeouts now t (Some k) d) =
      map (\<lambda>e. timeout_event now (pe_command e)) (take k (filter (timed_out now t) (dp_pending d)))"
    by (subst spec(1)) simp
  then have "answered_by (OpExpire now t n) d =
      image_mset pe_id (mset (take k (filter (timed_out now t) (dp_pending d))))"
    by (simp add: k(1) timeout_event_def pe_id_def[abs_def] comp_def flip: mset_map)
  then show ?thesis
    using drop_expired_balance[of "dp_pending d" now t k] spec(2) by (simp add: flying_def k(1))
next
  case False
  then have "expire_timeouts now t n d = ([], d)"
    by (auto simp: expire_timeouts_def split: option.split)
  then show ?thesis by simp
qed

lemma dispatcher_step_inv:
  assumes "dispatcher_inv d"
  shows "dispatcher_inv (dispatcher_step a d)"
proof (cases a)
  case (OpSubmit c out)
  then show ?thesis using submit_spec(2)[OF assms] assms by (cases out) (simp_all add: submit_def)
next
  case (OpResolve r out)
  show ?thesis
  proof (cases "out = None \<or> cr_correlation_id r = kNoCorrelationId")
    case True
    then show ?thesis using assms OpResolve by (auto simp: resolve_def split: option.split)
  next
    case False
    then obtain e where e: "out = Some e" "cr_correlation_id r \<noteq> kNoCorrelationId" by (cases out) auto
    note spec = resolve_spec[OF assms e(2)]
    show ?thesis
    proof (cases "in_flight d (cr_correlation_id r)")
      case None
      then show ?thesis using spec(1)[of e] assms OpResolve e(1) by simp
    next
      case (Some c)
      then obtain d' where "resolve r (Some e) d = (kOk, Some (completion_event r c e), d')" "dispatcher_inv d'"
        using spec(2)[of c e] by blast
      then show ?thesis using OpResolve e(1) by simp
    qed
  qed
next
  case (OpExpire now t n)
  then show ?thesis using expire_spec(3)[OF assms] assms
    by (cases "n"; cases "t = 0 \<or> n = Some 0") (auto simp: expire_timeouts_def)
qed

interpretation dispatch: ledger dispatcher_step flying accepted_by answered_by dispatcher_inv
proof
  fix d a
  assume inv: "dispatcher_inv d"
  then show "dispatcher_inv (dispatcher_step a d)" by (rule dispatcher_step_inv)
  show "flying (dispatcher_step a d) + answered_by a d = flying d + accepted_by a d"
    using submit_balance[OF inv] resolve_balance[OF inv] expire_balance[OF inv] by (cases a) simp_all
qed

text \<open>A session of the dispatcher: any sequence of operations from the empty table.\<close>

definition session :: "dispatcher_op list \<Rightarrow> Dispatcher" where
  "session ops = dispatch.run ops dispatcher_init"

definition accepted_ids :: "dispatcher_op list \<Rightarrow> u32 multiset" where
  "accepted_ids ops = dispatch.total accepted_by ops dispatcher_init"

definition answered_ids :: "dispatcher_op list \<Rightarrow> u32 multiset" where
  "answered_ids ops = dispatch.total answered_by ops dispatcher_init"

lemma session_inv: "dispatcher_inv (session ops)"
  unfolding session_def by (rule dispatch.run_inv) (rule dispatcher_inv_init)

text \<open>
  C6: over any sequence of submits, results and timeout sweeps, with any arguments, the correlation
  ids of the completion events handed out, together with those still in flight, are exactly those
  of the accepted commands: no command is answered twice, no answer is made up, and none is lost;
  and \<^verbatim>\<open>pending_count\<close> is the number still to be answered.
\<close>

theorem every_command_is_answered_once:
  "flying (session ops) + answered_ids ops = accepted_ids ops \<and>
   pending_count (session ops) = size (flying (session ops))"
proof -
  have "flying dispatcher_init = {#}"
    by (simp add: flying_def dispatcher_init_def)
  then have "flying (session ops) + answered_ids ops = accepted_ids ops"
    using dispatch.run_balance[OF dispatcher_inv_init, of ops]
    by (simp add: session_def answered_ids_def accepted_ids_def)
  moreover have "pending_count (session ops) = size (flying (session ops))"
    using session_inv[of ops]
    by (simp add: flying_def pending_count_def dispatcher_inv_def count_where_def flip: mset_filter)
  ultimately show ?thesis by simp
qed

text \<open>
  C10: \<open>submit\<close> answers \<^verbatim>\<open>kInvalidArgument\<close>, \<^verbatim>\<open>kNoCapacity\<close>, \<^verbatim>\<open>kBusy\<close> or \<^verbatim>\<open>kOk\<close> exactly as the command
  and the commands in flight call for (the \<^verbatim>\<open>kInternal\<close> at its end is never reached); only \<^verbatim>\<open>kOk\<close>
  enters the command, under its correlation id, and writes the request event.
\<close>

theorem submit_contract:
  assumes "dispatcher_inv d"
  shows "case submit c (Some out) d of (err, out', d') \<Rightarrow>
    err = submit_verdict c (in_flight d) \<and>
    out' = Some (if err = kOk then command_to_event c else out) \<and>
    in_flight d' = (if err = kOk then (in_flight d)(cc_correlation_id c \<mapsto> c) else in_flight d) \<and>
    dispatcher_inv d'"
proof (cases "submit_verdict c (in_flight d) = kOk")
  case True
  then obtain d' where d': "submit c (Some out) d = (kOk, Some (command_to_event c), d')"
    using submit_spec(1)[OF assms, of c out] by auto
  then show ?thesis using submit_spec(2,3)[OF assms, of c out] True by simp
next
  case False
  then show ?thesis using submit_spec(1)[OF assms, of c out] assms by simp
qed

definition sample_command :: "u32 \<Rightarrow> CoreCommand" where
  "sample_command n = core_command_default\<lparr>cc_type := kRefreshNetwork, cc_correlation_id := n,
     cc_issued_at_ms := 1000\<rparr>"

definition sample_dispatcher :: Dispatcher where
  "sample_dispatcher = session [OpSubmit (sample_command 7) (Some core_event_default)]"

lemma sample_in_flight: "in_flight sample_dispatcher = [7 \<mapsto> sample_command 7]"
proof -
  have v: "submit_verdict (sample_command 7) (in_flight dispatcher_init) = kOk"
    by (simp add: submit_verdict_def in_flight_init sample_command_def kNoCorrelationId_def kMaxPending_def)
  from submit_spec(3)[OF dispatcher_inv_init this, of core_event_default] show ?thesis
    by (simp add: sample_dispatcher_def session_def in_flight_init sample_command_def)
qed

lemma submit_contract_witness:
  "fst (submit (sample_command 7) (Some core_event_default) sample_dispatcher) = kBusy"
proof -
  have "dispatcher_inv sample_dispatcher" unfolding sample_dispatcher_def by (rule session_inv)
  from submit_contract[OF this, of "sample_command 7" core_event_default]
  have "fst (submit (sample_command 7) (Some core_event_default) sample_dispatcher) =
      submit_verdict (sample_command 7) (in_flight sample_dispatcher)"
    by (simp add: case_prod_unfold)
  then show ?thesis unfolding sample_in_flight
    by (simp add: submit_verdict_def sample_command_def kNoCorrelationId_def kMaxPending_def)
qed

section \<open>Timeouts\<close>

lemma drop_expired_all:
  "length (filter (timed_out now t) es) \<le> n \<Longrightarrow>
   drop_expired now t n es = map (\<lambda>e. if timed_out now t e then pending_entry_default else e) es"
proof (induction es arbitrary: n)
  case Nil
  then show ?case by simp
next
  case (Cons e es)
  have "\<not> timed_out now t pending_entry_default" by (simp add: timed_out_def)
  show ?case
  proof (cases "n = 0")
    case True
    then have "\<forall>x \<in> set (e # es). \<not> timed_out now t x" using Cons.prems by (simp add: filter_empty_conv split: if_splits)
    then show ?thesis using True by (simp add: map_idI)
  next
    case False
    then show ?thesis using Cons by (auto split: if_splits)
  qed
qed

lemma expire_aged:
  assumes inv: "dispatcher_inv d" and t: "t \<noteq> 0" and room: "kMaxPending \<le> n"
  shows "case expire_timeouts now t (Some n) d of (events, d') \<Rightarrow>
    set events = {timeout_event now c | k c. in_flight d k = Some c \<and> t \<le> now - cc_issued_at_ms c} \<and>
    (\<forall>k. in_flight d' k = (case in_flight d k of None \<Rightarrow> None
       | Some c \<Rightarrow> if t \<le> now - cc_issued_at_ms c then None else Some c))"
proof -
  let ?es = "dp_pending d" and ?x = "expire_timeouts now t (Some n) d"
  have len: "length (filter (timed_out now t) ?es) \<le> n"
    using room inv length_filter_le[of "timed_out now t" ?es] by (simp add: dispatcher_inv_def)
  have n: "0 < n" using room by (simp add: kMaxPending_def)
  note spec = expire_spec[OF inv n t, of now]
  have u: "unique_slots pe_in_use pe_id ?es" using inv by (simp add: dispatcher_inv_def)
  have u': "unique_slots pe_in_use pe_id (dp_pending (snd ?x))" using spec(3) by (simp add: dispatcher_inv_def)
  have flight: "in_flight d k = Some c \<longleftrightarrow> (\<exists>e \<in> set ?es. pe_in_use e \<and> pe_id e = k \<and> pe_command e = c)" for k c
    using pending.slot_map_iff[OF u, of k] by (auto simp: in_flight_def set_conv_nth)
  have fst_eq: "fst ?x = map (\<lambda>e. timeout_event now (pe_command e)) (filter (timed_out now t) ?es)"
    using len by (subst spec(1)) simp
  have ds: "dp_pending (snd ?x) = map (\<lambda>e. if timed_out now t e then pending_entry_default else e) ?es"
    using drop_expired_all[OF len] spec(2) by simp
  have flight': "in_flight (snd ?x) k = Some c \<longleftrightarrow>
      in_flight d k = Some c \<and> \<not> t \<le> now - cc_issued_at_ms c" for k c
  proof -
    have "in_flight (snd ?x) k = Some c \<longleftrightarrow>
        (\<exists>e \<in> set (dp_pending (snd ?x)). pe_in_use e \<and> pe_id e = k \<and> pe_command e = c)"
      using pending.slot_map_iff[OF u', of k] by (auto simp: in_flight_def set_conv_nth)
    also have "\<dots> \<longleftrightarrow> (\<exists>e \<in> set ?es. \<not> timed_out now t e \<and> pe_in_use e \<and> pe_id e = k \<and> pe_command e = c)"
      unfolding ds by auto
    also have "\<dots> \<longleftrightarrow> in_flight d k = Some c \<and> \<not> t \<le> now - cc_issued_at_ms c"
      unfolding flight timed_out_def not_less by blast
    finally show ?thesis .
  qed
  have "set (fst ?x) = {timeout_event now c | k c. in_flight d k = Some c \<and> t \<le> now - cc_issued_at_ms c}"
    unfolding fst_eq flight timed_out_def not_less set_map set_filter by blast
  moreover have "in_flight (snd ?x) k = (case in_flight d k of None \<Rightarrow> None
       | Some c \<Rightarrow> if t \<le> now - cc_issued_at_ms c then None else Some c)" for k
  proof (cases "in_flight (snd ?x) k")
    case None
    then have "\<not> (in_flight d k = Some c \<and> \<not> t \<le> now - cc_issued_at_ms c)" for c
      using flight'[of k c] by (simp only: option.distinct) simp
    then show ?thesis unfolding None by (auto split: option.split)
  next
    case (Some c)
    then show ?thesis using flight'[THEN iffD1, OF Some] by simp
  qed
  ultimately show ?thesis by (simp add: case_prod_unfold)
qed

text \<open>
  A sweep with room for all sixteen events times out exactly the commands whose age has reached
  the timeout (the age is the wrapped difference of the 32-bit clock): each gets one timeout event
  and is no longer in flight, and every younger command stays as it was.
\<close>

theorem expire_exactly_the_aged:
  assumes inv: "dispatcher_inv d" and t: "t \<noteq> 0" and room: "kMaxPending \<le> n"
  shows "case expire_timeouts now t (Some n) d of (events, d') \<Rightarrow>
    set events = {timeout_event now c | k c. in_flight d k = Some c \<and> t \<le> now - cc_issued_at_ms c} \<and>
    (\<forall>k. in_flight d' k = (case in_flight d k of None \<Rightarrow> None
       | Some c \<Rightarrow> if t \<le> now - cc_issued_at_ms c then None else Some c))"
  using inv t room by (rule expire_aged)

lemma expire_exactly_the_aged_witness:
  "set (fst (expire_timeouts 6000 5000 (Some 16) sample_dispatcher)) = {timeout_event 6000 (sample_command 7)}"
proof -
  have "dispatcher_inv sample_dispatcher" unfolding sample_dispatcher_def by (rule session_inv)
  moreover have "(5000::u32) \<noteq> 0" "kMaxPending \<le> 16" by (simp_all add: kMaxPending_def)
  ultimately show ?thesis
    using expire_exactly_the_aged[of sample_dispatcher 5000 16 6000]
    by (auto simp: case_prod_unfold sample_in_flight sample_command_def split: if_splits)
qed

end
