(* ===== verification/RingQueue.thy ===== *)
theory RingQueue
  imports Prelude
begin

text \<open>
  The ring buffers of the service layer (event queue, command and result ingress queues, ...): a
  fixed array with head, tail and count, all written with the same push and pop bodies. The
  interface \<open>bounded_fifo\<close> is what their clients rely on; it is interpreted on the ring buffer of
  the code, which refines a list.
\<close>

section \<open>The ring buffer\<close>

record 'a ring =
  rg_buf :: "'a list"
  rg_head :: nat
  rg_tail :: nat
  rg_count :: nat

definition ring_empty :: "nat \<Rightarrow> 'a \<Rightarrow> 'a ring" where
  "ring_empty cap blank =
     \<lparr>rg_buf = replicate cap blank, rg_head = 0, rg_tail = 0, rg_count = 0\<rparr>"

definition ring_push :: "nat \<Rightarrow> 'a \<Rightarrow> 'a ring \<Rightarrow> 'a ring option" where
  "ring_push cap x q =
     (if rg_count q \<ge> cap then None
      else Some (q\<lparr>rg_buf := (rg_buf q)[rg_tail q := x],
                   rg_tail := (rg_tail q + 1) mod cap,
                   rg_count := rg_count q + 1\<rparr>))"

definition ring_pop :: "nat \<Rightarrow> 'a ring \<Rightarrow> ('a \<times> 'a ring) option" where
  "ring_pop cap q =
     (if rg_count q = 0 then None
      else Some (rg_buf q ! rg_head q,
                 q\<lparr>rg_head := (rg_head q + 1) mod cap, rg_count := rg_count q - 1\<rparr>))"

text \<open>The queue a ring stands for, oldest element first, and its well-formedness.\<close>

definition ring_list :: "nat \<Rightarrow> 'a ring \<Rightarrow> 'a list" where
  "ring_list cap q = map (\<lambda>i. rg_buf q ! ((rg_head q + i) mod cap)) [0..<rg_count q]"

definition ring_inv :: "nat \<Rightarrow> 'a ring \<Rightarrow> bool" where
  "ring_inv cap q \<longleftrightarrow> 0 < cap \<and> length (rg_buf q) = cap \<and> rg_head q < cap \<and> rg_count q \<le> cap \<and>
     rg_tail q = (rg_head q + rg_count q) mod cap"

lemma length_ring_list [simp]: "length (ring_list cap q) = rg_count q"
  by (simp add: ring_list_def)

lemma ring_inv_empty: "0 < cap \<Longrightarrow> ring_inv cap (ring_empty cap b)"
  by (simp add: ring_inv_def ring_empty_def)

lemma ring_list_empty [simp]: "ring_list cap (ring_empty cap b) = []"
  by (simp add: ring_list_def ring_empty_def)

lemma ring_push_None_iff: "ring_push cap x q = None \<longleftrightarrow> cap \<le> rg_count q"
  by (simp add: ring_push_def)

lemma ring_slot_neq:
  assumes "i < n" "n < (cap::nat)"
  shows "(h + i) mod cap \<noteq> (h + n) mod cap"
proof
  assume "(h + i) mod cap = (h + n) mod cap"
  then have "cap dvd (h + n) - (h + i)"
    using assms by (metis add_le_cancel_left less_imp_le mod_eq_dvd_iff_nat)
  then show False using assms by (auto dest: dvd_imp_le)
qed

lemma ring_push_refines:
  assumes inv: "ring_inv cap q" and push: "ring_push cap x q = Some q'"
  shows "ring_inv cap q'" and "ring_list cap q' = ring_list cap q @ [x]"
proof -
  have lt: "rg_count q < cap"
    and q': "q' = q\<lparr>rg_buf := (rg_buf q)[rg_tail q := x],
                   rg_tail := (rg_tail q + 1) mod cap, rg_count := rg_count q + 1\<rparr>"
    using push by (auto simp: ring_push_def split: if_splits)
  show "ring_inv cap q'"
    using inv lt by (simp add: q' ring_inv_def mod_simps)
  have tail: "rg_tail q = (rg_head q + rg_count q) mod cap" "rg_tail q < length (rg_buf q)"
    using inv by (auto simp: ring_inv_def)
  have "(rg_buf q)[rg_tail q := x] ! ((rg_head q + i) mod cap) = rg_buf q ! ((rg_head q + i) mod cap)"
    if "i < rg_count q" for i
    using ring_slot_neq[OF that lt, of "rg_head q"] tail(1) by simp
  then show "ring_list cap q' = ring_list cap q @ [x]"
    using tail by (simp add: ring_list_def q')
qed

lemma ring_pop_refines:
  assumes inv: "ring_inv cap q" and pop: "ring_pop cap q = Some (x, q')"
  shows "ring_inv cap q'" and "ring_list cap q = x # ring_list cap q'"
proof -
  have pos: "0 < rg_count q" and x: "x = rg_buf q ! rg_head q"
    and q': "q' = q\<lparr>rg_head := (rg_head q + 1) mod cap, rg_count := rg_count q - 1\<rparr>"
    using pop by (auto simp: ring_pop_def split: if_splits)
  obtain n where n: "rg_count q = Suc n" using pos by (cases "rg_count q") auto
  show "ring_inv cap q'"
    using inv by (simp add: q' n ring_inv_def mod_simps)
  have "[0..<rg_count q] = 0 # map Suc [0..<rg_count q - 1]"
    using pos by (simp add: map_Suc_upt upt_conv_Cons)
  moreover have "rg_head q mod cap = rg_head q" using inv by (simp add: ring_inv_def)
  ultimately show "ring_list cap q = x # ring_list cap q'"
    by (simp add: ring_list_def q' x mod_simps)
qed

section \<open>The interface of a bounded queue\<close>

locale bounded_fifo =
  fixes push :: "'a \<Rightarrow> 'q \<Rightarrow> 'q option"
    and pop :: "'q \<Rightarrow> ('a \<times> 'q) option"
    and contents :: "'q \<Rightarrow> 'a list"
    and inv :: "'q \<Rightarrow> bool"
    and cap :: nat
  assumes bound: "inv q \<Longrightarrow> length (contents q) \<le> cap"
    and push_full: "inv q \<Longrightarrow> push x q = None \<longleftrightarrow> length (contents q) = cap"
    and push_inv: "inv q \<Longrightarrow> push x q = Some q' \<Longrightarrow> inv q'"
    and push_contents: "inv q \<Longrightarrow> push x q = Some q' \<Longrightarrow> contents q' = contents q @ [x]"
    and pop_empty: "inv q \<Longrightarrow> pop q = None \<longleftrightarrow> contents q = []"
    and pop_inv: "inv q \<Longrightarrow> pop q = Some (x, q') \<Longrightarrow> inv q'"
    and pop_contents: "inv q \<Longrightarrow> pop q = Some (x, q') \<Longrightarrow> contents q = x # contents q'"
begin

lemma push_some:
  assumes "inv q" "length (contents q) < cap"
  obtains q' where "push x q = Some q'" "inv q'" "contents q' = contents q @ [x]"
proof (cases "push x q")
  case None
  with assms push_full[OF assms(1), of x] show thesis by simp
next
  case (Some q')
  with push_inv[OF assms(1) Some] push_contents[OF assms(1) Some] that show thesis by blast
qed

lemma pop_some:
  assumes "inv q" "contents q = x # xs"
  obtains q' where "pop q = Some (x, q')" "inv q'" "contents q' = xs"
proof (cases "pop q")
  case None
  with assms(2) pop_empty[OF assms(1)] show thesis by simp
next
  case (Some p)
  obtain y q' where p: "p = (y, q')" by (cases p)
  with Some have pop: "pop q = Some (y, q')" by simp
  from pop_contents[OF assms(1) pop] assms(2) have "y = x" "contents q' = xs" by auto
  with pop pop_inv[OF assms(1) pop] that show thesis by blast
qed

lemma pop_shrinks:
  assumes "inv q" "pop q = Some (x, q')"
  shows "length (contents q') < length (contents q)"
  using pop_contents[OF assms] by simp

lemma push_then_pop_other:
  assumes "inv q" "contents q = y # ys" "push x q = Some q'"
  obtains q'' where "pop q' = Some (y, q'')" "contents q'' = ys @ [x]"
proof -
  have "inv q'" "contents q' = y # (ys @ [x])"
    using push_inv[OF assms(1,3)] push_contents[OF assms(1,3)] assms(2) by auto
  then show thesis by (rule pop_some) (rule that)
qed

end

lemma ring_bounded_fifo:
  "0 < cap \<Longrightarrow> bounded_fifo (ring_push cap) (ring_pop cap) (ring_list cap) (ring_inv cap) cap"
proof (unfold_locales, goal_cases)
  case (1 q)
  then show ?case by (simp add: ring_inv_def)
next
  case (2 q x)
  then show ?case by (auto simp: ring_inv_def ring_push_None_iff)
next
  case (5 q)
  then show ?case by (simp add: ring_pop_def ring_list_def)
qed (blast intro: ring_push_refines ring_pop_refines)+

text \<open>The capacities the code uses: 32 events, 16 commands, 16 command results.\<close>

interpretation ring32: bounded_fifo "ring_push 32" "ring_pop 32" "ring_list 32" "ring_inv 32" 32
  by (rule ring_bounded_fifo) simp

interpretation ring16: bounded_fifo "ring_push 16" "ring_pop 16" "ring_list 16" "ring_inv 16" 16
  by (rule ring_bounded_fifo) simp

end
