(* ===== verification/DeviceManager.thy ===== *)
theory DeviceManager
  imports CoreTypes SlotTable
begin

text \<open>
  \<^verbatim>\<open>components/service/device_manager.cpp\<close>: the timers after which a device that was asked to
  leave is removed by force, the window in which a repeated join of one device is ignored, and the
  per-device snapshot for the interfaces. The lock of the class makes each operation one step; the
  functions below are those steps.
\<close>

record PendingForceRemove =
  fr_in_use :: bool
  fr_short_addr :: u16
  fr_deadline_ms :: u32

record JoinCandidateEntry =
  jc_short_addr :: u16
  jc_seen_at_ms :: u32

record DeviceManager =
  dm_pending_force_remove :: "PendingForceRemove list"
  dm_join_candidate_history :: "JoinCandidateEntry list"

definition kMaxPendingForceRemove :: nat where "kMaxPendingForceRemove = 16"

definition kJoinCandidateHistory :: nat where "kJoinCandidateHistory = 8"

definition kJoinDedupWindowMs :: u32 where "kJoinDedupWindowMs = 5000"

definition force_remove_default :: PendingForceRemove where
  "force_remove_default =
     \<lparr>fr_in_use = False, fr_short_addr = kUnknownDeviceShortAddr, fr_deadline_ms = 0\<rparr>"

definition join_candidate_default :: JoinCandidateEntry where
  "join_candidate_default = \<lparr>jc_short_addr = kUnknownDeviceShortAddr, jc_seen_at_ms = 0\<rparr>"

definition device_manager_init :: DeviceManager where
  "device_manager_init =
     \<lparr>dm_pending_force_remove = replicate kMaxPendingForceRemove force_remove_default,
      dm_join_candidate_history = replicate kJoinCandidateHistory join_candidate_default\<rparr>"

section \<open>Operations\<close>

text \<open>\<^verbatim>\<open>static_cast<int32_t>(now_ms - deadline_ms) >= 0\<close>.\<close>

definition is_deadline_reached :: "u32 \<Rightarrow> u32 \<Rightarrow> bool" where
  "is_deadline_reached now_ms deadline_ms \<longleftrightarrow> 0 \<le> sint (now_ms - deadline_ms)"

definition no_address :: "u16 \<Rightarrow> bool" where
  "no_address a \<longleftrightarrow> a = kUnknownDeviceShortAddr \<or> a = 0"

definition clear_join_candidate :: "u16 \<Rightarrow> DeviceManager \<Rightarrow> DeviceManager" where
  "clear_join_candidate a m =
     (if no_address a then m
      else m\<lparr>dm_join_candidate_history :=
        map (\<lambda>e. if jc_short_addr e = a then join_candidate_default else e) (dm_join_candidate_history m)\<rparr>)"

definition handle_event :: "CoreEvent \<Rightarrow> DeviceManager \<Rightarrow> bool \<times> DeviceManager" where
  "handle_event e m =
     (if ev_type e \<noteq> kDeviceLeft \<or> no_address (ev_device_short_addr e) then (False, m)
      else
        let hit = (\<lambda>p. fr_in_use p \<and> fr_short_addr p = ev_device_short_addr e);
            ps = dm_pending_force_remove m
        in (list_ex hit ps,
            clear_join_candidate (ev_device_short_addr e)
              (m\<lparr>dm_pending_force_remove := map (\<lambda>p. if hit p then force_remove_default else p) ps\<rparr>)))"

text \<open>The entry seen first, by the raw value of the clock; the scan starts at entry 0.\<close>

definition oldest_index :: "JoinCandidateEntry list \<Rightarrow> nat" where
  "oldest_index h =
     foldl (\<lambda>best i. if jc_short_addr (h ! i) \<noteq> kUnknownDeviceShortAddr \<and>
                        jc_seen_at_ms (h ! i) < jc_seen_at_ms (h ! best) then i else best)
       0 [0..<length h]"

definition is_duplicate_join_candidate :: "u16 \<Rightarrow> u32 \<Rightarrow> DeviceManager \<Rightarrow> bool \<times> DeviceManager" where
  "is_duplicate_join_candidate a now_ms m =
     (if no_address a then (True, m)
      else
        let h = dm_join_candidate_history m;
            seen = \<lparr>jc_short_addr = a, jc_seen_at_ms = now_ms\<rparr>
        in case find_index (\<lambda>e. jc_short_addr e = a) h of
             Some i \<Rightarrow>
               if now_ms - jc_seen_at_ms (h ! i) \<le> kJoinDedupWindowMs then (True, m)
               else (False, m\<lparr>dm_join_candidate_history := h[i := (h ! i)\<lparr>jc_seen_at_ms := now_ms\<rparr>]\<rparr>)
           | None \<Rightarrow>
               let target = (case find_index (\<lambda>e. jc_short_addr e = kUnknownDeviceShortAddr) h of
                               Some i \<Rightarrow> i | None \<Rightarrow> oldest_index h)
               in (False, m\<lparr>dm_join_candidate_history := h[target := seen]\<rparr>))"

definition schedule_force_remove :: "u16 \<Rightarrow> u32 \<Rightarrow> DeviceManager \<Rightarrow> bool \<times> DeviceManager" where
  "schedule_force_remove a deadline_ms m =
     (if no_address a then (False, m)
      else
        let ps = dm_pending_force_remove m
        in case find_index (\<lambda>p. fr_in_use p \<and> fr_short_addr p = a) ps of
             Some i \<Rightarrow>
               (True, m\<lparr>dm_pending_force_remove := ps[i := (ps ! i)\<lparr>fr_deadline_ms := deadline_ms\<rparr>]\<rparr>)
           | None \<Rightarrow>
               (case find_index (\<lambda>p. \<not> fr_in_use p) ps of
                  None \<Rightarrow> (False, m)
                | Some i \<Rightarrow>
                    (True, m\<lparr>dm_pending_force_remove := ps[i :=
                       \<lparr>fr_in_use = True, fr_short_addr = a, fr_deadline_ms = deadline_ms\<rparr>]\<rparr>)))"

definition remaining_of :: "u32 \<Rightarrow> PendingForceRemove \<Rightarrow> u32" where
  "remaining_of now_ms p =
     (if is_deadline_reached now_ms (fr_deadline_ms p) then 0 else fr_deadline_ms p - now_ms)"

text \<open>\<open>None\<close> for \<^verbatim>\<open>false\<close>; otherwise the value written to \<^verbatim>\<open>*remaining_ms\<close> (not null here).\<close>

definition get_force_remove_remaining_ms :: "u16 \<Rightarrow> u32 \<Rightarrow> DeviceManager \<Rightarrow> u32 option" where
  "get_force_remove_remaining_ms a now_ms m =
     (if no_address a then None
      else map_option (\<lambda>i. remaining_of now_ms (dm_pending_force_remove m ! i))
             (find_index (\<lambda>p. fr_in_use p \<and> fr_short_addr p = a) (dm_pending_force_remove m)))"

text \<open>The loop of \<^verbatim>\<open>collect_expired_force_remove\<close>: \<open>room\<close> is what is left of the output array.\<close>

fun collect_loop :: "u32 \<Rightarrow> nat \<Rightarrow> PendingForceRemove list \<Rightarrow> u16 list \<times> PendingForceRemove list" where
  "collect_loop now_ms room [] = ([], [])"
| "collect_loop now_ms room (p # ps) =
     (if \<not> fr_in_use p \<or> \<not> is_deadline_reached now_ms (fr_deadline_ms p)
      then (let (out, ps') = collect_loop now_ms room ps in (out, p # ps'))
      else if 0 < room
      then (let (out, ps') = collect_loop now_ms (room - 1) ps
            in (fr_short_addr p # out, force_remove_default # ps'))
      else (let (out, ps') = collect_loop now_ms room ps in (out, force_remove_default # ps')))"

definition collect_expired_force_remove :: "u32 \<Rightarrow> DeviceManager \<Rightarrow> u16 list \<times> DeviceManager" where
  "collect_expired_force_remove now_ms m =
     (let (out, ps) = collect_loop now_ms kMaxPendingForceRemove (dm_pending_force_remove m)
      in (out, m\<lparr>dm_pending_force_remove := ps\<rparr>))"

record DeviceRuntimeSnapshot =
  ds_join_window_open :: bool
  ds_join_window_seconds_left :: u16
  ds_force_remove_ms_left :: "u32 list"
  ds_reporting_state :: "CoreReportingState list"
  ds_last_report_at_ms :: "u32 list"
  ds_stale :: "bool list"
  ds_battery_percent :: "u8 list"
  ds_has_battery :: "bool list"
  ds_battery_voltage_mv :: "u16 list"
  ds_has_battery_voltage :: "bool list"
  ds_lqi :: "u8 list"
  ds_has_lqi :: "bool list"
  ds_rssi_dbm :: "u8 list"
  ds_has_rssi :: "bool list"

definition listed :: "CoreDeviceRecord \<Rightarrow> bool" where
  "listed d \<longleftrightarrow> \<not> no_address (dr_short_addr d) \<and> dr_online d"

text \<open>The inner loop over the timers, which looks at the first timer of the device.\<close>

definition snapshot_remaining :: "u32 \<Rightarrow> DeviceManager \<Rightarrow> u16 \<Rightarrow> u32" where
  "snapshot_remaining now_ms m a =
     (case find_index (\<lambda>p. fr_in_use p \<and> fr_short_addr p = a) (dm_pending_force_remove m) of
        None \<Rightarrow> 0
      | Some i \<Rightarrow> remaining_of now_ms (dm_pending_force_remove m ! i))"

definition build_runtime_snapshot ::
  "CoreState \<Rightarrow> u32 \<Rightarrow> bool \<Rightarrow> u16 \<Rightarrow> DeviceManager \<Rightarrow> DeviceRuntimeSnapshot" where
  "build_runtime_snapshot s now_ms join_open seconds_left m =
     (let ds = st_devices s
      in \<lparr>ds_join_window_open = join_open,
          ds_join_window_seconds_left = (if join_open then seconds_left else 0),
          ds_force_remove_ms_left =
            map (\<lambda>d. if listed d then snapshot_remaining now_ms m (dr_short_addr d) else 0) ds,
          ds_reporting_state = map (\<lambda>d. if listed d then dr_reporting_state d else kReportingUnknown) ds,
          ds_last_report_at_ms = map (\<lambda>d. if listed d then dr_last_report_at_ms d else 0) ds,
          ds_stale = map (\<lambda>d. listed d \<and> dr_stale d) ds,
          ds_battery_percent = map (\<lambda>d. if listed d then dr_battery_percent d else 0) ds,
          ds_has_battery = map (\<lambda>d. listed d \<and> dr_has_battery d) ds,
          ds_battery_voltage_mv = map (\<lambda>d. if listed d then dr_battery_voltage_mv d else 0) ds,
          ds_has_battery_voltage = map (\<lambda>d. listed d \<and> dr_has_battery_voltage d) ds,
          ds_lqi = map (\<lambda>d. if listed d then dr_lqi d else 0) ds,
          ds_has_lqi = map (\<lambda>d. listed d \<and> dr_has_lqi d) ds,
          ds_rssi_dbm = map (\<lambda>d. if listed d then dr_rssi_dbm d else 0) ds,
          ds_has_rssi = map (\<lambda>d. listed d \<and> dr_has_rssi d) ds\<rparr>)"

section \<open>The timers as a map from addresses to deadlines\<close>

interpretation deadline: deadline_clock is_deadline_reached
  by unfold_locales (simp add: is_deadline_reached_def sint32_nonneg_iff)

interpretation timer: slot_table fr_in_use fr_short_addr force_remove_default
  by unfold_locales (simp add: force_remove_default_def)

definition timer_ok :: "PendingForceRemove \<Rightarrow> bool" where
  "timer_ok p \<longleftrightarrow> (fr_in_use p \<longrightarrow> \<not> no_address (fr_short_addr p))"

lemma timer_default [simp]: "timer_ok force_remove_default" "\<not> fr_in_use force_remove_default"
  by (simp_all add: timer_ok_def force_remove_default_def)

definition device_manager_inv :: "DeviceManager \<Rightarrow> bool" where
  "device_manager_inv m \<longleftrightarrow>
     length (dm_pending_force_remove m) = kMaxPendingForceRemove \<and>
     length (dm_join_candidate_history m) = kJoinCandidateHistory \<and>
     unique_slots fr_in_use fr_short_addr (dm_pending_force_remove m) \<and>
     list_all timer_ok (dm_pending_force_remove m)"

definition timers_of :: "DeviceManager \<Rightarrow> u16 \<Rightarrow> u32 option" where
  "timers_of m a = map_option fr_deadline_ms (slot_map fr_in_use fr_short_addr (dm_pending_force_remove m) a)"

lemma device_manager_inv_init: "device_manager_inv device_manager_init"
  by (simp add: device_manager_inv_def device_manager_init_def timer.empty_unique list_all_length)

lemma timers_of_init: "timers_of device_manager_init = Map.empty"
  by (rule ext) (simp add: timers_of_def device_manager_init_def timer.empty_map)

lemma timers_of_card:
  "device_manager_inv m \<Longrightarrow> card (dom (timers_of m)) = count_where fr_in_use (dm_pending_force_remove m)"
  using timer.card_dom_slot_map[of "dm_pending_force_remove m"]
  by (simp add: device_manager_inv_def timers_of_def dom_def)

lemma schedule_spec:
  assumes inv: "device_manager_inv m"
  shows "case schedule_force_remove a t m of (ok, m') \<Rightarrow>
    device_manager_inv m' \<and>
    ok = (\<not> no_address a \<and> (timers_of m a \<noteq> None \<or> card (dom (timers_of m)) < kMaxPendingForceRemove)) \<and>
    timers_of m' = (if ok then (timers_of m)(a \<mapsto> t) else timers_of m)"
proof (cases "no_address a")
  case True
  then show ?thesis using inv by (simp add: Let_def schedule_force_remove_def)
next
  case ok: False
  let ?ps = "dm_pending_force_remove m"
  have u: "unique_slots fr_in_use fr_short_addr ?ps" "length ?ps = kMaxPendingForceRemove"
    using inv by (simp_all add: device_manager_inv_def)
  have f: "find_index (\<lambda>p. fr_in_use p \<and> fr_short_addr p = a) ?ps = find_slot fr_in_use fr_short_addr a ?ps"
    by (simp add: find_slot_def)
  have put: "device_manager_inv (m\<lparr>dm_pending_force_remove := ?ps[i := p]\<rparr>) \<and>
      timers_of (m\<lparr>dm_pending_force_remove := ?ps[i := p]\<rparr>) = (timers_of m)(a \<mapsto> t)"
    if "timer.writable i p ?ps" "fr_in_use p" "fr_short_addr p = a" "fr_deadline_ms p = t" for i p
    using inv timer.write_unique[OF u(1) that(1)] timer.write_map[OF u(1) that(1)] that ok
    by (auto simp: device_manager_inv_def list_all_update timer_ok_def timers_of_def fun_eq_iff)
  show ?thesis
  proof (cases "find_slot fr_in_use fr_short_addr a ?ps")
    case (Some i)
    note i = timer.find_slotD[OF Some]
    have "timer.writable i ((?ps ! i)\<lparr>fr_deadline_ms := t\<rparr>) ?ps"
      using Some i by (simp add: timer.writable_def)
    from put[OF this] i show ?thesis
      using Some ok by (simp add: Let_def schedule_force_remove_def f timers_of_def slot_map_def Let_def)
  next
    case None
    have none: "timers_of m a = None" using None by (simp add: timers_of_def slot_map_def)
    show ?thesis
    proof (cases "find_index (\<lambda>p. \<not> fr_in_use p) ?ps")
      case full: None
      then have "\<not> card (dom (timers_of m)) < kMaxPendingForceRemove"
        using find_index_free_iff[of fr_in_use ?ps] timers_of_card[OF inv] u(2) by simp
      then show ?thesis using full None none ok inv by (simp add: Let_def schedule_force_remove_def f)
    next
      case (Some i)
      note i = find_index_SomeD[OF Some]
      have "card (dom (timers_of m)) < kMaxPendingForceRemove"
        using Some find_index_free_iff[of fr_in_use ?ps] timers_of_card[OF inv] u(2) by auto
      moreover have "timer.writable i \<lparr>fr_in_use = True, fr_short_addr = a, fr_deadline_ms = t\<rparr> ?ps"
        using None i by (simp add: timer.writable_def)
      from put[OF this] have "device_manager_inv (m\<lparr>dm_pending_force_remove := ?ps[i :=
            \<lparr>fr_in_use = True, fr_short_addr = a, fr_deadline_ms = t\<rparr>]\<rparr>) \<and>
          timers_of (m\<lparr>dm_pending_force_remove := ?ps[i :=
            \<lparr>fr_in_use = True, fr_short_addr = a, fr_deadline_ms = t\<rparr>]\<rparr>) = (timers_of m)(a \<mapsto> t)" by simp
      ultimately show ?thesis using Some None none ok by (simp add: Let_def schedule_force_remove_def f)
    qed
  qed
qed

text \<open>
  Scheduling a forced removal sets the one timer of that address (replacing its deadline when
  there is one), touches no other timer, and fails only for an address that is no device's or when
  all sixteen timers are taken by other devices.
\<close>

theorem schedule_force_remove_contract:
  assumes inv: "device_manager_inv m"
  shows "case schedule_force_remove a t m of (ok, m') \<Rightarrow>
    device_manager_inv m' \<and>
    ok = (\<not> no_address a \<and> (timers_of m a \<noteq> None \<or> card (dom (timers_of m)) < kMaxPendingForceRemove)) \<and>
    timers_of m' = (if ok then (timers_of m)(a \<mapsto> t) else timers_of m)"
  by (rule schedule_spec[OF inv])

definition sample_timers :: DeviceManager where
  "sample_timers = snd (schedule_force_remove 0x1234 5000 device_manager_init)"

lemma sample_timers_inv: "device_manager_inv sample_timers"
  using schedule_spec[OF device_manager_inv_init, of "0x1234" 5000]
  by (simp add: sample_timers_def case_prod_unfold)

lemma schedule_force_remove_contract_witness:
  "device_manager_inv (snd (schedule_force_remove 7 9000 sample_timers))"
  using schedule_force_remove_contract[OF sample_timers_inv, of 7 9000] by (simp add: case_prod_unfold)

section \<open>Expiry\<close>

lemma collect_loop_eq:
  assumes "length (filter (\<lambda>p. fr_in_use p \<and> is_deadline_reached now (fr_deadline_ms p)) ps) \<le> n"
  shows "collect_loop now n ps =
    (map fr_short_addr (filter (\<lambda>p. fr_in_use p \<and> is_deadline_reached now (fr_deadline_ms p)) ps),
     map (\<lambda>p. if fr_in_use p \<and> is_deadline_reached now (fr_deadline_ms p) then force_remove_default else p) ps)"
  using assms
proof (induction ps arbitrary: n)
  case Nil
  then show ?case by simp
next
  case (Cons p ps)
  then show ?case by (cases n) (auto simp: Let_def)
qed

definition due_now :: "u32 \<Rightarrow> PendingForceRemove \<Rightarrow> bool" where
  "due_now now p \<longleftrightarrow> fr_in_use p \<and> is_deadline_reached now (fr_deadline_ms p)"

definition clear_if :: "(PendingForceRemove \<Rightarrow> bool) \<Rightarrow> PendingForceRemove list \<Rightarrow> PendingForceRemove list" where
  "clear_if P ps = map (\<lambda>p. if fr_in_use p \<and> P p then force_remove_default else p) ps"

lemma clear_if_unique:
  assumes "unique_slots fr_in_use fr_short_addr ps"
  shows "unique_slots fr_in_use fr_short_addr (clear_if P ps)"
  using assms unfolding unique_slots_def clear_if_def by (auto split: if_splits)

lemma clear_if_map:
  assumes u: "unique_slots fr_in_use fr_short_addr ps"
  shows "slot_map fr_in_use fr_short_addr (clear_if P ps) a =
    (case slot_map fr_in_use fr_short_addr ps a of None \<Rightarrow> None | Some p \<Rightarrow> if P p then None else Some p)"
proof -
  have iff: "slot_map fr_in_use fr_short_addr (clear_if P ps) a = Some p \<longleftrightarrow>
      slot_map fr_in_use fr_short_addr ps a = Some p \<and> \<not> P p" for p
    unfolding timer.slot_map_iff[OF u] timer.slot_map_iff[OF clear_if_unique[OF u]]
    by (auto simp: clear_if_def split: if_splits)
  show ?thesis
  proof (cases "slot_map fr_in_use fr_short_addr (clear_if P ps) a")
    case None
    then have "\<not> (slot_map fr_in_use fr_short_addr ps a = Some p \<and> \<not> P p)" for p using iff[of p] by simp
    then show ?thesis unfolding None by (auto split: option.split)
  next
    case (Some p)
    with iff[of p] show ?thesis by simp
  qed
qed

lemma clear_if_inv:
  assumes "device_manager_inv m"
  shows "device_manager_inv (m\<lparr>dm_pending_force_remove := clear_if P (dm_pending_force_remove m)\<rparr>)"
proof -
  have "list_all timer_ok (clear_if P (dm_pending_force_remove m))"
    using assms by (auto simp: device_manager_inv_def clear_if_def list_all_iff)
  then show ?thesis using assms clear_if_unique[of "dm_pending_force_remove m" P]
    by (simp add: device_manager_inv_def clear_if_def)
qed

lemma timers_clear_if:
  assumes "device_manager_inv m"
  shows "timers_of (m\<lparr>dm_pending_force_remove := clear_if P (dm_pending_force_remove m)\<rparr>) a =
    (case slot_map fr_in_use fr_short_addr (dm_pending_force_remove m) a of None \<Rightarrow> None
     | Some p \<Rightarrow> if P p then None else Some (fr_deadline_ms p))"
  using assms clear_if_map[of "dm_pending_force_remove m" P a]
  by (simp add: timers_of_def device_manager_inv_def split: option.split)

lemma force_remove_fires:
  assumes inv: "device_manager_inv m"
  shows "case collect_expired_force_remove now m of (fired, m') \<Rightarrow>
    device_manager_inv m' \<and> distinct fired \<and>
    set fired = {a. \<exists>t. timers_of m a = Some t \<and> is_deadline_reached now t} \<and>
    (\<forall>a. timers_of m' a = (if a \<in> set fired then None else timers_of m a))"
proof -
  let ?ps = "dm_pending_force_remove m"
  let ?P = "\<lambda>p. is_deadline_reached now (fr_deadline_ms p)"
  have u: "unique_slots fr_in_use fr_short_addr ?ps" and len: "length ?ps = kMaxPendingForceRemove"
    using inv by (simp_all add: device_manager_inv_def)
  have eq: "collect_expired_force_remove now m =
      (map fr_short_addr (filter (\<lambda>p. fr_in_use p \<and> ?P p) ?ps), m\<lparr>dm_pending_force_remove := clear_if ?P ?ps\<rparr>)"
    using collect_loop_eq[of now ?ps kMaxPendingForceRemove] len
      length_filter_le[of "\<lambda>p. fr_in_use p \<and> ?P p" ?ps]
    by (simp add: collect_expired_force_remove_def clear_if_def)
  have fired: "a \<in> fr_short_addr ` {p \<in> set ?ps. fr_in_use p \<and> ?P p} \<longleftrightarrow>
      (\<exists>t. timers_of m a = Some t \<and> is_deadline_reached now t)" for a
  proof -
    have "(\<exists>t. timers_of m a = Some t \<and> is_deadline_reached now t) \<longleftrightarrow>
        (\<exists>p. slot_map fr_in_use fr_short_addr ?ps a = Some p \<and> ?P p)"
      by (auto simp: timers_of_def)
    also have "\<dots> \<longleftrightarrow> (\<exists>p \<in> set ?ps. fr_in_use p \<and> fr_short_addr p = a \<and> ?P p)"
      unfolding timer.slot_map_iff[OF u] by (auto simp: set_conv_nth)
    finally show ?thesis by auto
  qed
  have "timers_of (m\<lparr>dm_pending_force_remove := clear_if ?P ?ps\<rparr>) a =
      (if \<exists>t. timers_of m a = Some t \<and> is_deadline_reached now t then None else timers_of m a)" for a
    using timers_clear_if[OF inv, of ?P a] by (auto simp: timers_of_def split: option.split)
  moreover have "distinct (map fr_short_addr (filter (\<lambda>p. fr_in_use p \<and> ?P p) ?ps))"
    by (rule unique_slots_distinct[OF u])
  ultimately show ?thesis
    using clear_if_inv[OF inv, of ?P] fired by (simp add: eq set_eq_iff)
qed

lemma sample_timers_map: "timers_of sample_timers = [0x1234 \<mapsto> 5000]"
  using schedule_spec[OF device_manager_inv_init, of "0x1234" 5000]
  by (simp add: sample_timers_def case_prod_unfold timers_of_init no_address_def kUnknownDeviceShortAddr_def
      kMaxPendingForceRemove_def)

text \<open>
  C14: collecting the expired timers at any time returns the addresses whose deadline is reached,
  each once, disarms exactly those timers and keeps the others: no removal is lost to the size of
  the output array, and none fires twice.
\<close>

theorem force_remove_fires_exactly_once:
  assumes inv: "device_manager_inv m"
  shows "case collect_expired_force_remove now m of (fired, m') \<Rightarrow>
    device_manager_inv m' \<and> distinct fired \<and>
    set fired = {a. \<exists>t. timers_of m a = Some t \<and> is_deadline_reached now t} \<and>
    (\<forall>a. timers_of m' a = (if a \<in> set fired then None else timers_of m a))"
  by (rule force_remove_fires[OF assms])

lemma force_remove_fires_exactly_once_witness:
  "set (fst (collect_expired_force_remove 5000 sample_timers)) = {0x1234}"
  using force_remove_fires_exactly_once[OF sample_timers_inv, of 5000] deadline.due_at_deadline[of 5000]
  by (auto simp: case_prod_unfold sample_timers_map split: if_splits)

section \<open>A device that leaves\<close>

lemma handle_event_clears:
  assumes "device_manager_inv m" "ev_type e = kDeviceLeft" "\<not> no_address (ev_device_short_addr e)"
  shows "handle_event e m = (timers_of m (ev_device_short_addr e) \<noteq> None,
      clear_join_candidate (ev_device_short_addr e)
        (m\<lparr>dm_pending_force_remove := clear_if (\<lambda>p. fr_short_addr p = ev_device_short_addr e)
             (dm_pending_force_remove m)\<rparr>))"
proof -
  have "list_ex (\<lambda>p. fr_in_use p \<and> fr_short_addr p = ev_device_short_addr e) (dm_pending_force_remove m) =
      (timers_of m (ev_device_short_addr e) \<noteq> None)"
    by (auto simp: timers_of_def timer.slot_map_None_iff list_ex_length)
  then show ?thesis using assms(2,3) by (simp add: handle_event_def clear_if_def Let_def)
qed

lemma clear_join_inv [simp]: "device_manager_inv (clear_join_candidate a m) = device_manager_inv m"
  "timers_of (clear_join_candidate a m) = timers_of m"
  by (auto simp: clear_join_candidate_def device_manager_inv_def timers_of_def)

text \<open>
  When a device leaves by itself its forced removal is disarmed (the return value says whether
  one was armed), the timers of all other devices stay, and the next join of that address counts as
  a new one at any time.
\<close>

theorem leaving_disarms_the_timer:
  assumes inv: "device_manager_inv m" and e: "ev_type e = kDeviceLeft" "\<not> no_address (ev_device_short_addr e)"
  shows "case handle_event e m of (changed, m') \<Rightarrow>
    changed = (timers_of m (ev_device_short_addr e) \<noteq> None) \<and>
    timers_of m' = (timers_of m)(ev_device_short_addr e := None) \<and> device_manager_inv m' \<and>
    \<not> fst (is_duplicate_join_candidate (ev_device_short_addr e) now m')"
proof -
  let ?a = "ev_device_short_addr e"
  let ?m1 = "m\<lparr>dm_pending_force_remove := clear_if (\<lambda>p. fr_short_addr p = ?a) (dm_pending_force_remove m)\<rparr>"
  have u: "unique_slots fr_in_use fr_short_addr (dm_pending_force_remove m)"
    using inv by (simp add: device_manager_inv_def)
  have "timers_of ?m1 b = ((timers_of m)(?a := None)) b" for b
  proof (cases "slot_map fr_in_use fr_short_addr (dm_pending_force_remove m) b")
    case None
    then show ?thesis using timers_clear_if[OF inv, of _ b] by (simp add: timers_of_def)
  next
    case (Some p)
    then have "fr_short_addr p = b" using timer.slot_map_iff[OF u] by blast
    then show ?thesis using timers_clear_if[OF inv, of _ b] Some by (auto simp: timers_of_def)
  qed
  moreover have "find_index (\<lambda>x. jc_short_addr x = ?a)
      (dm_join_candidate_history (clear_join_candidate ?a ?m1)) = None"
    using e(2) by (auto simp: find_index_None_iff clear_join_candidate_def join_candidate_default_def no_address_def)
  ultimately show ?thesis
    using handle_event_clears[OF inv e] clear_if_inv[OF inv] e(2)
    by (auto simp: is_duplicate_join_candidate_def Let_def)
qed

lemma leaving_disarms_the_timer_witness:
  "timers_of (snd (handle_event (core_event_default\<lparr>ev_type := kDeviceLeft, ev_device_short_addr := 0x1234\<rparr>)
     sample_timers)) 0x1234 = None"
  using leaving_disarms_the_timer[OF sample_timers_inv,
      of "core_event_default\<lparr>ev_type := kDeviceLeft, ev_device_short_addr := 0x1234\<rparr>" 0]
  by (simp add: case_prod_unfold no_address_def kUnknownDeviceShortAddr_def)

lemma join_dedup:
  assumes inv: "device_manager_inv m" and first: "is_duplicate_join_candidate a t m = (False, m')"
  shows "fst (is_duplicate_join_candidate a (t + e) m') = (e \<le> kJoinDedupWindowMs)"
proof -
  let ?h = "dm_join_candidate_history m"
  have len: "length ?h = kJoinCandidateHistory" using inv by (simp add: device_manager_inv_def)
  have a: "\<not> no_address a" using first by (auto simp: is_duplicate_join_candidate_def)
  have old: "oldest_index ?h < length ?h"
  proof -
    have pick: "foldl (\<lambda>b i. if P i b then i else b) k xs \<in> insert k (set xs)" for P and k :: nat and xs
      by (induction xs arbitrary: k) auto
    have "oldest_index ?h \<in> insert 0 (set [0..<length ?h])"
      unfolding oldest_index_def by (rule pick)
    then show ?thesis using len by (auto simp: kJoinCandidateHistory_def)
  qed
  obtain i where i: "i < length ?h" "find_index (\<lambda>x. jc_short_addr x = a) (dm_join_candidate_history m') = Some i"
      "jc_seen_at_ms (dm_join_candidate_history m' ! i) = t"
  proof (cases "find_index (\<lambda>x. jc_short_addr x = a) ?h")
    case (Some i)
    note d = Some[unfolded find_index_Some_iff]
    have "m' = m\<lparr>dm_join_candidate_history := ?h[i := (?h ! i)\<lparr>jc_seen_at_ms := t\<rparr>]\<rparr>"
      using first a Some by (auto simp: is_duplicate_join_candidate_def Let_def split: if_splits)
    then show thesis using that[of i] d by (auto simp: find_index_Some_iff nth_list_update)
  next
    case None
    obtain i where i: "i < length ?h" "m' = m\<lparr>dm_join_candidate_history := ?h[i :=
        \<lparr>jc_short_addr = a, jc_seen_at_ms = t\<rparr>]\<rparr>"
      using first a None old find_index_SomeD(1)[of _ ?h]
      by (auto simp: is_duplicate_join_candidate_def Let_def split: option.splits)
    have "jc_short_addr (?h ! j) \<noteq> a" if "j < length ?h" for j
      using None that by (auto simp: find_index_None_iff)
    then show thesis using that[of i] i by (auto simp: find_index_Some_iff nth_list_update)
  qed
  then show ?thesis using a by (simp add: is_duplicate_join_candidate_def Let_def)
qed

text \<open>
  Once a join of an address was let through at some time, the joins of that address in the next
  five seconds are duplicates and a later one is let through again, also when the clock wraps
  around in between.
\<close>

theorem join_dedup_window:
  assumes inv: "device_manager_inv m" and first: "is_duplicate_join_candidate a t m = (False, m')"
  shows "fst (is_duplicate_join_candidate a (t + e) m') = (e \<le> kJoinDedupWindowMs)"
  by (rule join_dedup[OF assms])

lemma join_dedup_window_witness:
  "fst (is_duplicate_join_candidate 7 (4294967000 + 1000)
     (snd (is_duplicate_join_candidate 7 4294967000 device_manager_init))) = (1000 \<le> kJoinDedupWindowMs)"
proof -
  have "\<not> fst (is_duplicate_join_candidate 7 4294967000 device_manager_init)"
    by code_simp
  then have "is_duplicate_join_candidate 7 4294967000 device_manager_init =
      (False, snd (is_duplicate_join_candidate 7 4294967000 device_manager_init))"
    by (simp add: prod_eq_iff)
  from join_dedup_window[OF device_manager_inv_init this, of 1000] show ?thesis by simp
qed

end
