(* ===== verification/LocatorRegistry.thy ===== *)
theory LocatorRegistry
  imports DeviceIdentity SlotTable
begin

text \<open>
  \<^verbatim>\<open>components/service/device_locator_registry.cpp\<close>: which short address a device currently has,
  and which device currently owns a short address. A slot of the model is the pair of
  \<^verbatim>\<open>in_use_[i]\<close> and \<^verbatim>\<open>entries_[i]\<close>. An output pointer that is null drops the value the
  operation returns.
\<close>

datatype DeviceLocatorStatus = kLocatorOffline | kLocatorOnline

record DeviceLocatorEntry =
  le_device_id :: DeviceId
  le_short_addr :: u16
  le_status :: DeviceLocatorStatus
  le_mapping_revision :: u32

datatype DeviceLocatorRemapResult =
  kInserted | kUpdated | kDisplaced | kRemapInvalidArgument | kRemapNoCapacity

record LocatorSlot =
  ls_in_use :: bool
  ls_entry :: DeviceLocatorEntry

record DeviceLocatorRegistry =
  lr_slots :: "LocatorSlot list"
  lr_count :: nat
  lr_next_revision :: u32

definition kUnknownShortAddr :: u16 where "kUnknownShortAddr = 0xFFFF"

definition kMaxEntries :: nat where "kMaxEntries = 64"

definition locator_entry_default :: DeviceLocatorEntry where
  "locator_entry_default = \<lparr>le_device_id = no_device_id, le_short_addr = kUnknownShortAddr,
     le_status = kLocatorOffline, le_mapping_revision = 0\<rparr>"

definition locator_slot_default :: LocatorSlot where
  "locator_slot_default = \<lparr>ls_in_use = False, ls_entry = locator_entry_default\<rparr>"

definition locator_init :: DeviceLocatorRegistry where
  "locator_init = \<lparr>lr_slots = replicate kMaxEntries locator_slot_default, lr_count = 0, lr_next_revision = 1\<rparr>"

section \<open>Operations\<close>

definition ls_id :: "LocatorSlot \<Rightarrow> DeviceId" where
  "ls_id x = le_device_id (ls_entry x)"

definition find_slot_by_device_id :: "DeviceId \<Rightarrow> DeviceLocatorRegistry \<Rightarrow> nat option" where
  "find_slot_by_device_id device_id r = find_index (\<lambda>x. ls_in_use x \<and> ls_id x = device_id) (lr_slots r)"

definition owns :: "u16 \<Rightarrow> LocatorSlot \<Rightarrow> bool" where
  "owns a x \<longleftrightarrow> ls_in_use x \<and> le_status (ls_entry x) = kLocatorOnline \<and> le_short_addr (ls_entry x) = a"

definition find_slot_by_short_addr :: "u16 \<Rightarrow> DeviceLocatorRegistry \<Rightarrow> nat option" where
  "find_slot_by_short_addr a r = find_index (owns a) (lr_slots r)"

definition find_free_slot_index :: "DeviceLocatorRegistry \<Rightarrow> nat option" where
  "find_free_slot_index r = find_index (\<lambda>x. \<not> ls_in_use x) (lr_slots r)"

definition set_status :: "DeviceLocatorStatus \<Rightarrow> LocatorSlot \<Rightarrow> LocatorSlot" where
  "set_status s x = x\<lparr>ls_entry := (ls_entry x)\<lparr>le_status := s\<rparr>\<rparr>"

text \<open>The result and the revision written to \<^verbatim>\<open>*revision_out\<close>, if one is written.\<close>

definition remap ::
  "DeviceId \<Rightarrow> u16 \<Rightarrow> DeviceLocatorRegistry \<Rightarrow> DeviceLocatorRemapResult \<times> u32 option \<times> DeviceLocatorRegistry" where
  "remap device_id short_addr r =
     (if \<not> valid device_id \<or> short_addr = kUnknownShortAddr then (kRemapInvalidArgument, None, r)
      else
        let existing_slot = find_slot_by_device_id device_id r
        in case (case existing_slot of Some i \<Rightarrow> Some i | None \<Rightarrow> find_free_slot_index r) of
             None \<Rightarrow> (kRemapNoCapacity, None, r)
           | Some target \<Rightarrow>
               let owner = find_slot_by_short_addr short_addr r;
                   result = (if existing_slot \<noteq> None then kUpdated else kInserted);
                   (result1, slots1) =
                     (case owner of
                        Some o1 \<Rightarrow>
                          if o1 \<noteq> target
                          then (kDisplaced, (lr_slots r)[o1 := set_status kLocatorOffline (lr_slots r ! o1)])
                          else (result, lr_slots r)
                      | None \<Rightarrow> (result, lr_slots r));
                   count1 = (if \<not> ls_in_use (slots1 ! target) then lr_count r + 1 else lr_count r);
                   entry = \<lparr>le_device_id = device_id, le_short_addr = short_addr,
                            le_status = kLocatorOnline, le_mapping_revision = lr_next_revision r\<rparr>
               in (result1, Some (lr_next_revision r),
                   \<lparr>lr_slots = slots1[target := \<lparr>ls_in_use = True, ls_entry = entry\<rparr>],
                    lr_count = count1, lr_next_revision = lr_next_revision r + 1\<rparr>))"

definition mark_offline :: "DeviceId \<Rightarrow> DeviceLocatorRegistry \<Rightarrow> bool \<times> DeviceLocatorRegistry" where
  "mark_offline device_id r =
     (case find_slot_by_device_id device_id r of
        None \<Rightarrow> (False, r)
      | Some i \<Rightarrow> (True, r\<lparr>lr_slots := (lr_slots r)[i := set_status kLocatorOffline (lr_slots r ! i)]\<rparr>))"

definition remove_locator :: "DeviceId \<Rightarrow> DeviceLocatorRegistry \<Rightarrow> bool \<times> DeviceLocatorRegistry" where
  "remove_locator device_id r =
     (case find_slot_by_device_id device_id r of
        None \<Rightarrow> (False, r)
      | Some i \<Rightarrow> (True, r\<lparr>lr_slots := (lr_slots r)[i := locator_slot_default], lr_count := lr_count r - 1\<rparr>))"

definition find_by_device_id :: "DeviceId \<Rightarrow> DeviceLocatorRegistry \<Rightarrow> DeviceLocatorEntry option" where
  "find_by_device_id device_id r =
     map_option (\<lambda>i. ls_entry (lr_slots r ! i)) (find_slot_by_device_id device_id r)"

definition find_by_short_addr :: "u16 \<Rightarrow> DeviceLocatorRegistry \<Rightarrow> DeviceLocatorEntry option" where
  "find_by_short_addr a r = map_option (\<lambda>i. ls_entry (lr_slots r ! i)) (find_slot_by_short_addr a r)"

definition locator_size :: "DeviceLocatorRegistry \<Rightarrow> nat" where
  "locator_size r = lr_count r"

definition clear_locators :: "DeviceLocatorRegistry \<Rightarrow> DeviceLocatorRegistry" where
  "clear_locators r = locator_init"

section \<open>Invariant\<close>

interpretation loc: slot_table ls_in_use ls_id locator_slot_default
  by unfold_locales (simp add: locator_slot_default_def)

definition one_owner :: "LocatorSlot list \<Rightarrow> bool" where
  "one_owner xs \<longleftrightarrow>
     (\<forall>i < length xs. \<forall>j < length xs. \<forall>a. owns a (xs ! i) \<and> owns a (xs ! j) \<longrightarrow> i = j)"

definition locator_inv :: "DeviceLocatorRegistry \<Rightarrow> bool" where
  "locator_inv r \<longleftrightarrow> length (lr_slots r) = kMaxEntries \<and>
     unique_slots ls_in_use ls_id (lr_slots r) \<and> one_owner (lr_slots r) \<and>
     lr_count r = count_where ls_in_use (lr_slots r)"

lemma locator_default_free [simp]: "\<not> ls_in_use locator_slot_default" "\<not> owns a locator_slot_default"
  by (simp_all add: locator_slot_default_def owns_def)

lemma locator_inv_init: "locator_inv locator_init"
  by (simp add: locator_inv_def locator_init_def loc.empty_unique one_owner_def)

lemma set_status_simps [simp]:
  "ls_in_use (set_status s x) = ls_in_use x" "ls_id (set_status s x) = ls_id x"
  "\<not> owns a (set_status kLocatorOffline x)"
  by (simp_all add: set_status_def ls_id_def owns_def)

lemma one_ownerD: "one_owner xs \<Longrightarrow> i < length xs \<Longrightarrow> j < length xs \<Longrightarrow> owns a (xs ! i) \<Longrightarrow> owns a (xs ! j) \<Longrightarrow> i = j"
  unfolding one_owner_def by blast

lemma one_owner_update:
  assumes "one_owner xs" "\<And>j a. j < length xs \<Longrightarrow> j \<noteq> i \<Longrightarrow> owns a y \<Longrightarrow> \<not> owns a (xs ! j)"
  shows "one_owner (xs[i := y])"
  unfolding one_owner_def
proof (intro allI impI)
  fix p q a
  assume "p < length (xs[i := y])" "q < length (xs[i := y])"
    "owns a (xs[i := y] ! p) \<and> owns a (xs[i := y] ! q)"
  then show "p = q" using one_ownerD[OF assms(1), of p q a] assms(2)[of p a] assms(2)[of q a]
    by (cases "p = i"; cases "q = i") (auto simp: nth_list_update)
qed

lemma find_slot_by_device_id_eq:
  "find_slot_by_device_id i r = find_slot ls_in_use ls_id i (lr_slots r)"
  by (simp add: find_slot_by_device_id_def find_slot_def)

text \<open>The table as a map from identities to entries.\<close>

lemma find_by_device_id_map:
  "find_by_device_id i r = map_option ls_entry (slot_map ls_in_use ls_id (lr_slots r) i)"
  by (simp add: find_by_device_id_def find_slot_by_device_id_eq slot_map_def option.map_comp comp_def)

lemma find_by_device_id_SomeD:
  assumes "locator_inv r" "find_by_device_id i r = Some e"
  obtains k where "k < length (lr_slots r)" "ls_in_use (lr_slots r ! k)" "ls_id (lr_slots r ! k) = i"
    "ls_entry (lr_slots r ! k) = e" "find_slot ls_in_use ls_id i (lr_slots r) = Some k"
  using assms loc.find_slotD[of i "lr_slots r"]
  by (auto simp: find_by_device_id_def find_slot_by_device_id_eq)

lemma find_by_short_addr_iff:
  assumes "locator_inv r"
  shows "find_by_short_addr a r = Some e \<longleftrightarrow>
    find_by_device_id (le_device_id e) r = Some e \<and> le_status e = kLocatorOnline \<and> le_short_addr e = a"
    (is "?l \<longleftrightarrow> ?r")
proof
  have u: "unique_slots ls_in_use ls_id (lr_slots r)" "one_owner (lr_slots r)"
    using assms by (simp_all add: locator_inv_def)
  show ?r if ?l
  proof -
    from that obtain i where i: "find_index (owns a) (lr_slots r) = Some i" "ls_entry (lr_slots r ! i) = e"
      by (auto simp: find_by_short_addr_def find_slot_by_short_addr_def)
    note d = find_index_SomeD[OF i(1)]
    then have "slot_map ls_in_use ls_id (lr_slots r) (le_device_id e) = Some (lr_slots r ! i)"
      unfolding loc.slot_map_iff[OF u(1)] i(2)[symmetric]
      by (intro exI[of _ i]) (simp add: owns_def ls_id_def)
    then show ?thesis using d i(2) by (simp add: find_by_device_id_map owns_def)
  qed
  show ?l if h: ?r
  proof -
    obtain k where k: "k < length (lr_slots r)" "ls_in_use (lr_slots r ! k)" "ls_entry (lr_slots r ! k) = e"
      by (rule find_by_device_id_SomeD[OF assms conjunct1[OF h]])
    then have o: "owns a (lr_slots r ! k)" using h by (simp add: owns_def)
    have "find_index (owns a) (lr_slots r) = Some k"
    proof (rule find_index_unique[OF k(1)])
      show "owns a (lr_slots r ! k)" by (rule o)
      show "j = k" if "j < length (lr_slots r)" "owns a (lr_slots r ! j)" for j
        by (rule one_ownerD[OF u(2) that(1) k(1) that(2) o])
    qed
    then show ?thesis using k(3) by (simp add: find_by_short_addr_def find_slot_by_short_addr_def)
  qed
qed


section \<open>Remapping\<close>

text \<open>The table after the previous owner of the short address was marked offline.\<close>

definition displace :: "u16 \<Rightarrow> nat \<Rightarrow> LocatorSlot list \<Rightarrow> LocatorSlot list" where
  "displace a target xs =
     (case find_index (owns a) xs of
        Some o1 \<Rightarrow> if o1 \<noteq> target then xs[o1 := set_status kLocatorOffline (xs ! o1)] else xs
      | None \<Rightarrow> xs)"

lemma displace_nth:
  assumes "one_owner xs" "j < length xs"
  shows "displace a target xs ! j =
    (if owns a (xs ! j) \<and> j \<noteq> target then set_status kLocatorOffline (xs ! j) else xs ! j)"
proof (cases "find_index (owns a) xs")
  case None
  then show ?thesis using find_index_nth_None[OF None assms(2)] by (simp add: displace_def)
next
  case (Some o1)
  note d = find_index_SomeD[OF Some]
  have "owns a (xs ! j) \<longleftrightarrow> j = o1" using one_ownerD[OF assms(1) assms(2) d(1)] d(2) by auto
  then show ?thesis using Some d assms(2) by (auto simp: displace_def nth_list_update)
qed

lemma displace_length [simp]: "length (displace a target xs) = length xs"
  by (simp add: displace_def split: option.split)

lemma displace_keeps:
  assumes "one_owner xs"
  shows "j < length xs \<Longrightarrow> ls_in_use (displace a target xs ! j) = ls_in_use (xs ! j)"
    and "j < length xs \<Longrightarrow> ls_id (displace a target xs ! j) = ls_id (xs ! j)"
    and "find_slot ls_in_use ls_id i (displace a target xs) = find_slot ls_in_use ls_id i xs"
    and "unique_slots ls_in_use ls_id xs \<Longrightarrow> unique_slots ls_in_use ls_id (displace a target xs)"
    and "count_where ls_in_use (displace a target xs) = count_where ls_in_use xs"
    and "one_owner (displace a target xs)"
proof -
  show u: "j < length xs \<Longrightarrow> ls_in_use (displace a target xs ! j) = ls_in_use (xs ! j)" for j
    by (simp add: displace_nth[OF assms])
  show i: "j < length xs \<Longrightarrow> ls_id (displace a target xs ! j) = ls_id (xs ! j)" for j
    by (simp add: displace_nth[OF assms])
  show "find_slot ls_in_use ls_id i (displace a target xs) = find_slot ls_in_use ls_id i xs"
    unfolding find_slot_def by (rule find_index_cong_nth) (simp_all add: u i)
  show "unique_slots ls_in_use ls_id xs \<Longrightarrow> unique_slots ls_in_use ls_id (displace a target xs)"
    using u i unfolding unique_slots_def displace_length by metis
  show "count_where ls_in_use (displace a target xs) = count_where ls_in_use xs"
  proof (cases "find_index (owns a) xs")
    case None
    then show ?thesis by (simp add: displace_def)
  next
    case (Some o1)
    then show ?thesis using find_index_SomeD[OF Some] by (simp add: displace_def)
  qed
  have "owns b (displace a target xs ! j) \<Longrightarrow> owns b (xs ! j)" if "j < length xs" for b j
    using that by (auto simp: displace_nth[OF assms] split: if_splits)
  then show "one_owner (displace a target xs)"
    using one_ownerD[OF assms] unfolding one_owner_def displace_length by blast
qed

definition new_slot :: "DeviceId \<Rightarrow> u16 \<Rightarrow> u32 \<Rightarrow> LocatorSlot" where
  "new_slot i a n = \<lparr>ls_in_use = True, ls_entry = \<lparr>le_device_id = i, le_short_addr = a,
     le_status = kLocatorOnline, le_mapping_revision = n\<rparr>\<rparr>"

lemma new_slot_simps [simp]:
  "ls_in_use (new_slot i a n)" "ls_id (new_slot i a n) = i" "owns b (new_slot i a n) = (b = a)"
  by (auto simp: new_slot_def ls_id_def owns_def)

definition remap_target :: "DeviceId \<Rightarrow> DeviceLocatorRegistry \<Rightarrow> nat option" where
  "remap_target i r = (case find_slot_by_device_id i r of Some k \<Rightarrow> Some k | None \<Rightarrow> find_free_slot_index r)"

lemma remap_target_writable:
  assumes "remap_target i r = Some k"
  shows "loc.writable k (new_slot i a n) (lr_slots r)"
  using assms loc.find_slotD[of i "lr_slots r" k] find_index_SomeD[of "\<lambda>x. \<not> ls_in_use x" "lr_slots r" k]
  by (auto simp: remap_target_def loc.writable_def find_slot_by_device_id_eq find_free_slot_index_def
      split: option.splits)

lemma remap_success:
  assumes inv: "locator_inv r" and ok: "valid i" "a \<noteq> kUnknownShortAddr" and k: "remap_target i r = Some k"
  defines "zs \<equiv> (displace a k (lr_slots r))[k := new_slot i a (lr_next_revision r)]"
  shows "unique_slots ls_in_use ls_id zs" "one_owner zs"
    and "slot_map ls_in_use ls_id zs = (slot_map ls_in_use ls_id (displace a k (lr_slots r)))
           (i \<mapsto> new_slot i a (lr_next_revision r))"
    and "count_where ls_in_use zs =
      (if find_slot_by_device_id i r = None then Suc (lr_count r) else lr_count r)"
proof -
  let ?xs = "lr_slots r" and ?ys = "displace a k (lr_slots r)" and ?n = "new_slot i a (lr_next_revision r)"
  have o1: "one_owner ?xs" and u: "unique_slots ls_in_use ls_id ?xs" and cnt: "lr_count r = count_where ls_in_use ?xs"
    using inv by (simp_all add: locator_inv_def)
  note d = displace_keeps[OF o1]
  have wx: "loc.writable k ?n ?xs" by (rule remap_target_writable[OF k])
  then have kl: "k < length ?xs" by (simp add: loc.writable_def)
  have w: "loc.writable k ?n ?ys" using wx d(1)[OF kl] by (auto simp: loc.writable_def d(3))
  show "unique_slots ls_in_use ls_id zs"
    unfolding zs_def by (rule loc.write_unique[OF d(4)[OF u] w])
  show "slot_map ls_in_use ls_id zs = (slot_map ls_in_use ls_id ?ys)(i \<mapsto> ?n)"
    using loc.write_map[OF d(4)[OF u] w] by (simp add: zs_def)
  have "\<not> owns a (?ys ! j)" if "j < length ?xs" "j \<noteq> k" for j
    using that by (simp add: displace_nth[OF o1])
  then show "one_owner zs" unfolding zs_def by (intro one_owner_update[OF d(6)]) auto
  show "count_where ls_in_use zs = (if find_slot_by_device_id i r = None then Suc (lr_count r) else lr_count r)"
    using loc.write_count[OF w] by (simp add: zs_def d(3,5) cnt find_slot_by_device_id_eq split: option.split)
qed

lemma displace_map:
  assumes inv: "locator_inv r" and k: "remap_target i r = Some k" and j: "j \<noteq> i"
  shows "map_option ls_entry (slot_map ls_in_use ls_id (displace a k (lr_slots r)) j) =
    map_option (\<lambda>e. if le_status e = kLocatorOnline \<and> le_short_addr e = a
                    then e\<lparr>le_status := kLocatorOffline\<rparr> else e) (find_by_device_id j r)"
proof -
  have o1: "one_owner (lr_slots r)" using inv by (simp add: locator_inv_def)
  show ?thesis
  proof (cases "find_slot ls_in_use ls_id j (lr_slots r)")
    case None
    then show ?thesis
      by (simp add: slot_map_def displace_keeps(3)[OF o1] find_by_device_id_def find_slot_by_device_id_eq)
  next
    case (Some m)
    note d = loc.find_slotD[OF Some]
    have "m \<noteq> k"
      using remap_target_writable[OF k] d j loc.find_slotD[of i "lr_slots r" k] by (auto simp: loc.writable_def)
    then show ?thesis
      using Some d by (auto simp: slot_map_def displace_keeps(3)[OF o1] find_by_device_id_def
          find_slot_by_device_id_eq displace_nth[OF o1] owns_def set_status_def)
  qed
qed

definition remap_verdict :: "DeviceId \<Rightarrow> u16 \<Rightarrow> DeviceLocatorRegistry \<Rightarrow> DeviceLocatorRemapResult" where
  "remap_verdict i a r =
     (if \<not> valid i \<or> a = kUnknownShortAddr then kRemapInvalidArgument
      else if find_by_device_id i r = None \<and> locator_size r = kMaxEntries then kRemapNoCapacity
      else if \<exists>e. find_by_short_addr a r = Some e \<and> le_device_id e \<noteq> i then kDisplaced
      else if find_by_device_id i r = None then kInserted else kUpdated)"


lemma remap_eq:
  assumes "valid i" "a \<noteq> kUnknownShortAddr" "remap_target i r = Some k"
  shows "remap i a r =
    (if \<exists>o1. find_slot_by_short_addr a r = Some o1 \<and> o1 \<noteq> k then kDisplaced
     else if find_slot_by_device_id i r \<noteq> None then kUpdated else kInserted,
     Some (lr_next_revision r),
     \<lparr>lr_slots = (displace a k (lr_slots r))[k := new_slot i a (lr_next_revision r)],
      lr_count = (if \<not> ls_in_use (displace a k (lr_slots r) ! k) then lr_count r + 1 else lr_count r),
      lr_next_revision = lr_next_revision r + 1\<rparr>)"
  using assms unfolding remap_def remap_target_def displace_def new_slot_def find_slot_by_short_addr_def Let_def
  by (simp split: option.split)

lemma remap_target_None:
  assumes "locator_inv r"
  shows "remap_target i r = None \<longleftrightarrow> find_by_device_id i r = None \<and> locator_size r = kMaxEntries"
proof -
  have "find_free_slot_index r = None \<longleftrightarrow> locator_size r = kMaxEntries"
    using find_index_free_iff[of ls_in_use "lr_slots r"] assms count_where_le[of ls_in_use "lr_slots r"]
    by (cases "find_free_slot_index r") (auto simp: find_free_slot_index_def locator_size_def locator_inv_def)
  then show ?thesis by (auto simp: remap_target_def find_by_device_id_def split: option.split)
qed

lemma remap_owner:
  assumes inv: "locator_inv r" and k: "remap_target i r = Some k"
  shows "(\<exists>o1. find_slot_by_short_addr a r = Some o1 \<and> o1 \<noteq> k) \<longleftrightarrow>
    (\<exists>e. find_by_short_addr a r = Some e \<and> le_device_id e \<noteq> i)"
proof (cases "find_slot_by_short_addr a r")
  case None
  then show ?thesis by (simp add: find_by_short_addr_def)
next
  case (Some o1)
  have u: "unique_slots ls_in_use ls_id (lr_slots r)" using inv by (simp add: locator_inv_def)
  note d = find_index_SomeD[OF Some[unfolded find_slot_by_short_addr_def]]
  have "le_device_id (ls_entry (lr_slots r ! o1)) = i \<longleftrightarrow> o1 = k"
  proof
    assume "le_device_id (ls_entry (lr_slots r ! o1)) = i"
    then have "find_slot ls_in_use ls_id i (lr_slots r) = Some o1"
      using d loc.find_slot_iff[OF u] by (simp add: owns_def ls_id_def)
    then show "o1 = k" using k by (simp add: remap_target_def find_slot_by_device_id_eq)
  next
    assume "o1 = k"
    then show "le_device_id (ls_entry (lr_slots r ! o1)) = i"
      using remap_target_writable[OF k, of a 0] d loc.find_slotD(3)[of i "lr_slots r" k]
      by (simp add: loc.writable_def owns_def flip: ls_id_def)
  qed
  then show ?thesis using Some by (simp add: find_by_short_addr_def)
qed

lemma remap_spec:
  assumes inv: "locator_inv r"
  shows "case remap i a r of (res, rv, r') \<Rightarrow>
    locator_inv r' \<and> res = remap_verdict i a r \<and>
    (if res \<in> {kRemapInvalidArgument, kRemapNoCapacity} then r' = r \<and> rv = None
     else rv = Some (lr_next_revision r) \<and>
       find_by_device_id i r' = Some \<lparr>le_device_id = i, le_short_addr = a, le_status = kLocatorOnline,
         le_mapping_revision = lr_next_revision r\<rparr> \<and>
       find_by_short_addr a r' = find_by_device_id i r' \<and>
       (\<forall>j. j \<noteq> i \<longrightarrow> find_by_device_id j r' =
          map_option (\<lambda>e. if le_status e = kLocatorOnline \<and> le_short_addr e = a
                          then e\<lparr>le_status := kLocatorOffline\<rparr> else e) (find_by_device_id j r)))"
proof (cases "valid i \<and> a \<noteq> kUnknownShortAddr")
  case False
  then show ?thesis using inv by (auto simp: remap_def remap_verdict_def)
next
  case ok: True
  show ?thesis
  proof (cases "remap_target i r")
    case None
    then have "remap i a r = (kRemapNoCapacity, None, r)"
      using ok by (simp add: remap_def remap_target_def split: option.splits)
    moreover have "remap_verdict i a r = kRemapNoCapacity"
      using ok remap_target_None[OF inv, of i] None by (simp add: remap_verdict_def)
    ultimately show ?thesis using inv by simp
  next
    case (Some k)
    note eq = remap_eq[OF conjunct1[OF ok] conjunct2[OF ok] Some]
    note s = remap_success[OF inv conjunct1[OF ok] conjunct2[OF ok] Some]
    let ?r' = "snd (snd (remap i a r))"
    have verdict: "fst (remap i a r) = remap_verdict i a r"
      using ok remap_target_None[OF inv, of i] Some remap_owner[OF inv Some, of a]
      by (auto simp: eq remap_verdict_def find_by_device_id_def)
    have good: "remap_verdict i a r \<notin> {kRemapInvalidArgument, kRemapNoCapacity}"
      using ok remap_target_None[OF inv, of i] Some by (auto simp: remap_verdict_def)
    have o1: "one_owner (lr_slots r)" and len: "length (lr_slots r) = kMaxEntries"
      using inv by (simp_all add: locator_inv_def)
    have kl: "k < length (lr_slots r)" using remap_target_writable[OF Some] by (simp add: loc.writable_def)
    have use: "ls_in_use (lr_slots r ! k) = (find_slot_by_device_id i r \<noteq> None)"
      using Some loc.find_slotD[of i "lr_slots r" k] find_index_SomeD[of "\<lambda>x. \<not> ls_in_use x" "lr_slots r" k]
      by (auto simp: remap_target_def find_slot_by_device_id_eq find_free_slot_index_def split: option.splits)
    have inv': "locator_inv ?r'"
      using s len use displace_keeps(1)[OF o1 kl] by (simp add: eq locator_inv_def)
    have mine: "find_by_device_id i ?r' = Some \<lparr>le_device_id = i, le_short_addr = a,
        le_status = kLocatorOnline, le_mapping_revision = lr_next_revision r\<rparr>"
      using s(3) by (simp add: eq find_by_device_id_map new_slot_def)
    have others: "find_by_device_id j ?r' =
        map_option (\<lambda>e. if le_status e = kLocatorOnline \<and> le_short_addr e = a
                        then e\<lparr>le_status := kLocatorOffline\<rparr> else e) (find_by_device_id j r)" if "j \<noteq> i" for j
      using s(3) displace_map[OF inv Some that, of a] that by (simp add: eq find_by_device_id_map)
    have reverse: "find_by_short_addr a ?r' = find_by_device_id i ?r'"
      using mine by (simp add: find_by_short_addr_iff[OF inv'])
    have rev: "fst (snd (remap i a r)) = Some (lr_next_revision r)" by (simp add: eq)
    show ?thesis using verdict good inv' mine others reverse rev by (simp add: case_prod_unfold)
  qed
qed

text \<open>
  C15: remapping a device to a short address answers with the right verdict and, on success, makes
  the mapping hold in both directions under a new revision; a device that held the address before
  only goes offline (its entry is otherwise kept, nothing of it moves to the new owner), and no
  other entry changes. A refused remap changes nothing.
\<close>

theorem remap_contract:
  assumes inv: "locator_inv r"
  shows "case remap i a r of (res, rv, r') \<Rightarrow>
    locator_inv r' \<and> res = remap_verdict i a r \<and>
    (if res \<in> {kRemapInvalidArgument, kRemapNoCapacity} then r' = r \<and> rv = None
     else rv = Some (lr_next_revision r) \<and>
       find_by_device_id i r' = Some \<lparr>le_device_id = i, le_short_addr = a, le_status = kLocatorOnline,
         le_mapping_revision = lr_next_revision r\<rparr> \<and>
       find_by_short_addr a r' = find_by_device_id i r' \<and>
       (\<forall>j. j \<noteq> i \<longrightarrow> find_by_device_id j r' =
          map_option (\<lambda>e. if le_status e = kLocatorOnline \<and> le_short_addr e = a
                          then e\<lparr>le_status := kLocatorOffline\<rparr> else e) (find_by_device_id j r)))"
  by (rule remap_spec[OF inv])

definition locator_a :: DeviceId where "locator_a = DeviceId 0 0x12 0x4B 0 0 0 0 1"

definition locator_b :: DeviceId where "locator_b = DeviceId 0 0x12 0x4B 0 0 0 0 2"

definition sample_locators :: DeviceLocatorRegistry where
  "sample_locators = snd (snd (remap locator_a 7 locator_init))"

lemma sample_locators_inv: "locator_inv sample_locators"
  using remap_spec[OF locator_inv_init, of locator_a 7] by (simp add: sample_locators_def case_prod_unfold)

lemma sample_locators_valid: "valid locator_a" "valid locator_b" "locator_a \<noteq> locator_b"
  unfolding locator_a_def locator_b_def by code_simp+

text \<open>A second device takes the address: the first is displaced.\<close>

lemma remap_contract_witness:
  "fst (remap locator_b 7 sample_locators) = kDisplaced"
proof -
  have none: "find_by_device_id j locator_init = None" for j
    by (simp add: find_by_device_id_map locator_init_def loc.empty_map)
  have own: "find_by_short_addr a locator_init = None" for a
    using find_by_short_addr_iff[OF locator_inv_init, of a] by (auto simp: none)
  have empty: "locator_size locator_init \<noteq> kMaxEntries" "lr_next_revision locator_init = 1"
    by (simp_all add: locator_size_def locator_init_def kMaxEntries_def)
  have v: "remap_verdict locator_a 7 locator_init = kInserted"
    using sample_locators_valid
    by (simp add: remap_verdict_def none own kUnknownShortAddr_def empty)
  have a: "find_by_short_addr 7 sample_locators = Some \<lparr>le_device_id = locator_a, le_short_addr = 7,
      le_status = kLocatorOnline, le_mapping_revision = 1\<rparr>" "find_by_device_id locator_b sample_locators = None"
    using remap_spec[OF locator_inv_init, of locator_a 7] v sample_locators_valid none
    by (simp_all add: sample_locators_def case_prod_unfold empty)
  have "locator_size sample_locators \<noteq> kMaxEntries"
  proof -
    have "locator_size sample_locators \<le> 1"
      unfolding sample_locators_def remap_def locator_size_def Let_def
      by (simp add: locator_init_def case_prod_unfold split: option.split)
    then show ?thesis by (simp add: kMaxEntries_def)
  qed
  then have "remap_verdict locator_b 7 sample_locators = kDisplaced"
    using a sample_locators_valid by (simp add: remap_verdict_def kUnknownShortAddr_def)
  then show ?thesis
    using remap_contract[OF sample_locators_inv, of locator_b 7] by (simp add: case_prod_unfold)
qed

end
