(* ===== verification/PackedQueue.thy ===== *)
theory PackedQueue
  imports Prelude
begin

text \<open>
  The bounded logs of the result store: a fixed array whose first \<open>count\<close> entries are live,
  oldest first. Appending to a full log shifts everything one place left and so drops the oldest
  entry; taking entry \<open>i\<close> shifts the entries behind it. The shift loops of the code are written
  out over the array; the lemmas show that they are list operations on the live prefix.
\<close>

record 'a packed =
  pk_arr :: "'a list"
  pk_len :: nat

definition packed_empty :: "nat \<Rightarrow> 'a \<Rightarrow> 'a packed" where
  "packed_empty cap blank = \<lparr>pk_arr = replicate cap blank, pk_len = 0\<rparr>"

text \<open>\<^verbatim>\<open>for (j = i + 1; j < n; ++j) a[j - 1] = a[j];\<close>\<close>

function shift_loop :: "nat \<Rightarrow> nat \<Rightarrow> 'a list \<Rightarrow> 'a list" where
  "shift_loop j n a = (if j < n then shift_loop (j + 1) n (a[j - 1 := a ! j]) else a)"
  by pat_completeness auto
termination by (relation "measure (\<lambda>(j, n, a). n - j)") auto

declare shift_loop.simps [simp del]

definition packed_remove :: "nat \<Rightarrow> 'a packed \<Rightarrow> 'a packed" where
  "packed_remove i q =
     q\<lparr>pk_arr := shift_loop (i + 1) (pk_len q) (pk_arr q), pk_len := pk_len q - 1\<rparr>"

text \<open>Drop the oldest entry when full, then write behind the last live entry.\<close>

definition packed_append :: "nat \<Rightarrow> 'a \<Rightarrow> 'a packed \<Rightarrow> 'a packed" where
  "packed_append cap x q =
     (let q' = (if pk_len q \<ge> cap
                then q\<lparr>pk_arr := shift_loop 1 (pk_len q) (pk_arr q), pk_len := pk_len q - 1\<rparr>
                else q)
      in q'\<lparr>pk_arr := (pk_arr q')[pk_len q' := x], pk_len := pk_len q' + 1\<rparr>)"

definition packed_find :: "('a \<Rightarrow> bool) \<Rightarrow> 'a packed \<Rightarrow> nat option" where
  "packed_find P q = find_index P (take (pk_len q) (pk_arr q))"

definition packed_write :: "nat \<Rightarrow> 'a \<Rightarrow> 'a packed \<Rightarrow> 'a packed" where
  "packed_write i x q = q\<lparr>pk_arr := (pk_arr q)[i := x]\<rparr>"

definition packed_list :: "'a packed \<Rightarrow> 'a list" where
  "packed_list q = take (pk_len q) (pk_arr q)"

definition packed_inv :: "nat \<Rightarrow> 'a packed \<Rightarrow> bool" where
  "packed_inv cap q \<longleftrightarrow> 0 < cap \<and> length (pk_arr q) = cap \<and> pk_len q \<le> cap"

lemma packed_inv_empty: "0 < cap \<Longrightarrow> packed_inv cap (packed_empty cap b)"
  by (simp add: packed_inv_def packed_empty_def)

lemma packed_list_empty [simp]: "packed_list (packed_empty cap b) = []"
  by (simp add: packed_list_def packed_empty_def)

lemma length_packed_list: "packed_inv cap q \<Longrightarrow> length (packed_list q) = pk_len q"
  by (simp add: packed_list_def packed_inv_def)

lemma length_shift_loop [simp]: "length (shift_loop j n a) = length a"
proof (induction j n a rule: shift_loop.induct)
  case (1 j n a)
  then show ?case by (subst shift_loop.simps) simp
qed

text \<open>The loop started at \<open>i + 1\<close> removes entry \<open>i\<close> from the live prefix.\<close>

lemma nth_shift_loop:
  assumes "0 < j" "j \<le> n" "n \<le> length a" "k < n - 1"
  shows "shift_loop j n a ! k = (if k < j - 1 then a ! k else a ! Suc k)"
  using assms
proof (induction j n a rule: shift_loop.induct)
  case (1 j n a)
  show ?case
  proof (cases "j < n")
    case True
    have "shift_loop j n a ! k = shift_loop (j + 1) n (a[j - 1 := a ! j]) ! k"
      using True by (subst shift_loop.simps) simp
    also have "\<dots> = (if k < j then a[j - 1 := a ! j] ! k else a[j - 1 := a ! j] ! Suc k)"
      using "1.IH"[OF True] "1.prems" True by simp
    also have "\<dots> = (if k < j - 1 then a ! k else a ! Suc k)"
      using "1.prems" True by (cases "k = j - 1") (auto simp: nth_list_update)
    finally show ?thesis .
  next
    case False
    then show ?thesis using "1.prems" by (subst shift_loop.simps) simp
  qed
qed

lemma take_shift_loop:
  assumes "i < n" "n \<le> length a"
  shows "take (n - 1) (shift_loop (i + 1) n a) = take i (take n a) @ drop (Suc i) (take n a)"
proof (rule nth_equalityI)
  fix k assume "k < length (take (n - 1) (shift_loop (i + 1) n a))"
  then have "k < n - 1" using assms by simp
  then show "take (n - 1) (shift_loop (i + 1) n a) ! k =
             (take i (take n a) @ drop (Suc i) (take n a)) ! k"
    using assms nth_shift_loop[of "i + 1" n a k] by (simp add: nth_append min_def)
qed (use assms in auto)

lemma packed_remove_list:
  assumes "packed_inv cap q" "i < pk_len q"
  shows "packed_list (packed_remove i q) =
    take i (packed_list q) @ drop (Suc i) (packed_list q)"
  using take_shift_loop[of i "pk_len q" "pk_arr q"] assms
  by (simp add: packed_list_def packed_remove_def packed_inv_def)

lemma packed_remove_inv: "packed_inv cap q \<Longrightarrow> packed_inv cap (packed_remove i q)"
  by (auto simp: packed_inv_def packed_remove_def)

lemma packed_append_inv: "packed_inv cap q \<Longrightarrow> packed_inv cap (packed_append cap x q)"
  by (auto simp: packed_inv_def packed_append_def Let_def)

lemma take_Suc_update: "m < length a \<Longrightarrow> take (Suc m) (a[m := x]) = take m a @ [x]"
  by (simp add: take_Suc_conv_app_nth)

lemma packed_append_list:
  assumes inv: "packed_inv cap q"
  shows "packed_list (packed_append cap x q) =
    (if length (packed_list q) = cap then tl (packed_list q) else packed_list q) @ [x]"
proof (cases "pk_len q = cap")
  case True
  define a where "a = shift_loop 1 cap (pk_arr q)"
  have cap: "0 < cap" "length (pk_arr q) = cap" using inv by (auto simp: packed_inv_def)
  have "take (cap - 1) a = tl (pk_arr q)"
    using take_shift_loop[of 0 cap "pk_arr q"] cap by (simp add: a_def drop_Suc)
  moreover have "packed_list (packed_append cap x q) = take (Suc (cap - 1)) (a[cap - 1 := x])"
    using True by (simp add: packed_append_def packed_list_def a_def)
  moreover have "cap - 1 < length a" using cap by (simp add: a_def)
  ultimately show ?thesis
    using True cap by (simp only: take_Suc_update) (simp add: packed_list_def)
next
  case False
  then have lt: "pk_len q < length (pk_arr q)" "pk_len q < cap"
    using inv by (auto simp: packed_inv_def)
  then have "packed_list (packed_append cap x q) = packed_list q @ [x]"
    by (simp add: packed_append_def packed_list_def take_Suc_update)
  with lt inv show ?thesis by (simp add: length_packed_list)
qed

lemma packed_find_Some:
  assumes "packed_inv cap q" "packed_find P q = Some i"
  shows "i < pk_len q" "P (packed_list q ! i)" "packed_list q ! i = pk_arr q ! i"
proof -
  have "i < length (packed_list q)" "P (packed_list q ! i)"
    using find_index_SomeD[OF assms(2)[unfolded packed_find_def, folded packed_list_def]] by auto
  then show "i < pk_len q" "P (packed_list q ! i)" "packed_list q ! i = pk_arr q ! i"
    using assms(1) by (simp_all add: packed_list_def packed_inv_def)
qed

lemma packed_find_None: "packed_find P q = None \<longleftrightarrow> (\<forall>x \<in> set (packed_list q). \<not> P x)"
  by (simp add: packed_find_def packed_list_def find_index_None_iff)

lemma packed_write_list: "i < pk_len q \<Longrightarrow> packed_list (packed_write i x q) = (packed_list q)[i := x]"
  by (simp add: packed_list_def packed_write_def take_update_swap)

lemma packed_write_inv: "packed_inv cap q \<Longrightarrow> packed_inv cap (packed_write i x q)"
  by (simp add: packed_inv_def packed_write_def)

end
