(* ===== verification/ResultStore.thy ===== *)
theory ResultStore
  imports PackedQueue
begin

text \<open>
  \<^verbatim>\<open>components/service/operation_result_store.cpp\<close>: the results of asynchronous operations, kept
  until the interface that asked for them takes them, and the poll status of operations still
  running. There are four result queues (configuration, network, OTA, RCP update) and three poll
  queues, each a packed array. The store only reads the request id of a result and copies the rest
  as a whole, so a result is its id and a body of any type. All operations but
  \<open>next_request_id\<close> hold the lock of the class, and \<open>next_request_id\<close> is one compare-and-swap;
  the functions below are those atomic steps.
\<close>

record 'p OpResult =
  or_request_id :: u32
  or_body :: 'p

record 's PollEntry =
  pl_request_id :: u32
  pl_status :: 's

datatype NetworkOperationPollStatus = kNetworkNotReady | kScanQueued | kScanInProgress | kNetworkReady

datatype OtaPollStatus = kOtaNotReady | kOtaQueued | kOtaDownloading | kOtaReady

datatype RcpUpdatePollStatus = kRcpNotReady | kRcpQueued | kRcpApplying | kRcpReady

record ('c, 'n, 'o, 'r) ResultStore =
  rs_next_request_id :: u32
  rs_config :: "'c OpResult packed"
  rs_network :: "'n OpResult packed"
  rs_network_poll :: "NetworkOperationPollStatus PollEntry packed"
  rs_ota :: "'o OpResult packed"
  rs_ota_poll :: "OtaPollStatus PollEntry packed"
  rs_rcp :: "'r OpResult packed"
  rs_rcp_poll :: "RcpUpdatePollStatus PollEntry packed"

definition kNetworkResultQueueCapacity :: nat where "kNetworkResultQueueCapacity = 16"

definition kConfigResultQueueCapacity :: nat where "kConfigResultQueueCapacity = 8"

definition kOtaResultQueueCapacity :: nat where "kOtaResultQueueCapacity = 4"

definition kRcpUpdateResultQueueCapacity :: nat where "kRcpUpdateResultQueueCapacity = 4"

text \<open>The initial store; the bodies of the unused entries are arguments.\<close>

definition result_store_init :: "'c \<Rightarrow> 'n \<Rightarrow> 'o \<Rightarrow> 'r \<Rightarrow> ('c, 'n, 'o, 'r) ResultStore" where
  "result_store_init c n ob r =
     \<lparr>rs_next_request_id = 1,
      rs_config = packed_empty kConfigResultQueueCapacity \<lparr>or_request_id = 0, or_body = c\<rparr>,
      rs_network = packed_empty kNetworkResultQueueCapacity \<lparr>or_request_id = 0, or_body = n\<rparr>,
      rs_network_poll = packed_empty kNetworkResultQueueCapacity
        \<lparr>pl_request_id = 0, pl_status = kNetworkNotReady\<rparr>,
      rs_ota = packed_empty kOtaResultQueueCapacity \<lparr>or_request_id = 0, or_body = ob\<rparr>,
      rs_ota_poll = packed_empty kOtaResultQueueCapacity \<lparr>pl_request_id = 0, pl_status = kOtaNotReady\<rparr>,
      rs_rcp = packed_empty kRcpUpdateResultQueueCapacity \<lparr>or_request_id = 0, or_body = r\<rparr>,
      rs_rcp_poll = packed_empty kRcpUpdateResultQueueCapacity
        \<lparr>pl_request_id = 0, pl_status = kRcpNotReady\<rparr>\<rparr>"

section \<open>The scans every queue repeats\<close>

definition result_at :: "u32 \<Rightarrow> 'p OpResult packed \<Rightarrow> nat option" where
  "result_at i q = packed_find (\<lambda>x. or_request_id x = i) q"

definition poll_at :: "u32 \<Rightarrow> 's PollEntry packed \<Rightarrow> nat option" where
  "poll_at i q = packed_find (\<lambda>x. pl_request_id x = i) q"

definition upsert_poll_status_locked ::
  "nat \<Rightarrow> u32 \<Rightarrow> 's \<Rightarrow> 's PollEntry packed \<Rightarrow> bool \<times> 's PollEntry packed" where
  "upsert_poll_status_locked cap request_id status q =
     (if request_id = 0 then (False, q)
      else (case poll_at request_id q of
              Some i \<Rightarrow> (True, packed_write i ((pk_arr q ! i)\<lparr>pl_status := status\<rparr>) q)
            | None \<Rightarrow> (True, packed_append cap \<lparr>pl_request_id = request_id, pl_status = status\<rparr> q)))"

definition remove_poll_status_locked :: "u32 \<Rightarrow> 's PollEntry packed \<Rightarrow> 's PollEntry packed" where
  "remove_poll_status_locked request_id q =
     (case poll_at request_id q of None \<Rightarrow> q | Some i \<Rightarrow> packed_remove i q)"

definition store_result :: "nat \<Rightarrow> 'p OpResult \<Rightarrow> 'p OpResult packed \<Rightarrow> 'p OpResult packed" where
  "store_result cap result q =
     (case result_at (or_request_id result) q of
        Some i \<Rightarrow> packed_write i result q
      | None \<Rightarrow> packed_append cap result q)"

text \<open>The result and the queue without it; \<open>None\<close> when it is not there.\<close>

definition take_result :: "u32 \<Rightarrow> 'p OpResult packed \<Rightarrow> 'p OpResult option \<times> 'p OpResult packed" where
  "take_result request_id q =
     (if request_id = 0 then (None, q)
      else (case result_at request_id q of
              None \<Rightarrow> (None, q)
            | Some i \<Rightarrow> (Some (pk_arr q ! i), packed_remove i q)))"

definition poll_status :: "'s \<Rightarrow> 's \<Rightarrow> u32 \<Rightarrow> 'p OpResult packed \<Rightarrow> 's PollEntry packed \<Rightarrow> 's" where
  "poll_status not_ready ready request_id q p =
     (if request_id = 0 then not_ready
      else if result_at request_id q \<noteq> None then ready
      else (case poll_at request_id p of Some i \<Rightarrow> pl_status (pk_arr p ! i) | None \<Rightarrow> not_ready))"

section \<open>Operations\<close>

definition next_request_id :: "('c, 'n, 'o, 'r) ResultStore \<Rightarrow> u32 \<times> ('c, 'n, 'o, 'r) ResultStore" where
  "next_request_id s =
     (let current = rs_next_request_id s
      in (current, s\<lparr>rs_next_request_id := (if current = 0xFFFFFFFF then 1 else current + 1)\<rparr>))"

definition publish_config_result ::
  "'c OpResult \<Rightarrow> ('c, 'n, 'o, 'r) ResultStore \<Rightarrow> bool \<times> ('c, 'n, 'o, 'r) ResultStore" where
  "publish_config_result result s =
     (if or_request_id result = 0 then (False, s)
      else (True, s\<lparr>rs_config := store_result kConfigResultQueueCapacity result (rs_config s)\<rparr>))"

definition note_network_poll_status ::
  "u32 \<Rightarrow> NetworkOperationPollStatus \<Rightarrow> ('c, 'n, 'o, 'r) ResultStore \<Rightarrow> ('c, 'n, 'o, 'r) ResultStore" where
  "note_network_poll_status request_id status s =
     (if status = kNetworkNotReady
      then s\<lparr>rs_network_poll := remove_poll_status_locked request_id (rs_network_poll s)\<rparr>
      else s\<lparr>rs_network_poll :=
        snd (upsert_poll_status_locked kNetworkResultQueueCapacity request_id status (rs_network_poll s))\<rparr>)"

definition note_ota_poll_status ::
  "u32 \<Rightarrow> OtaPollStatus \<Rightarrow> ('c, 'n, 'o, 'r) ResultStore \<Rightarrow> ('c, 'n, 'o, 'r) ResultStore" where
  "note_ota_poll_status request_id status s =
     (if status = kOtaNotReady
      then s\<lparr>rs_ota_poll := remove_poll_status_locked request_id (rs_ota_poll s)\<rparr>
      else s\<lparr>rs_ota_poll :=
        snd (upsert_poll_status_locked kOtaResultQueueCapacity request_id status (rs_ota_poll s))\<rparr>)"

definition note_rcp_update_poll_status ::
  "u32 \<Rightarrow> RcpUpdatePollStatus \<Rightarrow> ('c, 'n, 'o, 'r) ResultStore \<Rightarrow> ('c, 'n, 'o, 'r) ResultStore" where
  "note_rcp_update_poll_status request_id status s =
     (if status = kRcpNotReady
      then s\<lparr>rs_rcp_poll := remove_poll_status_locked request_id (rs_rcp_poll s)\<rparr>
      else s\<lparr>rs_rcp_poll :=
        snd (upsert_poll_status_locked kRcpUpdateResultQueueCapacity request_id status (rs_rcp_poll s))\<rparr>)"

text \<open>
  A network result is stored under id 0 too (such a result is never replaced); when it replaces an
  older one the poll status is left alone.
\<close>

definition publish_network_result ::
  "'n OpResult \<Rightarrow> ('c, 'n, 'o, 'r) ResultStore \<Rightarrow> bool \<times> ('c, 'n, 'o, 'r) ResultStore" where
  "publish_network_result result s =
     (case packed_find (\<lambda>x. or_request_id x = or_request_id result \<and> or_request_id result \<noteq> 0) (rs_network s) of
        Some i \<Rightarrow> (True, s\<lparr>rs_network := packed_write i result (rs_network s)\<rparr>)
      | None \<Rightarrow>
          (True, s\<lparr>rs_network := packed_append kNetworkResultQueueCapacity result (rs_network s),
                   rs_network_poll := snd (upsert_poll_status_locked kNetworkResultQueueCapacity
                     (or_request_id result) kNetworkReady (rs_network_poll s))\<rparr>))"

definition publish_ota_result ::
  "'o OpResult \<Rightarrow> ('c, 'n, 'o, 'r) ResultStore \<Rightarrow> bool \<times> ('c, 'n, 'o, 'r) ResultStore" where
  "publish_ota_result result s =
     (if or_request_id result = 0 then (False, s)
      else (True, s\<lparr>rs_ota := store_result kOtaResultQueueCapacity result (rs_ota s),
                    rs_ota_poll := snd (upsert_poll_status_locked kOtaResultQueueCapacity
                      (or_request_id result) kOtaReady (rs_ota_poll s))\<rparr>))"

definition publish_rcp_update_result ::
  "'r OpResult \<Rightarrow> ('c, 'n, 'o, 'r) ResultStore \<Rightarrow> bool \<times> ('c, 'n, 'o, 'r) ResultStore" where
  "publish_rcp_update_result result s =
     (if or_request_id result = 0 then (False, s)
      else (True, s\<lparr>rs_rcp := store_result kRcpUpdateResultQueueCapacity result (rs_rcp s),
                    rs_rcp_poll := snd (upsert_poll_status_locked kRcpUpdateResultQueueCapacity
                      (or_request_id result) kRcpReady (rs_rcp_poll s))\<rparr>))"

text \<open>The \<open>take\<close> operations, with an output pointer that is not null.\<close>

definition take_config_result ::
  "u32 \<Rightarrow> ('c, 'n, 'o, 'r) ResultStore \<Rightarrow> 'c OpResult option \<times> ('c, 'n, 'o, 'r) ResultStore" where
  "take_config_result request_id s =
     (let (out, q) = take_result request_id (rs_config s) in (out, s\<lparr>rs_config := q\<rparr>))"

definition take_network_result ::
  "u32 \<Rightarrow> ('c, 'n, 'o, 'r) ResultStore \<Rightarrow> 'n OpResult option \<times> ('c, 'n, 'o, 'r) ResultStore" where
  "take_network_result request_id s =
     (let (out, q) = take_result request_id (rs_network s)
      in (out, if out = None then s
               else s\<lparr>rs_network := q,
                      rs_network_poll := remove_poll_status_locked request_id (rs_network_poll s)\<rparr>))"

definition take_ota_result ::
  "u32 \<Rightarrow> ('c, 'n, 'o, 'r) ResultStore \<Rightarrow> 'o OpResult option \<times> ('c, 'n, 'o, 'r) ResultStore" where
  "take_ota_result request_id s =
     (let (out, q) = take_result request_id (rs_ota s)
      in (out, if out = None then s
               else s\<lparr>rs_ota := q, rs_ota_poll := remove_poll_status_locked request_id (rs_ota_poll s)\<rparr>))"

definition take_rcp_update_result ::
  "u32 \<Rightarrow> ('c, 'n, 'o, 'r) ResultStore \<Rightarrow> 'r OpResult option \<times> ('c, 'n, 'o, 'r) ResultStore" where
  "take_rcp_update_result request_id s =
     (let (out, q) = take_result request_id (rs_rcp s)
      in (out, if out = None then s
               else s\<lparr>rs_rcp := q, rs_rcp_poll := remove_poll_status_locked request_id (rs_rcp_poll s)\<rparr>))"

definition get_network_operation_poll_status :: "u32 \<Rightarrow> ('c, 'n, 'o, 'r) ResultStore \<Rightarrow> NetworkOperationPollStatus" where
  "get_network_operation_poll_status request_id s =
     poll_status kNetworkNotReady kNetworkReady request_id (rs_network s) (rs_network_poll s)"

definition get_ota_poll_status :: "u32 \<Rightarrow> ('c, 'n, 'o, 'r) ResultStore \<Rightarrow> OtaPollStatus" where
  "get_ota_poll_status request_id s =
     poll_status kOtaNotReady kOtaReady request_id (rs_ota s) (rs_ota_poll s)"

definition get_rcp_update_poll_status :: "u32 \<Rightarrow> ('c, 'n, 'o, 'r) ResultStore \<Rightarrow> RcpUpdatePollStatus" where
  "get_rcp_update_poll_status request_id s =
     poll_status kRcpNotReady kRcpReady request_id (rs_rcp s) (rs_rcp_poll s)"

definition pending_config_results :: "('c, 'n, 'o, 'r) ResultStore \<Rightarrow> nat" where
  "pending_config_results s = pk_len (rs_config s)"

definition pending_network_results :: "('c, 'n, 'o, 'r) ResultStore \<Rightarrow> nat" where
  "pending_network_results s = pk_len (rs_network s)"

definition pending_ota_results :: "('c, 'n, 'o, 'r) ResultStore \<Rightarrow> nat" where
  "pending_ota_results s = pk_len (rs_ota s)"

definition pending_rcp_update_results :: "('c, 'n, 'o, 'r) ResultStore \<Rightarrow> nat" where
  "pending_rcp_update_results s = pk_len (rs_rcp s)"

section \<open>The queues as bounded logs\<close>

definition log_put :: "nat \<Rightarrow> 'p OpResult \<Rightarrow> 'p OpResult list \<Rightarrow> 'p OpResult list" where
  "log_put cap r xs =
     (case find_index (\<lambda>x. or_request_id x = or_request_id r) xs of
        Some i \<Rightarrow> xs[i := r]
      | None \<Rightarrow> (if length xs = cap then tl xs else xs) @ [r])"

definition log_get :: "u32 \<Rightarrow> 'p OpResult list \<Rightarrow> 'p OpResult option" where
  "log_get i xs = map_option ((!) xs) (find_index (\<lambda>x. or_request_id x = i) xs)"

definition log_drop :: "u32 \<Rightarrow> 'p OpResult list \<Rightarrow> 'p OpResult list" where
  "log_drop i xs = (case find_index (\<lambda>x. or_request_id x = i) xs of
     None \<Rightarrow> xs | Some k \<Rightarrow> take k xs @ drop (Suc k) xs)"

definition log_ids :: "'p OpResult list \<Rightarrow> u32 list" where
  "log_ids xs = map or_request_id (filter (\<lambda>x. or_request_id x \<noteq> 0) xs)"

lemma find_index_append:
  "find_index P (xs @ ys) = (case find_index P xs of Some i \<Rightarrow> Some i
     | None \<Rightarrow> map_option (\<lambda>i. length xs + i) (find_index P ys))"
proof (induction xs)
  case Nil
  then show ?case by (cases "find_index P ys") simp_all
next
  case (Cons x xs)
  then show ?case by (cases "find_index P ys") (auto split: option.split)
qed

lemma log_get_first:
  assumes "\<And>x. x \<in> set A \<Longrightarrow> or_request_id x \<noteq> or_request_id r"
  shows "log_get (or_request_id r) (A @ r # B) = Some r"
proof -
  have "find_index (\<lambda>x. or_request_id x = or_request_id r) A = None"
    using assms by (auto simp: find_index_None_iff)
  then show ?thesis by (simp add: log_get_def find_index_append nth_append)
qed

text \<open>Publishing another result keeps an entry with fewer than \<open>cap - 1\<close> entries behind it.\<close>

lemma log_put_keeps:
  assumes xs: "xs = A @ r # B" and A: "\<And>y. y \<in> set A \<Longrightarrow> or_request_id y \<noteq> or_request_id r"
    and x: "or_request_id x \<noteq> or_request_id r" and len: "length xs \<le> cap" "Suc (length B) < cap"
  shows "\<exists>A' B'. log_put cap x xs = A' @ r # B' \<and>
    (\<forall>y \<in> set A'. or_request_id y \<noteq> or_request_id r) \<and> length B' \<le> Suc (length B)"
proof (cases "find_index (\<lambda>y. or_request_id y = or_request_id x) xs")
  case (Some j)
  note j = find_index_SomeD[OF Some]
  have upd: "log_put cap x xs = xs[j := x]" using Some by (simp add: log_put_def)
  consider "j < length A" | "j = length A" | "length A < j" by linarith
  then show ?thesis
  proof cases
    case 1
    then have "xs[j := x] = A[j := x] @ r # B" by (simp add: xs list_update_append)
    then have "log_put cap x xs = A[j := x] @ r # B" by (simp add: upd)
    moreover have "\<forall>y \<in> set (A[j := x]). or_request_id y \<noteq> or_request_id r"
      using A x set_update_subset_insert[of A j x] by blast
    ultimately show ?thesis by (intro exI[of _ "A[j := x]"] exI[of _ B]) simp
  next
    case 2
    then show ?thesis using j(2) x by (simp add: xs)
  next
    case 3
    define k where "k = j - Suc (length A)"
    have k: "j = length A + Suc k" using 3 by (simp add: k_def)
    have "xs[j := x] = A @ r # B[k := x]" unfolding xs k by (simp add: list_update_append)
    then have "log_put cap x xs = A @ r # B[k := x]" by (simp add: upd)
    then show ?thesis using A by (intro exI[of _ A] exI[of _ "B[k := x]"]) simp
  qed
next
  case None
  show ?thesis
  proof (cases "length xs = cap")
    case True
    then have "A \<noteq> []" using len(2) by (auto simp: xs)
    then have "log_put cap x xs = tl A @ r # (B @ [x])" using None True by (simp add: log_put_def xs)
    moreover have "\<forall>y \<in> set (tl A). or_request_id y \<noteq> or_request_id r"
      using A \<open>A \<noteq> []\<close> by (metis list.set_sel(2))
    ultimately show ?thesis by (intro exI[of _ "tl A"] exI[of _ "B @ [x]"]) simp
  next
    case False
    then have "log_put cap x xs = A @ r # (B @ [x])" using None by (simp add: log_put_def xs)
    then show ?thesis using A by (intro exI[of _ A] exI[of _ "B @ [x]"]) simp
  qed
qed

lemma log_drop_gone:
  assumes "distinct (log_ids xs)" "i \<noteq> 0"
  shows "log_get i (log_drop i xs) = None"
proof (cases "find_index (\<lambda>x. or_request_id x = i) xs")
  case None
  then show ?thesis by (simp add: log_drop_def log_get_def)
next
  case (Some k)
  note k = find_index_SomeD[OF Some]
  have split: "xs = take k xs @ xs ! k # drop (Suc k) xs" by (rule id_take_nth_drop[OF k(1)])
  have "distinct (log_ids (take k xs) @ i # log_ids (drop (Suc k) xs))"
    using assms k(2) by (subst (asm) split) (simp add: log_ids_def)
  then have "\<forall>x \<in> set (take k xs) \<union> set (drop (Suc k) xs). or_request_id x \<noteq> i"
    using assms(2) by (auto simp: log_ids_def)
  then have "find_index (\<lambda>x. or_request_id x = i) (take k xs @ drop (Suc k) xs) = None"
    by (auto simp: find_index_None_iff)
  then show ?thesis using Some by (simp add: log_drop_def log_get_def)
qed

text \<open>
  What every result queue promises: publishing a result with an id enters it into a log of at most
  \<open>cap\<close> entries, replacing the entry of the same id or dropping the oldest one; taking an id
  returns its entry and removes it.
\<close>

locale result_log =
  fixes put_op :: "'p OpResult \<Rightarrow> 's \<Rightarrow> 's"
    and take_op :: "u32 \<Rightarrow> 's \<Rightarrow> 'p OpResult option \<times> 's"
    and log :: "'s \<Rightarrow> 'p OpResult list"
    and cap :: nat
    and inv :: "'s \<Rightarrow> bool"
  assumes put_inv: "inv s \<Longrightarrow> inv (put_op r s)"
    and put_log: "inv s \<Longrightarrow> or_request_id r \<noteq> 0 \<Longrightarrow> log (put_op r s) = log_put cap r (log s)"
    and take_inv: "inv s \<Longrightarrow> inv (snd (take_op i s))"
    and take_out: "inv s \<Longrightarrow> i \<noteq> 0 \<Longrightarrow> fst (take_op i s) = log_get i (log s)"
    and take_log: "inv s \<Longrightarrow> i \<noteq> 0 \<Longrightarrow> log (snd (take_op i s)) = log_drop i (log s)"
    and log_len: "inv s \<Longrightarrow> length (log s) \<le> cap"
    and log_distinct: "inv s \<Longrightarrow> distinct (log_ids (log s))"
begin

lemma take_once:
  assumes "inv s" "i \<noteq> 0"
  shows "fst (take_op i (snd (take_op i s))) = None"
  using take_out[OF take_inv[OF assms(1)] assms(2)] log_drop_gone[OF log_distinct[OF assms(1)] assms(2)]
  by (simp add: take_log[OF assms])

lemma entry_survives:
  assumes "inv s" "log s = A @ r # B" "\<And>y. y \<in> set A \<Longrightarrow> or_request_id y \<noteq> or_request_id r"
    and "\<And>x. x \<in> set xs \<Longrightarrow> or_request_id x \<noteq> 0 \<and> or_request_id x \<noteq> or_request_id r"
    and "length B + length xs < cap"
  shows "log_get (or_request_id r) (log (fold put_op xs s)) = Some r"
  using assms
proof (induction xs arbitrary: s A B)
  case Nil
  then show ?case using log_get_first[of A r B] by simp
next
  case (Cons x xs)
  have x: "or_request_id x \<noteq> 0" "or_request_id x \<noteq> or_request_id r" using Cons.prems(4)[of x] by simp_all
  have len: "Suc (length B) < cap" using Cons.prems(5) by simp
  obtain A' B' where ab: "log_put cap x (log s) = A' @ r # B'"
      "\<forall>y \<in> set A'. or_request_id y \<noteq> or_request_id r" "length B' \<le> Suc (length B)"
    using log_put_keeps[OF Cons.prems(2,3) x(2) log_len[OF Cons.prems(1)] len] by blast
  have "log_get (or_request_id r) (log (fold put_op xs (put_op x s))) = Some r"
  proof (rule Cons.IH)
    show "inv (put_op x s)" by (rule put_inv[OF Cons.prems(1)])
    show "log (put_op x s) = A' @ r # B'" using put_log[OF Cons.prems(1) x(1)] ab(1) by simp
    show "length B' + length xs < cap" using ab(3) Cons.prems(5) by simp
  qed (use ab(2) Cons.prems(4) in auto)
  then show ?case by simp
qed

text \<open>A fresh result can be taken after fewer than \<open>cap\<close> further results, and only once.\<close>

lemma fresh_result_survives:
  assumes inv: "inv s" and r: "or_request_id r \<noteq> 0" and fresh: "log_get (or_request_id r) (log s) = None"
    and xs: "\<And>x. x \<in> set xs \<Longrightarrow> or_request_id x \<noteq> 0 \<and> or_request_id x \<noteq> or_request_id r"
    and n: "length xs < cap"
  shows "fst (take_op (or_request_id r) (fold put_op xs (put_op r s))) = Some r"
    and "fst (take_op (or_request_id r) (snd (take_op (or_request_id r) (fold put_op xs (put_op r s))))) = None"
proof -
  let ?A = "if length (log s) = cap then tl (log s) else log s"
  have none: "\<forall>x \<in> set (log s). or_request_id x \<noteq> or_request_id r"
    using fresh by (simp add: log_get_def find_index_None_iff)
  then have "find_index (\<lambda>x. or_request_id x = or_request_id r) (log s) = None"
    by (simp add: find_index_None_iff)
  then have l: "log (put_op r s) = ?A @ r # []" using put_log[OF inv r] by (simp add: log_put_def)
  have "\<And>y. y \<in> set ?A \<Longrightarrow> or_request_id y \<noteq> or_request_id r"
    using none by (cases "log s") (auto split: if_splits)
  then have "log_get (or_request_id r) (log (fold put_op xs (put_op r s))) = Some r"
    using entry_survives[OF put_inv[OF inv] l _ xs] n by simp
  moreover have i: "inv (fold put_op xs (put_op r s))"
    using put_inv[OF inv] by (induction xs arbitrary: s rule: rev_induct) (simp_all add: put_inv)
  ultimately show "fst (take_op (or_request_id r) (fold put_op xs (put_op r s))) = Some r"
    using take_out[OF i r] by simp
  show "fst (take_op (or_request_id r) (snd (take_op (or_request_id r) (fold put_op xs (put_op r s))))) = None"
    by (rule take_once[OF i r])
qed

end

section \<open>The four queues provide the interface\<close>

lemma result_at_list:
  "result_at i q = find_index (\<lambda>x. or_request_id x = i) (packed_list q)"
  by (simp add: result_at_def packed_find_def packed_list_def)

lemma store_result_list:
  assumes "packed_inv cap q"
  shows "packed_list (store_result cap r q) = log_put cap r (packed_list q)"
proof (cases "result_at (or_request_id r) q")
  case None
  then show ?thesis using packed_append_list[OF assms, of r]
    by (simp add: store_result_def log_put_def flip: result_at_list)
next
  case (Some i)
  then have "i < pk_len q" using packed_find_Some(1)[OF assms] by (simp add: result_at_def)
  then show ?thesis using Some by (simp add: store_result_def log_put_def packed_write_list flip: result_at_list)
qed

lemma store_result_inv: "packed_inv cap q \<Longrightarrow> packed_inv cap (store_result cap r q)"
  by (simp add: store_result_def packed_append_inv packed_write_inv split: option.split)

lemma take_result_list:
  assumes "packed_inv cap q" "i \<noteq> 0"
  shows "fst (take_result i q) = log_get i (packed_list q)"
    and "packed_list (snd (take_result i q)) = log_drop i (packed_list q)"
proof -
  have "fst (take_result i q) = log_get i (packed_list q) \<and>
      packed_list (snd (take_result i q)) = log_drop i (packed_list q)"
  proof (cases "result_at i q")
    case None
    then show ?thesis using assms(2) by (simp add: take_result_def log_get_def log_drop_def flip: result_at_list)
  next
    case (Some k)
    have "k < pk_len q" "packed_list q ! k = pk_arr q ! k"
      using packed_find_Some[OF assms(1) Some[unfolded result_at_def]] by simp_all
    then show ?thesis
      using Some assms packed_remove_list[OF assms(1), of k]
      by (simp add: take_result_def log_get_def log_drop_def flip: result_at_list)
  qed
  then show "fst (take_result i q) = log_get i (packed_list q)"
    "packed_list (snd (take_result i q)) = log_drop i (packed_list q)" by simp_all
qed

lemma take_result_inv: "packed_inv cap q \<Longrightarrow> packed_inv cap (snd (take_result i q))"
  by (simp add: take_result_def packed_remove_inv split: option.split)

lemma log_put_distinct:
  assumes "distinct (log_ids xs)" "or_request_id r \<noteq> 0"
  shows "distinct (log_ids (log_put cap r xs))"
proof (cases "find_index (\<lambda>x. or_request_id x = or_request_id r) xs")
  case (Some i)
  note i = find_index_SomeD[OF Some]
  have "map or_request_id (filter (\<lambda>x. or_request_id x \<noteq> 0) (xs[i := r])) = log_ids xs"
  proof -
    have split: "xs = take i xs @ xs ! i # drop (Suc i) xs" by (rule id_take_nth_drop[OF i(1)])
    have "log_ids xs = log_ids (take i xs @ xs ! i # drop (Suc i) xs)" using split by simp
    then show ?thesis using i assms(2) by (simp add: upd_conv_take_nth_drop log_ids_def)
  qed
  then show ?thesis using Some assms(1) by (simp add: log_put_def log_ids_def)
next
  case None
  then have no: "or_request_id r \<notin> set (log_ids xs)" by (auto simp: log_ids_def find_index_None_iff)
  have "distinct (log_ids (tl xs)) \<and> set (log_ids (tl xs)) \<subseteq> set (log_ids xs)"
    using assms(1) by (cases xs) (auto simp: log_ids_def)
  then show ?thesis using None no assms by (auto simp: log_put_def log_ids_def)
qed

lemma log_put_zero:
  assumes "distinct (log_ids xs)" "or_request_id r = 0"
  shows "distinct (log_ids ((if length xs = cap then tl xs else xs) @ [r]))"
proof -
  have "distinct (log_ids (tl xs))" using assms(1) by (cases xs) (auto simp: log_ids_def split: if_splits)
  then show ?thesis using assms by (simp add: log_ids_def)
qed

lemma log_drop_distinct: "distinct (log_ids xs) \<Longrightarrow> distinct (log_ids (log_drop i xs))"
proof (cases "find_index (\<lambda>x. or_request_id x = i) xs")
  case None
  then show "distinct (log_ids xs) \<Longrightarrow> ?thesis" by (simp add: log_drop_def)
next
  case (Some k)
  assume d: "distinct (log_ids xs)"
  have split: "xs = take k xs @ xs ! k # drop (Suc k) xs"
    by (rule id_take_nth_drop[OF find_index_SomeD(1)[OF Some]])
  have "distinct (log_ids (take k xs @ xs ! k # drop (Suc k) xs))" using d split by simp
  then show ?thesis using Some by (auto simp: log_drop_def log_ids_def split: if_splits)
qed

text \<open>The invariant of the store: every queue is well formed and holds no id twice.\<close>

definition queue_inv :: "nat \<Rightarrow> 'p OpResult packed \<Rightarrow> bool" where
  "queue_inv cap q \<longleftrightarrow> packed_inv cap q \<and> distinct (log_ids (packed_list q))"

definition result_store_inv :: "('c, 'n, 'o, 'r) ResultStore \<Rightarrow> bool" where
  "result_store_inv s \<longleftrightarrow> rs_next_request_id s \<noteq> 0 \<and>
     queue_inv kConfigResultQueueCapacity (rs_config s) \<and>
     queue_inv kNetworkResultQueueCapacity (rs_network s) \<and>
     queue_inv kOtaResultQueueCapacity (rs_ota s) \<and>
     queue_inv kRcpUpdateResultQueueCapacity (rs_rcp s)"

lemma queue_inv_empty: "0 < cap \<Longrightarrow> queue_inv cap (packed_empty cap b)"
  by (simp add: queue_inv_def packed_inv_empty log_ids_def)

lemma result_store_inv_init: "result_store_inv (result_store_init c n ob r)"
  by (simp add: result_store_inv_def result_store_init_def queue_inv_empty kConfigResultQueueCapacity_def
      kNetworkResultQueueCapacity_def kOtaResultQueueCapacity_def kRcpUpdateResultQueueCapacity_def)

lemma queue_inv_store:
  "queue_inv cap q \<Longrightarrow> or_request_id r \<noteq> 0 \<Longrightarrow> queue_inv cap (store_result cap r q)"
  by (simp add: queue_inv_def store_result_inv store_result_list log_put_distinct)

lemma queue_inv_take: "queue_inv cap q \<Longrightarrow> queue_inv cap (snd (take_result i q))"
  by (cases "i = 0") (auto simp: queue_inv_def take_result_inv take_result_list(2) log_drop_distinct,
      simp_all add: take_result_def)

lemma queue_inv_len: "queue_inv cap q \<Longrightarrow> length (packed_list q) \<le> cap"
  by (auto simp: queue_inv_def packed_inv_def packed_list_def)

lemmas publish_defs = publish_config_result_def publish_network_result_def publish_ota_result_def
  publish_rcp_update_result_def

lemmas take_defs = take_config_result_def take_network_result_def take_ota_result_def
  take_rcp_update_result_def

lemma take_none: "fst (take_result i q) = None \<Longrightarrow> snd (take_result i q) = q"
  by (simp add: take_result_def split: if_splits option.splits)

text \<open>A queue of a larger state whose publish and take are \<open>store_result\<close> and \<open>take_result\<close>.\<close>

lemma result_logI:
  fixes inv :: "'s \<Rightarrow> bool"
  assumes put: "\<And>s r. inv s \<Longrightarrow> inv (put_op r s)"
    and store: "\<And>s r. inv s \<Longrightarrow> or_request_id r \<noteq> 0 \<Longrightarrow> sel (put_op r s) = store_result cap r (sel s)"
    and take: "\<And>s i. inv s \<Longrightarrow> inv (snd (take_op i s))"
    and out: "\<And>s i. fst (take_op i s) = fst (take_result i (sel s))"
    and rest: "\<And>s i. sel (snd (take_op i s)) = snd (take_result i (sel s))"
    and queue: "\<And>s. inv s \<Longrightarrow> queue_inv cap (sel s)"
  shows "result_log put_op take_op (\<lambda>s. packed_list (sel s)) cap inv"
proof
  fix s r i
  assume s: "inv s"
  note q = queue[OF s, unfolded queue_inv_def]
  show "inv (put_op r s)" by (rule put[OF s])
  show "or_request_id r \<noteq> 0 \<Longrightarrow> packed_list (sel (put_op r s)) = log_put cap r (packed_list (sel s))"
    using q by (simp add: store[OF s] store_result_list)
  show "inv (snd (take_op i s))" by (rule take[OF s])
  show "i \<noteq> 0 \<Longrightarrow> fst (take_op i s) = log_get i (packed_list (sel s))"
    using q by (simp add: out take_result_list(1)[of cap])
  show "i \<noteq> 0 \<Longrightarrow> packed_list (sel (snd (take_op i s))) = log_drop i (packed_list (sel s))"
    using q by (simp add: rest take_result_list(2)[of cap])
  show "length (packed_list (sel s)) \<le> cap" by (rule queue_inv_len[OF queue[OF s]])
  show "distinct (log_ids (packed_list (sel s)))" using q by simp
qed

definition put_config :: "'c OpResult \<Rightarrow> ('c, 'n, 'o, 'r) ResultStore \<Rightarrow> ('c, 'n, 'o, 'r) ResultStore" where
  "put_config r s = snd (publish_config_result r s)"

definition put_network :: "'n OpResult \<Rightarrow> ('c, 'n, 'o, 'r) ResultStore \<Rightarrow> ('c, 'n, 'o, 'r) ResultStore" where
  "put_network r s = snd (publish_network_result r s)"

definition put_ota :: "'o OpResult \<Rightarrow> ('c, 'n, 'o, 'r) ResultStore \<Rightarrow> ('c, 'n, 'o, 'r) ResultStore" where
  "put_ota r s = snd (publish_ota_result r s)"

definition put_rcp :: "'r OpResult \<Rightarrow> ('c, 'n, 'o, 'r) ResultStore \<Rightarrow> ('c, 'n, 'o, 'r) ResultStore" where
  "put_rcp r s = snd (publish_rcp_update_result r s)"

lemmas put_defs = put_config_def put_network_def put_ota_def put_rcp_def

lemma network_store:
  assumes "or_request_id r \<noteq> 0"
  shows "rs_network (put_network r s) = store_result kNetworkResultQueueCapacity r (rs_network s)"
  using assms by (simp add: put_network_def publish_network_result_def store_result_def result_at_def split: option.split)

lemma network_zero:
  assumes "or_request_id r = 0"
  shows "rs_network (put_network r s) = packed_append kNetworkResultQueueCapacity r (rs_network s)"
  using assms packed_find_None[of "\<lambda>x. False" "rs_network s"]
  by (simp add: put_network_def publish_network_result_def)

lemma put_inv:
  "result_store_inv s \<Longrightarrow> result_store_inv (put_config r s)"
  "result_store_inv s \<Longrightarrow> result_store_inv (put_ota r' s)"
  "result_store_inv s \<Longrightarrow> result_store_inv (put_rcp r'' s)"
  by (simp_all add: put_defs publish_defs result_store_inv_def queue_inv_store)

lemma put_network_inv:
  assumes "result_store_inv s"
  shows "result_store_inv (put_network r s)"
proof -
  have q: "queue_inv kNetworkResultQueueCapacity (rs_network s)" using assms by (simp add: result_store_inv_def)
  have "queue_inv kNetworkResultQueueCapacity (rs_network (put_network r s))"
  proof (cases "or_request_id r = 0")
    case True
    then show ?thesis
      using q log_put_zero[of "packed_list (rs_network s)" r]
      by (simp add: network_zero queue_inv_def packed_append_inv packed_append_list)
  next
    case False
    then show ?thesis using q by (simp add: network_store queue_inv_store)
  qed
  then show ?thesis using assms
    by (simp add: result_store_inv_def put_network_def publish_network_result_def split: option.splits)
qed

lemma take_inv:
  "result_store_inv s \<Longrightarrow> result_store_inv (snd (take_config_result i s))"
  "result_store_inv s \<Longrightarrow> result_store_inv (snd (take_network_result i s))"
  "result_store_inv s \<Longrightarrow> result_store_inv (snd (take_ota_result i s))"
  "result_store_inv s \<Longrightarrow> result_store_inv (snd (take_rcp_update_result i s))"
  by (simp_all add: take_defs result_store_inv_def case_prod_unfold Let_def queue_inv_take)

lemma take_sel:
  "rs_config (snd (take_config_result i s)) = snd (take_result i (rs_config s))"
  "rs_network (snd (take_network_result i s)) = snd (take_result i (rs_network s))"
  "rs_ota (snd (take_ota_result i s)) = snd (take_result i (rs_ota s))"
  "rs_rcp (snd (take_rcp_update_result i s)) = snd (take_result i (rs_rcp s))"
  by (simp_all add: take_defs case_prod_unfold Let_def take_none)

lemma take_fst:
  "fst (take_config_result i s) = fst (take_result i (rs_config s))"
  "fst (take_network_result i s) = fst (take_result i (rs_network s))"
  "fst (take_ota_result i s) = fst (take_result i (rs_ota s))"
  "fst (take_rcp_update_result i s) = fst (take_result i (rs_rcp s))"
  by (simp_all add: take_defs case_prod_unfold Let_def)

lemma put_sel:
  "or_request_id r1 \<noteq> 0 \<Longrightarrow> rs_config (put_config r1 s) = store_result kConfigResultQueueCapacity r1 (rs_config s)"
  "or_request_id r2 \<noteq> 0 \<Longrightarrow> rs_ota (put_ota r2 s) = store_result kOtaResultQueueCapacity r2 (rs_ota s)"
  "or_request_id r3 \<noteq> 0 \<Longrightarrow> rs_rcp (put_rcp r3 s) = store_result kRcpUpdateResultQueueCapacity r3 (rs_rcp s)"
  by (simp_all add: put_defs publish_defs)

lemma queue_of_inv:
  assumes "result_store_inv s"
  shows "queue_inv kConfigResultQueueCapacity (rs_config s)"
    "queue_inv kNetworkResultQueueCapacity (rs_network s)"
    "queue_inv kOtaResultQueueCapacity (rs_ota s)"
    "queue_inv kRcpUpdateResultQueueCapacity (rs_rcp s)"
  using assms by (simp_all add: result_store_inv_def)

interpretation config_log: result_log put_config take_config_result "\<lambda>s. packed_list (rs_config s)"
    kConfigResultQueueCapacity result_store_inv
  by (rule result_logI)
     (simp_all add: put_inv take_inv take_sel take_fst put_sel queue_of_inv)

interpretation network_log: result_log put_network take_network_result "\<lambda>s. packed_list (rs_network s)"
    kNetworkResultQueueCapacity result_store_inv
  by (rule result_logI)
     (simp_all add: put_network_inv take_inv take_sel take_fst network_store queue_of_inv)

interpretation ota_log: result_log put_ota take_ota_result "\<lambda>s. packed_list (rs_ota s)"
    kOtaResultQueueCapacity result_store_inv
  by (rule result_logI)
     (simp_all add: put_inv take_inv take_sel take_fst put_sel queue_of_inv)

interpretation rcp_log: result_log put_rcp take_rcp_update_result "\<lambda>s. packed_list (rs_rcp s)"
    kRcpUpdateResultQueueCapacity result_store_inv
  by (rule result_logI)
     (simp_all add: put_inv take_inv take_sel take_fst put_sel queue_of_inv)

text \<open>Every id but 0 is new: no result of it is in the queue.\<close>

definition others :: "u32 \<Rightarrow> nat \<Rightarrow> 'p OpResult list \<Rightarrow> bool" where
  "others i n xs \<longleftrightarrow> list_all (\<lambda>x. or_request_id x \<noteq> 0 \<and> or_request_id x \<noteq> i) xs \<and> length xs < n"

text \<open>
  A network result published under a fresh request id is handed out, unchanged, to the first
  take of that id, also after up to fifteen further results, and never a second time.
\<close>

theorem network_result_is_delivered_once:
  assumes inv: "result_store_inv s" and r: "or_request_id r \<noteq> 0"
    and fresh: "log_get (or_request_id r) (packed_list (rs_network s)) = None"
    and more: "others (or_request_id r) kNetworkResultQueueCapacity xs"
  shows "let s1 = fold put_network xs (put_network r s); taken = take_network_result (or_request_id r) s1
    in fst taken = Some r \<and> fst (take_network_result (or_request_id r) (snd taken)) = None"
  using network_log.fresh_result_survives[OF inv r fresh, of xs] more
  by (simp add: others_def list_all_iff Let_def)

text \<open>
  The same holds of OTA results, for up to three further results; and from its publication until
  it is taken the poll status of the request is \<^verbatim>\<open>kReady\<close>.
\<close>

theorem ota_result_is_delivered_once:
  assumes inv: "result_store_inv s" and r: "or_request_id r \<noteq> 0"
    and fresh: "log_get (or_request_id r) (packed_list (rs_ota s)) = None"
    and more: "others (or_request_id r) kOtaResultQueueCapacity xs"
  shows "let s1 = fold put_ota xs (put_ota r s); taken = take_ota_result (or_request_id r) s1
    in get_ota_poll_status (or_request_id r) s1 = kOtaReady \<and> fst taken = Some r \<and>
       fst (take_ota_result (or_request_id r) (snd taken)) = None"
proof -
  let ?s1 = "fold put_ota xs (put_ota r s)"
  have t: "fst (take_ota_result (or_request_id r) ?s1) = Some r"
    "fst (take_ota_result (or_request_id r) (snd (take_ota_result (or_request_id r) ?s1))) = None"
    using ota_log.fresh_result_survives[OF inv r fresh, of xs] more by (simp_all add: others_def list_all_iff)
  from t(1) have "result_at (or_request_id r) (rs_ota ?s1) \<noteq> None"
    by (auto simp: take_fst take_result_def split: if_splits option.splits)
  then have "get_ota_poll_status (or_request_id r) ?s1 = kOtaReady"
    using r by (simp add: get_ota_poll_status_def poll_status_def)
  with t show ?thesis by (simp add: Let_def)
qed

definition sample_result :: "u32 \<Rightarrow> nat OpResult" where
  "sample_result i = \<lparr>or_request_id = i, or_body = 5\<rparr>"

lemma network_result_is_delivered_once_witness:
  "fst (take_network_result 3 (fold put_network [sample_result 4]
     (put_network (sample_result 3) (result_store_init () 0 () ())))) = Some (sample_result 3)"
  using network_result_is_delivered_once[OF result_store_inv_init, of "sample_result 3" "()" 0 "()" "()" "[sample_result 4]"]
  by (simp add: sample_result_def others_def log_get_def result_store_init_def kNetworkResultQueueCapacity_def Let_def)

lemma ota_result_is_delivered_once_witness:
  "get_ota_poll_status 3 (fold put_ota [sample_result 4]
     (put_ota (sample_result 3) (result_store_init () () 0 ()))) = kOtaReady"
  using ota_result_is_delivered_once[OF result_store_inv_init, of "sample_result 3" "()" "()" 0 "()" "[sample_result 4]"]
  by (simp add: sample_result_def others_def log_get_def result_store_init_def kOtaResultQueueCapacity_def Let_def)

section \<open>Request ids\<close>

fun draw_ids :: "nat \<Rightarrow> ('c, 'n, 'o, 'r) ResultStore \<Rightarrow> u32 list" where
  "draw_ids 0 s = []"
| "draw_ids (Suc n) s = (let (i, s') = next_request_id s in i # draw_ids n s')"

lemma next_id_unat:
  assumes "c \<noteq> 0"
  shows "unat (if c = 0xFFFFFFFF then 1 else c + 1 :: u32) = unat c mod 4294967295 + 1"
proof (cases "c = 0xFFFFFFFF")
  case False
  have "unat c \<noteq> 4294967295"
  proof
    assume "unat c = 4294967295"
    then have "unat c = unat (0xFFFFFFFF :: u32)" by simp
    with False show False by (simp only: word_unat_eq_iff)
  qed
  then have "unat c < 4294967295" using unat_u32_less[of c] by linarith
  then show ?thesis using False by (simp add: unat_word_ariths(1))
qed simp

lemma draw_ids_nth:
  assumes "rs_next_request_id s \<noteq> 0" "k < n"
  shows "unat (draw_ids n s ! k) = (unat (rs_next_request_id s) - 1 + k) mod 4294967295 + 1"
  using assms
proof (induction n arbitrary: s k)
  case 0
  then show ?case by simp
next
  case (Suc n)
  let ?c = "rs_next_request_id s"
  define c' where "c' = (if ?c = 0xFFFFFFFF then 1 else ?c + 1)"
  let ?s = "s\<lparr>rs_next_request_id := c'\<rparr>"
  have pos: "0 < unat ?c" using Suc.prems(1) by (simp add: unat_gt_0)
  have draw: "draw_ids (Suc n) s = ?c # draw_ids n ?s" by (simp add: next_request_id_def c'_def Let_def)
  show ?case
  proof (cases k)
    case 0
    have "unat ?c - 1 < 4294967295" using unat_u32_less[of ?c] by linarith
    then show ?thesis unfolding draw using 0 pos by simp
  next
    case (Suc j)
    have n: "unat c' = unat ?c mod 4294967295 + 1" unfolding c'_def by (rule next_id_unat[OF Suc.prems(1)])
    then have "c' \<noteq> 0" by auto
    then have "unat (draw_ids n ?s ! j) = (unat c' - 1 + j) mod 4294967295 + 1"
      using Suc.IH[of ?s j] Suc.prems(2) Suc by simp
    also have "\<dots> = (unat ?c + j) mod 4294967295 + 1" by (simp only: n add_diff_cancel_right' mod_add_left_eq)
    finally show ?thesis unfolding draw using Suc pos by simp
  qed
qed

lemma add_mod_inj:
  fixes i j :: nat
  assumes "(a + i) mod M = (a + j) mod M" "i < M" "j < M"
  shows "i = j"
proof -
  have le: "x = y" if "(a + x) mod M = (a + y) mod M" "y \<le> x" "x < M" for x y
  proof -
    have "M dvd (a + x) - (a + y)" using that by (intro mod_eq_dvd_iff_nat[THEN iffD1]) simp_all
    then have "M dvd x - y" by simp
    then show ?thesis using that dvd_imp_le[of M "x - y"] by linarith
  qed
  show ?thesis using le[of i j] le[of j i] assms by (cases "j \<le> i") simp_all
qed

lemma draw_ids_length [simp]: "length (draw_ids n s) = n"
  by (induction n arbitrary: s) (simp_all add: Let_def case_prod_unfold)

text \<open>
  A request id handed out is never 0, and the ids handed out one after the other are distinct
  until the 32-bit counter has gone through all of its 4294967295 values.
\<close>

theorem request_ids_are_distinct:
  assumes inv: "result_store_inv s" and n: "n \<le> 4294967295"
  shows "distinct (draw_ids n s) \<and> 0 \<notin> set (draw_ids n s)"
proof
  have c: "rs_next_request_id s \<noteq> 0" using inv by (simp add: result_store_inv_def)
  show "0 \<notin> set (draw_ids n s)"
    using draw_ids_nth[OF c] by (fastforce simp: in_set_conv_nth)
  show "distinct (draw_ids n s)"
    unfolding distinct_conv_nth
  proof (intro allI impI)
    fix i j
    assume ij: "i < length (draw_ids n s)" "j < length (draw_ids n s)" "i \<noteq> j"
    show "draw_ids n s ! i \<noteq> draw_ids n s ! j"
    proof
      assume "draw_ids n s ! i = draw_ids n s ! j"
      then have "(unat (rs_next_request_id s) - 1 + i) mod 4294967295 = (unat (rs_next_request_id s) - 1 + j) mod 4294967295"
        using draw_ids_nth[OF c, of i n] draw_ids_nth[OF c, of j n] ij by simp
      then show False using add_mod_inj[of _ i 4294967295 j] ij n by simp
    qed
  qed
qed

lemma request_ids_are_distinct_witness:
  "distinct (draw_ids 100 (result_store_init () () () ()))"
  by (rule conjunct1[OF request_ids_are_distinct[OF result_store_inv_init]]) simp

end
