(* ===== verification/NvsStore.thy ===== *)
theory NvsStore
  imports SlotTable
begin

text \<open>
  The key/value store behind the configuration. On the target it is the NVS library of the SDK,
  which is not part of the sources; the code relies on the interface \<open>nvs\<close> below, where \<open>get\<close>
  gives the stored value (\<open>None\<close> for every status but OK) and \<open>put\<close> says whether it returned
  OK. On the host it is the table of sixteen entries of \<^verbatim>\<open>components/app_hal/hal_nvs.c\<close>, modelled
  here, which provides the interface. Keys are those NVS accepts: not empty, at most 15 characters.
\<close>

definition key_ok :: "string \<Rightarrow> bool" where
  "key_ok k \<longleftrightarrow> k \<noteq> [] \<and> length k \<le> 15"

locale nvs =
  fixes get :: "string \<Rightarrow> 's \<Rightarrow> u32 option"
    and put :: "string \<Rightarrow> u32 \<Rightarrow> 's \<Rightarrow> bool \<times> 's"
    and ok :: "'s \<Rightarrow> bool"
  assumes put_ok: "ok s \<Longrightarrow> key_ok k \<Longrightarrow> ok (snd (put k v s))"
    and get_put: "ok s \<Longrightarrow> key_ok k \<Longrightarrow> fst (put k v s) \<Longrightarrow> get k (snd (put k v s)) = Some v"
    and get_put_other: "ok s \<Longrightarrow> key_ok k \<Longrightarrow> key_ok k' \<Longrightarrow> k' \<noteq> k \<Longrightarrow> get k' (snd (put k v s)) = get k' s"

section \<open>The table of the host build\<close>

record HostEntry =
  he_used :: bool
  he_key :: string
  he_value :: u32

definition host_entry_default :: HostEntry where
  "host_entry_default = \<lparr>he_used = False, he_key = [], he_value = 0\<rparr>"

definition host_init :: "HostEntry list" where
  "host_init = replicate 16 host_entry_default"

text \<open>\<^verbatim>\<open>host_copy_cstr\<close> into a key of 32 bytes keeps the first 31 characters.\<close>

definition host_key :: "string \<Rightarrow> string" where
  "host_key k = take 31 k"

definition host_find :: "string \<Rightarrow> HostEntry list \<Rightarrow> nat option" where
  "host_find k es = find_index (\<lambda>e. he_used e \<and> he_key e = k) es"

definition host_get :: "string \<Rightarrow> HostEntry list \<Rightarrow> u32 option" where
  "host_get k es = map_option (\<lambda>i. he_value (es ! i)) (host_find k es)"

definition host_set :: "string \<Rightarrow> u32 \<Rightarrow> HostEntry list \<Rightarrow> bool \<times> HostEntry list" where
  "host_set k v es =
     (if k = [] then (False, es)
      else (case host_find k es of
              Some i \<Rightarrow> (True, es[i := (es ! i)\<lparr>he_value := v\<rparr>])
            | None \<Rightarrow>
                (case find_index (\<lambda>e. \<not> he_used e) es of
                   None \<Rightarrow> (False, es)
                 | Some i \<Rightarrow> (True, es[i := \<lparr>he_used = True, he_key = host_key k, he_value = v\<rparr>]))))"

interpretation host: slot_table he_used he_key host_entry_default
  by unfold_locales (simp add: host_entry_default_def)

lemma host_find_eq: "host_find k es = find_slot he_used he_key k es"
  by (simp add: host_find_def find_slot_def)

lemma host_get_map: "host_get k es = map_option he_value (slot_map he_used he_key es k)"
  by (simp add: host_get_def host_find_eq slot_map_def option.map_comp comp_def)

definition host_ok :: "HostEntry list \<Rightarrow> bool" where
  "host_ok es \<longleftrightarrow> unique_slots he_used he_key es"

lemma host_ok_init: "host_ok host_init"
  by (simp add: host_ok_def host_init_def host.empty_unique)

lemma host_set_cases:
  assumes "host_ok es" "key_ok k"
  shows "host_set k v es = (False, es) \<or>
    (\<exists>i. host.writable i \<lparr>he_used = True, he_key = k, he_value = v\<rparr> es \<and>
       host_set k v es = (True, es[i := \<lparr>he_used = True, he_key = k, he_value = v\<rparr>]))"
proof (cases "host_find k es")
  case (Some i)
  note d = host.find_slotD[OF Some[unfolded host_find_eq]]
  have "(es ! i)\<lparr>he_value := v\<rparr> = \<lparr>he_used = True, he_key = k, he_value = v\<rparr>"
    using d by (cases "es ! i") simp
  then have "host_set k v es = (True, es[i := \<lparr>he_used = True, he_key = k, he_value = v\<rparr>])"
    using Some assms(2) by (simp add: host_set_def key_ok_def)
  moreover have "host.writable i \<lparr>he_used = True, he_key = k, he_value = v\<rparr> es"
    using Some d by (simp add: host.writable_def host_find_eq)
  ultimately show ?thesis by blast
next
  case None
  have "host_key k = k" using assms(2) by (simp add: host_key_def key_ok_def)
  then show ?thesis
    using None assms(2) find_index_SomeD[of "\<lambda>e. \<not> he_used e" es]
    by (auto simp: host_set_def host.writable_def key_ok_def host_find_eq split: option.split)
qed

interpretation host_nvs: nvs host_get host_set host_ok
proof
  fix es :: "HostEntry list" and k k' v
  assume es: "host_ok es" and k: "key_ok k"
  note u = es[unfolded host_ok_def]
  from host_set_cases[OF es k, of v]
  have all: "host_ok (snd (host_set k v es)) \<and>
      (fst (host_set k v es) \<longrightarrow> host_get k (snd (host_set k v es)) = Some v) \<and>
      (k' \<noteq> k \<longrightarrow> host_get k' (snd (host_set k v es)) = host_get k' es)"
  proof (elim disjE exE conjE)
    assume "host_set k v es = (False, es)"
    then show ?thesis using es by simp
  next
    fix i
    assume w: "host.writable i \<lparr>he_used = True, he_key = k, he_value = v\<rparr> es"
      and s: "host_set k v es = (True, es[i := \<lparr>he_used = True, he_key = k, he_value = v\<rparr>])"
    show ?thesis using host.write_unique[OF u w] host.write_map[OF u w]
      by (simp add: s host_ok_def host_get_map)
  qed
  then show "host_ok (snd (host_set k v es))"
    and "fst (host_set k v es) \<Longrightarrow> host_get k (snd (host_set k v es)) = Some v"
    and "k' \<noteq> k \<Longrightarrow> host_get k' (snd (host_set k v es)) = host_get k' es" by simp_all
qed

lemma host_set_free:
  assumes "host_ok es" "key_ok k" "count_where he_used es < length es"
  shows "fst (host_set k v es)"
  using find_index_free_iff[of he_used es] assms
  by (auto simp: host_set_def key_ok_def split: option.split)

end
