(* ===== verification/ConfigManager.thy ===== *)
theory ConfigManager
  imports NvsStore
begin

text \<open>
  \<^verbatim>\<open>components/service/config_manager.cpp\<close>: the configuration of the gateway, its reporting
  profiles and policies, and their load, save and migration between schema versions. The operations
  that touch the store take the two functions \<open>get\<close> and \<open>put\<close> of the store (\<^verbatim>\<open>hal_nvs_get_u32\<close>
  and \<^verbatim>\<open>hal_nvs_set_u32\<close>, see NvsStore) and its state.
\<close>

section \<open>Data\<close>

datatype ReportingDeviceClass = kClassUnknown | kTemperature | kMotion | kContact

record ReportingProfileKey =
  pk_short_addr :: u16
  pk_endpoint :: u8
  pk_cluster_id :: u16

record ReportingProfile =
  rp_in_use :: bool
  rp_key :: ReportingProfileKey
  rp_min_interval_seconds :: u16
  rp_max_interval_seconds :: u16
  rp_reportable_change :: u32
  rp_capability_flags :: u8

record ReportingPolicyDefault =
  po_in_use :: bool
  po_cluster_id :: u16
  po_min_interval_seconds :: u16
  po_max_interval_seconds :: u16
  po_reportable_change :: u32
  po_capability_flags :: u8
  po_occupancy_debounce_ms :: u32
  po_occupancy_hold_ms :: u32

datatype LoadStatus = kNotLoaded | kReady | kMigrated | kFreshInstall | kFailed

record LoadReport =
  lo_status :: LoadStatus
  lo_from_schema_version :: u32
  lo_to_schema_version :: u32
  lo_schema_key_missing :: bool
  lo_schema_repair_persist_failed :: bool

record ConfigManager =
  cm_schema_version :: u32
  cm_command_timeout_ms :: u32
  cm_max_command_retries :: u8
  cm_reporting_profiles :: "ReportingProfile list"
  cm_reporting_policy_defaults :: "ReportingPolicyDefault list"
  cm_dirty :: bool
  cm_load_report :: LoadReport

definition kCurrentSchemaVersion :: u32 where "kCurrentSchemaVersion = 3"
definition kDefaultCommandTimeoutMs :: u32 where "kDefaultCommandTimeoutMs = 5000"
definition kDefaultMaxCommandRetries :: u8 where "kDefaultMaxCommandRetries = 1"
definition kMaxCommandRetries :: u8 where "kMaxCommandRetries = 5"
definition kMaxReportingProfiles :: nat where "kMaxReportingProfiles = 16"
definition kReportingDeviceClassCount :: nat where "kReportingDeviceClassCount = 3"

definition profile_key_default :: ReportingProfileKey where
  "profile_key_default = \<lparr>pk_short_addr = 0, pk_endpoint = 0, pk_cluster_id = 0\<rparr>"

definition profile_default :: ReportingProfile where
  "profile_default = \<lparr>rp_in_use = False, rp_key = profile_key_default, rp_min_interval_seconds = 0,
     rp_max_interval_seconds = 0, rp_reportable_change = 0, rp_capability_flags = 0\<rparr>"

definition policy_default :: ReportingPolicyDefault where
  "policy_default = \<lparr>po_in_use = False, po_cluster_id = 0, po_min_interval_seconds = 0,
     po_max_interval_seconds = 0, po_reportable_change = 0, po_capability_flags = 0,
     po_occupancy_debounce_ms = 0, po_occupancy_hold_ms = 0\<rparr>"

definition load_report_default :: LoadReport where
  "load_report_default = \<lparr>lo_status = kNotLoaded, lo_from_schema_version = 0,
     lo_to_schema_version = kCurrentSchemaVersion, lo_schema_key_missing = False,
     lo_schema_repair_persist_failed = False\<rparr>"

definition config_init :: ConfigManager where
  "config_init = \<lparr>cm_schema_version = kCurrentSchemaVersion,
     cm_command_timeout_ms = kDefaultCommandTimeoutMs,
     cm_max_command_retries = kDefaultMaxCommandRetries,
     cm_reporting_profiles = replicate kMaxReportingProfiles profile_default,
     cm_reporting_policy_defaults = replicate kReportingDeviceClassCount policy_default,
     cm_dirty = False, cm_load_report = load_report_default\<rparr>"

section \<open>Keys and words of the store\<close>

definition kKeySchemaVersion :: string where "kKeySchemaVersion = ''cfg_schema_ver''"
definition kKeyTimeoutMs :: string where "kKeyTimeoutMs = ''cfg_cmd_tmo_ms''"
definition kKeyMaxRetries :: string where "kKeyMaxRetries = ''cfg_cmd_retry''"
definition kKeyReportingProfileCount :: string where "kKeyReportingProfileCount = ''cfg_rpt_cnt''"
definition kLegacyV2KeyReportingProfileCount :: string where
  "kLegacyV2KeyReportingProfileCount = ''cfg_rpt_count''"
definition kLegacyKeyTimeoutMs :: string where "kLegacyKeyTimeoutMs = ''cmd_tmo_ms''"
definition kLegacyKeyMaxRetries :: string where "kLegacyKeyMaxRetries = ''cmd_retries''"

definition kProfileKeyValidBit :: u32 where "kProfileKeyValidBit = push_bit 24 1"
definition kProfileKeyShortMask :: u32 where "kProfileKeyShortMask = 0x0000FFFF"
definition kProfileKeyEndpointMask :: u32 where "kProfileKeyEndpointMask = 0x00FF0000"
definition kProfileClusterMask :: u32 where "kProfileClusterMask = 0x0000FFFF"
definition kProfileCapsMask :: u32 where "kProfileCapsMask = 0x00FF0000"

text \<open>\<^verbatim>\<open>%02u\<close> of an index below 100.\<close>

definition two_digits :: "nat \<Rightarrow> string" where
  "two_digits i = [char_of (48 + i div 10), char_of (48 + i mod 10)]"

text \<open>The keys always fit the buffers of sixteen bytes, so only the index test can fail.\<close>

definition build_profile_nvs_key :: "char \<Rightarrow> nat \<Rightarrow> string option" where
  "build_profile_nvs_key prefix i =
     (if i \<ge> kMaxReportingProfiles then None else Some (''rptp_'' @ prefix # two_digits i))"

definition build_legacy_v2_profile_nvs_key :: "char \<Rightarrow> nat \<Rightarrow> string option" where
  "build_legacy_v2_profile_nvs_key prefix i =
     (if i \<ge> kMaxReportingProfiles then None else Some (''cfg_rpt_'' @ prefix # two_digits i))"

text \<open>\<open>None\<close> for \<^verbatim>\<open>false\<close>; the key word sets the address and the endpoint of the key it is given.\<close>

definition decode_profile_key_word :: "u32 \<Rightarrow> ReportingProfileKey \<Rightarrow> ReportingProfileKey option" where
  "decode_profile_key_word key_word k =
     (if key_word AND kProfileKeyValidBit = 0 then None
      else
        let k' = k\<lparr>pk_short_addr := ucast (key_word AND kProfileKeyShortMask),
                   pk_endpoint := ucast (drop_bit 16 (key_word AND kProfileKeyEndpointMask))\<rparr>
        in if pk_short_addr k' \<noteq> 0 \<and> pk_endpoint k' \<noteq> 0 then Some k' else None)"

definition encode_profile_key_word :: "ReportingProfileKey \<Rightarrow> u32" where
  "encode_profile_key_word k =
     (0 OR ucast (pk_short_addr k)) OR push_bit 16 (ucast (pk_endpoint k)) OR kProfileKeyValidBit"

definition encode_profile_cluster_caps_word :: "u16 \<Rightarrow> u8 \<Rightarrow> u32" where
  "encode_profile_cluster_caps_word cluster_id capability_flags =
     (0 OR ucast cluster_id) OR push_bit 16 (ucast capability_flags)"

definition interval_word :: "u16 \<Rightarrow> u16 \<Rightarrow> u32" where
  "interval_word lo hi = ucast lo OR push_bit 16 (ucast hi)"

definition is_valid_timeout_ms :: "u32 \<Rightarrow> bool" where "is_valid_timeout_ms t \<longleftrightarrow> t > 0"

definition is_valid_max_retries :: "u32 \<Rightarrow> bool" where
  "is_valid_max_retries n \<longleftrightarrow> n \<le> ucast kMaxCommandRetries"

definition is_valid_reporting_policy :: "ReportingPolicyDefault \<Rightarrow> bool" where
  "is_valid_reporting_policy p \<longleftrightarrow>
     (if \<not> po_in_use p then False
      else if po_cluster_id p = 0 then False
      else if po_max_interval_seconds p \<noteq> 0 \<and> po_min_interval_seconds p > po_max_interval_seconds p
      then False else True)"

section \<open>What the store holds\<close>

type_synonym 's getter = "string \<Rightarrow> 's \<Rightarrow> u32 option"
type_synonym 's setter = "string \<Rightarrow> u32 \<Rightarrow> 's \<Rightarrow> bool \<times> 's"

definition has_u32_key :: "'s getter \<Rightarrow> string \<Rightarrow> 's \<Rightarrow> bool" where
  "has_u32_key get k s \<longleftrightarrow> k \<noteq> [] \<and> get k s \<noteq> None"

definition has_slot_key :: "'s getter \<Rightarrow> string option \<Rightarrow> 's \<Rightarrow> bool" where
  "has_slot_key get k s = (case k of None \<Rightarrow> False | Some k' \<Rightarrow> has_u32_key get k' s)"

definition has_current_reporting_profile_keys :: "'s getter \<Rightarrow> 's \<Rightarrow> bool" where
  "has_current_reporting_profile_keys get s \<longleftrightarrow>
     has_u32_key get kKeyReportingProfileCount s \<or> has_slot_key get (build_profile_nvs_key (CHR ''k'') 0) s"

definition has_current_scalar_keys :: "'s getter \<Rightarrow> 's \<Rightarrow> bool" where
  "has_current_scalar_keys get s \<longleftrightarrow> has_u32_key get kKeyTimeoutMs s \<or> has_u32_key get kKeyMaxRetries s"

definition has_current_schema_keys :: "'s getter \<Rightarrow> 's \<Rightarrow> bool" where
  "has_current_schema_keys get s \<longleftrightarrow> has_current_scalar_keys get s \<or> has_current_reporting_profile_keys get s"

definition has_legacy_v2_keys :: "'s getter \<Rightarrow> 's \<Rightarrow> bool" where
  "has_legacy_v2_keys get s \<longleftrightarrow>
     has_u32_key get kKeyTimeoutMs s \<or> has_u32_key get kKeyMaxRetries s \<or>
     has_u32_key get kLegacyV2KeyReportingProfileCount s \<or>
     has_slot_key get (build_legacy_v2_profile_nvs_key (CHR ''k'') 0) s"

definition has_legacy_v1_keys :: "'s getter \<Rightarrow> 's \<Rightarrow> bool" where
  "has_legacy_v1_keys get s \<longleftrightarrow>
     has_u32_key get kLegacyKeyTimeoutMs s \<or> has_u32_key get kLegacyKeyMaxRetries s"

section \<open>Profiles and policies\<close>

definition find_profile_index :: "ReportingProfileKey \<Rightarrow> ConfigManager \<Rightarrow> nat option" where
  "find_profile_index k c = find_index (\<lambda>p. rp_in_use p \<and> rp_key p = k) (cm_reporting_profiles c)"

definition find_free_profile_index :: "ConfigManager \<Rightarrow> nat option" where
  "find_free_profile_index c = find_index (\<lambda>p. \<not> rp_in_use p) (cm_reporting_profiles c)"

definition set_reporting_profile :: "ReportingProfile \<Rightarrow> ConfigManager \<Rightarrow> bool \<times> ConfigManager" where
  "set_reporting_profile p c =
     (if \<not> rp_in_use p \<or> pk_short_addr (rp_key p) = 0 \<or> pk_endpoint (rp_key p) = 0 \<or>
         pk_cluster_id (rp_key p) = 0
      then (False, c)
      else (case (case find_profile_index (rp_key p) c of
                    Some i \<Rightarrow> Some i | None \<Rightarrow> find_free_profile_index c) of
              None \<Rightarrow> (False, c)
            | Some i \<Rightarrow>
                (True, c\<lparr>cm_reporting_profiles := (cm_reporting_profiles c)[i := p\<lparr>rp_in_use := True\<rparr>],
                         cm_dirty := True\<rparr>)))"

definition clear_reporting_profile :: "ReportingProfileKey \<Rightarrow> ConfigManager \<Rightarrow> bool \<times> ConfigManager" where
  "clear_reporting_profile k c =
     (case find_profile_index k c of
        None \<Rightarrow> (False, c)
      | Some i \<Rightarrow> (True, c\<lparr>cm_reporting_profiles := (cm_reporting_profiles c)[i := profile_default],
                           cm_dirty := True\<rparr>))"

definition get_reporting_profile :: "ReportingProfileKey \<Rightarrow> ConfigManager \<Rightarrow> ReportingProfile option" where
  "get_reporting_profile k c = map_option ((!) (cm_reporting_profiles c)) (find_profile_index k c)"

definition reporting_profile_count :: "ConfigManager \<Rightarrow> nat" where
  "reporting_profile_count c = count_where rp_in_use (cm_reporting_profiles c)"

definition valid_reporting_device_class :: "ReportingDeviceClass \<Rightarrow> bool" where
  "valid_reporting_device_class d \<longleftrightarrow> d = kTemperature \<or> d = kMotion \<or> d = kContact"

fun reporting_device_class_index :: "ReportingDeviceClass \<Rightarrow> nat" where
  "reporting_device_class_index kTemperature = 0"
| "reporting_device_class_index kMotion = 1"
| "reporting_device_class_index kContact = 2"
| "reporting_device_class_index kClassUnknown = 0"

fun default_policy_for_class :: "ReportingDeviceClass \<Rightarrow> ReportingPolicyDefault" where
  "default_policy_for_class kTemperature = policy_default\<lparr>po_in_use := True, po_cluster_id := 0x0402,
     po_min_interval_seconds := 5, po_max_interval_seconds := 300, po_reportable_change := 10,
     po_capability_flags := 1\<rparr>"
| "default_policy_for_class kMotion = policy_default\<lparr>po_in_use := True, po_cluster_id := 0x0406,
     po_min_interval_seconds := 1, po_max_interval_seconds := 120, po_reportable_change := 0,
     po_capability_flags := 2, po_occupancy_debounce_ms := 250, po_occupancy_hold_ms := 1000\<rparr>"
| "default_policy_for_class kContact = policy_default\<lparr>po_in_use := True, po_cluster_id := 0x0500,
     po_min_interval_seconds := 1, po_max_interval_seconds := 300, po_reportable_change := 0,
     po_capability_flags := 4\<rparr>"
| "default_policy_for_class kClassUnknown = policy_default"

definition set_reporting_policy_default ::
  "ReportingDeviceClass \<Rightarrow> ReportingPolicyDefault \<Rightarrow> ConfigManager \<Rightarrow> bool \<times> ConfigManager" where
  "set_reporting_policy_default d p c =
     (if \<not> valid_reporting_device_class d \<or> \<not> is_valid_reporting_policy p then (False, c)
      else (True, c\<lparr>cm_reporting_policy_defaults :=
                      (cm_reporting_policy_defaults c)[reporting_device_class_index d := p],
                    cm_dirty := True\<rparr>))"

text \<open>The value written to \<^verbatim>\<open>*out\<close>, if any, beside the result.\<close>

definition get_reporting_policy_default ::
  "ReportingDeviceClass \<Rightarrow> ConfigManager \<Rightarrow> bool \<times> ReportingPolicyDefault option" where
  "get_reporting_policy_default d c =
     (if \<not> valid_reporting_device_class d then (False, None)
      else let p = cm_reporting_policy_defaults c ! reporting_device_class_index d in (po_in_use p, Some p))"

definition profile_of_policy :: "ReportingProfileKey \<Rightarrow> ReportingPolicyDefault \<Rightarrow> ReportingProfile" where
  "profile_of_policy k p =
     \<lparr>rp_in_use = True, rp_key = k, rp_min_interval_seconds = po_min_interval_seconds p,
      rp_max_interval_seconds = po_max_interval_seconds p,
      rp_reportable_change = po_reportable_change p, rp_capability_flags = po_capability_flags p\<rparr>"

definition resolve_reporting_profile ::
  "ReportingProfileKey \<Rightarrow> ReportingDeviceClass \<Rightarrow> ConfigManager \<Rightarrow> ReportingProfile option" where
  "resolve_reporting_profile k d c =
     (if pk_short_addr k = 0 \<or> pk_endpoint k = 0 then None
      else (case get_reporting_profile k c of
              Some p \<Rightarrow> Some p
            | None \<Rightarrow>
                (case get_reporting_policy_default d c of
                   (True, Some policy) \<Rightarrow>
                     let resolved_cluster =
                           (if pk_cluster_id k \<noteq> 0 then pk_cluster_id k else po_cluster_id policy)
                     in if resolved_cluster = 0 then None
                        else if pk_cluster_id k \<noteq> 0 \<and> pk_cluster_id k \<noteq> po_cluster_id policy then None
                        else Some (profile_of_policy (k\<lparr>pk_cluster_id := resolved_cluster\<rparr>) policy)
                 | _ \<Rightarrow> None)))"

definition motion_occupancy_debounce_ms :: "ConfigManager \<Rightarrow> u32" where
  "motion_occupancy_debounce_ms c =
     po_occupancy_debounce_ms (cm_reporting_policy_defaults c ! reporting_device_class_index kMotion)"

definition motion_occupancy_hold_ms :: "ConfigManager \<Rightarrow> u32" where
  "motion_occupancy_hold_ms c =
     po_occupancy_hold_ms (cm_reporting_policy_defaults c ! reporting_device_class_index kMotion)"

definition set_command_timeout_ms :: "u32 \<Rightarrow> ConfigManager \<Rightarrow> bool \<times> ConfigManager" where
  "set_command_timeout_ms t c =
     (if \<not> is_valid_timeout_ms t then (False, c)
      else if cm_command_timeout_ms c = t then (True, c)
      else (True, c\<lparr>cm_command_timeout_ms := t, cm_dirty := True\<rparr>))"

definition set_max_command_retries :: "u8 \<Rightarrow> ConfigManager \<Rightarrow> bool \<times> ConfigManager" where
  "set_max_command_retries n c =
     (if \<not> is_valid_max_retries (ucast n) then (False, c)
      else if cm_max_command_retries c = n then (True, c)
      else (True, c\<lparr>cm_max_command_retries := n, cm_dirty := True\<rparr>))"

definition loaded_ok :: "ConfigManager \<Rightarrow> bool" where
  "loaded_ok c \<longleftrightarrow> lo_status (cm_load_report c) = kReady \<or> lo_status (cm_load_report c) = kMigrated \<or>
     lo_status (cm_load_report c) = kFreshInstall"

definition migration_performed :: "ConfigManager \<Rightarrow> bool" where
  "migration_performed c \<longleftrightarrow> lo_status (cm_load_report c) = kMigrated"

section \<open>Load, save, migrate\<close>

text \<open>The value of a key, or the value the variable had before when the read fails.\<close>

definition read_or :: "'s getter \<Rightarrow> string \<Rightarrow> u32 \<Rightarrow> 's \<Rightarrow> u32" where
  "read_or get k d s = (case get k s of Some v \<Rightarrow> v | None \<Rightarrow> d)"

text \<open>A chain of writes that stops at the first one that fails.\<close>

fun set_u32s :: "'s setter \<Rightarrow> (string \<times> u32) list \<Rightarrow> 's \<Rightarrow> bool \<times> 's" where
  "set_u32s put [] s = (True, s)"
| "set_u32s put ((k, v) # kvs) s =
     (let (ok, s1) = put k v s in if ok then set_u32s put kvs s1 else (False, s1))"

definition slot_keys :: "(char \<Rightarrow> nat \<Rightarrow> string option) \<Rightarrow> nat \<Rightarrow> (string \<times> string \<times> string \<times> string) option" where
  "slot_keys build i =
     (case (build (CHR ''k'') i, build (CHR ''c'') i, build (CHR ''i'') i, build (CHR ''r'') i) of
        (Some k, Some c, Some n, Some r) \<Rightarrow> Some (k, c, n, r)
      | _ \<Rightarrow> None)"

definition load_current_values :: "'s getter \<Rightarrow> 's \<Rightarrow> ConfigManager \<Rightarrow> ConfigManager" where
  "load_current_values get s c =
     c\<lparr>cm_command_timeout_ms :=
         (case get kKeyTimeoutMs s of
            Some t \<Rightarrow> if is_valid_timeout_ms t then t else kDefaultCommandTimeoutMs
          | None \<Rightarrow> kDefaultCommandTimeoutMs),
       cm_max_command_retries :=
         (case get kKeyMaxRetries s of
            Some n \<Rightarrow> if is_valid_max_retries n then ucast n else kDefaultMaxCommandRetries
          | None \<Rightarrow> kDefaultMaxCommandRetries)\<rparr>"

text \<open>What the loop of \<^verbatim>\<open>load_reporting_profiles\<close> puts in slot \<open>i\<close>; a \<^verbatim>\<open>continue\<close> leaves the default.\<close>

definition load_profile :: "'s getter \<Rightarrow> nat \<Rightarrow> 's \<Rightarrow> ReportingProfile" where
  "load_profile get i s =
     (case slot_keys build_profile_nvs_key i of
        None \<Rightarrow> profile_default
      | Some (key_slot, cluster_slot, interval_slot, reportable_slot) \<Rightarrow>
          (case get key_slot s of
             None \<Rightarrow> profile_default
           | Some key_word \<Rightarrow>
               if key_word = 0 then profile_default
               else (case decode_profile_key_word key_word profile_key_default of
                       None \<Rightarrow> profile_default
                     | Some k \<Rightarrow>
                         (case get cluster_slot s of
                            None \<Rightarrow> profile_default
                          | Some w \<Rightarrow>
                              let cluster = ucast (w AND kProfileClusterMask);
                                  caps = ucast (drop_bit 16 (w AND kProfileCapsMask));
                                  iw = read_or get interval_slot 0 s;
                                  rc = read_or get reportable_slot 0 s
                              in if cluster = 0 then profile_default
                                 else \<lparr>rp_in_use = True, rp_key = k\<lparr>pk_cluster_id := cluster\<rparr>,
                                       rp_min_interval_seconds = ucast (iw AND 0xFFFF),
                                       rp_max_interval_seconds = ucast (drop_bit 16 iw AND 0xFFFF),
                                       rp_reportable_change = rc, rp_capability_flags = caps\<rparr>))))"

definition load_reporting_profiles :: "'s getter \<Rightarrow> 's \<Rightarrow> ConfigManager \<Rightarrow> ConfigManager" where
  "load_reporting_profiles get s c =
     (let persisted = read_or get kKeyReportingProfileCount 0 s;
          n = (if unat persisted > kMaxReportingProfiles then kMaxReportingProfiles else unat persisted)
      in c\<lparr>cm_reporting_profiles :=
             map (\<lambda>i. if i < n then load_profile get i s else profile_default) [0..<kMaxReportingProfiles]\<rparr>)"

text \<open>The words a profile is stored as.\<close>

definition profile_words :: "nat \<Rightarrow> ReportingProfile \<Rightarrow> (string \<times> u32) list option" where
  "profile_words i p =
     (case slot_keys build_profile_nvs_key i of
        None \<Rightarrow> None
      | Some (k, c, n, r) \<Rightarrow>
          Some [(k, encode_profile_key_word (rp_key p)),
                (c, encode_profile_cluster_caps_word (pk_cluster_id (rp_key p)) (rp_capability_flags p)),
                (n, interval_word (rp_min_interval_seconds p) (rp_max_interval_seconds p)),
                (r, rp_reportable_change p)])"

fun save_profiles_loop :: "'s setter \<Rightarrow> nat \<Rightarrow> ReportingProfile list \<Rightarrow> 's \<Rightarrow> bool \<times> 's" where
  "save_profiles_loop put write_index [] s = (True, s)"
| "save_profiles_loop put write_index (p # ps) s =
     (if \<not> rp_in_use p then save_profiles_loop put write_index ps s
      else (case profile_words write_index p of
              None \<Rightarrow> (False, s)
            | Some kvs \<Rightarrow>
                (let (ok, s1) = set_u32s put kvs s
                 in if ok then save_profiles_loop put (write_index + 1) ps s1 else (False, s1))))"

definition save_reporting_profiles :: "'s setter \<Rightarrow> ReportingProfile list \<Rightarrow> 's \<Rightarrow> bool \<times> 's" where
  "save_reporting_profiles put ps s =
     (let used_count = count_where rp_in_use ps;
          (ok, s1) = save_profiles_loop put 0 ps s
      in if ok then put kKeyReportingProfileCount (of_nat used_count) s1 else (False, s1))"

definition save :: "'s setter \<Rightarrow> ConfigManager \<Rightarrow> 's \<Rightarrow> bool \<times> ConfigManager \<times> 's" where
  "save put c s =
     (let (ok, s1) = set_u32s put [(kKeyTimeoutMs, cm_command_timeout_ms c),
                                   (kKeyMaxRetries, ucast (cm_max_command_retries c)),
                                   (kKeySchemaVersion, kCurrentSchemaVersion)] s
      in if \<not> ok then (False, c, s1)
         else (let (ok2, s2) = save_reporting_profiles put (cm_reporting_profiles c) s1
               in if \<not> ok2 then (False, c, s2)
                  else (True, c\<lparr>cm_schema_version := kCurrentSchemaVersion, cm_dirty := False\<rparr>, s2)))"

definition legacy_value :: "'s getter \<Rightarrow> string \<Rightarrow> string \<Rightarrow> u32 \<Rightarrow> (u32 \<Rightarrow> bool) \<Rightarrow> 's \<Rightarrow> u32" where
  "legacy_value get legacy current d ok s =
     (let v = (case get legacy s of Some v \<Rightarrow> v | None \<Rightarrow> read_or get current d s)
      in if ok v then v else d)"

definition migrate_v1 :: "'s getter \<Rightarrow> 's setter \<Rightarrow> 's \<Rightarrow> bool \<times> 's" where
  "migrate_v1 get put s =
     set_u32s put
       [(kKeyTimeoutMs, legacy_value get kLegacyKeyTimeoutMs kKeyTimeoutMs kDefaultCommandTimeoutMs
           is_valid_timeout_ms s),
        (kKeyMaxRetries, legacy_value get kLegacyKeyMaxRetries kKeyMaxRetries
           (ucast kDefaultMaxCommandRetries) is_valid_max_retries s),
        (kKeySchemaVersion, 2)] s"

text \<open>
  One legacy profile: \<open>None\<close> when the loop continues with the next one, otherwise the words to
  write to the slot of the current key space.
\<close>

definition legacy_profile_words :: "'s getter \<Rightarrow> nat \<Rightarrow> nat \<Rightarrow> 's \<Rightarrow> (string \<times> u32) list option" where
  "legacy_profile_words get i migrated s =
     (case slot_keys build_legacy_v2_profile_nvs_key i of
        None \<Rightarrow> None
      | Some (lk, lc, ln, lr) \<Rightarrow>
          (case (get lk s, get lc s) of
             (Some key_word, Some cluster_word) \<Rightarrow>
               (case decode_profile_key_word key_word profile_key_default of
                  None \<Rightarrow> None
                | Some _ \<Rightarrow>
                    if (ucast (cluster_word AND kProfileClusterMask) :: u16) = 0 then None
                    else (case slot_keys build_profile_nvs_key migrated of
                            None \<Rightarrow> None
                          | Some (k, c, n, r) \<Rightarrow>
                              Some [(k, key_word), (c, cluster_word), (n, read_or get ln 0 s),
                                    (r, read_or get lr 0 s)]))
           | _ \<Rightarrow> None))"

fun migrate_v2_loop :: "'s getter \<Rightarrow> 's setter \<Rightarrow> nat list \<Rightarrow> nat \<Rightarrow> 's \<Rightarrow> (bool \<times> nat) \<times> 's" where
  "migrate_v2_loop get put [] migrated s = ((True, migrated), s)"
| "migrate_v2_loop get put (i # is) migrated s =
     (case legacy_profile_words get i migrated s of
        None \<Rightarrow> migrate_v2_loop get put is migrated s
      | Some kvs \<Rightarrow>
          (let (ok, s1) = set_u32s put kvs s
           in if ok then migrate_v2_loop get put is (migrated + 1) s1 else ((False, migrated), s1)))"

definition migrate_v2_profiles :: "'s getter \<Rightarrow> 's setter \<Rightarrow> 's \<Rightarrow> bool \<times> 's" where
  "migrate_v2_profiles get put s =
     (let legacy_count = unat (read_or get kLegacyV2KeyReportingProfileCount 0 s);
          n = (if legacy_count > kMaxReportingProfiles then kMaxReportingProfiles else legacy_count);
          ((ok, migrated), s1) = migrate_v2_loop get put [0..<n] 0 s
      in if \<not> ok then (False, s1)
         else set_u32s put [(kKeyReportingProfileCount, of_nat migrated), (kKeySchemaVersion, 3)] s1)"

definition migrate_v2 :: "'s getter \<Rightarrow> 's setter \<Rightarrow> 's \<Rightarrow> bool \<times> 's" where
  "migrate_v2 get put s =
     (if (case get kKeyReportingProfileCount s of Some n \<Rightarrow> n > 0 | None \<Rightarrow> False)
      then put kKeySchemaVersion 3 s
      else migrate_v2_profiles get put s)"

text \<open>The loop over the versions.\<close>

function migrate_to_current :: "'s getter \<Rightarrow> 's setter \<Rightarrow> u32 \<Rightarrow> 's \<Rightarrow> bool \<times> 's" where
  "migrate_to_current get put version s =
     (if version < kCurrentSchemaVersion
      then if version = 1
           then (let (ok, s1) = migrate_v1 get put s
                 in if ok then migrate_to_current get put 2 s1 else (False, s1))
           else if version = 2
           then (let (ok, s1) = migrate_v2 get put s
                 in if ok then migrate_to_current get put 3 s1 else (False, s1))
           else (False, s)
      else (True, s))"
  by pat_completeness auto
termination
  by (relation "measure (\<lambda>(get, put, version, s). 3 - unat version)") auto

declare migrate_to_current.simps [simp del]

definition load_defaults :: "ConfigManager \<Rightarrow> ConfigManager" where
  "load_defaults c =
     c\<lparr>cm_load_report := load_report_default\<lparr>lo_to_schema_version := kCurrentSchemaVersion\<rparr>,
       cm_schema_version := kCurrentSchemaVersion,
       cm_command_timeout_ms := kDefaultCommandTimeoutMs,
       cm_max_command_retries := kDefaultMaxCommandRetries,
       cm_reporting_profiles := replicate kMaxReportingProfiles profile_default,
       cm_reporting_policy_defaults :=
         (((cm_reporting_policy_defaults c)
            [reporting_device_class_index kTemperature := default_policy_for_class kTemperature])
            [reporting_device_class_index kMotion := default_policy_for_class kMotion])
            [reporting_device_class_index kContact := default_policy_for_class kContact],
       cm_dirty := False\<rparr>"

definition load_values :: "'s getter \<Rightarrow> 's \<Rightarrow> ConfigManager \<Rightarrow> ConfigManager" where
  "load_values get s c = (load_reporting_profiles get s (load_current_values get s c))\<lparr>cm_dirty := False\<rparr>"

text \<open>Neither a schema version nor a known key: a new installation.\<close>

definition load_fresh :: "'s getter \<Rightarrow> 's setter \<Rightarrow> 's \<Rightarrow> ConfigManager \<Rightarrow> bool \<times> ConfigManager \<times> 's" where
  "load_fresh get put s c =
     (let (ok, s1) = put kKeySchemaVersion kCurrentSchemaVersion s;
          report = (cm_load_report c)
            \<lparr>lo_schema_repair_persist_failed := lo_schema_repair_persist_failed (cm_load_report c) \<or> \<not> ok,
             lo_status := kFreshInstall, lo_schema_key_missing := True,
             lo_from_schema_version := 0, lo_to_schema_version := kCurrentSchemaVersion\<rparr>
      in (True, load_values get s1 (c\<lparr>cm_load_report := report,
                                      cm_schema_version := kCurrentSchemaVersion\<rparr>), s1))"

text \<open>The schema version is known, read or guessed from the keys present.\<close>

definition load_known ::
  "'s getter \<Rightarrow> 's setter \<Rightarrow> bool \<Rightarrow> bool \<Rightarrow> u32 \<Rightarrow> 's \<Rightarrow> ConfigManager \<Rightarrow> bool \<times> ConfigManager \<times> 's" where
  "load_known get put missing needs_repair persisted s c =
     (let c1 = c\<lparr>cm_load_report := (cm_load_report c)\<lparr>lo_schema_key_missing := missing,
                    lo_from_schema_version := persisted\<rparr>\<rparr>;
          status = (\<lambda>x c. c\<lparr>cm_load_report := (cm_load_report c)\<lparr>lo_status := x\<rparr>\<rparr>)
      in if persisted = 0 \<or> persisted > kCurrentSchemaVersion then (False, status kFailed c1, s)
         else if persisted < kCurrentSchemaVersion
         then (let (ok, s1) = migrate_to_current get put persisted s
               in if \<not> ok then (False, status kFailed c1, s1)
                  else (True, load_values get s1
                          ((status kMigrated c1)\<lparr>cm_schema_version := kCurrentSchemaVersion\<rparr>), s1))
         else (let (ok, s1) = (if needs_repair then put kKeySchemaVersion persisted s else (True, s));
                   c2 = c1\<lparr>cm_load_report := (cm_load_report c1)\<lparr>lo_schema_repair_persist_failed :=
                           lo_schema_repair_persist_failed (cm_load_report c1) \<or> \<not> ok\<rparr>\<rparr>
               in (True, load_values get s1 ((status kReady c2)\<lparr>cm_schema_version := persisted\<rparr>), s1)))"

definition load :: "'s getter \<Rightarrow> 's setter \<Rightarrow> 's \<Rightarrow> ConfigManager \<Rightarrow> bool \<times> ConfigManager \<times> 's" where
  "load get put s c =
     (let c0 = load_defaults c;
          missing = get kKeySchemaVersion s = None;
          persisted = read_or get kKeySchemaVersion 0 s;
          needs_repair = missing \<or> persisted = 0
      in if needs_repair
         then if has_current_schema_keys get s
              then load_known get put missing needs_repair kCurrentSchemaVersion s c0
              else if has_legacy_v2_keys get s then load_known get put missing needs_repair 2 s c0
              else if has_legacy_v1_keys get s then load_known get put missing needs_repair 1 s c0
              else load_fresh get put s c0
         else load_known get put missing needs_repair persisted s c0)"
section \<open>Chains of writes\<close>

lemma set_u32s_append:
  "set_u32s put (a @ b) s = (let (ok, s1) = set_u32s put a s in if ok then set_u32s put b s1 else (False, s1))"
  by (induction a arbitrary: s) (auto simp: case_prod_unfold Let_def)

definition keys_ok :: "(string \<times> u32) list \<Rightarrow> bool" where
  "keys_ok kvs \<longleftrightarrow> (\<forall>k \<in> fst ` set kvs. key_ok k)"

lemma keys_ok_simps [simp]:
  "keys_ok []" "keys_ok ((k, v) # kvs) \<longleftrightarrow> key_ok k \<and> keys_ok kvs"
  "keys_ok (a @ b) \<longleftrightarrow> keys_ok a \<and> keys_ok b"
  by (auto simp: keys_ok_def)

context nvs
begin

lemma puts_ok: "ok s \<Longrightarrow> keys_ok kvs \<Longrightarrow> ok (snd (set_u32s put kvs s))"
  by (induction kvs arbitrary: s) (auto simp: case_prod_unfold Let_def put_ok)

lemma get_puts_other:
  "ok s \<Longrightarrow> keys_ok kvs \<Longrightarrow> key_ok k \<Longrightarrow> k \<notin> fst ` set kvs \<Longrightarrow>
   get k (snd (set_u32s put kvs s)) = get k s"
  by (induction kvs arbitrary: s) (auto simp: case_prod_unfold Let_def put_ok get_put_other)

lemma get_puts:
  "ok s \<Longrightarrow> keys_ok kvs \<Longrightarrow> distinct (map fst kvs) \<Longrightarrow> fst (set_u32s put kvs s) \<Longrightarrow>
   (k, v) \<in> set kvs \<Longrightarrow> get k (snd (set_u32s put kvs s)) = Some v"
proof (induction kvs arbitrary: s)
  case (Cons kv kvs)
  obtain k1 v1 where kv: "kv = (k1, v1)" by fastforce
  obtain s1 where s1: "put k1 v1 s = (True, s1)"
    using Cons.prems(4) kv by (auto simp: case_prod_unfold Let_def prod_eq_iff split: if_splits)
  have k1: "key_ok k1" "keys_ok kvs" using Cons.prems(2) kv by simp_all
  have ok1: "ok s1" using put_ok[OF Cons.prems(1) k1(1), of v1] s1 by simp
  have eq: "set_u32s put (kv # kvs) s = set_u32s put kvs s1" using s1 kv by simp
  show ?case
  proof (cases "(k, v) = kv")
    case True
    have "get k (snd (set_u32s put kvs s1)) = get k s1"
      using True kv Cons.prems(3) k1 by (intro get_puts_other[OF ok1]) simp_all
    also have "\<dots> = Some v" using get_put[OF Cons.prems(1) k1(1), of v1] s1 True kv by simp
    finally show ?thesis by (simp only: eq)
  next
    case False
    then have "(k, v) \<in> set kvs" using Cons.prems(5) by auto
    then show ?thesis
      using Cons.IH[OF ok1 k1(2)] Cons.prems(3,4) by (simp only: eq list.map distinct.simps)
  qed
qed simp

end

section \<open>Words\<close>
section \<open>Words\<close>

lemma u16_bitD: "bit (w :: u16) n \<Longrightarrow> n < 16"
  using bit_imp_le_length[of w n] by simp

lemma u8_bitD: "bit (w :: u8) n \<Longrightarrow> n < 8"
  using bit_imp_le_length[of w n] by simp

lemma mask_consts:
  "kProfileKeyShortMask = mask 16" "kProfileClusterMask = mask 16"
  "kProfileKeyEndpointMask = push_bit 16 (mask 8)" "kProfileCapsMask = push_bit 16 (mask 8)"
  "(0xFFFF :: u32) = mask 16" 
  by (simp_all add: kProfileKeyShortMask_def kProfileClusterMask_def kProfileKeyEndpointMask_def
      kProfileCapsMask_def mask_eq_exp_minus_1 push_bit_eq_mult)

lemma valid_bit: "bit kProfileKeyValidBit n \<longleftrightarrow> n = 24"
  unfolding kProfileKeyValidBit_def bit_push_bit_iff bit_1_iff by auto

lemmas word_bits = bit_and_iff bit_or_iff bit_push_bit_iff bit_drop_bit_eq bit_unsigned_iff
  bit_mask_iff valid_bit

lemma encode_short: "(ucast (encode_profile_key_word k AND kProfileKeyShortMask) :: u16) = pk_short_addr k"
  unfolding encode_profile_key_word_def mask_consts
  by (rule bit_word_eqI) (auto simp: word_bits dest: u16_bitD)

lemma encode_endpoint:
  "(ucast (drop_bit 16 (encode_profile_key_word k AND kProfileKeyEndpointMask)) :: u8) = pk_endpoint k"
  unfolding encode_profile_key_word_def mask_consts
  by (rule bit_word_eqI) (auto simp: word_bits dest: u16_bitD u8_bitD)

lemma encode_valid: "encode_profile_key_word k AND kProfileKeyValidBit \<noteq> 0"
proof
  assume "encode_profile_key_word k AND kProfileKeyValidBit = 0"
  then have "bit (encode_profile_key_word k AND kProfileKeyValidBit) 24 = bit (0 :: u32) 24" by (rule arg_cong)
  then show False
    unfolding encode_profile_key_word_def by (simp add: word_bits)
qed

lemma encode_nonzero: "encode_profile_key_word k \<noteq> 0"
  using encode_valid[of k] by auto

lemma encode_cluster:
  "(ucast (encode_profile_cluster_caps_word c f AND kProfileClusterMask) :: u16) = c"
  unfolding encode_profile_cluster_caps_word_def mask_consts
  by (rule bit_word_eqI) (auto simp: word_bits dest: u16_bitD)

lemma encode_caps:
  "(ucast (drop_bit 16 (encode_profile_cluster_caps_word c f AND kProfileCapsMask)) :: u8) = f"
  unfolding encode_profile_cluster_caps_word_def mask_consts
  by (rule bit_word_eqI) (auto simp: word_bits dest: u16_bitD u8_bitD)

lemma interval_low: "(ucast (interval_word lo hi AND 0xFFFF) :: u16) = lo"
  unfolding interval_word_def mask_consts
  by (rule bit_word_eqI) (auto simp: word_bits dest: u16_bitD)

lemma interval_high: "(ucast (drop_bit 16 (interval_word lo hi) AND 0xFFFF) :: u16) = hi"
  unfolding interval_word_def mask_consts
  by (rule bit_word_eqI) (auto simp: word_bits dest: u16_bitD)

lemma decode_encode:
  "decode_profile_key_word (encode_profile_key_word k) k0 =
     (if pk_short_addr k \<noteq> 0 \<and> pk_endpoint k \<noteq> 0
      then Some (k0\<lparr>pk_short_addr := pk_short_addr k, pk_endpoint := pk_endpoint k\<rparr>) else None)"
  by (simp add: decode_profile_key_word_def encode_valid encode_short encode_endpoint Let_def del: drop_bit_and)
section \<open>Saving is one chain of writes\<close>

definition key_at :: "char \<Rightarrow> nat \<Rightarrow> string" where
  "key_at c i = ''rptp_'' @ c # two_digits i"

definition profile_kvs :: "nat \<Rightarrow> ReportingProfile \<Rightarrow> (string \<times> u32) list" where
  "profile_kvs i p =
     [(key_at (CHR ''k'') i, encode_profile_key_word (rp_key p)),
      (key_at (CHR ''c'') i,
       encode_profile_cluster_caps_word (pk_cluster_id (rp_key p)) (rp_capability_flags p)),
      (key_at (CHR ''i'') i, interval_word (rp_min_interval_seconds p) (rp_max_interval_seconds p)),
      (key_at (CHR ''r'') i, rp_reportable_change p)]"

fun profile_writes :: "nat \<Rightarrow> ReportingProfile list \<Rightarrow> (string \<times> u32) list" where
  "profile_writes i [] = []"
| "profile_writes i (p # ps) = profile_kvs i p @ profile_writes (Suc i) ps"

definition save_writes :: "ConfigManager \<Rightarrow> (string \<times> u32) list" where
  "save_writes c =
     [(kKeyTimeoutMs, cm_command_timeout_ms c), (kKeyMaxRetries, ucast (cm_max_command_retries c)),
      (kKeySchemaVersion, kCurrentSchemaVersion)] @
     profile_writes 0 (filter rp_in_use (cm_reporting_profiles c)) @
     [(kKeyReportingProfileCount, of_nat (count_where rp_in_use (cm_reporting_profiles c)))]"

lemma slot_keys_current:
  "i < kMaxReportingProfiles \<Longrightarrow> slot_keys build_profile_nvs_key i =
     Some (key_at (CHR ''k'') i, key_at (CHR ''c'') i, key_at (CHR ''i'') i, key_at (CHR ''r'') i)"
  by (simp add: slot_keys_def build_profile_nvs_key_def key_at_def)

lemma profile_words_eq: "i < kMaxReportingProfiles \<Longrightarrow> profile_words i p = Some (profile_kvs i p)"
  by (simp add: profile_words_def slot_keys_current profile_kvs_def)

lemma save_profiles_loop_eq:
  "i + count_where rp_in_use ps \<le> kMaxReportingProfiles \<Longrightarrow>
   save_profiles_loop put i ps s = set_u32s put (profile_writes i (filter rp_in_use ps)) s"
proof (induction ps arbitrary: i s)
  case (Cons p ps)
  show ?case
  proof (cases "rp_in_use p")
    case True
    then have i: "i < kMaxReportingProfiles" "Suc i + count_where rp_in_use ps \<le> kMaxReportingProfiles"
      using Cons.prems by (simp_all add: count_where_def)
    then show ?thesis
      using True Cons.IH[OF i(2)]
      by (simp add: profile_words_eq set_u32s_append case_prod_unfold Let_def)
  next
    case False
    then show ?thesis using Cons by (simp add: count_where_def)
  qed
qed simp

lemma save_eq:
  assumes "length (cm_reporting_profiles c) \<le> kMaxReportingProfiles"
  shows "save put c s =
    (let (ok, s1) = set_u32s put (save_writes c) s
     in (ok, if ok then c\<lparr>cm_schema_version := kCurrentSchemaVersion, cm_dirty := False\<rparr> else c, s1))"
proof -
  have "0 + count_where rp_in_use (cm_reporting_profiles c) \<le> kMaxReportingProfiles"
    using assms count_where_le[of rp_in_use "cm_reporting_profiles c"] by simp
  note loop = save_profiles_loop_eq[OF this]
  show ?thesis
    unfolding save_def save_writes_def save_reporting_profiles_def loop set_u32s_append
    by (simp add: case_prod_unfold Let_def)
qed

lemma profile_writes_keys:
  "map fst (profile_writes i ps) = concat (map (\<lambda>j. [key_at (CHR ''k'') j, key_at (CHR ''c'') j,
     key_at (CHR ''i'') j, key_at (CHR ''r'') j]) [i..<i + length ps])"
  by (induction ps arbitrary: i) (simp_all add: upt_rec profile_kvs_def)

definition slot_key_list :: "nat \<Rightarrow> string list" where
  "slot_key_list n = concat (map (\<lambda>j. [key_at (CHR ''k'') j, key_at (CHR ''c'') j,
     key_at (CHR ''i'') j, key_at (CHR ''r'') j]) [0..<n])"

definition scalar_keys :: "string list" where
  "scalar_keys = [kKeyTimeoutMs, kKeyMaxRetries, kKeySchemaVersion, kKeyReportingProfileCount]"

lemma all_keys: "distinct (scalar_keys @ slot_key_list 16) \<and> list_all key_ok (scalar_keys @ slot_key_list 16)"
  by code_simp

lemma slot_key_list_split: "n \<le> 16 \<Longrightarrow> \<exists>ks. slot_key_list 16 = slot_key_list n @ ks"
proof -
  assume "n \<le> 16"
  then have "[0..<16] = [0..<n] @ [n..<16]" using upt_add_eq_append[of 0 n "16 - n"] by simp
  then show ?thesis unfolding slot_key_list_def by simp
qed

lemma save_writes_keys:
  "map fst (save_writes c) = [kKeyTimeoutMs, kKeyMaxRetries, kKeySchemaVersion] @
     slot_key_list (count_where rp_in_use (cm_reporting_profiles c)) @ [kKeyReportingProfileCount]"
  by (simp add: save_writes_def profile_writes_keys slot_key_list_def count_where_def)

lemma save_writes_ok:
  assumes "length (cm_reporting_profiles c) \<le> kMaxReportingProfiles"
  shows "keys_ok (save_writes c)" "distinct (map fst (save_writes c))"
proof -
  let ?n = "count_where rp_in_use (cm_reporting_profiles c)"
  have "?n \<le> 16"
    using assms count_where_le[of rp_in_use "cm_reporting_profiles c"]
    by (simp add: kMaxReportingProfiles_def)
  from slot_key_list_split[OF this] obtain ks where ks: "slot_key_list 16 = slot_key_list ?n @ ks" ..
  have a: "distinct (scalar_keys @ slot_key_list ?n)" "list_all key_ok (scalar_keys @ slot_key_list ?n)"
    using all_keys unfolding ks by auto
  have "set (map fst (save_writes c)) = set (scalar_keys @ slot_key_list ?n)"
    unfolding save_writes_keys by (auto simp: scalar_keys_def)
  then show "keys_ok (save_writes c)" using a(2) by (simp add: keys_ok_def list_all_iff)
  show "distinct (map fst (save_writes c))"
    using a(1) unfolding save_writes_keys by (auto simp: scalar_keys_def)
qed


section \<open>What a save leaves is what a load finds\<close>

definition profile_ok :: "ReportingProfile \<Rightarrow> bool" where
  "profile_ok p \<longleftrightarrow> rp_in_use p \<and> pk_short_addr (rp_key p) \<noteq> 0 \<and> pk_endpoint (rp_key p) \<noteq> 0 \<and>
     pk_cluster_id (rp_key p) \<noteq> 0"

text \<open>The invariant of the configuration: its arrays keep their sizes and its values their bounds.\<close>

definition config_ok :: "ConfigManager \<Rightarrow> bool" where
  "config_ok c \<longleftrightarrow> length (cm_reporting_profiles c) = kMaxReportingProfiles \<and>
     length (cm_reporting_policy_defaults c) = kReportingDeviceClassCount \<and>
     cm_command_timeout_ms c > 0 \<and> cm_max_command_retries c \<le> kMaxCommandRetries \<and>
     (\<forall>p \<in> set (cm_reporting_profiles c). rp_in_use p \<longrightarrow> profile_ok p)"

definition used_profiles :: "ConfigManager \<Rightarrow> ReportingProfile list" where
  "used_profiles c = filter rp_in_use (cm_reporting_profiles c)"

lemma load_profile_kvs:
  assumes "i < kMaxReportingProfiles" "profile_ok p"
    and "\<And>k v. (k, v) \<in> set (profile_kvs i p) \<Longrightarrow> get k s = Some v"
  shows "load_profile get i s = p"
proof -
  note g = assms(3)[unfolded profile_kvs_def, simplified]
  have kv: "get (key_at (CHR ''k'') i) s = Some (encode_profile_key_word (rp_key p))"
    "get (key_at (CHR ''c'') i) s =
       Some (encode_profile_cluster_caps_word (pk_cluster_id (rp_key p)) (rp_capability_flags p))"
    "get (key_at (CHR ''i'') i) s =
       Some (interval_word (rp_min_interval_seconds p) (rp_max_interval_seconds p))"
    "get (key_at (CHR ''r'') i) s = Some (rp_reportable_change p)"
    by (intro assms(3); simp add: profile_kvs_def)+
  show ?thesis
    using assms(2) unfolding load_profile_def slot_keys_current[OF assms(1)]
    by (cases p; cases "rp_key p")
       (simp add: kv read_or_def encode_nonzero decode_encode encode_cluster encode_caps interval_low
         interval_high profile_ok_def Let_def del: drop_bit_and)
qed

lemma profile_writes_mem:
  "j < length ps \<Longrightarrow> kv \<in> set (profile_kvs (i + j) (ps ! j)) \<Longrightarrow> kv \<in> set (profile_writes i ps)"
proof (induction ps arbitrary: i j)
  case (Cons p ps)
  then show ?case by (cases j) auto
qed simp

lemma load_reporting_profiles_saved:
  assumes c: "config_ok c"
    and g: "\<And>k v. (k, v) \<in> set (save_writes c) \<Longrightarrow> get k s = Some v"
  shows "cm_reporting_profiles (load_reporting_profiles get s d) =
    used_profiles c @ replicate (kMaxReportingProfiles - length (used_profiles c)) profile_default"
    (is "?l = ?r")
proof (rule nth_equalityI)
  let ?us = "used_profiles c"
  have len: "length ?us \<le> kMaxReportingProfiles"
    using c by (simp add: used_profiles_def config_ok_def) (metis length_filter_le)
  have cnt: "get kKeyReportingProfileCount s = Some (of_nat (length ?us))"
    by (rule g) (simp add: save_writes_def used_profiles_def count_where_def)
  have n: "unat (read_or get kKeyReportingProfileCount 0 s) = length ?us"
    using len by (simp add: read_or_def cnt kMaxReportingProfiles_def unat_of_nat)
  show "length ?l = length ?r" using len by (simp add: load_reporting_profiles_def Let_def)
  fix i
  assume "i < length ?l"
  then have i: "i < kMaxReportingProfiles" by (simp add: load_reporting_profiles_def Let_def)
  have l: "?l ! i = (if i < length ?us then load_profile get i s else profile_default)"
    using i len by (simp add: load_reporting_profiles_def Let_def n)
  show "?l ! i = ?r ! i"
  proof (cases "i < length ?us")
    case True
    have "?us ! i \<in> set ?us" using True by simp
    then have "profile_ok (?us ! i)" using c by (auto simp: used_profiles_def config_ok_def)
    then have "load_profile get i s = ?us ! i"
      using i profile_writes_mem[of i ?us _ 0] True
      by (intro load_profile_kvs g) (simp_all add: save_writes_def used_profiles_def)
    then show ?thesis using l True by (simp add: nth_append)
  next
    case False
    then show ?thesis using l i by (simp add: nth_append)
  qed
qed

lemma unat_ucast_u8: "unat (ucast (a :: u8) :: u32) = unat a"
proof -
  have "unat a < 4294967296" using unat_u8_less[of a] by linarith
  then show ?thesis by (simp add: unsigned_ucast_eq take_bit_nat_eq_self)
qed

lemma ucast_u8_le: "(ucast (a :: u8) :: u32) \<le> ucast b \<longleftrightarrow> a \<le> b"
  by (simp add: word_le_nat_alt unat_ucast_u8)

lemma ucast_u8_down: "(ucast (ucast (a :: u8) :: u32) :: u8) = a"
  by (rule bit_word_eqI) (auto simp: bit_unsigned_iff dest: u8_bitD)

lemma load_current_values_saved:
  assumes "config_ok c" and g: "\<And>k v. (k, v) \<in> set (save_writes c) \<Longrightarrow> get k s = Some v"
  shows "load_current_values get s d = d\<lparr>cm_command_timeout_ms := cm_command_timeout_ms c,
    cm_max_command_retries := cm_max_command_retries c\<rparr>"
proof -
  have "get kKeyTimeoutMs s = Some (cm_command_timeout_ms c)"
    "get kKeyMaxRetries s = Some (ucast (cm_max_command_retries c))"
    by (rule g, simp add: save_writes_def)+
  moreover have "is_valid_max_retries (ucast (cm_max_command_retries c))"
    using assms(1) by (simp add: is_valid_max_retries_def config_ok_def ucast_u8_le)
  moreover have "(ucast (ucast (cm_max_command_retries c) :: u32) :: u8) = cm_max_command_retries c"
    by (simp add: ucast_u8_down)
  ultimately show ?thesis
    using assms(1) by (simp add: load_current_values_def is_valid_timeout_ms_def config_ok_def)
qed


lemma get_reporting_profile_find:
  "get_reporting_profile k c = find (\<lambda>p. rp_in_use p \<and> rp_key p = k) (cm_reporting_profiles c)"
proof -
  have "map_option ((!) xs) (find_index P xs) = find P xs" for P and xs :: "ReportingProfile list"
    by (induction xs) (auto simp: option.map_comp comp_def)
  then show ?thesis by (simp add: get_reporting_profile_def find_profile_index_def)
qed

lemma profile_default_unused [simp]: "\<not> rp_in_use profile_default"
  by (simp add: profile_default_def)

lemma find_filter_used:
  "find (\<lambda>p. rp_in_use p \<and> rp_key p = k) (filter rp_in_use ps @ replicate n profile_default) =
   find (\<lambda>p. rp_in_use p \<and> rp_key p = k) ps"
proof (induction ps)
  case Nil
  show ?case by (induction n) (simp_all add: profile_default_def)
qed simp

lemma load_current:
  fixes get :: "'s getter"
  assumes "get kKeySchemaVersion s = Some kCurrentSchemaVersion"
  shows "\<exists>d0. load get put s c = (True, load_values get s d0, s) \<and>
    cm_schema_version d0 = kCurrentSchemaVersion \<and> lo_status (cm_load_report d0) = kReady"
  using assms
  by (simp add: load_def load_known_def read_or_def kCurrentSchemaVersion_def Let_def)
     (rule exI, rule conjI[OF refl], simp)

lemma load_values_fields:
  "cm_reporting_profiles (load_values get s d) = cm_reporting_profiles (load_reporting_profiles get s d)"
  "cm_command_timeout_ms (load_values get s d) = cm_command_timeout_ms (load_current_values get s d)"
  "cm_max_command_retries (load_values get s d) = cm_max_command_retries (load_current_values get s d)"
  "cm_schema_version (load_values get s d) = cm_schema_version d"
  "cm_load_report (load_values get s d) = cm_load_report d"
  "cm_reporting_policy_defaults (load_values get s d) = cm_reporting_policy_defaults d"
  "cm_dirty (load_values get s d) = False"
  by (simp_all add: load_values_def load_reporting_profiles_def load_current_values_def Let_def)

context nvs
begin

lemma saved_values:
  assumes "ok s" "config_ok c" "save put c s = (True, c', s')"
  shows "ok s'" and "\<And>k v. (k, v) \<in> set (save_writes c) \<Longrightarrow> get k s' = Some v"
proof -
  have len: "length (cm_reporting_profiles c) \<le> kMaxReportingProfiles"
    using assms(2) by (simp add: config_ok_def)
  have w: "set_u32s put (save_writes c) s = (True, s')"
    using assms(3) unfolding save_eq[OF len] by (auto simp: case_prod_unfold Let_def prod_eq_iff)
  show "ok s'" using puts_ok[OF assms(1) save_writes_ok(1)[OF len]] w by simp
  show "get k s' = Some v" if "(k, v) \<in> set (save_writes c)" for k v
    using get_puts[OF assms(1) save_writes_ok[OF len] _ that] w by simp
qed

lemma save_then_load:
  assumes "ok s" "config_ok c" "save put c s = (True, c', s')" "load get put s' c0 = (r, d, s2)"
  shows "r \<and> s2 = s' \<and> lo_status (cm_load_report d) = kReady \<and>
    cm_schema_version d = kCurrentSchemaVersion \<and> \<not> cm_dirty d \<and>
    cm_command_timeout_ms d = cm_command_timeout_ms c \<and>
    cm_max_command_retries d = cm_max_command_retries c \<and>
    reporting_profile_count d = reporting_profile_count c \<and>
    (\<forall>k. get_reporting_profile k d = get_reporting_profile k c)"
proof -
  note g = saved_values(2)[OF assms(1-3)]
  have schema: "get kKeySchemaVersion s' = Some kCurrentSchemaVersion"
    by (rule g) (simp add: save_writes_def)
  have p: "cm_reporting_profiles (load_reporting_profiles get s' d) =
      used_profiles c @ replicate (kMaxReportingProfiles - length (used_profiles c)) profile_default"
    for d by (rule load_reporting_profiles_saved[OF assms(2)]) (rule g)
  have v: "load_current_values get s' d = d\<lparr>cm_command_timeout_ms := cm_command_timeout_ms c,
      cm_max_command_retries := cm_max_command_retries c\<rparr>"
    for d by (rule load_current_values_saved[OF assms(2)]) (rule g)
  obtain d0 where d0: "load get put s' c0 = (True, load_values get s' d0, s')"
      "cm_schema_version d0 = kCurrentSchemaVersion" "lo_status (cm_load_report d0) = kReady"
    using load_current[where get = get and s = s' and put = put and c = c0, OF schema] by blast
  have d: "r" "s2 = s'" "d = load_values get s' d0" using assms(4) d0(1) by auto
  have ps: "cm_reporting_profiles d = used_profiles c @
      replicate (kMaxReportingProfiles - length (used_profiles c)) profile_default"
    unfolding d(3) load_values_fields by (rule p)
  show ?thesis
    unfolding get_reporting_profile_find reporting_profile_count_def ps
    by (simp add: d d0 load_values_fields v used_profiles_def find_filter_used
        count_where_def)
qed

end

section \<open>The invariant\<close>

text \<open>
  The configurations the gateway can reach. Between two operations the contents of the store may
  have changed in any way, so the store of each step is arbitrary.
\<close>

inductive config_reachable :: "'s getter \<Rightarrow> 's setter \<Rightarrow> ConfigManager \<Rightarrow> bool"
  for get :: "'s getter" and put :: "'s setter" where
  init: "config_reachable get put config_init"
| load: "config_reachable get put c \<Longrightarrow> config_reachable get put (fst (snd (load get put s c)))"
| save: "config_reachable get put c \<Longrightarrow> config_reachable get put (fst (snd (save put c s)))"
| timeout: "config_reachable get put c \<Longrightarrow> config_reachable get put (snd (set_command_timeout_ms t c))"
| retries: "config_reachable get put c \<Longrightarrow> config_reachable get put (snd (set_max_command_retries n c))"
| profile: "config_reachable get put c \<Longrightarrow> config_reachable get put (snd (set_reporting_profile p c))"
| clear: "config_reachable get put c \<Longrightarrow> config_reachable get put (snd (clear_reporting_profile k c))"
| policy: "config_reachable get put c \<Longrightarrow> config_reachable get put (snd (set_reporting_policy_default d po c))"

lemma config_ok_init: "config_ok config_init"
  by (simp add: config_ok_def config_init_def kDefaultCommandTimeoutMs_def kDefaultMaxCommandRetries_def
      kMaxCommandRetries_def)

lemma load_profile_ok: "rp_in_use (load_profile get i s) \<Longrightarrow> profile_ok (load_profile get i s)"
  by (auto simp: load_profile_def Let_def profile_ok_def decode_profile_key_word_def
      split: option.splits if_splits prod.splits)

lemma retries_bound: "is_valid_max_retries n \<Longrightarrow> (ucast n :: u8) \<le> kMaxCommandRetries"
proof -
  assume "is_valid_max_retries n"
  then have n: "unat n \<le> 5"
    by (simp add: is_valid_max_retries_def kMaxCommandRetries_def word_le_nat_alt)
  then have "take_bit 8 (unat n) = unat n" by (intro take_bit_nat_eq_self) simp
  then show ?thesis using n by (simp add: kMaxCommandRetries_def word_le_nat_alt unsigned_ucast_eq)
qed

lemma default_retries_bound: "kDefaultMaxCommandRetries \<le> kMaxCommandRetries"
  by (simp add: kDefaultMaxCommandRetries_def kMaxCommandRetries_def)

lemma load_values_ok:
  assumes "length (cm_reporting_policy_defaults c) = kReportingDeviceClassCount"
  shows "config_ok (load_values get s c)"
  using assms default_retries_bound
  by (auto simp: config_ok_def load_values_def load_reporting_profiles_def load_current_values_def
      Let_def kDefaultCommandTimeoutMs_def is_valid_timeout_ms_def retries_bound load_profile_ok
      split: option.split)

lemma load_defaults_ok: "config_ok c \<Longrightarrow> config_ok (load_defaults c)"
  using default_retries_bound
  by (simp add: config_ok_def load_defaults_def kDefaultCommandTimeoutMs_def)

lemma load_ok:
  assumes "config_ok c"
  shows "config_ok (fst (snd (load get put s c)))"
proof -
  have d: "config_ok (load_defaults c)" by (rule load_defaults_ok[OF assms])
  then have "config_ok (fst (snd (load_known get put m r v s (load_defaults c))))" for m r v
    by (auto simp: load_known_def Let_def case_prod_unfold config_ok_def intro!: load_values_ok[unfolded config_ok_def])
  moreover from d have "config_ok (fst (snd (load_fresh get put s (load_defaults c))))"
    by (auto simp: load_fresh_def Let_def case_prod_unfold config_ok_def intro!: load_values_ok[unfolded config_ok_def])
  ultimately show ?thesis by (simp add: load_def Let_def)
qed

lemma save_ok: "config_ok c \<Longrightarrow> config_ok (fst (snd (save put c s)))"
  by (auto simp: save_def Let_def case_prod_unfold config_ok_def)

lemma set_reporting_profile_ok: "config_ok c \<Longrightarrow> config_ok (snd (set_reporting_profile p c))"
  by (auto simp: set_reporting_profile_def config_ok_def profile_ok_def split: option.split
      dest!: set_update_subset_insert[THEN subsetD])

lemma clear_reporting_profile_ok: "config_ok c \<Longrightarrow> config_ok (snd (clear_reporting_profile k c))"
  by (auto simp: clear_reporting_profile_def config_ok_def split: option.split
      dest!: set_update_subset_insert[THEN subsetD])

lemma config_invariant: "config_reachable get put c \<Longrightarrow> config_ok c"
proof (induction rule: config_reachable.induct)
  case (timeout c t)
  then show ?case by (simp add: set_command_timeout_ms_def is_valid_timeout_ms_def config_ok_def)
next
  case (retries c n)
  then show ?case
    by (simp add: set_max_command_retries_def is_valid_max_retries_def config_ok_def ucast_u8_le)
next
  case (policy c d po)
  then show ?case by (simp add: set_reporting_policy_default_def config_ok_def)
qed (simp_all add: config_ok_init load_ok save_ok set_reporting_profile_ok clear_reporting_profile_ok)
section \<open>The profiles as a map\<close>

interpretation profiles: slot_table rp_in_use rp_key profile_default
  by unfold_locales simp

definition profile_map :: "ConfigManager \<Rightarrow> ReportingProfileKey \<rightharpoonup> ReportingProfile" where
  "profile_map c = slot_map rp_in_use rp_key (cm_reporting_profiles c)"

definition unique_profiles :: "ConfigManager \<Rightarrow> bool" where
  "unique_profiles c \<longleftrightarrow> unique_slots rp_in_use rp_key (cm_reporting_profiles c)"

lemma find_profile_index_eq: "find_profile_index k c = find_slot rp_in_use rp_key k (cm_reporting_profiles c)"
  by (simp add: find_profile_index_def find_slot_def)

lemma get_reporting_profile_map: "get_reporting_profile k c = profile_map c k"
  by (simp add: get_reporting_profile_def find_profile_index_eq profile_map_def slot_map_def)

lemma set_reporting_profile_cases:
  obtains (refused) "set_reporting_profile p c = (False, c)"
      "\<not> profile_ok p \<or> profile_map c (rp_key p) = None \<and>
         reporting_profile_count c = length (cm_reporting_profiles c)"
  | (stored) i where "profile_ok p" "profiles.writable i p (cm_reporting_profiles c)"
      "set_reporting_profile p c = (True, c\<lparr>cm_reporting_profiles := (cm_reporting_profiles c)[i := p],
         cm_dirty := True\<rparr>)"
proof (cases "profile_ok p")
  case False
  then show ?thesis using that(1) by (auto simp: set_reporting_profile_def profile_ok_def)
next
  case True
  then have p: "p\<lparr>rp_in_use := True\<rparr> = p" "rp_in_use p" by (cases p; simp add: profile_ok_def)+
  have eq: "set_reporting_profile p c =
      (case (case find_profile_index (rp_key p) c of Some i \<Rightarrow> Some i | None \<Rightarrow> find_free_profile_index c) of
         None \<Rightarrow> (False, c)
       | Some i \<Rightarrow> (True, c\<lparr>cm_reporting_profiles := (cm_reporting_profiles c)[i := p], cm_dirty := True\<rparr>))"
    using True unfolding set_reporting_profile_def profile_ok_def p(1) by simp
  show ?thesis
  proof (cases "find_profile_index (rp_key p) c")
    case (Some i)
    then show ?thesis
      using True p(2) that(2)[of i] profiles.find_slotD[of "rp_key p" "cm_reporting_profiles c" i]
      by (simp add: eq profiles.writable_def find_profile_index_eq)
  next
    case None
    then have m: "profile_map c (rp_key p) = None"
      by (simp add: profile_map_def slot_map_def find_profile_index_eq)
    show ?thesis
    proof (cases "find_free_profile_index c")
      case (Some i)
      then show ?thesis
        using None True p(2) that(2)[of i] find_index_SomeD[of "\<lambda>p. \<not> rp_in_use p" "cm_reporting_profiles c" i]
        by (simp add: eq profiles.writable_def
            find_profile_index_eq find_free_profile_index_def)
    next
      case None': None
      then have "reporting_profile_count c = length (cm_reporting_profiles c)"
        using find_index_free_iff[of rp_in_use "cm_reporting_profiles c"]
          count_where_le[of rp_in_use "cm_reporting_profiles c"]
        by (simp add: find_free_profile_index_def reporting_profile_count_def)
      then show ?thesis
        using None None' True m that(1) by (simp add: eq)
    qed
  qed
qed

lemma set_reporting_profile_spec:
  assumes u: "unique_profiles c" and s: "set_reporting_profile p c = (r, c')"
  shows "unique_profiles c' \<and>
    (r \<longleftrightarrow> profile_ok p \<and> (profile_map c (rp_key p) \<noteq> None \<or>
              reporting_profile_count c < length (cm_reporting_profiles c))) \<and>
    profile_map c' = (if r then (profile_map c)(rp_key p \<mapsto> p) else profile_map c)"
proof (cases p c rule: set_reporting_profile_cases)
  case refused
  then show ?thesis using u s by auto
next
  case (stored i)
  have c': "r" "cm_reporting_profiles c' = (cm_reporting_profiles c)[i := p]" using stored(3) s by auto
  note w = u[unfolded unique_profiles_def] stored(2)
  have "profile_map c (rp_key p) \<noteq> None \<or> reporting_profile_count c < length (cm_reporting_profiles c)"
  proof (rule disjCI)
    assume "\<not> reporting_profile_count c < length (cm_reporting_profiles c)"
    then have "\<not> (\<exists>j. find_index (\<lambda>x. \<not> rp_in_use x) (cm_reporting_profiles c) = Some j)"
      unfolding find_index_free_iff reporting_profile_count_def .
    then have "\<forall>x \<in> set (cm_reporting_profiles c). rp_in_use x"
      using find_index_None_iff[of "\<lambda>x. \<not> rp_in_use x" "cm_reporting_profiles c"] by auto
    then show "profile_map c (rp_key p) \<noteq> None"
      using stored(2) by (auto simp: profiles.writable_def profile_map_def slot_map_def)
  qed
  then show ?thesis
    using stored(1) c' profiles.write_unique[OF w] profiles.write_map[OF w]
    by (simp add: unique_profiles_def profile_map_def)
qed

lemma clear_reporting_profile_spec:
  assumes u: "unique_profiles c" and s: "clear_reporting_profile k c = (r, c')"
  shows "unique_profiles c' \<and> (r \<longleftrightarrow> profile_map c k \<noteq> None) \<and> profile_map c' = (profile_map c)(k := None)"
proof (cases "find_profile_index k c")
  case None
  then have "profile_map c k = None" by (simp add: profile_map_def slot_map_def find_profile_index_eq)
  then show ?thesis using None u s by (auto simp: clear_reporting_profile_def fun_upd_idem)
next
  case (Some i)
  then have c': "r" "cm_reporting_profiles c' = (cm_reporting_profiles c)[i := profile_default]"
    using s by (auto simp: clear_reporting_profile_def)
  have "profile_map c k \<noteq> None" using Some by (simp add: profile_map_def slot_map_def find_profile_index_eq)
  then show ?thesis
    using c' profiles.clear_unique[OF u[unfolded unique_profiles_def], of i]
      profiles.clear_map[OF u[unfolded unique_profiles_def] Some[unfolded find_profile_index_eq]]
    by (simp add: unique_profiles_def profile_map_def)
qed

lemma explicit_profile_aux:
  assumes u: "unique_profiles c" and p: "set_reporting_profile p c = (True, c1)"
    and cl: "clear_reporting_profile (rp_key p) c1 = (r, c2)"
    and pol: "get_reporting_policy_default d c = (True, Some po)" "po_cluster_id po = pk_cluster_id (rp_key p)"
  shows "(\<forall>d. resolve_reporting_profile (rp_key p) d c1 = Some p) \<and> r \<and>
    resolve_reporting_profile (rp_key p) d c2 = Some (profile_of_policy (rp_key p) po) \<and>
    (\<forall>k. k \<noteq> rp_key p \<longrightarrow> (\<forall>d. resolve_reporting_profile k d c2 = resolve_reporting_profile k d c))"
proof -
  note s1 = set_reporting_profile_spec[OF u p]
  note s2 = clear_reporting_profile_spec[OF conjunct1[OF s1] cl]
  have ok: "profile_ok p" using s1 by simp
  have m1: "profile_map c1 = (profile_map c)(rp_key p \<mapsto> p)" using s1 by simp
  have m2: "profile_map c2 = (profile_map c)(rp_key p := None)" using s2 m1 by simp
  have d1: "cm_reporting_policy_defaults c1 = cm_reporting_policy_defaults c"
    using p by (auto simp: set_reporting_profile_def split: if_splits option.splits)
  have d2: "cm_reporting_policy_defaults c2 = cm_reporting_policy_defaults c"
    using cl d1 by (auto simp: clear_reporting_profile_def split: option.splits)
  have pol2: "get_reporting_policy_default d' c2 = get_reporting_policy_default d' c" for d'
    by (simp add: get_reporting_policy_default_def d2)
  have rest: "resolve_reporting_profile k d' c2 = resolve_reporting_profile k d' c" if "k \<noteq> rp_key p" for k d'
    unfolding resolve_reporting_profile_def get_reporting_profile_map m2 pol2 using that by simp
  show ?thesis
    using ok s2 pol rest by (auto simp: resolve_reporting_profile_def get_reporting_profile_map m1 m2 pol2
        profile_ok_def Let_def)
qed
section \<open>Migration from the first schema\<close>

lemma has_u32_key_iff: "k \<noteq> [] \<Longrightarrow> has_u32_key get k s \<longleftrightarrow> get k s \<noteq> None"
  by (simp add: has_u32_key_def)

lemma scalar_keys_ok [simp]:
  "key_ok kKeyTimeoutMs" "key_ok kKeyMaxRetries" "key_ok kKeySchemaVersion"
  "key_ok kKeyReportingProfileCount" "key_ok kLegacyV2KeyReportingProfileCount"
  "key_ok kLegacyKeyTimeoutMs" "key_ok kLegacyKeyMaxRetries"
  by code_simp+

lemmas scalar_key_defs = kKeyTimeoutMs_def kKeyMaxRetries_def kKeySchemaVersion_def
  kKeyReportingProfileCount_def kLegacyV2KeyReportingProfileCount_def kLegacyKeyTimeoutMs_def
  kLegacyKeyMaxRetries_def

definition v1_writes :: "'s getter \<Rightarrow> 's \<Rightarrow> (string \<times> u32) list" where
  "v1_writes get s =
     [(kKeyTimeoutMs, legacy_value get kLegacyKeyTimeoutMs kKeyTimeoutMs kDefaultCommandTimeoutMs
         is_valid_timeout_ms s),
      (kKeyMaxRetries, legacy_value get kLegacyKeyMaxRetries kKeyMaxRetries
         (ucast kDefaultMaxCommandRetries) is_valid_max_retries s),
      (kKeySchemaVersion, 2)]"

lemma v1_writes_ok: "keys_ok (v1_writes get s)" "distinct (map fst (v1_writes get s))"
  by (simp_all add: v1_writes_def) (simp_all add: scalar_key_defs)

lemma migrate_from_1:
  "migrate_to_current get put 1 s =
     (let (ok, s1) = set_u32s put (v1_writes get s) s
      in if ok then migrate_v2 get put s1 else (False, s1))"
  by (simp add: migrate_to_current.simps[of get put 1] migrate_to_current.simps[of get put 2]
      migrate_to_current.simps[of get put 3] kCurrentSchemaVersion_def migrate_v1_def v1_writes_def
      case_prod_unfold Let_def) (auto simp: prod_eq_iff)

definition v1_store :: "'s getter \<Rightarrow> 's \<Rightarrow> bool" where
  "v1_store get s \<longleftrightarrow> get kKeySchemaVersion s = None \<and> \<not> has_current_schema_keys get s \<and>
     \<not> has_legacy_v2_keys get s \<and> has_legacy_v1_keys get s"

lemma v1_storeD:
  assumes "v1_store get s"
  shows "get kKeyTimeoutMs s = None" "get kKeyMaxRetries s = None" "get kKeyReportingProfileCount s = None"
    "get kLegacyV2KeyReportingProfileCount s = None"
  using assms by (simp_all add: v1_store_def has_current_schema_keys_def has_current_scalar_keys_def
      has_current_reporting_profile_keys_def has_legacy_v2_keys_def has_u32_key_def scalar_key_defs)

text \<open>The value a legacy key stands for.\<close>

definition migrated_value :: "'s getter \<Rightarrow> string \<Rightarrow> u32 \<Rightarrow> (u32 \<Rightarrow> bool) \<Rightarrow> 's \<Rightarrow> u32" where
  "migrated_value get k d ok s = (case get k s of Some v \<Rightarrow> if ok v then v else d | None \<Rightarrow> d)"

lemma migrated_value_ok: "ok d \<Longrightarrow> ok (migrated_value get k d ok s)"
  by (simp add: migrated_value_def split: option.split)

lemma v1_writes_mem:
  assumes "v1_store get s"
  shows "(kKeyTimeoutMs, migrated_value get kLegacyKeyTimeoutMs kDefaultCommandTimeoutMs
      is_valid_timeout_ms s) \<in> set (v1_writes get s)"
    "(kKeyMaxRetries, migrated_value get kLegacyKeyMaxRetries (ucast kDefaultMaxCommandRetries)
      is_valid_max_retries s) \<in> set (v1_writes get s)"
  using v1_storeD[OF assms]
  by (auto simp: v1_writes_def legacy_value_def migrated_value_def read_or_def Let_def
      is_valid_timeout_ms_def is_valid_max_retries_def kDefaultCommandTimeoutMs_def split: option.split)

context nvs
begin

lemma migrate_v1_store:
  assumes s: "ok s" and v1: "v1_store get s" and m: "migrate_to_current get put 1 s = (True, s')"
  shows "get kKeySchemaVersion s' = Some 3" "get kKeyReportingProfileCount s' = Some 0"
    "get kKeyTimeoutMs s' = Some (migrated_value get kLegacyKeyTimeoutMs kDefaultCommandTimeoutMs
       is_valid_timeout_ms s)"
    "get kKeyMaxRetries s' = Some (migrated_value get kLegacyKeyMaxRetries
       (ucast kDefaultMaxCommandRetries) is_valid_max_retries s)"
proof -
  let ?w2 = "[(kKeyReportingProfileCount, of_nat 0), (kKeySchemaVersion, 3)] :: (string \<times> u32) list"
  obtain s1 where s1: "set_u32s put (v1_writes get s) s = (True, s1)" "migrate_v2 get put s1 = (True, s')"
    using m unfolding migrate_from_1 by (auto simp: case_prod_unfold Let_def prod_eq_iff split: if_splits)
  have ok1: "ok s1" using puts_ok[OF s v1_writes_ok(1), of get s] s1(1) by simp
  have other: "get k s1 = get k s" if "key_ok k" "k \<notin> fst ` set (v1_writes get s)" for k
    using get_puts_other[OF s v1_writes_ok(1) that] s1(1) by simp
  have nk: "kKeyReportingProfileCount \<notin> fst ` set (v1_writes get s)"
    "kLegacyV2KeyReportingProfileCount \<notin> fst ` set (v1_writes get s)"
    by (simp_all add: v1_writes_def) (simp_all add: scalar_key_defs)
  have none: "get kKeyReportingProfileCount s1 = None" "get kLegacyV2KeyReportingProfileCount s1 = None"
    using v1_storeD[OF v1] other[OF _ nk(1)] other[OF _ nk(2)] by simp_all
  have w2: "set_u32s put ?w2 s1 = (True, s')"
    using s1(2) by (simp add: migrate_v2_def none migrate_v2_profiles_def read_or_def)
  have k2: "keys_ok ?w2" "distinct (map fst ?w2)" by (simp_all add: scalar_key_defs keys_ok_def key_ok_def)
  have get2: "get k s' = Some v" if "(k, v) \<in> set ?w2" for k v
    using get_puts[OF ok1 k2 _ that] w2 by simp
  have keep: "get k s' = get k s1" if "key_ok k" "k \<notin> fst ` set ?w2" for k
    using get_puts_other[OF ok1 k2(1) that] w2 by simp
  show "get kKeySchemaVersion s' = Some 3" "get kKeyReportingProfileCount s' = Some 0"
    by (rule get2, simp)+
  have get1: "get k s1 = Some v" if "(k, v) \<in> set (v1_writes get s)" for k v
    using get_puts[OF s v1_writes_ok _ that] s1(1) by simp
  have ne: "kKeyTimeoutMs \<notin> fst ` set ?w2" "kKeyMaxRetries \<notin> fst ` set ?w2"
    by (simp_all add: scalar_key_defs)
  show "get kKeyTimeoutMs s' = Some (migrated_value get kLegacyKeyTimeoutMs kDefaultCommandTimeoutMs
      is_valid_timeout_ms s)"
    using keep[OF _ ne(1)] get1[OF v1_writes_mem(1)[OF v1]] by simp
  show "get kKeyMaxRetries s' = Some (migrated_value get kLegacyKeyMaxRetries
      (ucast kDefaultMaxCommandRetries) is_valid_max_retries s)"
    using keep[OF _ ne(2)] get1[OF v1_writes_mem(2)[OF v1]] by simp
qed

lemma load_v1_store:
  assumes s: "ok s" and v1: "v1_store get s" and l: "load get put s c = (True, d, s')"
  shows "lo_status (cm_load_report d) = kMigrated \<and> lo_from_schema_version (cm_load_report d) = 1 \<and>
    cm_command_timeout_ms d =
      migrated_value get kLegacyKeyTimeoutMs kDefaultCommandTimeoutMs is_valid_timeout_ms s \<and>
    cm_max_command_retries d = ucast (migrated_value get kLegacyKeyMaxRetries
      (ucast kDefaultMaxCommandRetries) is_valid_max_retries s) \<and>
    reporting_profile_count d = 0 \<and>
    (\<forall>c2. case load get put s' c2 of (r2, d2, s2) \<Rightarrow> r2 \<and> s2 = s' \<and>
       lo_status (cm_load_report d2) = kReady \<and>
       cm_command_timeout_ms d2 = cm_command_timeout_ms d \<and>
       cm_max_command_retries d2 = cm_max_command_retries d)"
proof -
  have cond: "has_current_schema_keys get s = False" "has_legacy_v2_keys get s = False"
    "has_legacy_v1_keys get s" "get kKeySchemaVersion s = None"
    using v1 by (simp_all add: v1_store_def)
  have l1: "load get put s c = load_known get put True True 1 s (load_defaults c)"
    by (simp add: load_def cond read_or_def Let_def)
  have m: "migrate_to_current get put 1 s = (True, s')"
    and d: "\<exists>d0. d = load_values get s' d0 \<and> lo_status (cm_load_report d0) = kMigrated \<and>
      lo_from_schema_version (cm_load_report d0) = 1"
    using l unfolding l1 by (auto simp: load_known_def case_prod_unfold Let_def kCurrentSchemaVersion_def
        prod_eq_iff split: if_splits)
  then obtain d0 where d: "d = load_values get s' d0" "lo_status (cm_load_report d0) = kMigrated"
    "lo_from_schema_version (cm_load_report d0) = 1" by blast
  note g = migrate_v1_store[OF s v1 m]
  have v: "is_valid_timeout_ms (migrated_value get kLegacyKeyTimeoutMs kDefaultCommandTimeoutMs
      is_valid_timeout_ms s)"
    "is_valid_max_retries (migrated_value get kLegacyKeyMaxRetries
      (ucast kDefaultMaxCommandRetries) is_valid_max_retries s)"
    by (rule migrated_value_ok,
        simp add: is_valid_timeout_ms_def is_valid_max_retries_def kDefaultCommandTimeoutMs_def
          kDefaultMaxCommandRetries_def kMaxCommandRetries_def)+
  have again: "case load get put s' c2 of (r2, d2, s2) \<Rightarrow> r2 \<and> s2 = s' \<and>
       lo_status (cm_load_report d2) = kReady \<and>
       cm_command_timeout_ms d2 = cm_command_timeout_ms d \<and>
       cm_max_command_retries d2 = cm_max_command_retries d" for c2
    using load_current[where get = get and s = s' and put = put and c = c2] g(1)
    by (auto simp: kCurrentSchemaVersion_def load_values_fields d(1) load_current_values_def)
  have "reporting_profile_count d = 0"
    by (simp add: d(1) reporting_profile_count_def load_values_fields load_reporting_profiles_def
        read_or_def g(2) map_replicate_const Let_def)
  then show ?thesis
    using again by (simp add: d load_values_fields load_current_values_def g v)
qed

end
context nvs
begin

lemma shadowed_legacy_profiles_aux:
  assumes s: "ok s" and k: "get kKeySchemaVersion s = None" "get kKeyTimeoutMs s \<noteq> None"
      "get kKeyReportingProfileCount s = None"
    and l: "load get put s c = (r, d, s')"
  shows "r \<and> lo_status (cm_load_report d) = kReady \<and> reporting_profile_count d = 0"
proof -
  have "has_current_schema_keys get s"
    using k(2) by (simp add: has_current_schema_keys_def has_current_scalar_keys_def has_u32_key_def
        kKeyTimeoutMs_def)
  then have l1: "load get put s c = load_known get put True True kCurrentSchemaVersion s (load_defaults c)"
    by (simp add: load_def k(1) read_or_def Let_def)
  obtain d0 where d: "d = load_values get (snd (put kKeySchemaVersion kCurrentSchemaVersion s)) d0"
      "lo_status (cm_load_report d0) = kReady" "r"
    using l unfolding l1 by (auto simp: load_known_def case_prod_unfold Let_def kCurrentSchemaVersion_def)
  have "kKeyReportingProfileCount \<noteq> kKeySchemaVersion" by (simp add: scalar_key_defs)
  then have "get kKeyReportingProfileCount (snd (put kKeySchemaVersion kCurrentSchemaVersion s)) = None"
    using get_put_other[OF s] k(3) by simp
  then have "reporting_profile_count d = 0"
    by (simp add: d(1) reporting_profile_count_def load_values_fields load_reporting_profiles_def
        read_or_def map_replicate_const Let_def)
  then show ?thesis using d by (simp add: load_values_fields)
qed

end

section \<open>Properties\<close>

text \<open>
  C13: whatever the store holds and whatever its operations answer, a configuration reached by any
  sequence of loads, saves, setters and profile changes keeps a positive command timeout, at most
  five retries, the sizes of its arrays and only complete profiles.
\<close>

theorem configuration_stays_valid: "config_reachable get put c \<Longrightarrow> config_ok c"
  by (rule config_invariant)

definition sample_profile :: ReportingProfile where
  "sample_profile = \<lparr>rp_in_use = True, rp_key = \<lparr>pk_short_addr = 0x1234, pk_endpoint = 2, pk_cluster_id = 0x0402\<rparr>,
     rp_min_interval_seconds = 5, rp_max_interval_seconds = 300, rp_reportable_change = 10,
     rp_capability_flags = 1\<rparr>"

definition sample_config :: ConfigManager where
  "sample_config = snd (set_reporting_profile sample_profile (snd (set_max_command_retries 3
     (snd (set_command_timeout_ms 7000 config_init)))))"

definition bad_store :: "HostEntry list" where
  "bad_store = snd (set_u32s host_set [(kKeySchemaVersion, 3), (kKeyTimeoutMs, 0), (kKeyMaxRetries, 255)] host_init)"

lemma configuration_stays_valid_witness:
  "config_ok (fst (snd (load host_get host_set bad_store config_init)))"
  by (rule configuration_stays_valid[of host_get host_set])
     (rule config_reachable.load, rule config_reachable.init)

text \<open>
  C12: a configuration that was saved is found again by the next load, on any store that keeps what
  it accepted: the values, and for every key the reporting profile; the load reports it was ready
  and leaves the store alone.
\<close>

theorem saved_configuration_is_restored:
  assumes "nvs get put ok" "ok s" "config_ok c" "save put c s = (True, c', s')"
    and "load get put s' c0 = (r, d, s2)"
  shows "r \<and> s2 = s' \<and> lo_status (cm_load_report d) = kReady \<and>
    cm_schema_version d = kCurrentSchemaVersion \<and> \<not> cm_dirty d \<and>
    cm_command_timeout_ms d = cm_command_timeout_ms c \<and>
    cm_max_command_retries d = cm_max_command_retries c \<and>
    reporting_profile_count d = reporting_profile_count c \<and>
    (\<forall>k. get_reporting_profile k d = get_reporting_profile k c)"
  by (rule nvs.save_then_load[OF assms])

lemma sample_config_ok: "config_ok sample_config"
  unfolding sample_config_def
  by (intro config_invariant[of host_get host_set] config_reachable.profile config_reachable.retries
      config_reachable.timeout config_reachable.init)

lemma saved_configuration_is_restored_witness:
  "get_reporting_profile (rp_key sample_profile)
     (fst (snd (load host_get host_set (snd (snd (save host_set sample_config host_init))) config_init))) =
   Some sample_profile"
proof -
  have "fst (save host_set sample_config host_init)" by code_simp
  then obtain c' s' where s: "save host_set sample_config host_init = (True, c', s')"
    by (metis prod.collapse)
  obtain r d s2 where l: "load host_get host_set s' config_init = (r, d, s2)" by (metis prod.collapse)
  have "get_reporting_profile (rp_key sample_profile) sample_config = Some sample_profile" by code_simp
  then show ?thesis
    using saved_configuration_is_restored[OF host_nvs.nvs_axioms host_ok_init sample_config_ok s l] s l
    by simp
qed

text \<open>
  On the configuration as a map from keys to profiles, an explicit profile wins over the policy
  of every device class as soon as it is set; when it is cleared the policy of the class decides
  again, and no other key is affected.
\<close>

theorem explicit_profile_overrides_policy:
  assumes "unique_profiles c" "set_reporting_profile p c = (True, c1)"
    and "clear_reporting_profile (rp_key p) c1 = (r, c2)"
    and "get_reporting_policy_default d c = (True, Some po)" "po_cluster_id po = pk_cluster_id (rp_key p)"
  shows "(\<forall>d. resolve_reporting_profile (rp_key p) d c1 = Some p) \<and> r \<and>
    resolve_reporting_profile (rp_key p) d c2 = Some (profile_of_policy (rp_key p) po) \<and>
    (\<forall>k. k \<noteq> rp_key p \<longrightarrow> (\<forall>d. resolve_reporting_profile k d c2 = resolve_reporting_profile k d c))"
  by (rule explicit_profile_aux[OF assms])

lemma unique_profiles_defaults: "unique_profiles (load_defaults c)"
  by (simp add: unique_profiles_def load_defaults_def profiles.empty_unique)

lemma explicit_profile_overrides_policy_witness:
  "resolve_reporting_profile (rp_key sample_profile) kTemperature
     (snd (clear_reporting_profile (rp_key sample_profile)
        (snd (set_reporting_profile sample_profile (load_defaults config_init))))) =
   Some (profile_of_policy (rp_key sample_profile) (default_policy_for_class kTemperature))"
proof -
  have s: "fst (set_reporting_profile sample_profile (load_defaults config_init))" by code_simp
  have p: "get_reporting_policy_default kTemperature (load_defaults config_init) =
      (True, Some (default_policy_for_class kTemperature))"
    "po_cluster_id (default_policy_for_class kTemperature) = pk_cluster_id (rp_key sample_profile)"
    by code_simp+
  show ?thesis
    using explicit_profile_overrides_policy[OF unique_profiles_defaults _ _ p] s
    by (metis prod.collapse)
qed

text \<open>
  A store that only has the keys of the first schema is migrated by the load: its timeout and
  retries are kept when they are valid and replaced by the defaults otherwise, there are no
  profiles, and the next load finds a current store with the same values and migrates nothing.
\<close>

theorem first_schema_is_migrated_once:
  assumes "nvs get put ok" "ok s" "v1_store get s" "load get put s c = (True, d, s')"
  shows "lo_status (cm_load_report d) = kMigrated \<and> lo_from_schema_version (cm_load_report d) = 1 \<and>
    cm_command_timeout_ms d =
      migrated_value get kLegacyKeyTimeoutMs kDefaultCommandTimeoutMs is_valid_timeout_ms s \<and>
    cm_max_command_retries d = ucast (migrated_value get kLegacyKeyMaxRetries
      (ucast kDefaultMaxCommandRetries) is_valid_max_retries s) \<and>
    reporting_profile_count d = 0 \<and>
    (\<forall>c2. case load get put s' c2 of (r2, d2, s2) \<Rightarrow> r2 \<and> s2 = s' \<and>
       lo_status (cm_load_report d2) = kReady \<and>
       cm_command_timeout_ms d2 = cm_command_timeout_ms d \<and>
       cm_max_command_retries d2 = cm_max_command_retries d)"
  by (rule nvs.load_v1_store[OF assms])

definition legacy_store :: "HostEntry list" where
  "legacy_store = snd (set_u32s host_set [(kLegacyKeyTimeoutMs, 9000), (kLegacyKeyMaxRetries, 9)] host_init)"

lemma legacy_store_ok: "host_ok legacy_store"
  unfolding legacy_store_def by (rule host_nvs.puts_ok[OF host_ok_init]) simp

lemma first_schema_is_migrated_once_witness:
  "cm_command_timeout_ms (fst (snd (load host_get host_set legacy_store config_init))) = 9000"
proof -
  have "fst (load host_get host_set legacy_store config_init)" by code_simp
  then obtain d s' where l: "load host_get host_set legacy_store config_init = (True, d, s')"
    by (metis prod.collapse)
  have v: "v1_store host_get legacy_store" by code_simp
  have "migrated_value host_get kLegacyKeyTimeoutMs kDefaultCommandTimeoutMs is_valid_timeout_ms
      legacy_store = 9000" by code_simp
  then show ?thesis
    using first_schema_is_migrated_once[OF host_nvs.nvs_axioms legacy_store_ok v l] l by simp
qed

text \<open>
  A store without a schema version that has the timeout key, as the second schema writes it, is
  taken for the current schema: the load reports ready and finds no profile, whatever legacy
  profiles the store holds, so that the branch for the second schema is not reached.
\<close>

theorem second_schema_is_taken_for_current:
  assumes "nvs get put ok" "ok s" "get kKeySchemaVersion s = None" "get kKeyTimeoutMs s \<noteq> None"
    and "get kKeyReportingProfileCount s = None" "load get put s c = (r, d, s')"
  shows "r \<and> lo_status (cm_load_report d) = kReady \<and> reporting_profile_count d = 0"
  by (rule nvs.shadowed_legacy_profiles_aux[OF assms])

definition second_store :: "HostEntry list" where
  "second_store = snd (set_u32s host_set [(kKeyTimeoutMs, 5000), (kKeyMaxRetries, 1),
     (kLegacyV2KeyReportingProfileCount, 1), (''cfg_rpt_k00'', encode_profile_key_word (rp_key sample_profile)),
     (''cfg_rpt_c00'', 0x0402)] host_init)"

lemma second_schema_is_taken_for_current_witness:
  "has_legacy_v2_keys host_get second_store \<and>
   legacy_profile_words host_get 0 0 second_store \<noteq> None \<and>
   reporting_profile_count (fst (snd (load host_get host_set second_store config_init))) = 0"
proof -
  have ok: "host_ok second_store"
    unfolding second_store_def by (rule host_nvs.puts_ok[OF host_ok_init]) (simp, simp add: key_ok_def)
  have k: "host_get kKeySchemaVersion second_store = None" "host_get kKeyTimeoutMs second_store \<noteq> None"
    "host_get kKeyReportingProfileCount second_store = None"
    "has_legacy_v2_keys host_get second_store \<and> legacy_profile_words host_get 0 0 second_store \<noteq> None"
    by code_simp+
  obtain r d s' where l: "load host_get host_set second_store config_init = (r, d, s')"
    by (metis prod.collapse)
  show ?thesis
    using second_schema_is_taken_for_current[OF host_nvs.nvs_axioms ok k(1-3) l] k(4) l by simp
qed

end
