(* ===== verification/ReportingManager.thy ===== *)
theory ReportingManager
  imports ConfigManager CoreTypes
begin

text \<open>
  \<^verbatim>\<open>components/service/reporting_manager.cpp\<close>: per device, the set-up of its attribute reporting
  (interview, bind, configure) with its retries and backoff, the detection of silence, and the
  debounce and hold of occupancy reports. The state is the array of entries; the body of each
  operation on the entry it found is a function of that entry.
\<close>

section \<open>Data\<close>

datatype RmState =
  kStateUnknown | kPendingInterview | kPendingBind | kPendingConfigureReporting
| kStateReportingActive | kDegraded

datatype RetryTarget = kTargetNone | kBind | kConfigureReporting

datatype FailureReason = kReasonNone | kReasonTimeout | kNotSupported | kNetworkError | kUnsupportedAttr

record RuntimeActions =
  ra_request_interview :: bool
  ra_request_bind :: bool
  ra_request_configure_reporting :: bool
  ra_mark_degraded :: bool

record RetryStatus =
  re_target :: RetryTarget
  re_reason :: FailureReason
  re_attempt :: u8
  re_next_retry_at_ms :: u32
  re_pending :: bool

record OccupancyPolicy =
  op_debounce_ms :: u32
  op_hold_ms :: u32

record RmEntry =
  en_short_addr :: u16
  en_state :: RmState
  en_retry_target :: RetryTarget
  en_last_failure_reason :: FailureReason
  en_retry_attempt :: u8
  en_next_retry_at_ms :: u32
  en_retry_pending :: bool
  en_last_report_at_ms :: u32
  en_stale_pending :: bool
  en_occupancy_valid :: bool
  en_occupancy_stable :: bool
  en_occupancy_pending_valid :: bool
  en_occupancy_pending_target :: bool
  en_occupancy_pending_since_ms :: u32
  en_occupancy_hold_until_ms :: u32

type_synonym ReportingManager = "RmEntry list"

definition kMaxRetryAttempts :: u8 where "kMaxRetryAttempts = 3"
definition kBaseBackoffMs :: u32 where "kBaseBackoffMs = 1000"
definition kMaxBackoffMs :: u32 where "kMaxBackoffMs = 8000"
definition kDefaultMaxSilenceWindowMs :: u32 where "kDefaultMaxSilenceWindowMs = 15000"

definition no_actions :: RuntimeActions where
  "no_actions = \<lparr>ra_request_interview = False, ra_request_bind = False,
     ra_request_configure_reporting = False, ra_mark_degraded = False\<rparr>"

definition rm_entry_default :: RmEntry where
  "rm_entry_default =
     \<lparr>en_short_addr = kUnknownDeviceShortAddr, en_state = kStateUnknown, en_retry_target = kTargetNone,
      en_last_failure_reason = kReasonNone, en_retry_attempt = 0, en_next_retry_at_ms = 0,
      en_retry_pending = False, en_last_report_at_ms = 0, en_stale_pending = False,
      en_occupancy_valid = False, en_occupancy_stable = False, en_occupancy_pending_valid = False,
      en_occupancy_pending_target = False, en_occupancy_pending_since_ms = 0,
      en_occupancy_hold_until_ms = 0\<rparr>"

definition reporting_manager_init :: ReportingManager where
  "reporting_manager_init = replicate kMaxDevices rm_entry_default"

section \<open>Helpers\<close>

definition valid_short_addr :: "u16 \<Rightarrow> bool" where
  "valid_short_addr a \<longleftrightarrow> a \<noteq> kUnknownDeviceShortAddr \<and> a \<noteq> 0"

definition rm_find_index :: "u16 \<Rightarrow> ReportingManager \<Rightarrow> nat option" where
  "rm_find_index a es = find_index (\<lambda>e. en_short_addr e = a) es"

definition rm_find_free_index :: "ReportingManager \<Rightarrow> nat option" where
  "rm_find_free_index es = find_index (\<lambda>e. en_short_addr e = kUnknownDeviceShortAddr) es"

fun is_retryable_reason :: "FailureReason \<Rightarrow> bool" where
  "is_retryable_reason kReasonTimeout = True"
| "is_retryable_reason kNetworkError = True"
| "is_retryable_reason kReasonNone = False"
| "is_retryable_reason kNotSupported = False"
| "is_retryable_reason kUnsupportedAttr = False"

text \<open>The loop of \<^verbatim>\<open>compute_backoff_ms\<close> from \<open>i\<close>.\<close>

function backoff_loop :: "u8 \<Rightarrow> u8 \<Rightarrow> u32 \<Rightarrow> u32" where
  "backoff_loop i attempt delay =
     (if i < attempt
      then if delay \<ge> kMaxBackoffMs div 2 then kMaxBackoffMs
           else backoff_loop (i + 1) attempt (delay * 2)
      else delay)"
  by pat_completeness auto
termination
proof (relation "measure (\<lambda>(i, attempt, delay). unat attempt - unat i)")
  fix i attempt :: u8 and delay :: u32
  assume "i < attempt"
  then have lt: "unat i < unat attempt" by (simp add: word_less_nat_alt)
  then have "unat i + 1 < 256" using unat_u8_less[of attempt] by linarith
  then have "unat (i + 1) = unat i + 1" by (simp add: unat_word_ariths)
  note this lt
  then show "((i + 1, attempt, delay * 2), i, attempt, delay) \<in>
      measure (\<lambda>(i, attempt, delay). unat attempt - unat i)" by simp
qed simp

declare backoff_loop.simps [simp del]

definition compute_backoff_ms :: "u8 \<Rightarrow> u32" where
  "compute_backoff_ms attempt =
     (if attempt = 0 then kBaseBackoffMs
      else let delay = backoff_loop 1 attempt kBaseBackoffMs
           in if delay > kMaxBackoffMs then kMaxBackoffMs else delay)"

definition is_due :: "u32 \<Rightarrow> u32 \<Rightarrow> bool" where
  "is_due now_ms deadline_ms \<longleftrightarrow> now_ms - deadline_ms < 0x80000000"

definition classify_device_class :: "u16 \<Rightarrow> ReportingDeviceClass" where
  "classify_device_class cluster_id =
     (if cluster_id = 0x0402 then kTemperature
      else if cluster_id = 0x0406 then kMotion
      else if cluster_id = 0x0500 then kContact
      else kClassUnknown)"

definition clear_retry_state :: "RmEntry \<Rightarrow> RmEntry" where
  "clear_retry_state e = e\<lparr>en_retry_target := kTargetNone, en_last_failure_reason := kReasonNone,
     en_retry_attempt := 0, en_next_retry_at_ms := 0, en_retry_pending := False\<rparr>"

section \<open>Events\<close>

text \<open>The switch of \<^verbatim>\<open>handle_event\<close>.\<close>

definition handle_entry :: "CoreEvent \<Rightarrow> RmEntry \<Rightarrow> RuntimeActions \<times> RmEntry" where
  "handle_entry ev e =
     (case ev_type ev of
        kDeviceJoined \<Rightarrow>
          (if en_state e \<noteq> kPendingInterview
           then (no_actions\<lparr>ra_request_interview := True\<rparr>,
                 e\<lparr>en_state := kPendingInterview, en_stale_pending := False\<rparr>)
           else (no_actions, e\<lparr>en_stale_pending := False\<rparr>))
      | kDeviceInterviewCompleted \<Rightarrow>
          (if en_state (clear_retry_state e) \<noteq> kPendingBind
           then (no_actions\<lparr>ra_request_bind := True\<rparr>, (clear_retry_state e)\<lparr>en_state := kPendingBind\<rparr>)
           else (no_actions, clear_retry_state e))
      | kDeviceBindingReady \<Rightarrow>
          (if en_state (clear_retry_state e) \<noteq> kPendingConfigureReporting
           then (no_actions\<lparr>ra_request_configure_reporting := True\<rparr>,
                 (clear_retry_state e)\<lparr>en_state := kPendingConfigureReporting\<rparr>)
           else (no_actions, clear_retry_state e))
      | kDeviceReportingConfigured \<Rightarrow>
          (no_actions, (clear_retry_state e)\<lparr>en_state := kStateReportingActive, en_stale_pending := False\<rparr>)
      | kDeviceTelemetryUpdated \<Rightarrow>
          (let e1 = (clear_retry_state e)\<lparr>en_state := kStateReportingActive, en_stale_pending := False\<rparr>
           in (no_actions,
               if ev_value_u32 ev \<noteq> 0 then e1\<lparr>en_last_report_at_ms := ev_value_u32 ev\<rparr> else e1))
      | kDeviceStale \<Rightarrow>
          (let (acts, e1) = (if en_state e \<noteq> kDegraded
                             then (no_actions\<lparr>ra_mark_degraded := True\<rparr>, e\<lparr>en_state := kDegraded\<rparr>)
                             else (no_actions, e))
           in (acts, (clear_retry_state e1)\<lparr>en_stale_pending := False\<rparr>))
      | kDeviceLeft \<Rightarrow> (no_actions, rm_entry_default)
      | _ \<Rightarrow> (no_actions, e))"

definition rm_handle_event :: "CoreEvent \<Rightarrow> ReportingManager \<Rightarrow> RuntimeActions \<times> ReportingManager" where
  "rm_handle_event ev es =
     (if \<not> valid_short_addr (ev_device_short_addr ev) \<and> ev_type ev \<noteq> kEventUnknown then (no_actions, es)
      else
        let (index, es1) =
              (case rm_find_index (ev_device_short_addr ev) es of
                 Some i \<Rightarrow> (Some i, es)
               | None \<Rightarrow>
                   if ev_type ev = kDeviceJoined
                   then (case rm_find_free_index es of
                           Some i \<Rightarrow> (Some i, es[i := (es ! i)\<lparr>en_short_addr := ev_device_short_addr ev,
                                                           en_state := kStateUnknown\<rparr>])
                         | None \<Rightarrow> (None, es))
                   else (None, es))
        in case index of
             None \<Rightarrow> (no_actions, es1)
           | Some i \<Rightarrow> (let (acts, e) = handle_entry ev (es1 ! i) in (acts, es1[i := e])))"

section \<open>Failures and retries\<close>

definition fail_entry :: "RetryTarget \<Rightarrow> FailureReason \<Rightarrow> u32 \<Rightarrow> RmEntry \<Rightarrow> RuntimeActions \<times> RmEntry" where
  "fail_entry target reason now_ms e =
     (let e1 = e\<lparr>en_retry_target := target, en_last_failure_reason := reason\<rparr>;
          degraded = (no_actions\<lparr>ra_mark_degraded := True\<rparr>,
                      e1\<lparr>en_state := kDegraded, en_retry_pending := False\<rparr>)
      in if \<not> is_retryable_reason reason then degraded
         else if en_retry_attempt e1 \<ge> kMaxRetryAttempts then degraded
         else let n = en_retry_attempt e1 + 1
              in (no_actions, e1\<lparr>en_retry_attempt := n, en_retry_pending := True,
                                 en_next_retry_at_ms := now_ms + compute_backoff_ms n\<rparr>))"

definition report_operation_failure ::
  "u16 \<Rightarrow> RetryTarget \<Rightarrow> FailureReason \<Rightarrow> u32 \<Rightarrow> ReportingManager \<Rightarrow> RuntimeActions \<times> ReportingManager" where
  "report_operation_failure a target reason now_ms es =
     (if \<not> valid_short_addr a \<or> target = kTargetNone \<or> reason = kReasonNone then (no_actions, es)
      else (case rm_find_index a es of
              None \<Rightarrow> (no_actions, es)
            | Some i \<Rightarrow> (let (acts, e) = fail_entry target reason now_ms (es ! i) in (acts, es[i := e]))))"

text \<open>One iteration of \<^verbatim>\<open>process_timeouts\<close>.\<close>

definition retry_entry :: "u32 \<Rightarrow> RmEntry \<Rightarrow> RuntimeActions \<Rightarrow> RuntimeActions \<times> RmEntry" where
  "retry_entry now_ms e acts =
     (if en_short_addr e = kUnknownDeviceShortAddr \<or> \<not> en_retry_pending e then (acts, e)
      else if \<not> is_due now_ms (en_next_retry_at_ms e) then (acts, e)
      else let e1 = e\<lparr>en_retry_pending := False\<rparr>
           in case en_retry_target e1 of
                kBind \<Rightarrow> (acts\<lparr>ra_request_bind := True\<rparr>, e1\<lparr>en_state := kPendingBind\<rparr>)
              | kConfigureReporting \<Rightarrow>
                  (acts\<lparr>ra_request_configure_reporting := True\<rparr>, e1\<lparr>en_state := kPendingConfigureReporting\<rparr>)
              | kTargetNone \<Rightarrow> (acts, e1))"

fun process_timeouts_loop :: "u32 \<Rightarrow> ReportingManager \<Rightarrow> RuntimeActions \<Rightarrow> RuntimeActions \<times> ReportingManager" where
  "process_timeouts_loop now_ms [] acts = (acts, [])"
| "process_timeouts_loop now_ms (e # es) acts =
     (let (acts1, e1) = retry_entry now_ms e acts; (acts2, es1) = process_timeouts_loop now_ms es acts1
      in (acts2, e1 # es1))"

definition rm_process_timeouts :: "u32 \<Rightarrow> ReportingManager \<Rightarrow> RuntimeActions \<times> ReportingManager" where
  "rm_process_timeouts now_ms es = process_timeouts_loop now_ms es no_actions"

section \<open>Silence\<close>

definition silent_entry :: "u32 \<Rightarrow> u32 \<Rightarrow> RmEntry \<Rightarrow> bool" where
  "silent_entry now_ms max_silence_window_ms e \<longleftrightarrow>
     en_short_addr e \<noteq> kUnknownDeviceShortAddr \<and>
     \<not> (en_state e \<noteq> kStateReportingActive \<or> en_last_report_at_ms e = 0 \<or> en_stale_pending e) \<and>
     is_due now_ms (en_last_report_at_ms e + max_silence_window_ms)"

text \<open>The loop: \<open>room\<close> is what is left of the output array; the loop ends when it is full.\<close>

fun collect_stale_loop :: "u32 \<Rightarrow> u32 \<Rightarrow> nat \<Rightarrow> ReportingManager \<Rightarrow> u16 list \<times> ReportingManager" where
  "collect_stale_loop now_ms window room [] = ([], [])"
| "collect_stale_loop now_ms window room (e # es) =
     (if \<not> silent_entry now_ms window e
      then (let (out, es') = collect_stale_loop now_ms window room es in (out, e # es'))
      else if room = 0 then ([], e # es)
      else (let (out, es') = collect_stale_loop now_ms window (room - 1) es
            in (en_short_addr e # out, e\<lparr>en_stale_pending := True\<rparr> # es')))"

definition collect_stale_candidates :: "u32 \<Rightarrow> u32 \<Rightarrow> ReportingManager \<Rightarrow> u16 list \<times> ReportingManager" where
  "collect_stale_candidates now_ms window es =
     (if window = 0 then ([], es) else collect_stale_loop now_ms window kMaxDevices es)"

definition set_stale_pending :: "u16 \<Rightarrow> bool \<Rightarrow> ReportingManager \<Rightarrow> bool \<times> ReportingManager" where
  "set_stale_pending a pending es =
     (if \<not> valid_short_addr a then (False, es)
      else (case rm_find_index a es of
              None \<Rightarrow> (False, es)
            | Some i \<Rightarrow> (True, es[i := (es ! i)\<lparr>en_stale_pending := pending\<rparr>])))"

section \<open>Reads\<close>

definition rm_get_state :: "u16 \<Rightarrow> ReportingManager \<Rightarrow> RmState option" where
  "rm_get_state a es =
     (if \<not> valid_short_addr a then None else map_option (\<lambda>i. en_state (es ! i)) (rm_find_index a es))"

definition get_retry_status :: "u16 \<Rightarrow> ReportingManager \<Rightarrow> RetryStatus option" where
  "get_retry_status a es =
     (if \<not> valid_short_addr a then None
      else map_option (\<lambda>i. let e = es ! i in
             \<lparr>re_target = en_retry_target e, re_reason = en_last_failure_reason e,
              re_attempt = en_retry_attempt e, re_next_retry_at_ms = en_next_retry_at_ms e,
              re_pending = en_retry_pending e\<rparr>) (rm_find_index a es))"

definition degraded_count :: "ReportingManager \<Rightarrow> u32" where
  "degraded_count es = of_nat (count_where (\<lambda>e. en_state e = kDegraded) es)"

definition resolve_profile_for_device ::
  "ConfigManager \<Rightarrow> u16 \<Rightarrow> u8 \<Rightarrow> u16 \<Rightarrow> ReportingProfile option" where
  "resolve_profile_for_device config a endpoint cluster_id =
     (if \<not> valid_short_addr a \<or> endpoint = 0 \<or> cluster_id = 0 then None
      else resolve_reporting_profile
             \<lparr>pk_short_addr = a, pk_endpoint = endpoint, pk_cluster_id = cluster_id\<rparr>
             (classify_device_class cluster_id) config)"

section \<open>Occupancy\<close>

text \<open>The report on the entry of its device: the entry after it, and whether an event is emitted.\<close>

definition debounce_entry :: "bool \<Rightarrow> u32 \<Rightarrow> OccupancyPolicy \<Rightarrow> RmEntry \<Rightarrow> bool \<times> RmEntry" where
  "debounce_entry raw now_ms policy e =
     (if \<not> en_occupancy_valid e
      then (True, e\<lparr>en_occupancy_valid := True, en_occupancy_stable := raw, en_occupancy_pending_valid := False\<rparr>)
      else if raw = en_occupancy_stable e then (False, e\<lparr>en_occupancy_pending_valid := False\<rparr>)
      else if \<not> raw \<and> op_hold_ms policy > 0 \<and> \<not> is_due now_ms (en_occupancy_hold_until_ms e) then (False, e)
      else if op_debounce_ms policy = 0
      then (True, e\<lparr>en_occupancy_stable := raw, en_occupancy_pending_valid := False\<rparr>)
      else if \<not> en_occupancy_pending_valid e \<or> en_occupancy_pending_target e \<noteq> raw
      then (False, e\<lparr>en_occupancy_pending_valid := True, en_occupancy_pending_target := raw,
                     en_occupancy_pending_since_ms := now_ms\<rparr>)
      else if \<not> is_due now_ms (en_occupancy_pending_since_ms e + op_debounce_ms policy) then (False, e)
      else (True, e\<lparr>en_occupancy_pending_valid := False, en_occupancy_stable := raw\<rparr>))"

definition hold_entry :: "u32 \<Rightarrow> OccupancyPolicy \<Rightarrow> RmEntry \<Rightarrow> RmEntry" where
  "hold_entry now_ms policy e =
     (if en_occupancy_stable e \<and> op_hold_ms policy > 0
      then e\<lparr>en_occupancy_hold_until_ms := now_ms + op_hold_ms policy\<rparr>
      else if \<not> en_occupancy_stable e then e\<lparr>en_occupancy_hold_until_ms := 0\<rparr>
      else e)"

definition occupancy_event :: "u16 \<Rightarrow> u32 \<Rightarrow> RmEntry \<Rightarrow> CoreEvent" where
  "occupancy_event a now_ms e =
     core_event_default\<lparr>ev_type := kDeviceTelemetryUpdated, ev_device_short_addr := a, ev_value_u32 := now_ms,
       ev_telemetry_kind := kOccupancy, ev_telemetry_i32 := (if en_occupancy_stable e then 1 else 0),
       ev_telemetry_valid := True\<rparr>"

definition normalize_occupancy_report ::
  "u16 \<Rightarrow> bool \<Rightarrow> u32 \<Rightarrow> OccupancyPolicy \<Rightarrow> ReportingManager \<Rightarrow> CoreEvent option \<times> ReportingManager" where
  "normalize_occupancy_report a raw now_ms policy es =
     (if \<not> valid_short_addr a then (None, es)
      else
        let found = (case rm_find_index a es of
                       Some i \<Rightarrow> Some (i, es)
                     | None \<Rightarrow> map_option (\<lambda>i. (i, es[i := (es ! i)\<lparr>en_short_addr := a\<rparr>])) (rm_find_free_index es))
        in case found of
             None \<Rightarrow> (None, es)
           | Some (i, es1) \<Rightarrow>
               (let (emit, e) = debounce_entry raw now_ms policy (es1 ! i)
                in if \<not> emit then (None, es1[i := e])
                   else let e1 = hold_entry now_ms policy e
                        in (Some (occupancy_event a now_ms e1), es1[i := e1])))"
section \<open>Backoff\<close>

lemma backoff_step: "i < n \<Longrightarrow> d < 4000 \<Longrightarrow> backoff_loop i n d = backoff_loop (i + 1) n (d * 2)"
  by (subst backoff_loop.simps) (auto simp: kMaxBackoffMs_def dest: leD)

lemma backoff_done: "\<not> i < n \<Longrightarrow> backoff_loop i n d = d"
  by (subst backoff_loop.simps) simp

lemma backoff_capped: "i < n \<Longrightarrow> 4000 \<le> d \<Longrightarrow> backoff_loop i n d = 8000"
  by (subst backoff_loop.simps) (simp add: kMaxBackoffMs_def)

lemma compute_backoff_values:
  "compute_backoff_ms n = (if n \<le> 1 then 1000 else if n = 2 then 2000 else if n = 3 then 4000 else 8000)"
proof -
  consider "n = 0" | "n = 1" | "n = 2" | "n = 3" | "3 < n" 
    unfolding word_less_nat_alt word_unat_eq_iff by fastforce
  then show ?thesis
  proof cases
    case 5
    then have "1 < n" "2 < n" "3 < n" "\<not> n \<le> 1" "n \<noteq> 2" "n \<noteq> 3" "n \<noteq> 0"
      by (auto simp: word_less_nat_alt word_le_nat_alt)
    then show ?thesis
      using backoff_step[of 1 n 1000] backoff_step[of 2 n 2000] backoff_capped[of 3 n 4000]
      by (simp add: compute_backoff_ms_def kBaseBackoffMs_def kMaxBackoffMs_def)
  qed (simp_all add: compute_backoff_ms_def word_le_nat_alt kBaseBackoffMs_def kMaxBackoffMs_def backoff_done
      backoff_step Let_def)
qed

section \<open>Runs of failures\<close>

datatype failure_step = Failed RetryTarget FailureReason u32 | Tick u32

fun failure_run :: "u16 \<Rightarrow> failure_step list \<Rightarrow> ReportingManager \<Rightarrow> ReportingManager" where
  "failure_run a [] es = es"
| "failure_run a (Failed target reason t # ss) es =
     failure_run a ss (snd (report_operation_failure a target reason t es))"
| "failure_run a (Tick t # ss) es = failure_run a ss (snd (rm_process_timeouts t es))"

fun transient :: "failure_step \<Rightarrow> bool" where
  "transient (Failed target reason t) \<longleftrightarrow> target \<noteq> kTargetNone \<and> is_retryable_reason reason"
| "transient (Tick t) \<longleftrightarrow> True"

fun failure_times :: "failure_step list \<Rightarrow> u32 list" where
  "failure_times [] = []"
| "failure_times (Failed target reason t # ss) = t # failure_times ss"
| "failure_times (Tick t # ss) = failure_times ss"

text \<open>The runs on the one entry they concern.\<close>

fun entry_run :: "failure_step list \<Rightarrow> RmEntry \<Rightarrow> RmEntry" where
  "entry_run [] e = e"
| "entry_run (Failed target reason t # ss) e = entry_run ss (snd (fail_entry target reason t e))"
| "entry_run (Tick t # ss) e = entry_run ss (snd (retry_entry t e no_actions))"

lemma fail_entry_addr: "en_short_addr (snd (fail_entry target reason t e)) = en_short_addr e"
  by (simp add: fail_entry_def Let_def)

lemma retry_entry_addr: "en_short_addr (snd (retry_entry t e acts)) = en_short_addr e"
  by (simp add: retry_entry_def Let_def split: RetryTarget.split)

lemma retry_entry_acts: "snd (retry_entry t e acts) = snd (retry_entry t e acts')"
  by (simp add: retry_entry_def Let_def split: RetryTarget.split)

lemma process_timeouts_map: "snd (process_timeouts_loop t es acts) = map (\<lambda>e. snd (retry_entry t e no_actions)) es"
  by (induction es arbitrary: acts)
     (simp_all add: case_prod_unfold Let_def, metis retry_entry_acts)

lemma failure_run_entry:
  assumes "valid_short_addr a" "rm_find_index a es = Some i" "\<forall>s \<in> set ss. transient s"
  shows "rm_find_index a (failure_run a ss es) = Some i \<and> failure_run a ss es ! i = entry_run ss (es ! i)"
  using assms
proof (induction a ss es rule: failure_run.induct)
  case (2 a target reason t ss es)
  have i: "i < length es" "en_short_addr (es ! i) = a"
    using 2(3) by (simp_all add: rm_find_index_def find_index_Some_iff)
  have "target \<noteq> kTargetNone" "reason \<noteq> kReasonNone" using 2(4) by auto
  then have e: "snd (report_operation_failure a target reason t es) =
      es[i := snd (fail_entry target reason t (es ! i))]"
    using 2(2) 2(3) by (simp add: report_operation_failure_def case_prod_unfold Let_def)
  have "rm_find_index a (es[i := snd (fail_entry target reason t (es ! i))]) = Some i"
    using 2(3) find_index_same[of en_short_addr a es i] i(2)
    by (simp add: rm_find_index_def fail_entry_addr)
  then show ?case using 2 i by (simp add: e)
next
  case (3 a t ss es)
  have i: "i < length es" using 3(3) by (simp add: rm_find_index_def find_index_Some_iff)
  have e: "snd (rm_process_timeouts t es) = map (\<lambda>e. snd (retry_entry t e no_actions)) es"
    by (simp add: rm_process_timeouts_def process_timeouts_map)
  have "rm_find_index a (map (\<lambda>e. snd (retry_entry t e no_actions)) es) = Some i"
    using 3(3) by (simp add: rm_find_index_def find_index_map comp_def retry_entry_addr)
  then show ?case using 3 i by (simp add: e)
qed simp

text \<open>What a run does to an entry that has \<open>n\<close> attempts behind it.\<close>

lemma entry_run_attempts:
  "\<forall>s \<in> set ss. transient s \<Longrightarrow> unat (en_retry_attempt e) \<le> 3 \<Longrightarrow>
   unat (en_retry_attempt (entry_run ss e)) = min 3 (unat (en_retry_attempt e) + length (failure_times ss))"
proof (induction ss e rule: entry_run.induct)
  case (2 target reason t ss e)
  have r: "is_retryable_reason reason" using 2(2) by simp
  show ?case
  proof (cases "unat (en_retry_attempt e) = 3")
    case True
    then have "en_retry_attempt (snd (fail_entry target reason t e)) = en_retry_attempt e"
      by (simp add: fail_entry_def r kMaxRetryAttempts_def word_le_nat_alt Let_def)
    then show ?thesis using 2 True by simp
  next
    case False
    then have "unat (en_retry_attempt (snd (fail_entry target reason t e))) = unat (en_retry_attempt e) + 1"
      using 2(3) by (simp add: fail_entry_def r kMaxRetryAttempts_def word_le_nat_alt unat_word_ariths Let_def)
    then show ?thesis using 2 False by simp
  qed
next
  case (3 t ss e)
  have "en_retry_attempt (snd (retry_entry t e no_actions)) = en_retry_attempt e"
    by (simp add: retry_entry_def Let_def split: RetryTarget.split)
  then show ?case using 3 by simp
qed simp

definition given_up :: "RmEntry \<Rightarrow> bool" where
  "given_up e \<longleftrightarrow> en_state e = kDegraded \<and> \<not> en_retry_pending e"

lemma given_up_stays:
  "given_up e \<Longrightarrow> en_retry_attempt e = 3 \<Longrightarrow> given_up (entry_run ss e) \<and> en_retry_attempt (entry_run ss e) = 3"
  by (induction ss e rule: entry_run.induct)
     (simp_all add: given_up_def fail_entry_def retry_entry_def kMaxRetryAttempts_def Let_def)

lemma entry_run_gives_up:
  "\<forall>s \<in> set ss. transient s \<Longrightarrow> unat (en_retry_attempt e) \<le> 3 \<Longrightarrow>
   unat (en_retry_attempt e) + length (failure_times ss) > 3 \<Longrightarrow> given_up (entry_run ss e)"
proof (induction ss e rule: entry_run.induct)
  case (2 target reason t ss e)
  have r: "is_retryable_reason reason" using 2(2) by simp
  show ?case
  proof (cases "unat (en_retry_attempt e) = 3")
    case True
    then have "given_up (snd (fail_entry target reason t e))"
      "en_retry_attempt (snd (fail_entry target reason t e)) = 3"
      by (simp_all add: fail_entry_def given_up_def r kMaxRetryAttempts_def word_le_nat_alt Let_def
          word_unat_eq_iff)
    then show ?thesis by (simp add: given_up_stays)
  next
    case False
    then have "unat (en_retry_attempt (snd (fail_entry target reason t e))) = unat (en_retry_attempt e) + 1"
      using 2(3) by (simp add: fail_entry_def r kMaxRetryAttempts_def word_le_nat_alt unat_word_ariths Let_def)
    then show ?thesis using 2 False by simp
  qed
next
  case (3 t ss e)
  have "en_retry_attempt (snd (retry_entry t e no_actions)) = en_retry_attempt e"
    by (simp add: retry_entry_def Let_def split: RetryTarget.split)
  then show ?case using 3 by simp
qed simp

text \<open>As long as retries are left, the next one waits for the backoff of the last failure.\<close>

lemma entry_run_deadline:
  "\<forall>s \<in> set ss. transient s \<Longrightarrow> unat (en_retry_attempt e) + length (failure_times ss) \<le> 3 \<Longrightarrow>
   failure_times ss \<noteq> [] \<Longrightarrow>
   en_next_retry_at_ms (entry_run ss e) =
     last (failure_times ss) + compute_backoff_ms (of_nat (unat (en_retry_attempt e) + length (failure_times ss)))"
proof (induction ss e rule: entry_run.induct)
  case (2 target reason t ss e)
  have r: "is_retryable_reason reason" using 2(2) by simp
  have lt: "\<not> kMaxRetryAttempts \<le> en_retry_attempt e"
    using 2(3) by (simp add: kMaxRetryAttempts_def word_le_nat_alt)
  let ?e = "snd (fail_entry target reason t e)"
  have e: "?e = e\<lparr>en_retry_target := target, en_last_failure_reason := reason,
      en_retry_attempt := en_retry_attempt e + 1, en_retry_pending := True,
      en_next_retry_at_ms := t + compute_backoff_ms (en_retry_attempt e + 1)\<rparr>"
    by (simp add: fail_entry_def r lt Let_def)
  have n: "unat (en_retry_attempt ?e) = unat (en_retry_attempt e) + 1"
    using 2(3) by (simp add: e unat_word_ariths)
  show ?case
  proof (cases "failure_times ss = []")
    case True
    have ticks: "failure_times ss = [] \<Longrightarrow> en_next_retry_at_ms (entry_run ss f) = en_next_retry_at_ms f" for ss f
      by (induction ss f rule: entry_run.induct) (auto simp: retry_entry_def Let_def split: RetryTarget.split)
    show ?thesis using True by (simp add: ticks[OF True]) (simp add: e add.commute)
  next
    case False
    then show ?thesis using 2 n by simp
  qed
next
  case (3 t ss e)
  have "en_retry_attempt (snd (retry_entry t e no_actions)) = en_retry_attempt e"
    by (simp add: retry_entry_def Let_def split: RetryTarget.split)
  then show ?case using 3 by simp
qed simp
lemma failing_device_aux:
  assumes a: "valid_short_addr a" and r0: "get_retry_status a es = Some r0" "re_attempt r0 = 0"
    and ss: "\<forall>s \<in> set ss. transient s" "failure_times ss \<noteq> []"
    and n: "n = length (failure_times ss)" and es': "es' = failure_run a ss es"
  shows "\<exists>r. get_retry_status a es' = Some r \<and>
    (if n \<le> 3 then unat (re_attempt r) = n \<and>
        re_next_retry_at_ms r = last (failure_times ss) + 1000 * 2 ^ (n - 1)
     else rm_get_state a es' = Some kDegraded \<and> \<not> re_pending r)"
proof -
  obtain i where i: "rm_find_index a es = Some i" "en_retry_attempt (es ! i) = 0"
    using r0 a by (auto simp: get_retry_status_def Let_def)
  note run = failure_run_entry[OF a i(1) ss(1)]
  let ?e = "entry_run ss (es ! i)"
  have at: "unat (en_retry_attempt (es ! i)) = 0" by (simp add: i(2))
  show ?thesis
  proof (cases "n \<le> 3")
    case True
    have "n = 1 \<or> n = 2 \<or> n = 3" using True ss(2) n by (cases n) auto
    moreover have "en_next_retry_at_ms ?e = last (failure_times ss) + compute_backoff_ms (of_nat n)"
      using entry_run_deadline[OF ss(1) _ ss(2), of "es ! i"] True n at by simp
    ultimately have "en_next_retry_at_ms ?e = last (failure_times ss) + 1000 * 2 ^ (n - 1)"
      by (auto simp: compute_backoff_values word_le_nat_alt)
    moreover have "unat (en_retry_attempt ?e) = n"
      using entry_run_attempts[OF ss(1), of "es ! i"] True n at by simp
    ultimately show ?thesis using a run True by (simp add: get_retry_status_def es' Let_def)
  next
    case False
    have "given_up ?e" using entry_run_gives_up[OF ss(1), of "es ! i"] False n at by simp
    then show ?thesis
      using a run False by (simp add: get_retry_status_def rm_get_state_def given_up_def es' Let_def)
  qed
qed

section \<open>The invariant of the table\<close>

definition rm_used :: "RmEntry \<Rightarrow> bool" where "rm_used e \<longleftrightarrow> en_short_addr e \<noteq> kUnknownDeviceShortAddr"

interpretation rm: slot_table rm_used en_short_addr rm_entry_default
  by unfold_locales (simp add: rm_used_def rm_entry_default_def)

interpretation rm_clock: deadline_clock is_due
  by unfold_locales (simp add: is_due_def word_less_nat_alt)

definition rm_inv :: "ReportingManager \<Rightarrow> bool" where
  "rm_inv es \<longleftrightarrow> length es = kMaxDevices \<and> unique_slots rm_used en_short_addr es"

inductive rm_reachable :: "ReportingManager \<Rightarrow> bool" where
  init: "rm_reachable reporting_manager_init"
| event: "rm_reachable es \<Longrightarrow> rm_reachable (snd (rm_handle_event ev es))"
| failure: "rm_reachable es \<Longrightarrow> rm_reachable (snd (report_operation_failure a target reason t es))"
| tick: "rm_reachable es \<Longrightarrow> rm_reachable (snd (rm_process_timeouts t es))"
| stale: "rm_reachable es \<Longrightarrow> rm_reachable (snd (collect_stale_candidates t w es))"
| pending: "rm_reachable es \<Longrightarrow> rm_reachable (snd (set_stale_pending a b es))"
| occupancy: "rm_reachable es \<Longrightarrow> rm_reachable (snd (normalize_occupancy_report a raw t p es))"

lemma rm_find_index_slot: "valid_short_addr a \<Longrightarrow> rm_find_index a es = find_slot rm_used en_short_addr a es"
  unfolding rm_find_index_def find_slot_def
  by (rule arg_cong2[where f = find_index]) (auto simp: rm_used_def valid_short_addr_def)

text \<open>Changing an entry without changing its address, or giving it the default value.\<close>

lemma rm_inv_modify:
  "rm_inv es \<Longrightarrow> en_short_addr e = en_short_addr (es ! i) \<Longrightarrow> rm_inv (es[i := e])"
  using rm.modify_unique[of es i e]
  by (cases "i < length es") (auto simp: rm_inv_def rm_used_def list_update_beyond)

lemma rm_inv_clear: "rm_inv es \<Longrightarrow> rm_inv (es[i := rm_entry_default])"
  using rm.clear_unique by (simp add: rm_inv_def)

text \<open>Giving a free entry an address that is not in the table.\<close>

lemma rm_inv_insert:
  assumes "rm_inv es" "valid_short_addr a" "rm_find_index a es = None" "rm_find_free_index es = Some i"
    and "en_short_addr e = a"
  shows "rm_inv (es[i := e])"
proof -
  have "rm.writable i e es"
    using assms find_index_SomeD[OF assms(4)[unfolded rm_find_free_index_def]]
    by (auto simp: rm.writable_def rm_find_index_slot[symmetric] rm_used_def valid_short_addr_def)
  then show ?thesis using assms(1) rm.write_unique by (simp add: rm_inv_def)
qed

lemma rm_inv_map:
  assumes "rm_inv es" "\<And>e. en_short_addr (f e) = en_short_addr e"
  shows "rm_inv (map f es)"
  using assms by (auto simp: rm_inv_def unique_slots_def rm_used_def)

lemma handle_entry_addr:
  "snd (handle_entry ev e) = rm_entry_default \<or> en_short_addr (snd (handle_entry ev e)) = en_short_addr e"
  by (simp add: handle_entry_def clear_retry_state_def Let_def case_prod_unfold split: CoreEventType.split)

lemma collect_stale_map:
  "length es \<le> room \<Longrightarrow> collect_stale_loop t w room es =
     (map en_short_addr (filter (silent_entry t w) es),
      map (\<lambda>e. if silent_entry t w e then e\<lparr>en_stale_pending := True\<rparr> else e) es)"
  by (induction es arbitrary: room) (auto simp: case_prod_unfold Let_def)

lemma debounce_entry_addr: "en_short_addr (snd (debounce_entry raw t p e)) = en_short_addr e"
  by (simp add: debounce_entry_def)

lemma hold_entry_addr: "en_short_addr (hold_entry t p e) = en_short_addr e"
  by (simp add: hold_entry_def)

lemma rm_inv_event:
  assumes "rm_inv es"
  shows "rm_inv (snd (rm_handle_event ev es))"
proof (cases "\<not> valid_short_addr (ev_device_short_addr ev) \<and> ev_type ev \<noteq> kEventUnknown")
  case True
  then show ?thesis using assms by (simp add: rm_handle_event_def)
next
  case False
  have upd: "rm_inv (es'[i := snd (handle_entry ev (es' ! i))])" if "rm_inv es'" for es' i
    using handle_entry_addr[of ev "es' ! i"] rm_inv_modify[OF that] rm_inv_clear[OF that] by auto
  have ins: "rm_inv (es[i := (es ! i)\<lparr>en_short_addr := ev_device_short_addr ev, en_state := kStateUnknown\<rparr>])"
    if "rm_find_index (ev_device_short_addr ev) es = None" "rm_find_free_index es = Some i"
      "ev_type ev = kDeviceJoined" for i
    using False that by (intro rm_inv_insert[OF assms]) auto
  show ?thesis
    using assms upd[OF assms] upd[OF ins] False
    by (auto simp: rm_handle_event_def case_prod_unfold Let_def split: option.split
        simp del: list_update_overwrite)
qed

lemma rm_inv_failure: "rm_inv es \<Longrightarrow> rm_inv (snd (report_operation_failure a target reason t es))"
  using rm_inv_modify
  by (auto simp: report_operation_failure_def case_prod_unfold Let_def fail_entry_addr split: option.split)

lemma rm_inv_tick: "rm_inv es \<Longrightarrow> rm_inv (snd (rm_process_timeouts t es))"
  by (simp add: rm_process_timeouts_def process_timeouts_map rm_inv_map retry_entry_addr)

lemma rm_inv_stale: "rm_inv es \<Longrightarrow> rm_inv (snd (collect_stale_candidates t w es))"
  by (auto simp: collect_stale_candidates_def collect_stale_map rm_inv_def[of es] intro!: rm_inv_map)

lemma rm_inv_pending: "rm_inv es \<Longrightarrow> rm_inv (snd (set_stale_pending a b es))"
  using rm_inv_modify by (auto simp: set_stale_pending_def split: option.split)

lemma rm_inv_occupancy:
  assumes "rm_inv es"
  shows "rm_inv (snd (normalize_occupancy_report a raw t p es))"
proof (cases "valid_short_addr a")
  case True
  have upd: "rm_inv (es'[i := e])" if "rm_inv es'" "en_short_addr e = en_short_addr (es' ! i)" for es' i e
    by (rule rm_inv_modify[OF that])
  have ins: "rm_inv (es[i := (es ! i)\<lparr>en_short_addr := a\<rparr>])"
    if "rm_find_index a es = None" "rm_find_free_index es = Some i" for i
    using True that by (intro rm_inv_insert[OF assms]) auto
  have new: "rm_inv (es[i := (es ! i)\<lparr>en_short_addr := a\<rparr>, i := e])"
    if "rm_find_index a es = None" "rm_find_free_index es = Some i"
      "en_short_addr e = en_short_addr (es[i := (es ! i)\<lparr>en_short_addr := a\<rparr>] ! i)" for i e
    by (rule upd[OF ins[OF that(1,2)] that(3)])
  show ?thesis
    using assms True upd[OF assms] new
    by (auto simp: normalize_occupancy_report_def case_prod_unfold Let_def debounce_entry_addr
        hold_entry_addr split: option.split simp del: list_update_overwrite)
qed (simp add: normalize_occupancy_report_def assms)

lemma rm_invariant: "rm_reachable es \<Longrightarrow> rm_inv es"
proof (induction rule: rm_reachable.induct)
  case init
  show ?case by (simp add: rm_inv_def reporting_manager_init_def rm.empty_unique)
qed (simp_all add: rm_inv_event rm_inv_failure rm_inv_tick rm_inv_stale rm_inv_pending rm_inv_occupancy)
section \<open>Silence is reported once\<close>

lemma stale_once_aux:
  assumes inv: "rm_inv es" and w: "w \<noteq> 0" and c: "collect_stale_candidates t w es = (out, es')"
  shows "distinct out \<and> (\<forall>a. a \<in> set out \<longleftrightarrow> (\<exists>e \<in> set es. en_short_addr e = a \<and> silent_entry t w e)) \<and>
    set (fst (collect_stale_candidates t2 w2 es')) \<inter> set out = {}"
proof -
  have len: "length es \<le> kMaxDevices" using inv by (simp add: rm_inv_def)
  note c' = c[unfolded collect_stale_candidates_def collect_stale_map[OF len]]
  have out: "out = map en_short_addr (filter (silent_entry t w) es)"
    and es': "es' = map (\<lambda>e. if silent_entry t w e then e\<lparr>en_stale_pending := True\<rparr> else e) es"
    using c' w by simp_all
  have inv': "rm_inv es'" using rm_inv_stale[OF inv, of t w] c by simp
  have inj: "e1 = e2" if "e1 \<in> set es" "e2 \<in> set es" "rm_used e1" "rm_used e2"
      "en_short_addr e1 = en_short_addr e2" for e1 e2
    using inv that unfolding rm_inv_def unique_slots_def by (metis in_set_conv_nth)
  have "(\<lambda>e. rm_used e \<and> silent_entry t w e) = silent_entry t w"
    by (auto simp: silent_entry_def rm_used_def)
  then have "distinct out"
    using unique_slots_distinct[of rm_used en_short_addr es "silent_entry t w"] inv
    by (simp add: out rm_inv_def)
  moreover have "en_short_addr e' \<noteq> a"
    if "a \<in> set out" "e' \<in> set es'" "silent_entry t2 w2 e'" for a e'
  proof
    assume a: "en_short_addr e' = a"
    from that(1) obtain e where e: "e \<in> set es" "silent_entry t w e" "en_short_addr e = a" by (auto simp: out)
    from that(2) obtain e1 where e1: "e1 \<in> set es" "e' = (if silent_entry t w e1 then e1\<lparr>en_stale_pending := True\<rparr> else e1)"
      by (auto simp: es')
    have "rm_used e" "rm_used e1" "en_short_addr e1 = en_short_addr e"
      using e e1 a by (auto simp: silent_entry_def rm_used_def split: if_splits)
    then have "e1 = e" using inj e(1) e1(1) by blast
    then show False using e e1 that(3) by (simp add: silent_entry_def)
  qed
  moreover have "length es' \<le> kMaxDevices" using inv' by (simp add: rm_inv_def)
  ultimately show ?thesis
    by (auto simp: out collect_stale_candidates_def collect_stale_map)
qed

section \<open>Occupancy\<close>

fun occ_run :: "u16 \<Rightarrow> OccupancyPolicy \<Rightarrow> (bool \<times> u32) list \<Rightarrow> ReportingManager \<Rightarrow> (bool \<times> u32) list" where
  "occ_run a p [] es = []"
| "occ_run a p ((raw, t) # rs) es =
     (case normalize_occupancy_report a raw t p es of
        (None, es') \<Rightarrow> occ_run a p rs es'
      | (Some ev, es') \<Rightarrow> (ev_telemetry_i32 ev = 1, ev_value_u32 ev) # occ_run a p rs es')"

definition report_entry :: "bool \<Rightarrow> u32 \<Rightarrow> OccupancyPolicy \<Rightarrow> RmEntry \<Rightarrow> bool \<times> RmEntry" where
  "report_entry raw t p e =
     (let (emit, e1) = debounce_entry raw t p e in (emit, if emit then hold_entry t p e1 else e1))"

fun occ_entry_run :: "OccupancyPolicy \<Rightarrow> (bool \<times> u32) list \<Rightarrow> RmEntry \<Rightarrow> (bool \<times> u32) list" where
  "occ_entry_run p [] e = []"
| "occ_entry_run p ((raw, t) # rs) e =
     (let (emit, e1) = report_entry raw t p e
      in (if emit then [(en_occupancy_stable e1, t)] else []) @ occ_entry_run p rs e1)"

lemma report_entry_addr: "en_short_addr (snd (report_entry raw t p e)) = en_short_addr e"
  by (simp add: report_entry_def case_prod_unfold Let_def debounce_entry_addr hold_entry_addr)

lemma occ_run_entry:
  "valid_short_addr a \<Longrightarrow> rm_find_index a es = Some i \<Longrightarrow> occ_run a p rs es = occ_entry_run p rs (es ! i)"
proof (induction p rs "es ! i" arbitrary: es rule: occ_entry_run.induct)
  case (2 p raw t rs es)
  have i: "i < length es" "en_short_addr (es ! i) = a"
    using 2(3) by (simp_all add: rm_find_index_def find_index_Some_iff)
  let ?r = "report_entry raw t p (es ! i)"
  have n: "normalize_occupancy_report a raw t p es =
      (if fst ?r then Some (occupancy_event a t (snd ?r)) else None, es[i := snd ?r])"
    using 2(2,3) by (simp add: normalize_occupancy_report_def report_entry_def case_prod_unfold Let_def)
  have "rm_find_index a (es[i := snd ?r]) = Some i"
    using 2(3) find_index_same[of en_short_addr a es i] i(2) by (simp add: rm_find_index_def report_entry_addr)
  then have "occ_run a p rs (es[i := snd ?r]) = occ_entry_run p rs (snd ?r)"
    using 2(1)[OF _ _ 2(2), of _ _ "es[i := snd ?r]"] i by (simp add: prod_eq_iff)
  then show ?case by (simp add: n case_prod_unfold Let_def occupancy_event_def)
qed simp

text \<open>What two successive events have in common.\<close>

definition occ_ok :: "OccupancyPolicy \<Rightarrow> bool \<times> u32 \<Rightarrow> bool \<times> u32 \<Rightarrow> bool" where
  "occ_ok p x y \<longleftrightarrow> fst y \<noteq> fst x \<and>
     (fst x \<and> op_hold_ms p > 0 \<longrightarrow> is_due (snd y) (snd x + op_hold_ms p))"

lemma report_entry_emits:
  assumes "report_entry raw t p e = (True, e')"
  shows "en_occupancy_valid e' \<and> en_occupancy_stable e' = raw \<and>
    (raw \<and> op_hold_ms p > 0 \<longrightarrow> en_occupancy_hold_until_ms e' = t + op_hold_ms p) \<and>
    (en_occupancy_valid e \<longrightarrow> raw \<noteq> en_occupancy_stable e \<and>
       (\<not> raw \<and> op_hold_ms p > 0 \<longrightarrow> is_due t (en_occupancy_hold_until_ms e)))"
  using assms by (auto simp: report_entry_def debounce_entry_def hold_entry_def Let_def case_prod_unfold split: if_splits)

lemma report_entry_quiet:
  assumes "report_entry raw t p e = (False, e')"
  shows "en_occupancy_valid e \<and> en_occupancy_valid e' \<and> en_occupancy_stable e' = en_occupancy_stable e \<and>
    en_occupancy_hold_until_ms e' = en_occupancy_hold_until_ms e"
  using assms by (auto simp: report_entry_def debounce_entry_def Let_def case_prod_unfold split: if_splits)

lemma occ_entry_run_ok:
  "en_occupancy_valid e \<Longrightarrow> en_occupancy_stable e = fst x \<Longrightarrow>
   (fst x \<and> op_hold_ms p > 0 \<longrightarrow> en_occupancy_hold_until_ms e = snd x + op_hold_ms p) \<Longrightarrow>
   successively (occ_ok p) (x # occ_entry_run p rs e)"
proof (induction rs arbitrary: e x)
  case (Cons r rs)
  obtain raw t where r: "r = (raw, t)" by fastforce
  obtain emit e1 where e1: "report_entry raw t p e = (emit, e1)" by fastforce
  show ?case
  proof (cases emit)
    case True
    note s = report_entry_emits[of raw t p e e1]
    have "successively (occ_ok p) ((raw, t) # occ_entry_run p rs e1)"
      using s e1 True by (intro Cons.IH) simp_all
    moreover have "occ_ok p x (raw, t)" using s e1 True Cons.prems by (auto simp: occ_ok_def)
    ultimately show ?thesis using True s e1 by (simp add: r e1)
  next
    case False
    then have "report_entry raw t p e = (False, e1)" using e1 by simp
    note s = report_entry_quiet[OF this]
    show ?thesis using Cons.IH[of e1 x] s Cons.prems False by (simp add: r e1)
  qed
qed simp
lemma occ_entry_run_any: "successively (occ_ok p) (occ_entry_run p rs e)"
proof (induction rs arbitrary: e)
  case (Cons r rs)
  obtain raw t where r: "r = (raw, t)" by fastforce
  obtain emit e1 where e1: "report_entry raw t p e = (emit, e1)" by fastforce
  show ?case
  proof (cases emit)
    case True
    then show ?thesis
      using report_entry_emits[of raw t p e e1] e1 occ_entry_run_ok[of e1 "(raw, t)" p rs] by (simp add: r)
  next
    case False
    then show ?thesis using Cons.IH[of e1] by (simp add: r e1)
  qed
qed simp

lemma occ_run_ok:
  assumes "valid_short_addr a"
  shows "successively (occ_ok p) (occ_run a p rs es)"
proof (cases "rm_find_index a es")
  case (Some i)
  then show ?thesis using occ_entry_run_any by (simp add: occ_run_entry[OF assms])
next
  case None
  show ?thesis
  proof (cases "rm_find_free_index es")
    case None': None
    have "occ_run a p rs es = []"
      by (induction rs) (auto simp: normalize_occupancy_report_def assms None None')
    then show ?thesis by simp
  next
    case (Some i)
    let ?es = "es[i := (es ! i)\<lparr>en_short_addr := a\<rparr>]"
    have i: "i < length es" "en_short_addr (es ! i) = kUnknownDeviceShortAddr"
      using Some by (simp_all add: rm_find_free_index_def find_index_Some_iff)
    have "find_index (\<lambda>e. en_short_addr e = a) ?es = Some i"
      using None i by (intro find_index_unique) (auto simp: rm_find_index_def find_index_None_iff nth_list_update split: if_splits)
    then have f: "rm_find_index a ?es = Some i" by (simp add: rm_find_index_def)
    have "normalize_occupancy_report a raw t p es = normalize_occupancy_report a raw t p ?es" for raw t
      using i assms by (simp add: normalize_occupancy_report_def None Some f)
    then have "occ_run a p rs es = occ_run a p rs ?es" by (cases rs) auto
    then show ?thesis using occ_entry_run_any by (simp add: occ_run_entry[OF assms f])
  qed
qed

section \<open>Properties\<close>

text \<open>
  C16: a known device whose attempts are reset and that from then on only reports transient failures,
  with timer ticks at any time in between, is retried after 1, 2 and 4 seconds from its first, second
  and third failure and is degraded, with no retry left, from the fourth failure on.
\<close>

theorem failing_device_is_degraded:
  assumes "valid_short_addr a" "get_retry_status a es = Some r0" "re_attempt r0 = 0"
    and "\<forall>s \<in> set ss. transient s" "failure_times ss \<noteq> []"
    and "n = length (failure_times ss)" "es' = failure_run a ss es"
  shows "\<exists>r. get_retry_status a es' = Some r \<and>
    (if n \<le> 3 then unat (re_attempt r) = n \<and>
        re_next_retry_at_ms r = last (failure_times ss) + 1000 * 2 ^ (n - 1)
     else rm_get_state a es' = Some kDegraded \<and> \<not> re_pending r)"
  by (rule failing_device_aux[OF assms])

definition joined_manager :: ReportingManager where
  "joined_manager = snd (rm_handle_event (core_event_default\<lparr>ev_type := kDeviceJoined,
     ev_device_short_addr := 0x1234\<rparr>) reporting_manager_init)"

lemma joined_manager_reachable: "rm_reachable joined_manager"
  unfolding joined_manager_def by (intro rm_reachable.event rm_reachable.init)

definition four_failures :: "failure_step list" where
  "four_failures = [Failed kBind kReasonTimeout 100, Tick 1100, Failed kBind kNetworkError 1200, Tick 3200,
     Failed kBind kReasonTimeout 3300, Tick 7300, Failed kBind kReasonTimeout 7400]"

lemma failing_device_is_degraded_witness:
  "rm_get_state 0x1234 (failure_run 0x1234 four_failures joined_manager) = Some kDegraded"
proof -
  let ?r0 = "\<lparr>re_target = kTargetNone, re_reason = kReasonNone, re_attempt = 0, re_next_retry_at_ms = 0,
    re_pending = False\<rparr>"
  have h: "valid_short_addr 0x1234" "get_retry_status 0x1234 joined_manager = Some ?r0" "re_attempt ?r0 = 0"
    "\<forall>s \<in> set four_failures. transient s" "failure_times four_failures \<noteq> []"
    "4 = length (failure_times four_failures)"
    by code_simp+
  from failing_device_is_degraded[OF h refl] show ?thesis by auto
qed

text \<open>
  In every reachable table, the devices collected as silent are exactly those that report
  actively and whose last report is older than the window, each once; a device that was collected is
  not collected again, at whatever time, until an event clears its mark.
\<close>

theorem silence_is_reported_once:
  assumes "rm_reachable es" "w \<noteq> 0" "collect_stale_candidates t w es = (out, es')"
  shows "distinct out \<and> (\<forall>a. a \<in> set out \<longleftrightarrow> (\<exists>e \<in> set es. en_short_addr e = a \<and> silent_entry t w e)) \<and>
    set (fst (collect_stale_candidates t2 w2 es')) \<inter> set out = {}"
  by (rule stale_once_aux[OF rm_invariant[OF assms(1)] assms(2,3)])

definition reporting_device :: ReportingManager where
  "reporting_device = snd (rm_handle_event (core_event_default\<lparr>ev_type := kDeviceTelemetryUpdated,
     ev_device_short_addr := 0x1234, ev_value_u32 := 1000\<rparr>) joined_manager)"

lemma silence_is_reported_once_witness:
  "fst (collect_stale_candidates 20000 15000 reporting_device) = [0x1234] \<and>
   0x1234 \<notin> set (fst (collect_stale_candidates 30000 15000
      (snd (collect_stale_candidates 20000 15000 reporting_device))))"
proof -
  have r: "rm_reachable reporting_device"
    unfolding reporting_device_def by (intro rm_reachable.event joined_manager_reachable)
  have f: "fst (collect_stale_candidates 20000 15000 reporting_device) = [0x1234]" by code_simp
  obtain out es' where c: "collect_stale_candidates 20000 15000 reporting_device = (out, es')"
    by (metis prod.collapse)
  have "(15000 :: u32) \<noteq> 0" by simp
  from silence_is_reported_once[OF r this c, of 30000 15000] f show ?thesis by (simp add: c)
qed

text \<open>
  Whatever occupancy reports a device sends under a policy, the events made of them alternate
  between occupied and clear, and a clear event comes at the earliest when the hold time of the
  occupied event before it is over (on the wrapping clock).
\<close>

theorem occupancy_events_alternate:
  "valid_short_addr a \<Longrightarrow> successively (\<lambda>x y. fst y \<noteq> fst x \<and>
     (fst x \<and> op_hold_ms p > 0 \<longrightarrow> is_due (snd y) (snd x + op_hold_ms p))) (occ_run a p rs es)"
  using occ_run_ok[of a p rs es] unfolding occ_ok_def .

lemma occupancy_events_alternate_witness:
  "occ_run 0x1234 \<lparr>op_debounce_ms = 0, op_hold_ms = 1000\<rparr> [(True, 100), (False, 500), (True, 600), (False, 1100)]
     joined_manager = [(True, 100), (False, 1100)] \<and>
   successively (\<lambda>x y. fst y \<noteq> fst x \<and> (fst x \<and> (1000::u32) > 0 \<longrightarrow> is_due (snd y) (snd x + 1000)))
     (occ_run 0x1234 \<lparr>op_debounce_ms = 0, op_hold_ms = 1000\<rparr>
       [(True, 100), (False, 500), (True, 600), (False, 1100)] joined_manager)"
proof -
  have v: "valid_short_addr 0x1234" by code_simp
  have "occ_run 0x1234 \<lparr>op_debounce_ms = 0, op_hold_ms = 1000\<rparr>
      [(True, 100), (False, 500), (True, 600), (False, 1100)] joined_manager = [(True, 100), (False, 1100)]"
    by code_simp
  then show ?thesis
    using occupancy_events_alternate[OF v, of "\<lparr>op_debounce_ms = 0, op_hold_ms = 1000\<rparr>"
        "[(True, 100), (False, 500), (True, 600), (False, 1100)]" joined_manager] by simp
qed

end
