(* ===== verification/TuyaParser.thy ===== *)
theory TuyaParser
  imports Prelude
begin

text \<open>
  \<^verbatim>\<open>components/service/tuya_dp_parser.cpp\<close>: the parser of the data points in a Tuya 0xEF00 frame.
  A payload is a list of bytes, \<open>None\<close> for a null pointer; the code reads \<^verbatim>\<open>data[i]\<close> only for
  \<open>i\<close> below \<^verbatim>\<open>data_len\<close>.
\<close>

definition kTuyaDpMaxPerFrame :: nat where "kTuyaDpMaxPerFrame = 8"
definition kTuyaDpValueMaxLen :: nat where "kTuyaDpValueMaxLen = 32"
definition kTuyaPayloadMaxLen :: nat where "kTuyaPayloadMaxLen = 128"
definition kTuyaPrivateClusterId :: u16 where "kTuyaPrivateClusterId = 0xEF00"

datatype TuyaDpType = kDpRaw | kDpBool | kDpValue | kDpString | kDpEnum | kDpBitmap | kDpUnknown

record TuyaPayloadView =
  pv_short_addr :: u16
  pv_endpoint :: u8
  pv_cluster_id :: u16
  pv_data :: "u8 list option"
  pv_data_len :: u8

definition is_tuya_cluster :: "TuyaPayloadView \<Rightarrow> bool" where
  "is_tuya_cluster v \<longleftrightarrow> pv_cluster_id v = kTuyaPrivateClusterId"

definition view_is_valid :: "TuyaPayloadView \<Rightarrow> bool" where
  "view_is_valid v \<longleftrightarrow> pv_data v \<noteq> None \<and> pv_data_len v > 0 \<and> pv_short_addr v \<noteq> 0xFFFF"

record TuyaDpItem =
  di_dp_id :: u8
  di_dp_type :: TuyaDpType
  di_value_len :: u16
  di_value :: "u8 list"

definition dp_item_default :: TuyaDpItem where
  "dp_item_default = \<lparr>di_dp_id = 0, di_dp_type = kDpUnknown, di_value_len = 0,
     di_value = replicate kTuyaDpValueMaxLen 0\<rparr>"

datatype TuyaDpParseStatus =
  kParseOk | kPayloadTooShort | kPayloadTooLong | kDpValueTooLong | kDpOverflow | kMalformed

record TuyaDpParseResult =
  dr_status :: TuyaDpParseStatus
  dr_addr :: u16
  dr_endpoint :: u8
  dr_dp_count :: nat
  dr_items :: "TuyaDpItem list"

definition parse_result_default :: TuyaDpParseResult where
  "parse_result_default = \<lparr>dr_status = kMalformed, dr_addr = 0xFFFF, dr_endpoint = 0,
     dr_dp_count = 0, dr_items = replicate kTuyaDpMaxPerFrame dp_item_default\<rparr>"

section \<open>Reading an item\<close>

definition as_bool :: "TuyaDpItem \<Rightarrow> bool" where
  "as_bool it \<longleftrightarrow> (if di_value_len it = 0 then False else di_value it ! 0 \<noteq> 0)"

definition as_u32 :: "TuyaDpItem \<Rightarrow> u32" where
  "as_u32 it =
     (let len = (if di_value_len it > 4 then 4 else unat (di_value_len it))
      in foldl (\<lambda>result i. push_bit 8 result OR ucast (di_value it ! i)) 0 [0..<len])"

definition as_enum :: "TuyaDpItem \<Rightarrow> u8" where
  "as_enum it = (if di_value_len it = 0 then 0 else di_value it ! 0)"

text \<open>An \<^verbatim>\<open>int32_t\<close> is the same word, read by \<open>sint\<close>.\<close>

definition as_i32 :: "TuyaDpItem \<Rightarrow> u32" where "as_i32 it = as_u32 it"

definition find_dp :: "u8 \<Rightarrow> TuyaDpParseResult \<Rightarrow> TuyaDpItem option" where
  "find_dp dp_id r = find (\<lambda>it. di_dp_id it = dp_id) (take (dr_dp_count r) (dr_items r))"

section \<open>The parser\<close>

fun dp_type_of :: "u8 \<Rightarrow> TuyaDpType" where
  "dp_type_of t =
     (if t = 0 then kDpRaw else if t = 1 then kDpBool else if t = 2 then kDpValue
      else if t = 3 then kDpString else if t = 4 then kDpEnum else if t = 5 then kDpBitmap else kDpUnknown)"

declare dp_type_of.simps [simp del]

definition be16 :: "u8 \<Rightarrow> u8 \<Rightarrow> u16" where
  "be16 hi lo = push_bit 8 (ucast hi) OR ucast lo"

text \<open>\<^verbatim>\<open>memcpy\<close> of \<open>n\<close> bytes over the start of an array.\<close>

definition copy_bytes :: "'a list \<Rightarrow> 'a list \<Rightarrow> 'a list" where
  "copy_bytes src dst = src @ drop (length src) dst"

text \<open>The \<^verbatim>\<open>while\<close> loop; every iteration that goes on moves the offset by four at least.\<close>

function parse_dps :: "u8 list \<Rightarrow> nat \<Rightarrow> nat \<Rightarrow> TuyaDpParseResult \<Rightarrow> TuyaDpParseResult" where
  "parse_dps data total_len offset result =
     (if offset < total_len
      then if dr_dp_count result \<ge> kTuyaDpMaxPerFrame then result\<lparr>dr_status := kDpOverflow\<rparr>
           else if offset + 4 > total_len then result\<lparr>dr_status := kMalformed\<rparr>
           else
             let n = dr_dp_count result;
                 item = (dr_items result ! n)\<lparr>di_dp_id := data ! offset,
                                              di_dp_type := dp_type_of (data ! (offset + 1))\<rparr>;
                 dp_len = be16 (data ! (offset + 2)) (data ! (offset + 3));
                 len = unat dp_len;
                 named = result\<lparr>dr_items := (dr_items result)[n := item]\<rparr>
             in if len > kTuyaDpValueMaxLen then named\<lparr>dr_status := kDpValueTooLong\<rparr>
                else if offset + 4 + len > total_len then named\<lparr>dr_status := kMalformed\<rparr>
                else
                  let bytes = take len (drop (offset + 4) data);
                      full = item\<lparr>di_value_len := dp_len, di_value := copy_bytes bytes (di_value item)\<rparr>
                  in parse_dps data total_len (offset + 4 + len)
                       (result\<lparr>dr_items := (dr_items result)[n := full], dr_dp_count := n + 1\<rparr>)
      else result\<lparr>dr_status := kParseOk\<rparr>)"
  by pat_completeness auto
termination
  by (relation "measure (\<lambda>(data, total_len, offset, result). total_len - offset)") auto

declare parse_dps.simps [simp del]

definition parse_frame :: "TuyaPayloadView \<Rightarrow> TuyaDpParseResult" where
  "parse_frame v =
     (let result = parse_result_default\<lparr>dr_addr := pv_short_addr v, dr_endpoint := pv_endpoint v\<rparr>
      in if \<not> view_is_valid v \<or> \<not> is_tuya_cluster v then result\<lparr>dr_status := kMalformed\<rparr>
         else if pv_data_len v < 2 then result\<lparr>dr_status := kPayloadTooShort\<rparr>
         else if unat (pv_data_len v) > kTuyaPayloadMaxLen then result\<lparr>dr_status := kPayloadTooLong\<rparr>
         else parse_dps (the (pv_data v)) (unat (pv_data_len v)) 2 result)"

section \<open>What the parser accepts\<close>

text \<open>A record of the wire format: identifier, type byte, value.\<close>

type_synonym dp_record = "u8 \<times> u8 \<times> u8 list"

definition encode_dp :: "dp_record \<Rightarrow> u8 list" where
  "encode_dp r = (case r of (i, t, v) \<Rightarrow>
     i # t # ucast (drop_bit 8 (of_nat (length v) :: u16)) # ucast (of_nat (length v) :: u16) # v)"

definition dp_record_ok :: "dp_record \<Rightarrow> bool" where
  "dp_record_ok r \<longleftrightarrow> length (snd (snd r)) \<le> kTuyaDpValueMaxLen"

definition item_of :: "dp_record \<Rightarrow> TuyaDpItem" where
  "item_of r = (case r of (i, t, v) \<Rightarrow>
     \<lparr>di_dp_id = i, di_dp_type = dp_type_of t, di_value_len = of_nat (length v),
      di_value = copy_bytes v (replicate kTuyaDpValueMaxLen 0)\<rparr>)"

definition items_of :: "dp_record list \<Rightarrow> TuyaDpItem list" where
  "items_of rs = map item_of rs @ replicate (kTuyaDpMaxPerFrame - length rs) dp_item_default"

text \<open>The result after the records \<open>rs\<close> were parsed.\<close>

definition parsed :: "dp_record list \<Rightarrow> TuyaDpParseResult \<Rightarrow> bool" where
  "parsed rs r \<longleftrightarrow> length rs \<le> kTuyaDpMaxPerFrame \<and> dr_dp_count r = length rs \<and> dr_items r = items_of rs"

lemma be16_split: "be16 (ucast (drop_bit 8 (w :: u16))) (ucast w) = w"
  unfolding be16_def
  by (rule bit_word_eqI) (auto simp: bit_or_iff bit_push_bit_iff bit_unsigned_iff bit_drop_bit_eq
      dest: bit_imp_le_length)

lemma split_be16: "ucast (drop_bit 8 (be16 hi lo)) = hi" "ucast (be16 hi lo) = lo"
  unfolding be16_def
  by (rule bit_word_eqI, auto simp: bit_or_iff bit_push_bit_iff bit_unsigned_iff bit_drop_bit_eq
      dest: bit_imp_le_length)+
lemma items_of_next:
  assumes "length rs < kTuyaDpMaxPerFrame"
  shows "items_of rs ! length rs = dp_item_default"
    and "(items_of rs)[length rs := item_of x] = items_of (rs @ [x])"
proof -
  obtain k where k: "kTuyaDpMaxPerFrame - length rs = Suc k" using assms by (metis Suc_diff_Suc)
  then show "items_of rs ! length rs = dp_item_default"
    by (simp add: items_of_def nth_append)
  have "kTuyaDpMaxPerFrame - Suc (length rs) = k" using k by simp
  then show "(items_of rs)[length rs := item_of x] = items_of (rs @ [x])"
    using k by (simp add: items_of_def list_update_append)
qed

lemma drop_four:
  "off + 4 \<le> length d \<Longrightarrow> drop off d = d ! off # d ! (off + 1) # d ! (off + 2) # d ! (off + 3) # drop (off + 4) d"
  by (simp add: Cons_nth_drop_Suc[symmetric] eval_nat_numeral)

lemma encode_dp_be16:
  "length v = unat (be16 hi lo) \<Longrightarrow> encode_dp (i, t, v) = i # t # hi # lo # v"
  by (simp add: encode_dp_def split_be16)

lemma parse_step:
  assumes len: "length data = tot" and p: "parsed rs r" "length rs < kTuyaDpMaxPerFrame"
    and off: "off + 4 \<le> tot" and n: "n = unat (be16 (data ! (off + 2)) (data ! (off + 3)))"
    and fit: "n \<le> kTuyaDpValueMaxLen" "off + 4 + n \<le> tot"
    and x: "x = (data ! off, data ! (off + 1), take n (drop (off + 4) data))"
  shows "\<exists>r2. parse_dps data tot off r = parse_dps data tot (off + 4 + n) r2 \<and> parsed (rs @ [x]) r2"
    and "drop off data = encode_dp x @ drop (off + 4 + n) data" and "dp_record_ok x"
proof -
  have tl: "length (take n (drop (off + 4) data)) = n" using fit(2) len by simp
  have c: "dr_dp_count r = length rs" "dr_items r = items_of rs" using p(1) by (simp_all add: parsed_def)
  let ?item = "dp_item_default\<lparr>di_dp_id := data ! off, di_dp_type := dp_type_of (data ! (off + 1)),
    di_value_len := be16 (data ! (off + 2)) (data ! (off + 3)),
    di_value := copy_bytes (take n (drop (off + 4) data)) (di_value dp_item_default)\<rparr>"
  have item: "?item = item_of x"
    using tl n by (simp add: item_of_def x dp_item_default_def)
  let ?r2 = "r\<lparr>dr_items := (items_of rs)[length rs := ?item], dr_dp_count := length rs + 1\<rparr>"
  have "parse_dps data tot off r = parse_dps data tot (off + 4 + n) ?r2"
    using p(2) off fit
    by (subst parse_dps.simps, unfold Let_def c n[symmetric] items_of_next(1)[OF p(2)])
       (simp add: dp_item_default_def del: add_2_eq_Suc add_2_eq_Suc')
  moreover have "parsed (rs @ [x]) ?r2"
    unfolding item using p(2) items_of_next(2)[OF p(2), of x] by (simp add: parsed_def)
  ultimately show "\<exists>r2. parse_dps data tot off r = parse_dps data tot (off + 4 + n) r2 \<and> parsed (rs @ [x]) r2"
    by blast
  have e: "encode_dp x = data ! off # data ! (off + 1) # data ! (off + 2) # data ! (off + 3) # take n (drop (off + 4) data)"
    using encode_dp_be16[of "take n (drop (off + 4) data)" "data ! (off + 2)" "data ! (off + 3)"] tl n x by simp
  have "drop (off + 4) data = take n (drop (off + 4) data) @ drop (off + 4 + n) data"
    by (metis add.commute append_take_drop_id drop_drop)
  then show "drop off data = encode_dp x @ drop (off + 4 + n) data"
    using drop_four[of off data] off len e by simp
  show "dp_record_ok x" using fit(1) tl by (simp add: dp_record_ok_def x)
qed

lemma parse_sound:
  "length data = tot \<Longrightarrow> parsed rs r \<Longrightarrow> dr_status (parse_dps data tot off r) = kParseOk \<Longrightarrow>
   \<exists>ss. drop off data = concat (map encode_dp ss) \<and> list_all dp_record_ok ss \<and>
     parsed (rs @ ss) (parse_dps data tot off r)"
proof (induction "tot - off" arbitrary: off r rs rule: less_induct)
  case less
  show ?case
  proof (cases "off < tot")
    case False
    then have "drop off data = []" using less(2) by simp
    moreover have "parse_dps data tot off r = r\<lparr>dr_status := kParseOk\<rparr>"
      using False by (subst parse_dps.simps) simp
    ultimately show ?thesis using less(3) by (intro exI[of _ "[]"]) (simp add: parsed_def)
  next
    case True
    let ?n = "unat (be16 (data ! (off + 2)) (data ! (off + 3)))"
    have ok: "length rs < kTuyaDpMaxPerFrame" "off + 4 \<le> tot" "?n \<le> kTuyaDpValueMaxLen" "off + 4 + ?n \<le> tot"
      using less(3,4) True by (subst (asm) parse_dps.simps, auto simp: parsed_def Let_def split: if_splits)+
    obtain r2 where r2: "parse_dps data tot off r = parse_dps data tot (off + 4 + ?n) r2"
      "parsed (rs @ [(data ! off, data ! (off + 1), take ?n (drop (off + 4) data))]) r2"
      using parse_step(1)[OF less(2,3) ok(1,2) refl ok(3,4) refl] by blast
    note s = parse_step(2,3)[OF less(2,3) ok(1,2) refl ok(3,4) refl]
    have "tot - (off + 4 + ?n) < tot - off" using ok(2) by simp
    from less(1)[OF this less(2) r2(2)] less(4) r2(1) obtain ss where
      "drop (off + 4 + ?n) data = concat (map encode_dp ss)" "list_all dp_record_ok ss"
      "parsed ((rs @ [(data ! off, data ! (off + 1), take ?n (drop (off + 4) data))]) @ ss) (parse_dps data tot off r)"
      by auto
    then show ?thesis
      using s by (intro exI[of _ "(data ! off, data ! (off + 1), take ?n (drop (off + 4) data)) # ss"]) simp
  qed
qed

lemma encode_dp_nth:
  assumes "drop off data = encode_dp (i, t, v) @ rest" "length v \<le> kTuyaDpValueMaxLen"
  shows "off + 4 + length v \<le> length data"
    and "be16 (data ! (off + 2)) (data ! (off + 3)) = of_nat (length v)"
    and "data ! off = i" "data ! (off + 1) = t" "take (length v) (drop (off + 4) data) = v"
    and "drop (off + 4 + length v) data = rest"
proof -
  let ?hi = "ucast (drop_bit 8 (of_nat (length v) :: u16)) :: u8"
  let ?lo = "ucast (of_nat (length v) :: u16) :: u8"
  have d: "drop off data = i # t # ?hi # ?lo # v @ rest" using assms(1) by (simp add: encode_dp_def)
  have "length data - off = length v + length rest + 4" using arg_cong[OF d, of length] by simp
  then show len: "off + 4 + length v \<le> length data" by simp
  have at: "data ! (off + k) = (i # t # ?hi # ?lo # v @ rest) ! k" if "off \<le> length data" for k
    using that by (metis d nth_drop)
  have o: "off \<le> length data" using len by simp
  show "data ! off = i" "data ! (off + 1) = t" using at[OF o, of 0] at[OF o, of 1] by simp_all
  have "data ! (off + 2) = ?hi" "data ! (off + 3) = ?lo"
    using at[OF o, of 2] at[OF o, of 3] by (simp_all add: eval_nat_numeral)
  then show "be16 (data ! (off + 2)) (data ! (off + 3)) = of_nat (length v)"
    by (simp add: be16_split)
  have d4: "drop (off + 4) data = v @ rest"
  proof -
    have "drop (off + 4) data = drop 4 (drop off data)" by (simp add: add.commute)
    then show ?thesis by (simp add: d eval_nat_numeral)
  qed
  show "take (length v) (drop (off + 4) data) = v" by (simp add: d4)
  show "drop (off + 4 + length v) data = rest" using d4 by (metis add.commute append_eq_conv_conj drop_drop)
qed

lemma parse_complete:
  "length data = tot \<Longrightarrow> parsed rs r \<Longrightarrow> drop off data = concat (map encode_dp ss) \<Longrightarrow> list_all dp_record_ok ss \<Longrightarrow>
   length rs + length ss \<le> kTuyaDpMaxPerFrame \<Longrightarrow>
   dr_status (parse_dps data tot off r) = kParseOk \<and> parsed (rs @ ss) (parse_dps data tot off r)"
proof (induction ss arbitrary: off r rs)
  case Nil
  then have "\<not> off < tot" by (simp)
  then have "parse_dps data tot off r = r\<lparr>dr_status := kParseOk\<rparr>" by (subst parse_dps.simps) simp
  then show ?case using Nil by (simp add: parsed_def)
next
  case (Cons x ss)
  obtain i t v where x: "x = (i, t, v)" by (cases x)
  have d: "drop off data = encode_dp (i, t, v) @ concat (map encode_dp ss)" using Cons.prems(3) x by simp
  have v: "length v \<le> kTuyaDpValueMaxLen" using Cons.prems(4) x by (simp add: dp_record_ok_def)
  note e = encode_dp_nth[OF d v]
  have n: "length v = unat (be16 (data ! (off + 2)) (data ! (off + 3)))"
    using v by (simp only: e(2)) (simp add: unat_of_nat kTuyaDpValueMaxLen_def)
  have fit: "off + 4 \<le> tot" "off + 4 + length v \<le> tot" "length rs < kTuyaDpMaxPerFrame"
    using e(1) Cons.prems(1,5) by simp_all
  have "x = (data ! off, data ! (off + 1), take (length v) (drop (off + 4) data))" using e x by simp
  from parse_step(1)[OF Cons.prems(1,2) fit(3) fit(1) n v fit(2) this] obtain r2 where
    "parse_dps data tot off r = parse_dps data tot (off + 4 + length v) r2" "parsed (rs @ [x]) r2" by blast
  then show ?case
    using Cons.IH[OF Cons.prems(1), of "rs @ [x]" r2 "off + 4 + length v"] e(6) Cons.prems(4,5) by simp
qed
definition frame_of :: "u8 list \<Rightarrow> dp_record list \<Rightarrow> bool" where
  "frame_of data ss \<longleftrightarrow> 2 \<le> length data \<and> length data \<le> kTuyaPayloadMaxLen \<and>
     drop 2 data = concat (map encode_dp ss) \<and> list_all dp_record_ok ss \<and> length ss \<le> kTuyaDpMaxPerFrame"

lemma parse_frame_aux:
  assumes v: "view_is_valid v" "is_tuya_cluster v" and d: "pv_data v = Some data" "length data = unat (pv_data_len v)"
  shows "(dr_status (parse_frame v) = kParseOk \<longleftrightarrow> (\<exists>ss. frame_of data ss)) \<and>
    (\<forall>ss. frame_of data ss \<longrightarrow> dr_dp_count (parse_frame v) = length ss \<and> dr_items (parse_frame v) = items_of ss)"
proof (cases "2 \<le> length data \<and> length data \<le> kTuyaPayloadMaxLen")
  case False
  then have "dr_status (parse_frame v) \<noteq> kParseOk"
    using v d by (auto simp: parse_frame_def Let_def word_less_nat_alt)
  then show ?thesis using False by (auto simp: frame_of_def)
next
  case True
  let ?r = "parse_result_default\<lparr>dr_addr := pv_short_addr v, dr_endpoint := pv_endpoint v\<rparr>"
  have r: "parsed [] ?r" by (simp add: parsed_def items_of_def parse_result_default_def)
  have p: "parse_frame v = parse_dps data (length data) 2 ?r"
    using True v d by (simp add: parse_frame_def Let_def word_less_nat_alt)
  show ?thesis
    using parse_sound[OF refl r, of data 2] parse_complete[OF refl r, of 2 data] True
    unfolding p frame_of_def by (auto simp: parsed_def)
qed

section \<open>Properties\<close>

text \<open>
  C17: on a valid frame of the Tuya cluster the parser accepts exactly the payloads that are two
  header bytes followed by at most eight complete records with values of at most 32 bytes, and then
  returns those records in order, each with its bytes and nothing else in the value array.
\<close>

theorem parser_accepts_exactly_the_wire_format:
  assumes "view_is_valid v" "is_tuya_cluster v" "pv_data v = Some data" "length data = unat (pv_data_len v)"
  shows "(dr_status (parse_frame v) = kParseOk \<longleftrightarrow> (\<exists>ss. frame_of data ss)) \<and>
    (\<forall>ss. frame_of data ss \<longrightarrow> dr_dp_count (parse_frame v) = length ss \<and> dr_items (parse_frame v) = items_of ss)"
  by (rule parse_frame_aux[OF assms])

definition sample_frame :: TuyaPayloadView where
  "sample_frame = \<lparr>pv_short_addr = 0x1234, pv_endpoint = 1, pv_cluster_id = 0xEF00,
     pv_data = Some [0, 7, 1, 1, 0, 1, 1, 3, 2, 0, 4, 0, 0, 0, 87], pv_data_len = 15\<rparr>"

lemma parser_accepts_exactly_the_wire_format_witness:
  "dr_status (parse_frame sample_frame) = kParseOk \<and>
   dr_items (parse_frame sample_frame) = items_of [(1, 1, [1]), (3, 2, [0, 0, 0, 87])]"
proof -
  have h: "view_is_valid sample_frame" "is_tuya_cluster sample_frame"
    "pv_data sample_frame = Some [0, 7, 1, 1, 0, 1, 1, 3, 2, 0, 4, 0, 0, 0, 87]"
    "length [0, 7, 1, 1, 0, 1, 1, 3, 2, 0, 4, 0, 0, 0, 87 :: u8] = unat (pv_data_len sample_frame)"
    by code_simp+
  have f: "frame_of [0, 7, 1, 1, 0, 1, 1, 3, 2, 0, 4, 0, 0, 0, 87] [(1, 1, [1]), (3, 2, [0, 0, 0, 87])]"
    by code_simp
  from parser_accepts_exactly_the_wire_format[OF h] f show ?thesis by blast
qed

end
