(* ===== verification/DescriptorStore.thy ===== *)
theory DescriptorStore
  imports SlotTable LocatorRegistry
begin

text \<open>
  \<^verbatim>\<open>components/service/device_descriptor_store.cpp\<close>: the manufacturer and model strings of the
  devices, by short address. A \<^verbatim>\<open>char\<close> array is a list of 32 characters, read as a C string (up to
  its first NUL).
\<close>

definition kDeviceDescriptorManufacturerMaxLen :: nat where "kDeviceDescriptorManufacturerMaxLen = 32"
definition kDeviceDescriptorModelMaxLen :: nat where "kDeviceDescriptorModelMaxLen = 32"
definition kServiceMaxDevices :: nat where "kServiceMaxDevices = 64"

datatype DeviceDescriptorStatus = kDescriptorUnknown | kDescriptorPending | kDescriptorResolved | kDescriptorFailed

record DeviceDescriptorEntry =
  dd_short_addr :: u16
  dd_status :: DeviceDescriptorStatus
  dd_manufacturer :: string
  dd_model :: string

definition nul :: char where "nul = char_of (0 :: nat)"

definition cstr :: "string \<Rightarrow> string" where
  "cstr buf = takeWhile (\<lambda>c. c \<noteq> nul) buf"

definition descriptor_default :: DeviceDescriptorEntry where
  "descriptor_default = \<lparr>dd_short_addr = kUnknownShortAddr, dd_status = kDescriptorUnknown,
     dd_manufacturer = replicate kDeviceDescriptorManufacturerMaxLen nul,
     dd_model = replicate kDeviceDescriptorModelMaxLen nul\<rparr>"

type_synonym DescriptorStore = "DeviceDescriptorEntry list"

definition descriptor_store_init :: DescriptorStore where
  "descriptor_store_init = replicate kServiceMaxDevices descriptor_default"

text \<open>
  \<^verbatim>\<open>memcpy\<close> of the first \<open>min len 31\<close> characters and the NUL after them; an empty or null value
  clears the first character only.
\<close>

definition store_text :: "nat \<Rightarrow> string option \<Rightarrow> nat \<Rightarrow> string \<Rightarrow> string" where
  "store_text cap v len buf =
     (case v of
        None \<Rightarrow> buf[0 := nul]
      | Some s \<Rightarrow>
          if len = 0 then buf[0 := nul]
          else let n = min len (cap - 1) in take n s @ nul # drop (n + 1) buf)"

definition descriptor_find :: "u16 \<Rightarrow> DescriptorStore \<Rightarrow> nat option" where
  "descriptor_find a es = find_index (\<lambda>e. dd_short_addr e = a) es"

definition try_resolve :: "DeviceDescriptorEntry \<Rightarrow> DeviceDescriptorEntry" where
  "try_resolve e =
     (if dd_status e \<noteq> kDescriptorPending then e
      else if dd_manufacturer e ! 0 \<noteq> nul \<and> dd_model e ! 0 \<noteq> nul then e\<lparr>dd_status := kDescriptorResolved\<rparr>
      else e)"

definition find_or_allocate :: "u16 \<Rightarrow> DescriptorStore \<Rightarrow> (nat \<times> DescriptorStore) option" where
  "find_or_allocate a es =
     (if a = kUnknownShortAddr then None
      else (case descriptor_find a es of
              Some i \<Rightarrow> Some (i, es)
            | None \<Rightarrow> map_option (\<lambda>i. (i, es[i := (es ! i)\<lparr>dd_short_addr := a\<rparr>]))
                        (descriptor_find kUnknownShortAddr es)))"

definition mark_pending :: "u16 \<Rightarrow> DescriptorStore \<Rightarrow> bool \<times> DescriptorStore" where
  "mark_pending a es =
     (case find_or_allocate a es of
        None \<Rightarrow> (False, es)
      | Some (i, es1) \<Rightarrow>
          (True, if dd_status (es1 ! i) = kDescriptorUnknown
                 then es1[i := (es1 ! i)\<lparr>dd_status := kDescriptorPending\<rparr>] else es1))"

definition store_manufacturer :: "u16 \<Rightarrow> string option \<Rightarrow> nat \<Rightarrow> DescriptorStore \<Rightarrow> bool \<times> DescriptorStore" where
  "store_manufacturer a v len es =
     (case descriptor_find a es of
        None \<Rightarrow> (False, es)
      | Some i \<Rightarrow> (True, es[i := try_resolve ((es ! i)\<lparr>dd_manufacturer :=
                     store_text kDeviceDescriptorManufacturerMaxLen v len (dd_manufacturer (es ! i))\<rparr>)]))"

definition store_model :: "u16 \<Rightarrow> string option \<Rightarrow> nat \<Rightarrow> DescriptorStore \<Rightarrow> bool \<times> DescriptorStore" where
  "store_model a v len es =
     (case descriptor_find a es of
        None \<Rightarrow> (False, es)
      | Some i \<Rightarrow> (True, es[i := try_resolve ((es ! i)\<lparr>dd_model :=
                     store_text kDeviceDescriptorModelMaxLen v len (dd_model (es ! i))\<rparr>)]))"

definition mark_failed :: "u16 \<Rightarrow> DescriptorStore \<Rightarrow> bool \<times> DescriptorStore" where
  "mark_failed a es =
     (case descriptor_find a es of
        None \<Rightarrow> (False, es)
      | Some i \<Rightarrow> (True, es[i := (es ! i)\<lparr>dd_status := kDescriptorFailed\<rparr>]))"

definition descriptor_entry :: "u16 \<Rightarrow> DescriptorStore \<Rightarrow> DeviceDescriptorEntry option" where
  "descriptor_entry a es = map_option ((!) es) (descriptor_find a es)"

definition remove_descriptor :: "u16 \<Rightarrow> DescriptorStore \<Rightarrow> bool \<times> DescriptorStore" where
  "remove_descriptor a es =
     (case descriptor_find a es of None \<Rightarrow> (False, es) | Some i \<Rightarrow> (True, es[i := descriptor_default]))"

definition clear_descriptors :: "DescriptorStore \<Rightarrow> DescriptorStore" where
  "clear_descriptors es = map (\<lambda>_. descriptor_default) es"

section \<open>Steps the runtime takes\<close>

text \<open>The operations \<^verbatim>\<open>service_runtime.cpp\<close> calls; it never removes or clears a descriptor.\<close>

datatype descriptor_op =
  MarkPending u16 | MarkFailed u16
| StoreManufacturer u16 "string option" nat | StoreModel u16 "string option" nat

fun descriptor_step :: "descriptor_op \<Rightarrow> DescriptorStore \<Rightarrow> DescriptorStore" where
  "descriptor_step (MarkPending a) es = snd (mark_pending a es)"
| "descriptor_step (MarkFailed a) es = snd (mark_failed a es)"
| "descriptor_step (StoreManufacturer a v n) es = snd (store_manufacturer a v n es)"
| "descriptor_step (StoreModel a v n) es = snd (store_model a v n es)"

definition descriptor_run :: "descriptor_op list \<Rightarrow> DescriptorStore \<Rightarrow> DescriptorStore" where
  "descriptor_run ops es = fold descriptor_step ops es"

definition status_of :: "u16 \<Rightarrow> DescriptorStore \<Rightarrow> DeviceDescriptorStatus option" where
  "status_of a es = map_option dd_status (descriptor_entry a es)"

lemma descriptor_find_iff:
  "descriptor_find a es = Some i \<longleftrightarrow> i < length es \<and> dd_short_addr (es ! i) = a \<and> (\<forall>j < i. dd_short_addr (es ! j) \<noteq> a)"
  by (simp add: descriptor_find_def find_index_Some_iff)

lemma try_resolve_addr [simp]: "dd_short_addr (try_resolve e) = dd_short_addr e"
  by (simp add: try_resolve_def)

text \<open>A write to an entry that keeps its address is seen through that address only.\<close>

lemma descriptor_entry_write:
  assumes "descriptor_find b es = Some i" "dd_short_addr e = b"
  shows "descriptor_entry a (es[i := e]) = (if a = b then Some e else descriptor_entry a es)"
proof -
  have i: "i < length es" "dd_short_addr (es ! i) = b" "\<forall>j < i. dd_short_addr (es ! j) \<noteq> b"
    using assms(1) by (auto simp: descriptor_find_iff)
  have same: "dd_short_addr ((es[i := e]) ! j) = dd_short_addr (es ! j)" for j
    using i assms(2) by (cases "j = i") auto
  then have f: "descriptor_find a (es[i := e]) = descriptor_find a es" for a
    unfolding descriptor_find_def using find_index_map[of "\<lambda>x. x = a" dd_short_addr "es[i := e]"]
      find_index_map[of "\<lambda>x. x = a" dd_short_addr es]
    by (simp add: comp_def map_update i(2)[symmetric] assms(2)) (metis assms(2) i(1) i(2) list_update_id map_update)
  show ?thesis
  proof (cases "a = b")
    case True
    then show ?thesis using assms i by (simp add: descriptor_entry_def f)
  next
    case False
    then have "descriptor_find a es \<noteq> Some i" using i by (auto simp: descriptor_find_iff)
    then show ?thesis using False by (cases "descriptor_find a es") (auto simp: descriptor_entry_def f)
  qed
qed
lemma descriptor_entry_other:
  assumes "i < length es" "dd_short_addr (es ! i) \<noteq> a" "dd_short_addr e \<noteq> a"
  shows "descriptor_entry a (es[i := e]) = descriptor_entry a es"
proof -
  have f: "descriptor_find a (es[i := e]) = descriptor_find a es"
    unfolding descriptor_find_def using assms by (intro find_index_update_same) simp_all
  show ?thesis
  proof (cases "descriptor_find a es")
    case (Some j)
    then have "j \<noteq> i" using assms(2) by (auto simp: descriptor_find_iff)
    then show ?thesis using Some by (simp add: descriptor_entry_def f)
  qed (simp add: descriptor_entry_def f)
qed

lemma failed_write:
  assumes "descriptor_entry a es = Some e" "dd_status e = kDescriptorFailed"
    and "descriptor_find b es = Some i" "dd_short_addr e1 = b"
    and "dd_status (es ! i) = kDescriptorFailed \<Longrightarrow> dd_status e1 = kDescriptorFailed"
  shows "\<exists>e'. descriptor_entry a (es[i := e1]) = Some e' \<and> dd_status e' = kDescriptorFailed"
proof (cases "a = b")
  case True
  then have "dd_status (es ! i) = kDescriptorFailed" using assms(1,2,3) by (auto simp: descriptor_entry_def)
  then show ?thesis using True assms(5) by (simp add: descriptor_entry_write[OF assms(3,4)])
qed (use assms(1,2) in \<open>simp add: descriptor_entry_write[OF assms(3,4)]\<close>)

text \<open>A failed descriptor survives every step.\<close>

lemma descriptor_step_failed:
  assumes "descriptor_entry a es = Some e" "a \<noteq> kUnknownShortAddr" "dd_status e = kDescriptorFailed"
  shows "\<exists>e'. descriptor_entry a (descriptor_step op es) = Some e' \<and> dd_status e' = kDescriptorFailed"
proof (cases op)
  case (MarkPending b)
  show ?thesis
  proof (cases "descriptor_find b es")
    case (Some i)
    then have b: "dd_short_addr (es ! i) = b" by (simp add: descriptor_find_iff)
    have "dd_status (es ! i) = kDescriptorUnknown \<Longrightarrow> a \<noteq> b"
      using assms(1,3) Some by (auto simp: descriptor_entry_def)
    then show ?thesis using assms MarkPending Some b
      by (auto simp: mark_pending_def find_or_allocate_def descriptor_entry_write[OF Some])
  next
    case None
    have ab: "a \<noteq> b" using assms(1) None by (auto simp: descriptor_entry_def)
    show ?thesis
    proof (cases "descriptor_find kUnknownShortAddr es")
      case None': None
      then show ?thesis using assms MarkPending None by (simp add: mark_pending_def find_or_allocate_def)
    next
      case (Some i)
      then have i: "i < length es" "dd_short_addr (es ! i) \<noteq> a" using assms(2) by (auto simp: descriptor_find_iff)
      then show ?thesis using assms MarkPending None Some ab
        by (auto simp: mark_pending_def find_or_allocate_def descriptor_entry_other)
    qed
  qed
next
  case (MarkFailed b)
  show ?thesis
  proof (cases "descriptor_find b es")
    case (Some i)
    have "dd_short_addr (es ! i) = b" using Some by (simp add: descriptor_find_iff)
    then show ?thesis
      using failed_write[OF assms(1,3) Some] MarkFailed Some by (simp add: mark_failed_def try_resolve_def)
  qed (use assms MarkFailed in \<open>simp add: mark_failed_def\<close>)
next
  case (StoreManufacturer b v n)
  show ?thesis
  proof (cases "descriptor_find b es")
    case (Some i)
    have "dd_short_addr (es ! i) = b" using Some by (simp add: descriptor_find_iff)
    then show ?thesis
      using failed_write[OF assms(1,3) Some] StoreManufacturer Some by (simp add: store_manufacturer_def try_resolve_def)
  qed (use assms StoreManufacturer in \<open>simp add: store_manufacturer_def\<close>)
next
  case (StoreModel b v n)
  show ?thesis
  proof (cases "descriptor_find b es")
    case (Some i)
    have "dd_short_addr (es ! i) = b" using Some by (simp add: descriptor_find_iff)
    then show ?thesis
      using failed_write[OF assms(1,3) Some] StoreModel Some by (simp add: store_model_def try_resolve_def)
  qed (use assms StoreModel in \<open>simp add: store_model_def\<close>)
qed

lemma descriptor_run_failed:
  "descriptor_entry a es = Some e \<Longrightarrow> a \<noteq> kUnknownShortAddr \<Longrightarrow> dd_status e = kDescriptorFailed \<Longrightarrow>
   \<exists>e'. descriptor_entry a (descriptor_run ops es) = Some e' \<and> dd_status e' = kDescriptorFailed"
proof (induction ops arbitrary: es e)
  case (Cons op ops)
  then show ?case using descriptor_step_failed[OF Cons.prems, of op] by (auto simp: descriptor_run_def)
qed (simp add: descriptor_run_def)

lemma cstr_store_text:
  assumes "length buf = cap" "1 < cap" "0 < len" "len \<le> length s" "nul \<notin> set s"
  shows "cstr (store_text cap (Some s) len buf) = take (min len (cap - 1)) s"
proof -
  have "nul \<notin> set (take (min len (cap - 1)) s)" using assms(5) by (meson in_set_takeD)
  then show ?thesis using assms(3) by (simp add: store_text_def cstr_def Let_def takeWhile_append)
qed

lemma store_text_first:
  assumes "1 < cap" "0 < len" "len \<le> length s" "nul \<notin> set s"
  shows "store_text cap (Some s) len buf ! 0 \<noteq> nul"
proof -
  have "0 < min len (cap - 1)" "s \<noteq> []" using assms by auto
  then show ?thesis using assms by (cases s) (auto simp: store_text_def Let_def nth_append)
qed

lemma resolved_aux:
  assumes len: "\<forall>e \<in> set es. length (dd_manufacturer e) = 32 \<and> length (dd_model e) = 32"
    and a: "a \<noteq> kUnknownShortAddr" "descriptor_find a es = None"
    and free: "descriptor_find kUnknownShortAddr es = Some i" "es ! i = descriptor_default"
    and s: "0 < n" "n \<le> length s" "nul \<notin> set s" and m: "0 < k" "k \<le> length m" "nul \<notin> set m"
  shows "case descriptor_entry a (descriptor_run [MarkPending a, StoreManufacturer a (Some s) n, StoreModel a (Some m) k] es) of
      None \<Rightarrow> False
    | Some e \<Rightarrow> dd_status e = kDescriptorResolved \<and> cstr (dd_manufacturer e) = take (min n 31) s \<and>
        cstr (dd_model e) = take (min k 31) m"
proof -
  let ?e1 = "descriptor_default\<lparr>dd_short_addr := a, dd_status := kDescriptorPending\<rparr>"
  let ?es1 = "es[i := ?e1]"
  have i: "i < length es" using free(1) by (simp add: descriptor_find_iff)
  have m1: "descriptor_step (MarkPending a) es = ?es1"
    using a free i by (simp add: mark_pending_def find_or_allocate_def descriptor_default_def)
  have "\<forall>j < i. dd_short_addr (es ! j) \<noteq> a"
    using a(2) i by (auto simp: descriptor_find_def find_index_None_iff)
  then have f1: "descriptor_find a ?es1 = Some i" using i by (simp add: descriptor_find_iff)
  let ?e2 = "?e1\<lparr>dd_manufacturer := store_text 32 (Some s) n (dd_manufacturer ?e1)\<rparr>"
  have r1: "try_resolve ?e2 = ?e2"
    by (simp add: try_resolve_def descriptor_default_def kDeviceDescriptorModelMaxLen_def)
  have m2: "descriptor_step (StoreManufacturer a (Some s) n) ?es1 = es[i := ?e2]"
    using f1 i r1 by (simp add: store_manufacturer_def kDeviceDescriptorManufacturerMaxLen_def)
  have f2: "descriptor_find a (es[i := ?e2]) = Some i"
    using f1 i by (auto simp: descriptor_find_iff nth_list_update)
  let ?e3 = "?e2\<lparr>dd_model := store_text 32 (Some m) k (dd_model ?e1)\<rparr>"
  have r2: "try_resolve ?e3 = ?e3\<lparr>dd_status := kDescriptorResolved\<rparr>"
    using store_text_first[OF _ s, of 32] store_text_first[OF _ m, of 32]
    by (simp add: try_resolve_def descriptor_default_def)
  have m3: "descriptor_step (StoreModel a (Some m) k) (es[i := ?e2]) = es[i := ?e3\<lparr>dd_status := kDescriptorResolved\<rparr>]"
    using f2 i r2 by (simp add: store_model_def kDeviceDescriptorModelMaxLen_def)
  have f3: "descriptor_find a (es[i := ?e3\<lparr>dd_status := kDescriptorResolved\<rparr>]) = Some i"
    using f1 i by (auto simp: descriptor_find_iff nth_list_update)
  have "descriptor_entry a (descriptor_run [MarkPending a, StoreManufacturer a (Some s) n, StoreModel a (Some m) k] es)
      = Some (?e3\<lparr>dd_status := kDescriptorResolved\<rparr>)"
    using f3 i by (simp only: descriptor_run_def fold_simps comp_def id_def m1 m2 m3 descriptor_entry_def) simp
  then show ?thesis
    using s m by (simp add: cstr_store_text descriptor_default_def kDeviceDescriptorManufacturerMaxLen_def
        kDeviceDescriptorModelMaxLen_def)
qed

section \<open>Properties\<close>

text \<open>
  A device that has no descriptor yet gets one from its interview: marked pending and given its
  two strings it is resolved, with each string kept up to 31 characters.
\<close>

theorem identity_is_resolved:
  assumes "\<forall>e \<in> set es. length (dd_manufacturer e) = 32 \<and> length (dd_model e) = 32"
    and "a \<noteq> kUnknownShortAddr" "descriptor_find a es = None"
    and "descriptor_find kUnknownShortAddr es = Some i" "es ! i = descriptor_default"
    and "0 < n" "n \<le> length s" "nul \<notin> set s" and "0 < k" "k \<le> length m" "nul \<notin> set m"
  shows "case descriptor_entry a (descriptor_run [MarkPending a, StoreManufacturer a (Some s) n, StoreModel a (Some m) k] es) of
      None \<Rightarrow> False
    | Some e \<Rightarrow> dd_status e = kDescriptorResolved \<and> cstr (dd_manufacturer e) = take (min n 31) s \<and>
        cstr (dd_model e) = take (min k 31) m"
  by (rule resolved_aux[OF assms])

lemma identity_is_resolved_witness:
  "status_of 0x1234 (descriptor_run [MarkPending 0x1234, StoreManufacturer 0x1234 (Some ''_TZ3000_abc'') 11,
     StoreModel 0x1234 (Some ''TS0203'') 6] descriptor_store_init) = Some kDescriptorResolved"
proof -
  have h: "\<forall>e \<in> set descriptor_store_init. length (dd_manufacturer e) = 32 \<and> length (dd_model e) = 32"
    "(0x1234 :: u16) \<noteq> kUnknownShortAddr" "descriptor_find 0x1234 descriptor_store_init = None"
    "descriptor_find kUnknownShortAddr descriptor_store_init = Some 0"
    "descriptor_store_init ! 0 = descriptor_default"
    "0 < (11::nat)" "11 \<le> length ''_TZ3000_abc''" "nul \<notin> set ''_TZ3000_abc''"
    "0 < (6::nat)" "6 \<le> length ''TS0203''" "nul \<notin> set ''TS0203''"
    by code_simp+
  from identity_is_resolved[OF h] show ?thesis by (auto simp: status_of_def split: option.splits)
qed

text \<open>
  A descriptor that was marked failed, because the two read requests of the interview could not
  be sent, stays failed through everything the runtime does to the store, later interviews of the
  same address and their answers included.
\<close>

theorem failed_descriptor_stays_failed:
  "status_of a es = Some kDescriptorFailed \<Longrightarrow> a \<noteq> kUnknownShortAddr \<Longrightarrow>
   status_of a (descriptor_run ops es) = Some kDescriptorFailed"
  using descriptor_run_failed[of a es _ ops] by (auto simp: status_of_def)

lemma failed_descriptor_stays_failed_witness:
  "status_of 0x1234 (descriptor_run [MarkPending 0x1234, StoreManufacturer 0x1234 (Some ''_TZ3000_abc'') 11,
     StoreModel 0x1234 (Some ''TS0203'') 6] (descriptor_run [MarkPending 0x1234, MarkFailed 0x1234] descriptor_store_init)) =
   Some kDescriptorFailed"
proof -
  have "status_of 0x1234 (descriptor_run [MarkPending 0x1234, MarkFailed 0x1234] descriptor_store_init) =
      Some kDescriptorFailed" "(0x1234 :: u16) \<noteq> kUnknownShortAddr"
    by code_simp+
  then show ?thesis by (rule failed_descriptor_stays_failed)
qed

end
