(* ===== verification/TuyaPlugins.thy ===== *)
theory TuyaPlugins
  imports TuyaParser DescriptorStore
begin

text \<open>
  The Tuya plugins (\<^verbatim>\<open>tuya_contact_sensor_plugin.cpp\<close>, \<^verbatim>\<open>tuya_switch_plugin.cpp\<close>), their registry and
  the translator (\<^verbatim>\<open>components/service/\<close>). A plugin is a record of its virtual methods. A
  \<^verbatim>\<open>const char*\<close> is a string without its NUL, \<open>None\<close> for null.
\<close>

definition kTuyaPluginMaxOutputs :: nat where "kTuyaPluginMaxOutputs = 4"
definition kTuyaDpCommandValueMaxLen :: nat where "kTuyaDpCommandValueMaxLen = 4"
definition kTuyaMaxInitSteps :: nat where "kTuyaMaxInitSteps = 4"

datatype TuyaNormalizedKind =
  kNormNone | kNormTemperatureCentiC | kNormContactOpen | kNormOccupancy | kNormBatteryPercent | kNormPowerOn

record TuyaNormalizedOutput =
  no_kind :: TuyaNormalizedKind
  no_value :: u32
  no_valid :: bool

record TuyaPluginResult =
  pr_handled :: bool
  pr_output_count :: nat
  pr_outputs :: "TuyaNormalizedOutput list"

definition norm_output_default :: TuyaNormalizedOutput where
  "norm_output_default = \<lparr>no_kind = kNormNone, no_value = 0, no_valid = True\<rparr>"

definition plugin_result_default :: TuyaPluginResult where
  "plugin_result_default = \<lparr>pr_handled = False, pr_output_count = 0,
     pr_outputs = replicate kTuyaPluginMaxOutputs norm_output_default\<rparr>"

definition add_output :: "TuyaNormalizedKind \<Rightarrow> u32 \<Rightarrow> bool \<Rightarrow> TuyaPluginResult \<Rightarrow> bool \<times> TuyaPluginResult" where
  "add_output kind val ok r =
     (if pr_output_count r \<ge> kTuyaPluginMaxOutputs then (False, r)
      else (True, r\<lparr>pr_outputs := (pr_outputs r)[pr_output_count r :=
                      \<lparr>no_kind = kind, no_value = val, no_valid = ok\<rparr>],
                    pr_output_count := pr_output_count r + 1\<rparr>))"

record TuyaCommandRequest =
  tc_kind :: TuyaNormalizedKind
  tc_value :: u32

record TuyaDpCommand =
  tk_supported :: bool
  tk_dp_id :: u8
  tk_dp_type :: TuyaDpType
  tk_value :: "u8 list"
  tk_value_len :: u8
  tk_endpoint :: u8

definition dp_command_default :: TuyaDpCommand where
  "dp_command_default = \<lparr>tk_supported = False, tk_dp_id = 0, tk_dp_type = kDpRaw,
     tk_value = replicate kTuyaDpCommandValueMaxLen 0, tk_value_len = 0, tk_endpoint = 1\<rparr>"

record TuyaInitStep =
  is_dp_id :: u8
  is_dp_type :: TuyaDpType
  is_value :: "u8 list"
  is_value_len :: u8
  is_endpoint :: u8

record TuyaInitPlan =
  ip_step_count :: u8
  ip_steps :: "TuyaInitStep list"

definition init_step_default :: TuyaInitStep where
  "init_step_default = \<lparr>is_dp_id = 0, is_dp_type = kDpRaw,
     is_value = replicate kTuyaDpCommandValueMaxLen 0, is_value_len = 0, is_endpoint = 1\<rparr>"

definition init_plan_default :: TuyaInitPlan where
  "init_plan_default = \<lparr>ip_step_count = 0, ip_steps = replicate kTuyaMaxInitSteps init_step_default\<rparr>"

definition plan_empty :: "TuyaInitPlan \<Rightarrow> bool" where "plan_empty p \<longleftrightarrow> ip_step_count p = 0"

record TuyaFingerprint =
  fp_manufacturer :: "string option"
  fp_model :: "string option"
  fp_endpoint :: u8

section \<open>Fingerprints\<close>

fun starts_with_loop :: "string \<Rightarrow> string \<Rightarrow> bool" where
  "starts_with_loop str [] = True"
| "starts_with_loop [] (p # ps) = False"
| "starts_with_loop (c # cs) (p # ps) = (if c \<noteq> p then False else starts_with_loop cs ps)"

definition starts_with :: "string option \<Rightarrow> string \<Rightarrow> bool" where
  "starts_with str prefix = (case str of None \<Rightarrow> False | Some s \<Rightarrow> starts_with_loop s prefix)"

definition is_tuya_manufacturer :: "string option \<Rightarrow> bool" where
  "is_tuya_manufacturer m =
     (case m of None \<Rightarrow> False | Some s \<Rightarrow> if s = [] then False else starts_with m ''_TZ'')"

definition fingerprint_matched :: "TuyaFingerprint \<Rightarrow> bool" where
  "fingerprint_matched fp \<longleftrightarrow> is_tuya_manufacturer (fp_manufacturer fp)"

section \<open>Plugins\<close>

record TuyaPlugin =
  tp_matches :: "TuyaFingerprint \<Rightarrow> bool"
  tp_translate :: "TuyaFingerprint \<Rightarrow> TuyaDpParseResult \<Rightarrow> TuyaPluginResult"
  tp_encode_command :: "TuyaFingerprint \<Rightarrow> TuyaCommandRequest \<Rightarrow> TuyaDpCommand"
  tp_init_plan :: "TuyaFingerprint \<Rightarrow> TuyaInitPlan"

text \<open>The methods of the base class.\<close>

definition base_encode_command :: "TuyaFingerprint \<Rightarrow> TuyaCommandRequest \<Rightarrow> TuyaDpCommand" where
  "base_encode_command fp r = dp_command_default"

definition base_init_plan :: "TuyaFingerprint \<Rightarrow> TuyaInitPlan" where
  "base_init_plan fp = init_plan_default"

definition kDpContact :: u8 where "kDpContact = 1"
definition kDpBattery :: u8 where "kDpBattery = 3"
definition kDpPower :: u8 where "kDpPower = 1"

definition is_contact_sensor_model :: "string option \<Rightarrow> bool" where
  "is_contact_sensor_model m = (case m of None \<Rightarrow> False | Some s \<Rightarrow> if s = [] then False else s = ''TS0203'')"

definition contact_matches :: "TuyaFingerprint \<Rightarrow> bool" where
  "contact_matches fp = (if \<not> starts_with (fp_manufacturer fp) ''_TZ'' then False
     else is_contact_sensor_model (fp_model fp))"

definition contact_translate :: "TuyaFingerprint \<Rightarrow> TuyaDpParseResult \<Rightarrow> TuyaPluginResult" where
  "contact_translate fp dp =
     (let r1 = (case find_dp kDpContact dp of
                  Some it \<Rightarrow>
                    if di_dp_type it = kDpBool
                    then (snd (add_output kNormContactOpen (if as_bool it then 1 else 0) True plugin_result_default))
                           \<lparr>pr_handled := True\<rparr>
                    else plugin_result_default
                | None \<Rightarrow> plugin_result_default)
      in case find_dp kDpBattery dp of
           Some it \<Rightarrow>
             if di_dp_type it = kDpValue
             then let percent = as_u32 it
                  in if 0 \<le> sint percent \<and> sint percent \<le> 200
                     then (snd (add_output kNormBatteryPercent percent True r1))\<lparr>pr_handled := True\<rparr>
                     else r1
             else r1
         | None \<Rightarrow> r1)"

definition contact_plugin :: TuyaPlugin where
  "contact_plugin = \<lparr>tp_matches = contact_matches, tp_translate = contact_translate,
     tp_encode_command = base_encode_command, tp_init_plan = base_init_plan\<rparr>"

definition is_switch_model :: "string option \<Rightarrow> bool" where
  "is_switch_model m =
     (case m of None \<Rightarrow> False | Some s \<Rightarrow> if s = [] then False else s = ''TS0001'' \<or> s = ''TS0011'')"

definition switch_matches :: "TuyaFingerprint \<Rightarrow> bool" where
  "switch_matches fp = (if \<not> starts_with (fp_manufacturer fp) ''_TZ'' then False else is_switch_model (fp_model fp))"

definition switch_translate :: "TuyaFingerprint \<Rightarrow> TuyaDpParseResult \<Rightarrow> TuyaPluginResult" where
  "switch_translate fp dp =
     (case find_dp kDpPower dp of
        Some it \<Rightarrow>
          if di_dp_type it = kDpBool
          then (snd (add_output kNormPowerOn (if as_bool it then 1 else 0) True plugin_result_default))
                 \<lparr>pr_handled := True\<rparr>
          else plugin_result_default
      | None \<Rightarrow> plugin_result_default)"

definition switch_encode_command :: "TuyaFingerprint \<Rightarrow> TuyaCommandRequest \<Rightarrow> TuyaDpCommand" where
  "switch_encode_command fp r =
     (if tc_kind r = kNormPowerOn
      then dp_command_default\<lparr>tk_supported := True, tk_dp_id := kDpPower, tk_dp_type := kDpBool,
             tk_value := (tk_value dp_command_default)[0 := (if tc_value r \<noteq> 0 then 1 else 0)],
             tk_value_len := 1, tk_endpoint := 1\<rparr>
      else dp_command_default)"

definition switch_plugin :: TuyaPlugin where
  "switch_plugin = \<lparr>tp_matches = switch_matches, tp_translate = switch_translate,
     tp_encode_command = switch_encode_command, tp_init_plan = base_init_plan\<rparr>"

section \<open>Registry and translator\<close>

definition kAllPlugins :: "TuyaPlugin list" where
  "kAllPlugins = [contact_plugin, switch_plugin]"

definition resolve_plugin :: "TuyaFingerprint \<Rightarrow> TuyaPlugin option" where
  "resolve_plugin fp = find (\<lambda>p. tp_matches p fp) kAllPlugins"

record TuyaTranslateResult =
  tt_routed :: bool
  tt_parsed :: bool
  tt_plugin_found :: bool
  tt_plugin_result :: TuyaPluginResult

definition translate_result_default :: TuyaTranslateResult where
  "translate_result_default = \<lparr>tt_routed = False, tt_parsed = False, tt_plugin_found = False,
     tt_plugin_result = plugin_result_default\<rparr>"

definition translate :: "TuyaPayloadView \<Rightarrow> TuyaFingerprint \<Rightarrow> TuyaTranslateResult" where
  "translate v fp =
     (let r = translate_result_default
      in if \<not> view_is_valid v \<or> \<not> is_tuya_cluster v then r
         else
           let r1 = r\<lparr>tt_routed := True\<rparr>; dp = parse_frame v
           in if dr_status dp \<noteq> kParseOk then r1
              else
                let r2 = r1\<lparr>tt_parsed := True\<rparr>
                in case resolve_plugin fp of
                     None \<Rightarrow> r2
                   | Some p \<Rightarrow> r2\<lparr>tt_plugin_found := True, tt_plugin_result := tp_translate p fp dp\<rparr>)"

record TuyaCommandEncodeResult =
  te_plugin_found :: bool
  te_dp_command :: TuyaDpCommand

definition encode_command :: "TuyaFingerprint \<Rightarrow> TuyaCommandRequest \<Rightarrow> TuyaCommandEncodeResult" where
  "encode_command fp r =
     (case resolve_plugin fp of
        None \<Rightarrow> \<lparr>te_plugin_found = False, te_dp_command = dp_command_default\<rparr>
      | Some p \<Rightarrow> \<lparr>te_plugin_found = True, te_dp_command = tp_encode_command p fp r\<rparr>)"

definition has_plugin :: "TuyaFingerprint \<Rightarrow> bool" where
  "has_plugin fp \<longleftrightarrow> resolve_plugin fp \<noteq> None"

definition get_init_plan :: "TuyaFingerprint \<Rightarrow> TuyaInitPlan" where
  "get_init_plan fp = (case resolve_plugin fp of None \<Rightarrow> init_plan_default | Some p \<Rightarrow> tp_init_plan p fp)"

section \<open>Commands and reports agree\<close>

text \<open>The frame in which a device reports the data point of a command, with header bytes \<open>b\<close> and \<open>c\<close>.\<close>

definition type_byte :: "TuyaDpType \<Rightarrow> u8" where
  "type_byte t = (case t of kDpRaw \<Rightarrow> 0 | kDpBool \<Rightarrow> 1 | kDpValue \<Rightarrow> 2 | kDpString \<Rightarrow> 3 | kDpEnum \<Rightarrow> 4
     | kDpBitmap \<Rightarrow> 5 | kDpUnknown \<Rightarrow> 255)"

lemma dp_type_of_type_byte: "t \<noteq> kDpUnknown \<Longrightarrow> dp_type_of (type_byte t) = t"
  by (cases t) (simp_all add: dp_type_of.simps type_byte_def)

definition echo_record :: "TuyaDpCommand \<Rightarrow> dp_record" where
  "echo_record k = (tk_dp_id k, type_byte (tk_dp_type k), take (unat (tk_value_len k)) (tk_value k))"

definition echo_view :: "u16 \<Rightarrow> u8 \<Rightarrow> u8 \<Rightarrow> TuyaDpCommand \<Rightarrow> TuyaPayloadView" where
  "echo_view a b c k =
     (let data = b # c # encode_dp (echo_record k)
      in \<lparr>pv_short_addr = a, pv_endpoint = tk_endpoint k, pv_cluster_id = kTuyaPrivateClusterId,
          pv_data = Some data, pv_data_len = of_nat (length data)\<rparr>)"
lemma resolve_switch: "switch_matches fp \<Longrightarrow> resolve_plugin fp = Some switch_plugin"
  by (auto simp: resolve_plugin_def kAllPlugins_def contact_plugin_def switch_plugin_def contact_matches_def
      switch_matches_def is_contact_sensor_model_def is_switch_model_def split: option.splits if_splits)

definition power_command :: "bool \<Rightarrow> TuyaDpCommand" where
  "power_command on = dp_command_default\<lparr>tk_supported := True, tk_dp_id := 1, tk_dp_type := kDpBool,
     tk_value := [if on then 1 else 0, 0, 0, 0], tk_value_len := 1, tk_endpoint := 1\<rparr>"

lemma encode_power:
  "switch_matches fp \<Longrightarrow> tc_kind r = kNormPowerOn \<Longrightarrow>
   te_dp_command (encode_command fp r) = power_command (tc_value r \<noteq> 0)"
  by (simp add: encode_command_def resolve_switch switch_plugin_def switch_encode_command_def power_command_def
      dp_command_default_def kDpPower_def kTuyaDpCommandValueMaxLen_def eval_nat_numeral)

lemma echo_parsed:
  assumes "a \<noteq> 0xFFFF"
  shows "dr_status (parse_frame (echo_view a b c (power_command on))) = kParseOk"
    "find_dp 1 (parse_frame (echo_view a b c (power_command on))) =
       Some (item_of (1, 1, [if on then 1 else 0]))"
proof -
  let ?v = "echo_view a b c (power_command on)" and ?rec = "(1, 1, [if on then 1 else 0]) :: dp_record"
  let ?data = "b # c # encode_dp ?rec"
  have rec: "echo_record (power_command on) = ?rec"
    by (simp add: echo_record_def power_command_def dp_command_default_def type_byte_def)
  have len: "length ?data = 7" by (simp add: encode_dp_def)
  have v: "view_is_valid ?v" "is_tuya_cluster ?v" "pv_data ?v = Some ?data" "length ?data = unat (pv_data_len ?v)"
    using assms len unfolding echo_view_def rec Let_def
    by (simp_all add: view_is_valid_def is_tuya_cluster_def)
  have f: "frame_of ?data [?rec]"
    using len by (simp add: frame_of_def kTuyaPayloadMaxLen_def dp_record_ok_def kTuyaDpValueMaxLen_def kTuyaDpMaxPerFrame_def)
  note p = parse_frame_aux[OF v]
  show "dr_status (parse_frame ?v) = kParseOk" using p f by blast
  have "dr_dp_count (parse_frame ?v) = 1" "dr_items (parse_frame ?v) = items_of [?rec]" using p f by simp_all
  then show "find_dp 1 (parse_frame ?v) = Some (item_of ?rec)"
    by (simp add: find_dp_def items_of_def item_of_def)
qed

lemma echo_aux:
  assumes "switch_matches fp" "tc_kind r = kNormPowerOn" "a \<noteq> 0xFFFF"
    and "t = translate (echo_view a b c (te_dp_command (encode_command fp r))) fp"
  shows "tt_routed t \<and> tt_parsed t \<and> tt_plugin_found t \<and> pr_handled (tt_plugin_result t) \<and>
    take (pr_output_count (tt_plugin_result t)) (pr_outputs (tt_plugin_result t)) =
      [\<lparr>no_kind = kNormPowerOn, no_value = (if tc_value r \<noteq> 0 then 1 else 0), no_valid = True\<rparr>]"
proof -
  let ?v = "echo_view a b c (power_command (tc_value r \<noteq> 0))"
  have v: "view_is_valid ?v" "is_tuya_cluster ?v"
    using assms(3) by (simp_all add: echo_view_def Let_def view_is_valid_def is_tuya_cluster_def encode_dp_def
        case_prod_unfold echo_record_def power_command_def dp_command_default_def)
  show ?thesis
    unfolding assms(4) encode_power[OF assms(1,2)] translate_def Let_def
    using v echo_parsed[OF assms(3), of b c "tc_value r \<noteq> 0"]
    by (simp add: resolve_switch[OF assms(1)] switch_plugin_def switch_translate_def kDpPower_def item_of_def
        dp_type_of.simps add_output_def plugin_result_default_def kTuyaPluginMaxOutputs_def as_bool_def
        translate_result_default_def copy_bytes_def numeral_eq_Suc)
qed

section \<open>Properties\<close>

text \<open>
  A switch that reports the data point it was commanded to, in a frame with any two header bytes,
  is translated into exactly one output, the power state of the command.
\<close>

theorem power_command_is_echoed:
  assumes "switch_matches fp" "tc_kind r = kNormPowerOn" "a \<noteq> 0xFFFF"
    and "t = translate (echo_view a b c (te_dp_command (encode_command fp r))) fp"
  shows "tt_routed t \<and> tt_parsed t \<and> tt_plugin_found t \<and> pr_handled (tt_plugin_result t) \<and>
    take (pr_output_count (tt_plugin_result t)) (pr_outputs (tt_plugin_result t)) =
      [\<lparr>no_kind = kNormPowerOn, no_value = (if tc_value r \<noteq> 0 then 1 else 0), no_valid = True\<rparr>]"
  by (rule echo_aux[OF assms])

definition sample_switch :: TuyaFingerprint where
  "sample_switch = \<lparr>fp_manufacturer = Some ''_TZ3000_abc'', fp_model = Some ''TS0001'', fp_endpoint = 1\<rparr>"

lemma power_command_is_echoed_witness:
  "tt_plugin_found (translate (echo_view 0x1234 0 7
     (te_dp_command (encode_command sample_switch \<lparr>tc_kind = kNormPowerOn, tc_value = 1\<rparr>))) sample_switch)"
proof -
  have h: "switch_matches sample_switch" "tc_kind \<lparr>tc_kind = kNormPowerOn, tc_value = 1\<rparr> = kNormPowerOn"
    "(0x1234 :: u16) \<noteq> 0xFFFF"
    by code_simp+
  from power_command_is_echoed[OF h refl] show ?thesis by blast
qed

end
