(* ===== verification/TuyaInit.thy ===== *)
theory TuyaInit
  imports TuyaPlugins CommandDispatcher
begin

text \<open>
  \<^verbatim>\<open>components/service/tuya_init_coordinator.cpp\<close>: the initialisation of Tuya devices, a plan of up
  to four data points each of which is sent, acknowledged and, on a failure or a timeout, retried.
\<close>

definition kTuyaInitMaxDevices :: nat where "kTuyaInitMaxDevices = 16"
definition kTuyaInitMaxRetries :: u8 where "kTuyaInitMaxRetries = 3"
definition kTuyaInitStepTimeoutMs :: u32 where "kTuyaInitStepTimeoutMs = 5000"
definition kTuyaInitCorrelationIdBase :: u32 where "kTuyaInitCorrelationIdBase = 0x80000000"

datatype TuyaInitStatus =
  kInitNotStarted | kInitReady | kInitPending | kInitWaitingAck | kInitDegraded | kInitFailed

record TuyaInitEntry =
  ti_in_use :: bool
  ti_short_addr :: u16
  ti_status :: TuyaInitStatus
  ti_current_step :: u8
  ti_retries_left :: u8
  ti_deadline_ms :: u32
  ti_correlation_id :: u32
  ti_plan :: TuyaInitPlan

definition init_entry_default :: TuyaInitEntry where
  "init_entry_default = \<lparr>ti_in_use = False, ti_short_addr = 0xFFFF, ti_status = kInitNotStarted,
     ti_current_step = 0, ti_retries_left = kTuyaInitMaxRetries, ti_deadline_ms = 0,
     ti_correlation_id = 0, ti_plan = init_plan_default\<rparr>"

record TuyaInitAction =
  ta_pending :: bool
  ta_short_addr :: u16
  ta_endpoint :: u8
  ta_dp_id :: u8
  ta_dp_type :: TuyaDpType
  ta_value :: "u8 list"
  ta_value_len :: u8
  ta_correlation_id :: u32

definition init_action_default :: TuyaInitAction where
  "init_action_default = \<lparr>ta_pending = False, ta_short_addr = 0xFFFF, ta_endpoint = 1, ta_dp_id = 0,
     ta_dp_type = kDpRaw, ta_value = replicate kTuyaDpCommandValueMaxLen 0, ta_value_len = 0,
     ta_correlation_id = 0\<rparr>"

record TuyaInitCoordinator =
  tc_entries :: "TuyaInitEntry list"
  tc_correlation_id_counter :: u32

definition tuya_init_coordinator_init :: TuyaInitCoordinator where
  "tuya_init_coordinator_init = \<lparr>tc_entries = replicate kTuyaInitMaxDevices init_entry_default,
     tc_correlation_id_counter = kTuyaInitCorrelationIdBase\<rparr>"

section \<open>Operations\<close>

definition init_find :: "u16 \<Rightarrow> TuyaInitCoordinator \<Rightarrow> nat option" where
  "init_find a m = find_index (\<lambda>e. ti_in_use e \<and> ti_short_addr e = a) (tc_entries m)"

definition init_allocate :: "u16 \<Rightarrow> TuyaInitCoordinator \<Rightarrow> (nat \<times> TuyaInitCoordinator) option" where
  "init_allocate a m = map_option (\<lambda>i. (i, m\<lparr>tc_entries := (tc_entries m)[i :=
       (tc_entries m ! i)\<lparr>ti_in_use := True, ti_short_addr := a\<rparr>]\<rparr>))
     (find_index (\<lambda>e. \<not> ti_in_use e) (tc_entries m))"

definition init_find_by_correlation_id :: "u32 \<Rightarrow> TuyaInitCoordinator \<Rightarrow> nat option" where
  "init_find_by_correlation_id c m =
     find_index (\<lambda>e. ti_in_use e \<and> ti_correlation_id e = c) (tc_entries m)"

definition next_correlation_id :: "TuyaInitCoordinator \<Rightarrow> u32 \<times> TuyaInitCoordinator" where
  "next_correlation_id m =
     (tc_correlation_id_counter m, m\<lparr>tc_correlation_id_counter := tc_correlation_id_counter m + 1\<rparr>)"

definition notify_device_resolved :: "u16 \<Rightarrow> TuyaInitPlan \<Rightarrow> TuyaInitCoordinator \<Rightarrow> TuyaInitCoordinator" where
  "notify_device_resolved a plan m =
     (case (case init_find a m of Some i \<Rightarrow> Some (i, m) | None \<Rightarrow> init_allocate a m) of
        None \<Rightarrow> m
      | Some (i, m1) \<Rightarrow>
          m1\<lparr>tc_entries := (tc_entries m1)[i := (tc_entries m1 ! i)
            \<lparr>ti_plan := plan, ti_current_step := 0, ti_retries_left := kTuyaInitMaxRetries,
             ti_correlation_id := 0, ti_deadline_ms := 0,
             ti_status := (if plan_empty plan then kInitReady else kInitPending)\<rparr>]\<rparr>)"

definition notify_device_removed :: "u16 \<Rightarrow> TuyaInitCoordinator \<Rightarrow> TuyaInitCoordinator" where
  "notify_device_removed a m =
     (case init_find a m of None \<Rightarrow> m | Some i \<Rightarrow> m\<lparr>tc_entries := (tc_entries m)[i := init_entry_default]\<rparr>)"

text \<open>The first loop of \<^verbatim>\<open>tick\<close>: steps that were not acknowledged in time.\<close>

definition expire_step :: "u32 \<Rightarrow> TuyaInitEntry \<Rightarrow> TuyaInitEntry" where
  "expire_step now_ms e =
     (if \<not> ti_in_use e \<or> ti_status e \<noteq> kInitWaitingAck then e
      else if now_ms \<ge> ti_deadline_ms e
      then if ti_retries_left e > 0
           then e\<lparr>ti_retries_left := ti_retries_left e - 1, ti_status := kInitPending\<rparr>
           else e\<lparr>ti_status := kInitDegraded\<rparr>
      else e)"

definition action_of :: "TuyaInitStep \<Rightarrow> u16 \<Rightarrow> u32 \<Rightarrow> TuyaInitAction" where
  "action_of s a corr_id = init_action_default
     \<lparr>ta_pending := True, ta_short_addr := a, ta_endpoint := is_endpoint s, ta_dp_id := is_dp_id s,
      ta_dp_type := is_dp_type s, ta_value_len := is_value_len s,
      ta_value := copy_bytes (take (min (unat (is_value_len s)) kTuyaDpCommandValueMaxLen) (is_value s))
                    (ta_value init_action_default),
      ta_correlation_id := corr_id\<rparr>"

text \<open>The second loop: the first entry with a step to send; \<open>corr_id\<close> is the next correlation id.\<close>

fun send_loop :: "u32 \<Rightarrow> u32 \<Rightarrow> TuyaInitEntry list \<Rightarrow> TuyaInitAction option \<times> TuyaInitEntry list" where
  "send_loop now_ms corr_id [] = (None, [])"
| "send_loop now_ms corr_id (e # es) =
     (if \<not> ti_in_use e \<or> ti_status e \<noteq> kInitPending
      then (let (act, es') = send_loop now_ms corr_id es in (act, e # es'))
      else if ti_current_step e \<ge> ip_step_count (ti_plan e)
      then (let (act, es') = send_loop now_ms corr_id es in (act, e\<lparr>ti_status := kInitReady\<rparr> # es'))
      else (Some (action_of (ip_steps (ti_plan e) ! unat (ti_current_step e)) (ti_short_addr e) corr_id),
            e\<lparr>ti_correlation_id := corr_id, ti_deadline_ms := now_ms + kTuyaInitStepTimeoutMs,
              ti_status := kInitWaitingAck\<rparr> # es))"

definition init_tick :: "u32 \<Rightarrow> TuyaInitCoordinator \<Rightarrow> TuyaInitAction \<times> TuyaInitCoordinator" where
  "init_tick now_ms m =
     (let es = map (expire_step now_ms) (tc_entries m);
          (corr_id, m1) = next_correlation_id m;
          (act, es') = send_loop now_ms corr_id es
      in case act of
           None \<Rightarrow> (init_action_default, m\<lparr>tc_entries := es'\<rparr>)
         | Some x \<Rightarrow> (x, m1\<lparr>tc_entries := es'\<rparr>))"

definition ack_entry :: "bool \<Rightarrow> TuyaInitEntry \<Rightarrow> TuyaInitEntry" where
  "ack_entry success e =
     (if success
      then let e1 = e\<lparr>ti_current_step := ti_current_step e + 1, ti_retries_left := kTuyaInitMaxRetries\<rparr>
           in if ti_current_step e1 \<ge> ip_step_count (ti_plan e1) then e1\<lparr>ti_status := kInitReady\<rparr>
              else e1\<lparr>ti_status := kInitPending\<rparr>
      else if ti_retries_left e > 0
      then e\<lparr>ti_retries_left := ti_retries_left e - 1, ti_status := kInitPending\<rparr>
      else e\<lparr>ti_status := kInitDegraded\<rparr>)"

definition notify_ack :: "u32 \<Rightarrow> bool \<Rightarrow> TuyaInitCoordinator \<Rightarrow> bool \<times> TuyaInitCoordinator" where
  "notify_ack c success m =
     (case init_find_by_correlation_id c m of
        None \<Rightarrow> (False, m)
      | Some i \<Rightarrow>
          if ti_status (tc_entries m ! i) \<noteq> kInitWaitingAck then (False, m)
          else (True, m\<lparr>tc_entries := (tc_entries m)[i := ack_entry success (tc_entries m ! i)]\<rparr>))"

definition init_status :: "u16 \<Rightarrow> TuyaInitCoordinator \<Rightarrow> TuyaInitStatus" where
  "init_status a m = (case init_find a m of None \<Rightarrow> kInitNotStarted | Some i \<Rightarrow> ti_status (tc_entries m ! i))"

definition clear_inits :: "TuyaInitCoordinator \<Rightarrow> TuyaInitCoordinator" where
  "clear_inits m = m\<lparr>tc_entries := map (\<lambda>_. init_entry_default) (tc_entries m),
     tc_correlation_id_counter := kTuyaInitCorrelationIdBase\<rparr>"

section \<open>The runtime routes results\<close>

text \<open>\<^verbatim>\<open>ServiceRuntime::try_route_tuya_init_result\<close>.\<close>

definition try_route_tuya_init_result ::
  "CoreCommandResult \<Rightarrow> TuyaInitCoordinator \<Rightarrow> bool \<times> TuyaInitCoordinator" where
  "try_route_tuya_init_result r m =
     (if cr_correlation_id r < kTuyaInitCorrelationIdBase then (False, m)
      else notify_ack (cr_correlation_id r) (cr_type r = kResultSuccess) m)"

section \<open>The work that is left\<close>

text \<open>How many frames the initialisation of an entry can still send: four per step to go.\<close>

definition init_work :: "TuyaInitEntry \<Rightarrow> nat" where
  "init_work e =
     (let left = unat (ip_step_count (ti_plan e)) - unat (ti_current_step e)
      in case ti_status e of
           kInitPending \<Rightarrow> if left = 0 then 0 else (left - 1) * 4 + unat (ti_retries_left e) + 1
         | kInitWaitingAck \<Rightarrow> if left = 0 then 0 else (left - 1) * 4 + unat (ti_retries_left e)
         | _ \<Rightarrow> 0)"

definition total_work :: "TuyaInitCoordinator \<Rightarrow> nat" where
  "total_work m = sum_list (map init_work (tc_entries m))"

datatype init_op = InitTick u32 | InitAck u32 bool

text \<open>The frames sent in a run.\<close>

fun init_run :: "init_op list \<Rightarrow> TuyaInitCoordinator \<Rightarrow> TuyaInitAction list" where
  "init_run [] m = []"
| "init_run (InitTick t # ops) m =
     (let (act, m1) = init_tick t m in (if ta_pending act then [act] else []) @ init_run ops m1)"
| "init_run (InitAck c ok # ops) m = init_run ops (snd (notify_ack c ok m))"
definition init_entry_wf :: "TuyaInitEntry \<Rightarrow> bool" where
  "init_entry_wf e \<longleftrightarrow> (ti_status e = kInitWaitingAck \<longrightarrow> ti_current_step e < ip_step_count (ti_plan e))"

definition init_wf :: "TuyaInitCoordinator \<Rightarrow> bool" where
  "init_wf m \<longleftrightarrow> (\<forall>e \<in> set (tc_entries m). init_entry_wf e)"

lemma u8_dec: "(w :: u8) > 0 \<Longrightarrow> Suc (unat (w - 1)) = unat w"
  by (simp add: word_less_nat_alt unat_sub_if_size)

lemma expire_step_work: "init_work (expire_step t e) \<le> init_work e"
  by (auto simp: expire_step_def init_work_def Let_def u8_dec split: TuyaInitStatus.splits)

lemma expire_step_wf: "init_entry_wf e \<Longrightarrow> init_entry_wf (expire_step t e)"
  by (simp add: expire_step_def init_entry_wf_def)

lemma send_loop_work:
  "sum_list (map init_work (snd (send_loop t c es))) + (if fst (send_loop t c es) = None then 0 else 1)
     \<le> sum_list (map init_work es)"
proof (induction es)
  case (Cons e es)
  show ?case
  proof (cases "\<not> ti_in_use e \<or> ti_status e \<noteq> kInitPending")
    case True
    then show ?thesis using Cons by (simp add: case_prod_unfold Let_def)
  next
    case False
    show ?thesis
    proof (cases "ti_current_step e \<ge> ip_step_count (ti_plan e)")
      case True
      then show ?thesis using Cons False by (simp add: case_prod_unfold Let_def init_work_def)
    next
      case False': False
      then show ?thesis using False by (simp add: init_work_def Let_def word_le_nat_alt)
    qed
  qed
qed simp

lemma send_loop_wf:
  "\<forall>e \<in> set es. init_entry_wf e \<Longrightarrow> \<forall>e \<in> set (snd (send_loop t c es)). init_entry_wf e"
  by (induction es) (auto simp: case_prod_unfold Let_def init_entry_wf_def not_le)

lemma send_loop_act: "fst (send_loop t c es) = Some x \<Longrightarrow> ta_pending x"
  by (induction es) (auto simp: case_prod_unfold Let_def action_of_def split: if_splits)

lemma init_tick_work:
  assumes "init_wf m" "init_tick t m = (act, m1)"
  shows "init_wf m1 \<and> total_work m1 + of_bool (ta_pending act) \<le> total_work m"
proof -
  let ?es = "map (expire_step t) (tc_entries m)"
  let ?r = "send_loop t (tc_correlation_id_counter m) ?es"
  have "sum_list (map init_work ?es) \<le> total_work m"
    unfolding total_work_def by (simp add: sum_list_mono expire_step_work comp_def)
  moreover have "\<forall>e \<in> set ?es. init_entry_wf e" using assms(1) by (auto simp: init_wf_def expire_step_wf)
  ultimately have w: "sum_list (map init_work (snd ?r)) + (if fst ?r = None then 0 else 1) \<le> total_work m"
    and wf: "\<forall>e \<in> set (snd ?r). init_entry_wf e"
    using send_loop_work[of t "tc_correlation_id_counter m" ?es] send_loop_wf[of ?es t "tc_correlation_id_counter m"]
    by linarith+
  show ?thesis
  proof (cases "fst ?r")
    case None
    then have "act = init_action_default" "m1 = m\<lparr>tc_entries := snd ?r\<rparr>"
      using assms(2) by (simp_all add: init_tick_def next_correlation_id_def case_prod_unfold Let_def)
    then show ?thesis using None w wf by (simp add: total_work_def init_wf_def init_action_default_def)
  next
    case (Some x)
    then have "act = x" "tc_entries m1 = snd ?r"
      using assms(2) by (auto simp: init_tick_def next_correlation_id_def case_prod_unfold Let_def)
    then show ?thesis using Some w wf send_loop_act[OF Some] by (simp add: total_work_def init_wf_def)
  qed
qed

lemma ack_entry_work:
  assumes "ti_status e = kInitWaitingAck" "init_entry_wf e"
  shows "init_work (ack_entry ok e) \<le> init_work e \<and> init_entry_wf (ack_entry ok e)"
proof -
  let ?n = "unat (ip_step_count (ti_plan e))" and ?c = "unat (ti_current_step e)"
  have lt: "?c < ?n" using assms by (simp add: init_entry_wf_def word_less_nat_alt)
  have "?c + 1 < 256" using lt unat_u8_less[of "ip_step_count (ti_plan e)"] by linarith
  then have c: "unat (ti_current_step e + 1) = ?c + 1" by (simp add: unat_word_ariths)
  obtain k where k: "?n = ?c + Suc k" using lt less_iff_Suc_add by auto
  show ?thesis
    using assms(1) lt u8_dec[of "ti_retries_left e"]
    by (cases k) (auto simp: ack_entry_def init_work_def init_entry_wf_def Let_def c k kTuyaInitMaxRetries_def
        word_le_nat_alt)
qed

lemma sum_list_update_le:
  "i < length xs \<Longrightarrow> f y \<le> f (xs ! i) \<Longrightarrow> sum_list (map f (xs[i := y])) \<le> (sum_list (map f xs) :: nat)"
proof (induction xs arbitrary: i)
  case (Cons x xs)
  then show ?case by (cases i) auto
qed simp

lemma notify_ack_work:
  assumes "init_wf m"
  shows "init_wf (snd (notify_ack c ok m)) \<and> total_work (snd (notify_ack c ok m)) \<le> total_work m"
proof (cases "init_find_by_correlation_id c m")
  case (Some i)
  have i: "i < length (tc_entries m)"
    using Some by (simp add: init_find_by_correlation_id_def find_index_Some_iff)
  have wf: "init_entry_wf (tc_entries m ! i)" using assms i by (simp add: init_wf_def)
  show ?thesis
    using Some assms ack_entry_work[of "tc_entries m ! i" ok] wf i
      sum_list_update_le[of i "tc_entries m" init_work "ack_entry ok (tc_entries m ! i)"]
    by (auto simp: notify_ack_def total_work_def init_wf_def dest!: set_update_subset_insert[THEN subsetD])
qed (use assms in \<open>simp add: notify_ack_def\<close>)

lemma init_run_work: "init_wf m \<Longrightarrow> length (init_run ops m) \<le> total_work m"
proof (induction ops m rule: init_run.induct)
  case (2 t ops m)
  obtain act m1 where r: "init_tick t m = (act, m1)" by fastforce
  show ?case using init_tick_work[OF 2(2) r] 2(1)[OF r[symmetric] refl] by (auto simp: r of_bool_def split: if_splits)
next
  case (3 c ok ops m)
  show ?case using notify_ack_work[OF 3(2), of c ok] 3(1) by simp
qed simp

lemma resolved_work:
  assumes "init_wf m"
  shows "init_wf (notify_device_resolved a plan m)"
    and "total_work (notify_device_resolved a plan m) \<le> total_work m + 4 * unat (ip_step_count plan)"
proof -
  have new: "init_wf (m1\<lparr>tc_entries := (tc_entries m1)[i := e]\<rparr>) \<and>
      total_work (m1\<lparr>tc_entries := (tc_entries m1)[i := e]\<rparr>) \<le> total_work m1 + 4 * unat (ip_step_count plan)"
    if "init_wf m1" "ti_status e = (if plan_empty plan then kInitReady else kInitPending)"
      "ti_plan e = plan" "ti_current_step e = 0" "ti_retries_left e = kTuyaInitMaxRetries" for m1 i e
  proof -
    have w: "init_work e \<le> 4 * unat (ip_step_count plan)"
      using that by (cases "unat (ip_step_count plan)") (auto simp: init_work_def Let_def kTuyaInitMaxRetries_def)
    have wf: "init_entry_wf e" using that(2) by (simp add: init_entry_wf_def)
    have sum: "sum_list (map init_work (xs[i := e])) \<le> sum_list (map init_work xs) + init_work e" for xs i
    proof (induction xs arbitrary: i)
      case (Cons x xs)
      show ?case using Cons[of "i - 1"] by (cases i) auto
    qed simp
    have "total_work (m1\<lparr>tc_entries := (tc_entries m1)[i := e]\<rparr>) \<le> total_work m1 + init_work e"
      using sum by (simp add: total_work_def)
    then show ?thesis
      using w wf that(1) by (auto simp: init_wf_def dest!: set_update_subset_insert[THEN subsetD])
  qed
  have "init_wf (notify_device_resolved a plan m) \<and>
      total_work (notify_device_resolved a plan m) \<le> total_work m + 4 * unat (ip_step_count plan)"
  proof (cases "init_find a m")
    case (Some i)
    then show ?thesis using new[OF assms] by (simp add: notify_device_resolved_def)
  next
    case None
    show ?thesis
    proof (cases "init_allocate a m")
      case (Some p)
      then obtain i where i: "p = (i, m\<lparr>tc_entries := (tc_entries m)[i :=
            (tc_entries m ! i)\<lparr>ti_in_use := True, ti_short_addr := a\<rparr>]\<rparr>)" "i < length (tc_entries m)"
        by (auto simp: init_allocate_def find_index_Some_iff)
      let ?e = "(tc_entries m ! i)\<lparr>ti_in_use := True, ti_short_addr := a\<rparr>"
      have "init_work ?e = init_work (tc_entries m ! i)"
        by (cases "ti_status (tc_entries m ! i)") (simp_all add: init_work_def Let_def)
      then have tw: "total_work (m\<lparr>tc_entries := (tc_entries m)[i := ?e]\<rparr>) \<le> total_work m"
        using i(2) sum_list_update_le[of i "tc_entries m" init_work ?e] by (simp add: total_work_def)
      have wf: "init_wf (m\<lparr>tc_entries := (tc_entries m)[i := ?e]\<rparr>)"
        using assms i(2) by (auto simp: init_wf_def init_entry_wf_def dest!: set_update_subset_insert[THEN subsetD])
      show ?thesis
        using None Some i new[OF wf, of "?e\<lparr>ti_plan := plan, ti_current_step := 0,
            ti_retries_left := kTuyaInitMaxRetries, ti_correlation_id := 0, ti_deadline_ms := 0,
            ti_status := (if plan_empty plan then kInitReady else kInitPending)\<rparr>" i] tw
        by (simp add: notify_device_resolved_def)
    qed (use None assms in \<open>simp add: notify_device_resolved_def\<close>)
  qed
  then show "init_wf (notify_device_resolved a plan m)"
    and "total_work (notify_device_resolved a plan m) \<le> total_work m + 4 * unat (ip_step_count plan)" by simp_all
qed

section \<open>The deadline near the wrap of the clock\<close>

definition one_device :: "u16 \<Rightarrow> TuyaInitPlan \<Rightarrow> TuyaInitCoordinator" where
  "one_device a plan = notify_device_resolved a plan tuya_init_coordinator_init"

lemma one_device_entries:
  "\<not> plan_empty plan \<Longrightarrow> one_device a plan = tuya_init_coordinator_init\<lparr>tc_entries :=
     init_entry_default\<lparr>ti_in_use := True, ti_short_addr := a, ti_plan := plan, ti_status := kInitPending\<rparr> #
     replicate 15 init_entry_default\<rparr>"
  by (simp add: one_device_def notify_device_resolved_def init_find_def init_allocate_def
      tuya_init_coordinator_init_def kTuyaInitMaxDevices_def init_entry_default_def numeral_eq_Suc)

lemma fresh_entry:
  "ti_current_step init_entry_default = 0" "ti_retries_left init_entry_default = 3"
  by (simp_all add: init_entry_default_def kTuyaInitMaxRetries_def)

lemma idle_entries:
  "map (expire_step t) (replicate n init_entry_default) = replicate n init_entry_default"
  "send_loop t c (replicate n init_entry_default) = (None, replicate n init_entry_default)"
  by (induction n) (simp_all add: expire_step_def init_entry_default_def)

lemma resend_aux:
  assumes "\<not> plan_empty plan"
  shows "ta_pending (fst (init_tick t (snd (init_tick t (one_device a plan))))) \<longleftrightarrow> t + kTuyaInitStepTimeoutMs \<le> t"
proof -
  let ?e = "init_entry_default\<lparr>ti_in_use := True, ti_short_addr := a, ti_plan := plan,
    ti_correlation_id := kTuyaInitCorrelationIdBase, ti_deadline_ms := t + kTuyaInitStepTimeoutMs,
    ti_status := kInitWaitingAck\<rparr>"
  have n: "\<not> ip_step_count plan \<le> 0" using assms by (simp add: plan_empty_def)
  have 1: "snd (init_tick t (one_device a plan)) = tuya_init_coordinator_init
      \<lparr>tc_entries := ?e # replicate 15 init_entry_default, tc_correlation_id_counter := kTuyaInitCorrelationIdBase + 1\<rparr>"
    using n by (simp add: init_tick_def one_device_entries[OF assms] idle_entries next_correlation_id_def Let_def
        expire_step_def fresh_entry tuya_init_coordinator_init_def del: map_replicate)
  show ?thesis
    using n unfolding 1
    by (simp add: init_tick_def idle_entries next_correlation_id_def Let_def expire_step_def fresh_entry
        action_of_def init_action_default_def del: map_replicate)
qed

lemma init_wf_init: "init_wf tuya_init_coordinator_init"
  by (simp add: init_wf_def tuya_init_coordinator_init_def init_entry_default_def init_entry_wf_def)

section \<open>Properties\<close>

lemma init_bound_aux:
  "init_wf m \<Longrightarrow>
     length (init_run ops (notify_device_resolved a plan m)) \<le> total_work m + 4 * unat (ip_step_count plan)"
  using resolved_work[of m a plan] init_run_work[of "notify_device_resolved a plan m" ops] by linarith

text \<open>C18: The initialisation of a device ends. From a coordinator in which every step waited for is a step of
  its plan, resolving a device with a plan of \<open>n\<close> steps adds at most \<open>4 * n\<close> frames to the frames still to
  be sent, whatever ticks, acknowledgements and refusals follow and in whatever order: a step is sent at
  most once and retried at most three times.\<close>

theorem initialisation_ends:
  "init_wf m \<Longrightarrow>
     length (init_run ops (notify_device_resolved a plan m)) \<le> total_work m + 4 * unat (ip_step_count plan)"
  by (rule init_bound_aux)

lemma initialisation_ends_witness:
  "\<forall>ts. length (init_run (map InitTick ts)
     (notify_device_resolved 7 (init_plan_default\<lparr>ip_step_count := 2\<rparr>) tuya_init_coordinator_init)) \<le> 8"
proof
  fix ts
  show "length (init_run (map InitTick ts)
     (notify_device_resolved 7 (init_plan_default\<lparr>ip_step_count := 2\<rparr>) tuya_init_coordinator_init)) \<le> 8"
    using initialisation_ends[OF init_wf_init, of "map InitTick ts" 7 "init_plan_default\<lparr>ip_step_count := 2\<rparr>"]
    by (simp add: total_work_def tuya_init_coordinator_init_def sum_list_replicate init_work_def init_entry_default_def)
qed

text \<open>When a step times out. After the first frame of a plan was sent at \<open>t\<close>, another tick at the same
  moment resends it exactly when \<open>t + 5000\<close> wraps around the 32-bit clock: the deadline is compared with
  \<open>>=\<close> on absolute times, so in the last five seconds before the clock wraps every step counts as timed out
  at once, and its retries are spent in as many ticks.\<close>

theorem step_timeout_ignores_the_wrap:
  "\<not> plan_empty plan \<Longrightarrow>
     ta_pending (fst (init_tick t (snd (init_tick t (notify_device_resolved a plan tuya_init_coordinator_init)))))
     \<longleftrightarrow> t + kTuyaInitStepTimeoutMs \<le> t"
  using resend_aux[of plan t a] by (simp add: one_device_def)

lemma step_timeout_ignores_the_wrap_witness:
  "ta_pending (fst (init_tick (-1) (snd (init_tick (-1)
     (notify_device_resolved 7 (init_plan_default\<lparr>ip_step_count := 1\<rparr>) tuya_init_coordinator_init)))))"
  using step_timeout_ignores_the_wrap[of "init_plan_default\<lparr>ip_step_count := 1\<rparr>" "-1" 7]
  by (simp add: plan_empty_def kTuyaInitStepTimeoutMs_def)

end
