(* ===== verification/RuntimeState.thy ===== *)
theory RuntimeState
  imports RingQueue ReportingManager TuyaInit DeviceManager
begin

text \<open>
  The state of \<^verbatim>\<open>ServiceRuntime\<close> (\<^verbatim>\<open>components/service/service_runtime.hpp\<close>) that its managers share: the
  queue of core events, the counters, and the managers modelled as records of their own. The command
  manager is not a field: its operations take the runtime, as in the code. The queue is only touched
  under \<^verbatim>\<open>ingress_lock_\<close> and each counter is an atomic of its own, so every operation below is one step.
\<close>

record RuntimeStats =
  rx_processed_events :: u32
  rx_dropped_events :: u32
  rx_executed_effects :: u32
  rx_failed_effects :: u32
  rx_command_retries :: u32
  rx_command_timeouts :: u32
  rx_reporting_retries :: u32
  rx_reporting_failures :: u32
  rx_stale_devices :: u32
  rx_autoconnect_failures :: u32
  rx_current_backoff_ms :: u32
  rx_nvs_writes :: u32
  rx_last_nvs_revision :: u32
  rx_network_refresh_requests :: u32

definition runtime_stats_default :: RuntimeStats where
  "runtime_stats_default =
     \<lparr>rx_processed_events = 0, rx_dropped_events = 0, rx_executed_effects = 0, rx_failed_effects = 0,
      rx_command_retries = 0, rx_command_timeouts = 0, rx_reporting_retries = 0, rx_reporting_failures = 0,
      rx_stale_devices = 0, rx_autoconnect_failures = 0, rx_current_backoff_ms = 0, rx_nvs_writes = 0,
      rx_last_nvs_revision = 0, rx_network_refresh_requests = 0\<rparr>"

definition kEventQueueCapacity :: nat where "kEventQueueCapacity = 32"

record ServiceRuntime =
  rt_event_queue :: "CoreEvent ring"
  rt_dropped_ingress :: u32
  rt_stats :: RuntimeStats
  rt_last_tick_ms :: u32
  rt_config :: ConfigManager
  rt_config_timeout_ms_cache :: u32
  rt_config_max_retries_cache :: u32
  rt_reporting :: ReportingManager
  rt_devices :: DeviceManager
  rt_descriptors :: DescriptorStore
  rt_tuya_init :: TuyaInitCoordinator

definition runtime_init :: ServiceRuntime where
  "runtime_init =
     \<lparr>rt_event_queue = ring_empty kEventQueueCapacity core_event_default, rt_dropped_ingress = 0,
      rt_stats = runtime_stats_default, rt_last_tick_ms = 0, rt_config = config_init,
      rt_config_timeout_ms_cache = 5000, rt_config_max_retries_cache = 1,
      rt_reporting = reporting_manager_init, rt_devices = device_manager_init,
      rt_descriptors = descriptor_store_init, rt_tuya_init = tuya_init_coordinator_init\<rparr>"

section \<open>The event queue\<close>

definition push_event :: "CoreEvent \<Rightarrow> ServiceRuntime \<Rightarrow> bool \<times> ServiceRuntime" where
  "push_event event rt =
     (case ring_push kEventQueueCapacity event (rt_event_queue rt) of
        None \<Rightarrow> (False, rt\<lparr>rt_dropped_ingress := rt_dropped_ingress rt + 1\<rparr>)
      | Some q \<Rightarrow> (True, rt\<lparr>rt_event_queue := q\<rparr>))"

definition pop_event :: "ServiceRuntime \<Rightarrow> (CoreEvent \<times> ServiceRuntime) option" where
  "pop_event rt =
     map_option (\<lambda>(event, q). (event, rt\<lparr>rt_event_queue := q\<rparr>)) (ring_pop kEventQueueCapacity (rt_event_queue rt))"

definition note_dropped_event :: "ServiceRuntime \<Rightarrow> ServiceRuntime" where
  "note_dropped_event rt =
     rt\<lparr>rt_stats := (rt_stats rt)\<lparr>rx_dropped_events := rx_dropped_events (rt_stats rt) + 1\<rparr>\<rparr>"

text \<open>The events waiting, oldest first.\<close>

definition queued :: "ServiceRuntime \<Rightarrow> CoreEvent list" where
  "queued rt = ring_list kEventQueueCapacity (rt_event_queue rt)"

definition runtime_queue_ok :: "ServiceRuntime \<Rightarrow> bool" where
  "runtime_queue_ok rt \<longleftrightarrow> ring_inv kEventQueueCapacity (rt_event_queue rt)"

lemma runtime_init_ok: "runtime_queue_ok runtime_init" and queued_init: "queued runtime_init = []"
  by (simp_all add: runtime_queue_ok_def queued_def runtime_init_def ring_inv_empty kEventQueueCapacity_def)

lemma push_event_cases:
  assumes "runtime_queue_ok rt"
  obtains (queued) q where "push_event e rt = (True, rt\<lparr>rt_event_queue := q\<rparr>)"
      "ring_inv kEventQueueCapacity q" "ring_list kEventQueueCapacity q = queued rt @ [e]"
      "length (queued rt) < kEventQueueCapacity"
    | (dropped) "push_event e rt = (False, rt\<lparr>rt_dropped_ingress := rt_dropped_ingress rt + 1\<rparr>)"
      "length (queued rt) = kEventQueueCapacity"
proof (cases "ring_push kEventQueueCapacity e (rt_event_queue rt)")
  case None
  then show thesis
    using that(2) assms ring32.push_full[of "rt_event_queue rt" e]
    by (simp add: push_event_def queued_def runtime_queue_ok_def kEventQueueCapacity_def)
next
  case (Some q)
  have "length (queued rt) < kEventQueueCapacity"
    using Some by (simp add: queued_def ring_push_def split: if_splits)
  then show thesis
    using that(1) Some assms ring_push_refines[of kEventQueueCapacity "rt_event_queue rt" e q]
    by (simp add: push_event_def queued_def runtime_queue_ok_def)
qed

lemma push_event_ok: "runtime_queue_ok rt \<Longrightarrow> runtime_queue_ok (snd (push_event e rt))"
  by (rule push_event_cases[of rt e]) (simp_all add: runtime_queue_ok_def)

lemma queued_push:
  "runtime_queue_ok rt \<Longrightarrow>
     queued (snd (push_event e rt)) = queued rt @ (if fst (push_event e rt) then [e] else [])"
  by (erule push_event_cases[of rt e]) (simp_all add: queued_def)

lemma push_event_frame [simp]:
  "rt_stats (snd (push_event e rt)) = rt_stats rt" "rt_config (snd (push_event e rt)) = rt_config rt"
  "rt_last_tick_ms (snd (push_event e rt)) = rt_last_tick_ms rt"
  "rt_reporting (snd (push_event e rt)) = rt_reporting rt" "rt_devices (snd (push_event e rt)) = rt_devices rt"
  "rt_descriptors (snd (push_event e rt)) = rt_descriptors rt"
  "rt_tuya_init (snd (push_event e rt)) = rt_tuya_init rt"
  by (simp_all add: push_event_def split: option.split)

lemma pop_event_cases:
  assumes "runtime_queue_ok rt"
  obtains (empty) "pop_event rt = None" "queued rt = []"
    | (event) e q where "pop_event rt = Some (e, rt\<lparr>rt_event_queue := q\<rparr>)" "ring_inv kEventQueueCapacity q"
      "queued rt = e # ring_list kEventQueueCapacity q"
proof (cases "ring_pop kEventQueueCapacity (rt_event_queue rt)")
  case None
  then show thesis
    using that(1) by (simp add: pop_event_def queued_def ring_pop_def ring_list_def split: if_splits)
next
  case (Some p)
  then show thesis
    using that(2)[of "fst p" "snd p"] assms ring_pop_refines[of kEventQueueCapacity "rt_event_queue rt" "fst p" "snd p"]
    by (simp add: pop_event_def queued_def runtime_queue_ok_def case_prod_unfold)
qed

lemma note_dropped_event_frame [simp]:
  "rt_event_queue (note_dropped_event rt) = rt_event_queue rt" "rt_config (note_dropped_event rt) = rt_config rt"
  "rt_tuya_init (note_dropped_event rt) = rt_tuya_init rt" "queued (note_dropped_event rt) = queued rt"
  "runtime_queue_ok (note_dropped_event rt) = runtime_queue_ok rt"
  by (simp_all add: note_dropped_event_def queued_def runtime_queue_ok_def)

end
