(* ===== verification/CommandManager.thy ===== *)
theory CommandManager
  imports RuntimeState CommandDispatcher
begin

text \<open>
  \<^verbatim>\<open>components/service/command_manager.cpp\<close>: the commands of the application. Requests and results wait
  in two rings of sixteen until the runtime drains them; a submitted command is in flight in the
  dispatcher and tracked here with the retries it has left; a sweep times out the aged commands, and
  submits those with retries left once more.
\<close>

record TrackedCommand =
  tk_in_use :: bool
  tk_command :: CoreCommand
  tk_retries_left :: u8

definition tracked_default :: TrackedCommand where
  "tracked_default = \<lparr>tk_in_use = False, tk_command = core_command_default, tk_retries_left = 0\<rparr>"

definition kCommandIngressQueueCapacity :: nat where "kCommandIngressQueueCapacity = kMaxPending"
definition kCommandResultQueueCapacity :: nat where "kCommandResultQueueCapacity = kMaxPending"

record CommandManager =
  cq_request_queue :: "CoreCommand ring"
  cq_result_queue :: "CoreCommandResult ring"
  cq_tracked :: "TrackedCommand list"
  cq_dispatcher :: Dispatcher
  cq_pending_cache :: u32

definition command_result_default :: CoreCommandResult where
  "command_result_default =
     \<lparr>cr_correlation_id = kNoCorrelationId, cr_type = kResultFailed, cr_completed_at_ms = 0\<rparr>"

definition command_manager_init :: CommandManager where
  "command_manager_init =
     \<lparr>cq_request_queue = ring_empty kCommandIngressQueueCapacity core_command_default,
      cq_result_queue = ring_empty kCommandResultQueueCapacity command_result_default,
      cq_tracked = replicate kMaxPending tracked_default, cq_dispatcher = dispatcher_init,
      cq_pending_cache = 0\<rparr>"

section \<open>The ingress queues\<close>

definition queue_command_request :: "CoreCommand \<Rightarrow> CommandManager \<Rightarrow> bool \<times> CommandManager" where
  "queue_command_request c m =
     (case ring_push kCommandIngressQueueCapacity c (cq_request_queue m) of
        None \<Rightarrow> (False, m) | Some q \<Rightarrow> (True, m\<lparr>cq_request_queue := q\<rparr>))"

definition pop_command_request :: "CommandManager \<Rightarrow> (CoreCommand \<times> CommandManager) option" where
  "pop_command_request m =
     map_option (\<lambda>(c, q). (c, m\<lparr>cq_request_queue := q\<rparr>))
       (ring_pop kCommandIngressQueueCapacity (cq_request_queue m))"

definition queue_command_result :: "CoreCommandResult \<Rightarrow> CommandManager \<Rightarrow> bool \<times> CommandManager" where
  "queue_command_result r m =
     (case ring_push kCommandResultQueueCapacity r (cq_result_queue m) of
        None \<Rightarrow> (False, m) | Some q \<Rightarrow> (True, m\<lparr>cq_result_queue := q\<rparr>))"

definition pop_command_result :: "CommandManager \<Rightarrow> (CoreCommandResult \<times> CommandManager) option" where
  "pop_command_result m =
     map_option (\<lambda>(r, q). (r, m\<lparr>cq_result_queue := q\<rparr>))
       (ring_pop kCommandResultQueueCapacity (cq_result_queue m))"

definition drop_ingress :: "ServiceRuntime \<Rightarrow> ServiceRuntime" where
  "drop_ingress rt = rt\<lparr>rt_dropped_ingress := rt_dropped_ingress rt + 1\<rparr>"

definition post_command ::
  "CoreCommand \<Rightarrow> ServiceRuntime \<Rightarrow> CommandManager \<Rightarrow> CoreError \<times> ServiceRuntime \<times> CommandManager" where
  "post_command command rt m =
     (if cc_correlation_id command = kNoCorrelationId \<or> cc_type command = kCommandUnknown
      then (kInvalidArgument, rt, m)
      else (case queue_command_request command m of
              (False, m1) \<Rightarrow> (kNoCapacity, drop_ingress rt, m1)
            | (True, m1) \<Rightarrow> (kOk, rt, m1)))"

definition handle_command_result ::
  "CoreCommandResult \<Rightarrow> ServiceRuntime \<Rightarrow> CommandManager \<Rightarrow> CoreError \<times> ServiceRuntime \<times> CommandManager" where
  "handle_command_result result rt m =
     (if cr_correlation_id result = kNoCorrelationId then (kInvalidArgument, rt, m)
      else (case queue_command_result result m of
              (False, m1) \<Rightarrow> (kNoCapacity, drop_ingress rt, m1)
            | (True, m1) \<Rightarrow> (kOk, rt, m1)))"

section \<open>Tracked commands\<close>

definition tk_id :: "TrackedCommand \<Rightarrow> u32" where "tk_id t = cc_correlation_id (tk_command t)"

definition find_tracked_command :: "u32 \<Rightarrow> CommandManager \<Rightarrow> nat option" where
  "find_tracked_command c m =
     (if c = kNoCorrelationId then None
      else find_index (\<lambda>t. tk_in_use t \<and> tk_id t = c) (cq_tracked m))"

definition allocate_tracked_command :: "CommandManager \<Rightarrow> (nat \<times> CommandManager) option" where
  "allocate_tracked_command m =
     map_option (\<lambda>i. (i, m\<lparr>cq_tracked := (cq_tracked m)[i := tracked_default\<lparr>tk_in_use := True\<rparr>]\<rparr>))
       (find_index (\<lambda>t. \<not> tk_in_use t) (cq_tracked m))"

definition release_tracked_command :: "u32 \<Rightarrow> CommandManager \<Rightarrow> CommandManager" where
  "release_tracked_command c m =
     (case find_tracked_command c m of
        None \<Rightarrow> m | Some i \<Rightarrow> m\<lparr>cq_tracked := (cq_tracked m)[i := tracked_default]\<rparr>)"

definition refresh_pending_commands_cache :: "CommandManager \<Rightarrow> CommandManager" where
  "refresh_pending_commands_cache m = m\<lparr>cq_pending_cache := word_of_nat (pending_count (cq_dispatcher m))\<rparr>"

section \<open>Submission and resolution\<close>

definition submit_command_internal ::
  "CoreCommand \<Rightarrow> ServiceRuntime \<Rightarrow> CommandManager \<Rightarrow> CoreError \<times> ServiceRuntime \<times> CommandManager" where
  "submit_command_internal command rt m =
     (case submit command (Some core_event_default) (cq_dispatcher m) of
        (submit_err, request_event, d) \<Rightarrow>
          if submit_err \<noteq> kOk then (submit_err, rt, m\<lparr>cq_dispatcher := d\<rparr>)
          else
            let m1 = refresh_pending_commands_cache (m\<lparr>cq_dispatcher := d\<rparr>)
            in (case (case find_tracked_command (cc_correlation_id command) m1 of
                       Some i \<Rightarrow> Some (i, m1) | None \<Rightarrow> allocate_tracked_command m1) of
                 None \<Rightarrow> (kNoCapacity, rt, m1)
               | Some (i, m2) \<Rightarrow>
                   let m3 = m2\<lparr>cq_tracked := (cq_tracked m2)[i := (cq_tracked m2 ! i)
                              \<lparr>tk_command := command, tk_retries_left := cm_max_command_retries (rt_config rt)\<rparr>]\<rparr>
                   in (case push_event (the request_event) rt of
                         (False, rt1) \<Rightarrow> (kNoCapacity, rt1, m3)
                       | (True, rt1) \<Rightarrow> (kOk, rt1, m3))))"

definition resolve_command_result ::
  "CoreCommandResult \<Rightarrow> ServiceRuntime \<Rightarrow> CommandManager \<Rightarrow> CoreError \<times> ServiceRuntime \<times> CommandManager" where
  "resolve_command_result result rt m =
     (case resolve result (Some core_event_default) (cq_dispatcher m) of
        (resolve_err, completion, d) \<Rightarrow>
          if resolve_err \<noteq> kOk then (resolve_err, rt, m\<lparr>cq_dispatcher := d\<rparr>)
          else
            let m1 = release_tracked_command (cr_correlation_id result)
                       (refresh_pending_commands_cache (m\<lparr>cq_dispatcher := d\<rparr>))
            in (case push_event (the completion) rt of
                  (False, rt1) \<Rightarrow> (kNoCapacity, rt1, m1)
                | (True, rt1) \<Rightarrow> (kOk, rt1, m1)))"

lemma submit_internal_request_queue [simp]:
  "cq_request_queue (snd (snd (submit_command_internal c rt m))) = cq_request_queue m"
  by (simp add: submit_command_internal_def allocate_tracked_command_def refresh_pending_commands_cache_def Let_def
      split: prod.split option.split bool.split)

lemma resolve_internal_result_queue [simp]:
  "cq_result_queue (snd (snd (resolve_command_result r rt m))) = cq_result_queue m"
  by (simp add: resolve_command_result_def release_tracked_command_def refresh_pending_commands_cache_def Let_def
      split: prod.split option.split bool.split)

section \<open>Draining the queues\<close>

text \<open>The loops end because nothing in their body puts a notification back.\<close>

function drain_command_requests ::
  "ServiceRuntime \<Rightarrow> CommandManager \<Rightarrow> bool \<times> ServiceRuntime \<times> CommandManager" where
  "drain_command_requests rt m =
     (case pop_command_request m of
        None \<Rightarrow> (False, rt, m)
      | Some (c, m1) \<Rightarrow>
          (case submit_command_internal c rt m1 of
             (err, rt1, m2) \<Rightarrow>
               (True, snd (drain_command_requests (if err \<noteq> kOk then note_dropped_event rt1 else rt1) m2))))"
  by pat_completeness auto
termination
  by (relation "measure (\<lambda>(rt, m). rg_count (cq_request_queue m))")
    (auto simp: pop_command_request_def ring_pop_def split: if_splits
      dest: arg_cong[where f = "\<lambda>x. cq_request_queue (snd (snd x))"])

function drain_command_results ::
  "ServiceRuntime \<Rightarrow> CommandManager \<Rightarrow> bool \<times> ServiceRuntime \<times> CommandManager" where
  "drain_command_results rt m =
     (case pop_command_result m of
        None \<Rightarrow> (False, rt, m)
      | Some (r, m1) \<Rightarrow>
          (case try_route_tuya_init_result r (rt_tuya_init rt) of
             (True, ti) \<Rightarrow> (True, snd (drain_command_results (rt\<lparr>rt_tuya_init := ti\<rparr>) m1))
           | (False, ti) \<Rightarrow>
               (case resolve_command_result r (rt\<lparr>rt_tuya_init := ti\<rparr>) m1 of
                  (err, rt1, m2) \<Rightarrow>
                    (True, snd (drain_command_results (if err \<noteq> kOk then note_dropped_event rt1 else rt1) m2)))))"
  by pat_completeness auto
termination
  by (relation "measure (\<lambda>(rt, m). rg_count (cq_result_queue m))")
    (auto simp: pop_command_result_def ring_pop_def split: if_splits
      dest: arg_cong[where f = "\<lambda>x. cq_result_queue (snd (snd x))"])

declare drain_command_requests.simps [simp del] drain_command_results.simps [simp del]

section \<open>Timeouts\<close>

text \<open>The body of the loop of \<^verbatim>\<open>process_timeouts\<close> for one timeout event.\<close>

definition count_stat_retry :: "ServiceRuntime \<Rightarrow> ServiceRuntime" where
  "count_stat_retry rt =
     rt\<lparr>rt_stats := (rt_stats rt)\<lparr>rx_command_retries := rx_command_retries (rt_stats rt) + 1\<rparr>\<rparr>"

definition count_stat_timeout :: "ServiceRuntime \<Rightarrow> ServiceRuntime" where
  "count_stat_timeout rt =
     rt\<lparr>rt_stats := (rt_stats rt)\<lparr>rx_command_timeouts := rx_command_timeouts (rt_stats rt) + 1\<rparr>\<rparr>"

definition retried :: "u32 \<Rightarrow> TrackedCommand \<Rightarrow> TrackedCommand" where
  "retried now_ms t = t\<lparr>tk_retries_left := tk_retries_left t - 1,
     tk_command := (tk_command t)\<lparr>cc_issued_at_ms := now_ms\<rparr>\<rparr>"

text \<open>The retry, if the command has one left: whether its request event was queued.\<close>

definition retry_command ::
  "u32 \<Rightarrow> u32 \<Rightarrow> ServiceRuntime \<Rightarrow> CommandManager \<Rightarrow> bool \<times> ServiceRuntime \<times> CommandManager" where
  "retry_command now_ms c rt m =
     (case find_tracked_command c m of
        None \<Rightarrow> (False, rt, m)
      | Some i \<Rightarrow>
          if tk_retries_left (cq_tracked m ! i) > 0
          then
            let t = retried now_ms (cq_tracked m ! i);
                rt1 = count_stat_retry rt;
                (retry_submit, retry_request, d) = submit (tk_command t) (Some core_event_default) (cq_dispatcher m);
                m1 = m\<lparr>cq_tracked := (cq_tracked m)[i := t], cq_dispatcher := d\<rparr>
            in if retry_submit = kOk
               then (case push_event (the retry_request) rt1 of (ok, rt2) \<Rightarrow> (ok, rt2, m1))
               else (False, rt1, m1)
          else (False, rt, m))"

definition give_up ::
  "CoreEvent \<Rightarrow> ServiceRuntime \<Rightarrow> CommandManager \<Rightarrow> bool \<times> ServiceRuntime \<times> CommandManager" where
  "give_up e rt m =
     (case push_event e (count_stat_timeout rt) of
        (ok, rt1) \<Rightarrow> (ok, rt1, release_tracked_command (ev_correlation_id e) m))"

definition timeout_command ::
  "u32 \<Rightarrow> CoreEvent \<Rightarrow> ServiceRuntime \<Rightarrow> CommandManager \<Rightarrow> bool \<times> ServiceRuntime \<times> CommandManager" where
  "timeout_command now_ms e rt m =
     (case retry_command now_ms (ev_correlation_id e) rt m of
        (True, rt1, m1) \<Rightarrow> (True, rt1, m1)
      | (False, rt1, m1) \<Rightarrow> give_up e rt1 m1)"

fun timeouts_loop ::
  "u32 \<Rightarrow> CoreEvent list \<Rightarrow> ServiceRuntime \<Rightarrow> CommandManager \<Rightarrow> nat \<times> ServiceRuntime \<times> CommandManager" where
  "timeouts_loop now_ms [] rt m = (0, rt, m)"
| "timeouts_loop now_ms (e # es) rt m =
     (case timeout_command now_ms e rt m of
        (ok, rt1, m1) \<Rightarrow>
          (case timeouts_loop now_ms es rt1 m1 of
             (n, rt2, m2) \<Rightarrow> (if ok then n + 1 else n, rt2, m2)))"

definition process_timeouts ::
  "u32 \<Rightarrow> ServiceRuntime \<Rightarrow> CommandManager \<Rightarrow> nat \<times> ServiceRuntime \<times> CommandManager" where
  "process_timeouts now_ms rt m =
     (case expire_timeouts now_ms (cm_command_timeout_ms (rt_config rt)) (Some kMaxPending) (cq_dispatcher m) of
        (events, d) \<Rightarrow>
          (case timeouts_loop now_ms events rt (m\<lparr>cq_dispatcher := d\<rparr>) of
             (n, rt1, m1) \<Rightarrow> (n, rt1, refresh_pending_commands_cache m1)))"

definition pending_ingress_count :: "CommandManager \<Rightarrow> nat" where
  "pending_ingress_count m = rg_count (cq_request_queue m) + rg_count (cq_result_queue m)"

definition pending_commands :: "CommandManager \<Rightarrow> nat" where
  "pending_commands m = unat (cq_pending_cache m) + rg_count (cq_request_queue m)"
section \<open>The tracked commands and the commands in flight\<close>

interpretation tracked: slot_table tk_in_use tk_id tracked_default
  by unfold_locales (simp add: tracked_default_def)

definition tracked_map :: "CommandManager \<Rightarrow> u32 \<Rightarrow> TrackedCommand option" where
  "tracked_map m = slot_map tk_in_use tk_id (cq_tracked m)"

definition flight_map :: "CommandManager \<Rightarrow> u32 \<Rightarrow> CoreCommand option" where
  "flight_map m = in_flight (cq_dispatcher m)"

text \<open>The part of the invariant that holds throughout, and the invariant between operations.\<close>

definition tables_ok :: "CommandManager \<Rightarrow> bool" where
  "tables_ok m \<longleftrightarrow> dispatcher_inv (cq_dispatcher m) \<and> length (cq_tracked m) = kMaxPending \<and>
     unique_slots tk_in_use tk_id (cq_tracked m)"

definition command_inv :: "CommandManager \<Rightarrow> bool" where
  "command_inv m \<longleftrightarrow> tables_ok m \<and> (\<forall>c t. tracked_map m c = Some t \<longrightarrow> flight_map m c = Some (tk_command t))"

lemma in_flight_id:
  assumes "dispatcher_inv d" "in_flight d c = Some k"
  shows "cc_correlation_id k = c" "c \<noteq> kNoCorrelationId" "is_supported_command (cc_type k)"
proof -
  obtain i where i: "find_slot pe_in_use pe_id c (dp_pending d) = Some i" "pe_command (dp_pending d ! i) = k"
    using assms(2) by (auto simp: in_flight_def slot_map_def)
  note s = pending.find_slotD[OF i(1)]
  have "entry_ok (dp_pending d ! i)" using assms(1) s(1) by (simp add: dispatcher_inv_def list_all_length)
  then show "cc_correlation_id k = c" "c \<noteq> kNoCorrelationId" "is_supported_command (cc_type k)"
    using s i(2) by (auto simp: entry_ok_def pe_id_def)
qed

lemma find_tracked_eq:
  "c \<noteq> kNoCorrelationId \<Longrightarrow> find_tracked_command c m = find_slot tk_in_use tk_id c (cq_tracked m)"
  by (simp add: find_tracked_command_def find_slot_def)

lemma tracked_map_id: "tracked_map m c = Some t \<Longrightarrow> tk_in_use t \<and> tk_id t = c"
  by (auto simp: tracked_map_def slot_map_def dest: tracked.find_slotD)

lemma command_inv_init: "command_inv command_manager_init"
  by (simp add: command_inv_def tables_ok_def command_manager_init_def dispatcher_inv_init tracked.empty_unique
      tracked_map_def tracked.empty_map)

lemma refresh_frame [simp]:
  "cq_tracked (refresh_pending_commands_cache m) = cq_tracked m"
  "cq_dispatcher (refresh_pending_commands_cache m) = cq_dispatcher m"
  "tracked_map (refresh_pending_commands_cache m) = tracked_map m"
  "flight_map (refresh_pending_commands_cache m) = flight_map m"
  "tables_ok (refresh_pending_commands_cache m) = tables_ok m"
  "command_inv (refresh_pending_commands_cache m) = command_inv m"
  by (simp_all add: refresh_pending_commands_cache_def tracked_map_def flight_map_def tables_ok_def command_inv_def)

lemma release_spec:
  assumes "tables_ok m" "c \<noteq> kNoCorrelationId"
  shows "tables_ok (release_tracked_command c m)"
    and "tracked_map (release_tracked_command c m) = (tracked_map m)(c := None)"
    and "cq_dispatcher (release_tracked_command c m) = cq_dispatcher m"
proof -
  have u: "unique_slots tk_in_use tk_id (cq_tracked m)" using assms(1) by (simp add: tables_ok_def)
  show "tables_ok (release_tracked_command c m)"
    using assms(1) tracked.clear_unique[OF u]
    by (simp add: release_tracked_command_def tables_ok_def split: option.split)
  show "tracked_map (release_tracked_command c m) = (tracked_map m)(c := None)"
  proof (cases "find_slot tk_in_use tk_id c (cq_tracked m)")
    case None
    then show ?thesis
      using assms(2) by (simp add: release_tracked_command_def find_tracked_eq tracked_map_def slot_map_def fun_eq_iff)
  next
    case (Some i)
    then show ?thesis
      using assms(2) tracked.clear_map[OF u Some]
      by (simp add: release_tracked_command_def find_tracked_eq tracked_map_def)
  qed
  show "cq_dispatcher (release_tracked_command c m) = cq_dispatcher m"
    by (simp add: release_tracked_command_def split: option.split)
qed

lemma tracked_room:
  assumes "command_inv m" "card (dom (flight_map m)) < kMaxPending"
  obtains i where "find_index (\<lambda>t. \<not> tk_in_use t) (cq_tracked m) = Some i"
proof -
  have t: "tables_ok m" using assms(1) by (simp add: command_inv_def)
  have sub: "dom (tracked_map m) \<subseteq> dom (flight_map m)" using assms(1) by (auto simp: command_inv_def)
  have "finite (dom (flight_map m))"
    unfolding flight_map_def in_flight_dom by (rule finite_dom_slot_map)
  then have "card (dom (tracked_map m)) < kMaxPending" using card_mono[OF _ sub] assms(2) by simp
  then have "count_where tk_in_use (cq_tracked m) < length (cq_tracked m)"
    using t tracked.card_dom_slot_map[of "cq_tracked m"] by (simp add: tables_ok_def tracked_map_def)
  then show thesis using that find_index_free_iff[of tk_in_use "cq_tracked m"] by auto
qed

lemma submit_internal_spec:
  assumes inv: "command_inv m" and q: "runtime_queue_ok rt"
  shows "command_inv (snd (snd (submit_command_internal c rt m)))"
    and "runtime_queue_ok (fst (snd (submit_command_internal c rt m)))"
    and "submit_verdict c (flight_map m) \<noteq> kOk \<Longrightarrow>
      submit_command_internal c rt m = (submit_verdict c (flight_map m), rt, m)"
    and "submit_verdict c (flight_map m) = kOk \<Longrightarrow>
      fst (submit_command_internal c rt m) =
        (if fst (push_event (command_to_event c) rt) then kOk else kNoCapacity) \<and>
      fst (snd (submit_command_internal c rt m)) = snd (push_event (command_to_event c) rt) \<and>
      tracked_map (snd (snd (submit_command_internal c rt m))) = (tracked_map m)(cc_correlation_id c \<mapsto>
        \<lparr>tk_in_use = True, tk_command = c, tk_retries_left = cm_max_command_retries (rt_config rt)\<rparr>) \<and>
      flight_map (snd (snd (submit_command_internal c rt m))) = (flight_map m)(cc_correlation_id c \<mapsto> c)"
proof -
  let ?r = "submit_command_internal c rt m" and ?k = "cc_correlation_id c"
  let ?t = "\<lparr>tk_in_use = True, tk_command = c, tk_retries_left = cm_max_command_retries (rt_config rt)\<rparr>"
  have ok: "tables_ok m" and d: "dispatcher_inv (cq_dispatcher m)" using inv by (simp_all add: command_inv_def tables_ok_def)
  note spec = submit_spec[OF d, of c core_event_default]
  have bad: "?r = (submit_verdict c (flight_map m), rt, m)" if "submit_verdict c (flight_map m) \<noteq> kOk"
    using that spec(1) by (simp add: submit_command_internal_def flight_map_def)
  have good: "fst ?r = (if fst (push_event (command_to_event c) rt) then kOk else kNoCapacity) \<and>
      fst (snd ?r) = snd (push_event (command_to_event c) rt) \<and>
      tracked_map (snd (snd ?r)) = (tracked_map m)(?k \<mapsto> ?t) \<and>
      flight_map (snd (snd ?r)) = (flight_map m)(?k \<mapsto> c) \<and> command_inv (snd (snd ?r))"
    if v: "submit_verdict c (flight_map m) = kOk"
  proof -
    have k: "?k \<noteq> kNoCorrelationId" "card (dom (flight_map m)) < kMaxPending" "flight_map m ?k = None"
      using v by (auto simp: submit_verdict_def split: if_splits)
    have u: "unique_slots tk_in_use tk_id (cq_tracked m)" using ok by (simp add: tables_ok_def)
    have none: "find_slot tk_in_use tk_id ?k (cq_tracked m) = None"
      using inv k(3) by (cases "tracked_map m ?k") (auto simp: command_inv_def tracked_map_def slot_map_def)
    obtain i where i: "find_index (\<lambda>t. \<not> tk_in_use t) (cq_tracked m) = Some i"
      using tracked_room[OF inv k(2)] .
    note il = find_index_SomeD(1,2)[OF i]
    obtain d where s: "submit c (Some core_event_default) (cq_dispatcher m) = (kOk, Some (command_to_event c), d)"
      using spec(1) v by (auto simp: flight_map_def)
    define m1 where "m1 = refresh_pending_commands_cache (m\<lparr>cq_dispatcher := d\<rparr>)"
    define m2 where "m2 = m1\<lparr>cq_tracked := (cq_tracked m)[i := ?t]\<rparr>"
    have tr: "cq_tracked m1 = cq_tracked m" by (simp add: m1_def)
    have "find_tracked_command ?k m1 = None" using none k(1) by (simp add: find_tracked_eq tr)
    moreover have "allocate_tracked_command m1 =
        Some (i, m1\<lparr>cq_tracked := (cq_tracked m)[i := tracked_default\<lparr>tk_in_use := True\<rparr>]\<rparr>)"
      using i by (simp add: allocate_tracked_command_def tr)
    ultimately have r: "?r = (if fst (push_event (command_to_event c) rt) then kOk else kNoCapacity,
        snd (push_event (command_to_event c) rt), m2)"
      using il by (simp add: submit_command_internal_def s m1_def[symmetric] m2_def Let_def tracked_default_def
          case_prod_unfold split: bool.split)
    have w: "tracked.writable i ?t (cq_tracked m)"
      using il none by (simp add: tracked.writable_def tk_id_def)
    have tm: "tracked_map m2 = (tracked_map m)(?k \<mapsto> ?t)"
      using tracked.write_map[OF u w] by (simp add: m2_def tracked_map_def tk_id_def)
    have fm: "flight_map m2 = (flight_map m)(?k \<mapsto> c)"
      using spec(3) s v by (simp add: m2_def m1_def flight_map_def refresh_pending_commands_cache_def)
    have "tables_ok m2"
      using ok spec(2) s tracked.write_unique[OF u w] by (simp add: tables_ok_def m2_def m1_def refresh_pending_commands_cache_def)
    then have "command_inv m2" using inv by (simp add: command_inv_def tm fm)
    then show ?thesis by (simp add: r tm fm)
  qed
  show "command_inv (snd (snd ?r))" using bad good inv by (cases "submit_verdict c (flight_map m) = kOk") auto
  show "runtime_queue_ok (fst (snd ?r))"
    using bad good q push_event_ok[OF q] by (cases "submit_verdict c (flight_map m) = kOk") auto
  show "submit_verdict c (flight_map m) \<noteq> kOk \<Longrightarrow> ?r = (submit_verdict c (flight_map m), rt, m)" by (rule bad)
  show "submit_verdict c (flight_map m) = kOk \<Longrightarrow>
      fst ?r = (if fst (push_event (command_to_event c) rt) then kOk else kNoCapacity) \<and>
      fst (snd ?r) = snd (push_event (command_to_event c) rt) \<and>
      tracked_map (snd (snd ?r)) = (tracked_map m)(?k \<mapsto> ?t) \<and>
      flight_map (snd (snd ?r)) = (flight_map m)(?k \<mapsto> c)"
    using good by blast
qed
lemma resolve_internal_spec:
  assumes inv: "command_inv m" and q: "runtime_queue_ok rt"
  shows "command_inv (snd (snd (resolve_command_result r rt m)))"
    and "runtime_queue_ok (fst (snd (resolve_command_result r rt m)))"
proof -
  let ?k = "cr_correlation_id r" and ?r = "resolve_command_result r rt m"
  have d: "dispatcher_inv (cq_dispatcher m)" using inv by (simp add: command_inv_def tables_ok_def)
  have "command_inv (snd (snd ?r)) \<and> runtime_queue_ok (fst (snd ?r))"
  proof (cases "?k = kNoCorrelationId \<or> flight_map m ?k = None")
    case True
    then have "?r = (fst (resolve r (Some core_event_default) (cq_dispatcher m)), rt, m) \<and>
        fst (resolve r (Some core_event_default) (cq_dispatcher m)) \<noteq> kOk"
      using resolve_spec(1)[OF d] by (auto simp: resolve_command_result_def flight_map_def resolve_def)
    then show ?thesis using inv q by simp
  next
    case False
    then obtain c d' where s: "resolve r (Some core_event_default) (cq_dispatcher m) =
        (kOk, Some (completion_event r c core_event_default), d')" "dispatcher_inv d'"
        "in_flight d' = (flight_map m)(?k := None)"
      using resolve_spec(2)[OF d] by (force simp: flight_map_def)
    define m1 where "m1 = refresh_pending_commands_cache (m\<lparr>cq_dispatcher := d'\<rparr>)"
    have t: "tables_ok m1" using inv s(2) by (simp add: m1_def tables_ok_def command_inv_def)
    note rel = release_spec[OF t, of ?k]
    have tm: "tracked_map m1 = tracked_map m" "cq_dispatcher m1 = d'" by (simp_all add: m1_def tracked_map_def)
    have "command_inv (release_tracked_command ?k m1)"
      using rel False inv s(3) by (auto simp: command_inv_def flight_map_def tm)
    moreover have "snd (snd ?r) = release_tracked_command ?k m1"
      "fst (snd ?r) = snd (push_event (completion_event r c core_event_default) rt)"
      by (simp_all add: resolve_command_result_def s(1) m1_def Let_def case_prod_unfold split: bool.split)
    ultimately show ?thesis using push_event_ok[OF q] by simp
  qed
  then show "command_inv (snd (snd ?r))" "runtime_queue_ok (fst (snd ?r))" by simp_all
qed

section \<open>A sweep, command by command\<close>

text \<open>What becomes of a tracked command whose timeout event is handled, and the event that is queued for it.\<close>

fun after_timeout :: "u32 \<Rightarrow> TrackedCommand option \<Rightarrow> TrackedCommand option" where
  "after_timeout now None = None"
| "after_timeout now (Some t) = (if tk_retries_left t > 0 then Some (retried now t) else None)"

definition outcome_event :: "u32 \<Rightarrow> TrackedCommand option \<Rightarrow> CoreEvent \<Rightarrow> CoreEvent" where
  "outcome_event now t e =
     (case after_timeout now t of Some t' \<Rightarrow> command_to_event (tk_command t') | None \<Rightarrow> e)"

text \<open>The invariant of the loop: the commands of the events to come have left the dispatcher.\<close>

definition sweep_inv :: "CoreEvent list \<Rightarrow> CommandManager \<Rightarrow> bool" where
  "sweep_inv es m \<longleftrightarrow> tables_ok m \<and> distinct (map ev_correlation_id es) \<and>
     dp_count (cq_dispatcher m) + length es \<le> kMaxPending \<and>
     (\<forall>e \<in> set es. ev_correlation_id e \<noteq> kNoCorrelationId \<and> flight_map m (ev_correlation_id e) = None) \<and>
     (\<forall>c t. tracked_map m c = Some t \<longrightarrow> is_supported_command (cc_type (tk_command t)) \<and>
        (flight_map m c = Some (tk_command t) \<or> c \<in> ev_correlation_id ` set es))"

lemma sweep_inv_Nil: "sweep_inv [] m \<Longrightarrow> command_inv m"
  by (auto simp: sweep_inv_def command_inv_def)

lemma retry_command_spec:
  assumes inv: "sweep_inv (e # es) m" and t: "tracked_map m (ev_correlation_id e) = Some t" "tk_retries_left t > 0"
  obtains m1 where
    "retry_command now (ev_correlation_id e) rt m =
       (fst (push_event (command_to_event (tk_command (retried now t))) (count_stat_retry rt)),
        snd (push_event (command_to_event (tk_command (retried now t))) (count_stat_retry rt)), m1)"
    "tables_ok m1" "tracked_map m1 = (tracked_map m)(ev_correlation_id e \<mapsto> retried now t)"
    "flight_map m1 = (flight_map m)(ev_correlation_id e \<mapsto> tk_command (retried now t))"
proof -
  let ?c = "ev_correlation_id e"
  have ok: "tables_ok m" and c: "?c \<noteq> kNoCorrelationId" "flight_map m ?c = None"
    and s: "is_supported_command (cc_type (tk_command t))" and n: "dp_count (cq_dispatcher m) < kMaxPending"
    using inv t by (auto simp: sweep_inv_def)
  have u: "unique_slots tk_in_use tk_id (cq_tracked m)" and d: "dispatcher_inv (cq_dispatcher m)"
    using ok by (simp_all add: tables_ok_def)
  obtain i where i: "find_slot tk_in_use tk_id ?c (cq_tracked m) = Some i" "cq_tracked m ! i = t"
    using t(1) by (auto simp: tracked_map_def slot_map_def)
  note il = tracked.find_slotD[OF i(1)]
  let ?t = "retried now t"
  have id: "tk_id ?t = ?c" "tk_in_use ?t" "cc_correlation_id (tk_command ?t) = ?c" "cc_type (tk_command ?t) = cc_type (tk_command t)"
    using il i(2) by (auto simp: retried_def tk_id_def)
  have "submit_verdict (tk_command ?t) (in_flight (cq_dispatcher m)) = kOk"
    using c s n id in_flight_card[OF d] by (simp add: submit_verdict_def flight_map_def pending_count_def)
  then obtain d' where sub: "submit (tk_command ?t) (Some core_event_default) (cq_dispatcher m) =
      (kOk, Some (command_to_event (tk_command ?t)), d')" "dispatcher_inv d'"
      "in_flight d' = (flight_map m)(?c \<mapsto> tk_command ?t)"
    using submit_spec[OF d, of "tk_command ?t" core_event_default] id(3)
    by (auto simp: flight_map_def)
  let ?m1 = "m\<lparr>cq_tracked := (cq_tracked m)[i := ?t], cq_dispatcher := d'\<rparr>"
  have w: "tracked.writable i ?t (cq_tracked m)"
    using il i id by (simp add: tracked.writable_def)
  show thesis
  proof (rule that[of ?m1])
    show "retry_command now ?c rt m = (fst (push_event (command_to_event (tk_command ?t)) (count_stat_retry rt)),
        snd (push_event (command_to_event (tk_command ?t)) (count_stat_retry rt)), ?m1)"
      using i t(2) c(1) by (simp add: retry_command_def find_tracked_eq Let_def sub(1) case_prod_unfold)
    show "tables_ok ?m1" using ok sub(2) tracked.write_unique[OF u w] by (simp add: tables_ok_def)
    show "tracked_map ?m1 = (tracked_map m)(?c \<mapsto> ?t)"
      using tracked.write_map[OF u w] by (simp add: tracked_map_def id(1))
    show "flight_map ?m1 = (flight_map m)(?c \<mapsto> tk_command ?t)" by (simp add: flight_map_def sub(3))
  qed
qed

lemma retry_command_none:
  assumes "tables_ok m" "c \<noteq> kNoCorrelationId" "after_timeout now (tracked_map m c) = None"
  shows "retry_command now c rt m = (False, rt, m)"
  using assms
  by (cases "find_slot tk_in_use tk_id c (cq_tracked m)")
    (auto simp: retry_command_def find_tracked_eq tracked_map_def slot_map_def split: if_splits)

lemma stat_frame [simp]:
  "runtime_queue_ok (count_stat_retry rt) = runtime_queue_ok rt" "queued (count_stat_retry rt) = queued rt"
  "runtime_queue_ok (count_stat_timeout rt) = runtime_queue_ok rt" "queued (count_stat_timeout rt) = queued rt"
  "rt_config (count_stat_retry rt) = rt_config rt" "rt_config (count_stat_timeout rt) = rt_config rt"
  by (simp_all add: count_stat_retry_def count_stat_timeout_def runtime_queue_ok_def queued_def)

lemma push_event_room:
  "runtime_queue_ok rt \<Longrightarrow> length (queued rt) < kEventQueueCapacity \<Longrightarrow> fst (push_event e rt)"
  by (rule push_event_cases[of rt e]) simp_all

lemma sweep_inv_step:
  assumes inv: "sweep_inv (e # es) m" and m1: "tables_ok m1"
    and t: "tracked_map m1 = (tracked_map m)(ev_correlation_id e := t')"
    and f: "flight_map m1 = (flight_map m)(ev_correlation_id e := k')"
    and t': "\<And>x. t' = Some x \<Longrightarrow> k' = Some (tk_command x)"
  shows "sweep_inv es m1"
proof -
  let ?c = "ev_correlation_id e"
  have d: "dispatcher_inv (cq_dispatcher m)" "dispatcher_inv (cq_dispatcher m1)"
    using inv m1 by (simp_all add: sweep_inv_def tables_ok_def)
  have "finite (dom (flight_map m))" unfolding flight_map_def in_flight_dom by (rule finite_dom_slot_map)
  then have "card (dom (flight_map m1)) \<le> Suc (card (dom (flight_map m)))"
    by (cases k') (simp_all add: f card_insert_if card_Diff1_le le_SucI)
  then have n: "dp_count (cq_dispatcher m1) \<le> Suc (dp_count (cq_dispatcher m))"
    using in_flight_card[OF d(1)] in_flight_card[OF d(2)] by (simp add: flight_map_def pending_count_def)
  have supp: "is_supported_command (cc_type (tk_command x))" if "t' = Some x" for x
    using in_flight_id(3)[OF d(2), of ?c "tk_command x"] t'[OF that] f by (simp add: flight_map_def fun_eq_iff)
  show ?thesis
    using inv m1 n supp t' unfolding sweep_inv_def t f by (auto simp: image_iff)
qed

lemma timeout_command_spec:
  fixes now :: u32
  assumes inv: "sweep_inv (e # es) m" and q: "runtime_queue_ok rt"
  defines "r \<equiv> timeout_command now e rt m" and "t \<equiv> after_timeout now (tracked_map m (ev_correlation_id e))"
  shows "sweep_inv es (snd (snd r))" and "runtime_queue_ok (fst (snd r))" and "rt_config (fst (snd r)) = rt_config rt"
    and "length (queued rt) < kEventQueueCapacity \<Longrightarrow>
      queued (fst (snd r)) = queued rt @ [outcome_event now (tracked_map m (ev_correlation_id e)) e] \<and>
      tracked_map (snd (snd r)) = (tracked_map m)(ev_correlation_id e := t) \<and>
      flight_map (snd (snd r)) = (flight_map m)(ev_correlation_id e := map_option tk_command t)"
proof -
  let ?c = "ev_correlation_id e"
  have c: "?c \<noteq> kNoCorrelationId" "flight_map m ?c = None" "tables_ok m" using inv by (auto simp: sweep_inv_def)
  have give: "sweep_inv es (snd (snd (give_up e rt1 m1))) \<and> runtime_queue_ok (fst (snd (give_up e rt1 m1))) \<and>
      rt_config (fst (snd (give_up e rt1 m1))) = rt_config rt1 \<and>
      tracked_map (snd (snd (give_up e rt1 m1))) = (tracked_map m)(?c := None) \<and>
      flight_map (snd (snd (give_up e rt1 m1))) = flight_map m1 \<and>
      (length (queued rt1) < kEventQueueCapacity \<longrightarrow> queued (fst (snd (give_up e rt1 m1))) = queued rt1 @ [e])"
    if "tables_ok m1" "tracked_map m1 = (tracked_map m)(?c := x)" "flight_map m1 = (flight_map m)(?c := k)"
      "runtime_queue_ok rt1" for m1 rt1 x k
  proof -
    note rel = release_spec[OF that(1) c(1)]
    have m: "snd (snd (give_up e rt1 m1)) = release_tracked_command ?c m1"
      "fst (snd (give_up e rt1 m1)) = snd (push_event e (count_stat_timeout rt1))"
      by (simp_all add: give_up_def case_prod_unfold)
    have tm: "tracked_map (release_tracked_command ?c m1) = (tracked_map m)(?c := None)" using rel(2) that(2) by simp
    have fm: "flight_map (release_tracked_command ?c m1) = (flight_map m)(?c := k)"
      using rel(3) that(3) by (simp add: flight_map_def)
    have "sweep_inv es (release_tracked_command ?c m1)" by (rule sweep_inv_step[OF inv rel(1) tm fm]) simp
    then show ?thesis
      using push_event_ok[of "count_stat_timeout rt1" e] queued_push[of "count_stat_timeout rt1" e]
        push_event_room[of "count_stat_timeout rt1" e] that(3,4) by (simp add: m tm fm)
  qed
  have "sweep_inv es (snd (snd r)) \<and> runtime_queue_ok (fst (snd r)) \<and> rt_config (fst (snd r)) = rt_config rt \<and>
      (length (queued rt) < kEventQueueCapacity \<longrightarrow>
        queued (fst (snd r)) = queued rt @ [outcome_event now (tracked_map m ?c) e] \<and>
        tracked_map (snd (snd r)) = (tracked_map m)(?c := t) \<and>
        flight_map (snd (snd r)) = (flight_map m)(?c := map_option tk_command t))"
  proof (cases t)
    case None
    then have "r = give_up e rt m"
      using retry_command_none[OF c(3,1), of now rt] by (simp add: r_def t_def timeout_command_def)
    then show ?thesis
      using give[of m "tracked_map m ?c" None rt] c q None
      by (simp add: fun_upd_idem t_def outcome_event_def)
  next
    case (Some t')
    then obtain x where x: "tracked_map m ?c = Some x" "tk_retries_left x > 0" "t' = retried now x"
      by (cases "tracked_map m ?c") (auto simp: t_def split: if_splits)
    let ?e = "command_to_event (tk_command t')" and ?rt = "count_stat_retry rt"
    obtain m1 where m1: "retry_command now ?c rt m = (fst (push_event ?e ?rt), snd (push_event ?e ?rt), m1)"
      "tables_ok m1" "tracked_map m1 = (tracked_map m)(?c := Some t')"
      "flight_map m1 = (flight_map m)(?c := Some (tk_command t'))"
      using retry_command_spec[OF inv x(1,2), of now rt] unfolding x(3) by metis
    have s: "sweep_inv es m1" by (rule sweep_inv_step[OF inv m1(2,3,4)]) simp
    have q1: "runtime_queue_ok (snd (push_event ?e ?rt))" using push_event_ok[of ?rt ?e] q by simp
    show ?thesis
    proof (cases "fst (push_event ?e ?rt)")
      case True
      then have "r = (True, snd (push_event ?e ?rt), m1)" by (simp add: r_def timeout_command_def m1(1))
      then show ?thesis
        using s q1 q m1(3,4) queued_push[of ?rt ?e] True Some by (simp add: outcome_event_def t_def[symmetric])
    next
      case False
      then have "r = give_up e (snd (push_event ?e ?rt)) m1" by (simp add: r_def timeout_command_def m1(1))
      moreover have "\<not> length (queued rt) < kEventQueueCapacity"
        using False push_event_room[of ?rt ?e] q by auto
      ultimately show ?thesis using give[OF m1(2,3,4) q1] by simp
    qed
  qed
  then show "sweep_inv es (snd (snd r))" "runtime_queue_ok (fst (snd r))" "rt_config (fst (snd r)) = rt_config rt"
    "length (queued rt) < kEventQueueCapacity \<Longrightarrow>
      queued (fst (snd r)) = queued rt @ [outcome_event now (tracked_map m ?c) e] \<and>
      tracked_map (snd (snd r)) = (tracked_map m)(?c := t) \<and>
      flight_map (snd (snd r)) = (flight_map m)(?c := map_option tk_command t)" by blast+
qed
lemma timeouts_loop_spec:
  "sweep_inv es m \<Longrightarrow> runtime_queue_ok rt \<Longrightarrow>
   (case timeouts_loop now es rt m of (n, rt', m') \<Rightarrow>
     sweep_inv [] m' \<and> runtime_queue_ok rt' \<and> rt_config rt' = rt_config rt \<and>
     (length (queued rt) + length es \<le> kEventQueueCapacity \<longrightarrow>
        queued rt' = queued rt @ map (\<lambda>e. outcome_event now (tracked_map m (ev_correlation_id e)) e) es \<and>
        (\<forall>c. tracked_map m' c = (if c \<in> ev_correlation_id ` set es
               then after_timeout now (tracked_map m c) else tracked_map m c) \<and>
             flight_map m' c = (if c \<in> ev_correlation_id ` set es
               then map_option tk_command (after_timeout now (tracked_map m c)) else flight_map m c))))"
proof (induction es arbitrary: rt m)
  case (Cons e es)
  obtain ok rt1 m1 where r: "timeout_command now e rt m = (ok, rt1, m1)" by (metis prod_cases3)
  obtain n rt2 m2 where l: "timeouts_loop now es rt1 m1 = (n, rt2, m2)" by (metis prod_cases3)
  note s = timeout_command_spec[OF Cons.prems, of now, unfolded r fst_conv snd_conv]
  note ih = Cons.IH[OF s(1,2), unfolded l prod.case]
  have ids: "ev_correlation_id e \<notin> ev_correlation_id ` set es" using Cons.prems(1) by (simp add: sweep_inv_def)
  have other: "map (\<lambda>x. outcome_event now (((tracked_map m)(ev_correlation_id e := t)) (ev_correlation_id x)) x) es =
      map (\<lambda>x. outcome_event now (tracked_map m (ev_correlation_id x)) x) es" for t
    using ids by (intro map_cong refl) (metis fun_upd_other imageI)
  have res: "timeouts_loop now (e # es) rt m = (if ok then n + 1 else n, rt2, m2)" by (simp add: r l)
  show ?case unfolding res prod.case
  proof (intro conjI impI)
    assume room: "length (queued rt) + length (e # es) \<le> kEventQueueCapacity"
    then have "length (queued rt) < kEventQueueCapacity" by simp
    note s4 = s(4)[OF this]
    have "length (queued rt1) + length es \<le> kEventQueueCapacity" using room s4 by simp
    with ih have i: "queued rt2 = queued rt1 @ map (\<lambda>e. outcome_event now (tracked_map m1 (ev_correlation_id e)) e) es"
      "\<forall>c. tracked_map m2 c = (if c \<in> ev_correlation_id ` set es
               then after_timeout now (tracked_map m1 c) else tracked_map m1 c) \<and>
             flight_map m2 c = (if c \<in> ev_correlation_id ` set es
               then map_option tk_command (after_timeout now (tracked_map m1 c)) else flight_map m1 c)" by blast+
    show "queued rt2 = queued rt @ map (\<lambda>e. outcome_event now (tracked_map m (ev_correlation_id e)) e) (e # es)"
    proof -
      have "tracked_map m1 = (tracked_map m)
          (ev_correlation_id e := after_timeout now (tracked_map m (ev_correlation_id e)))" using s4 by blast
      then show ?thesis using s4 i(1) other by (simp only: append_assoc list.map append_Cons append_Nil)
    qed
    show "\<forall>c. tracked_map m2 c = (if c \<in> ev_correlation_id ` set (e # es)
               then after_timeout now (tracked_map m c) else tracked_map m c) \<and>
             flight_map m2 c = (if c \<in> ev_correlation_id ` set (e # es)
               then map_option tk_command (after_timeout now (tracked_map m c)) else flight_map m c)"
      using s4 i(2) ids by auto
  qed (use ih s(3) in simp_all)
qed simp

text \<open>A command in flight is aged when its timeout has passed, by the wrapped difference of the clock.\<close>

definition aged :: "u32 \<Rightarrow> ServiceRuntime \<Rightarrow> CommandManager \<Rightarrow> u32 \<Rightarrow> bool" where
  "aged now rt m c \<longleftrightarrow> (\<exists>k. flight_map m c = Some k \<and> cm_command_timeout_ms (rt_config rt) \<noteq> 0 \<and>
     cm_command_timeout_ms (rt_config rt) \<le> now - cc_issued_at_ms k)"

lemma timeout_event_id [simp]: "ev_correlation_id (timeout_event now k) = cc_correlation_id k"
  by (simp add: timeout_event_def)

lemma command_event_id [simp]: "ev_correlation_id (command_to_event k) = cc_correlation_id k"
  by (simp add: command_to_event_def)

lemma expired_sweep:
  fixes now :: u32 and rt :: ServiceRuntime
  assumes inv: "command_inv m"
  defines "x \<equiv> expire_timeouts now (cm_command_timeout_ms (rt_config rt)) (Some kMaxPending) (cq_dispatcher m)"
  shows "sweep_inv (fst x) (m\<lparr>cq_dispatcher := snd x\<rparr>)"
    and "ev_correlation_id ` set (fst x) = {c. aged now rt m c}"
    and "length (fst x) \<le> kMaxPending"
    and "\<And>e. e \<in> set (fst x) \<Longrightarrow> \<exists>k. flight_map m (ev_correlation_id e) = Some k \<and> e = timeout_event now k"
    and "\<And>c. flight_map (m\<lparr>cq_dispatcher := snd x\<rparr>) c = (if aged now rt m c then None else flight_map m c)"
proof -
  let ?T = "cm_command_timeout_ms (rt_config rt)" and ?d = "cq_dispatcher m"
  have d: "dispatcher_inv ?d" and t: "tables_ok m" using inv by (simp_all add: command_inv_def tables_ok_def)
  have *: "sweep_inv (fst x) (m\<lparr>cq_dispatcher := snd x\<rparr>) \<and> ev_correlation_id ` set (fst x) = {c. aged now rt m c} \<and>
      length (fst x) \<le> kMaxPending \<and>
      (\<forall>e \<in> set (fst x). \<exists>k. flight_map m (ev_correlation_id e) = Some k \<and> e = timeout_event now k) \<and>
      (\<forall>c. flight_map (m\<lparr>cq_dispatcher := snd x\<rparr>) c = (if aged now rt m c then None else flight_map m c))"
  proof (cases "?T = 0")
    case True
    then have x: "x = ([], ?d)" by (simp add: x_def expire_timeouts_def)
    have supp: "is_supported_command (cc_type (tk_command t))" if "tracked_map m c = Some t" for c t
      using inv that in_flight_id(3)[OF d] by (auto simp: command_inv_def flight_map_def)
    have "dp_count ?d \<le> kMaxPending" using d by (simp add: dispatcher_inv_def count_where_def) (metis length_filter_le)
    then have "sweep_inv [] m" using inv supp by (auto simp: sweep_inv_def command_inv_def)
    then show ?thesis using True by (simp add: x aged_def)
  next
    case False
    have pos: "0 < kMaxPending" by (simp add: kMaxPending_def)
    note spec = expire_spec[OF d pos False, of now, folded x_def]
    have len: "length (filter (timed_out now ?T) (dp_pending ?d)) \<le> kMaxPending"
      using d length_filter_le[of "timed_out now ?T" "dp_pending ?d"] by (simp add: dispatcher_inv_def)
    have ev: "fst x = map (\<lambda>e. timeout_event now (pe_command e)) (filter (timed_out now ?T) (dp_pending ?d))"
      using arg_cong[OF spec(1), of fst] len by simp
    have ag: "set (fst x) = {timeout_event now c | k c. in_flight ?d k = Some c \<and> ?T \<le> now - cc_issued_at_ms c}"
      "\<And>k. in_flight (snd x) k = (case in_flight ?d k of None \<Rightarrow> None
         | Some c \<Rightarrow> if ?T \<le> now - cc_issued_at_ms c then None else Some c)"
      using expire_aged[OF d False order_refl, of now, folded x_def] by (simp_all add: case_prod_unfold)
    have ids: "ev_correlation_id ` set (fst x) = {c. aged now rt m c}"
    proof (intro set_eqI iffI)
      fix c
      assume "c \<in> {c. aged now rt m c}"
      then obtain k where k: "in_flight ?d c = Some k" "?T \<le> now - cc_issued_at_ms k"
        by (auto simp: aged_def flight_map_def)
      then have "timeout_event now k \<in> set (fst x)" unfolding ag(1) by blast
      then show "c \<in> ev_correlation_id ` set (fst x)" using in_flight_id(1)[OF d k(1)] by (auto intro!: image_eqI)
    next
      fix c
      assume "c \<in> ev_correlation_id ` set (fst x)"
      then show "c \<in> {c. aged now rt m c}"
        unfolding ag(1) using False in_flight_id(1)[OF d] by (auto simp: aged_def flight_map_def)
    qed
    have evs: "\<exists>k. flight_map m (ev_correlation_id e) = Some k \<and> e = timeout_event now k" if "e \<in> set (fst x)" for e
      using that in_flight_id(1)[OF d] unfolding ag(1) flight_map_def by auto
    have fl: "flight_map (m\<lparr>cq_dispatcher := snd x\<rparr>) c = (if aged now rt m c then None else flight_map m c)" for c
      using ag(2)[of c] False by (auto simp: aged_def flight_map_def split: option.splits)
    have "distinct (map ev_correlation_id (fst x))"
    proof -
      have "map ev_correlation_id (fst x) = map pe_id (filter (timed_out now ?T) (dp_pending ?d))"
        unfolding ev by (simp add: pe_id_def[abs_def] comp_def)
      moreover have "filter (timed_out now ?T) (dp_pending ?d) =
          filter (\<lambda>e. pe_in_use e \<and> timed_out now ?T e) (dp_pending ?d)"
        by (rule filter_cong) (auto simp: timed_out_def)
      moreover have "distinct (map pe_id (filter (\<lambda>e. pe_in_use e \<and> timed_out now ?T e) (dp_pending ?d)))"
        by (rule unique_slots_distinct) (use d in \<open>simp add: dispatcher_inv_def\<close>)
      ultimately show ?thesis by (simp only:)
    qed
    moreover have "dp_count (snd x) + length (fst x) \<le> kMaxPending"
    proof -
      have "length (filter pe_in_use (dp_pending ?d)) =
          length (filter pe_in_use (drop_expired now ?T kMaxPending (dp_pending ?d))) + length (fst x)"
        using arg_cong[OF drop_expired_balance[of "dp_pending ?d" now ?T kMaxPending], of size] len
        unfolding ev by (simp only: size_mset size_union length_map take_all)
      then have "dp_count (snd x) + length (fst x) = count_where pe_in_use (dp_pending ?d)"
        using spec(2,3) by (simp add: dispatcher_inv_def count_where_def)
      then show ?thesis using d by (simp add: dispatcher_inv_def count_where_def) (metis length_filter_le)
    qed
    moreover have "tables_ok (m\<lparr>cq_dispatcher := snd x\<rparr>)" using t spec(3) by (simp add: tables_ok_def)
    moreover have "ev_correlation_id e \<noteq> kNoCorrelationId \<and>
        flight_map (m\<lparr>cq_dispatcher := snd x\<rparr>) (ev_correlation_id e) = None" if e: "e \<in> set (fst x)" for e
    proof -
      have "aged now rt m (ev_correlation_id e)" using ids e by blast
      moreover obtain k where "flight_map m (ev_correlation_id e) = Some k" using evs[OF e] by blast
      ultimately show ?thesis using in_flight_id(2)[OF d] by (simp add: fl flight_map_def[of m])
    qed
    moreover have "is_supported_command (cc_type (tk_command y)) \<and>
        (flight_map (m\<lparr>cq_dispatcher := snd x\<rparr>) c = Some (tk_command y) \<or> c \<in> ev_correlation_id ` set (fst x))"
      if y: "tracked_map (m\<lparr>cq_dispatcher := snd x\<rparr>) c = Some y" for c y
    proof -
      have "flight_map m c = Some (tk_command y)" using inv y by (simp add: command_inv_def tracked_map_def)
      then show ?thesis using in_flight_id(3)[OF d] by (simp add: fl ids flight_map_def[of m])
    qed
    ultimately have "sweep_inv (fst x) (m\<lparr>cq_dispatcher := snd x\<rparr>)" unfolding sweep_inv_def by simp
    then show ?thesis using ids evs fl len by (simp add: ev)
  qed
  then show "sweep_inv (fst x) (m\<lparr>cq_dispatcher := snd x\<rparr>)" "ev_correlation_id ` set (fst x) = {c. aged now rt m c}"
    "length (fst x) \<le> kMaxPending"
    "\<And>e. e \<in> set (fst x) \<Longrightarrow> \<exists>k. flight_map m (ev_correlation_id e) = Some k \<and> e = timeout_event now k"
    "\<And>c. flight_map (m\<lparr>cq_dispatcher := snd x\<rparr>) c = (if aged now rt m c then None else flight_map m c)" by blast+
qed
lemma filter_one:
  assumes "distinct (map f xs)"
  shows "x \<in> set xs \<Longrightarrow> f x = c \<Longrightarrow> filter (\<lambda>y. f y = c) xs = [x]"
    and "c \<notin> f ` set xs \<Longrightarrow> filter (\<lambda>y. f y = c) xs = []"
proof -
  show "x \<in> set xs \<Longrightarrow> f x = c \<Longrightarrow> filter (\<lambda>y. f y = c) xs = [x]"
    using assms
  proof (induction xs)
    case (Cons y ys)
    then show ?case by (cases "f y = c") (auto simp: filter_empty_conv image_iff)
  qed simp
qed (auto simp: filter_empty_conv)

lemma outcome_event_id:
  "(\<And>t. to = Some t \<Longrightarrow> tk_id t = ev_correlation_id e) \<Longrightarrow>
     ev_correlation_id (outcome_event now to e) = ev_correlation_id e"
  by (cases to) (auto simp: outcome_event_def retried_def tk_id_def split: option.splits)

lemma process_timeouts_spec:
  assumes inv: "command_inv m" and q: "runtime_queue_ok rt" and r: "process_timeouts now rt m = (n, rt', m')"
  shows "command_inv m'" and "runtime_queue_ok rt'" and "rt_config rt' = rt_config rt"
    and "queued rt = [] \<Longrightarrow> tracked_map m' c =
      (if aged now rt m c then after_timeout now (tracked_map m c) else tracked_map m c)"
    and "queued rt = [] \<Longrightarrow> flight_map m' c =
      (if aged now rt m c then map_option tk_command (after_timeout now (tracked_map m c)) else flight_map m c)"
    and "queued rt = [] \<Longrightarrow> filter (\<lambda>e. ev_correlation_id e = c) (queued rt') =
      (if aged now rt m c then [outcome_event now (tracked_map m c) (timeout_event now (the (flight_map m c)))] else [])"
proof -
  define x where "x = expire_timeouts now (cm_command_timeout_ms (rt_config rt)) (Some kMaxPending) (cq_dispatcher m)"
  let ?m = "m\<lparr>cq_dispatcher := snd x\<rparr>"
  note ex = expired_sweep[where now = now and rt = rt, OF inv, folded x_def]
  obtain k rt1 m1 where l: "timeouts_loop now (fst x) rt ?m = (k, rt1, m1)" by (metis prod_cases3)
  have res: "rt' = rt1" "m' = refresh_pending_commands_cache m1"
    using r l by (simp_all add: process_timeouts_def x_def[symmetric] case_prod_unfold)
  have tm: "tracked_map ?m = tracked_map m" by (simp add: tracked_map_def)
  note sp = timeouts_loop_spec[where now = now, OF ex(1) q, unfolded l prod.case tm ex(2) mem_Collect_eq]
  show "command_inv m'" "runtime_queue_ok rt'" "rt_config rt' = rt_config rt"
    using sp by (simp_all add: res sweep_inv_Nil)
  show "tracked_map m' c = (if aged now rt m c then after_timeout now (tracked_map m c) else tracked_map m c)"
    and "flight_map m' c =
      (if aged now rt m c then map_option tk_command (after_timeout now (tracked_map m c)) else flight_map m c)"
    and "filter (\<lambda>e. ev_correlation_id e = c) (queued rt') =
      (if aged now rt m c then [outcome_event now (tracked_map m c) (timeout_event now (the (flight_map m c)))] else [])"
    if e: "queued rt = []"
  proof -
    have "length (queued rt) + length (fst x) \<le> kEventQueueCapacity"
      using ex(3) by (simp add: e kMaxPending_def kEventQueueCapacity_def)
    with sp e have s: "queued rt1 = map (\<lambda>e. outcome_event now (tracked_map m (ev_correlation_id e)) e) (fst x)"
      "\<And>c. tracked_map m1 c = (if aged now rt m c then after_timeout now (tracked_map m c) else tracked_map m c)"
      "\<And>c. flight_map m1 c = (if aged now rt m c then map_option tk_command (after_timeout now (tracked_map m c))
         else flight_map ?m c)"
      by auto
    show "tracked_map m' c = (if aged now rt m c then after_timeout now (tracked_map m c) else tracked_map m c)"
      by (simp add: res s(2))
    show "flight_map m' c =
      (if aged now rt m c then map_option tk_command (after_timeout now (tracked_map m c)) else flight_map m c)"
      by (simp add: res s(3) ex(5))
    have id: "ev_correlation_id (outcome_event now (tracked_map m (ev_correlation_id e)) e) = ev_correlation_id e" for e
      by (rule outcome_event_id) (simp add: tracked_map_id)
    have f: "filter (\<lambda>e. ev_correlation_id e = c) (queued rt') =
        map (\<lambda>e. outcome_event now (tracked_map m (ev_correlation_id e)) e)
          (filter (\<lambda>e. ev_correlation_id e = c) (fst x))"
      by (simp add: res s(1) filter_map comp_def id)
    have di: "distinct (map ev_correlation_id (fst x))" using ex(1) by (simp add: sweep_inv_def)
    show "filter (\<lambda>e. ev_correlation_id e = c) (queued rt') =
      (if aged now rt m c then [outcome_event now (tracked_map m c) (timeout_event now (the (flight_map m c)))] else [])"
    proof (cases "aged now rt m c")
      case True
      then have "c \<in> ev_correlation_id ` set (fst x)" unfolding ex(2) by simp
      then obtain e where e: "e \<in> set (fst x)" "ev_correlation_id e = c" by (rule imageE) auto
      obtain k where k: "flight_map m c = Some k" "e = timeout_event now k" using ex(4)[OF e(1)] e(2) by blast
      show ?thesis unfolding f filter_one(1)[OF di e] using True e(2) k by simp
    next
      case False
      then have "c \<notin> ev_correlation_id ` set (fst x)" unfolding ex(2) by simp
      from filter_one(2)[OF di this] show ?thesis unfolding f using False by simp
    qed
  qed
qed

section \<open>A command that is never answered\<close>

text \<open>The runtime takes all the events that wait.\<close>

function take_events :: "ServiceRuntime \<Rightarrow> CoreEvent list \<times> ServiceRuntime" where
  "take_events rt =
     (case pop_event rt of
        None \<Rightarrow> ([], rt)
      | Some (e, rt1) \<Rightarrow> (case take_events rt1 of (es, rt2) \<Rightarrow> (e # es, rt2)))"
  by pat_completeness auto
termination
  by (relation "measure (\<lambda>rt. rg_count (rt_event_queue rt))") (auto simp: pop_event_def ring_pop_def split: if_splits)

declare take_events.simps [simp del]

lemma take_events_spec:
  "runtime_queue_ok rt \<Longrightarrow> fst (take_events rt) = queued rt \<and> runtime_queue_ok (snd (take_events rt)) \<and>
     queued (snd (take_events rt)) = [] \<and> rt_config (snd (take_events rt)) = rt_config rt"
proof (induction rt rule: take_events.induct)
  case (1 rt)
  show ?case
  proof (rule pop_event_cases[OF 1(2)])
    assume "pop_event rt = None" "queued rt = []"
    then show ?thesis using 1(2) by (simp add: take_events.simps[of rt])
  next
    fix e q
    assume p: "pop_event rt = Some (e, rt\<lparr>rt_event_queue := q\<rparr>)" and q: "ring_inv kEventQueueCapacity q"
      and l: "queued rt = e # ring_list kEventQueueCapacity q"
    let ?rt = "rt\<lparr>rt_event_queue := q\<rparr>"
    have "runtime_queue_ok ?rt" "queued ?rt = ring_list kEventQueueCapacity q"
      using q by (simp_all add: runtime_queue_ok_def queued_def)
    then show ?thesis using 1(1)[OF p refl] by (simp add: take_events.simps[of rt] p l case_prod_unfold)
  qed
qed

fun sweeps :: "u32 list \<Rightarrow> ServiceRuntime \<Rightarrow> CommandManager \<Rightarrow> CoreEvent list \<times> ServiceRuntime \<times> CommandManager" where
  "sweeps [] rt m = ([], rt, m)"
| "sweeps (t # ts) rt m =
     (case process_timeouts t rt m of
        (_, rt1, m1) \<Rightarrow>
          (case take_events rt1 of
             (es, rt2) \<Rightarrow> (case sweeps ts rt2 m1 of (es', rt3, m3) \<Rightarrow> (es @ es', rt3, m3))))"

text \<open>Each sweep is at least the timeout after the last time the command was issued.\<close>

fun spaced :: "u32 \<Rightarrow> u32 \<Rightarrow> u32 list \<Rightarrow> bool" where
  "spaced timeout issued [] = True"
| "spaced timeout issued (t # ts) = (timeout \<le> t - issued \<and> spaced timeout t ts)"

lemma timeout_event_issued [simp]: "timeout_event now (k\<lparr>cc_issued_at_ms := s\<rparr>) = timeout_event now k"
  by (simp add: timeout_event_def)

lemma retries_aux:
  "command_inv m \<Longrightarrow> runtime_queue_ok rt \<Longrightarrow> queued rt = [] \<Longrightarrow> cm_command_timeout_ms (rt_config rt) \<noteq> 0 \<Longrightarrow>
   tracked_map m c = Some t \<Longrightarrow> length ts = Suc (unat (tk_retries_left t)) \<Longrightarrow>
   spaced (cm_command_timeout_ms (rt_config rt)) (cc_issued_at_ms (tk_command t)) ts \<Longrightarrow>
   sweeps ts rt m = (es, rt', m') \<Longrightarrow>
   filter (\<lambda>e. ev_correlation_id e = c) es =
     map (\<lambda>s. command_to_event ((tk_command t)\<lparr>cc_issued_at_ms := s\<rparr>)) (butlast ts) @
     [timeout_event (last ts) (tk_command t)] \<and>
   flight_map m' c = None \<and> tracked_map m' c = None"
proof (induction ts arbitrary: rt m t es)
  case (Cons now ts)
  let ?T = "cm_command_timeout_ms (rt_config rt)"
  obtain n rt1 m1 where p: "process_timeouts now rt m = (n, rt1, m1)" by (metis prod_cases3)
  obtain es1 rt2 where te: "take_events rt1 = (es1, rt2)" by fastforce
  obtain es2 where sw: "sweeps ts rt2 m1 = (es2, rt', m')" "es = es1 @ es2"
    using Cons.prems(8) by (auto simp: p te split: prod.splits)
  note sp = process_timeouts_spec[OF Cons.prems(1,2) p]
  note s3 = sp(4-6)[OF Cons.prems(3), of c]
  have tk: "es1 = queued rt1" "runtime_queue_ok rt2" "queued rt2 = []" "rt_config rt2 = rt_config rt"
    using take_events_spec[OF sp(2)] te sp(3) by simp_all
  have fl: "flight_map m c = Some (tk_command t)" using Cons.prems(1,5) by (simp add: command_inv_def)
  have ag: "aged now rt m c" using fl Cons.prems(4,7) by (simp add: aged_def)
  show ?case
  proof (cases "tk_retries_left t > 0")
    case False
    then have 0: "tk_retries_left t = 0" by (simp add: word_gt_0)
    then have "ts = []" using Cons.prems(6) by simp
    then show ?thesis
      using sw s3 ag fl Cons.prems(5) 0 tk(1) by (simp add: outcome_event_def)
  next
    case True
    let ?t = "retried now t"
    have dec: "Suc (unat (tk_retries_left ?t)) = unat (tk_retries_left t)"
      using u8_dec[OF True] by (simp add: retried_def)
    have ne: "ts \<noteq> []" using Cons.prems(6) dec by auto
    have k: "tk_command ?t = (tk_command t)\<lparr>cc_issued_at_ms := now\<rparr>" by (simp add: retried_def)
    have tr: "tracked_map m1 c = Some ?t" using s3(1) ag Cons.prems(5) True by simp
    have "filter (\<lambda>e. ev_correlation_id e = c) es2 =
        map (\<lambda>s. command_to_event ((tk_command ?t)\<lparr>cc_issued_at_ms := s\<rparr>)) (butlast ts) @
        [timeout_event (last ts) (tk_command ?t)] \<and> flight_map m' c = None \<and> tracked_map m' c = None"
    proof (rule Cons.IH[OF sp(1) tk(2,3) _ tr _ _ sw(1)])
      show "cm_command_timeout_ms (rt_config rt2) \<noteq> 0" using Cons.prems(4) tk(4) by simp
      show "length ts = Suc (unat (tk_retries_left ?t))" using Cons.prems(6) dec by simp
      show "spaced (cm_command_timeout_ms (rt_config rt2)) (cc_issued_at_ms (tk_command ?t)) ts"
        using Cons.prems(7) tk(4) k by simp
    qed
    moreover have "filter (\<lambda>e. ev_correlation_id e = c) es1 = [command_to_event (tk_command ?t)]"
      using s3(3) ag Cons.prems(5) True tk(1) by (simp add: outcome_event_def)
    ultimately show ?thesis using sw(2) ne by (simp add: k)
  qed
qed simp
section \<open>Every operation keeps the tables together\<close>

text \<open>The invariant of the whole manager: its queues are well-formed and its cache is up to date.\<close>

definition manager_inv :: "CommandManager \<Rightarrow> bool" where
  "manager_inv m \<longleftrightarrow> command_inv m \<and> ring_inv kMaxPending (cq_request_queue m) \<and>
     ring_inv kMaxPending (cq_result_queue m) \<and>
     cq_pending_cache m = word_of_nat (pending_count (cq_dispatcher m))"

lemma submit_internal_frame:
  "cq_result_queue (snd (snd (submit_command_internal c rt m))) = cq_result_queue m"
  "cq_pending_cache m = word_of_nat (pending_count (cq_dispatcher m)) \<Longrightarrow>
   cq_pending_cache (snd (snd (submit_command_internal c rt m))) =
     word_of_nat (pending_count (cq_dispatcher (snd (snd (submit_command_internal c rt m)))))"
  by (auto simp: submit_command_internal_def allocate_tracked_command_def refresh_pending_commands_cache_def Let_def
      submit_def split: prod.splits option.splits bool.splits if_splits)

lemma submit_internal_inv:
  "manager_inv m \<Longrightarrow> runtime_queue_ok rt \<Longrightarrow>
     manager_inv (snd (snd (submit_command_internal c rt m))) \<and>
     runtime_queue_ok (fst (snd (submit_command_internal c rt m)))"
  using submit_internal_spec(1,2)[of m rt c] submit_internal_frame[where m = m] by (simp add: manager_inv_def)

lemma resolve_internal_frame:
  "cq_request_queue (snd (snd (resolve_command_result r rt m))) = cq_request_queue m"
  "cq_pending_cache m = word_of_nat (pending_count (cq_dispatcher m)) \<Longrightarrow>
   cq_pending_cache (snd (snd (resolve_command_result r rt m))) =
     word_of_nat (pending_count (cq_dispatcher (snd (snd (resolve_command_result r rt m)))))"
  by (auto simp: resolve_command_result_def release_tracked_command_def refresh_pending_commands_cache_def Let_def
      resolve_def split: prod.splits option.splits bool.splits if_splits)

lemma resolve_internal_inv:
  "manager_inv m \<Longrightarrow> runtime_queue_ok rt \<Longrightarrow>
     manager_inv (snd (snd (resolve_command_result r rt m))) \<and>
     runtime_queue_ok (fst (snd (resolve_command_result r rt m)))"
  using resolve_internal_spec[of m rt r] resolve_internal_frame[where m = m] by (simp add: manager_inv_def)

lemma command_inv_queues [simp]:
  "command_inv (m\<lparr>cq_request_queue := q\<rparr>) = command_inv m" "command_inv (m\<lparr>cq_result_queue := q'\<rparr>) = command_inv m"
  by (simp_all add: command_inv_def tables_ok_def tracked_map_def flight_map_def)

lemma pop_request_inv:
  "manager_inv m \<Longrightarrow> pop_command_request m = Some (c, m1) \<Longrightarrow> manager_inv m1"
  by (auto simp: pop_command_request_def manager_inv_def kCommandIngressQueueCapacity_def dest: ring_pop_refines(1))

lemma pop_result_inv:
  "manager_inv m \<Longrightarrow> pop_command_result m = Some (r, m1) \<Longrightarrow> manager_inv m1"
  by (auto simp: pop_command_result_def manager_inv_def kCommandResultQueueCapacity_def dest: ring_pop_refines(1))

lemma drain_requests_inv:
  "manager_inv m \<Longrightarrow> runtime_queue_ok rt \<Longrightarrow> drain_command_requests rt m = (b, rt', m') \<Longrightarrow>
     manager_inv m' \<and> runtime_queue_ok rt'"
proof (induction rt m arbitrary: b rt' m' rule: drain_command_requests.induct)
  case (1 rt m)
  show ?case
  proof (cases "pop_command_request m")
    case None
    then show ?thesis using 1(2-4) by (simp add: drain_command_requests.simps[of rt m])
  next
    case (Some p)
    obtain c m1 where p: "p = (c, m1)" by fastforce
    obtain err rt1 m2 where s: "submit_command_internal c rt m1 = (err, rt1, m2)" by (metis prod_cases3)
    let ?rt = "if err \<noteq> kOk then note_dropped_event rt1 else rt1"
    have i: "manager_inv m2" "runtime_queue_ok ?rt"
      using submit_internal_inv[of m1 rt c] pop_request_inv[OF 1(2)] Some p 1(3) s by auto
    obtain b2 rt2 m3 where d: "drain_command_requests ?rt m2 = (b2, rt2, m3)" by (metis prod_cases3)
    have "drain_command_requests rt m = (True, rt2, m3)"
      by (simp add: drain_command_requests.simps[of rt m] Some p s d)
    then show ?thesis using 1(1)[OF Some p[symmetric] s[symmetric] refl i d] 1(4) by simp
  qed
qed

lemma drain_results_inv:
  "manager_inv m \<Longrightarrow> runtime_queue_ok rt \<Longrightarrow> drain_command_results rt m = (b, rt', m') \<Longrightarrow>
     manager_inv m' \<and> runtime_queue_ok rt'"
proof (induction rt m arbitrary: b rt' m' rule: drain_command_results.induct)
  case (1 rt m)
  show ?case
  proof (cases "pop_command_result m")
    case None
    then show ?thesis using 1(3-5) by (simp add: drain_command_results.simps[of rt m])
  next
    case (Some p)
    obtain r m1 where p: "p = (r, m1)" by fastforce
    obtain b1 ti where t: "try_route_tuya_init_result r (rt_tuya_init rt) = (b1, ti)" by fastforce
    let ?rt = "rt\<lparr>rt_tuya_init := ti\<rparr>"
    have m1: "manager_inv m1" "runtime_queue_ok ?rt"
      using pop_result_inv[OF 1(3)] Some p 1(4) by (simp_all add: runtime_queue_ok_def)
    show ?thesis
    proof (cases b1)
      case True
      obtain b2 rt2 m3 where d: "drain_command_results ?rt m1 = (b2, rt2, m3)" by (metis prod_cases3)
      have "drain_command_results rt m = (True, rt2, m3)"
        using True by (simp add: drain_command_results.simps[of rt m] Some p t d)
      then show ?thesis using 1(1)[OF Some p[symmetric] t[symmetric] iffD2[OF eq_True True] m1 d] 1(5) by simp
    next
      case False
      obtain err rt1 m2 where s: "resolve_command_result r ?rt m1 = (err, rt1, m2)" by (metis prod_cases3)
      let ?rt2 = "if err \<noteq> kOk then note_dropped_event rt1 else rt1"
      have i: "manager_inv m2" "runtime_queue_ok ?rt2"
        using resolve_internal_inv[OF m1, of r] s by auto
      obtain b2 rt2 m3 where d: "drain_command_results ?rt2 m2 = (b2, rt2, m3)" by (metis prod_cases3)
      have "drain_command_results rt m = (True, rt2, m3)"
        using False by (simp add: drain_command_results.simps[of rt m] Some p t s d)
      then show ?thesis using 1(2)[OF Some p[symmetric] t[symmetric] iffD2[OF eq_False False] s[symmetric] refl i d] 1(5) by simp
    qed
  qed
qed

lemma process_timeouts_inv:
  "manager_inv m \<Longrightarrow> runtime_queue_ok rt \<Longrightarrow> process_timeouts now rt m = (n, rt', m') \<Longrightarrow>
     manager_inv m' \<and> runtime_queue_ok rt'"
proof -
  assume m: "manager_inv m" and q: "runtime_queue_ok rt" and r: "process_timeouts now rt m = (n, rt', m')"
  have "command_inv m" using m by (simp add: manager_inv_def)
  note s = process_timeouts_spec(1,2)[OF this q r]
  have keep: "cq_request_queue (snd (snd (timeouts_loop now es rt m))) = cq_request_queue m \<and>
      cq_result_queue (snd (snd (timeouts_loop now es rt m))) = cq_result_queue m" for es rt m
  proof (induction es arbitrary: rt m)
    case (Cons e es)
    have "cq_request_queue (snd (snd (timeout_command now e rt m))) = cq_request_queue m \<and>
        cq_result_queue (snd (snd (timeout_command now e rt m))) = cq_result_queue m"
      by (auto simp: timeout_command_def retry_command_def give_up_def release_tracked_command_def Let_def
          split: prod.splits option.splits bool.splits if_splits)
    then show ?case using Cons by (simp add: case_prod_unfold)
  qed simp
  obtain es d where x: "expire_timeouts now (cm_command_timeout_ms (rt_config rt)) (Some kMaxPending) (cq_dispatcher m) = (es, d)"
    by fastforce
  obtain k rt1 m1 where l: "timeouts_loop now es rt (m\<lparr>cq_dispatcher := d\<rparr>) = (k, rt1, m1)" by (metis prod_cases3)
  have "m' = refresh_pending_commands_cache m1" using r by (simp add: process_timeouts_def x l)
  moreover have "cq_request_queue m1 = cq_request_queue m \<and> cq_result_queue m1 = cq_result_queue m"
    using keep[of es rt "m\<lparr>cq_dispatcher := d\<rparr>"] l by simp
  ultimately have "cq_request_queue m' = cq_request_queue m \<and> cq_result_queue m' = cq_result_queue m \<and>
      cq_pending_cache m' = word_of_nat (pending_count (cq_dispatcher m'))"
    by (simp add: refresh_pending_commands_cache_def)
  then show ?thesis using s m by (simp add: manager_inv_def)
qed
datatype command_op =
  PostCommand CoreCommand | PostResult CoreCommandResult | DrainRequests | DrainResults | Sweep u32 | TakeEvents

fun command_step :: "command_op \<Rightarrow> ServiceRuntime \<times> CommandManager \<Rightarrow> ServiceRuntime \<times> CommandManager" where
  "command_step (PostCommand c) (rt, m) = snd (post_command c rt m)"
| "command_step (PostResult r) (rt, m) = snd (handle_command_result r rt m)"
| "command_step DrainRequests (rt, m) = snd (drain_command_requests rt m)"
| "command_step DrainResults (rt, m) = snd (drain_command_results rt m)"
| "command_step (Sweep t) (rt, m) = snd (process_timeouts t rt m)"
| "command_step TakeEvents (rt, m) = (snd (take_events rt), m)"

definition command_run :: "command_op list \<Rightarrow> ServiceRuntime \<times> CommandManager \<Rightarrow> ServiceRuntime \<times> CommandManager" where
  "command_run ops s = fold command_step ops s"

lemma drop_ingress_ok [simp]: "runtime_queue_ok (drop_ingress rt) = runtime_queue_ok rt"
  by (simp add: drop_ingress_def runtime_queue_ok_def)

lemma post_inv:
  assumes "manager_inv m" "runtime_queue_ok rt"
  shows "manager_inv (snd (snd (post_command c rt m))) \<and> runtime_queue_ok (fst (snd (post_command c rt m)))"
    and "manager_inv (snd (snd (handle_command_result r rt m))) \<and>
      runtime_queue_ok (fst (snd (handle_command_result r rt m)))"
  using assms ring_push_refines(1)[of kMaxPending "cq_request_queue m" c]
    ring_push_refines(1)[of kMaxPending "cq_result_queue m" r]
  by (auto simp: post_command_def queue_command_request_def handle_command_result_def queue_command_result_def
      manager_inv_def kCommandIngressQueueCapacity_def kCommandResultQueueCapacity_def split: option.split)

lemma command_step_inv:
  assumes "manager_inv (snd s)" "runtime_queue_ok (fst s)"
  shows "manager_inv (snd (command_step a s)) \<and> runtime_queue_ok (fst (command_step a s))"
proof -
  obtain rt m where s: "s = (rt, m)" by (cases s)
  with assms have i: "manager_inv m" "runtime_queue_ok rt" by simp_all
  show ?thesis unfolding s
  proof (cases a)
    case DrainRequests
    then show "manager_inv (snd (command_step a (rt, m))) \<and> runtime_queue_ok (fst (command_step a (rt, m)))"
      using drain_requests_inv[OF i] by (cases "drain_command_requests rt m") auto
  next
    case DrainResults
    then show "manager_inv (snd (command_step a (rt, m))) \<and> runtime_queue_ok (fst (command_step a (rt, m)))"
      using drain_results_inv[OF i] by (cases "drain_command_results rt m") auto
  next
    case (Sweep t)
    then show "manager_inv (snd (command_step a (rt, m))) \<and> runtime_queue_ok (fst (command_step a (rt, m)))"
      using process_timeouts_inv[OF i, of t] by (cases "process_timeouts t rt m") auto
  qed (use i post_inv[OF i] take_events_spec[OF i(2)] in simp_all)
qed

lemma command_run_inv:
  "manager_inv (snd s) \<Longrightarrow> runtime_queue_ok (fst s) \<Longrightarrow>
     manager_inv (snd (command_run ops s)) \<and> runtime_queue_ok (fst (command_run ops s))"
proof (induction ops arbitrary: s)
  case (Cons a ops)
  then show ?case using command_step_inv[OF Cons.prems, of a] by (simp add: command_run_def)
qed (simp add: command_run_def)

lemma manager_inv_init: "manager_inv command_manager_init"
  by (simp add: manager_inv_def command_inv_init)
    (simp add: command_manager_init_def ring_inv_empty kCommandIngressQueueCapacity_def
      kCommandResultQueueCapacity_def kMaxPending_def pending_count_def dispatcher_init_def)

lemma manager_inv_pending:
  assumes "manager_inv m"
  shows "pending_commands m = card (dom (flight_map m)) + length (ring_list kMaxPending (cq_request_queue m))"
proof -
  have d: "dispatcher_inv (cq_dispatcher m)" using assms by (simp add: manager_inv_def command_inv_def tables_ok_def)
  have "dp_count (cq_dispatcher m) \<le> 16"
    using d length_filter_le[of pe_in_use "dp_pending (cq_dispatcher m)"]
    by (simp add: dispatcher_inv_def count_where_def kMaxPending_def)
  then show ?thesis
    using assms in_flight_card[OF d]
    by (simp add: manager_inv_def pending_commands_def flight_map_def pending_count_def unat_of_nat)
qed

section \<open>Properties\<close>

lemma tables_agree_aux:
  "map_le (\<lambda>c. map_option tk_command (tracked_map m c)) (flight_map m) \<and>
   pending_commands m = card (dom (flight_map m)) + length (ring_list kMaxPending (cq_request_queue m))"
  if "manager_inv m"
  using that manager_inv_pending[OF that]
  by (auto simp: map_le_def manager_inv_def command_inv_def)

text \<open>
  C19: whatever commands and results are posted, drained, timed out and handed on, in any order and
  from any configuration, a tracked command is in flight in the dispatcher and is the very command in
  flight under its id, and \<^verbatim>\<open>pending_commands\<close> counts the commands in flight and those waiting to be
  submitted, no more and no less.
\<close>

theorem tracked_commands_are_in_flight:
  "case command_run ops (runtime_init\<lparr>rt_config := cfg\<rparr>, command_manager_init) of (rt, m) \<Rightarrow>
     map_le (\<lambda>c. map_option tk_command (tracked_map m c)) (flight_map m) \<and>
     pending_commands m = card (dom (flight_map m)) + length (ring_list kMaxPending (cq_request_queue m))"
proof -
  have "runtime_queue_ok (runtime_init\<lparr>rt_config := cfg\<rparr>)"
    using runtime_init_ok by (simp add: runtime_queue_ok_def)
  then show ?thesis
    using command_run_inv[of "(runtime_init\<lparr>rt_config := cfg\<rparr>, command_manager_init)" ops] manager_inv_init
      tables_agree_aux
    by (simp add: case_prod_unfold)
qed

lemma unanswered_aux:
  assumes inv: "command_inv m" and q: "runtime_queue_ok rt" and T: "cm_command_timeout_ms (rt_config rt) \<noteq> 0"
    and s: "submit_command_internal k rt m = (kOk, rt1, m1)"
    and len: "length ts = Suc (unat (cm_max_command_retries (rt_config rt)))"
    and sp: "spaced (cm_command_timeout_ms (rt_config rt)) (cc_issued_at_ms k) ts"
    and sw: "sweeps ts (snd (take_events rt1)) m1 = (es, rt2, m2)"
  shows "filter (\<lambda>e. ev_correlation_id e = cc_correlation_id k) es =
      map (\<lambda>t. command_to_event (k\<lparr>cc_issued_at_ms := t\<rparr>)) (butlast ts) @ [timeout_event (last ts) k] \<and>
      flight_map m2 (cc_correlation_id k) = None"
proof -
  note spec = submit_internal_spec[OF inv q, of k, unfolded s]
  have v: "submit_verdict k (flight_map m) = kOk" using spec(3) by (cases "submit_verdict k (flight_map m) = kOk") auto
  note sp4 = spec(4)[OF v, unfolded fst_conv snd_conv]
  have rt1: "runtime_queue_ok rt1" "rt_config rt1 = rt_config rt" using spec(2) sp4 by simp_all
  note te = take_events_spec[OF rt1(1)]
  show ?thesis
    using retries_aux[of m1 "snd (take_events rt1)" "cc_correlation_id k"
        "\<lparr>tk_in_use = True, tk_command = k, tk_retries_left = cm_max_command_retries (rt_config rt)\<rparr>" ts es rt2 m2]
      spec(1) sp4 te T len sp sw rt1 by simp
qed


lemma sample_submits:
  "submit_command_internal (sample_command 7) runtime_init command_manager_init =
    (kOk, fst (snd (submit_command_internal (sample_command 7) runtime_init command_manager_init)),
     snd (snd (submit_command_internal (sample_command 7) runtime_init command_manager_init)))"
proof -
  have fm: "flight_map command_manager_init = Map.empty"
    by (simp add: flight_map_def command_manager_init_def in_flight_init)
  have v: "submit_verdict (sample_command 7) (flight_map command_manager_init) = kOk"
    by (simp add: fm submit_verdict_def sample_command_def kNoCorrelationId_def kMaxPending_def)
  have "fst (push_event (command_to_event (sample_command 7)) runtime_init)"
    by (rule push_event_room) (simp_all add: runtime_init_ok queued_init kEventQueueCapacity_def)
  then show ?thesis
    using submit_internal_spec(4)[OF command_inv_init runtime_init_ok v] by (simp add: prod_eq_iff)
qed


text \<open>
  The answer to a submission. A command the dispatcher refuses changes nothing and gets its
  verdict. An accepted one is in flight and tracked with the configured number of retries, always: a
  free slot to track it is never missing, so the only other error is \<^verbatim>\<open>kNoCapacity\<close> for a full event
  queue, and then the command stays in flight and is sent by its first retry.
\<close>

theorem submission_contract:
  assumes "command_inv m" and "runtime_queue_ok rt"
  shows "case submit_command_internal c rt m of (err, rt1, m1) \<Rightarrow>
    command_inv m1 \<and>
    (if submit_verdict c (flight_map m) \<noteq> kOk
     then err = submit_verdict c (flight_map m) \<and> rt1 = rt \<and> m1 = m
     else err = (if length (queued rt) = kEventQueueCapacity then kNoCapacity else kOk) \<and>
       queued rt1 = queued rt @ (if err = kOk then [command_to_event c] else []) \<and>
       flight_map m1 = (flight_map m)(cc_correlation_id c \<mapsto> c) \<and>
       tracked_map m1 = (tracked_map m)(cc_correlation_id c \<mapsto>
         \<lparr>tk_in_use = True, tk_command = c, tk_retries_left = cm_max_command_retries (rt_config rt)\<rparr>))"
proof -
  note s = submit_internal_spec[OF assms, of c]
  have p: "fst (push_event (command_to_event c) rt) \<longleftrightarrow> length (queued rt) \<noteq> kEventQueueCapacity"
    by (rule push_event_cases[OF assms(2), of "command_to_event c"]) simp_all
  show ?thesis
    using s p queued_push[OF assms(2), of "command_to_event c"]
    by (cases "submit_verdict c (flight_map m) = kOk") (auto simp: case_prod_unfold)
qed

lemma submission_contract_witness:
  "fst (submit_command_internal (sample_command 0) runtime_init command_manager_init) = kInvalidArgument"
  using submission_contract[OF command_inv_init runtime_init_ok, of "sample_command 0"]
  by (simp add: case_prod_unfold submit_verdict_def sample_command_def kNoCorrelationId_def)

end
