(* ===== verification/RuntimeReports.thy ===== *)
theory RuntimeReports
  imports RuntimeState CoreInvariants ResultStore
begin

text \<open>
  The reports of the radio as \<^verbatim>\<open>ServiceRuntime\<close> (\<^verbatim>\<open>components/service/service_runtime.cpp\<close>) turns them into
  core events: decoding of the raw attribute payloads, the Tuya route, the results of interview,
  binding and reporting, and the identification of a device from its attributes. A payload is an
  option, \<open>None\<close> for a null pointer, and is only read below its length. The clock of the platform and
  the two calls into the radio driver are parameters.
\<close>

record RawAttributeReport =
  ra_short_addr :: u16
  ra_endpoint :: u8
  ra_cluster_id :: u16
  ra_attribute_id :: u16
  ra_zcl_data_type :: u8
  ra_has_lqi :: bool
  ra_lqi :: u8
  ra_has_rssi :: bool
  ra_rssi_dbm :: u8
  ra_payload :: "u8 list option"
  ra_payload_len :: u8

section \<open>Decoding\<close>

definition le16 :: "u8 \<Rightarrow> u8 \<Rightarrow> u16" where
  "le16 lo hi = ucast lo OR push_bit 8 (ucast hi)"

definition decode_raw_u32_le :: "RawAttributeReport \<Rightarrow> u32 option" where
  "decode_raw_u32_le r =
     (if ra_payload_len r = 0 then Some 0
      else case ra_payload r of
             None \<Rightarrow> None
           | Some p \<Rightarrow>
               if ra_payload_len r > 4 then None
               else Some (foldl (\<lambda>v i. v OR push_bit (8 * i) (ucast (p ! i))) 0 [0..<unat (ra_payload_len r)]))"

text \<open>The value and whether it is valid.\<close>

definition decode_temperature_centi_c :: "RawAttributeReport \<Rightarrow> (u16 \<times> bool) option" where
  "decode_temperature_centi_c r =
     (case ra_payload r of
        None \<Rightarrow> None
      | Some p \<Rightarrow>
          if ra_payload_len r \<noteq> 2 then None
          else let raw = le16 (p ! 0) (p ! 1)
               in if raw = 0x8000 then Some (0, False) else Some (raw, True))"

definition decode_ias_zone_status :: "RawAttributeReport \<Rightarrow> u32 option" where
  "decode_ias_zone_status r =
     (case ra_payload r of
        None \<Rightarrow> None
      | Some p \<Rightarrow>
          if ra_payload_len r \<noteq> 2 then None
          else let zone_status = le16 (p ! 0) (p ! 1)
               in Some ((if bit zone_status 0 then 1 else 0) OR (if bit zone_status 2 then 2 else 0) OR
                        (if bit zone_status 3 then 4 else 0)))"

definition decode_battery_percent :: "RawAttributeReport \<Rightarrow> (u32 \<times> bool) option" where
  "decode_battery_percent r =
     (case ra_payload r of
        None \<Rightarrow> None
      | Some p \<Rightarrow>
          if ra_payload_len r \<noteq> 1 then None
          else let raw = p ! 0
               in if raw = 0xFF then Some (0, False)
                  else let percent = (ucast raw :: u32) div 2
                       in Some (if percent > 100 then 100 else percent, True))"

definition decode_battery_voltage_mv :: "RawAttributeReport \<Rightarrow> (u32 \<times> bool) option" where
  "decode_battery_voltage_mv r =
     (case ra_payload r of
        None \<Rightarrow> None
      | Some p \<Rightarrow>
          if ra_payload_len r \<noteq> 1 then None
          else let raw = p ! 0
               in if raw = 0xFF then Some (0, False) else Some ((ucast raw :: u32) * 100, True))"

section \<open>Events\<close>

definition monotonic_now_ms :: "u32 \<Rightarrow> ServiceRuntime \<Rightarrow> u32" where
  "monotonic_now_ms clock rt = (if rt_last_tick_ms rt \<noteq> 0 then rt_last_tick_ms rt else clock)"

definition telemetry_event :: "u16 \<Rightarrow> u32 \<Rightarrow> CoreTelemetryKind \<Rightarrow> u32 \<Rightarrow> bool \<Rightarrow> CoreEvent" where
  "telemetry_event a now_ms kind v ok =
     core_event_default\<lparr>ev_type := kDeviceTelemetryUpdated, ev_device_short_addr := a, ev_value_u32 := now_ms,
       ev_telemetry_kind := kind, ev_telemetry_i32 := v, ev_telemetry_valid := ok\<rparr>"

definition attribute_event :: "u16 \<Rightarrow> u16 \<Rightarrow> u16 \<Rightarrow> u32 \<Rightarrow> CoreEvent" where
  "attribute_event a cluster attr v =
     core_event_default\<lparr>ev_type := kAttributeReported, ev_device_short_addr := a, ev_cluster_id := cluster,
       ev_attribute_id := attr, ev_value_u32 := v, ev_value_bool := (v \<noteq> 0)\<rparr>"

definition bad_addr :: "u16 \<Rightarrow> bool" where
  "bad_addr a \<longleftrightarrow> a = kUnknownDeviceShortAddr \<or> a = 0"

section \<open>The Tuya route\<close>

definition report_view :: "RawAttributeReport \<Rightarrow> TuyaPayloadView" where
  "report_view r = \<lparr>pv_short_addr = ra_short_addr r, pv_endpoint = ra_endpoint r,
     pv_cluster_id = ra_cluster_id r, pv_data = ra_payload r, pv_data_len = ra_payload_len r\<rparr>"

text \<open>The fingerprint of a resolved device; an unresolved one has neither manufacturer nor model.\<close>

definition report_fingerprint :: "u16 \<Rightarrow> u8 \<Rightarrow> ServiceRuntime \<Rightarrow> TuyaFingerprint" where
  "report_fingerprint a endpoint rt =
     (case descriptor_entry a (rt_descriptors rt) of
        None \<Rightarrow> \<lparr>fp_manufacturer = None, fp_model = None, fp_endpoint = endpoint\<rparr>
      | Some e \<Rightarrow>
          if dd_status e = kDescriptorResolved
          then \<lparr>fp_manufacturer = Some (cstr (dd_manufacturer e)), fp_model = Some (cstr (dd_model e)),
                fp_endpoint = endpoint\<rparr>
          else \<lparr>fp_manufacturer = None, fp_model = None, fp_endpoint = endpoint\<rparr>)"

definition output_event :: "u16 \<Rightarrow> u32 \<Rightarrow> TuyaNormalizedOutput \<Rightarrow> CoreEvent option" where
  "output_event a now_ms out =
     (let event = telemetry_event a now_ms kTelemetryNone 0 (no_valid out)
      in case no_kind out of
           kNormTemperatureCentiC \<Rightarrow>
             Some (event\<lparr>ev_telemetry_kind := kTemperatureCentiC, ev_telemetry_i32 := no_value out\<rparr>)
         | kNormContactOpen \<Rightarrow>
             Some (event\<lparr>ev_telemetry_kind := kContactIasZoneStatus,
                     ev_telemetry_i32 := (if no_value out \<noteq> 0 then 1 else 0)\<rparr>)
         | kNormOccupancy \<Rightarrow>
             Some (event\<lparr>ev_telemetry_kind := kOccupancy, ev_telemetry_i32 := no_value out\<rparr>)
         | kNormBatteryPercent \<Rightarrow>
             Some (event\<lparr>ev_telemetry_kind := kBatteryPercent, ev_telemetry_i32 := no_value out\<rparr>)
         | kNormPowerOn \<Rightarrow>
             Some (event\<lparr>ev_type := kAttributeReported, ev_cluster_id := 0x0006, ev_attribute_id := 0x0000,
                     ev_value_u32 := (if no_value out \<noteq> 0 then 1 else 0), ev_value_bool := (no_value out \<noteq> 0)\<rparr>)
         | kNormNone \<Rightarrow> None)"

fun push_outputs :: "u16 \<Rightarrow> u32 \<Rightarrow> TuyaNormalizedOutput list \<Rightarrow> ServiceRuntime \<Rightarrow> bool \<times> ServiceRuntime" where
  "push_outputs a now_ms [] rt = (True, rt)"
| "push_outputs a now_ms (out # outs) rt =
     (case output_event a now_ms out of
        None \<Rightarrow> push_outputs a now_ms outs rt
      | Some e \<Rightarrow>
          (case push_event e rt of
             (False, rt1) \<Rightarrow> (False, rt1)
           | (True, rt1) \<Rightarrow> push_outputs a now_ms outs rt1))"

definition try_tuya_translate :: "RawAttributeReport \<Rightarrow> u32 \<Rightarrow> ServiceRuntime \<Rightarrow> bool \<times> ServiceRuntime" where
  "try_tuya_translate r now_ms rt =
     (let tr = translate (report_view r) (report_fingerprint (ra_short_addr r) (ra_endpoint r) rt)
      in if \<not> tt_routed tr then (False, rt)
         else if \<not> tt_plugin_found tr \<or> \<not> pr_handled (tt_plugin_result tr) then (True, rt)
         else push_outputs (ra_short_addr r) now_ms
                (take (pr_output_count (tt_plugin_result tr)) (pr_outputs (tt_plugin_result tr))) rt)"

section \<open>Raw attribute reports\<close>

text \<open>The part after the link quality: one event of the cluster and attribute, or none.\<close>

definition post_measurement :: "RawAttributeReport \<Rightarrow> u32 \<Rightarrow> ServiceRuntime \<Rightarrow> bool \<times> ServiceRuntime" where
  "post_measurement r now_ms rt =
     (let a = ra_short_addr r; cluster = ra_cluster_id r; attr = ra_attribute_id r
      in if cluster = kTuyaPrivateClusterId then try_tuya_translate r now_ms rt
         else if cluster = 0x0402 \<and> attr = 0x0000
         then (case decode_temperature_centi_c r of
                 None \<Rightarrow> (False, rt)
               | Some (v, ok) \<Rightarrow> push_event (telemetry_event a now_ms kTemperatureCentiC (scast v) ok) rt)
         else if cluster = 0x0500 \<and> attr = 0x0002
         then (case decode_ias_zone_status r of
                 None \<Rightarrow> (False, rt)
               | Some v \<Rightarrow> push_event (telemetry_event a now_ms kContactIasZoneStatus v True) rt)
         else if cluster = 0x0001 \<and> attr = 0x0021
         then (case decode_battery_percent r of
                 None \<Rightarrow> (False, rt)
               | Some (v, ok) \<Rightarrow> push_event (telemetry_event a now_ms kBatteryPercent v ok) rt)
         else if cluster = 0x0001 \<and> attr = 0x0020
         then (case decode_battery_voltage_mv r of
                 None \<Rightarrow> (False, rt)
               | Some (v, ok) \<Rightarrow> push_event (telemetry_event a now_ms kBatteryVoltageMilliV v ok) rt)
         else (case decode_raw_u32_le r of
                 None \<Rightarrow> (False, rt)
               | Some v \<Rightarrow> push_event (attribute_event a cluster attr v) rt))"

definition post_zigbee_attribute_report_raw ::
  "u32 \<Rightarrow> RawAttributeReport \<Rightarrow> ServiceRuntime \<Rightarrow> bool \<times> ServiceRuntime" where
  "post_zigbee_attribute_report_raw clock r rt =
     (if bad_addr (ra_short_addr r) then (False, rt)
      else
        let now_ms = monotonic_now_ms clock rt; a = ra_short_addr r
        in (case (if ra_has_lqi r then push_event (telemetry_event a now_ms kLqi (ucast (ra_lqi r)) True) rt
                  else (True, rt)) of
              (False, rt1) \<Rightarrow> (False, rt1)
            | (True, rt1) \<Rightarrow>
                (case (if ra_has_rssi r
                       then push_event (telemetry_event a now_ms kRssiDbm (scast (ra_rssi_dbm r)) True) rt1
                       else (True, rt1)) of
                   (False, rt2) \<Rightarrow> (False, rt2)
                 | (True, rt2) \<Rightarrow> post_measurement r now_ms rt2)))"

section \<open>Interview, binding, reporting\<close>

type_synonym hal_read = "u32 \<Rightarrow> u16 \<Rightarrow> u8 \<Rightarrow> u16 \<Rightarrow> u16 \<Rightarrow> bool"

definition kBasicClusterId :: u16 where "kBasicClusterId = 0x0000"
definition kManufacturerNameAttrId :: u16 where "kManufacturerNameAttrId = 0x0004"
definition kModelIdentifierAttrId :: u16 where "kModelIdentifierAttrId = 0x0005"

text \<open>
  \<open>hal_read\<close> stands for \<^verbatim>\<open>hal_zigbee_request_read_attribute\<close>: whether the driver took the request. The
  two request ids come from the result store.
\<close>

definition request_device_identity_read ::
  "hal_read \<Rightarrow> u16 \<Rightarrow> ServiceRuntime \<Rightarrow> ('c, 'n, 'o, 'r) ResultStore \<Rightarrow>
   ServiceRuntime \<times> ('c, 'n, 'o, 'r) ResultStore" where
  "request_device_identity_read hal_read a rt rs =
     (let ds1 = snd (mark_pending a (rt_descriptors rt));
          (corr_mfr, rs1) = next_request_id rs;
          (corr_model, rs2) = next_request_id rs1;
          mfr_ok = hal_read corr_mfr a 1 kBasicClusterId kManufacturerNameAttrId;
          model_ok = hal_read corr_model a 1 kBasicClusterId kModelIdentifierAttrId;
          ds2 = (if \<not> mfr_ok \<and> \<not> model_ok then snd (mark_failed a ds1) else ds1)
      in (rt\<lparr>rt_descriptors := ds2\<rparr>, rs2))"

definition post_zigbee_interview_result ::
  "hal_read \<Rightarrow> u16 \<Rightarrow> bool \<Rightarrow> ServiceRuntime \<Rightarrow> ('c, 'n, 'o, 'r) ResultStore \<Rightarrow>
   bool \<times> ServiceRuntime \<times> ('c, 'n, 'o, 'r) ResultStore" where
  "post_zigbee_interview_result hal_read a success rt rs =
     (if bad_addr a \<or> \<not> success then (False, rt, rs)
      else
        let (rt1, rs1) = request_device_identity_read hal_read a rt rs;
            (ok, rt2) = push_event (core_event_default\<lparr>ev_type := kDeviceInterviewCompleted,
                                      ev_device_short_addr := a\<rparr>) rt1
        in (ok, rt2, rs1))"

text \<open>Binding and reporting differ in the event only.\<close>

definition post_step_result :: "CoreEventType \<Rightarrow> u16 \<Rightarrow> bool \<Rightarrow> ServiceRuntime \<Rightarrow> bool \<times> ServiceRuntime" where
  "post_step_result type a success rt =
     (if bad_addr a \<or> \<not> success then (False, rt)
      else push_event (core_event_default\<lparr>ev_type := type, ev_device_short_addr := a\<rparr>) rt)"

definition post_zigbee_bind_result :: "u16 \<Rightarrow> bool \<Rightarrow> ServiceRuntime \<Rightarrow> bool \<times> ServiceRuntime" where
  "post_zigbee_bind_result = post_step_result kDeviceBindingReady"

definition post_zigbee_configure_reporting_result :: "u16 \<Rightarrow> bool \<Rightarrow> ServiceRuntime \<Rightarrow> bool \<times> ServiceRuntime" where
  "post_zigbee_configure_reporting_result = post_step_result kDeviceReportingConfigured"

section \<open>Identification\<close>

definition maybe_start_tuya_init :: "u16 \<Rightarrow> ServiceRuntime \<Rightarrow> ServiceRuntime" where
  "maybe_start_tuya_init a rt =
     (if init_status a (rt_tuya_init rt) \<noteq> kInitNotStarted then rt
      else (case descriptor_entry a (rt_descriptors rt) of
              None \<Rightarrow> rt
            | Some e \<Rightarrow>
                if dd_status e \<noteq> kDescriptorResolved then rt
                else
                  let fp = \<lparr>fp_manufacturer = Some (cstr (dd_manufacturer e)), fp_model = Some (cstr (dd_model e)),
                            fp_endpoint = 1\<rparr>
                  in if \<not> has_plugin fp then rt
                     else rt\<lparr>rt_tuya_init := notify_device_resolved a (get_init_plan fp) (rt_tuya_init rt)\<rparr>))"

record ReadAttributeResult =
  rd_short_addr :: u16
  rd_endpoint :: u8
  rd_cluster_id :: u16
  rd_attribute_id :: u16
  rd_success :: bool
  rd_value :: "u8 list option"
  rd_value_len :: u8

text \<open>The characters of the attribute: its first byte is the length, cut to what is there.\<close>

definition zcl_text_len :: "u8 list \<Rightarrow> u8 \<Rightarrow> nat" where
  "zcl_text_len octets value_len =
     (let available = (if value_len > 1 then unat value_len - 1 else 0)
      in if unat (octets ! 0) \<le> available then unat (octets ! 0) else available)"

definition byte_text :: "u8 list \<Rightarrow> string" where
  "byte_text octets = map (\<lambda>b. char_of (unat b)) (drop 1 octets)"

definition post_zigbee_read_attribute_result ::
  "ReadAttributeResult \<Rightarrow> ServiceRuntime \<Rightarrow> bool \<times> ServiceRuntime" where
  "post_zigbee_read_attribute_result r rt =
     (let a = rd_short_addr r
      in if bad_addr a then (False, rt)
         else if rd_cluster_id r \<noteq> kBasicClusterId then (True, rt)
         else case rd_value r of
                None \<Rightarrow> (True, rt)
              | Some octets \<Rightarrow>
                  if \<not> rd_success r \<or> rd_value_len r = 0 then (True, rt)
                  else
                    let len = zcl_text_len octets (rd_value_len r);
                        ds = rt_descriptors rt;
                        ds1 = (if rd_attribute_id r = kManufacturerNameAttrId
                               then snd (store_manufacturer a (Some (byte_text octets)) len ds)
                               else if rd_attribute_id r = kModelIdentifierAttrId
                               then snd (store_model a (Some (byte_text octets)) len ds)
                               else ds)
                    in (True, maybe_start_tuya_init a (rt\<lparr>rt_descriptors := ds1\<rparr>)))"

section \<open>Switching a Tuya device\<close>

text \<open>
  \<open>hal_send\<close> stands for \<^verbatim>\<open>hal_zigbee_send_tuya_dp\<close> on correlation id, address and data point: whether the
  driver took it. The result is the answer of the driver and whether the effect was routed here.
\<close>

definition try_execute_tuya_on_off ::
  "(u32 \<Rightarrow> u16 \<Rightarrow> TuyaDpCommand \<Rightarrow> bool) \<Rightarrow> CoreEffect \<Rightarrow> ServiceRuntime \<Rightarrow> bool \<times> bool" where
  "try_execute_tuya_on_off hal_send effect rt =
     (case descriptor_entry (ef_device_short_addr effect) (rt_descriptors rt) of
        None \<Rightarrow> (False, False)
      | Some e \<Rightarrow>
          if dd_status e \<noteq> kDescriptorResolved then (False, False)
          else
            let fp = \<lparr>fp_manufacturer = Some (cstr (dd_manufacturer e)), fp_model = Some (cstr (dd_model e)),
                      fp_endpoint = 1\<rparr>;
                enc = encode_command fp \<lparr>tc_kind = kNormPowerOn, tc_value = (if ef_arg_bool effect then 1 else 0)\<rparr>
            in if \<not> te_plugin_found enc \<or> \<not> tk_supported (te_dp_command enc) then (False, False)
               else (hal_send (ef_correlation_id effect) (ef_device_short_addr effect) (te_dp_command enc), True))"
section \<open>From the radio to the device record\<close>

text \<open>The four reports of measurements, with a payload of the right length.\<close>

definition measurement_report :: "RawAttributeReport \<Rightarrow> bool" where
  "measurement_report r \<longleftrightarrow> ra_payload r \<noteq> None \<and>
     (ra_cluster_id r = 0x0402 \<and> ra_attribute_id r = 0x0000 \<and> ra_payload_len r = 2 \<or>
      ra_cluster_id r = 0x0500 \<and> ra_attribute_id r = 0x0002 \<and> ra_payload_len r = 2 \<or>
      ra_cluster_id r = 0x0001 \<and> (ra_attribute_id r = 0x0021 \<or> ra_attribute_id r = 0x0020) \<and> ra_payload_len r = 1)"

lemma le16_value: "le16 lo hi = of_nat (unat lo + 256 * unat hi)"
proof -
  have "le16 lo hi = ucast lo + push_bit 8 (ucast hi)"
    unfolding le16_def
    by (rule disjunctive_add_eq_or [symmetric], rule bit_eqI)
      (auto simp: bit_and_iff bit_push_bit_iff bit_ucast_iff dest: bit_imp_le_length)
  also have "\<dots> = of_nat (unat lo + 256 * unat hi)"
    by (simp add: push_bit_eq_mult)
  finally show ?thesis .
qed

text \<open>What the device record must hold afterwards, read off the bytes of the payload.\<close>

definition measurement_stored :: "RawAttributeReport \<Rightarrow> CoreDeviceRecord \<Rightarrow> bool" where
  "measurement_stored r d \<longleftrightarrow>
     (let p = the (ra_payload r); raw16 = of_nat (unat (p ! 0) + 256 * unat (p ! 1)); raw8 = p ! 0
      in if ra_cluster_id r = 0x0402
         then if raw16 = 0x8000 then \<not> dr_has_temperature d
              else dr_has_temperature d \<and> dr_temperature_centi_c d = raw16
         else if ra_cluster_id r = 0x0500
         then dr_contact_state d = (if bit raw16 0 then kOpen else kClosed) \<and>
              dr_contact_tamper d = bit raw16 2 \<and> dr_contact_battery_low d = bit raw16 3
         else if ra_attribute_id r = 0x0021
         then if raw8 = 0xFF then \<not> dr_has_battery d
              else dr_has_battery d \<and> uint (dr_battery_percent d) = min 100 (uint raw8 div 2)
         else if raw8 = 0xFF then \<not> dr_has_battery_voltage d
              else dr_has_battery_voltage d \<and> uint (dr_battery_voltage_mv d) = uint raw8 * 100)"

definition link_events :: "RawAttributeReport \<Rightarrow> u32 \<Rightarrow> CoreEvent list" where
  "link_events r now =
     (if ra_has_lqi r then [telemetry_event (ra_short_addr r) now kLqi (ucast (ra_lqi r)) True] else []) @
     (if ra_has_rssi r then [telemetry_event (ra_short_addr r) now kRssiDbm (scast (ra_rssi_dbm r)) True] else [])"

definition measurement_event :: "RawAttributeReport \<Rightarrow> u32 \<Rightarrow> CoreEvent" where
  "measurement_event r now =
     (let a = ra_short_addr r
      in if ra_cluster_id r = 0x0402
         then (case the (decode_temperature_centi_c r) of (v, ok) \<Rightarrow> telemetry_event a now kTemperatureCentiC (scast v) ok)
         else if ra_cluster_id r = 0x0500
         then telemetry_event a now kContactIasZoneStatus (the (decode_ias_zone_status r)) True
         else if ra_attribute_id r = 0x0021
         then (case the (decode_battery_percent r) of (v, ok) \<Rightarrow> telemetry_event a now kBatteryPercent v ok)
         else (case the (decode_battery_voltage_mv r) of (v, ok) \<Rightarrow> telemetry_event a now kBatteryVoltageMilliV v ok))"

lemma post_measurement_eq:
  "measurement_report r \<Longrightarrow> post_measurement r now rt = push_event (measurement_event r now) rt"
  by (auto simp: measurement_report_def post_measurement_def measurement_event_def kTuyaPrivateClusterId_def
      decode_temperature_centi_c_def decode_ias_zone_status_def decode_battery_percent_def
      decode_battery_voltage_mv_def Let_def split: option.split)

lemma push_event_room_eq:
  assumes "runtime_queue_ok rt" "length (queued rt) < kEventQueueCapacity"
  obtains rt1 where "push_event e rt = (True, rt1)" "runtime_queue_ok rt1" "queued rt1 = queued rt @ [e]"
proof -
  have "fst (push_event e rt)"
    using assms by (rule_tac push_event_cases[OF assms(1), of e]) simp_all
  then show thesis
    using that[of "snd (push_event e rt)"] push_event_ok[OF assms(1), of e] queued_push[OF assms(1), of e]
    by (cases "push_event e rt") simp
qed

lemma report_events:
  assumes q: "runtime_queue_ok rt" and room: "length (queued rt) + 3 \<le> kEventQueueCapacity"
    and r: "measurement_report r" "\<not> bad_addr (ra_short_addr r)"
  shows "fst (post_zigbee_attribute_report_raw clock r rt)"
    and "queued (snd (post_zigbee_attribute_report_raw clock r rt)) =
      queued rt @ link_events r (monotonic_now_ms clock rt) @ [measurement_event r (monotonic_now_ms clock rt)]"
proof -
  let ?n = "monotonic_now_ms clock rt" and ?a = "ra_short_addr r"
  let ?l = "telemetry_event ?a ?n kLqi (ucast (ra_lqi r)) True"
  let ?s = "telemetry_event ?a ?n kRssiDbm (scast (ra_rssi_dbm r)) True"
  let ?m = "measurement_event r ?n"
  obtain rt1 where 1: "(if ra_has_lqi r then push_event ?l rt else (True, rt)) = (True, rt1)" "runtime_queue_ok rt1"
    "queued rt1 = queued rt @ (if ra_has_lqi r then [?l] else [])"
    using q room by (cases "ra_has_lqi r") (auto intro: push_event_room_eq[of rt ?l])
  obtain rt2 where 2: "(if ra_has_rssi r then push_event ?s rt1 else (True, rt1)) = (True, rt2)" "runtime_queue_ok rt2"
    "queued rt2 = queued rt @ link_events r ?n"
  proof (cases "ra_has_rssi r")
    case True
    have "length (queued rt1) < kEventQueueCapacity" using 1(3) room by simp
    then obtain rt2 where "push_event ?s rt1 = (True, rt2)" "runtime_queue_ok rt2" "queued rt2 = queued rt1 @ [?s]"
      by (rule push_event_room_eq[OF 1(2)])
    then show thesis using that[of rt2] 1(3) True by (simp add: link_events_def)
  qed (use that[of rt1] 1 in \<open>simp add: link_events_def\<close>)
  have "length (queued rt2) < kEventQueueCapacity" using 2(3) room by (simp add: link_events_def)
  then obtain rt3 where 3: "push_event ?m rt2 = (True, rt3)" "queued rt3 = queued rt2 @ [?m]"
    by (rule push_event_room_eq[OF 2(2)])
  have "post_zigbee_attribute_report_raw clock r rt = (True, rt3)"
    using r 1(1) 2(1) 3(1) by (simp add: post_zigbee_attribute_report_raw_def Let_def post_measurement_eq)
  then show "fst (post_zigbee_attribute_report_raw clock r rt)"
    "queued (snd (post_zigbee_attribute_report_raw clock r rt)) = queued rt @ link_events r ?n @ [?m]"
    using 2(3) 3(2) by simp_all
qed

lemma telemetry_event_key:
  "\<not> bad_addr a \<Longrightarrow> event_key (telemetry_event a n k v ok) = Some (Inr a)"
  by (simp add: telemetry_event_def event_key_def core_event_default_def not_valid_default bad_addr_def)

lemma telemetry_step:
  assumes "core_inv s" "devices_of s (Inr a) = Some d" "\<not> bad_addr a" "e = telemetry_event a n k v ok"
  shows "core_inv (core_step s e)" and "devices_of (core_step s e) (Inr a) = Some (record_event e d)"
proof -
  show "core_inv (core_step s e)" using core_step_inv[OF assms(1)] .
  have "ev_type e = kDeviceTelemetryUpdated" by (simp add: assms(4) telemetry_event_def)
  then show "devices_of (core_step s e) (Inr a) = Some (record_event e d)"
    using core_step_refines_directory_aux[OF assms(1), of e] assms(2) telemetry_event_key[OF assms(3)]
    by (simp add: directory_step_def assms(4))
qed

lemma telemetry_run:
  assumes "core_inv s" "devices_of s (Inr a) = Some d" "\<not> bad_addr a"
    and "\<forall>e \<in> set es. \<exists>n k v ok. e = telemetry_event a n k v ok"
  shows "devices_of (core_run s es) (Inr a) = Some (foldl (\<lambda>d e. record_event e d) d es)"
  using assms
proof (induction es arbitrary: s d)
  case (Cons e es)
  from Cons.prems(4) obtain n k v ok where e: "e = telemetry_event a n k v ok" by auto
  note s = telemetry_step[OF Cons.prems(1-3) e]
  show ?case using Cons.IH[OF s Cons.prems(3)] Cons.prems(4) by (simp add: core_run_def)
qed (simp add: core_run_def)

lemma clamp_lqi: "clamp_i32 0 255 (ucast (w :: u8) :: u32) = w"
proof -
  have b: "uint w < 256" using uint_lt2p[of w] by simp
  then have s: "sint (ucast w :: u32) = uint w"
    by (simp add: sint_uint uint_up_ucast is_up signed_take_bit_eq_if_positive bit_iff_odd take_bit_int_eq_self)
  have u: "ucast (ucast w :: u32) = w" by (rule bit_word_eqI) (auto simp: bit_ucast_iff)
  show ?thesis using b by (auto simp: clamp_i32_def s u word_uint_eq_iff)
qed

lemma scast_down: "ucast (scast (w :: 'a::len word) :: 'b::len word) = w" if "LENGTH('a) \<le> LENGTH('b)"
  using that by (intro bit_word_eqI) (auto simp: bit_ucast_iff bit_signed_iff dest: bit_imp_le_length)

lemma clamp_rssi: "clamp_i32 (-128) 127 (scast (w :: u8) :: u32) = w"
proof -
  have s: "sint (scast w :: u32) = sint w" by (rule sint_up_scast) (simp add: is_up)
  have b: "-128 \<le> sint w" "sint w \<le> 127" using sint_ge[of w] sint_lt[of w] by simp_all
  have "ucast (scast w :: u32) = w" by (rule scast_down) simp
  then show ?thesis using b
    by (auto simp: clamp_i32_def s intro!: signed_word_eqI)
qed

lemma link_record:
  assumes "d' = foldl (\<lambda>d e. record_event e d) d (link_events r now)"
  shows "ra_has_lqi r \<Longrightarrow> dr_has_lqi d' \<and> dr_lqi d' = ra_lqi r"
    and "ra_has_rssi r \<Longrightarrow> dr_has_rssi d' \<and> dr_rssi_dbm d' = ra_rssi_dbm r"
  unfolding assms
  by (auto simp: link_events_def record_event_def telemetry_event_def telemetry_kind_update_def
      telemetry_lqi_def telemetry_rssi_def clamp_lqi clamp_rssi Let_def)

lemma ias_bits:
  "((if a then 1 else 0) OR (if b then 2 else 0) OR (if c then 4 else 0)) AND 1 \<noteq> (0 :: u32) \<longleftrightarrow> a"
  "((if a then 1 else 0) OR (if b then 2 else 0) OR (if c then 4 else 0)) AND 2 \<noteq> (0 :: u32) \<longleftrightarrow> b"
  "((if a then 1 else 0) OR (if b then 2 else 0) OR (if c then 4 else 0)) AND 4 \<noteq> (0 :: u32) \<longleftrightarrow> c"
  by (cases a; cases b; cases c; simp)+

lemma uint_clamp_small:
  fixes v :: u32
  assumes "uint v \<le> n" "n < 2 ^ 31" "0 < n" "n < 2 ^ LENGTH('a)"
  shows "uint (clamp_i32 0 n v :: 'a::len word) = uint v"
proof -
  have "uint v < 2 ^ 31" using assms(1,2) by linarith
  then have s: "sint v = uint v"
    by (simp add: sint_uint signed_take_bit_eq_if_positive bit_iff_odd take_bit_int_eq_self)
  have "uint (ucast v :: 'a word) = uint v"
    using assms(1,4) by (simp add: unsigned_ucast_eq unsigned_take_bit_eq take_bit_int_eq_self)
  moreover have "uint (word_of_int n :: 'a word) = n" using assms(3,4) by (simp add: uint_word_of_int)
  ultimately show ?thesis using assms(1) uint_ge_0[of v] by (auto simp: clamp_i32_def s)
qed

lemma uint_small: "uint (ucast (w :: u8) :: u32) = uint w"
  by (rule uint_up_ucast) (simp add: is_up)

lemma uint_percent:
  fixes w :: u8
  shows "uint (clamp_i32 0 100 (if (ucast w :: u32) div 2 > 100 then 100 else ucast w div 2) :: u8) = min 100 (uint w div 2)"
proof -
  have d: "uint ((ucast w :: u32) div 2) = uint w div 2" by (simp add: uint_div uint_small)
  show ?thesis
  proof (cases "(ucast w :: u32) div 2 > 100")
    case True
    then have "100 < uint w div 2" by (simp add: word_less_def d)
    then show ?thesis using True by (simp add: uint_clamp_small)
  next
    case False
    then have "uint w div 2 \<le> 100" by (simp add: word_less_def d not_less)
    then show ?thesis using False by (simp add: uint_clamp_small d)
  qed
qed

lemma uint_voltage:
  fixes w :: u8
  shows "uint (clamp_i32 0 65535 ((ucast w :: u32) * 100) :: u16) = uint w * 100"
proof -
  have b: "uint w < 256" using uint_lt2p[of w] by simp
  then have "uint ((ucast w :: u32) * 100) = uint w * 100"
    by (simp add: uint_word_ariths uint_small)
  then show ?thesis using b by (simp add: uint_clamp_small)
qed
lemma ucast_scast16: "ucast (scast (w :: u16) :: u32) = w"
  by (rule scast_down) simp

lemma measurement_record:
  assumes r: "measurement_report r"
  shows "measurement_stored r (record_event (measurement_event r now) d)"
proof -
  obtain p where p: "ra_payload r = Some p" using r by (auto simp: measurement_report_def)
  from r consider "ra_cluster_id r = 0x0402" "ra_attribute_id r = 0" "ra_payload_len r = 2"
    | "ra_cluster_id r = 0x0500" "ra_attribute_id r = 2" "ra_payload_len r = 2"
    | "ra_cluster_id r = 1" "ra_attribute_id r = 0x0021" "ra_payload_len r = 1"
    | "ra_cluster_id r = 1" "ra_attribute_id r = 0x0020" "ra_payload_len r = 1"
    by (auto simp: measurement_report_def)
  then show ?thesis
  proof cases
    case 1
    then show ?thesis
      unfolding measurement_stored_def p Let_def option.sel le16_value [symmetric]
      by (cases "le16 (p ! 0) (p ! 1) = 0x8000")
        (simp_all add: measurement_event_def p decode_temperature_centi_c_def
          record_event_def telemetry_event_def telemetry_kind_update_def telemetry_temperature_def ucast_scast16 Let_def)
  next
    case 2
    then show ?thesis
      unfolding measurement_stored_def p Let_def option.sel le16_value [symmetric]
      by (simp add: measurement_event_def p decode_ias_zone_status_def ias_bits
          record_event_def telemetry_event_def telemetry_kind_update_def telemetry_contact_def Let_def)
  next
    case 3
    then show ?thesis
      by (cases "p ! 0 = 0xFF")
        (simp_all add: measurement_stored_def measurement_event_def p decode_battery_percent_def uint_percent
          record_event_def telemetry_event_def telemetry_kind_update_def telemetry_battery_percent_def Let_def)
  next
    case 4
    then show ?thesis
      by (cases "p ! 0 = 0xFF")
        (simp_all add: measurement_stored_def measurement_event_def p decode_battery_voltage_mv_def uint_voltage
          record_event_def telemetry_event_def telemetry_kind_update_def telemetry_battery_voltage_def Let_def)
  qed
qed

lemma measurement_event_form: "\<exists>k v ok. measurement_event r now = telemetry_event (ra_short_addr r) now k v ok"
  unfolding measurement_event_def Let_def by (auto split: prod.split)

lemma measurement_keeps_link:
  assumes "measurement_report r"
  shows "dr_has_lqi (record_event (measurement_event r now) d) = dr_has_lqi d \<and>
    dr_lqi (record_event (measurement_event r now) d) = dr_lqi d \<and>
    dr_has_rssi (record_event (measurement_event r now) d) = dr_has_rssi d \<and>
    dr_rssi_dbm (record_event (measurement_event r now) d) = dr_rssi_dbm d"
proof -
  have "ev_telemetry_kind (measurement_event r now) \<noteq> kLqi \<and> ev_telemetry_kind (measurement_event r now) \<noteq> kRssiDbm \<and>
      ev_type (measurement_event r now) = kDeviceTelemetryUpdated"
    unfolding measurement_event_def Let_def by (auto simp: telemetry_event_def split: prod.split)
  then show ?thesis
    by (cases "ev_telemetry_kind (measurement_event r now)")
      (auto simp: record_event_def telemetry_kind_update_def telemetry_defs Let_def)
qed

lemma stored_aux:
  assumes inv: "core_inv s" and d: "devices_of s (Inr (ra_short_addr r)) = Some d"
    and q: "runtime_queue_ok rt" "length (queued rt) + 3 \<le> kEventQueueCapacity"
    and r: "measurement_report r" "\<not> bad_addr (ra_short_addr r)"
    and p: "post_zigbee_attribute_report_raw clock r rt = (ok, rt')"
  shows "ok \<and> (\<exists>es d'. queued rt' = queued rt @ es \<and>
    devices_of (core_run s es) (Inr (ra_short_addr r)) = Some d' \<and> measurement_stored r d' \<and>
    refresh_fields d' = (kReportingActive, False, monotonic_now_ms clock rt) \<and>
    (ra_has_lqi r \<longrightarrow> dr_has_lqi d' \<and> dr_lqi d' = ra_lqi r) \<and>
    (ra_has_rssi r \<longrightarrow> dr_has_rssi d' \<and> dr_rssi_dbm d' = ra_rssi_dbm r))"
proof -
  let ?n = "monotonic_now_ms clock rt" and ?a = "ra_short_addr r"
  let ?es = "link_events r ?n @ [measurement_event r ?n]"
  note ev = report_events[OF q r, of clock, unfolded p fst_conv snd_conv]
  define dl where "dl = foldl (\<lambda>d e. record_event e d) d (link_events r ?n)"
  have forms: "\<forall>e \<in> set ?es. \<exists>n k v ok. e = telemetry_event ?a n k v ok"
    using measurement_event_form[of r ?n] by (auto simp: link_events_def)
  have run: "devices_of (core_run s ?es) (Inr ?a) = Some (record_event (measurement_event r ?n) dl)"
    using telemetry_run[OF inv d r(2) forms] by (simp add: dl_def)
  have "refresh_fields (record_event (measurement_event r ?n) dl) = (kReportingActive, False, ?n)"
    using measurement_event_form[of r ?n] telemetry_kind_refresh_fields
    by (auto simp: record_event_def telemetry_event_def refresh_fields_def)
  then show ?thesis
    using ev run measurement_record[OF r(1)] measurement_keeps_link[OF r(1), of ?n dl] link_record[OF dl_def]
    by (intro conjI exI[of _ ?es] exI[of _ "record_event (measurement_event r ?n) dl"]) auto
qed

section \<open>Properties\<close>

text \<open>
  C21: a measurement arrives in the device record as it was sent. When a device that the core knows by
  its short address reports a temperature, a contact zone, a battery percentage or a supply voltage
  and the event queue has room for three events, the runtime accepts the report, and once the core
  has handled the events it queued, the record holds exactly the measured value, read off the bytes of
  the payload (an invalid temperature or battery value clears its flag instead), the link quality and
  signal strength if they were sent, and the device counts as actively reporting at this moment.
\<close>

theorem measurement_reaches_the_device_record:
  assumes inv: "core_inv s" and d: "devices_of s (Inr (ra_short_addr r)) = Some d"
    and q: "runtime_queue_ok rt" "length (queued rt) + 3 \<le> kEventQueueCapacity"
    and r: "measurement_report r" "\<not> bad_addr (ra_short_addr r)"
    and p: "post_zigbee_attribute_report_raw clock r rt = (ok, rt')"
  shows "ok \<and> (\<exists>es d'. queued rt' = queued rt @ es \<and>
    devices_of (core_run s es) (Inr (ra_short_addr r)) = Some d' \<and> measurement_stored r d' \<and>
    refresh_fields d' = (kReportingActive, False, monotonic_now_ms clock rt) \<and>
    (ra_has_lqi r \<longrightarrow> dr_has_lqi d' \<and> dr_lqi d' = ra_lqi r) \<and>
    (ra_has_rssi r \<longrightarrow> dr_has_rssi d' \<and> dr_rssi_dbm d' = ra_rssi_dbm r))"
  by (rule stored_aux[OF assms])

definition sample_report :: RawAttributeReport where
  "sample_report = \<lparr>ra_short_addr = 9, ra_endpoint = 1, ra_cluster_id = 0x0402, ra_attribute_id = 0,
     ra_zcl_data_type = 0x29, ra_has_lqi = True, ra_lqi = 200, ra_has_rssi = False, ra_rssi_dbm = 0,
     ra_payload = Some [0x34, 0x08], ra_payload_len = 2\<rparr>"

lemma measurement_reaches_the_device_record_witness:
  "\<exists>es d'. queued (snd (post_zigbee_attribute_report_raw 77 sample_report runtime_init)) = es \<and>
     devices_of (core_run sample_state es) (Inr 9) = Some d' \<and> dr_has_temperature d' \<and>
     dr_temperature_centi_c d' = 2100 \<and> dr_lqi d' = 200"
proof -
  obtain d where d: "devices_of sample_state (Inr (ra_short_addr sample_report)) = Some d"
    using sample_devices by (auto simp: sample_report_def)
  have h: "length (queued runtime_init) + 3 \<le> kEventQueueCapacity" "measurement_report sample_report"
    "\<not> bad_addr (ra_short_addr sample_report)"
    by (simp_all add: queued_init kEventQueueCapacity_def measurement_report_def sample_report_def bad_addr_def
        kUnknownDeviceShortAddr_def)
  obtain ok rt' where p: "post_zigbee_attribute_report_raw 77 sample_report runtime_init = (ok, rt')" by fastforce
  from measurement_reaches_the_device_record[OF sample_state_inv d runtime_init_ok h p] show ?thesis
    unfolding p snd_conv by (auto simp: queued_init sample_report_def measurement_stored_def)
qed

end
