(* ===== verification/PersistenceManager.thy ===== *)
theory PersistenceManager
  imports CommandManager ResultStore
begin

text \<open>
  \<^verbatim>\<open>components/service/persistence_manager.cpp\<close>: three ring buffers of notifications (values written to
  the store, configuration values to set, reporting profiles to set) and the drains that apply them to
  the configuration, save it, and answer. The store is passed as its operation \<open>put\<close>.
\<close>

record NvsWriteNotification =
  nw_is_core_revision :: bool
  nw_value :: u32

record ConfigWriteNotification =
  cw_request_id :: u32
  cw_set_timeout_ms :: bool
  cw_timeout_ms :: u32
  cw_set_max_retries :: bool
  cw_max_retries :: u8

definition kNvsWriteQueueCapacity :: nat where "kNvsWriteQueueCapacity = 16"
definition kConfigWriteQueueCapacity :: nat where "kConfigWriteQueueCapacity = 8"

record PersistenceManager =
  pm_nvs_writes :: "NvsWriteNotification ring"
  pm_config_writes :: "ConfigWriteNotification ring"
  pm_profile_writes :: "ReportingProfile ring"

definition nvs_write_default :: NvsWriteNotification where
  "nvs_write_default = \<lparr>nw_is_core_revision = False, nw_value = 0\<rparr>"

definition config_write_default :: ConfigWriteNotification where
  "config_write_default = \<lparr>cw_request_id = 0, cw_set_timeout_ms = False, cw_timeout_ms = 0,
     cw_set_max_retries = False, cw_max_retries = 0\<rparr>"

definition persistence_manager_init :: PersistenceManager where
  "persistence_manager_init =
     \<lparr>pm_nvs_writes = ring_empty kNvsWriteQueueCapacity nvs_write_default,
      pm_config_writes = ring_empty kConfigWriteQueueCapacity config_write_default,
      pm_profile_writes = ring_empty kConfigWriteQueueCapacity profile_default\<rparr>"

section \<open>The queues\<close>

definition queue_nvs_write :: "NvsWriteNotification \<Rightarrow> PersistenceManager \<Rightarrow> bool \<times> PersistenceManager" where
  "queue_nvs_write n m =
     (case ring_push kNvsWriteQueueCapacity n (pm_nvs_writes m) of
        None \<Rightarrow> (False, m) | Some q \<Rightarrow> (True, m\<lparr>pm_nvs_writes := q\<rparr>))"

definition pop_nvs_write :: "PersistenceManager \<Rightarrow> (NvsWriteNotification \<times> PersistenceManager) option" where
  "pop_nvs_write m =
     map_option (\<lambda>(n, q). (n, m\<lparr>pm_nvs_writes := q\<rparr>)) (ring_pop kNvsWriteQueueCapacity (pm_nvs_writes m))"

definition queue_config_write ::
  "ConfigWriteNotification \<Rightarrow> PersistenceManager \<Rightarrow> bool \<times> PersistenceManager" where
  "queue_config_write n m =
     (case ring_push kConfigWriteQueueCapacity n (pm_config_writes m) of
        None \<Rightarrow> (False, m) | Some q \<Rightarrow> (True, m\<lparr>pm_config_writes := q\<rparr>))"

definition pop_config_write :: "PersistenceManager \<Rightarrow> (ConfigWriteNotification \<times> PersistenceManager) option" where
  "pop_config_write m =
     map_option (\<lambda>(n, q). (n, m\<lparr>pm_config_writes := q\<rparr>))
       (ring_pop kConfigWriteQueueCapacity (pm_config_writes m))"

definition queue_reporting_profile_write ::
  "ReportingProfile \<Rightarrow> PersistenceManager \<Rightarrow> bool \<times> PersistenceManager" where
  "queue_reporting_profile_write p m =
     (case ring_push kConfigWriteQueueCapacity p (pm_profile_writes m) of
        None \<Rightarrow> (False, m) | Some q \<Rightarrow> (True, m\<lparr>pm_profile_writes := q\<rparr>))"

definition pop_reporting_profile_write ::
  "PersistenceManager \<Rightarrow> (ReportingProfile \<times> PersistenceManager) option" where
  "pop_reporting_profile_write m =
     map_option (\<lambda>(p, q). (p, m\<lparr>pm_profile_writes := q\<rparr>))
       (ring_pop kConfigWriteQueueCapacity (pm_profile_writes m))"

section \<open>Posting\<close>

definition post_config_write ::
  "ConfigWriteNotification \<Rightarrow> ServiceRuntime \<Rightarrow> PersistenceManager \<Rightarrow>
   bool \<times> ServiceRuntime \<times> PersistenceManager" where
  "post_config_write n rt m =
     (if \<not> cw_set_timeout_ms n \<and> \<not> cw_set_max_retries n then (False, rt, m)
      else (case queue_config_write n m of
              (False, m1) \<Rightarrow> (False, drop_ingress rt, m1)
            | (True, m1) \<Rightarrow> (True, rt, m1)))"

definition post_reporting_profile_write ::
  "ReportingProfile \<Rightarrow> ServiceRuntime \<Rightarrow> PersistenceManager \<Rightarrow> bool \<times> ServiceRuntime \<times> PersistenceManager" where
  "post_reporting_profile_write p rt m =
     (case queue_reporting_profile_write p m of
        (False, m1) \<Rightarrow> (False, drop_ingress rt, m1)
      | (True, m1) \<Rightarrow> (True, rt, m1))"

definition on_nvs_u32_written ::
  "string option \<Rightarrow> u32 \<Rightarrow> ServiceRuntime \<Rightarrow> PersistenceManager \<Rightarrow> ServiceRuntime \<times> PersistenceManager" where
  "on_nvs_u32_written key value rt m =
     (let n = (if key = Some ''core_rev'' then \<lparr>nw_is_core_revision = True, nw_value = value\<rparr>
               else nvs_write_default)
      in case queue_nvs_write n m of
           (False, m1) \<Rightarrow> (drop_ingress rt, m1)
         | (True, m1) \<Rightarrow> (rt, m1))"

section \<open>Draining\<close>

definition note_nvs_write :: "NvsWriteNotification \<Rightarrow> ServiceRuntime \<Rightarrow> ServiceRuntime" where
  "note_nvs_write n rt =
     (let st = (rt_stats rt)\<lparr>rx_nvs_writes := rx_nvs_writes (rt_stats rt) + 1\<rparr>
      in rt\<lparr>rt_stats := (if nw_is_core_revision n then st\<lparr>rx_last_nvs_revision := nw_value n\<rparr> else st)\<rparr>)"

function drain_nvs_writes :: "ServiceRuntime \<Rightarrow> PersistenceManager \<Rightarrow> bool \<times> ServiceRuntime \<times> PersistenceManager" where
  "drain_nvs_writes rt m =
     (case pop_nvs_write m of
        None \<Rightarrow> (False, rt, m)
      | Some (n, m1) \<Rightarrow> (True, snd (drain_nvs_writes (note_nvs_write n rt) m1)))"
  by pat_completeness auto
termination
  by (relation "measure (\<lambda>(rt, m). rg_count (pm_nvs_writes m))")
    (auto simp: pop_nvs_write_def ring_pop_def split: if_splits)

text \<open>The values of one request: each is set if it is asked for and valid.\<close>

definition set_config_values :: "ConfigWriteNotification \<Rightarrow> ConfigManager \<Rightarrow> bool \<times> ConfigManager" where
  "set_config_values n c =
     (let (changed1, c1) = (if cw_set_timeout_ms n then set_command_timeout_ms (cw_timeout_ms n) c else (False, c));
          (changed2, c2) = (if cw_set_max_retries n
                            then (let (ok, c') = set_max_command_retries (cw_max_retries n) c1 in (ok \<or> changed1, c'))
                            else (changed1, c1))
      in (changed2, c2))"

text \<open>The state the drains work on: runtime, store, finished results (a configuration result is its status).\<close>

type_synonym ('s, 'n, 'o, 'r) persist = "ServiceRuntime \<times> 's \<times> (u8, 'n, 'o, 'r) ResultStore"

definition apply_config_write ::
  "'s setter \<Rightarrow> ConfigWriteNotification \<Rightarrow> ('s, 'n, 'o, 'r) persist \<Rightarrow> ('s, 'n, 'o, 'r) persist" where
  "apply_config_write put n x =
     (case x of (rt, s, rs) \<Rightarrow>
        let (changed, c) = set_config_values n (rt_config rt);
            (rt1, s1) = (if changed then (case save put c s of (_, c', s') \<Rightarrow> (rt\<lparr>rt_config := c'\<rparr>, s'))
                         else (note_dropped_event (rt\<lparr>rt_config := c\<rparr>), s));
            rt2 = rt1\<lparr>rt_config_timeout_ms_cache := cm_command_timeout_ms (rt_config rt1),
                      rt_config_max_retries_cache := ucast (cm_max_command_retries (rt_config rt1))\<rparr>;
            rs1 = (if cw_request_id n \<noteq> 0
                   then snd (publish_config_result \<lparr>or_request_id = cw_request_id n, or_body = (if changed then 1 else 2)\<rparr> rs)
                   else rs)
        in (rt2, s1, rs1))"

function drain_config_writes ::
  "'s setter \<Rightarrow> ('s, 'n, 'o, 'r) persist \<Rightarrow> PersistenceManager \<Rightarrow>
   bool \<times> ('s, 'n, 'o, 'r) persist \<times> PersistenceManager" where
  "drain_config_writes put x m =
     (case pop_config_write m of
        None \<Rightarrow> (False, x, m)
      | Some (n, m1) \<Rightarrow> (True, snd (drain_config_writes put (apply_config_write put n x) m1)))"
  by pat_completeness auto
termination
  by (relation "measure (\<lambda>(put, x, m). rg_count (pm_config_writes m))")
    (auto simp: pop_config_write_def ring_pop_def split: if_splits)

definition apply_profile_write :: "'s setter \<Rightarrow> ReportingProfile \<Rightarrow> ServiceRuntime \<times> 's \<Rightarrow> ServiceRuntime \<times> 's" where
  "apply_profile_write put p x =
     (case x of (rt, s) \<Rightarrow>
        let (changed, c) = set_reporting_profile p (rt_config rt)
        in if changed then (case save put c s of (_, c', s') \<Rightarrow> (rt\<lparr>rt_config := c'\<rparr>, s'))
           else (note_dropped_event (rt\<lparr>rt_config := c\<rparr>), s))"

function drain_reporting_profile_writes ::
  "'s setter \<Rightarrow> ServiceRuntime \<times> 's \<Rightarrow> PersistenceManager \<Rightarrow> bool \<times> (ServiceRuntime \<times> 's) \<times> PersistenceManager" where
  "drain_reporting_profile_writes put x m =
     (case pop_reporting_profile_write m of
        None \<Rightarrow> (False, x, m)
      | Some (p, m1) \<Rightarrow> (True, snd (drain_reporting_profile_writes put (apply_profile_write put p x) m1)))"
  by pat_completeness auto
termination
  by (relation "measure (\<lambda>(put, x, m). rg_count (pm_profile_writes m))")
    (auto simp: pop_reporting_profile_write_def ring_pop_def split: if_splits)

declare drain_nvs_writes.simps [simp del] drain_config_writes.simps [simp del]
  drain_reporting_profile_writes.simps [simp del]

definition persistence_pending :: "PersistenceManager \<Rightarrow> nat" where
  "persistence_pending m =
     rg_count (pm_nvs_writes m) + rg_count (pm_config_writes m) + rg_count (pm_profile_writes m)"

section \<open>Commands of the runtime\<close>

text \<open>
  \<^verbatim>\<open>ServiceRuntime::post_command\<close>: a reporting profile goes to the configuration, everything else to the
  command manager.
\<close>

definition profile_of_command :: "CoreCommand \<Rightarrow> ReportingProfile" where
  "profile_of_command c =
     \<lparr>rp_in_use = True,
      rp_key = \<lparr>pk_short_addr = cc_device_short_addr c, pk_endpoint = cc_reporting_endpoint c,
                pk_cluster_id = cc_reporting_cluster_id c\<rparr>,
      rp_min_interval_seconds = cc_reporting_min_interval_seconds c,
      rp_max_interval_seconds = cc_reporting_max_interval_seconds c,
      rp_reportable_change = cc_reporting_reportable_change c,
      rp_capability_flags = cc_reporting_capability_flags c\<rparr>"

definition profile_command_ok :: "CoreCommand \<Rightarrow> bool" where
  "profile_command_ok c \<longleftrightarrow>
     \<not> (cc_correlation_id c = kNoCorrelationId) \<and>
     \<not> (cc_device_short_addr c = 0 \<or> cc_device_short_addr c = kUnknownDeviceShortAddr \<or>
        cc_reporting_endpoint c = 0 \<or> cc_reporting_cluster_id c = 0) \<and>
     \<not> (cc_reporting_max_interval_seconds c = 0 \<or>
        cc_reporting_min_interval_seconds c > cc_reporting_max_interval_seconds c)"

definition runtime_post_command ::
  "CoreCommand \<Rightarrow> ServiceRuntime \<Rightarrow> CommandManager \<Rightarrow> PersistenceManager \<Rightarrow>
   CoreError \<times> ServiceRuntime \<times> CommandManager \<times> PersistenceManager" where
  "runtime_post_command c rt m pm =
     (if cc_type c = kUpdateReportingProfile
      then if \<not> profile_command_ok c then (kInvalidArgument, rt, m, pm)
           else if get_reporting_profile (rp_key (profile_of_command c)) (rt_config rt) = Some (profile_of_command c)
           then (kOk, rt, m, pm)
           else (case post_reporting_profile_write (profile_of_command c) rt pm of
                   (False, rt1, pm1) \<Rightarrow> (kNoCapacity, rt1, m, pm1)
                 | (True, rt1, pm1) \<Rightarrow> (kOk, rt1, m, pm1))
      else (case post_command c rt m of (err, rt1, m1) \<Rightarrow> (err, rt1, m1, pm)))"

text \<open>\<^verbatim>\<open>map_core_submit_status\<close> and the two posts of the application.\<close>

datatype CommandSubmitStatus = kSubmitAccepted | kSubmitInvalidArgument | kSubmitBusy | kSubmitNoCapacity | kSubmitInternal

fun map_core_submit_status :: "CoreError \<Rightarrow> CommandSubmitStatus" where
  "map_core_submit_status kOk = kSubmitAccepted"
| "map_core_submit_status kInvalidArgument = kSubmitInvalidArgument"
| "map_core_submit_status kBusy = kSubmitBusy"
| "map_core_submit_status kNoCapacity = kSubmitNoCapacity"
| "map_core_submit_status _ = kSubmitInternal"

definition post_device_power_request ::
  "u32 \<Rightarrow> u16 \<Rightarrow> bool \<Rightarrow> u32 \<Rightarrow> ServiceRuntime \<Rightarrow> CommandManager \<Rightarrow> PersistenceManager \<Rightarrow>
   CommandSubmitStatus \<times> ServiceRuntime \<times> CommandManager \<times> PersistenceManager" where
  "post_device_power_request correlation_id a on issued_at_ms rt m pm =
     (case runtime_post_command (core_command_default\<lparr>cc_type := kSetDevicePower, cc_correlation_id := correlation_id,
             cc_device_short_addr := a, cc_desired_power_on := on, cc_issued_at_ms := issued_at_ms\<rparr>) rt m pm of
        (err, x) \<Rightarrow> (map_core_submit_status err, x))"

definition post_network_refresh_request ::
  "u32 \<Rightarrow> u32 \<Rightarrow> ServiceRuntime \<Rightarrow> CommandManager \<Rightarrow> PersistenceManager \<Rightarrow>
   CommandSubmitStatus \<times> ServiceRuntime \<times> CommandManager \<times> PersistenceManager" where
  "post_network_refresh_request correlation_id issued_at_ms rt m pm =
     (case runtime_post_command (core_command_default\<lparr>cc_type := kRefreshNetwork, cc_correlation_id := correlation_id,
             cc_issued_at_ms := issued_at_ms\<rparr>) rt m pm of
        (err, x) \<Rightarrow> (map_core_submit_status err, x))"

section \<open>Draining applies the queued profiles in order\<close>

interpretation ring8: bounded_fifo "ring_push 8" "ring_pop 8" "ring_list 8" "ring_inv 8" 8
  by (rule ring_bounded_fifo) simp

definition profile_queue :: "PersistenceManager \<Rightarrow> ReportingProfile list" where
  "profile_queue m = ring_list kConfigWriteQueueCapacity (pm_profile_writes m)"

definition profile_queue_ok :: "PersistenceManager \<Rightarrow> bool" where
  "profile_queue_ok m \<longleftrightarrow> ring_inv kConfigWriteQueueCapacity (pm_profile_writes m)"

text \<open>What one request means for the map of profiles, with room for \<open>n\<close> of them.\<close>

definition profile_update :: "nat \<Rightarrow> ReportingProfile \<Rightarrow> (ReportingProfileKey \<rightharpoonup> ReportingProfile) \<Rightarrow>
    (ReportingProfileKey \<rightharpoonup> ReportingProfile)" where
  "profile_update n p f =
     (if profile_ok p \<and> (f (rp_key p) \<noteq> None \<or> card (dom f) < n) then f(rp_key p \<mapsto> p) else f)"

lemma persistence_init_ok: "profile_queue_ok persistence_manager_init" "profile_queue persistence_manager_init = []"
  by (simp_all add: profile_queue_ok_def profile_queue_def persistence_manager_init_def ring_inv_empty
      kConfigWriteQueueCapacity_def)

lemma pop_profile_cases:
  assumes "profile_queue_ok m"
  obtains (empty) "pop_reporting_profile_write m = None" "profile_queue m = []"
    | (profile) p m1 where "pop_reporting_profile_write m = Some (p, m1)" "profile_queue_ok m1"
      "profile_queue m = p # profile_queue m1"
proof (cases "profile_queue m")
  case Nil
  with assms show thesis using that(1) ring8.pop_empty[of "pm_profile_writes m"]
    by (simp add: profile_queue_def profile_queue_ok_def pop_reporting_profile_write_def kConfigWriteQueueCapacity_def)
next
  case (Cons p ps)
  with assms obtain q where "ring_pop 8 (pm_profile_writes m) = Some (p, q)" "ring_inv 8 q" "ring_list 8 q = ps"
    by (metis ring8.pop_some profile_queue_def profile_queue_ok_def kConfigWriteQueueCapacity_def)
  then show thesis using that(2)[of p "m\<lparr>pm_profile_writes := q\<rparr>"] Cons
    by (simp add: profile_queue_def profile_queue_ok_def pop_reporting_profile_write_def kConfigWriteQueueCapacity_def)
qed

lemma save_keeps_profiles [simp]: "cm_reporting_profiles (fst (snd (save put c s))) = cm_reporting_profiles c"
  by (simp add: save_def Let_def case_prod_unfold)

lemma profile_map_cong: "cm_reporting_profiles c = cm_reporting_profiles c' \<Longrightarrow> profile_map c = profile_map c'"
  by (simp add: profile_map_def)

lemma unique_profiles_cong: "cm_reporting_profiles c = cm_reporting_profiles c' \<Longrightarrow> unique_profiles c = unique_profiles c'"
  by (simp add: unique_profiles_def)

lemma set_reporting_profile_length [simp]:
  "length (cm_reporting_profiles (snd (set_reporting_profile p c))) = length (cm_reporting_profiles c)"
  by (rule set_reporting_profile_cases[of p c]) simp_all

lemma apply_profile_config:
  "cm_reporting_profiles (rt_config (fst (apply_profile_write put p (rt, s)))) =
   cm_reporting_profiles (snd (set_reporting_profile p (rt_config rt)))"
  by (simp add: apply_profile_write_def Let_def case_prod_unfold)

lemma profile_count_card:
  assumes "unique_profiles c"
  shows "card (dom (profile_map c)) = reporting_profile_count c"
  using profiles.card_dom_slot_map[OF assms[unfolded unique_profiles_def]]
  by (simp add: profile_map_def reporting_profile_count_def)

lemma apply_profile_map:
  assumes "unique_profiles (rt_config rt)"
  shows "unique_profiles (rt_config (fst (apply_profile_write put p (rt, s))))"
    and "profile_map (rt_config (fst (apply_profile_write put p (rt, s)))) =
         profile_update (length (cm_reporting_profiles (rt_config rt))) p (profile_map (rt_config rt))"
    and "length (cm_reporting_profiles (rt_config (fst (apply_profile_write put p (rt, s))))) =
         length (cm_reporting_profiles (rt_config rt))"
proof -
  obtain r c' where s: "set_reporting_profile p (rt_config rt) = (r, c')" by fastforce
  note spec = set_reporting_profile_spec[OF assms s]
  have eq: "cm_reporting_profiles (rt_config (fst (apply_profile_write put p (rt, s)))) = cm_reporting_profiles c'"
    for s using s by (simp add: apply_profile_config)
  note cong = profile_map_cong[OF eq] unique_profiles_cong[OF eq]
  show "unique_profiles (rt_config (fst (apply_profile_write put p (rt, s))))" using spec by (simp add: cong)
  show "profile_map (rt_config (fst (apply_profile_write put p (rt, s)))) =
         profile_update (length (cm_reporting_profiles (rt_config rt))) p (profile_map (rt_config rt))"
    using spec by (simp add: cong profile_update_def profile_count_card[OF assms])
  show "length (cm_reporting_profiles (rt_config (fst (apply_profile_write put p (rt, s))))) =
         length (cm_reporting_profiles (rt_config rt))" by (simp add: apply_profile_config)
qed

text \<open>
  C23: draining the queue of reporting profiles refines the map of profiles: the requests are applied
  oldest first, each either taking effect or, when it is malformed or the table is full, changing
  nothing; afterwards the queue is empty and the keys are still unique.
\<close>

theorem drained_profiles_refine_the_map:
  assumes "profile_queue_ok m" "unique_profiles (rt_config rt)"
    and "drain_reporting_profile_writes put (rt, s) m = (drained, (rt', s'), m')"
  shows "profile_queue m' = [] \<and> (drained \<longleftrightarrow> profile_queue m \<noteq> []) \<and> unique_profiles (rt_config rt') \<and>
    profile_map (rt_config rt') =
      fold (profile_update (length (cm_reporting_profiles (rt_config rt)))) (profile_queue m)
        (profile_map (rt_config rt))"
  using assms
proof (induction "profile_queue m" arbitrary: m rt s drained rt' s' m')
  case Nil
  from Nil.prems(1) have "pop_reporting_profile_write m = None"
    by (rule pop_profile_cases) (use Nil.hyps in simp_all)
  then show ?case using Nil.prems Nil.hyps by (simp add: drain_reporting_profile_writes.simps[of _ _ m])
next
  case (Cons p ps)
  from Cons.prems(1) Cons.hyps(2) obtain m1 where m1: "pop_reporting_profile_write m = Some (p, m1)"
    "profile_queue_ok m1" "profile_queue m = p # profile_queue m1"
    by (auto elim: pop_profile_cases)
  obtain rt1 s1 where a: "apply_profile_write put p (rt, s) = (rt1, s1)" by fastforce
  obtain d where d: "drain_reporting_profile_writes put (rt1, s1) m1 = (d, (rt', s'), m')"
    using Cons.prems(3) m1(1) a by (cases "drain_reporting_profile_writes put (rt1, s1) m1")
      (simp add: drain_reporting_profile_writes.simps[of _ _ m])
  have "drained" using Cons.prems(3) m1(1) by (simp add: drain_reporting_profile_writes.simps[of _ _ m])
  moreover note apply_profile_map[OF Cons.prems(2), of put p s, unfolded a fst_conv]
  ultimately show ?case using Cons.hyps(1)[OF _ m1(2) _ d] Cons.hyps(2) m1(3) by simp
qed

definition drain_sample :: "PersistenceManager" where
  "drain_sample = snd (queue_reporting_profile_write sample_profile
     (snd (queue_reporting_profile_write (sample_profile\<lparr>rp_max_interval_seconds := 60\<rparr>) persistence_manager_init)))"

lemma queue_profile_refines:
  assumes "profile_queue_ok m" "length (profile_queue m) < 8"
  shows "fst (queue_reporting_profile_write p m)" "profile_queue_ok (snd (queue_reporting_profile_write p m))"
    "profile_queue (snd (queue_reporting_profile_write p m)) = profile_queue m @ [p]"
proof -
  obtain q where "ring_push 8 p (pm_profile_writes m) = Some q" "ring_inv 8 q"
    "ring_list 8 q = profile_queue m @ [p]"
    using ring8.push_some[of "pm_profile_writes m" p] assms
    by (auto simp: profile_queue_ok_def profile_queue_def kConfigWriteQueueCapacity_def)
  then show "fst (queue_reporting_profile_write p m)" "profile_queue_ok (snd (queue_reporting_profile_write p m))"
    "profile_queue (snd (queue_reporting_profile_write p m)) = profile_queue m @ [p]"
    by (simp_all add: queue_reporting_profile_write_def profile_queue_ok_def profile_queue_def
        kConfigWriteQueueCapacity_def)
qed

lemma drained_profiles_refine_the_map_witness:
  "profile_map (rt_config (fst (fst (snd (drain_reporting_profile_writes host_set (runtime_init, host_init)
     drain_sample))))) (rp_key sample_profile) = Some sample_profile"
proof -
  obtain d rt' s' m' where d: "drain_reporting_profile_writes host_set (runtime_init, host_init) drain_sample =
      (d, (rt', s'), m')" by (metis prod.collapse)
  have q: "profile_queue_ok drain_sample" "profile_queue drain_sample =
      [sample_profile\<lparr>rp_max_interval_seconds := 60\<rparr>, sample_profile]"
    by (simp_all add: drain_sample_def queue_profile_refines persistence_init_ok)
  have u: "unique_profiles (rt_config runtime_init)"
    by (simp add: runtime_init_def unique_profiles_def config_init_def profiles.empty_unique)
  have n: "length (cm_reporting_profiles (rt_config runtime_init)) = 16"
    by (simp add: runtime_init_def config_init_def kMaxReportingProfiles_def)
  have ok: "profile_ok sample_profile" "profile_ok (sample_profile\<lparr>rp_max_interval_seconds := 60\<rparr>)" by code_simp+
  have key: "rp_key (sample_profile\<lparr>rp_max_interval_seconds := 60\<rparr>) = rp_key sample_profile" by simp
  have e: "profile_map (rt_config runtime_init) = (\<lambda>_. None)"
    by (simp add: runtime_init_def profile_map_def config_init_def profiles.empty_map fun_eq_iff)
  show ?thesis
    using drained_profiles_refine_the_map[OF q(1) u d]
    by (simp add: d q(2) n e profile_update_def ok key)
qed

lemma runtime_post_profile:
  assumes "cc_type c = kUpdateReportingProfile" "profile_command_ok c"
    and "profile_queue_ok pm" "length (profile_queue pm) < 8"
    and "get_reporting_profile (rp_key (profile_of_command c)) (rt_config rt) \<noteq> Some (profile_of_command c)"
    and "runtime_post_command c rt m pm = (err, rt1, m1, pm1)"
  shows "err = kOk" "rt1 = rt" "m1 = m" "profile_queue_ok pm1" "profile_queue pm1 = profile_queue pm @ [profile_of_command c]"
  using assms queue_profile_refines[OF assms(3,4), of "profile_of_command c"]
  by (auto simp: runtime_post_command_def post_reporting_profile_write_def case_prod_unfold split: prod.splits)

lemma profile_of_command_ok: "profile_command_ok c \<Longrightarrow> profile_ok (profile_of_command c)"
  by (auto simp: profile_command_ok_def profile_ok_def profile_of_command_def Let_def)

lemma drain_one_profile:
  assumes "profile_queue_ok m" "profile_queue m = [p]"
    and "drain_reporting_profile_writes put x m = (drained, x', m')"
  shows "x' = apply_profile_write put p x"
proof -
  from assms(1,2) obtain m1 where m1: "pop_reporting_profile_write m = Some (p, m1)"
    "profile_queue_ok m1" "profile_queue m1 = []"
    by (auto elim: pop_profile_cases)
  from m1(2) have "pop_reporting_profile_write m1 = None"
    by (rule pop_profile_cases) (use m1(3) in simp_all)
  then show ?thesis
    using assms(3) m1(1) by (simp add: drain_reporting_profile_writes.simps[of _ _ m]
        drain_reporting_profile_writes.simps[of _ _ m1])
qed


lemma set_u32s_accepted:
  assumes "nvs get put ok" "\<And>k v s. ok s \<Longrightarrow> key_ok k \<Longrightarrow> fst (put k v s)"
  shows "ok s \<Longrightarrow> keys_ok kvs \<Longrightarrow> fst (set_u32s put kvs s)"
proof (induction kvs arbitrary: s)
  case (Cons kv kvs)
  obtain k v where kv: "kv = (k, v)" by (cases kv)
  have k: "key_ok k" "keys_ok kvs" using Cons.prems(2) by (simp_all add: kv keys_ok_def)
  have "ok (snd (put k v s))" using nvs.put_ok[OF assms(1) Cons.prems(1) k(1)] .
  then show ?case using Cons.IH[of "snd (put k v s)"] k assms(2)[OF Cons.prems(1) k(1), of v]
    by (simp add: kv case_prod_unfold Let_def)
qed simp

lemma save_accepted:
  assumes "nvs get put ok" "\<And>k v s. ok s \<Longrightarrow> key_ok k \<Longrightarrow> fst (put k v s)" "ok s" "config_ok c"
  shows "\<exists>c' s'. save put c s = (True, c', s')"
proof -
  have len: "length (cm_reporting_profiles c) \<le> kMaxReportingProfiles"
    using assms(4) by (simp add: config_ok_def)
  have "fst (set_u32s put (save_writes c) s)"
    using set_u32s_accepted[OF assms(1,2) assms(3) save_writes_ok(1)[OF len]] by blast
  then show ?thesis unfolding save_eq[OF len] by (auto simp: case_prod_unfold Let_def)
qed


definition plain_get :: "string \<Rightarrow> (string \<rightharpoonup> u32) \<Rightarrow> u32 option" where
  "plain_get k s = s k"

definition plain_put :: "string \<Rightarrow> u32 \<Rightarrow> (string \<rightharpoonup> u32) \<Rightarrow> bool \<times> (string \<rightharpoonup> u32)" where
  "plain_put k v s = (True, s(k \<mapsto> v))"

interpretation plain: nvs plain_get plain_put "\<lambda>_. True"
  by unfold_locales (simp_all add: plain_get_def plain_put_def)

definition profile_command :: "u16 \<Rightarrow> CoreCommand" where
  "profile_command t = core_command_default\<lparr>cc_type := kUpdateReportingProfile, cc_correlation_id := 7,
     cc_device_short_addr := 0x1234, cc_reporting_endpoint := 2, cc_reporting_cluster_id := 0x0402,
     cc_reporting_min_interval_seconds := 5, cc_reporting_max_interval_seconds := t\<rparr>"

lemma profile_command_facts:
  "cc_type (profile_command t) = kUpdateReportingProfile"
  "profile_command_ok (profile_command 300)" "profile_command_ok (profile_command 60)"
  "rp_key (profile_of_command (profile_command t)) = rp_key sample_profile"
  by (simp_all add: profile_command_def profile_command_ok_def profile_of_command_def sample_profile_def
      core_command_default_def kNoCorrelationId_def kUnknownDeviceShortAddr_def)

lemma runtime_init_config:
  "config_ok (rt_config runtime_init)" "unique_profiles (rt_config runtime_init)"
  "get_reporting_profile k (rt_config runtime_init) = None"
  "reporting_profile_count (rt_config runtime_init) < kMaxReportingProfiles"
proof -
  show "config_ok (rt_config runtime_init)" by (simp add: runtime_init_def config_ok_init)
  show "unique_profiles (rt_config runtime_init)"
    by (simp add: runtime_init_def unique_profiles_def config_init_def profiles.empty_unique)
  show "get_reporting_profile k (rt_config runtime_init) = None"
    by (simp add: get_reporting_profile_map runtime_init_def profile_map_def config_init_def profiles.empty_map)
  show "reporting_profile_count (rt_config runtime_init) < kMaxReportingProfiles" by code_simp
qed


text \<open>
  A request that puts a profile back to its current value is acknowledged without being queued, so
  when another change of the same profile still waits to be drained, that older change wins.
\<close>

theorem restored_profile_can_be_lost:
  assumes "unique_profiles (rt_config rt)" "profile_queue_ok pm" "profile_queue pm = []"
    and "cc_type c1 = kUpdateReportingProfile" "profile_command_ok c1"
    and "cc_type c2 = kUpdateReportingProfile" "profile_command_ok c2"
    and "rp_key (profile_of_command c1) = rp_key (profile_of_command c2)"
    and "get_reporting_profile (rp_key (profile_of_command c2)) (rt_config rt) = Some (profile_of_command c2)"
    and "profile_of_command c1 \<noteq> profile_of_command c2"
    and "runtime_post_command c1 rt m pm = (err1, rt1, m1, pm1)"
    and "runtime_post_command c2 rt1 m1 pm1 = (err2, rt2, m2, pm2)"
    and "drain_reporting_profile_writes put (rt2, s) pm2 = (drained, (rt3, s3), pm3)"
  shows "err1 = kOk \<and> err2 = kOk \<and>
    get_reporting_profile (rp_key (profile_of_command c2)) (rt_config rt3) = Some (profile_of_command c1)"
proof -
  note posted = runtime_post_profile[OF assms(4,5,2) _ _ assms(11)]
  have q: "err1 = kOk" "rt1 = rt" "profile_queue_ok pm1" "profile_queue pm1 = [profile_of_command c1]"
    using posted assms(3,8-10) by simp_all
  have q2: "err2 = kOk" "rt2 = rt" "pm2 = pm1"
    using assms(6,7,9,12) by (simp_all add: runtime_post_command_def q(2))
  have x: "(rt3, s3) = apply_profile_write put (profile_of_command c1) (rt, s)"
    using drain_one_profile[OF q(3,4), of put "(rt2, s)" drained "(rt3, s3)" pm3] q2 assms(13) by simp
  have "profile_map (rt_config rt3) =
      profile_update (length (cm_reporting_profiles (rt_config rt))) (profile_of_command c1) (profile_map (rt_config rt))"
    using apply_profile_map(2)[OF assms(1), of put "profile_of_command c1" s] by (simp add: x[symmetric])
  then show ?thesis
    using q(1) q2(1) assms(8,9) profile_of_command_ok[OF assms(5)]
    by (simp add: get_reporting_profile_map profile_update_def)
qed


lemma restored_profile_can_be_lost_witness:
  "\<exists>rt rt1 m1 pm1 rt2 m2 pm2 x.
     get_reporting_profile (rp_key sample_profile) (rt_config rt) = Some (profile_of_command (profile_command 300)) \<and>
     runtime_post_command (profile_command 60) rt command_manager_init persistence_manager_init = (kOk, rt1, m1, pm1) \<and>
     runtime_post_command (profile_command 300) rt1 m1 pm1 = (kOk, rt2, m2, pm2) \<and>
     fst (snd (drain_reporting_profile_writes host_set (rt2, host_init) pm2)) = x \<and>
     get_reporting_profile (rp_key sample_profile) (rt_config (fst x)) = Some (profile_of_command (profile_command 60))"
proof -
  let ?c1 = "profile_command 60" and ?c2 = "profile_command 300"
  define rt where "rt = runtime_init\<lparr>rt_config := snd (set_reporting_profile (profile_of_command ?c2)
      (rt_config runtime_init))\<rparr>"
  obtain ok' c' where set: "set_reporting_profile (profile_of_command ?c2) (rt_config runtime_init) = (ok', c')"
    by fastforce
  have "ok'" "unique_profiles c'" "profile_map c' = (profile_map (rt_config runtime_init))
      (rp_key sample_profile \<mapsto> profile_of_command ?c2)"
    using set_reporting_profile_spec[OF runtime_init_config(2) set] runtime_init_config(1,4)
      profile_of_command_ok[OF profile_command_facts(2)] by (auto simp: config_ok_def profile_command_facts(4))
  then have rt: "unique_profiles (rt_config rt)"
    "get_reporting_profile (rp_key (profile_of_command ?c2)) (rt_config rt) = Some (profile_of_command ?c2)"
    by (simp_all add: rt_def set get_reporting_profile_map profile_command_facts(4))
  obtain err1 rt1 m1 pm1 where a: "runtime_post_command ?c1 rt command_manager_init
      persistence_manager_init = (err1, rt1, m1, pm1)" by (metis prod.collapse)
  obtain err2 rt2 m2 pm2 where b: "runtime_post_command ?c2 rt1 m1 pm1 = (err2, rt2, m2, pm2)" by (metis prod.collapse)
  obtain drained rt3 s3 pm3 where d: "drain_reporting_profile_writes host_set (rt2, host_init) pm2 =
      (drained, (rt3, s3), pm3)" by (metis prod.collapse)
  have ne: "profile_of_command ?c1 \<noteq> profile_of_command ?c2"
    by (simp add: profile_of_command_def profile_command_def)
  have "err1 = kOk \<and> err2 = kOk \<and>
      get_reporting_profile (rp_key sample_profile) (rt_config rt3) = Some (profile_of_command ?c1)"
    using restored_profile_can_be_lost[OF rt(1) persistence_init_ok profile_command_facts(1,3,1,2) _ rt(2) ne a b d]
    by (simp add: profile_command_facts(4))
  with a b d rt(2)[unfolded profile_command_facts(4)] show ?thesis by fastforce
qed

end
