(* ===== verification/NvsText.thy ===== *)
theory NvsText
  imports NvsStore
begin

text \<open>
  The strings and blobs of the non-volatile store, host build of \<^verbatim>\<open>components/app_hal/hal_nvs.c\<close>: sixteen
  strings of at most 128 characters and eight blobs of at most 4096 bytes. The Wi-Fi credentials are
  strings, the persisted core state is a blob. What the code relies on is the interface \<open>nvs_text\<close>.
\<close>

datatype hal_nvs_status =
  HAL_NVS_STATUS_OK | HAL_NVS_STATUS_INVALID_ARG | HAL_NVS_STATUS_NOT_FOUND | HAL_NVS_STATUS_NO_SPACE | HAL_NVS_STATUS_ERR

locale nvs_text =
  fixes get_str :: "string \<Rightarrow> nat \<Rightarrow> 's \<Rightarrow> string option"
    and set_str :: "string \<Rightarrow> string \<Rightarrow> 's \<Rightarrow> bool \<times> 's"
    and ok :: "'s \<Rightarrow> bool"
  assumes set_str_ok: "ok s \<Longrightarrow> key_ok k \<Longrightarrow> ok (snd (set_str k v s))"
    and get_set_str: "ok s \<Longrightarrow> key_ok k \<Longrightarrow> fst (set_str k v s) \<Longrightarrow> length v < cap \<Longrightarrow>
      get_str k cap (snd (set_str k v s)) = Some v"
    and get_set_str_other: "ok s \<Longrightarrow> key_ok k \<Longrightarrow> key_ok k' \<Longrightarrow> k' \<noteq> k \<Longrightarrow>
      get_str k' cap (snd (set_str k v s)) = get_str k' cap s"

section \<open>Strings\<close>

record HostStrEntry =
  hs_used :: bool
  hs_key :: string
  hs_value :: string

definition host_str_default :: HostStrEntry where
  "host_str_default = \<lparr>hs_used = False, hs_key = [], hs_value = []\<rparr>"

definition host_str_init :: "HostStrEntry list" where
  "host_str_init = replicate 16 host_str_default"

definition host_find_str_entry :: "bool \<Rightarrow> string \<Rightarrow> HostStrEntry list \<Rightarrow> nat option \<times> HostStrEntry list" where
  "host_find_str_entry allow_create k es =
     (case find_index (\<lambda>e. hs_used e \<and> hs_key e = k) es of
        Some i \<Rightarrow> (Some i, es)
      | None \<Rightarrow>
          (case (if allow_create then find_index (\<lambda>e. \<not> hs_used e) es else None) of
             None \<Rightarrow> (None, es)
           | Some i \<Rightarrow> (Some i, es[i := \<lparr>hs_used = True, hs_key = host_key k, hs_value = []\<rparr>])))"

definition host_set_str :: "string \<Rightarrow> string \<Rightarrow> HostStrEntry list \<Rightarrow> hal_nvs_status \<times> HostStrEntry list" where
  "host_set_str k v es =
     (if k = [] then (HAL_NVS_STATUS_INVALID_ARG, es)
      else (case host_find_str_entry True k es of
              (None, es1) \<Rightarrow> (HAL_NVS_STATUS_NO_SPACE, es1)
            | (Some i, es1) \<Rightarrow>
                (if length v + 1 > 129 then (HAL_NVS_STATUS_ERR, es1)
                 else (HAL_NVS_STATUS_OK, es1[i := (es1 ! i)\<lparr>hs_value := take 128 v\<rparr>]))))"

text \<open>The value, when the status is OK, fits the capacity.\<close>

definition host_get_str :: "string \<Rightarrow> nat \<Rightarrow> HostStrEntry list \<Rightarrow> hal_nvs_status \<times> string" where
  "host_get_str k cap es =
     (if k = [] \<or> cap = 0 then (HAL_NVS_STATUS_INVALID_ARG, [])
      else (case fst (host_find_str_entry False k es) of
              None \<Rightarrow> (HAL_NVS_STATUS_NOT_FOUND, [])
            | Some i \<Rightarrow>
                (if length (hs_value (es ! i)) + 1 > cap then (HAL_NVS_STATUS_NO_SPACE, [])
                 else (HAL_NVS_STATUS_OK, take (cap - 1) (hs_value (es ! i))))))"

definition host_text_get :: "string \<Rightarrow> nat \<Rightarrow> HostStrEntry list \<Rightarrow> string option" where
  "host_text_get k cap es = (case host_get_str k cap es of (status, v) \<Rightarrow> if status = HAL_NVS_STATUS_OK then Some v else None)"

definition host_text_set :: "string \<Rightarrow> string \<Rightarrow> HostStrEntry list \<Rightarrow> bool \<times> HostStrEntry list" where
  "host_text_set k v es = (case host_set_str k v es of (status, es1) \<Rightarrow> (status = HAL_NVS_STATUS_OK, es1))"

interpretation host_strs: slot_table hs_used hs_key host_str_default
  by unfold_locales (simp add: host_str_default_def)

definition host_str_ok :: "HostStrEntry list \<Rightarrow> bool" where
  "host_str_ok es \<longleftrightarrow> unique_slots hs_used hs_key es"

definition str_map :: "HostStrEntry list \<Rightarrow> string \<rightharpoonup> string" where
  "str_map es k = map_option hs_value (slot_map hs_used hs_key es k)"

lemma host_str_ok_init: "host_str_ok host_str_init"
  by (simp add: host_str_ok_def host_str_init_def host_strs.empty_unique)

lemma host_get_str_map:
  "host_text_get k cap es =
     (if k = [] \<or> cap = 0 then None
      else (case str_map es k of None \<Rightarrow> None | Some v \<Rightarrow> if length v < cap then Some v else None))"
proof -
  have f: "find_index (\<lambda>e. hs_used e \<and> hs_key e = k) es = find_slot hs_used hs_key k es"
    by (simp add: find_slot_def)
  show ?thesis
    by (auto simp: host_text_get_def host_get_str_def host_find_str_entry_def f str_map_def slot_map_def
        split: option.split)
qed

text \<open>Setting a string writes the entry of its key, found or fresh; a value that is too long still takes an entry.\<close>

lemma host_entry_cases:
  assumes "host_str_ok es" "key_ok k"
  obtains (full) "host_find_str_entry True k es = (None, es)"
    | (entry) i es1 where "host_find_str_entry True k es = (Some i, es1)"
      "\<And>v. host_strs.writable i \<lparr>hs_used = True, hs_key = k, hs_value = v\<rparr> es"
      "\<And>e. es1[i := e] = es[i := e]" "i < length es" "hs_used (es1 ! i)" "hs_key (es1 ! i) = k"
proof (cases "find_slot hs_used hs_key k es")
  case (Some i)
  note d = host_strs.find_slotD[OF Some]
  have "host_find_str_entry True k es = (Some i, es)"
    using Some by (simp add: host_find_str_entry_def find_slot_def)
  moreover have "host_strs.writable i \<lparr>hs_used = True, hs_key = k, hs_value = v\<rparr> es" for v
    using Some d by (simp add: host_strs.writable_def)
  ultimately show thesis using entry[of i es] d by simp
next
  case None
  have key: "host_key k = k" using assms(2) by (simp add: host_key_def key_ok_def)
  show thesis
  proof (cases "find_index (\<lambda>e. \<not> hs_used e) es")
    case None2: None
    then show thesis using full None by (simp add: host_find_str_entry_def find_slot_def)
  next
    case (Some i)
    note d = find_index_SomeD[OF Some]
    have "host_find_str_entry True k es = (Some i, es[i := \<lparr>hs_used = True, hs_key = k, hs_value = []\<rparr>])"
      using None Some by (simp add: host_find_str_entry_def find_slot_def key)
    moreover have "host_strs.writable i \<lparr>hs_used = True, hs_key = k, hs_value = v\<rparr> es" for v
      using None d by (simp add: host_strs.writable_def)
    ultimately show thesis
      using entry[of i "es[i := \<lparr>hs_used = True, hs_key = k, hs_value = []\<rparr>]"] d by simp
  qed
qed

lemma host_set_str_effect:
  assumes "host_str_ok es" "key_ok k"
  shows "host_str_ok (snd (host_text_set k v es))"
    and "k' \<noteq> k \<Longrightarrow> str_map (snd (host_text_set k v es)) k' = str_map es k'"
    and "fst (host_text_set k v es) \<Longrightarrow> str_map (snd (host_text_set k v es)) k = Some v \<and> length v \<le> 128"
proof -
  have k: "k \<noteq> []" using assms(2) by (simp add: key_ok_def)
  note u = assms(1)[unfolded host_str_ok_def]
  have all: "host_str_ok (snd (host_text_set k v es)) \<and>
      (k' \<noteq> k \<longrightarrow> str_map (snd (host_text_set k v es)) k' = str_map es k') \<and>
      (fst (host_text_set k v es) \<longrightarrow> str_map (snd (host_text_set k v es)) k = Some v \<and> length v \<le> 128)"
  using assms proof (cases rule: host_entry_cases)
    case full
    then show ?thesis using k assms(1) by (simp add: host_text_set_def host_set_str_def)
  next
    case (entry i es1)
    have e: "es1 ! i = \<lparr>hs_used = True, hs_key = k, hs_value = hs_value (es1 ! i)\<rparr>"
      using entry(5,6) by (cases "es1 ! i") simp
    have w: "es1 = es[i := es1 ! i]" using entry(3)[of "es1 ! i"] by simp
    have put: "host_str_ok (es[i := \<lparr>hs_used = True, hs_key = k, hs_value = x\<rparr>])"
      "str_map (es[i := \<lparr>hs_used = True, hs_key = k, hs_value = x\<rparr>]) j = (if j = k then Some x else str_map es j)" for x j
      using host_strs.write_unique[OF u entry(2)] host_strs.write_map[OF u entry(2)]
      by (simp_all add: host_str_ok_def str_map_def)
    have es1: "host_str_ok es1" "str_map es1 j = (if j = k then Some (hs_value (es1 ! i)) else str_map es j)" for j
      using put[of "hs_value (es1 ! i)"] w e by metis+
    have upd: "(es1 ! i)\<lparr>hs_value := v\<rparr> = \<lparr>hs_used = True, hs_key = k, hs_value = v\<rparr>"
      by (subst e) simp
    show ?thesis
    proof (cases "length v + 1 > 129")
      case True
      then show ?thesis using k es1 by (simp add: host_text_set_def host_set_str_def entry(1))
    next
      case False
      then show ?thesis using k put by (simp add: host_text_set_def host_set_str_def entry(1) entry(3) upd)
    qed
  qed
  from all show "host_str_ok (snd (host_text_set k v es))"
    and "k' \<noteq> k \<Longrightarrow> str_map (snd (host_text_set k v es)) k' = str_map es k'"
    and "fst (host_text_set k v es) \<Longrightarrow> str_map (snd (host_text_set k v es)) k = Some v \<and> length v \<le> 128"
    by simp_all
qed

interpretation host_text: nvs_text host_text_get host_text_set host_str_ok
proof
  fix s :: "HostStrEntry list" and k k' v :: string and cap :: nat
  assume s: "host_str_ok s" and k: "key_ok k"
  show "host_str_ok (snd (host_text_set k v s))" by (rule host_set_str_effect(1)[OF s k])
  show "host_text_get k cap (snd (host_text_set k v s)) = Some v"
    if "fst (host_text_set k v s)" "length v < cap"
    using host_set_str_effect(3)[OF s k that(1)] that(2) k by (simp add: host_get_str_map key_ok_def)
  show "host_text_get k' cap (snd (host_text_set k v s)) = host_text_get k' cap s" if "k' \<noteq> k"
    using host_set_str_effect(2)[OF s k that] by (simp add: host_get_str_map)
qed

section \<open>Blobs\<close>

text \<open>A blob buffer has 4096 bytes, of which the first \<open>hb_len\<close> are the value.\<close>

record HostBlobEntry =
  hb_used :: bool
  hb_key :: string
  hb_value :: "u8 list"
  hb_len :: u32

definition host_blob_default :: HostBlobEntry where
  "host_blob_default = \<lparr>hb_used = False, hb_key = [], hb_value = replicate 4096 0, hb_len = 0\<rparr>"

definition host_blob_init :: "HostBlobEntry list" where
  "host_blob_init = replicate 8 host_blob_default"

definition host_find_blob_entry :: "bool \<Rightarrow> string \<Rightarrow> HostBlobEntry list \<Rightarrow> nat option \<times> HostBlobEntry list" where
  "host_find_blob_entry allow_create k es =
     (case find_index (\<lambda>e. hb_used e \<and> hb_key e = k) es of
        Some i \<Rightarrow> (Some i, es)
      | None \<Rightarrow>
          (case (if allow_create then find_index (\<lambda>e. \<not> hb_used e) es else None) of
             None \<Rightarrow> (None, es)
           | Some i \<Rightarrow> (Some i, es[i := host_blob_default\<lparr>hb_used := True, hb_key := host_key k\<rparr>])))"

text \<open>\<open>memcpy\<close> over the start of a buffer.\<close>

definition memcpy :: "'b list \<Rightarrow> 'b list \<Rightarrow> 'b list" where
  "memcpy dst src = src @ drop (length src) dst"

definition hal_nvs_set_blob :: "string \<Rightarrow> u8 list \<Rightarrow> HostBlobEntry list \<Rightarrow> hal_nvs_status \<times> HostBlobEntry list" where
  "hal_nvs_set_blob k value es =
     (if k = [] \<or> length value = 0 then (HAL_NVS_STATUS_INVALID_ARG, es)
      else (case host_find_blob_entry True k es of
              (None, es1) \<Rightarrow> (HAL_NVS_STATUS_NO_SPACE, es1)
            | (Some i, es1) \<Rightarrow>
                (if length value > 4096 then (HAL_NVS_STATUS_NO_SPACE, es1)
                 else (HAL_NVS_STATUS_OK, es1[i := (es1 ! i)\<lparr>hb_value := memcpy (hb_value (es1 ! i)) value,
                                                        hb_len := of_nat (length value)\<rparr>]))))"

text \<open>The status, the buffer after the call, and the length that was reported, if any.\<close>

definition hal_nvs_get_blob ::
  "string \<Rightarrow> u8 list \<Rightarrow> HostBlobEntry list \<Rightarrow> hal_nvs_status \<times> u8 list \<times> u32 option" where
  "hal_nvs_get_blob k buf es =
     (if k = [] then (HAL_NVS_STATUS_INVALID_ARG, buf, None)
      else (case fst (host_find_blob_entry False k es) of
              None \<Rightarrow> (HAL_NVS_STATUS_NOT_FOUND, buf, None)
            | Some i \<Rightarrow>
                (if hb_len (es ! i) > of_nat (length buf) then (HAL_NVS_STATUS_NO_SPACE, buf, Some (hb_len (es ! i)))
                 else (HAL_NVS_STATUS_OK, memcpy buf (take (unat (hb_len (es ! i))) (hb_value (es ! i))),
                       Some (hb_len (es ! i))))))"

locale nvs_blob =
  fixes set_blob :: "string \<Rightarrow> u8 list \<Rightarrow> 's \<Rightarrow> hal_nvs_status \<times> 's"
    and get_blob :: "string \<Rightarrow> u8 list \<Rightarrow> 's \<Rightarrow> hal_nvs_status \<times> u8 list \<times> u32 option"
    and ok :: "'s \<Rightarrow> bool"
  assumes set_blob_ok: "ok s \<Longrightarrow> key_ok k \<Longrightarrow> ok (snd (set_blob k v s))"
    and get_set_blob: "ok s \<Longrightarrow> key_ok k \<Longrightarrow> v \<noteq> [] \<Longrightarrow> fst (set_blob k v s) = HAL_NVS_STATUS_OK \<Longrightarrow>
      length v \<le> length buf \<Longrightarrow> length buf < 2 ^ 32 \<Longrightarrow>
      get_blob k buf (snd (set_blob k v s)) = (HAL_NVS_STATUS_OK, memcpy buf v, Some (of_nat (length v)))"
begin

text \<open>A buffer of exactly the stored size holds exactly what was stored.\<close>

lemma read_back:
  assumes "ok s" "key_ok k" "v \<noteq> []" "fst (set_blob k v s) = HAL_NVS_STATUS_OK" "length buf = length v"
    "length v < 2 ^ 32"
  shows "get_blob k buf (snd (set_blob k v s)) = (HAL_NVS_STATUS_OK, v, Some (of_nat (length v)))"
  using get_set_blob[OF assms(1-4), of buf] assms(5,6) by (simp add: memcpy_def)

end

interpretation host_blobs: slot_table hb_used hb_key host_blob_default
  by unfold_locales (simp add: host_blob_default_def)

definition host_blob_ok :: "HostBlobEntry list \<Rightarrow> bool" where
  "host_blob_ok es \<longleftrightarrow> unique_slots hb_used hb_key es \<and> (\<forall>e \<in> set es. length (hb_value e) = 4096 \<and> hb_len e \<le> 4096)"

lemma host_blob_ok_init: "host_blob_ok host_blob_init"
proof -
  have "length (hb_value host_blob_default) = 4096 \<and> hb_len host_blob_default \<le> 4096"
    by (simp add: host_blob_default_def)
  then show ?thesis by (simp add: host_blob_ok_def host_blob_init_def host_blobs.empty_unique)
qed

lemma host_blob_entry_cases:
  assumes "host_blob_ok es" "key_ok k"
  obtains (full) "host_find_blob_entry True k es = (None, es)"
    | (entry) i es1 where "host_find_blob_entry True k es = (Some i, es1)"
      "\<And>v n. host_blobs.writable i \<lparr>hb_used = True, hb_key = k, hb_value = v, hb_len = n\<rparr> es"
      "\<And>e. es1[i := e] = es[i := e]" "i < length es" "hb_used (es1 ! i)" "hb_key (es1 ! i) = k"
      "host_blob_ok es1"
proof (cases "find_slot hb_used hb_key k es")
  case (Some i)
  note d = host_blobs.find_slotD[OF Some]
  have "host_find_blob_entry True k es = (Some i, es)"
    using Some by (simp add: host_find_blob_entry_def find_slot_def)
  moreover have "host_blobs.writable i \<lparr>hb_used = True, hb_key = k, hb_value = v, hb_len = n\<rparr> es" for v n
    using Some d by (simp add: host_blobs.writable_def)
  ultimately show thesis using entry[of i es] d assms(1) by simp
next
  case None
  have key: "host_key k = k" using assms(2) by (simp add: host_key_def key_ok_def)
  show thesis
  proof (cases "find_index (\<lambda>e. \<not> hb_used e) es")
    case None2: None
    then show thesis using full None by (simp add: host_find_blob_entry_def find_slot_def)
  next
    case (Some i)
    note d = find_index_SomeD[OF Some]
    let ?e = "host_blob_default\<lparr>hb_used := True, hb_key := k\<rparr>"
    have "host_find_blob_entry True k es = (Some i, es[i := ?e])"
      using None Some by (simp add: host_find_blob_entry_def find_slot_def key)
    moreover have w: "host_blobs.writable i \<lparr>hb_used = True, hb_key = k, hb_value = v, hb_len = n\<rparr> es" for v n
      using None d by (simp add: host_blobs.writable_def)
    moreover have "host_blob_ok (es[i := ?e])"
      using assms(1) host_blobs.write_unique[of es i ?e] w[of "replicate 4096 0" 0]
      by (auto simp: host_blob_ok_def host_blob_default_def dest!: set_update_subset_insert[THEN subsetD])
    ultimately show thesis using entry[of i "es[i := ?e]"] d by simp
  qed
qed

lemma host_set_blob_effect:
  assumes "host_blob_ok es" "key_ok k"
  shows "host_blob_ok (snd (hal_nvs_set_blob k v es))"
    and "fst (hal_nvs_set_blob k v es) = HAL_NVS_STATUS_OK \<Longrightarrow> length v \<le> 4096 \<and>
      (\<exists>i e. hal_nvs_set_blob k v es = (HAL_NVS_STATUS_OK, es[i := e]) \<and> i < length es \<and>
        find_slot hb_used hb_key k (es[i := e]) = Some i \<and> hb_len e = of_nat (length v) \<and>
        take (length v) (hb_value e) = v)"
proof -
  have k: "k \<noteq> []" using assms(2) by (simp add: key_ok_def)
  have all: "host_blob_ok (snd (hal_nvs_set_blob k v es)) \<and>
      (fst (hal_nvs_set_blob k v es) = HAL_NVS_STATUS_OK \<longrightarrow> length v \<le> 4096 \<and>
      (\<exists>i e. hal_nvs_set_blob k v es = (HAL_NVS_STATUS_OK, es[i := e]) \<and> i < length es \<and>
        find_slot hb_used hb_key k (es[i := e]) = Some i \<and> hb_len e = of_nat (length v) \<and>
        take (length v) (hb_value e) = v))"
    using assms
  proof (cases rule: host_blob_entry_cases)
    case full
    then show ?thesis using k assms(1) by (simp add: hal_nvs_set_blob_def)
  next
    case (entry i es1)
    let ?e = "(es1 ! i)\<lparr>hb_value := memcpy (hb_value (es1 ! i)) v, hb_len := of_nat (length v)\<rparr>"
    show ?thesis
    proof (cases "v = [] \<or> length v > 4096")
      case True
      then show ?thesis using k assms(1) entry(1,7) by (auto simp: hal_nvs_set_blob_def)
    next
      case False
      then have n: "length v \<le> 4096" "v \<noteq> []" by auto
      have s: "hal_nvs_set_blob k v es = (HAL_NVS_STATUS_OK, es[i := ?e])"
        using k n by (simp add: hal_nvs_set_blob_def entry(1) entry(3))
      have i1: "i < length es1" using entry(3)[of undefined] entry(4) by (metis length_list_update)
      have len: "length (hb_value (es1 ! i)) = 4096" using entry(7) i1 by (simp add: host_blob_ok_def)
      have e: "?e = \<lparr>hb_used = True, hb_key = k, hb_value = memcpy (hb_value (es1 ! i)) v, hb_len = of_nat (length v)\<rparr>"
        using entry(5,6) by (cases "es1 ! i") simp
      have w: "host_blobs.writable i ?e es" unfolding e by (rule entry(2))
      have u: "unique_slots hb_used hb_key (es[i := ?e])"
        using host_blobs.write_unique[OF _ w] assms(1) by (simp add: host_blob_ok_def)
      have small: "(of_nat (length v) :: u32) \<le> 4096"
        using n(1) by (simp add: word_le_nat_alt unat_of_nat)
      have "host_blob_ok (es[i := ?e])"
        using assms(1) u len n small
        by (auto simp: host_blob_ok_def memcpy_def dest!: set_update_subset_insert[THEN subsetD])
      moreover have "find_slot hb_used hb_key k (es[i := ?e]) = Some i"
        using host_blobs.find_slot_iff[OF u] entry(4,5,6) by simp
      moreover have "hb_len ?e = of_nat (length v) \<and> take (length v) (hb_value ?e) = v" by (simp add: memcpy_def)
      ultimately show ?thesis using s n(1) entry(4) unfolding s fst_conv snd_conv by blast
    qed
  qed
  from all show "host_blob_ok (snd (hal_nvs_set_blob k v es))"
    and "fst (hal_nvs_set_blob k v es) = HAL_NVS_STATUS_OK \<Longrightarrow> length v \<le> 4096 \<and>
      (\<exists>i e. hal_nvs_set_blob k v es = (HAL_NVS_STATUS_OK, es[i := e]) \<and> i < length es \<and>
        find_slot hb_used hb_key k (es[i := e]) = Some i \<and> hb_len e = of_nat (length v) \<and>
        take (length v) (hb_value e) = v)"
    by blast+
qed

interpretation host_blob_store: nvs_blob hal_nvs_set_blob hal_nvs_get_blob host_blob_ok
proof
  fix s :: "HostBlobEntry list" and k :: string and v buf :: "u8 list"
  assume s: "host_blob_ok s" and k: "key_ok k"
  show "host_blob_ok (snd (hal_nvs_set_blob k v s))" by (rule host_set_blob_effect(1)[OF s k])
  assume st: "fst (hal_nvs_set_blob k v s) = HAL_NVS_STATUS_OK" and n: "length v \<le> length buf" "length buf < 2 ^ 32"
  obtain i e where r: "hal_nvs_set_blob k v s = (HAL_NVS_STATUS_OK, s[i := e])" "i < length s"
    "find_slot hb_used hb_key k (s[i := e]) = Some i" "hb_len e = of_nat (length v)" "take (length v) (hb_value e) = v"
    "length v \<le> 4096"
    using host_set_blob_effect(2)[OF s k st] by blast
  have "unat (of_nat (length v) :: u32) = length v" using r(6) by (simp add: unat_of_nat)
  moreover have "\<not> (of_nat (length v) :: u32) > of_nat (length buf)"
    using n r(6) by (simp add: word_less_nat_alt unat_of_nat)
  ultimately show "hal_nvs_get_blob k buf (snd (hal_nvs_set_blob k v s)) =
      (HAL_NVS_STATUS_OK, memcpy buf v, Some (of_nat (length v)))"
    using k r by (simp add: hal_nvs_get_blob_def host_find_blob_entry_def find_slot_def key_ok_def)
qed

end
