(* ===== verification/StatePersistence.thy ===== *)
theory StatePersistence
  imports CoreRegistry NvsText
begin

text \<open>
  \<^verbatim>\<open>components/service/state_persistence_coordinator.cpp\<close>: the core state is written to a blob when an effect
  asked for it, and published again after a restart. The blob is the memory of a \<^verbatim>\<open>PersistedCoreStateV1\<close>;
  how the compiler lays it out is not in the sources, so the operations take the layout \<open>pack\<close> and
  \<open>unpack\<close>, besides the blob store. The two flags are atomics, each read and cleared in one step.
\<close>

record PersistedCoreStateV1 =
  pc_magic :: u32
  pc_version :: u32
  pc_state :: CoreState

definition kPersistedCoreStateKey :: string where "kPersistedCoreStateKey = ''core_state_v1''"
definition kPersistedCoreStateMagic :: u32 where "kPersistedCoreStateMagic = 0x43535445"
definition kPersistedCoreStateVersion :: u32 where "kPersistedCoreStateVersion = 1"

definition persisted :: "CoreState \<Rightarrow> PersistedCoreStateV1" where
  "persisted s = \<lparr>pc_magic = kPersistedCoreStateMagic, pc_version = kPersistedCoreStateVersion, pc_state = s\<rparr>"

definition sanitize_restored_core_state :: "CoreState \<Rightarrow> CoreState" where
  "sanitize_restored_core_state s = s\<lparr>st_network_connected := False, st_last_command_status := 0\<rparr>"

definition has_restorable_devices :: "CoreState \<Rightarrow> bool" where
  "has_restorable_devices s \<longleftrightarrow> st_device_count s \<noteq> 0"

record StatePersistence =
  sp_restore_pending :: bool
  sp_persist_pending :: bool

definition state_persistence_init :: StatePersistence where
  "state_persistence_init = \<lparr>sp_restore_pending = False, sp_persist_pending = False\<rparr>"

datatype FlushResult = kFlushNoop | kFlushed | kFlushFailed

definition mark_restore_pending :: "StatePersistence \<Rightarrow> StatePersistence" where
  "mark_restore_pending p = p\<lparr>sp_restore_pending := True\<rparr>"

definition consume_restore_pending :: "StatePersistence \<Rightarrow> bool \<times> StatePersistence" where
  "consume_restore_pending p = (sp_restore_pending p, p\<lparr>sp_restore_pending := False\<rparr>)"

definition note_persist_state_requested :: "StatePersistence \<Rightarrow> StatePersistence" where
  "note_persist_state_requested p = p\<lparr>sp_persist_pending := True\<rparr>"

type_synonym 's blob_setter = "string \<Rightarrow> u8 list \<Rightarrow> 's \<Rightarrow> hal_nvs_status \<times> 's"
type_synonym 's blob_getter = "string \<Rightarrow> u8 list \<Rightarrow> 's \<Rightarrow> hal_nvs_status \<times> u8 list \<times> u32 option"

definition persist_current_core_state ::
  "'s blob_setter \<Rightarrow> (PersistedCoreStateV1 \<Rightarrow> u8 list) \<Rightarrow> Registry \<Rightarrow> 's \<Rightarrow> bool \<times> Registry \<times> 's" where
  "persist_current_core_state set_blob pack g s =
     (let (state, g1) = snapshot_copy g;
          (status, s1) = set_blob kPersistedCoreStateKey (pack (persisted state)) s
      in (status = HAL_NVS_STATUS_OK, g1, s1))"

definition flush_if_needed ::
  "'s blob_setter \<Rightarrow> (PersistedCoreStateV1 \<Rightarrow> u8 list) \<Rightarrow> StatePersistence \<Rightarrow> Registry \<Rightarrow> 's \<Rightarrow>
   FlushResult \<times> StatePersistence \<times> Registry \<times> 's" where
  "flush_if_needed set_blob pack p g s =
     (let p1 = p\<lparr>sp_persist_pending := False\<rparr>
      in if \<not> sp_persist_pending p then (kFlushNoop, p1, g, s)
         else (case persist_current_core_state set_blob pack g s of
                 (ok, g1, s1) \<Rightarrow> (if ok then kFlushed else kFlushFailed, p1, g1, s1)))"

definition restore_persisted_core_state ::
  "'s blob_getter \<Rightarrow> (PersistedCoreStateV1 \<Rightarrow> u8 list) \<Rightarrow> (u8 list \<Rightarrow> PersistedCoreStateV1) \<Rightarrow> Registry \<Rightarrow> 's \<Rightarrow>
   bool \<times> Registry" where
  "restore_persisted_core_state get_blob pack unpack g s =
     (let buf = pack (persisted core_state_default)
      in case get_blob kPersistedCoreStateKey buf s of (status, buf1, reported) \<Rightarrow>
        let p = unpack buf1; len = (case reported of None \<Rightarrow> 0 | Some n \<Rightarrow> n)
        in if status = HAL_NVS_STATUS_NOT_FOUND then (False, g)
           else if status \<noteq> HAL_NVS_STATUS_OK \<or> len \<noteq> of_nat (length buf) \<or>
                   pc_magic p \<noteq> kPersistedCoreStateMagic \<or> pc_version p \<noteq> kPersistedCoreStateVersion
           then (False, g)
           else let restored = sanitize_restored_core_state (pc_state p)
                in if \<not> has_restorable_devices restored then (False, g)
                   else publish restored g)"

lemma key_ok_core_state: "key_ok kPersistedCoreStateKey"
  by (simp add: key_ok_def kPersistedCoreStateKey_def)

lemma publish_init: "fst (publish s registry_init)" "visible (snd (publish s registry_init)) = next_state_of core_state_default s"
proof -
  have free: "slot_usable registry_init (reg_active registry_init) 1"
    by (simp add: slot_usable_def registry_init_def kSnapshotCount_def)
  have v: "visible registry_init = core_state_default"
    by (simp add: visible_def registry_init_def kSnapshotCount_def)
  from publish_cases[OF registry_shape_init, of s] free
  obtain c where c: "slot_usable registry_init (reg_active registry_init) c" "c < kSnapshotCount"
    "publish s registry_init = (True, activate c (write_slot c (next_state_of core_state_default s) registry_init))"
    unfolding v by (metis kSnapshotCount_def one_less_numeral_iff semiring_norm(76))
  show "fst (publish s registry_init)" using c(3) by simp
  show "visible (snd (publish s registry_init)) = next_state_of core_state_default s"
    unfolding c(3) snd_conv by (rule publish_True(1)[OF registry_shape_init c(2)])
qed

text \<open>
  C24: when a requested save of the core state was written, the restart after it publishes that state
  again (network and command status reset, everything else as it was visible), exactly when it had devices;
  the request is used up. This holds on any blob store that keeps what it accepted, and for any memory
  layout that gives the state back.
\<close>

theorem restart_restores_the_devices:
  assumes "nvs_blob set_blob get_blob ok" "ok s" "registry_shape g"
    and "unpack (pack (persisted (visible g))) = persisted (visible g)"
    and "length (pack (persisted (visible g))) = length (pack (persisted core_state_default))"
    and "0 < length (pack (persisted core_state_default))" "length (pack (persisted core_state_default)) < 2 ^ 32"
    and "flush_if_needed set_blob pack (note_persist_state_requested p) g s = (kFlushed, p1, g1, s1)"
    and "restore_persisted_core_state get_blob pack unpack registry_init s1 = (restored, g2)"
  shows "\<not> sp_persist_pending p1 \<and> restored = (st_device_count (visible g) \<noteq> 0) \<and>
    visible g2 = (if restored
      then next_state_of core_state_default ((visible g)\<lparr>st_network_connected := False, st_last_command_status := 0\<rparr>)
      else core_state_default)"
proof -
  let ?b = "pack (persisted (visible g))" and ?d = "pack (persisted core_state_default)"
  have set: "set_blob kPersistedCoreStateKey ?b s = (HAL_NVS_STATUS_OK, s1)" and p1: "\<not> sp_persist_pending p1"
    using assms(8) snapshot_copy_visible[OF assms(3)]
    by (auto simp: flush_if_needed_def persist_current_core_state_def note_persist_state_requested_def Let_def
        case_prod_unfold prod_eq_iff split: if_splits)
  have ne: "?b \<noteq> []" using assms(5,6) by auto
  have "get_blob kPersistedCoreStateKey ?d s1 = (HAL_NVS_STATUS_OK, ?b, Some (of_nat (length ?b)))"
    using nvs_blob.read_back[OF assms(1,2) key_ok_core_state, of ?b ?d] assms(5-7) set ne by simp
  then have r: "(restored, g2) =
      (if st_device_count (visible g) = 0 then (False, registry_init)
       else publish (sanitize_restored_core_state (visible g)) registry_init)"
    using assms(4,5,9)
    by (simp add: restore_persisted_core_state_def persisted_def sanitize_restored_core_state_def
        has_restorable_devices_def split: if_splits)
  have v: "visible registry_init = core_state_default"
    by (simp add: visible_def registry_init_def kSnapshotCount_def)
  show ?thesis
  proof (cases "st_device_count (visible g) = 0")
    case True
    then show ?thesis using r p1 v by simp
  next
    case False
    then have "publish (sanitize_restored_core_state (visible g)) registry_init = (restored, g2)" using r by simp
    then show ?thesis using False p1 publish_init[of "sanitize_restored_core_state (visible g)"]
      by (simp add: sanitize_restored_core_state_def)
  qed
qed

definition one_device :: CoreState where
  "one_device = core_state_default\<lparr>st_device_count := 1, st_revision := 7, st_network_connected := True\<rparr>"

definition sample_pack :: "PersistedCoreStateV1 \<Rightarrow> u8 list" where
  "sample_pack p = (if st_device_count (pc_state p) = 1 then [1] else [0])"

definition sample_unpack :: "u8 list \<Rightarrow> PersistedCoreStateV1" where
  "sample_unpack b = persisted (if b = [1] then one_device else core_state_default)"

lemma restart_restores_the_devices_witness:
  "\<exists>p1 g1 s1 g2. flush_if_needed hal_nvs_set_blob sample_pack (note_persist_state_requested state_persistence_init)
       (snd (publish one_device registry_init)) host_blob_init = (kFlushed, p1, g1, s1) \<and>
     restore_persisted_core_state hal_nvs_get_blob sample_pack sample_unpack registry_init s1 = (True, g2) \<and>
     visible g2 = one_device\<lparr>st_network_connected := False\<rparr>"
proof -
  let ?g = "snd (publish one_device registry_init)"
  have v: "visible ?g = one_device"
    by (simp add: publish_init next_state_of_def one_device_def core_state_default_def)
  have shape: "registry_shape ?g" by (rule publish_shape[OF registry_shape_init])
  obtain f p1 g1 s1 where fl: "flush_if_needed hal_nvs_set_blob sample_pack
      (note_persist_state_requested state_persistence_init) ?g host_blob_init = (f, p1, g1, s1)" by (metis prod.collapse)
  obtain r g2 where re: "restore_persisted_core_state hal_nvs_get_blob sample_pack sample_unpack registry_init s1 = (r, g2)"
    by fastforce
  have blank: "\<not> hb_used host_blob_default" by (simp add: host_blob_default_def)
  then have "find_index (\<lambda>e. hb_used e \<and> hb_key e = k) host_blob_init = None" for k
    by (simp add: host_blob_init_def find_index_None_iff)
  moreover have "find_index (\<lambda>e. \<not> hb_used e) host_blob_init = Some 0"
    using blank by (simp add: host_blob_init_def numeral_eq_Suc)
  ultimately have "fst (hal_nvs_set_blob kPersistedCoreStateKey [1] host_blob_init) = HAL_NVS_STATUS_OK"
    by (simp add: hal_nvs_set_blob_def host_find_blob_entry_def kPersistedCoreStateKey_def)
  then have f: "f = kFlushed"
    using fl snapshot_copy_visible[OF shape] v
    by (auto simp: flush_if_needed_def persist_current_core_state_def note_persist_state_requested_def Let_def
        case_prod_unfold sample_pack_def persisted_def one_device_def split: if_splits)
  have one: "st_device_count one_device = 1" "st_revision one_device = 7" "st_last_command_status one_device = 0"
    "st_device_count core_state_default = 0" "st_revision core_state_default = 0"
    "one_device\<lparr>st_network_connected := False, st_last_command_status := 0\<rparr> = one_device\<lparr>st_network_connected := False\<rparr>"
    by (simp_all add: one_device_def core_state_default_def)
  have "visible g2 = one_device\<lparr>st_network_connected := False\<rparr> \<and> r"
    using restart_restores_the_devices[OF host_blob_store.nvs_blob_axioms host_blob_ok_init shape _ _ _ _ fl[unfolded f] re]
    unfolding v by (simp add: sample_pack_def sample_unpack_def persisted_def one next_state_of_def)
  with fl f re show ?thesis by auto
qed

end
