(* ===== verification/NetState.thy ===== *)
theory NetState
  imports RuntimeReports PersistenceManager "HOL-Library.State_Monad"
begin

text \<open>
  The state the network side of the runtime works on: the connectivity manager, the network policy
  manager, the network manager, the scan manager, the join window cache of the Zigbee lifecycle
  coordinator, the finished results, and the runtime itself. The drivers are an argument, a record of
  functions on a state of their own: every call may answer differently, so they also stand for the
  radio and the access point. The operations are written in the state monad, in the order of the code.
\<close>

section \<open>Drivers\<close>

datatype hal_wifi_mode = HAL_WIFI_MODE_NULL | HAL_WIFI_MODE_STA | HAL_WIFI_MODE_AP | HAL_WIFI_MODE_APSTA

datatype hal_zigbee_status =
  HAL_ZIGBEE_STATUS_OK | HAL_ZIGBEE_STATUS_ERR | HAL_ZIGBEE_STATUS_NETWORK_NOT_FORMED |
  HAL_ZIGBEE_STATUS_INVALID_ARG | HAL_ZIGBEE_STATUS_NOT_STARTED | HAL_ZIGBEE_STATUS_NOT_LINKED

record NetworkScanRecord =
  nr_ssid :: string
  nr_rssi :: u8
  nr_is_open :: bool

text \<open>A Boolean answer says whether the status was OK; an optional answer is the value of an OK status.\<close>

record 'h Hal =
  hal_clock_ms :: "'h \<Rightarrow> u32 \<times> 'h"
  hal_nvs_get_str :: "string \<Rightarrow> nat \<Rightarrow> 'h \<Rightarrow> string option \<times> 'h"
  hal_nvs_set_str :: "string \<Rightarrow> string \<Rightarrow> 'h \<Rightarrow> bool \<times> 'h"
  hal_wifi_get_mode :: "'h \<Rightarrow> hal_wifi_mode option \<times> 'h"
  hal_wifi_set_mode :: "hal_wifi_mode \<Rightarrow> 'h \<Rightarrow> bool \<times> 'h"
  hal_wifi_start_ap :: "string \<Rightarrow> string \<Rightarrow> 'h \<Rightarrow> bool \<times> 'h"
  hal_wifi_get_ap_client_count :: "'h \<Rightarrow> nat option \<times> 'h"
  hal_wifi_connect_sta :: "string \<Rightarrow> string \<Rightarrow> 'h \<Rightarrow> bool \<times> 'h"
  hal_wifi_connect_sta_async :: "string \<Rightarrow> string \<Rightarrow> 'h \<Rightarrow> bool \<times> 'h"
  hal_wifi_scan :: "nat \<Rightarrow> 'h \<Rightarrow> NetworkScanRecord list option \<times> 'h"
  hal_zigbee_set_primary_channel_mask :: "u32 \<Rightarrow> 'h \<Rightarrow> bool \<times> 'h"
  hal_zigbee_set_max_children :: "u8 \<Rightarrow> 'h \<Rightarrow> bool \<times> 'h"
  hal_zigbee_init :: "'h \<Rightarrow> bool \<times> 'h"
  hal_zigbee_is_network_formed :: "'h \<Rightarrow> bool \<times> 'h"
  hal_zigbee_start_network_formation :: "'h \<Rightarrow> hal_zigbee_status \<times> 'h"
  hal_zigbee_open_network :: "u16 \<Rightarrow> 'h \<Rightarrow> hal_zigbee_status \<times> 'h"
  hal_zigbee_close_network :: "'h \<Rightarrow> hal_zigbee_status \<times> 'h"
  hal_zigbee_remove_device :: "u16 \<Rightarrow> 'h \<Rightarrow> hal_zigbee_status \<times> 'h"
  hal_zigbee_get_join_window_status :: "'h \<Rightarrow> (bool \<times> u16) option \<times> 'h"

section \<open>Requests and results\<close>

datatype NetworkOperationType = kOpUnknown | kScan | kConnect | kCredentialsStatus | kOpenJoinWindow | kRemoveDevice

datatype NetworkOperationStatus = kNetOk | kNetInvalidArgument | kNetNoCapacity | kNetHalFailed

record NetworkRequest =
  nq_request_id :: u32
  nq_operation :: NetworkOperationType
  nq_force_remove :: bool
  nq_save_credentials :: bool
  nq_force_remove_timeout_ms :: u32
  nq_join_window_seconds :: u16
  nq_device_short_addr :: u16
  nq_ssid :: string
  nq_password :: string

definition network_request_default :: NetworkRequest where
  "network_request_default =
     \<lparr>nq_request_id = 0, nq_operation = kOpUnknown, nq_force_remove = False, nq_save_credentials = False,
      nq_force_remove_timeout_ms = 0, nq_join_window_seconds = 0, nq_device_short_addr = kUnknownDeviceShortAddr,
      nq_ssid = [], nq_password = []\<rparr>"

text \<open>The result of a request but for its id, which the result store keeps.\<close>

record NetworkResult =
  ne_operation :: NetworkOperationType
  ne_status :: NetworkOperationStatus
  ne_force_remove :: bool
  ne_saved :: bool
  ne_has_password :: bool
  ne_force_remove_timeout_ms :: u32
  ne_join_window_seconds :: u16
  ne_device_short_addr :: u16
  ne_scan_records :: "NetworkScanRecord list"
  ne_ssid :: string

definition network_result_default :: NetworkResult where
  "network_result_default =
     \<lparr>ne_operation = kOpUnknown, ne_status = kNetInvalidArgument, ne_force_remove = False, ne_saved = False,
      ne_has_password = False, ne_force_remove_timeout_ms = 0, ne_join_window_seconds = 0,
      ne_device_short_addr = kUnknownDeviceShortAddr, ne_scan_records = [], ne_ssid = []\<rparr>"

record PendingStaConnect =
  ps_in_use :: bool
  ps_saved :: bool
  ps_request_id :: u32
  ps_deadline_ms :: u32
  ps_ssid :: string

definition pending_sta_default :: PendingStaConnect where
  "pending_sta_default = \<lparr>ps_in_use = False, ps_saved = False, ps_request_id = 0, ps_deadline_ms = 0, ps_ssid = []\<rparr>"

section \<open>The managers\<close>

record ConnectivityManager =
  cn_autoconnect_retry_count :: u8
  cn_next_autoconnect_attempt_ms :: u32
  cn_zigbee_started :: bool
  cn_zigbee_start_allowed :: bool

record NetworkPolicyManager =
  np_pending_sta_connect :: PendingStaConnect
  np_join_window_explicit_expected :: bool
  np_pending_join_window_seconds :: u16
  np_zigbee_next_formation_retry_ms :: u32
  np_zigbee_formation_retry_count :: u16
  np_zigbee_join_window_was_open :: bool
  np_auto_rejoin_next_open_ms :: u32

record ZigbeeLifecycle =
  zl_join_window_open_cache :: bool
  zl_join_window_seconds_left_cache :: u32

record NetworkManager =
  nm_refresh_requested :: bool
  nm_refresh_count :: u32
  nm_requests :: "NetworkRequest ring"

record ScanManager =
  sm_queue :: "u32 ring"
  sm_busy :: bool
  sm_pending_count :: u32
  sm_active_request_id :: u32

record ('h, 'o, 'r) Net =
  nt_hal :: 'h
  nt_runtime :: ServiceRuntime
  nt_connectivity :: ConnectivityManager
  nt_policy :: NetworkPolicyManager
  nt_lifecycle :: ZigbeeLifecycle
  nt_network :: NetworkManager
  nt_scan :: ScanManager
  nt_results :: "(u8, NetworkResult, 'o, 'r) ResultStore"

definition connectivity_init :: ConnectivityManager where
  "connectivity_init = \<lparr>cn_autoconnect_retry_count = 0, cn_next_autoconnect_attempt_ms = 0,
     cn_zigbee_started = False, cn_zigbee_start_allowed = False\<rparr>"

definition network_policy_init :: NetworkPolicyManager where
  "network_policy_init = \<lparr>np_pending_sta_connect = pending_sta_default, np_join_window_explicit_expected = False,
     np_pending_join_window_seconds = 0, np_zigbee_next_formation_retry_ms = 0, np_zigbee_formation_retry_count = 0,
     np_zigbee_join_window_was_open = False, np_auto_rejoin_next_open_ms = 0\<rparr>"

definition zigbee_lifecycle_init :: ZigbeeLifecycle where
  "zigbee_lifecycle_init = \<lparr>zl_join_window_open_cache = False, zl_join_window_seconds_left_cache = 0\<rparr>"

definition kRequestQueueCapacity :: nat where "kRequestQueueCapacity = 8"
definition kScanQueueCapacity :: nat where "kScanQueueCapacity = 8"
definition kNetworkScanMaxRecords :: nat where "kNetworkScanMaxRecords = 16"
definition kStaConnectAsyncTimeoutMs :: u32 where "kStaConnectAsyncTimeoutMs = 12000"

definition network_manager_init :: NetworkManager where
  "network_manager_init = \<lparr>nm_refresh_requested = False, nm_refresh_count = 0,
     nm_requests = ring_empty kRequestQueueCapacity network_request_default\<rparr>"

definition scan_manager_init :: ScanManager where
  "scan_manager_init = \<lparr>sm_queue = ring_empty kScanQueueCapacity 0, sm_busy = False, sm_pending_count = 0,
     sm_active_request_id = 0\<rparr>"

definition net_init :: "'h \<Rightarrow> 'o \<Rightarrow> 'r \<Rightarrow> ('h, 'o, 'r) Net" where
  "net_init h ob r =
     \<lparr>nt_hal = h, nt_runtime = runtime_init, nt_connectivity = connectivity_init, nt_policy = network_policy_init,
      nt_lifecycle = zigbee_lifecycle_init, nt_network = network_manager_init, nt_scan = scan_manager_init,
      nt_results = result_store_init 0 network_result_default ob r\<rparr>"

section \<open>Operations on the parts\<close>

type_synonym ('h, 'o, 'r, 'a) net = "(('h, 'o, 'r) Net, 'a) state"

text \<open>Calling a driver, reading the state, changing one part of it.\<close>

definition call :: "('h \<Rightarrow> 'a \<times> 'h) \<Rightarrow> ('h, 'o, 'r, 'a) net" where
  "call f = State (\<lambda>s. case f (nt_hal s) of (a, h) \<Rightarrow> (a, s\<lparr>nt_hal := h\<rparr>))"

definition gets :: "('s \<Rightarrow> 'a) \<Rightarrow> ('s, 'a) state" where
  "gets f = State (\<lambda>s. (f s, s))"

definition modify :: "('s \<Rightarrow> 's) \<Rightarrow> ('s, unit) state" where
  "modify f = State (\<lambda>s. ((), f s))"

definition runtime :: "(ServiceRuntime \<Rightarrow> 'a \<times> ServiceRuntime) \<Rightarrow> ('h, 'o, 'r, 'a) net" where
  "runtime f = State (\<lambda>s. case f (nt_runtime s) of (a, rt) \<Rightarrow> (a, s\<lparr>nt_runtime := rt\<rparr>))"

definition on_runtime :: "(ServiceRuntime \<Rightarrow> ServiceRuntime) \<Rightarrow> ('h, 'o, 'r, unit) net" where
  "on_runtime f = modify (\<lambda>s. s\<lparr>nt_runtime := f (nt_runtime s)\<rparr>)"

definition on_connectivity :: "(ConnectivityManager \<Rightarrow> ConnectivityManager) \<Rightarrow> ('h, 'o, 'r, unit) net" where
  "on_connectivity f = modify (\<lambda>s. s\<lparr>nt_connectivity := f (nt_connectivity s)\<rparr>)"

definition on_policy :: "(NetworkPolicyManager \<Rightarrow> NetworkPolicyManager) \<Rightarrow> ('h, 'o, 'r, unit) net" where
  "on_policy f = modify (\<lambda>s. s\<lparr>nt_policy := f (nt_policy s)\<rparr>)"

definition results ::
  "((u8, NetworkResult, 'o, 'r) ResultStore \<Rightarrow> 'a \<times> (u8, NetworkResult, 'o, 'r) ResultStore) \<Rightarrow> ('h, 'o, 'r, 'a) net" where
  "results f = State (\<lambda>s. case f (nt_results s) of (a, q) \<Rightarrow> (a, s\<lparr>nt_results := q\<rparr>))"

lemma run_net [simp]:
  "run_state (call f) s = (case f (nt_hal s) of (a, h) \<Rightarrow> (a, s\<lparr>nt_hal := h\<rparr>))"
  "run_state (gets g) t = (g t, t)"
  "run_state (modify m) t = ((), m t)"
  "run_state (runtime r) s = (case r (nt_runtime s) of (b, rt) \<Rightarrow> (b, s\<lparr>nt_runtime := rt\<rparr>))"
  "run_state (on_runtime u) s = ((), s\<lparr>nt_runtime := u (nt_runtime s)\<rparr>)"
  "run_state (on_connectivity c) s = ((), s\<lparr>nt_connectivity := c (nt_connectivity s)\<rparr>)"
  "run_state (on_policy p) s = ((), s\<lparr>nt_policy := p (nt_policy s)\<rparr>)"
  "run_state (results q) s = (case q (nt_results s) of (d, rs) \<Rightarrow> (d, s\<lparr>nt_results := rs\<rparr>))"
  by (simp_all add: call_def gets_def modify_def runtime_def on_runtime_def on_connectivity_def on_policy_def results_def)

text \<open>A run goes through the branches of the code.\<close>

lemma run_branches [simp]:
  "run_state (if b then m else n) s = (if b then run_state m s else run_state n s)"
  "run_state (case x of None \<Rightarrow> m | Some y \<Rightarrow> f y) s = (case x of None \<Rightarrow> run_state m s | Some y \<Rightarrow> run_state (f y) s)"
  "run_state (case p of (a, c) \<Rightarrow> g a c) s = (case p of (a, c) \<Rightarrow> run_state (g a c) s)"
  by (simp_all split: option.split prod.split)

lemma run_let [simp]: "run_state (let x = t in f x) s = (let x = t in run_state (f x) s)"
  by (simp add: Let_def)

text \<open>Operations that only talk to the drivers.\<close>

definition only_hal :: "('h, 'o, 'r, 'a) net \<Rightarrow> bool" where
  "only_hal m \<longleftrightarrow> (\<forall>s. \<exists>h. snd (run_state m s) = s\<lparr>nt_hal := h\<rparr>)"

named_theorems only_hal_intros

lemma only_hal_return [only_hal_intros]: "only_hal (State_Monad.return a)"
  unfolding only_hal_def
proof
  fix s show "\<exists>h. snd (run_state (State_Monad.return a) s) = s\<lparr>nt_hal := h\<rparr>" by (rule exI[of _ "nt_hal s"]) simp
qed

lemma only_hal_gets [only_hal_intros]: "only_hal (gets f)"
  unfolding only_hal_def
proof
  fix s show "\<exists>h. snd (run_state (gets f) s) = s\<lparr>nt_hal := h\<rparr>" by (rule exI[of _ "nt_hal s"]) simp
qed

lemma only_hal_call [only_hal_intros]: "only_hal (call f)"
  by (auto simp: only_hal_def split: prod.split)

lemma only_hal_bind [only_hal_intros]:
  assumes "only_hal m" "\<And>x. only_hal (f x)"
  shows "only_hal (State_Monad.bind m f)"
  unfolding only_hal_def
proof
  fix s
  obtain a s1 where a: "run_state m s = (a, s1)" by fastforce
  obtain h where h: "s1 = s\<lparr>nt_hal := h\<rparr>" using assms(1) a by (metis only_hal_def snd_conv)
  obtain h' where "snd (run_state (f a) s1) = s1\<lparr>nt_hal := h'\<rparr>" using assms(2) by (auto simp: only_hal_def)
  then show "\<exists>h. snd (run_state (State_Monad.bind m f) s) = s\<lparr>nt_hal := h\<rparr>" using a h by auto
qed

lemma only_hal_if [only_hal_intros]: "only_hal m \<Longrightarrow> only_hal n \<Longrightarrow> only_hal (if b then m else n)"
  by simp

lemma only_hal_option [only_hal_intros]:
  "only_hal m \<Longrightarrow> (\<And>y. only_hal (f y)) \<Longrightarrow> only_hal (case x of None \<Rightarrow> m | Some y \<Rightarrow> f y)"
  by (simp split: option.split)

lemma only_hal_mode [only_hal_intros]:
  "only_hal a \<Longrightarrow> only_hal b \<Longrightarrow> only_hal c \<Longrightarrow> only_hal d \<Longrightarrow>
   only_hal (case x of HAL_WIFI_MODE_NULL \<Rightarrow> a | HAL_WIFI_MODE_STA \<Rightarrow> b | HAL_WIFI_MODE_AP \<Rightarrow> c | HAL_WIFI_MODE_APSTA \<Rightarrow> d)"
  by (simp split: hal_wifi_mode.split)

lemma only_halE:
  assumes "only_hal m"
  obtains a h where "run_state m s = (a, s\<lparr>nt_hal := h\<rparr>)"
  using assms that[of "fst (run_state m s)"] by (metis only_hal_def prod.collapse)

text \<open>The clock of the runtime: the last tick, or the clock of the platform before the first one.\<close>

definition now :: "'h Hal \<Rightarrow> ('h, 'o, 'r, u32) net" where
  "now H = do {
     rt \<leftarrow> gets nt_runtime;
     if rt_last_tick_ms rt \<noteq> 0 then State_Monad.return (rt_last_tick_ms rt)
     else call (hal_clock_ms H)
   }"

definition set_current_backoff_ms :: "u32 \<Rightarrow> ServiceRuntime \<Rightarrow> ServiceRuntime" where
  "set_current_backoff_ms ms rt = rt\<lparr>rt_stats := (rt_stats rt)\<lparr>rx_current_backoff_ms := ms\<rparr>\<rparr>"

definition count_autoconnect_failure :: "ServiceRuntime \<Rightarrow> ServiceRuntime" where
  "count_autoconnect_failure rt =
     rt\<lparr>rt_stats := (rt_stats rt)\<lparr>rx_autoconnect_failures := rx_autoconnect_failures (rt_stats rt) + 1\<rparr>\<rparr>"

text \<open>\<^verbatim>\<open>strncpy\<close> into a zeroed buffer of \<open>n\<close> bytes keeps the first \<open>n - 1\<close> characters.\<close>

definition text_of :: "nat \<Rightarrow> string \<Rightarrow> string" where
  "text_of n s = take (n - 1) s"

section \<open>The join window cache\<close>

definition set_join_window_cache :: "bool \<Rightarrow> u16 \<Rightarrow> ('h, 'o, 'r, unit) net" where
  "set_join_window_cache is_open seconds_left =
     modify (\<lambda>s. s\<lparr>nt_lifecycle := \<lparr>zl_join_window_open_cache = is_open,
                     zl_join_window_seconds_left_cache = (if is_open then ucast seconds_left else 0)\<rparr>\<rparr>)"

definition get_join_window_status :: "ZigbeeLifecycle \<Rightarrow> bool \<times> u16" where
  "get_join_window_status z =
     (let cached_seconds = zl_join_window_seconds_left_cache z;
          local_seconds_left = (if cached_seconds > 0xFFFF then 0xFFFF else ucast cached_seconds)
      in (zl_join_window_open_cache z, if zl_join_window_open_cache z then local_seconds_left else 0))"

lemma run_set_join_window_cache [simp]:
  "run_state (set_join_window_cache b n) s = ((), s\<lparr>nt_lifecycle := \<lparr>zl_join_window_open_cache = b,
     zl_join_window_seconds_left_cache = (if b then ucast n else 0)\<rparr>\<rparr>)"
  by (simp add: set_join_window_cache_def)

lemma only_hal_now [only_hal_intros]: "only_hal (now H)"
  unfolding now_def by (intro only_hal_intros)

end
