(* ===== verification/HostDrivers.thy ===== *)
theory HostDrivers
  imports NetState NvsText
begin

text \<open>
  The drivers of the host build (the branches of \<^verbatim>\<open>app_hal/hal_wifi.c\<close>, \<^verbatim>\<open>hal_zigbee.c\<close> and \<^verbatim>\<open>hal_nvs.c\<close> that
  are not for the target), as an instance of the interface: a mode, two switches for tests, the network
  that is formed or not, and the strings of the store. A callback into the application is recorded, in
  order; it is delivered as an event of its own, as on the target.
\<close>

datatype HostCall = OnNetworkUp | OnNetworkDown

record HostState =
  hh_clock_ms :: u32
  hh_strs :: "HostStrEntry list"
  hh_mode :: hal_wifi_mode
  hh_simulate_connect_failure :: bool
  hh_network_formed :: bool
  hh_next_formation_status :: "hal_zigbee_status option"
  hh_calls :: "HostCall list"

definition host_drivers_init :: HostState where
  "host_drivers_init = \<lparr>hh_clock_ms = 1, hh_strs = host_str_init, hh_mode = HAL_WIFI_MODE_NULL,
     hh_simulate_connect_failure = False, hh_network_formed = True, hh_next_formation_status = None, hh_calls = []\<rparr>"

section \<open>Wi-Fi\<close>

definition host_callback :: "HostCall \<Rightarrow> HostState \<Rightarrow> HostState" where
  "host_callback c h = h\<lparr>hh_calls := hh_calls h @ [c]\<rparr>"

definition host_wifi_get_mode :: "HostState \<Rightarrow> hal_wifi_mode option \<times> HostState" where
  "host_wifi_get_mode h = (Some (hh_mode h), h)"

definition host_wifi_set_mode :: "hal_wifi_mode \<Rightarrow> HostState \<Rightarrow> bool \<times> HostState" where
  "host_wifi_set_mode mode h = (True, h\<lparr>hh_mode := mode\<rparr>)"

definition host_wifi_start_ap :: "string \<Rightarrow> string \<Rightarrow> HostState \<Rightarrow> bool \<times> HostState" where
  "host_wifi_start_ap ssid password h = (True, host_callback OnNetworkUp (h\<lparr>hh_mode := HAL_WIFI_MODE_AP\<rparr>))"

definition host_wifi_connect_sta_async :: "string \<Rightarrow> string \<Rightarrow> HostState \<Rightarrow> bool \<times> HostState" where
  "host_wifi_connect_sta_async ssid password h =
     (if hh_simulate_connect_failure h then (False, h)
      else if hh_mode h \<noteq> HAL_WIFI_MODE_STA \<and> hh_mode h \<noteq> HAL_WIFI_MODE_APSTA then (False, h)
      else (True, host_callback OnNetworkUp h))"

definition host_wifi_connect_sta :: "string \<Rightarrow> string \<Rightarrow> HostState \<Rightarrow> bool \<times> HostState" where
  "host_wifi_connect_sta ssid password h = host_wifi_connect_sta_async ssid password h"

definition host_wifi_get_ap_client_count :: "HostState \<Rightarrow> nat option \<times> HostState" where
  "host_wifi_get_ap_client_count h = (Some 0, h)"

definition sample_networks :: "NetworkScanRecord list" where
  "sample_networks =
     [\<lparr>nr_ssid = ''HomeWiFi'', nr_rssi = - 45, nr_is_open = False\<rparr>,
      \<lparr>nr_ssid = ''OfficeWiFi'', nr_rssi = - 62, nr_is_open = False\<rparr>,
      \<lparr>nr_ssid = ''Guest'', nr_rssi = - 70, nr_is_open = True\<rparr>]"

definition host_wifi_scan :: "nat \<Rightarrow> HostState \<Rightarrow> NetworkScanRecord list option \<times> HostState" where
  "host_wifi_scan capacity h = (if capacity = 0 then None else Some (take capacity sample_networks), h)"

definition host_wifi_refresh :: "HostState \<Rightarrow> bool \<times> HostState" where
  "host_wifi_refresh h = (True, host_callback OnNetworkUp (host_callback OnNetworkDown h))"

section \<open>Zigbee\<close>

definition host_zigbee_set_primary_channel_mask :: "u32 \<Rightarrow> HostState \<Rightarrow> bool \<times> HostState" where
  "host_zigbee_set_primary_channel_mask channel_mask h = (channel_mask \<noteq> 0, h)"

definition host_zigbee_set_max_children :: "u8 \<Rightarrow> HostState \<Rightarrow> bool \<times> HostState" where
  "host_zigbee_set_max_children max_children h = (max_children \<noteq> 0, h)"

definition host_zigbee_is_network_formed :: "HostState \<Rightarrow> bool \<times> HostState" where
  "host_zigbee_is_network_formed h = (hh_network_formed h, h)"

definition host_zigbee_start_network_formation :: "HostState \<Rightarrow> hal_zigbee_status \<times> HostState" where
  "host_zigbee_start_network_formation h =
     (let status = (case hh_next_formation_status h of None \<Rightarrow> HAL_ZIGBEE_STATUS_OK | Some s \<Rightarrow> s);
          h1 = h\<lparr>hh_next_formation_status := None\<rparr>
      in (status, if status = HAL_ZIGBEE_STATUS_OK then h1\<lparr>hh_network_formed := True\<rparr> else h1))"

definition host_zigbee_open_network :: "u16 \<Rightarrow> HostState \<Rightarrow> hal_zigbee_status \<times> HostState" where
  "host_zigbee_open_network duration_seconds h =
     (if duration_seconds = 0 then HAL_ZIGBEE_STATUS_INVALID_ARG else HAL_ZIGBEE_STATUS_OK, h)"

definition host_zigbee_close_network :: "HostState \<Rightarrow> hal_zigbee_status \<times> HostState" where
  "host_zigbee_close_network h = (HAL_ZIGBEE_STATUS_OK, h)"

definition host_zigbee_remove_device :: "u16 \<Rightarrow> HostState \<Rightarrow> hal_zigbee_status \<times> HostState" where
  "host_zigbee_remove_device a h =
     (if a = 0xFFFF \<or> a = 0 then HAL_ZIGBEE_STATUS_INVALID_ARG else HAL_ZIGBEE_STATUS_OK, h)"

definition host_zigbee_get_join_window_status :: "HostState \<Rightarrow> (bool \<times> u16) option \<times> HostState" where
  "host_zigbee_get_join_window_status h = (Some (False, 0), h)"

definition host_simulate_start_network_formation_status_once :: "hal_zigbee_status \<Rightarrow> HostState \<Rightarrow> HostState" where
  "host_simulate_start_network_formation_status_once status h = h\<lparr>hh_next_formation_status := Some status\<rparr>"

definition host_simulate_network_formed :: "bool \<Rightarrow> HostState \<Rightarrow> HostState" where
  "host_simulate_network_formed formed h = h\<lparr>hh_network_formed := formed\<rparr>"

definition host_simulate_connect_failure :: "bool \<Rightarrow> HostState \<Rightarrow> HostState" where
  "host_simulate_connect_failure on h = h\<lparr>hh_simulate_connect_failure := on\<rparr>"

section \<open>The drivers together\<close>

definition host_hal :: "HostState Hal" where
  "host_hal =
     \<lparr>hal_clock_ms = (\<lambda>h. (hh_clock_ms h, h)),
      hal_nvs_get_str = (\<lambda>k n h. (host_text_get k n (hh_strs h), h)),
      hal_nvs_set_str = (\<lambda>k v h. case host_text_set k v (hh_strs h) of (ok, es) \<Rightarrow> (ok, h\<lparr>hh_strs := es\<rparr>)),
      hal_wifi_get_mode = host_wifi_get_mode, hal_wifi_set_mode = host_wifi_set_mode,
      hal_wifi_start_ap = host_wifi_start_ap, hal_wifi_get_ap_client_count = host_wifi_get_ap_client_count,
      hal_wifi_connect_sta = host_wifi_connect_sta, hal_wifi_connect_sta_async = host_wifi_connect_sta_async,
      hal_wifi_scan = host_wifi_scan,
      hal_zigbee_set_primary_channel_mask = host_zigbee_set_primary_channel_mask,
      hal_zigbee_set_max_children = host_zigbee_set_max_children, hal_zigbee_init = (\<lambda>h. (True, h)),
      hal_zigbee_is_network_formed = host_zigbee_is_network_formed,
      hal_zigbee_start_network_formation = host_zigbee_start_network_formation,
      hal_zigbee_open_network = host_zigbee_open_network, hal_zigbee_close_network = host_zigbee_close_network,
      hal_zigbee_remove_device = host_zigbee_remove_device,
      hal_zigbee_get_join_window_status = host_zigbee_get_join_window_status\<rparr>"

text \<open>
  What the application relies on for the credentials: a view of the stored strings that only storing a
  string changes, and that reading a string shows.
\<close>

locale credential_drivers =
  fixes H :: "'h Hal" and strs_of :: "'h \<Rightarrow> string \<rightharpoonup> string" and fine :: "'h \<Rightarrow> bool"
  assumes set_str: "fine h \<Longrightarrow> key_ok k \<Longrightarrow> fst (hal_nvs_set_str H k v h) \<Longrightarrow>
      strs_of (snd (hal_nvs_set_str H k v h)) = (strs_of h)(k \<mapsto> v)"
    and set_str_fine: "fine h \<Longrightarrow> key_ok k \<Longrightarrow> fine (snd (hal_nvs_set_str H k v h))"
    and get_str: "fine h \<Longrightarrow> key_ok k \<Longrightarrow> strs_of h k = Some v \<Longrightarrow> length v < n \<Longrightarrow> fst (hal_nvs_get_str H k n h) = Some v"
    and get_str_keeps: "fine h \<Longrightarrow> fine (snd (hal_nvs_get_str H k n h)) \<and> strs_of (snd (hal_nvs_get_str H k n h)) = strs_of h"
    and wifi_keeps: "fine h \<Longrightarrow> fine (snd (hal_wifi_get_mode H h)) \<and> strs_of (snd (hal_wifi_get_mode H h)) = strs_of h"
      "fine h \<Longrightarrow> fine (snd (hal_wifi_set_mode H m h)) \<and> strs_of (snd (hal_wifi_set_mode H m h)) = strs_of h"
      "fine h \<Longrightarrow> fine (snd (hal_wifi_connect_sta_async H a b h)) \<and> strs_of (snd (hal_wifi_connect_sta_async H a b h)) = strs_of h"
      "fine h \<Longrightarrow> fine (snd (hal_clock_ms H h)) \<and> strs_of (snd (hal_clock_ms H h)) = strs_of h"

definition host_text :: "HostState \<Rightarrow> string \<rightharpoonup> string" where
  "host_text h = str_map (hh_strs h)"

definition host_fine :: "HostState \<Rightarrow> bool" where
  "host_fine h \<longleftrightarrow> host_str_ok (hh_strs h)"

interpretation host_credentials: credential_drivers host_hal host_text host_fine
proof (unfold_locales, goal_cases)
  case (1 h k v)
  then show ?case
    using host_set_str_effect(2)[of "hh_strs h" k _ v] host_set_str_effect(3)[of "hh_strs h" k v]
    by (auto simp: host_hal_def host_text_def host_fine_def case_prod_unfold fun_eq_iff)
next
  case (2 h k v)
  then show ?case using host_set_str_effect(1)[of "hh_strs h" k v]
    by (simp add: host_hal_def host_fine_def case_prod_unfold)
next
  case (3 h k v n)
  then show ?case by (simp add: host_hal_def host_text_def host_get_str_map key_ok_def)
qed (simp_all add: host_hal_def host_text_def host_fine_def host_wifi_get_mode_def host_wifi_set_mode_def
    host_wifi_connect_sta_async_def host_callback_def)

end
