(* ===== verification/Connectivity.thy ===== *)
theory Connectivity
  imports HostDrivers
begin

text \<open>
  \<^verbatim>\<open>components/service/connectivity_manager.cpp\<close>: the Wi-Fi mode for scans and connections, the connection
  with saved credentials and its backoff, and the start of the Zigbee stack. With it
  \<^verbatim>\<open>NetworkPolicyManager::on_zigbee_started\<close>, which the start calls.
\<close>

definition kServiceZigbeePrimaryChannelMask :: u32 where "kServiceZigbeePrimaryChannelMask = push_bit 13 1"
definition kServiceZigbeeMaxChildren :: u8 where "kServiceZigbeeMaxChildren = 16"
definition kAutoconnectRetryLimit :: u8 where "kAutoconnectRetryLimit = 5"
definition kZigbeeFormationRetryMs :: u32 where "kZigbeeFormationRetryMs = 1000"

datatype ConnectivityAutoconnectResult = kCredentialsMissing | kConnectStarted | kConnectFailed

definition ensure_wifi_mode_for_scan :: "'h Hal \<Rightarrow> ('h, 'o, 'r, bool) net" where
  "ensure_wifi_mode_for_scan H = do {
     mode \<leftarrow> call (hal_wifi_get_mode H);
     (case mode of
        None \<Rightarrow> State_Monad.return False
      | Some HAL_WIFI_MODE_NULL \<Rightarrow> call (hal_wifi_set_mode H HAL_WIFI_MODE_STA)
      | Some _ \<Rightarrow> State_Monad.return True)
   }"

definition ensure_wifi_mode_for_sta_connect :: "'h Hal \<Rightarrow> ('h, 'o, 'r, bool) net" where
  "ensure_wifi_mode_for_sta_connect H = do {
     mode \<leftarrow> call (hal_wifi_get_mode H);
     (case mode of
        None \<Rightarrow> State_Monad.return False
      | Some HAL_WIFI_MODE_AP \<Rightarrow> call (hal_wifi_set_mode H HAL_WIFI_MODE_APSTA)
      | Some HAL_WIFI_MODE_NULL \<Rightarrow> call (hal_wifi_set_mode H HAL_WIFI_MODE_STA)
      | Some _ \<Rightarrow> State_Monad.return True)
   }"

definition start_provisioning_ap :: "'h Hal \<Rightarrow> string option \<Rightarrow> string option \<Rightarrow> ('h, 'o, 'r, bool) net" where
  "start_provisioning_ap H ssid password =
     (case (ssid, password) of
        (Some a, Some b) \<Rightarrow> if a = [] then State_Monad.return False else call (hal_wifi_start_ap H a b)
      | _ \<Rightarrow> State_Monad.return False)"

text \<open>A connection attempt waits while the soft access point has clients, or cannot tell.\<close>

definition must_defer :: "'h Hal \<Rightarrow> ('h, 'o, 'r, bool) net" where
  "must_defer H = do {
     mode \<leftarrow> call (hal_wifi_get_mode H);
     (case mode of
        None \<Rightarrow> State_Monad.return True
      | Some m \<Rightarrow>
          if m = HAL_WIFI_MODE_AP \<or> m = HAL_WIFI_MODE_APSTA
          then do {
            n \<leftarrow> call (hal_wifi_get_ap_client_count H);
            State_Monad.return (case n of None \<Rightarrow> True | Some k \<Rightarrow> k > 0)
          }
          else State_Monad.return False)
   }"

definition mark_wifi_credentials_available :: "('h, 'o, 'r, unit) net" where
  "mark_wifi_credentials_available = on_connectivity (\<lambda>c. c\<lparr>cn_zigbee_start_allowed := True\<rparr>)"

definition backoff_ms :: "u8 \<Rightarrow> u32" where
  "backoff_ms n = push_bit (unat n) 1 * 1000"

definition connect_saved :: "'h Hal \<Rightarrow> u32 \<Rightarrow> string \<Rightarrow> string \<Rightarrow> ('h, 'o, 'r, ConnectivityAutoconnectResult) net" where
  "connect_saved H t ssid password = do {
     ok \<leftarrow> call (hal_wifi_connect_sta H ssid password);
     if \<not> ok then do {
       c \<leftarrow> gets nt_connectivity;
       let delay_ms = backoff_ms (cn_autoconnect_retry_count c);
       on_connectivity (\<lambda>c. c\<lparr>cn_next_autoconnect_attempt_ms := t + delay_ms\<rparr>);
       on_runtime (set_current_backoff_ms delay_ms);
       on_connectivity (\<lambda>c. c\<lparr>cn_autoconnect_retry_count := cn_autoconnect_retry_count c + 1\<rparr>);
       on_runtime count_autoconnect_failure;
       State_Monad.return kConnectFailed
     } else do {
       on_connectivity (\<lambda>c. c\<lparr>cn_autoconnect_retry_count := 0, cn_next_autoconnect_attempt_ms := 0\<rparr>);
       on_runtime (set_current_backoff_ms 0);
       mark_wifi_credentials_available;
       State_Monad.return kConnectStarted
     }
   }"

definition autoconnect_from_saved_credentials :: "'h Hal \<Rightarrow> ('h, 'o, 'r, ConnectivityAutoconnectResult) net" where
  "autoconnect_from_saved_credentials H = do {
     t \<leftarrow> now H;
     c \<leftarrow> gets nt_connectivity;
     if cn_next_autoconnect_attempt_ms c \<noteq> 0 \<and> \<not> is_deadline_reached t (cn_next_autoconnect_attempt_ms c)
     then State_Monad.return kConnectFailed
     else if cn_autoconnect_retry_count c \<ge> kAutoconnectRetryLimit then do {
       on_runtime (set_current_backoff_ms 0);
       State_Monad.return kConnectFailed
     } else do {
       ssid \<leftarrow> call (hal_nvs_get_str H ''wifi_ssid'' 33);
       if ssid = None \<or> ssid = Some [] then do {
         on_connectivity (\<lambda>c. c\<lparr>cn_autoconnect_retry_count := kAutoconnectRetryLimit\<rparr>);
         on_runtime (set_current_backoff_ms 0);
         State_Monad.return kCredentialsMissing
       } else do {
         password \<leftarrow> call (hal_nvs_get_str H ''wifi_password'' 65);
         sta \<leftarrow> call (hal_wifi_set_mode H HAL_WIFI_MODE_STA);
         if \<not> sta then State_Monad.return kConnectFailed
         else do {
           deferred \<leftarrow> must_defer H;
           if deferred then State_Monad.return kConnectFailed
           else connect_saved H t (the ssid) (case password of None \<Rightarrow> [] | Some p \<Rightarrow> p)
         }
       }
     }
   }"

definition has_saved_wifi_credentials :: "'h Hal \<Rightarrow> ('h, 'o, 'r, bool) net" where
  "has_saved_wifi_credentials H = do {
     ssid \<leftarrow> call (hal_nvs_get_str H ''wifi_ssid'' 33);
     State_Monad.return (ssid \<noteq> None \<and> ssid \<noteq> Some [])
   }"

definition on_zigbee_started :: "'h Hal \<Rightarrow> u32 \<Rightarrow> ('h, 'o, 'r, unit) net" where
  "on_zigbee_started H now_ms = do {
     set_join_window_cache False 0;
     formed \<leftarrow> call (hal_zigbee_is_network_formed H);
     if formed then on_policy (\<lambda>p. p\<lparr>np_zigbee_next_formation_retry_ms := 0, np_zigbee_formation_retry_count := 0\<rparr>)
     else do {
       status \<leftarrow> call (hal_zigbee_start_network_formation H);
       on_policy (\<lambda>p. p\<lparr>np_zigbee_next_formation_retry_ms := now_ms + kZigbeeFormationRetryMs,
                        np_zigbee_formation_retry_count := (if status = HAL_ZIGBEE_STATUS_OK then 1 else 0)\<rparr>)
     }
   }"

definition ensure_zigbee_started :: "'h Hal \<Rightarrow> ('h, 'o, 'r, bool) net" where
  "ensure_zigbee_started H = do {
     c \<leftarrow> gets nt_connectivity;
     if cn_zigbee_started c then State_Monad.return True
     else if \<not> cn_zigbee_start_allowed c then State_Monad.return False
     else do {
       channel_ok \<leftarrow> call (hal_zigbee_set_primary_channel_mask H kServiceZigbeePrimaryChannelMask);
       if \<not> channel_ok then State_Monad.return False
       else do {
         children_ok \<leftarrow> call (hal_zigbee_set_max_children H kServiceZigbeeMaxChildren);
         if \<not> children_ok then State_Monad.return False
         else do {
           init_ok \<leftarrow> call (hal_zigbee_init H);
           if \<not> init_ok then State_Monad.return False
           else do {
             on_connectivity (\<lambda>c. c\<lparr>cn_zigbee_started := True\<rparr>);
             t \<leftarrow> now H;
             on_zigbee_started H t;
             State_Monad.return True
           }
         }
       }
     }
   }"

definition can_attempt_autoconnect :: "u32 \<Rightarrow> u8 \<Rightarrow> ConnectivityManager \<Rightarrow> bool" where
  "can_attempt_autoconnect now_ms max_retries c \<longleftrightarrow>
     \<not> cn_autoconnect_retry_count c \<ge> max_retries \<and> cn_next_autoconnect_attempt_ms c \<noteq> 0 \<and>
     is_deadline_reached now_ms (cn_next_autoconnect_attempt_ms c)"

definition clear_autoconnect_backoff :: "('h, 'o, 'r, unit) net" where
  "clear_autoconnect_backoff = do {
     on_connectivity (\<lambda>c. c\<lparr>cn_autoconnect_retry_count := 0, cn_next_autoconnect_attempt_ms := 0\<rparr>);
     on_runtime (set_current_backoff_ms 0)
   }"

section \<open>Backoff\<close>

definition failures :: "('h, 'o, 'r) Net \<Rightarrow> u32" where
  "failures s = rx_autoconnect_failures (rt_stats (nt_runtime s))"

lemma failures_simps [simp]:
  "failures (s\<lparr>nt_hal := h\<rparr>) = failures s"
  "failures (s\<lparr>nt_connectivity := c\<rparr>) = failures s"
  "rx_autoconnect_failures (rt_stats (set_current_backoff_ms ms rt)) = rx_autoconnect_failures (rt_stats rt)"
  "rx_autoconnect_failures (rt_stats (count_autoconnect_failure rt)) = rx_autoconnect_failures (rt_stats rt) + 1"
  by (simp_all add: failures_def set_current_backoff_ms_def count_autoconnect_failure_def)

lemma only_hal_connectivity [only_hal_intros]:
  "only_hal (ensure_wifi_mode_for_scan H)" "only_hal (ensure_wifi_mode_for_sta_connect H)"
  "only_hal (start_provisioning_ap H x y)" "only_hal (must_defer H)" "only_hal (has_saved_wifi_credentials H)"
  unfolding ensure_wifi_mode_for_scan_def ensure_wifi_mode_for_sta_connect_def start_provisioning_ap_def
    must_defer_def has_saved_wifi_credentials_def prod.case
  by (intro only_hal_intros)+

text \<open>What a call of the automatic connection does to the connectivity manager and to the count of failures.\<close>

lemma autoconnect_cases:
  obtains (waiting) s' where "run_state (autoconnect_from_saved_credentials H) s = (kConnectFailed, s')"
      "nt_connectivity s' = nt_connectivity s" "failures s' = failures s"
    | (missing) s' where "run_state (autoconnect_from_saved_credentials H) s = (kCredentialsMissing, s')"
      "nt_connectivity s' = (nt_connectivity s)\<lparr>cn_autoconnect_retry_count := kAutoconnectRetryLimit\<rparr>"
      "failures s' = failures s"
    | (failed) s' where "run_state (autoconnect_from_saved_credentials H) s = (kConnectFailed, s')"
      "cn_autoconnect_retry_count (nt_connectivity s) < kAutoconnectRetryLimit"
      "nt_connectivity s' = (nt_connectivity s)\<lparr>cn_next_autoconnect_attempt_ms :=
           fst (run_state (now H) s) + backoff_ms (cn_autoconnect_retry_count (nt_connectivity s)),
         cn_autoconnect_retry_count := cn_autoconnect_retry_count (nt_connectivity s) + 1\<rparr>"
      "failures s' = failures s + 1"
    | (started) s' a b h where "run_state (autoconnect_from_saved_credentials H) s = (kConnectStarted, s')"
      "fst (hal_wifi_connect_sta H a b h)"
      "nt_connectivity s' = (nt_connectivity s)\<lparr>cn_autoconnect_retry_count := 0, cn_next_autoconnect_attempt_ms := 0,
         cn_zigbee_start_allowed := True\<rparr>" "failures s' = failures s"
proof -
  let ?c = "nt_connectivity s" and ?auto = "run_state (autoconnect_from_saved_credentials H) s"
  obtain t h0 where n: "run_state (now H) s = (t, s\<lparr>nt_hal := h0\<rparr>)"
    using only_halE[OF only_hal_now] .
  show thesis
  proof (cases "cn_next_autoconnect_attempt_ms ?c \<noteq> 0 \<and> \<not> is_deadline_reached t (cn_next_autoconnect_attempt_ms ?c) \<or>
      kAutoconnectRetryLimit \<le> cn_autoconnect_retry_count ?c")
    case True
    then have "fst ?auto = kConnectFailed \<and> nt_connectivity (snd ?auto) = ?c \<and> failures (snd ?auto) = failures s"
      by (auto simp: autoconnect_from_saved_credentials_def n failures_def set_current_backoff_ms_def)
    then show thesis using waiting[of "snd ?auto"] by (metis prod.collapse)
  next
    case False
    obtain ssid h1 where ssid: "hal_nvs_get_str H ''wifi_ssid'' 33 h0 = (ssid, h1)" by fastforce
    show thesis
    proof (cases "ssid = None \<or> ssid = Some []")
      case True
      then have "fst ?auto = kCredentialsMissing \<and> failures (snd ?auto) = failures s \<and>
          nt_connectivity (snd ?auto) = ?c\<lparr>cn_autoconnect_retry_count := kAutoconnectRetryLimit\<rparr>"
        using False by (auto simp: autoconnect_from_saved_credentials_def n ssid failures_def set_current_backoff_ms_def)
      then show thesis using missing[of "snd ?auto"] by (metis prod.collapse)
    next
      case have_ssid: False
      obtain pw h2 where pw: "hal_nvs_get_str H ''wifi_password'' 65 h1 = (pw, h2)" by fastforce
      obtain sta h3 where sta: "hal_wifi_set_mode H HAL_WIFI_MODE_STA h2 = (sta, h3)" by fastforce
      obtain d h4 where d: "run_state (must_defer H) (s\<lparr>nt_hal := h3\<rparr>) = (d, s\<lparr>nt_hal := h4\<rparr>)"
        by (rule only_halE[OF only_hal_connectivity(4), of H "s\<lparr>nt_hal := h3\<rparr>"]) simp
      let ?p = "case pw of None \<Rightarrow> [] | Some p \<Rightarrow> p"
      have auto: "?auto = (if \<not> sta then (kConnectFailed, s\<lparr>nt_hal := h3\<rparr>) else if d then (kConnectFailed, s\<lparr>nt_hal := h4\<rparr>)
          else run_state (connect_saved H t (the ssid) ?p) (s\<lparr>nt_hal := h4\<rparr>))"
        using False have_ssid by (auto simp: autoconnect_from_saved_credentials_def n ssid pw sta d)
      show thesis
      proof (cases "\<not> sta \<or> d")
        case True
        then show thesis using waiting[of "s\<lparr>nt_hal := h3\<rparr>"] waiting[of "s\<lparr>nt_hal := h4\<rparr>"] auto
          by (cases "\<not> sta") simp_all
      next
        case go: False
        obtain ok h5 where ok: "hal_wifi_connect_sta H (the ssid) ?p h4 = (ok, h5)" by fastforce
        show thesis
        proof (cases ok)
          case True
          then show thesis using started[of "snd ?auto" "the ssid" ?p h4] go auto ok
            by (simp add: connect_saved_def mark_wifi_credentials_available_def failures_def set_current_backoff_ms_def)
        next
          case no: False
          have lt: "cn_autoconnect_retry_count ?c < kAutoconnectRetryLimit" using False by (auto simp: not_le)
          from no show thesis using failed[of "snd ?auto"] go auto ok lt n
            by (simp add: connect_saved_def failures_def set_current_backoff_ms_def count_autoconnect_failure_def Let_def)
        qed
      qed
    qed
  qed
qed


text \<open>Repeated calls, each at its tick; \<open>None\<close> stands for a call between two ticks.\<close>

definition at_tick :: "u32 \<Rightarrow> ('h, 'o, 'r) Net \<Rightarrow> ('h, 'o, 'r) Net" where
  "at_tick t s = s\<lparr>nt_runtime := (nt_runtime s)\<lparr>rt_last_tick_ms := t\<rparr>\<rparr>"

fun autoconnect_ticks :: "'h Hal \<Rightarrow> u32 list \<Rightarrow> ('h, 'o, 'r) Net \<Rightarrow> ('h, 'o, 'r) Net" where
  "autoconnect_ticks H [] s = s"
| "autoconnect_ticks H (t # ts) s =
     autoconnect_ticks H ts (snd (run_state (autoconnect_from_saved_credentials H) (at_tick t s)))"

definition retry_count :: "('h, 'o, 'r) Net \<Rightarrow> nat" where
  "retry_count s = unat (cn_autoconnect_retry_count (nt_connectivity s))"

lemma at_tick_frame [simp]:
  "nt_connectivity (at_tick t s) = nt_connectivity s" "failures (at_tick t s) = failures s"
  "retry_count (at_tick t s) = retry_count s"
  by (simp_all add: at_tick_def failures_def retry_count_def)

lemma autoconnect_counts:
  assumes "\<And>a b h. \<not> fst (hal_wifi_connect_sta H a b h)" "retry_count s \<le> 5"
  shows "\<exists>k. failures (snd (run_state (autoconnect_from_saved_credentials H) s)) = failures s + of_nat k \<and>
    retry_count s + k \<le> retry_count (snd (run_state (autoconnect_from_saved_credentials H) s)) \<and>
    retry_count (snd (run_state (autoconnect_from_saved_credentials H) s)) \<le> 5"
proof (cases H s rule: autoconnect_cases)
  case (waiting s')
  then show ?thesis using assms(2) by (intro exI[of _ 0]) (simp add: retry_count_def)
next
  case (missing s')
  then show ?thesis using assms(2) by (intro exI[of _ 0]) (simp add: retry_count_def kAutoconnectRetryLimit_def)
next
  case (failed s')
  have "unat (cn_autoconnect_retry_count (nt_connectivity s) + 1) = unat (cn_autoconnect_retry_count (nt_connectivity s)) + 1"
    using failed(2) by (simp add: kAutoconnectRetryLimit_def word_less_nat_alt unat_word_ariths)
  then show ?thesis using failed by (intro exI[of _ 1]) (simp add: retry_count_def kAutoconnectRetryLimit_def word_less_nat_alt)
next
  case (started s' a b h)
  then show ?thesis using assms(1) by simp
qed


lemma backoff_ms_eq: "n < 5 \<Longrightarrow> backoff_ms n = of_nat (2 ^ unat n * 1000)"
  by (simp add: backoff_ms_def push_bit_eq_mult)

definition offline_host :: HostState where
  "offline_host = host_drivers_init\<lparr>hh_strs := snd (host_set_str ''wifi_ssid'' ''home'' host_str_init),
     hh_simulate_connect_failure := True\<rparr>"

definition offline_net :: "(HostState, unit, unit) Net" where
  "offline_net = at_tick 1000 (net_init offline_host () ())"

lemma offline_run:
  "fst (run_state (autoconnect_from_saved_credentials host_hal) offline_net) = kConnectFailed"
  "failures (snd (run_state (autoconnect_from_saved_credentials host_hal) offline_net)) = 1"
  "failures offline_net = 0" "retry_count offline_net = 0" "rt_last_tick_ms (nt_runtime offline_net) = 1000"
  by code_simp+

text \<open>
  A connection attempt that fails schedules the next one 1, 2, 4, 8 and 16 seconds later: the
  failure counts as one more retry, and until the deadline the automatic connection does nothing.
\<close>

theorem autoconnect_backs_off:
  assumes "run_state (autoconnect_from_saved_credentials H) s = (r, s')" "failures s' \<noteq> failures s"
    and "rt_last_tick_ms (nt_runtime s) = t" "t \<noteq> 0" "t + backoff_ms (of_nat (retry_count s)) \<noteq> 0"
  shows "r = kConnectFailed \<and> retry_count s < 5 \<and> retry_count s' = retry_count s + 1 \<and>
    cn_next_autoconnect_attempt_ms (nt_connectivity s') = t + of_nat (2 ^ retry_count s * 1000) \<and>
    (\<forall>t2. t2 \<noteq> 0 \<and> unat (t2 - t) < 2 ^ retry_count s * 1000 \<longrightarrow>
       run_state (autoconnect_from_saved_credentials H) (at_tick t2 s') = (kConnectFailed, at_tick t2 s'))"
proof (cases H s rule: autoconnect_cases)
  case (failed s1)
  let ?n = "cn_autoconnect_retry_count (nt_connectivity s)"
  have s1: "s1 = s'" "r = kConnectFailed" using failed(1) assms(1) by auto
  have n: "retry_count s < 5" using failed(2) by (simp add: retry_count_def kAutoconnectRetryLimit_def word_less_nat_alt)
  have t: "fst (run_state (now H) s) = t" using assms(3,4) by (simp add: now_def)
  have five: "?n < 5" using failed(2) by (simp add: kAutoconnectRetryLimit_def)
  have b: "backoff_ms ?n = of_nat (2 ^ retry_count s * 1000)"
    using backoff_ms_eq[OF five] by (simp add: retry_count_def)
  have next_ms: "cn_next_autoconnect_attempt_ms (nt_connectivity s') = t + of_nat (2 ^ retry_count s * 1000)"
    using failed(3) by (simp add: s1 t b)
  have nz: "t + of_nat (2 ^ retry_count s * 1000) \<noteq> 0"
    using assms(5) b by (simp add: retry_count_def)
  have m: "(2::nat) ^ retry_count s \<le> 2 ^ 4" using n by (intro power_increasing) simp_all
  have idle: "run_state (autoconnect_from_saved_credentials H) (at_tick t2 s') = (kConnectFailed, at_tick t2 s')"
    if "t2 \<noteq> 0" "unat (t2 - t) < 2 ^ retry_count s * 1000" for t2
  proof -
    have "\<not> is_deadline_reached t2 (t + of_nat (2 ^ retry_count s * 1000))"
    proof -
      let ?d = "2 ^ retry_count s * 1000 :: nat"
      have d: "unat (of_nat ?d :: u32) = ?d" using m by (simp only: unat_of_nat) simp
      have "unat (t2 - t) < 2 ^ 31" "unat (of_nat ?d :: u32) < 2 ^ 31"
        using that(2) m unfolding d by simp_all
      from deadline.due_elapsed[OF this, of t] show ?thesis
        using that(2) d by (simp add: word_le_nat_alt)
    qed
    then show ?thesis using that(1) nz
      by (simp add: autoconnect_from_saved_credentials_def now_def at_tick_def next_ms)
  qed
  have "retry_count s' = retry_count s + 1"
    using failed(2,3) by (simp add: s1 retry_count_def kAutoconnectRetryLimit_def word_less_nat_alt unat_word_ariths)
  then show ?thesis using s1 n next_ms idle by blast
qed (use assms(1,2) in auto)

lemma autoconnect_backs_off_witness:
  "let s' = snd (run_state (autoconnect_from_saved_credentials host_hal) offline_net) in
     retry_count s' = 1 \<and> cn_next_autoconnect_attempt_ms (nt_connectivity s') = 2000"
proof -
  obtain r s' where run: "run_state (autoconnect_from_saved_credentials host_hal) offline_net = (r, s')" by fastforce
  have "failures s' \<noteq> failures offline_net" using offline_run(2,3) run by simp
  then show ?thesis
    using autoconnect_backs_off[OF run _ offline_run(5)] offline_run(4) run by (simp add: backoff_ms_def)
qed

text \<open>
  While the access point cannot be reached the gateway tries at most five times: over any
  sequence of calls at any times, at most five connections fail, and then there are no more attempts
  until something resets the count.
\<close>

theorem autoconnect_gives_up:
  assumes "\<And>a b h. \<not> fst (hal_wifi_connect_sta H a b h)" "retry_count s \<le> 5"
  shows "\<exists>k \<le> 5 - retry_count s. failures (autoconnect_ticks H ts s) = failures s + of_nat k"
  using assms(2)
proof (induction ts arbitrary: s)
  case (Cons t ts)
  let ?s = "snd (run_state (autoconnect_from_saved_credentials H) (at_tick t s))"
  obtain k where k: "failures ?s = failures s + of_nat k" "retry_count s + k \<le> retry_count ?s" "retry_count ?s \<le> 5"
    using autoconnect_counts[OF assms(1), where s = "at_tick t s"] Cons.prems by auto
  obtain k' where "k' \<le> 5 - retry_count ?s" "failures (autoconnect_ticks H ts ?s) = failures ?s + of_nat k'"
    using Cons.IH[OF k(3)] by blast
  then show ?case using k by (intro exI[of _ "k + k'"]) simp
qed (simp add: exI[of _ 0])

lemma autoconnect_gives_up_witness:
  "\<exists>k \<le> 5. failures (autoconnect_ticks (host_hal\<lparr>hal_wifi_connect_sta := \<lambda>a b h. (False, h)\<rparr>)
     [2000, 4000, 6000, 8000] offline_net) = 0 + of_nat k"
  using autoconnect_gives_up[of "host_hal\<lparr>hal_wifi_connect_sta := \<lambda>a b h. (False, h)\<rparr>" offline_net "[2000, 4000, 6000, 8000]"]
  by (simp add: offline_run)

text \<open>
  An attempt that is put off before the connection (the mode cannot be set or read, or the soft
  access point has clients) leaves no deadline, so the tick of the runtime does not make it up.
\<close>

theorem deferred_autoconnect_is_not_retried:
  assumes "run_state (autoconnect_from_saved_credentials H) s = (kConnectFailed, s')" "failures s' = failures s"
    and "cn_next_autoconnect_attempt_ms (nt_connectivity s) = 0"
  shows "\<not> can_attempt_autoconnect now_ms n (nt_connectivity s')"
proof (cases H s rule: autoconnect_cases)
  case (waiting s1)
  then show ?thesis using assms by (simp add: can_attempt_autoconnect_def)
qed (use assms in auto)

lemma deferred_autoconnect_is_not_retried_witness:
  "\<not> can_attempt_autoconnect 5000 5 (nt_connectivity (snd (run_state
     (autoconnect_from_saved_credentials (host_hal\<lparr>hal_wifi_set_mode := \<lambda>m h. (False, h)\<rparr>)) offline_net)))"
proof -
  let ?run = "run_state (autoconnect_from_saved_credentials (host_hal\<lparr>hal_wifi_set_mode := \<lambda>m h. (False, h)\<rparr>)) offline_net"
  have "fst ?run = kConnectFailed" "failures (snd ?run) = failures offline_net"
    "cn_next_autoconnect_attempt_ms (nt_connectivity offline_net) = 0"
    by code_simp+
  then show ?thesis
    using deferred_autoconnect_is_not_retried[of _ offline_net "snd ?run"] by (metis prod.collapse)
qed

end
