(* ===== verification/NetworkPolicy.thy ===== *)
theory NetworkPolicy
  imports Connectivity
begin

text \<open>
  \<^verbatim>\<open>components/service/network_policy_manager.cpp\<close>: the connection request that waits for the network, the join
  window (opened on request, kept for later while the Zigbee network is not formed, closed again when
  nobody asked for it), and the formation of the network.
\<close>

definition kAutoRejoinWindowSeconds :: u16 where "kAutoRejoinWindowSeconds = 30"
definition kAutoRejoinCooldownMs :: u32 where "kAutoRejoinCooldownMs = 15000"

section \<open>The pending connection\<close>

definition has_pending_sta_connect :: "NetworkPolicyManager \<Rightarrow> bool" where
  "has_pending_sta_connect p = ps_in_use (np_pending_sta_connect p)"

definition arm_pending_sta_connect ::
  "u32 \<Rightarrow> bool \<Rightarrow> string \<Rightarrow> u32 \<Rightarrow> NetworkPolicyManager \<Rightarrow> NetworkPolicyManager" where
  "arm_pending_sta_connect request_id saved ssid deadline_ms p =
     p\<lparr>np_pending_sta_connect := \<lparr>ps_in_use = True, ps_saved = saved, ps_request_id = request_id,
         ps_deadline_ms = deadline_ms, ps_ssid = text_of 33 ssid\<rparr>\<rparr>"

definition queue_network_result :: "NetworkResult OpResult \<Rightarrow> ('h, 'o, 'r, bool) net" where
  "queue_network_result result = results (publish_network_result result)"

definition pending_result :: "bool \<Rightarrow> PendingStaConnect \<Rightarrow> NetworkResult OpResult" where
  "pending_result connected p =
     \<lparr>or_request_id = ps_request_id p,
      or_body = network_result_default\<lparr>ne_operation := kConnect, ne_saved := ps_saved p,
        ne_ssid := text_of 33 (ps_ssid p), ne_status := (if connected then kNetOk else kNetHalFailed)\<rparr>\<rparr>"

definition process_pending_sta_connect :: "'h Hal \<Rightarrow> bool \<Rightarrow> u32 \<Rightarrow> ('h, 'o, 'r, nat) net" where
  "process_pending_sta_connect H connected now_ms = do {
     p \<leftarrow> gets (\<lambda>s. np_pending_sta_connect (nt_policy s));
     if \<not> ps_in_use p then State_Monad.return 0
     else if \<not> connected \<and> \<not> is_deadline_reached now_ms (ps_deadline_ms p) then State_Monad.return 0
     else do {
       let result = pending_result connected p;
       on_policy (\<lambda>q. q\<lparr>np_pending_sta_connect := pending_sta_default\<rparr>);
       (if connected then do {
          mark_wifi_credentials_available;
          _ \<leftarrow> ensure_zigbee_started H;
          State_Monad.return ()
        } else State_Monad.return ());
       ok \<leftarrow> queue_network_result result;
       if \<not> ok then do {
         on_runtime note_dropped_event;
         State_Monad.return 0
       } else State_Monad.return 1
     }
   }"

section \<open>The join window\<close>

definition request_join_window_open :: "'h Hal \<Rightarrow> u16 \<Rightarrow> u32 \<Rightarrow> ('h, 'o, 'r, bool) net" where
  "request_join_window_open H duration_seconds now_ms =
     (if duration_seconds = 0 then State_Monad.return False
      else do {
        on_policy (\<lambda>p. p\<lparr>np_join_window_explicit_expected := True\<rparr>);
        open_err \<leftarrow> call (hal_zigbee_open_network H duration_seconds);
        if open_err = HAL_ZIGBEE_STATUS_OK then do {
          on_policy (\<lambda>p. p\<lparr>np_pending_join_window_seconds := 0\<rparr>);
          set_join_window_cache True duration_seconds;
          State_Monad.return True
        } else if open_err \<noteq> HAL_ZIGBEE_STATUS_NETWORK_NOT_FORMED then do {
          on_policy (\<lambda>p. p\<lparr>np_join_window_explicit_expected := False\<rparr>);
          State_Monad.return False
        } else do {
          on_policy (\<lambda>p. p\<lparr>np_pending_join_window_seconds := duration_seconds\<rparr>);
          formation_status \<leftarrow> call (hal_zigbee_start_network_formation H);
          on_policy (\<lambda>p. if formation_status = HAL_ZIGBEE_STATUS_OK
            then p\<lparr>np_zigbee_formation_retry_count := np_zigbee_formation_retry_count p + 1\<rparr> else p);
          on_policy (\<lambda>p. p\<lparr>np_zigbee_next_formation_retry_ms := now_ms + kZigbeeFormationRetryMs\<rparr>);
          State_Monad.return True
        }
      })"

definition maybe_request_auto_rejoin_window :: "'h Hal \<Rightarrow> CoreEventType \<Rightarrow> u16 \<Rightarrow> u32 \<Rightarrow> ('h, 'o, 'r, unit) net" where
  "maybe_request_auto_rejoin_window H event_type a now_ms =
     (if event_type \<noteq> kCommandResultFailed \<and> event_type \<noteq> kCommandResultTimeout then State_Monad.return ()
      else if a = kUnknownDeviceShortAddr \<or> a = 0 then State_Monad.return ()
      else do {
        p \<leftarrow> gets nt_policy;
        if np_auto_rejoin_next_open_ms p \<noteq> 0 \<and> \<not> is_deadline_reached now_ms (np_auto_rejoin_next_open_ms p)
        then State_Monad.return ()
        else do {
          z \<leftarrow> gets (\<lambda>s. get_join_window_status (nt_lifecycle s));
          if fst z \<and> snd z > 0
          then on_policy (\<lambda>p. p\<lparr>np_auto_rejoin_next_open_ms := now_ms + kAutoRejoinCooldownMs\<rparr>)
          else do {
            ok \<leftarrow> request_join_window_open H kAutoRejoinWindowSeconds now_ms;
            if ok then on_policy (\<lambda>p. p\<lparr>np_auto_rejoin_next_open_ms := now_ms + kAutoRejoinCooldownMs\<rparr>)
            else State_Monad.return ()
          }
        }
      })"

text \<open>One attempt to form the network; the next is a second later.\<close>

definition retry_formation :: "'h Hal \<Rightarrow> u32 \<Rightarrow> ('h, 'o, 'r, unit) net" where
  "retry_formation H now_ms = do {
     formation_status \<leftarrow> call (hal_zigbee_start_network_formation H);
     on_policy (\<lambda>p. if formation_status = HAL_ZIGBEE_STATUS_OK
       then p\<lparr>np_zigbee_formation_retry_count := np_zigbee_formation_retry_count p + 1\<rparr> else p);
     on_policy (\<lambda>p. p\<lparr>np_zigbee_next_formation_retry_ms := now_ms + kZigbeeFormationRetryMs\<rparr>)
   }"

definition formation_due :: "u32 \<Rightarrow> NetworkPolicyManager \<Rightarrow> bool" where
  "formation_due now_ms p \<longleftrightarrow> np_zigbee_next_formation_retry_ms p = 0 \<or>
     is_deadline_reached now_ms (np_zigbee_next_formation_retry_ms p)"

definition bootstrap_formation :: "'h Hal \<Rightarrow> u32 \<Rightarrow> ('h, 'o, 'r, unit) net" where
  "bootstrap_formation H now_ms = do {
     p \<leftarrow> gets nt_policy;
     if np_pending_join_window_seconds p \<noteq> 0 then State_Monad.return ()
     else do {
       formed \<leftarrow> call (hal_zigbee_is_network_formed H);
       if \<not> formed \<and> formation_due now_ms p then retry_formation H now_ms else State_Monad.return ()
     }
   }"

definition pending_formation :: "'h Hal \<Rightarrow> u32 \<Rightarrow> ('h, 'o, 'r, unit) net" where
  "pending_formation H now_ms = do {
     p \<leftarrow> gets nt_policy;
     if np_pending_join_window_seconds p = 0 then State_Monad.return ()
     else do {
       formed \<leftarrow> call (hal_zigbee_is_network_formed H);
       if \<not> formed \<and> formation_due now_ms p then retry_formation H now_ms else State_Monad.return ()
     }
   }"

definition open_pending_window :: "'h Hal \<Rightarrow> u32 \<Rightarrow> ('h, 'o, 'r, unit) net" where
  "open_pending_window H now_ms = do {
     p \<leftarrow> gets nt_policy;
     if np_pending_join_window_seconds p = 0 then State_Monad.return ()
     else do {
       formed \<leftarrow> call (hal_zigbee_is_network_formed H);
       if \<not> formed then State_Monad.return ()
       else do {
         open_err \<leftarrow> call (hal_zigbee_open_network H (np_pending_join_window_seconds p));
         if open_err = HAL_ZIGBEE_STATUS_OK
         then on_policy (\<lambda>p. p\<lparr>np_pending_join_window_seconds := 0, np_join_window_explicit_expected := True,
                np_zigbee_next_formation_retry_ms := 0, np_zigbee_formation_retry_count := 0\<rparr>)
         else on_policy (\<lambda>p. p\<lparr>np_zigbee_next_formation_retry_ms := now_ms + kZigbeeFormationRetryMs\<rparr>)
       }
     }
   }"

definition watch_join_window :: "'h Hal \<Rightarrow> ('h, 'o, 'r, unit) net" where
  "watch_join_window H = do {
     status \<leftarrow> call (hal_zigbee_get_join_window_status H);
     (case status of
        None \<Rightarrow> set_join_window_cache False 0
      | Some w \<Rightarrow> do {
          set_join_window_cache (fst w) (snd w);
          p \<leftarrow> gets nt_policy;
          if \<not> fst w
          then on_policy (\<lambda>p. p\<lparr>np_zigbee_join_window_was_open := False,
                 np_join_window_explicit_expected :=
                   (if np_pending_join_window_seconds p = 0 then False else np_join_window_explicit_expected p)\<rparr>)
          else if \<not> np_join_window_explicit_expected p \<and> np_pending_join_window_seconds p = 0 \<and> snd w > 90
          then do {
            close_err \<leftarrow> call (hal_zigbee_close_network H);
            if close_err = HAL_ZIGBEE_STATUS_OK then do {
              set_join_window_cache False 0;
              on_policy (\<lambda>p. p\<lparr>np_zigbee_join_window_was_open := False\<rparr>)
            } else on_policy (\<lambda>p. p\<lparr>np_zigbee_join_window_was_open := True\<rparr>)
          }
          else on_policy (\<lambda>p. p\<lparr>np_zigbee_join_window_was_open := True\<rparr>)
        })
   }"

definition process_zigbee_join_window_policy :: "'h Hal \<Rightarrow> u32 \<Rightarrow> ('h, 'o, 'r, unit) net" where
  "process_zigbee_join_window_policy H now_ms = do {
     c \<leftarrow> gets nt_connectivity;
     if \<not> cn_zigbee_started c then set_join_window_cache False 0
     else do {
       bootstrap_formation H now_ms;
       pending_formation H now_ms;
       open_pending_window H now_ms;
       watch_join_window H
     }
   }"

definition on_join_window_force_closed :: "('h, 'o, 'r, unit) net" where
  "on_join_window_force_closed = do {
     on_policy (\<lambda>p. p\<lparr>np_join_window_explicit_expected := False, np_pending_join_window_seconds := 0\<rparr>);
     set_join_window_cache False 0
   }"

section \<open>What holds after a tick\<close>

definition open_long :: "('h, 'o, 'r) Net \<Rightarrow> bool" where
  "open_long s \<longleftrightarrow> fst (get_join_window_status (nt_lifecycle s)) \<and> snd (get_join_window_status (nt_lifecycle s)) > 90"

definition window_wanted :: "('h, 'o, 'r) Net \<Rightarrow> bool" where
  "window_wanted s \<longleftrightarrow> np_join_window_explicit_expected (nt_policy s) \<or> np_pending_join_window_seconds (nt_policy s) \<noteq> 0"

lemma cache_seconds:
  "get_join_window_status \<lparr>zl_join_window_open_cache = b, zl_join_window_seconds_left_cache = (if b then ucast n else 0)\<rparr> =
     (b, if b then n else 0)"
proof -
  have "unat (ucast (n :: u16) :: u32) = unat n"
    using unat_u16_less[of n] by (simp add: unsigned_ucast_eq take_bit_nat_eq_self_iff less_trans[of _ 65536])
  moreover have "\<not> 65535 < unat n" using unat_u16_less[of n] by linarith
  ultimately have "\<not> (ucast n :: u32) > 0xFFFF" by (simp add: word_less_nat_alt)
  moreover have "ucast (ucast n :: u32) = n" by (rule bit_word_eqI) (simp add: bit_ucast_iff)
  ultimately show ?thesis by (simp add: get_join_window_status_def)
qed

lemma watch_closes:
  assumes "\<And>h. fst (hal_zigbee_close_network H h) = HAL_ZIGBEE_STATUS_OK"
  shows "open_long (snd (run_state (watch_join_window H) s)) \<longrightarrow> window_wanted (snd (run_state (watch_join_window H) s))"
  using assms
  by (auto simp: watch_join_window_def open_long_def window_wanted_def case_prod_unfold cache_seconds
      cache_seconds[of False, simplified] cache_seconds[of True, simplified]
      split: option.split if_splits)

text \<open>
  After a tick no join window of more than 90 seconds is open that nobody asked for, as long as the
  driver can close the network: such a window was requested, or a request for one is still pending.
\<close>

theorem long_unrequested_window_is_closed:
  assumes "\<And>h. fst (hal_zigbee_close_network H h) = HAL_ZIGBEE_STATUS_OK"
    and "run_state (process_zigbee_join_window_policy H now_ms) s = (u, s')"
    and "fst (get_join_window_status (nt_lifecycle s'))" "snd (get_join_window_status (nt_lifecycle s')) > 90"
  shows "np_join_window_explicit_expected (nt_policy s') \<or> np_pending_join_window_seconds (nt_policy s') \<noteq> 0"
proof -
  have long: "open_long s'" using assms(3,4) by (simp add: open_long_def)
  have "cn_zigbee_started (nt_connectivity s)"
    using assms(2,3) cache_seconds[of False 0]
    by (auto simp: process_zigbee_join_window_policy_def split: if_splits)
  then have "\<exists>t. run_state (watch_join_window H) t = ((), s')"
    using assms(2) by (auto simp: process_zigbee_join_window_policy_def case_prod_unfold)
  then obtain t where "s' = snd (run_state (watch_join_window H) t)" by (metis snd_conv)
  then show ?thesis using watch_closes[OF assms(1)] long by (auto simp: window_wanted_def)
qed

definition long_window_hal :: "HostState Hal" where
  "long_window_hal = host_hal\<lparr>hal_zigbee_get_join_window_status := \<lambda>h. (Some (True, 120), h)\<rparr>"

definition wanted_net :: "(HostState, unit, unit) Net" where
  "wanted_net = (net_init host_drivers_init () ())\<lparr>nt_connectivity := connectivity_init\<lparr>cn_zigbee_started := True\<rparr>,
     nt_policy := network_policy_init\<lparr>np_pending_join_window_seconds := 120\<rparr>\<rparr>"

lemma long_unrequested_window_is_closed_witness:
  "let s' = snd (run_state (process_zigbee_join_window_policy long_window_hal 5000) wanted_net) in
     get_join_window_status (nt_lifecycle s') = (True, 120) \<and>
     (np_join_window_explicit_expected (nt_policy s') \<or> np_pending_join_window_seconds (nt_policy s') \<noteq> 0)"
proof -
  obtain u s' where run: "run_state (process_zigbee_join_window_policy long_window_hal 5000) wanted_net = (u, s')"
    by (rule that[OF prod.collapse[symmetric]])
  have "get_join_window_status (nt_lifecycle (snd (run_state
      (process_zigbee_join_window_policy long_window_hal 5000) wanted_net))) = (True, 120)" by code_simp
  then have w: "get_join_window_status (nt_lifecycle s') = (True, 120)" using run by simp
  have "fst (hal_zigbee_close_network long_window_hal h) = HAL_ZIGBEE_STATUS_OK" for h
    by (simp add: long_window_hal_def host_hal_def host_zigbee_close_network_def)
  from long_unrequested_window_is_closed[OF this run] w show ?thesis by (simp add: run)
qed

end
