(* ===== verification/ZigbeeLifecycle.thy ===== *)
theory ZigbeeLifecycle
  imports NetworkPolicy
begin

text \<open>
  \<^verbatim>\<open>components/service/zigbee_lifecycle_coordinator.cpp\<close>: devices that ask to join, devices that are removed,
  and the removals that time out. Its join window cache is in \<open>NetState\<close>, its calls of the policy manager are
  the operations of \<open>NetworkPolicy\<close>.
\<close>

definition on_devices :: "(DeviceManager \<Rightarrow> 'a \<times> DeviceManager) \<Rightarrow> ('h, 'o, 'r, 'a) net" where
  "on_devices f = runtime (\<lambda>rt. case f (rt_devices rt) of (a, d) \<Rightarrow> (a, rt\<lparr>rt_devices := d\<rparr>))"

lemma run_on_devices [simp]:
  "run_state (on_devices f) s = (case f (rt_devices (nt_runtime s)) of
     (a, d) \<Rightarrow> (a, s\<lparr>nt_runtime := (nt_runtime s)\<lparr>rt_devices := d\<rparr>\<rparr>))"
  by (simp add: on_devices_def case_prod_unfold)

definition maybe_auto_close_join_window_after_first_join :: "'h Hal \<Rightarrow> ('h, 'o, 'r, unit) net" where
  "maybe_auto_close_join_window_after_first_join H = do {
     z \<leftarrow> gets (\<lambda>s. get_join_window_status (nt_lifecycle s));
     if \<not> fst z then State_Monad.return ()
     else do {
       status \<leftarrow> call (hal_zigbee_close_network H);
       if status \<noteq> HAL_ZIGBEE_STATUS_OK then State_Monad.return ()
       else on_join_window_force_closed
     }
   }"

definition joined_event :: "u16 \<Rightarrow> CoreEvent" where
  "joined_event a = core_event_default\<lparr>ev_type := kDeviceJoined, ev_device_short_addr := a\<rparr>"

definition left_event :: "u16 \<Rightarrow> CoreEvent" where
  "left_event a = core_event_default\<lparr>ev_type := kDeviceLeft, ev_device_short_addr := a\<rparr>"

definition handle_join_candidate :: "'h Hal \<Rightarrow> u16 \<Rightarrow> u32 \<Rightarrow> ('h, 'o, 'r, bool) net" where
  "handle_join_candidate H a now_ms =
     (if a = kUnknownDeviceShortAddr \<or> a = 0 then State_Monad.return False
      else do {
        dup \<leftarrow> on_devices (is_duplicate_join_candidate a now_ms);
        if dup then State_Monad.return True
        else do {
          ok \<leftarrow> runtime (push_event (joined_event a));
          if \<not> ok then State_Monad.return False
          else do {
            maybe_auto_close_join_window_after_first_join H;
            State_Monad.return True
          }
        }
      })"

text \<open>\<^verbatim>\<open>handle_remove_device\<close>: the result it fills in (the call always answers \<^verbatim>\<open>true\<close>).\<close>

definition remove_driver :: "'h Hal \<Rightarrow> bool \<Rightarrow> u16 \<Rightarrow> ('h, 'o, 'r, bool) net" where
  "remove_driver H ready a =
     (if ready then do {
        status \<leftarrow> call (hal_zigbee_remove_device H a);
        State_Monad.return (status = HAL_ZIGBEE_STATUS_OK)
      } else State_Monad.return True)"

definition handle_remove_device :: "'h Hal \<Rightarrow> NetworkRequest \<Rightarrow> NetworkResult \<Rightarrow> ('h, 'o, 'r, NetworkResult) net" where
  "handle_remove_device H request result =
     (if nq_device_short_addr request = kUnknownDeviceShortAddr \<or> nq_device_short_addr request = 0
      then State_Monad.return (result\<lparr>ne_status := kNetInvalidArgument\<rparr>)
      else do {
        let result1 = result\<lparr>ne_status := kNetOk, ne_force_remove := nq_force_remove request,
                             ne_force_remove_timeout_ms := nq_force_remove_timeout_ms request\<rparr>;
        zigbee_ready \<leftarrow> ensure_zigbee_started H;
        if \<not> zigbee_ready \<and> \<not> nq_force_remove request
        then State_Monad.return (result1\<lparr>ne_status := kNetHalFailed\<rparr>)
        else do {
          removed \<leftarrow> remove_driver H zigbee_ready (nq_device_short_addr request);
          if \<not> removed \<and> \<not> nq_force_remove request
          then State_Monad.return (result1\<lparr>ne_status := kNetHalFailed\<rparr>)
          else if nq_force_remove request then do {
            t \<leftarrow> now H;
            ok \<leftarrow> on_devices (schedule_force_remove (nq_device_short_addr request)
                   (t + nq_force_remove_timeout_ms request));
            State_Monad.return (if ok then result1\<lparr>ne_device_short_addr := nq_device_short_addr request\<rparr>
                                else result1\<lparr>ne_status := kNetNoCapacity\<rparr>)
          }
          else State_Monad.return (result1\<lparr>ne_device_short_addr := nq_device_short_addr request\<rparr>)
        }
      })"

text \<open>The loop over the expired removals: one event each; the number that found room in the queue.\<close>

fun queue_leaves :: "u16 list \<Rightarrow> ('h, 'o, 'r, nat) net" where
  "queue_leaves [] = State_Monad.return 0"
| "queue_leaves (a # as) = do {
     ok \<leftarrow> runtime (push_event (left_event a));
     (if ok then State_Monad.return () else on_runtime note_dropped_event);
     n \<leftarrow> queue_leaves as;
     State_Monad.return (if ok then n + 1 else n)
   }"

definition process_force_remove_timeouts :: "u32 \<Rightarrow> ('h, 'o, 'r, nat) net" where
  "process_force_remove_timeouts now_ms = do {
     expired \<leftarrow> on_devices (collect_expired_force_remove now_ms);
     queue_leaves expired
   }"

section \<open>Removals that time out\<close>

abbreviation dropped :: "('h, 'o, 'r) Net \<Rightarrow> u32" where
  "dropped s \<equiv> rx_dropped_events (rt_stats (nt_runtime s))"

lemma push_event_full:
  assumes "runtime_queue_ok rt" "length (queued rt) = kEventQueueCapacity"
  shows "push_event e rt = (False, drop_ingress rt)"
  using assms by (cases rule: push_event_cases[of rt e]) (auto simp: drop_ingress_def)

lemma push_event_has_room:
  assumes "runtime_queue_ok rt" "length (queued rt) < kEventQueueCapacity"
  obtains q where "push_event e rt = (True, rt\<lparr>rt_event_queue := q\<rparr>)" "runtime_queue_ok (rt\<lparr>rt_event_queue := q\<rparr>)"
    "queued (rt\<lparr>rt_event_queue := q\<rparr>) = queued rt @ [e]"
  using assms that by (cases rule: push_event_cases[of rt e]) (auto simp: runtime_queue_ok_def queued_def)

lemma queue_bound: "runtime_queue_ok rt \<Longrightarrow> length (queued rt) \<le> kEventQueueCapacity"
  by (simp add: runtime_queue_ok_def queued_def ring_inv_def)

lemma queue_leaves_spec:
  assumes "runtime_queue_ok (nt_runtime s)" "run_state (queue_leaves as) s = (n, s')"
  shows "n = min (length as) (kEventQueueCapacity - length (queued (nt_runtime s))) \<and>
    runtime_queue_ok (nt_runtime s') \<and> queued (nt_runtime s') = queued (nt_runtime s) @ map left_event (take n as) \<and>
    rt_devices (nt_runtime s') = rt_devices (nt_runtime s) \<and>
    dropped s' = dropped s + of_nat (length as - n) \<and>
    rt_dropped_ingress (nt_runtime s') = rt_dropped_ingress (nt_runtime s) + of_nat (length as - n)"
  using assms
proof (induction as arbitrary: s n)
  case (Cons a as)
  note le = queue_bound[OF Cons.prems(1)]
  show ?case
  proof (cases "length (queued (nt_runtime s)) = kEventQueueCapacity")
    case True
    let ?s = "s\<lparr>nt_runtime := note_dropped_event (drop_ingress (nt_runtime s))\<rparr>"
    have run: "run_state (queue_leaves as) ?s = (n, s')"
      using Cons.prems(2) push_event_full[OF Cons.prems(1) True, of "left_event a"]
      by (simp add: case_prod_unfold prod_eq_iff)
    have ok: "runtime_queue_ok (nt_runtime ?s)" and q: "queued (nt_runtime ?s) = queued (nt_runtime s)"
      using Cons.prems(1) by (simp_all add: runtime_queue_ok_def drop_ingress_def note_dropped_event_def queued_def)
    from Cons.IH[OF ok run] show ?thesis unfolding q
      using True by (simp add: note_dropped_event_def drop_ingress_def ac_simps)
  next
    case False
    with le have lt: "length (queued (nt_runtime s)) < kEventQueueCapacity" by simp
    from push_event_has_room[OF Cons.prems(1) lt, of "left_event a"] obtain q where
      push: "push_event (left_event a) (nt_runtime s) = (True, (nt_runtime s)\<lparr>rt_event_queue := q\<rparr>)" and
      ok: "runtime_queue_ok ((nt_runtime s)\<lparr>rt_event_queue := q\<rparr>)" and
      q: "queued ((nt_runtime s)\<lparr>rt_event_queue := q\<rparr>) = queued (nt_runtime s) @ [left_event a]" .
    let ?s = "s\<lparr>nt_runtime := (nt_runtime s)\<lparr>rt_event_queue := q\<rparr>\<rparr>"
    obtain m where run: "run_state (queue_leaves as) ?s = (m, s')" and n: "n = Suc m"
      using Cons.prems(2) push by (auto simp: case_prod_unfold prod_eq_iff)
    have "runtime_queue_ok (nt_runtime ?s)" using ok by simp
    from Cons.IH[OF this run] show ?thesis using lt n q by simp
  qed
qed simp


definition timers_net :: "(HostState, unit, unit) Net" where
  "timers_net = (net_init host_drivers_init () ())\<lparr>nt_runtime := runtime_init\<lparr>rt_devices := sample_timers\<rparr>\<rparr>"


section \<open>Devices that ask to join\<close>

text \<open>
  A join that finds the event queue full is refused, and the address is remembered all the same:
  when the device asks again within five seconds it is taken for a duplicate, answered with success, and no
  event is queued although there is room by then.
\<close>

theorem refused_join_is_swallowed_when_repeated:
  assumes "device_manager_inv (rt_devices (nt_runtime s))" "runtime_queue_ok (nt_runtime s)"
    and "length (queued (nt_runtime s)) = kEventQueueCapacity"
    and "\<not> no_address a" "\<not> fst (is_duplicate_join_candidate a t (rt_devices (nt_runtime s)))"
    and "run_state (handle_join_candidate H a t) s = (r1, s1)"
    and "rt_devices (nt_runtime s2) = rt_devices (nt_runtime s1)" "e \<le> kJoinDedupWindowMs"
    and "run_state (handle_join_candidate H2 a (t + e)) s2 = (r2, s3)"
  shows "\<not> r1 \<and> r2 \<and> queued (nt_runtime s3) = queued (nt_runtime s2)"
proof -
  obtain d where d: "is_duplicate_join_candidate a t (rt_devices (nt_runtime s)) = (False, d)"
    using assms(5) by (metis prod.collapse)
  have a: "\<not> (a = kUnknownDeviceShortAddr \<or> a = 0)" using assms(4) by (simp add: no_address_def)
  have ok: "runtime_queue_ok ((nt_runtime s)\<lparr>rt_devices := d\<rparr>)"
    "length (queued ((nt_runtime s)\<lparr>rt_devices := d\<rparr>)) = kEventQueueCapacity"
    using assms(2,3) by (simp_all add: runtime_queue_ok_def queued_def)
  have 1: "\<not> r1" "rt_devices (nt_runtime s1) = d"
    using assms(6) a by (auto simp: handle_join_candidate_def d push_event_full[OF ok] drop_ingress_def)
  have "fst (is_duplicate_join_candidate a (t + e) d)"
    using join_dedup[OF assms(1) d, of e] assms(8) by simp
  then obtain d' where "is_duplicate_join_candidate a (t + e) (rt_devices (nt_runtime s2)) = (True, d')"
    using assms(7) 1(2) by (metis (full_types) prod.collapse)
  then have "r2" "nt_runtime s3 = (nt_runtime s2)\<lparr>rt_devices := d'\<rparr>"
    using assms(9) a by (auto simp: handle_join_candidate_def)
  then show ?thesis using 1(1) by (simp add: queued_def)
qed

definition full_net :: "(HostState, unit, unit) Net" where
  "full_net = (net_init host_drivers_init () ())\<lparr>nt_runtime := runtime_init\<lparr>rt_event_queue :=
     \<lparr>rg_buf = replicate 32 core_event_default, rg_head = 0, rg_tail = 0, rg_count = 32\<rparr>\<rparr>\<rparr>"

lemma refused_join_is_swallowed_when_repeated_witness:
  "let s1 = snd (run_state (handle_join_candidate host_hal 7 1000) full_net);
       s2 = s1\<lparr>nt_runtime := (nt_runtime s1)\<lparr>rt_event_queue := ring_empty 32 core_event_default\<rparr>\<rparr>
   in fst (run_state (handle_join_candidate host_hal 7 (1000 + 100)) s2) \<and>
      queued (nt_runtime (snd (run_state (handle_join_candidate host_hal 7 (1000 + 100)) s2))) = []"
proof -
  obtain r1 s1 where 1: "run_state (handle_join_candidate host_hal 7 1000) full_net = (r1, s1)"
    by (rule that[OF prod.collapse[symmetric]])
  let ?s2 = "s1\<lparr>nt_runtime := (nt_runtime s1)\<lparr>rt_event_queue := ring_empty 32 core_event_default\<rparr>\<rparr>"
  obtain r2 s3 where 2: "run_state (handle_join_candidate host_hal 7 (1000 + 100)) ?s2 = (r2, s3)"
    by (rule that[OF prod.collapse[symmetric]])
  have full: "runtime_queue_ok (nt_runtime full_net)" "length (queued (nt_runtime full_net)) = kEventQueueCapacity"
    "rt_devices (nt_runtime full_net) = device_manager_init"
    by (simp_all add: full_net_def runtime_queue_ok_def queued_def ring_inv_def kEventQueueCapacity_def runtime_init_def)
  have inv: "device_manager_inv (rt_devices (nt_runtime full_net))" by (simp add: full device_manager_inv_init)
  have new: "\<not> fst (is_duplicate_join_candidate 7 1000 (rt_devices (nt_runtime full_net)))"
    unfolding full(3) by code_simp
  have q: "queued (nt_runtime ?s2) = []" by (simp add: queued_def kEventQueueCapacity_def)
  have "r2 \<and> queued (nt_runtime s3) = queued (nt_runtime ?s2)"
    using refused_join_is_swallowed_when_repeated[OF inv full(1,2) _ new 1 _ _ 2]
    by (simp add: no_address_def kUnknownDeviceShortAddr_def kJoinDedupWindowMs_def)
  then show ?thesis unfolding Let_def 1 snd_conv 2 fst_conv q by simp
qed

end
