(* ===== verification/NetworkManager.thy ===== *)
theory NetworkManager
  imports ZigbeeLifecycle
begin

text \<open>
  \<^verbatim>\<open>components/service/scan_manager.cpp\<close> and \<^verbatim>\<open>network_manager.cpp\<close>, with the posts of the runtime that feed them:
  the queue of network requests, one handler per kind of request, and the worker task that scans. The flag
  \<open>esp\<close> is \<^verbatim>\<open>ESP_PLATFORM\<close>: on the target a scan is handed to the worker, on the host it is done in place.
\<close>

section \<open>Scan manager\<close>

definition on_scan :: "(ScanManager \<Rightarrow> 'a \<times> ScanManager) \<Rightarrow> ('h, 'o, 'r, 'a) net" where
  "on_scan f = State (\<lambda>s. case f (nt_scan s) of (a, m) \<Rightarrow> (a, s\<lparr>nt_scan := m\<rparr>))"

lemma run_on_scan [simp]:
  "run_state (on_scan f) s = (case f (nt_scan s) of (a, m) \<Rightarrow> (a, s\<lparr>nt_scan := m\<rparr>))"
  by (simp add: on_scan_def)

definition scan_enqueue_request :: "u32 \<Rightarrow> ScanManager \<Rightarrow> bool \<times> ScanManager" where
  "scan_enqueue_request request_id m =
     (if request_id = 0 then (False, m)
      else (case ring_push kScanQueueCapacity request_id (sm_queue m) of
              None \<Rightarrow> (False, m)
            | Some q \<Rightarrow> (True, m\<lparr>sm_queue := q, sm_pending_count := of_nat (rg_count q)\<rparr>)))"

definition scan_pop_request :: "ScanManager \<Rightarrow> u32 option \<times> ScanManager" where
  "scan_pop_request m =
     (case ring_pop kScanQueueCapacity (sm_queue m) of
        None \<Rightarrow> (None, m)
      | Some (i, q) \<Rightarrow> (Some i, m\<lparr>sm_queue := q, sm_pending_count := of_nat (rg_count q)\<rparr>))"

definition scan_is_request_queued :: "u32 \<Rightarrow> ScanManager \<Rightarrow> bool" where
  "scan_is_request_queued request_id m \<longleftrightarrow>
     request_id \<noteq> 0 \<and> list_ex (\<lambda>i. i = request_id) (ring_list kScanQueueCapacity (sm_queue m))"

definition scan_is_request_in_progress :: "u32 \<Rightarrow> ScanManager \<Rightarrow> bool" where
  "scan_is_request_in_progress request_id m \<longleftrightarrow> request_id \<noteq> 0 \<and> sm_active_request_id m = request_id"

definition scan_has_pending_or_busy :: "ScanManager \<Rightarrow> bool" where
  "scan_has_pending_or_busy m \<longleftrightarrow> sm_busy m \<or> sm_pending_count m \<noteq> 0"

text \<open>Filling in the records of a scan: at most sixteen.\<close>

definition copy_record :: "NetworkScanRecord \<Rightarrow> NetworkScanRecord" where
  "copy_record r = r\<lparr>nr_ssid := text_of 33 (nr_ssid r)\<rparr>"

definition scan_into :: "'h Hal \<Rightarrow> NetworkResult \<Rightarrow> ('h, 'o, 'r, NetworkResult) net" where
  "scan_into H result = do {
     mode_ok \<leftarrow> ensure_wifi_mode_for_scan H;
     if \<not> mode_ok then State_Monad.return (result\<lparr>ne_status := kNetHalFailed\<rparr>)
     else do {
       found \<leftarrow> call (hal_wifi_scan H kNetworkScanMaxRecords);
       State_Monad.return (case found of
           None \<Rightarrow> result\<lparr>ne_status := kNetHalFailed\<rparr>
         | Some records \<Rightarrow> result\<lparr>ne_scan_records := map copy_record (take kNetworkScanMaxRecords records)\<rparr>)
     }
   }"

definition scan_result_ok :: NetworkResult where
  "scan_result_ok = network_result_default\<lparr>ne_operation := kScan, ne_status := kNetOk\<rparr>"

text \<open>
  The worker task, one shared access after the other; its program counter holds the request it works on.
\<close>

datatype ScanWorker =
  WorkerIdle | WorkerPopped u32 | WorkerBusy u32 | WorkerScanning u32 | WorkerScanned u32 NetworkResult |
  WorkerReleased u32 NetworkResult

definition note_poll :: "u32 \<Rightarrow> NetworkOperationPollStatus \<Rightarrow> ('h, 'o, 'r, unit) net" where
  "note_poll request_id status = results (\<lambda>q. ((), note_network_poll_status request_id status q))"

fun run_worker_step :: "'h Hal \<Rightarrow> ScanWorker \<Rightarrow> ('h, 'o, 'r, ScanWorker) net" where
  "run_worker_step H WorkerIdle = do {
     i \<leftarrow> on_scan scan_pop_request;
     State_Monad.return (case i of None \<Rightarrow> WorkerIdle | Some i \<Rightarrow> WorkerPopped i)
   }"
| "run_worker_step H (WorkerPopped i) = do {
     on_scan (\<lambda>m. ((), m\<lparr>sm_busy := True\<rparr>));
     State_Monad.return (WorkerBusy i)
   }"
| "run_worker_step H (WorkerBusy i) = do {
     on_scan (\<lambda>m. ((), m\<lparr>sm_active_request_id := i\<rparr>));
     note_poll i kScanInProgress;
     State_Monad.return (WorkerScanning i)
   }"
| "run_worker_step H (WorkerScanning i) = do {
     result \<leftarrow> scan_into H scan_result_ok;
     State_Monad.return (WorkerScanned i result)
   }"
| "run_worker_step H (WorkerScanned i result) = do {
     on_scan (\<lambda>m. ((), m\<lparr>sm_busy := False, sm_active_request_id := 0\<rparr>));
     State_Monad.return (WorkerReleased i result)
   }"
| "run_worker_step H (WorkerReleased i result) = do {
     ok \<leftarrow> queue_network_result \<lparr>or_request_id = i, or_body = result\<rparr>;
     (if ok then State_Monad.return () else on_runtime drop_ingress);
     State_Monad.return WorkerIdle
   }"

section \<open>Network manager\<close>

definition network_handle_event :: "CoreEvent \<Rightarrow> NetworkManager \<Rightarrow> bool \<times> NetworkManager" where
  "network_handle_event event m =
     (if ev_type event \<noteq> kCommandRefreshNetworkRequested then (False, m)
      else (True, m\<lparr>nm_refresh_requested := True, nm_refresh_count := nm_refresh_count m + 1\<rparr>))"

definition clear_refresh_requested :: "NetworkManager \<Rightarrow> NetworkManager" where
  "clear_refresh_requested m = m\<lparr>nm_refresh_requested := False\<rparr>"

definition enqueue_request :: "NetworkRequest \<Rightarrow> ('h, 'o, 'r, bool) net" where
  "enqueue_request request =
     (if nq_request_id request = 0 \<or> nq_operation request = kOpUnknown then State_Monad.return False
      else do {
        q \<leftarrow> gets (\<lambda>s. ring_push kRequestQueueCapacity request (nm_requests (nt_network s)));
        (case q of
           None \<Rightarrow> do { on_runtime drop_ingress; State_Monad.return False }
         | Some q \<Rightarrow> do {
             modify (\<lambda>s. s\<lparr>nt_network := (nt_network s)\<lparr>nm_requests := q\<rparr>\<rparr>);
             State_Monad.return True
           })
      })"

definition pop_request :: "('h, 'o, 'r) Net \<Rightarrow> (NetworkRequest \<times> ('h, 'o, 'r) Net) option" where
  "pop_request s =
     map_option (\<lambda>(r, q). (r, s\<lparr>nt_network := (nt_network s)\<lparr>nm_requests := q\<rparr>\<rparr>))
       (ring_pop kRequestQueueCapacity (nm_requests (nt_network s)))"

definition network_is_scan_request_queued :: "u32 \<Rightarrow> NetworkManager \<Rightarrow> bool" where
  "network_is_scan_request_queued request_id m \<longleftrightarrow> request_id \<noteq> 0 \<and>
     list_ex (\<lambda>r. nq_request_id r = request_id \<and> nq_operation r = kScan) (ring_list kRequestQueueCapacity (nm_requests m))"

text \<open>A handler gives the result and whether it is to be queued now.\<close>

definition handle_scan :: "bool \<Rightarrow> 'h Hal \<Rightarrow> NetworkRequest \<Rightarrow> NetworkResult \<Rightarrow> ('h, 'o, 'r, NetworkResult \<times> bool) net" where
  "handle_scan esp H request result = do {
     m \<leftarrow> gets nt_scan;
     if scan_has_pending_or_busy m then State_Monad.return (result\<lparr>ne_status := kNetNoCapacity\<rparr>, True)
     else if esp then do {
       ok \<leftarrow> on_scan (scan_enqueue_request (nq_request_id request));
       if \<not> ok then State_Monad.return (result\<lparr>ne_status := kNetNoCapacity\<rparr>, True)
       else do {
         note_poll (nq_request_id request) kScanQueued;
         State_Monad.return (result, False)
       }
     } else do {
       r \<leftarrow> scan_into H result;
       State_Monad.return (r, True)
     }
   }"

definition save_credentials :: "'h Hal \<Rightarrow> string \<Rightarrow> string \<Rightarrow> ('h, 'o, 'r, bool) net" where
  "save_credentials H ssid password = do {
     ok \<leftarrow> call (hal_nvs_set_str H ''wifi_ssid'' ssid);
     if \<not> ok then State_Monad.return False else call (hal_nvs_set_str H ''wifi_password'' password)
   }"

definition start_connect :: "'h Hal \<Rightarrow> NetworkRequest \<Rightarrow> NetworkResult \<Rightarrow> ('h, 'o, 'r, NetworkResult \<times> bool) net" where
  "start_connect H request result = do {
     mode_ok \<leftarrow> ensure_wifi_mode_for_sta_connect H;
     if \<not> mode_ok then State_Monad.return (result\<lparr>ne_status := kNetHalFailed\<rparr>, True)
     else do {
       clear_autoconnect_backoff;
       ok \<leftarrow> call (hal_wifi_connect_sta_async H (nq_ssid request) (nq_password request));
       if \<not> ok then State_Monad.return (result\<lparr>ne_status := kNetHalFailed\<rparr>, True)
       else do {
         now_ms \<leftarrow> now H;
         on_policy (arm_pending_sta_connect (nq_request_id request) (ne_saved result) (nq_ssid request)
           (now_ms + kStaConnectAsyncTimeoutMs));
         State_Monad.return (result, False)
       }
     }
   }"

definition handle_connect :: "'h Hal \<Rightarrow> NetworkRequest \<Rightarrow> NetworkResult \<Rightarrow> ('h, 'o, 'r, NetworkResult \<times> bool) net" where
  "handle_connect H request result =
     (if nq_ssid request = [] then State_Monad.return (result\<lparr>ne_status := kNetInvalidArgument\<rparr>, True)
      else do {
        p \<leftarrow> gets nt_policy;
        m \<leftarrow> gets nt_scan;
        if has_pending_sta_connect p \<or> scan_has_pending_or_busy m
        then State_Monad.return (result\<lparr>ne_status := kNetNoCapacity\<rparr>, True)
        else if nq_save_credentials request then do {
          ok \<leftarrow> save_credentials H (nq_ssid request) (nq_password request);
          if \<not> ok then State_Monad.return (result\<lparr>ne_status := kNetHalFailed\<rparr>, True)
          else start_connect H request (result\<lparr>ne_saved := True\<rparr>)
        } else start_connect H request result
      })"

definition handle_credentials_status :: "'h Hal \<Rightarrow> NetworkResult \<Rightarrow> ('h, 'o, 'r, NetworkResult) net" where
  "handle_credentials_status H result = do {
     ssid \<leftarrow> call (hal_nvs_get_str H ''wifi_ssid'' 33);
     password \<leftarrow> call (hal_nvs_get_str H ''wifi_password'' 65);
     State_Monad.return (
       let saved = (ssid \<noteq> None \<and> ssid \<noteq> Some []);
           result1 = result\<lparr>ne_saved := saved, ne_has_password := (password \<noteq> None \<and> password \<noteq> Some [])\<rparr>
       in if saved then result1\<lparr>ne_ssid := text_of 33 (the ssid)\<rparr> else result1)
   }"

definition handle_open_join_window :: "'h Hal \<Rightarrow> NetworkRequest \<Rightarrow> NetworkResult \<Rightarrow> ('h, 'o, 'r, NetworkResult) net" where
  "handle_open_join_window H request result =
     (if nq_join_window_seconds request = 0 then State_Monad.return (result\<lparr>ne_status := kNetInvalidArgument\<rparr>)
      else do {
        started \<leftarrow> ensure_zigbee_started H;
        if \<not> started then State_Monad.return (result\<lparr>ne_status := kNetHalFailed\<rparr>)
        else do {
          t \<leftarrow> now H;
          opened \<leftarrow> request_join_window_open H (nq_join_window_seconds request) t;
          State_Monad.return (if \<not> opened then result\<lparr>ne_status := kNetHalFailed\<rparr>
                              else result\<lparr>ne_join_window_seconds := nq_join_window_seconds request\<rparr>)
        }
      })"

definition result_of_request :: "NetworkRequest \<Rightarrow> NetworkResult" where
  "result_of_request request = network_result_default\<lparr>ne_operation := nq_operation request, ne_status := kNetOk\<rparr>"

definition answered :: "('h, 'o, 'r, NetworkResult) net \<Rightarrow> ('h, 'o, 'r, NetworkResult \<times> bool) net" where
  "answered m = do { r \<leftarrow> m; State_Monad.return (r, True) }"

definition handle_request :: "bool \<Rightarrow> 'h Hal \<Rightarrow> NetworkRequest \<Rightarrow> ('h, 'o, 'r, NetworkResult \<times> bool) net" where
  "handle_request esp H request =
     (case nq_operation request of
        kScan \<Rightarrow> handle_scan esp H request (result_of_request request)
      | kConnect \<Rightarrow> handle_connect H request (result_of_request request)
      | kCredentialsStatus \<Rightarrow> answered (handle_credentials_status H (result_of_request request))
      | kOpenJoinWindow \<Rightarrow> answered (handle_open_join_window H request (result_of_request request))
      | kRemoveDevice \<Rightarrow> answered (handle_remove_device H request (result_of_request request))
      | kOpUnknown \<Rightarrow>
          State_Monad.return ((result_of_request request)\<lparr>ne_status := kNetInvalidArgument\<rparr>, True))"

text \<open>One round of the drain loop; the pointers it passes are never null, so the handler never refuses.\<close>

definition serve_request :: "bool \<Rightarrow> 'h Hal \<Rightarrow> NetworkRequest \<Rightarrow> ('h, 'o, 'r, bool) net" where
  "serve_request esp H request = do {
     a \<leftarrow> handle_request esp H request;
     if snd a then do {
       ok \<leftarrow> queue_network_result \<lparr>or_request_id = nq_request_id request, or_body = fst a\<rparr>;
       (if ok then State_Monad.return () else on_runtime note_dropped_event);
       State_Monad.return True
     } else State_Monad.return False
   }"

section \<open>What the handlers leave alone\<close>

definition keeps :: "('s \<Rightarrow> 'x) \<Rightarrow> ('s, 'a) state \<Rightarrow> bool" where
  "keeps f m \<longleftrightarrow> (\<forall>s. f (snd (run_state m s)) = f s)"

named_theorems keeps_intros

lemma keeps_return [keeps_intros]: "keeps f (State_Monad.return a)"
  by (simp add: keeps_def)

lemma keeps_gets [keeps_intros]: "keeps f (gets g)"
  by (simp add: keeps_def)

lemma keeps_bind [keeps_intros]:
  assumes "keeps f m" "\<And>x. keeps f (g x)"
  shows "keeps f (State_Monad.bind m g)"
  unfolding keeps_def
proof
  fix s
  obtain a t where "run_state m s = (a, t)" by fastforce
  then show "f (snd (run_state (State_Monad.bind m g) s)) = f s"
    using assms by (auto simp: keeps_def dest: spec[of _ s])
qed

lemma keeps_if [keeps_intros]: "keeps f m \<Longrightarrow> keeps f n \<Longrightarrow> keeps f (if b then m else n)"
  by simp

lemma keeps_let [keeps_intros]: "(\<And>x. keeps f (g x)) \<Longrightarrow> keeps f (let x = t in g x)"
  by (simp add: Let_def)

lemma keeps_option [keeps_intros]:
  "keeps f m \<Longrightarrow> (\<And>y. keeps f (g y)) \<Longrightarrow> keeps f (case x of None \<Rightarrow> m | Some y \<Rightarrow> g y)"
  by (simp split: option.split)

lemma keeps_mode [keeps_intros]:
  "keeps f a \<Longrightarrow> keeps f b \<Longrightarrow> keeps f c \<Longrightarrow> keeps f d \<Longrightarrow>
   keeps f (case x of HAL_WIFI_MODE_NULL \<Rightarrow> a | HAL_WIFI_MODE_STA \<Rightarrow> b | HAL_WIFI_MODE_AP \<Rightarrow> c | HAL_WIFI_MODE_APSTA \<Rightarrow> d)"
  by (simp split: hal_wifi_mode.split)

lemma keeps_operation [keeps_intros]:
  "keeps f a \<Longrightarrow> keeps f b \<Longrightarrow> keeps f c \<Longrightarrow> keeps f d \<Longrightarrow> keeps f e \<Longrightarrow> keeps f g \<Longrightarrow>
   keeps f (case x of kOpUnknown \<Rightarrow> a | kScan \<Rightarrow> b | kConnect \<Rightarrow> c | kCredentialsStatus \<Rightarrow> d | kOpenJoinWindow \<Rightarrow> e |
     kRemoveDevice \<Rightarrow> g)"
  by (simp split: NetworkOperationType.split)

lemma keeps_parts [keeps_intros]:
  "keeps nt_network (call c)" "keeps nt_network (on_policy p)" "keeps nt_network (on_connectivity k)"
  "keeps nt_network (on_runtime u)" "keeps nt_network (runtime r)" "keeps nt_network (results q)"
  "keeps nt_network (on_scan m)" "keeps nt_network (set_join_window_cache b n)" "keeps nt_network (on_devices d)"
  "keeps nt_scan (call c)" "keeps nt_scan (on_policy p)" "keeps nt_scan (on_connectivity k)"
  "keeps nt_scan (on_runtime u)" "keeps nt_scan (runtime r)" "keeps nt_scan (results q)"
  "keeps nt_scan (set_join_window_cache b n)" "keeps nt_scan (on_devices d)"
  by (simp_all add: keeps_def case_prod_unfold)

text \<open>The pending connection: changed by connecting and by its own completion only.\<close>

abbreviation pending_of :: "('h, 'o, 'r) Net \<Rightarrow> PendingStaConnect" where
  "pending_of s \<equiv> np_pending_sta_connect (nt_policy s)"

lemma keeps_pending [keeps_intros]:
  "keeps pending_of (call c)" "keeps pending_of (on_connectivity k)"
  "keeps pending_of (on_runtime u)" "keeps pending_of (runtime r)" "keeps pending_of (results q)"
  "keeps pending_of (on_scan m)" "keeps pending_of (set_join_window_cache b n)" "keeps pending_of (on_devices d)"
  "(\<And>p. np_pending_sta_connect (g p) = np_pending_sta_connect p) \<Longrightarrow> keeps pending_of (on_policy g)"
  by (simp_all add: keeps_def case_prod_unfold)

lemmas net_defs = now_def ensure_wifi_mode_for_scan_def ensure_wifi_mode_for_sta_connect_def
  mark_wifi_credentials_available_def on_zigbee_started_def ensure_zigbee_started_def clear_autoconnect_backoff_def
  request_join_window_open_def on_join_window_force_closed_def remove_driver_def handle_remove_device_def
  queue_network_result_def scan_into_def note_poll_def save_credentials_def
  handle_credentials_status_def handle_open_join_window_def answered_def

lemma keeps_network_ops [keeps_intros]:
  "keeps nt_network (ensure_zigbee_started H)" "keeps nt_network (scan_into H r)"
  "keeps nt_network (handle_remove_device H q r)" "keeps nt_network (handle_credentials_status H r)"
  "keeps nt_network (handle_open_join_window H q r)" "keeps nt_network (now H)" "keeps nt_network (queue_network_result x)"
  unfolding net_defs by (intro keeps_intros)+

lemma keeps_scan_ops [keeps_intros]:
  "keeps nt_scan (ensure_zigbee_started H)" "keeps nt_scan (scan_into H r)"
  "keeps nt_scan (handle_remove_device H q r)" "keeps nt_scan (handle_credentials_status H r)"
  "keeps nt_scan (handle_open_join_window H q r)" "keeps nt_scan (now H)" "keeps nt_scan (queue_network_result x)"
  unfolding net_defs by (intro keeps_intros)+

lemma keeps_pending_ops [keeps_intros]:
  "keeps pending_of (ensure_zigbee_started H)" "keeps pending_of (scan_into H r)"
  "keeps pending_of (handle_remove_device H q r)" "keeps pending_of (handle_credentials_status H r)"
  "keeps pending_of (handle_open_join_window H q r)" "keeps pending_of (now H)" "keeps pending_of (queue_network_result x)"
  unfolding net_defs by (intro keeps_intros; simp)+

lemma keeps_network_serve: "keeps nt_network (serve_request esp H request)"
  unfolding serve_request_def handle_request_def answered_def handle_scan_def handle_connect_def start_connect_def
    save_credentials_def ensure_wifi_mode_for_sta_connect_def clear_autoconnect_backoff_def note_poll_def
  by (intro keeps_intros)

section \<open>The drain loop\<close>

function drain_requests :: "bool \<Rightarrow> 'h Hal \<Rightarrow> ('h, 'o, 'r) Net \<Rightarrow> bool \<times> ('h, 'o, 'r) Net" where
  "drain_requests esp H s =
     (case pop_request s of
        None \<Rightarrow> (False, s)
      | Some (request, s1) \<Rightarrow> (True, snd (drain_requests esp H (snd (run_state (serve_request esp H request) s1)))))"
  by pat_completeness auto
termination
  by (relation "measure (\<lambda>(esp, H, s). rg_count (nm_requests (nt_network s)))")
    (auto simp: pop_request_def ring_pop_def keeps_network_serve[unfolded keeps_def, rule_format] split: if_splits)

declare drain_requests.simps [simp del]

section \<open>Every request is answered once\<close>

text \<open>
  The runtime task serves requests and completes the pending connection, the worker takes its steps, and
  any task may post a request, in any order.
\<close>

datatype NetOp = Post NetworkRequest | Serve | Complete bool u32 | WorkerStep

type_synonym ('h, 'o, 'r) scan_system = "('h, 'o, 'r) Net \<times> ScanWorker"

definition serve_next :: "bool \<Rightarrow> 'h Hal \<Rightarrow> ('h, 'o, 'r) Net \<Rightarrow> ('h, 'o, 'r) Net" where
  "serve_next esp H s =
     (case pop_request s of None \<Rightarrow> s | Some (request, s1) \<Rightarrow> snd (run_state (serve_request esp H request) s1))"

fun net_op :: "bool \<Rightarrow> 'h Hal \<Rightarrow> NetOp \<Rightarrow> ('h, 'o, 'r) scan_system \<Rightarrow> ('h, 'o, 'r) scan_system" where
  "net_op esp H (Post r) (s, w) = (snd (run_state (enqueue_request r) s), w)"
| "net_op esp H Serve (s, w) = (serve_next esp H s, w)"
| "net_op esp H (Complete connected now_ms) (s, w) =
     (snd (run_state (process_pending_sta_connect H connected now_ms) s), w)"
| "net_op esp H WorkerStep (s, w) = (case run_state (run_worker_step H w) s of (w', s') \<Rightarrow> (s', w'))"

text \<open>The ids of the requests still open, those accepted by a step, those answered by a step.\<close>

definition one_if :: "bool \<Rightarrow> 'k \<Rightarrow> 'k multiset" where
  "one_if b x = (if b then {#x#} else {#})"

fun worker_ids :: "ScanWorker \<Rightarrow> u32 multiset" where
  "worker_ids WorkerIdle = {#}"
| "worker_ids (WorkerPopped i) = {#i#}"
| "worker_ids (WorkerBusy i) = {#i#}"
| "worker_ids (WorkerScanning i) = {#i#}"
| "worker_ids (WorkerScanned i r) = {#i#}"
| "worker_ids (WorkerReleased i r) = {#i#}"

definition queued_ids :: "('h, 'o, 'r) Net \<Rightarrow> u32 multiset" where
  "queued_ids s = mset (map nq_request_id (ring_list kRequestQueueCapacity (nm_requests (nt_network s))))"

definition running_ids :: "('h, 'o, 'r) Net \<Rightarrow> u32 multiset" where
  "running_ids s = mset (ring_list kScanQueueCapacity (sm_queue (nt_scan s))) +
     one_if (ps_in_use (pending_of s)) (ps_request_id (pending_of s))"

definition open_ids :: "('h, 'o, 'r) scan_system \<Rightarrow> u32 multiset" where
  "open_ids y = queued_ids (fst y) + running_ids (fst y) + worker_ids (snd y)"

fun step_accepts :: "NetOp \<Rightarrow> ('h, 'o, 'r) scan_system \<Rightarrow> u32 multiset" where
  "step_accepts (Post r) (s, w) = one_if (fst (run_state (enqueue_request r) s)) (nq_request_id r)"
| "step_accepts _ y = {#}"

fun step_answers :: "bool \<Rightarrow> 'h Hal \<Rightarrow> NetOp \<Rightarrow> ('h, 'o, 'r) scan_system \<Rightarrow> u32 multiset" where
  "step_answers esp H Serve (s, w) =
     (case pop_request s of None \<Rightarrow> {#}
      | Some (request, s1) \<Rightarrow> one_if (fst (run_state (serve_request esp H request) s1)) (nq_request_id request))"
| "step_answers esp H (Complete connected now_ms) (s, w) =
     one_if (0 < fst (run_state (process_pending_sta_connect H connected now_ms) s)) (ps_request_id (pending_of s))"
| "step_answers esp H WorkerStep (s, w) = (case w of WorkerReleased i r \<Rightarrow> {#i#} | _ \<Rightarrow> {#})"
| "step_answers esp H (Post r) y = {#}"

definition net_ok :: "('h, 'o, 'r) scan_system \<Rightarrow> bool" where
  "net_ok y \<longleftrightarrow> ring_inv kRequestQueueCapacity (nm_requests (nt_network (fst y))) \<and>
     ring_inv kScanQueueCapacity (sm_queue (nt_scan (fst y)))"

lemma net_init_ok: "net_ok (net_init h ob r, WorkerIdle)" "open_ids (net_init h ob r, WorkerIdle) = {#}"
  by (simp_all add: net_ok_def net_init_def network_manager_init_def scan_manager_init_def ring_inv_empty
      kRequestQueueCapacity_def kScanQueueCapacity_def open_ids_def queued_ids_def running_ids_def one_if_def
      network_policy_init_def pending_sta_default_def)

lemma publish_network_result_True: "fst (publish_network_result x q) = True"
  by (simp add: publish_network_result_def split: option.split)

lemma run_queue_network_result [simp]:
  "run_state (queue_network_result x) s = (True, s\<lparr>nt_results := snd (publish_network_result x (nt_results s))\<rparr>)"
  using publish_network_result_True[of x "nt_results s"]
  by (simp add: queue_network_result_def case_prod_unfold)

lemma run_serve_request:
  "run_state (serve_request esp H request) s =
     (case run_state (handle_request esp H request) s of (a, t) \<Rightarrow>
        (snd a, if snd a then t\<lparr>nt_results := snd (publish_network_result
            \<lparr>or_request_id = nq_request_id request, or_body = fst a\<rparr> (nt_results t))\<rparr> else t))"
  by (simp add: serve_request_def case_prod_unfold)

lemma keepsD: "keeps f m \<Longrightarrow> run_state m s = (a, t) \<Longrightarrow> f t = f s"
  unfolding keeps_def by (metis snd_conv)

lemma only_halD: "only_hal m \<Longrightarrow> run_state m s = (a, t) \<Longrightarrow> \<exists>h. t = s\<lparr>nt_hal := h\<rparr>"
  unfolding only_hal_def by (metis snd_conv)

lemma handle_scan_effect:
  assumes "run_state (handle_scan esp H request result) s = ((x, b), t)"
    and "ring_inv kScanQueueCapacity (sm_queue (nt_scan s))"
  shows "pending_of t = pending_of s \<and> ring_inv kScanQueueCapacity (sm_queue (nt_scan t)) \<and>
    ring_list kScanQueueCapacity (sm_queue (nt_scan t)) =
      ring_list kScanQueueCapacity (sm_queue (nt_scan s)) @ (if b then [] else [nq_request_id request])"
proof (cases "scan_has_pending_or_busy (nt_scan s)")
  case True
  then show ?thesis using assms by (auto simp: handle_scan_def)
next
  case False
  show ?thesis
  proof (cases esp)
    case True
    then show ?thesis using False assms ring_push_refines[OF assms(2)]
      by (auto simp: handle_scan_def scan_enqueue_request_def note_poll_def split: if_splits option.splits)
  next
    case host: False
    have "b \<and> nt_scan t = nt_scan s \<and> pending_of t = pending_of s"
      using False host assms(1) keepsD[OF keeps_scan_ops(2), of H result s] keepsD[OF keeps_pending_ops(2), of H result s]
      by (auto simp: handle_scan_def split: prod.splits)
    then show ?thesis using assms(2) by simp
  qed
qed

lemma handle_connect_effect:
  assumes "run_state (handle_connect H request result) s = ((x, b), t)"
  shows "nt_scan t = nt_scan s \<and>
    (if b then pending_of t = pending_of s
     else \<not> ps_in_use (pending_of s) \<and> ps_in_use (pending_of t) \<and> ps_request_id (pending_of t) = nq_request_id request)"
proof -
  have start: "nt_scan t = nt_scan u \<and>
      (if b then pending_of t = pending_of u
       else ps_in_use (pending_of t) \<and> ps_request_id (pending_of t) = nq_request_id request)"
    if r: "run_state (start_connect H request res) u = ((x, b), t)" for res u
  proof -
    obtain m h where 1: "run_state (ensure_wifi_mode_for_sta_connect H) u = (m, u\<lparr>nt_hal := h\<rparr>)"
      using only_halE[OF only_hal_connectivity(2)] .
    show ?thesis
    proof (cases m)
      case True
      obtain ok h2 where 2: "hal_wifi_connect_sta_async H (nq_ssid request) (nq_password request) h = (ok, h2)" by fastforce
      show ?thesis using r True
        by (cases ok) (auto simp: start_connect_def 1 2 clear_autoconnect_backoff_def arm_pending_sta_connect_def
            split: prod.splits dest!: only_halD[OF only_hal_now])
    next
      case False
      then show ?thesis using r by (auto simp: start_connect_def 1)
    qed
  qed
  have save: "only_hal (save_credentials H a c)" for a c
    unfolding save_credentials_def by (intro only_hal_intros)
  obtain ok h where sv: "run_state (save_credentials H (nq_ssid request) (nq_password request)) s = (ok, s\<lparr>nt_hal := h\<rparr>)"
    using only_halE[OF save] .
  show ?thesis
  proof (cases "nq_ssid request = [] \<or> has_pending_sta_connect (nt_policy s) \<or> scan_has_pending_or_busy (nt_scan s) \<or>
      (nq_save_credentials request \<and> \<not> ok)")
    case True
    then show ?thesis using assms sv by (auto simp: handle_connect_def split: if_splits)
  next
    case False
    then have free: "\<not> ps_in_use (pending_of s)" by (simp add: has_pending_sta_connect_def)
    consider "run_state (start_connect H request result) s = ((x, b), t)"
      | "run_state (start_connect H request (result\<lparr>ne_saved := True\<rparr>)) (s\<lparr>nt_hal := h\<rparr>) = ((x, b), t)"
      using False assms sv by (auto simp: handle_connect_def split: if_splits)
    then show ?thesis using free by cases (auto dest!: start split: if_splits)
  qed
qed


lemma serve_effect:
  assumes "run_state (serve_request esp H request) s = (b, t)" "ring_inv kScanQueueCapacity (sm_queue (nt_scan s))"
  shows "nt_network t = nt_network s \<and> ring_inv kScanQueueCapacity (sm_queue (nt_scan t)) \<and>
    running_ids t + one_if b (nq_request_id request) = add_mset (nq_request_id request) (running_ids s)"
proof -
  obtain x b' u where h: "run_state (handle_request esp H request) s = ((x, b'), u)" by (metis prod.collapse)
  have b: "b = b'" "nt_scan t = nt_scan u" "pending_of t = pending_of u"
    using assms(1) by (auto simp: run_serve_request h)
  have net: "nt_network t = nt_network s" by (rule keepsD[OF keeps_network_serve assms(1)])
  have "ring_inv kScanQueueCapacity (sm_queue (nt_scan u)) \<and>
      running_ids u + one_if b' (nq_request_id request) = add_mset (nq_request_id request) (running_ids s)"
  proof (cases "nq_operation request")
    case kScan
    then have "run_state (handle_scan esp H request (result_of_request request)) s = ((x, b'), u)"
      using h by (simp add: handle_request_def)
    from handle_scan_effect[OF this assms(2)] show ?thesis
      by (auto simp: running_ids_def one_if_def split: if_splits)
  next
    case kConnect
    then have "run_state (handle_connect H request (result_of_request request)) s = ((x, b'), u)"
      using h by (simp add: handle_request_def)
    from handle_connect_effect[OF this] show ?thesis
      using assms(2) by (auto simp: running_ids_def one_if_def split: if_splits)
  next
    case kOpUnknown
    then show ?thesis using h assms(2) by (auto simp: handle_request_def running_ids_def one_if_def)
  next
    case kCredentialsStatus
    then have r: "b'" "run_state (handle_credentials_status H (result_of_request request)) s = (x, u)"
      using h by (auto simp: handle_request_def answered_def split: prod.splits)
    show ?thesis using r(1) keepsD[OF keeps_scan_ops(4) r(2)] keepsD[OF keeps_pending_ops(4) r(2)] assms(2)
      by (simp add: running_ids_def one_if_def)
  next
    case kOpenJoinWindow
    then have r: "b'" "run_state (handle_open_join_window H request (result_of_request request)) s = (x, u)"
      using h by (auto simp: handle_request_def answered_def split: prod.splits)
    show ?thesis using r(1) keepsD[OF keeps_scan_ops(5) r(2)] keepsD[OF keeps_pending_ops(5) r(2)] assms(2)
      by (simp add: running_ids_def one_if_def)
  next
    case kRemoveDevice
    then have r: "b'" "run_state (handle_remove_device H request (result_of_request request)) s = (x, u)"
      using h by (auto simp: handle_request_def answered_def split: prod.splits)
    show ?thesis using r(1) keepsD[OF keeps_scan_ops(3) r(2)] keepsD[OF keeps_pending_ops(3) r(2)] assms(2)
      by (simp add: running_ids_def one_if_def)
  qed
  then show ?thesis using b net by (simp add: running_ids_def)
qed

lemma enqueue_cases:
  obtains (refused) t where "run_state (enqueue_request r) s = (False, t)" "nt_network t = nt_network s"
      "nt_scan t = nt_scan s" "nt_policy t = nt_policy s"
    | (queued) q where "ring_push kRequestQueueCapacity r (nm_requests (nt_network s)) = Some q"
      "run_state (enqueue_request r) s = (True, s\<lparr>nt_network := (nt_network s)\<lparr>nm_requests := q\<rparr>\<rparr>)"
proof (cases "nq_request_id r = 0 \<or> nq_operation r = kOpUnknown")
  case True
  then show thesis using refused[of s] by (simp add: enqueue_request_def)
next
  case False
  then show thesis using refused[of "s\<lparr>nt_runtime := drop_ingress (nt_runtime s)\<rparr>"] queued
    by (cases "ring_push kRequestQueueCapacity r (nm_requests (nt_network s))") (simp_all add: enqueue_request_def)
qed

lemma complete_effect:
  assumes "run_state (process_pending_sta_connect H connected now_ms) s = (n, t)"
  shows "nt_network t = nt_network s \<and> nt_scan t = nt_scan s \<and>
    (if 0 < n then ps_in_use (pending_of s) \<and> pending_of t = pending_sta_default else pending_of t = pending_of s)"
proof (cases "ps_in_use (pending_of s) \<and> (connected \<or> is_deadline_reached now_ms (ps_deadline_ms (pending_of s)))")
  case False
  then show ?thesis using assms by (auto simp: process_pending_sta_connect_def split: if_splits)
next
  case True
  let ?s = "s\<lparr>nt_policy := (nt_policy s)\<lparr>np_pending_sta_connect := pending_sta_default\<rparr>\<rparr>"
  let ?r = "\<lambda>u. u\<lparr>nt_results := snd (publish_network_result (pending_result connected (pending_of s)) (nt_results u))\<rparr>"
  show ?thesis
  proof (cases connected)
    case False
    then have "n = 1 \<and> t = ?r ?s" using True assms by (auto simp: process_pending_sta_connect_def split: if_splits)
    then show ?thesis using True by simp
  next
    case conn: True
    obtain z u where z: "run_state (ensure_zigbee_started H) (?s\<lparr>nt_connectivity := (nt_connectivity s)
        \<lparr>cn_zigbee_start_allowed := True\<rparr>\<rparr>) = (z, u)" by fastforce
    have "n = 1 \<and> t = ?r u"
      using True conn assms z by (auto simp: process_pending_sta_connect_def mark_wifi_credentials_available_def split: if_splits)
    then show ?thesis
      using keepsD[OF keeps_network_ops(1) z] keepsD[OF keeps_scan_ops(1) z] keepsD[OF keeps_pending_ops(1) z] True
      by simp
  qed
qed


lemma worker_effect:
  assumes "run_state (run_worker_step H w) s = (w', t)" "ring_inv kScanQueueCapacity (sm_queue (nt_scan s))"
  shows "nt_network t = nt_network s \<and> ring_inv kScanQueueCapacity (sm_queue (nt_scan t)) \<and>
    pending_of t = pending_of s \<and>
    mset (ring_list kScanQueueCapacity (sm_queue (nt_scan t))) + worker_ids w' +
      (case w of WorkerReleased i r \<Rightarrow> {#i#} | _ \<Rightarrow> {#}) =
    mset (ring_list kScanQueueCapacity (sm_queue (nt_scan s))) + worker_ids w"
proof (cases w)
  case WorkerIdle
  show ?thesis
  proof (cases "ring_pop kScanQueueCapacity (sm_queue (nt_scan s))")
    case None
    then show ?thesis using WorkerIdle assms by (auto simp: scan_pop_request_def)
  next
    case (Some p)
    obtain i q where p: "p = (i, q)" by fastforce
    show ?thesis using WorkerIdle assms ring_pop_refines[OF assms(2) Some[unfolded p]]
      by (auto simp: scan_pop_request_def Some p)
  qed
next
  case (WorkerScanning i)
  obtain r u where r: "run_state (scan_into H scan_result_ok) s = (r, u)" by fastforce
  show ?thesis
    using WorkerScanning assms r keepsD[OF keeps_network_ops(2) r] keepsD[OF keeps_scan_ops(2) r] keepsD[OF keeps_pending_ops(2) r]
    by auto
qed (use assms in \<open>auto simp: note_poll_def\<close>)

lemma net_op_balance:
  assumes "net_ok y"
  shows "net_ok (net_op esp H a y)"
    and "open_ids (net_op esp H a y) + step_answers esp H a y = open_ids y + step_accepts a y"
proof -
  obtain s w where y: "y = (s, w)" by fastforce
  have ok: "ring_inv kRequestQueueCapacity (nm_requests (nt_network s))" "ring_inv kScanQueueCapacity (sm_queue (nt_scan s))"
    using assms by (simp_all add: y net_ok_def)
  have "net_ok (net_op esp H a y) \<and>
      open_ids (net_op esp H a y) + step_answers esp H a y = open_ids y + step_accepts a y"
  proof (cases a)
    case (Post r)
    show ?thesis
    proof (cases r s rule: enqueue_cases)
      case (refused t)
      then show ?thesis using ok by (simp add: y Post net_ok_def open_ids_def queued_ids_def running_ids_def one_if_def)
    next
      case (queued q)
      then show ?thesis using ok ring_push_refines[OF ok(1) queued(1)]
        by (simp add: y Post net_ok_def open_ids_def queued_ids_def running_ids_def one_if_def)
    qed
  next
    case Serve
    show ?thesis
    proof (cases "ring_pop kRequestQueueCapacity (nm_requests (nt_network s))")
      case None
      then show ?thesis using assms by (simp add: y Serve serve_next_def pop_request_def)
    next
      case (Some p)
      obtain r q where p: "p = (r, q)" by fastforce
      let ?s = "s\<lparr>nt_network := (nt_network s)\<lparr>nm_requests := q\<rparr>\<rparr>"
      obtain b t where run: "run_state (serve_request esp H r) ?s = (b, t)" by fastforce
      have "ring_inv kScanQueueCapacity (sm_queue (nt_scan ?s))" using ok(2) by simp
      note e = serve_effect[OF run this]
      have "running_ids ?s = running_ids s" by (simp add: running_ids_def)
      then show ?thesis using e ring_pop_refines[OF ok(1) Some[unfolded p]]
        by (simp add: y Serve serve_next_def pop_request_def Some p run net_ok_def open_ids_def queued_ids_def ac_simps)
    qed
  next
    case (Complete connected now_ms)
    obtain n t where run: "run_state (process_pending_sta_connect H connected now_ms) s = (n, t)" by fastforce
    show ?thesis using complete_effect[OF run] ok
      by (auto simp: y Complete run net_ok_def open_ids_def queued_ids_def running_ids_def one_if_def pending_sta_default_def
          split: if_splits)
  next
    case WorkerStep
    obtain w' t where run: "run_state (run_worker_step H w) s = (w', t)" by fastforce
    show ?thesis using worker_effect[OF run ok(2)] ok
      by (simp add: y WorkerStep run net_ok_def open_ids_def queued_ids_def running_ids_def ac_simps)
  qed
  then show "net_ok (net_op esp H a y)"
    and "open_ids (net_op esp H a y) + step_answers esp H a y = open_ids y + step_accepts a y" by simp_all
qed

interpretation network_ledger: ledger "net_op esp H" open_ids step_accepts "step_answers esp H" net_ok for esp H
  by unfold_locales (simp_all add: net_op_balance)

definition net_session :: "bool \<Rightarrow> 'h Hal \<Rightarrow> NetOp list \<Rightarrow> ('h, 'o, 'r) scan_system \<Rightarrow> ('h, 'o, 'r) scan_system" where
  "net_session esp H ops y = ledger.run (net_op esp H) ops y"

definition accepted_requests :: "bool \<Rightarrow> 'h Hal \<Rightarrow> NetOp list \<Rightarrow> ('h, 'o, 'r) scan_system \<Rightarrow> u32 multiset" where
  "accepted_requests esp H ops y = ledger.total (net_op esp H) step_accepts ops y"

definition answered_requests :: "bool \<Rightarrow> 'h Hal \<Rightarrow> NetOp list \<Rightarrow> ('h, 'o, 'r) scan_system \<Rightarrow> u32 multiset" where
  "answered_requests esp H ops y = ledger.total (net_op esp H) (step_answers esp H) ops y"


section \<open>When a scan is seen\<close>

fun worker_busy :: "ScanWorker \<Rightarrow> bool" where
  "worker_busy (WorkerBusy i) = True"
| "worker_busy (WorkerScanning i) = True"
| "worker_busy (WorkerScanned i r) = True"
| "worker_busy _ = False"

fun worker_active :: "ScanWorker \<Rightarrow> u32" where
  "worker_active (WorkerScanning i) = i"
| "worker_active (WorkerScanned i r) = i"
| "worker_active _ = 0"

definition scan_inv :: "('h, 'o, 'r) scan_system \<Rightarrow> bool" where
  "scan_inv y \<longleftrightarrow> net_ok y \<and> (let m = nt_scan (fst y) in
     sm_pending_count m = of_nat (rg_count (sm_queue m)) \<and> sm_busy m = worker_busy (snd y) \<and>
     sm_active_request_id m = worker_active (snd y))"

lemma serve_scan:
  assumes "run_state (serve_request esp H request) s = (b, t)"
  shows "nt_scan t = nt_scan s \<or> nt_scan t = snd (scan_enqueue_request (nq_request_id request) (nt_scan s))"
proof -
  obtain x b' u where h: "run_state (handle_request esp H request) s = ((x, b'), u)" by (metis prod.collapse)
  have t: "nt_scan t = nt_scan u" using assms by (auto simp: run_serve_request h)
  show ?thesis
  proof (cases "nq_operation request")
    case kScan
    then show ?thesis using h t keepsD[OF keeps_scan_ops(2), of H "result_of_request request" s]
      by (auto simp: handle_request_def handle_scan_def note_poll_def split: if_splits prod.splits)
  next
    case kConnect
    then show ?thesis using h t handle_connect_effect[of H request "result_of_request request" s x b' u]
      by (simp add: handle_request_def)
  next
    case kOpUnknown
    then show ?thesis using h t by (auto simp: handle_request_def)
  qed (use h t in \<open>auto simp: handle_request_def answered_def split: prod.splits
      dest: keepsD[OF keeps_scan_ops(3)] keepsD[OF keeps_scan_ops(4)] keepsD[OF keeps_scan_ops(5)]\<close>)
qed

lemma scan_inv_step: "scan_inv y \<Longrightarrow> scan_inv (net_op esp H a y)"
proof -
  assume inv: "scan_inv y"
  obtain s w where y: "y = (s, w)" by fastforce
  have ok: "net_ok (net_op esp H a y)" using inv by (intro net_op_balance(1)) (simp add: scan_inv_def)
  show ?thesis
  proof (cases a)
    case (Post r)
    show ?thesis using inv ok by (cases r s rule: enqueue_cases) (auto simp: y Post scan_inv_def)
  next
    case Serve
    show ?thesis
    proof (cases "pop_request s")
      case None
      then show ?thesis using inv by (simp add: y Serve serve_next_def)
    next
      case (Some p)
      obtain r s1 where p: "p = (r, s1)" by fastforce
      have s1: "nt_scan s1 = nt_scan s" using Some p by (auto simp: pop_request_def)
      obtain b t where run: "run_state (serve_request esp H r) s1 = (b, t)" by fastforce
      show ?thesis using inv ok serve_scan[OF run] s1
        by (auto simp: y Serve serve_next_def Some p run scan_inv_def scan_enqueue_request_def Let_def
            split: option.splits if_splits)
    qed
  next
    case (Complete connected now_ms)
    obtain n t where run: "run_state (process_pending_sta_connect H connected now_ms) s = (n, t)" by fastforce
    show ?thesis using complete_effect[OF run] inv ok by (simp add: y Complete run scan_inv_def)
  next
    case WorkerStep
    show ?thesis using inv ok
      by (cases w) (auto simp: y WorkerStep scan_inv_def scan_pop_request_def note_poll_def Let_def
          split: option.splits prod.splits dest: keepsD[OF keeps_scan_ops(2)])
  qed
qed

lemma scan_inv_session: "scan_inv y \<Longrightarrow> scan_inv (net_session esp H ops y)"
  unfolding net_session_def
  by (induction ops arbitrary: y) (simp_all add: network_ledger.run.simps scan_inv_step)

lemma scan_inv_init: "scan_inv (net_init h ob r, WorkerIdle)"
  using net_init_ok(1)[of h ob r]
  by (simp add: scan_inv_def net_init_def scan_manager_init_def ring_empty_def)

text \<open>
  In every interleaving the scan manager reports pending or busy exactly while a request is queued or the
  worker is between marking itself busy and releasing it. The one gap is the worker that has taken the last
  request off the queue and not marked itself busy yet: a connection is let through there.
\<close>

theorem scan_visibility:
  "case net_session esp H ops (net_init h ob r, WorkerIdle) of (s, w) \<Rightarrow>
     scan_has_pending_or_busy (nt_scan s) = (0 < rg_count (sm_queue (nt_scan s)) \<or> worker_busy w) \<and>
     (\<forall>i. scan_is_request_in_progress i (nt_scan s) = (i \<noteq> 0 \<and> worker_active w = i))"
proof -
  obtain s w where y: "net_session esp H ops (net_init h ob r, WorkerIdle) = (s, w)" by fastforce
  have inv: "scan_inv (s, w)" using scan_inv_session[OF scan_inv_init, of esp H ops h ob r] by (simp add: y)
  then have le: "rg_count (sm_queue (nt_scan s)) \<le> 8"
    by (auto simp: scan_inv_def net_ok_def ring_inv_def kScanQueueCapacity_def)
  then have "unat (of_nat (rg_count (sm_queue (nt_scan s))) :: u32) = rg_count (sm_queue (nt_scan s))"
    by (intro unat_of_nat_u32) simp
  then have "(of_nat (rg_count (sm_queue (nt_scan s))) :: u32) \<noteq> 0 \<longleftrightarrow> rg_count (sm_queue (nt_scan s)) \<noteq> 0"
    by (metis (no_types) unat_eq_zero)
  then show ?thesis using inv
    by (simp add: y scan_inv_def scan_has_pending_or_busy_def scan_is_request_in_progress_def Let_def disj_commute)
qed

section \<open>Credentials\<close>

context credential_drivers begin

definition same_strs :: "'h \<Rightarrow> 'h \<Rightarrow> bool" where
  "same_strs h h' \<longleftrightarrow> (fine h \<longrightarrow> fine h' \<and> strs_of h' = strs_of h)"

lemma same_strs_refl: "same_strs h h"
  by (simp add: same_strs_def)

lemma same_strs_trans: "same_strs h h' \<Longrightarrow> same_strs h' h'' \<Longrightarrow> same_strs h h''"
  by (auto simp: same_strs_def)

lemma same_strs_calls:
  "same_strs h (snd (hal_nvs_get_str H k n h))" "same_strs h (snd (hal_wifi_get_mode H h))"
  "same_strs h (snd (hal_wifi_set_mode H m h))" "same_strs h (snd (hal_wifi_connect_sta_async H a b h))"
  "same_strs h (snd (hal_clock_ms H h))"
  by (simp_all add: same_strs_def get_str_keeps wifi_keeps)

lemma now_strs:
  assumes "run_state (now H) s = (t, u)"
  shows "same_strs (nt_hal s) (nt_hal u)"
  using assms same_strs_calls(5)[of "nt_hal s"] same_strs_refl
  by (auto simp: now_def split: if_splits prod.splits)

lemma ensure_sta_strs:
  assumes "run_state (ensure_wifi_mode_for_sta_connect H) s = (b, u)"
  shows "same_strs (nt_hal s) (nt_hal u)"
proof -
  obtain m h where m: "hal_wifi_get_mode H (nt_hal s) = (m, h)" by fastforce
  have h: "same_strs (nt_hal s) h" using same_strs_calls(2)[of "nt_hal s"] m by simp
  have set: "same_strs (nt_hal s) (snd (hal_wifi_set_mode H x h))" for x
    by (rule same_strs_trans[OF h same_strs_calls(3)])
  show ?thesis
    using assms h set[of HAL_WIFI_MODE_STA] set[of HAL_WIFI_MODE_APSTA]
    by (auto simp: ensure_wifi_mode_for_sta_connect_def m split: option.splits hal_wifi_mode.splits prod.splits)
qed

lemma start_connect_strs:
  assumes "run_state (start_connect H request result) s = ((x, b), t)"
  shows "same_strs (nt_hal s) (nt_hal t) \<and> ne_saved x = ne_saved result"
proof -
  obtain m u where 1: "run_state (ensure_wifi_mode_for_sta_connect H) s = (m, u)" by fastforce
  note a = ensure_sta_strs[OF 1]
  let ?h = "snd (hal_wifi_connect_sta_async H (nq_ssid request) (nq_password request) (nt_hal u))"
  have b: "same_strs (nt_hal s) ?h" by (rule same_strs_trans[OF a same_strs_calls(4)])
  have n: "nt_hal w = ?h \<Longrightarrow> same_strs (nt_hal s) (nt_hal (snd (run_state (now H) w)))" for w
    using same_strs_trans[OF b] now_strs[of w, OF prod.collapse[symmetric]] by simp
  show ?thesis using assms a b
    by (auto simp: start_connect_def 1 clear_autoconnect_backoff_def case_prod_unfold n split: if_splits)
qed

lemma saved_strs:
  assumes "fine (nt_hal s)" "nq_operation request = kConnect"
    and "run_state (handle_request esp H request) s = ((x, b), t)" "ne_saved x"
  shows "fine (nt_hal t) \<and> strs_of (nt_hal t) =
    (strs_of (nt_hal s))(''wifi_ssid'' \<mapsto> nq_ssid request, ''wifi_password'' \<mapsto> nq_password request)"
proof -
  have run: "run_state (handle_connect H request (result_of_request request)) s = ((x, b), t)"
    using assms(2,3) by (simp add: handle_request_def)
  have unsaved: "\<not> ne_saved (result_of_request request)"
    by (simp add: result_of_request_def network_result_default_def)
  obtain ok1 h1 where 1: "hal_nvs_set_str H ''wifi_ssid'' (nq_ssid request) (nt_hal s) = (ok1, h1)" by fastforce
  obtain ok2 h2 where 2: "hal_nvs_set_str H ''wifi_password'' (nq_password request) h1 = (ok2, h2)" by fastforce
  have not_plain: "run_state (start_connect H request (result_of_request request)) s \<noteq> ((x, b), t)"
    using start_connect_strs[of request "result_of_request request" s x b t] unsaved assms(4) by auto
  have go: "ok1" "ok2"
      "run_state (start_connect H request ((result_of_request request)\<lparr>ne_saved := True\<rparr>)) (s\<lparr>nt_hal := h2\<rparr>) = ((x, b), t)"
    using run unsaved assms(4) not_plain
    by (auto simp: handle_connect_def save_credentials_def 1 2 split: if_splits)
  have keys: "key_ok ''wifi_ssid''" "key_ok ''wifi_password''" by (simp_all add: key_ok_def)
  have "fine h2" "strs_of h2 = (strs_of (nt_hal s))(''wifi_ssid'' \<mapsto> nq_ssid request, ''wifi_password'' \<mapsto> nq_password request)"
    using set_str[OF assms(1) keys(1), of "nq_ssid request"] set_str_fine[OF assms(1) keys(1), of "nq_ssid request"]
      set_str[of h1, OF _ keys(2), of "nq_password request"] set_str_fine[of h1, OF _ keys(2), of "nq_password request"] 1 2 go(1,2)
    by simp_all
  then show ?thesis using start_connect_strs[OF go(3)] by (simp add: same_strs_def)
qed

end


lemma saved_credentials_used:
  assumes "credential_drivers H strs_of fine" "fine (nt_hal s)"
    and "strs_of (nt_hal s) ''wifi_ssid'' = Some ssid" "strs_of (nt_hal s) ''wifi_password'' = Some password"
    and "ssid \<noteq> []" "length ssid \<le> 32" "length password \<le> 64"
  shows "fst (run_state (handle_credentials_status H result) s) =
      result\<lparr>ne_saved := True, ne_has_password := password \<noteq> [], ne_ssid := ssid\<rparr>"
    and "\<lbrakk>rt_last_tick_ms (nt_runtime s) \<noteq> 0; cn_next_autoconnect_attempt_ms (nt_connectivity s) = 0;
        cn_autoconnect_retry_count (nt_connectivity s) = 0\<rbrakk> \<Longrightarrow>
      \<exists>h d. run_state (autoconnect_from_saved_credentials H) s =
        (if d then (kConnectFailed, s\<lparr>nt_hal := h\<rparr>)
         else run_state (connect_saved H (rt_last_tick_ms (nt_runtime s)) ssid password) (s\<lparr>nt_hal := h\<rparr>))"
proof -
  have keys: "key_ok ''wifi_ssid''" "key_ok ''wifi_password''" by (simp_all add: key_ok_def)
  note get = credential_drivers.get_str[OF assms(1)] and keep = credential_drivers.get_str_keeps[OF assms(1)]
  obtain v1 h1 where r1: "hal_nvs_get_str H ''wifi_ssid'' 33 (nt_hal s) = (v1, h1)" by fastforce
  have l1: "length ssid < 33" and l2: "length password < 65" using assms(6,7) by simp_all
  have v1: "v1 = Some ssid" and h1: "fine h1" "strs_of h1 = strs_of (nt_hal s)"
    using get[of "nt_hal s" "''wifi_ssid''" ssid 33] keep[of "nt_hal s" "''wifi_ssid''" 33] r1 l1 assms(2,3) keys(1)
    by simp_all
  obtain v2 h2 where r2: "hal_nvs_get_str H ''wifi_password'' 65 h1 = (v2, h2)" by fastforce
  have v2: "v2 = Some password"
    using get[of h1 "''wifi_password''" password 65] h1 r2 l2 assms(4) keys(2) by simp
  note 1 = r1[unfolded v1] and 2 = r2[unfolded v2]
  show "fst (run_state (handle_credentials_status H result) s) =
      result\<lparr>ne_saved := True, ne_has_password := password \<noteq> [], ne_ssid := ssid\<rparr>"
    using assms(5,6) by (simp add: handle_credentials_status_def 1 2 Let_def text_of_def)
  assume c: "rt_last_tick_ms (nt_runtime s) \<noteq> 0" "cn_next_autoconnect_attempt_ms (nt_connectivity s) = 0"
    "cn_autoconnect_retry_count (nt_connectivity s) = 0"
  obtain sta h3 where 3: "hal_wifi_set_mode H HAL_WIFI_MODE_STA h2 = (sta, h3)" by fastforce
  obtain d h4 where 4: "run_state (must_defer H) (s\<lparr>nt_hal := h3\<rparr>) = (d, s\<lparr>nt_hal := h4\<rparr>)"
    by (rule only_halE[OF only_hal_connectivity(4), of H "s\<lparr>nt_hal := h3\<rparr>"]) simp
  have "run_state (autoconnect_from_saved_credentials H) s =
      (if \<not> sta \<or> d then (kConnectFailed, s\<lparr>nt_hal := if sta then h4 else h3\<rparr>)
       else run_state (connect_saved H (rt_last_tick_ms (nt_runtime s)) ssid password)
         (s\<lparr>nt_hal := if sta then h4 else h3\<rparr>))"
    using c assms(5) by (simp add: autoconnect_from_saved_credentials_def now_def 1 2 3 4 kAutoconnectRetryLimit_def)
  then show "\<exists>h d. run_state (autoconnect_from_saved_credentials H) s =
        (if d then (kConnectFailed, s\<lparr>nt_hal := h\<rparr>)
         else run_state (connect_saved H (rt_last_tick_ms (nt_runtime s)) ssid password) (s\<lparr>nt_hal := h\<rparr>))"
    by blast
qed



definition home_request :: NetworkRequest where
  "home_request = network_request_default\<lparr>nq_request_id := 5, nq_operation := kConnect, nq_save_credentials := True,
     nq_ssid := ''home'', nq_password := ''secret''\<rparr>"

definition fresh_net :: "(HostState, unit, unit) Net" where
  "fresh_net = net_init host_drivers_init () ()"


end
