(* ===== verification/NetworkPosts.thy ===== *)
theory NetworkPosts
  imports NetworkManager
begin

text \<open>
  The posts of \<^verbatim>\<open>components/service/service_runtime.cpp\<close> by which the web interface and the bridges
  ask for network operations, and what the network manager may rely on of a request it finds in its
  queue. A C string is a list of characters without the terminator, a null pointer is \<open>None\<close>.
\<close>

section \<open>The posts\<close>

definition kForceRemoveDefaultTimeoutMs :: u32 where "kForceRemoveDefaultTimeoutMs = 5000"
definition kForceRemoveMinTimeoutMs :: u32 where "kForceRemoveMinTimeoutMs = 500"
definition kForceRemoveMaxTimeoutMs :: u32 where "kForceRemoveMaxTimeoutMs = 30000"

definition clamp_force_remove_timeout :: "u32 \<Rightarrow> u32" where
  "clamp_force_remove_timeout timeout_ms =
     (if timeout_ms < kForceRemoveMinTimeoutMs then kForceRemoveDefaultTimeoutMs
      else if timeout_ms > kForceRemoveMaxTimeoutMs then kForceRemoveMaxTimeoutMs
      else timeout_ms)"

definition post_network_scan :: "u32 \<Rightarrow> ('h, 'o, 'r, bool) net" where
  "post_network_scan request_id =
     (if request_id = 0 then State_Monad.return False
      else do {
        ok \<leftarrow> enqueue_request (network_request_default\<lparr>nq_request_id := request_id, nq_operation := kScan\<rparr>);
        (if ok then note_poll request_id kScanQueued else State_Monad.return ());
        State_Monad.return ok
      })"

definition connect_request :: "u32 \<Rightarrow> string \<Rightarrow> string option \<Rightarrow> bool \<Rightarrow> NetworkRequest" where
  "connect_request request_id ssid password keep =
     network_request_default
       \<lparr>nq_request_id := request_id, nq_operation := kConnect, nq_save_credentials := keep,
        nq_ssid := text_of 33 ssid,
        nq_password := (case password of None \<Rightarrow> [] | Some p \<Rightarrow> text_of 65 p)\<rparr>"

definition post_network_connect :: "u32 \<Rightarrow> string option \<Rightarrow> string option \<Rightarrow> bool \<Rightarrow> ('h, 'o, 'r, bool) net" where
  "post_network_connect request_id ssid password keep =
     (case ssid of
        None \<Rightarrow> State_Monad.return False
      | Some ssid \<Rightarrow>
          if request_id = 0 \<or> ssid = [] then State_Monad.return False
          else enqueue_request (connect_request request_id ssid password keep))"

definition post_network_credentials_status :: "u32 \<Rightarrow> ('h, 'o, 'r, bool) net" where
  "post_network_credentials_status request_id =
     (if request_id = 0 then State_Monad.return False
      else enqueue_request
             (network_request_default\<lparr>nq_request_id := request_id, nq_operation := kCredentialsStatus\<rparr>))"

definition post_open_join_window :: "u32 \<Rightarrow> u16 \<Rightarrow> ('h, 'o, 'r, bool) net" where
  "post_open_join_window request_id duration_seconds =
     (if request_id = 0 \<or> duration_seconds = 0 then State_Monad.return False
      else enqueue_request
             (network_request_default\<lparr>nq_request_id := request_id, nq_operation := kOpenJoinWindow,
                nq_join_window_seconds := duration_seconds\<rparr>))"

definition post_remove_device :: "u32 \<Rightarrow> u16 \<Rightarrow> bool \<Rightarrow> u32 \<Rightarrow> ('h, 'o, 'r, bool) net" where
  "post_remove_device request_id short_addr force timeout_ms =
     (if request_id = 0 \<or> short_addr = kUnknownDeviceShortAddr \<or> short_addr = 0 then State_Monad.return False
      else enqueue_request
             (network_request_default\<lparr>nq_request_id := request_id, nq_operation := kRemoveDevice,
                nq_device_short_addr := short_addr, nq_force_remove := force,
                nq_force_remove_timeout_ms := clamp_force_remove_timeout timeout_ms\<rparr>))"

definition post_zigbee_join_candidate :: "'h Hal \<Rightarrow> u16 \<Rightarrow> ('h, 'o, 'r, bool) net" where
  "post_zigbee_join_candidate H short_addr = do {
     t \<leftarrow> now H;
     handle_join_candidate H short_addr t
   }"

section \<open>What the queue holds\<close>

text \<open>
  A request as the posts build it: the network name fits its buffer and is not empty, a window has a
  duration, a removal names a device and waits between half a second and half a minute.
\<close>

definition request_ok :: "NetworkRequest \<Rightarrow> bool" where
  "request_ok r \<longleftrightarrow> nq_request_id r \<noteq> 0 \<and>
     (case nq_operation r of
        kOpUnknown \<Rightarrow> False
      | kScan \<Rightarrow> True
      | kConnect \<Rightarrow> nq_ssid r \<noteq> [] \<and> length (nq_ssid r) \<le> 32 \<and> length (nq_password r) \<le> 64
      | kCredentialsStatus \<Rightarrow> True
      | kOpenJoinWindow \<Rightarrow> nq_join_window_seconds r \<noteq> 0
      | kRemoveDevice \<Rightarrow> nq_device_short_addr r \<noteq> kUnknownDeviceShortAddr \<and> nq_device_short_addr r \<noteq> 0 \<and>
          500 \<le> nq_force_remove_timeout_ms r \<and> nq_force_remove_timeout_ms r \<le> 30000)"

definition waiting :: "('h, 'o, 'r) Net \<Rightarrow> NetworkRequest list" where
  "waiting s = ring_list kRequestQueueCapacity (nm_requests (nt_network s))"

definition requests_ok :: "('h, 'o, 'r) Net \<Rightarrow> bool" where
  "requests_ok s \<longleftrightarrow>
     ring_inv kRequestQueueCapacity (nm_requests (nt_network s)) \<and> list_all request_ok (waiting s)"

lemma clamp_bounds: "500 \<le> clamp_force_remove_timeout t" "clamp_force_remove_timeout t \<le> 30000"
  by (auto simp: clamp_force_remove_timeout_def kForceRemoveMinTimeoutMs_def kForceRemoveDefaultTimeoutMs_def
      kForceRemoveMaxTimeoutMs_def not_less)

lemma enqueue_ok:
  assumes "requests_ok s" "request_ok r" "run_state (enqueue_request r) s = (b, t)"
  shows "requests_ok t"
proof (cases rule: enqueue_cases[of r s])
  case (refused t') then show ?thesis using assms by (auto simp: requests_ok_def waiting_def)
next
  case (queued q)
  note push = ring_push_refines[OF _ queued(1)]
  show ?thesis using assms queued(2) push by (auto simp: requests_ok_def waiting_def)
qed

lemma keeps_requests: "keeps nt_network m \<Longrightarrow> requests_ok s \<Longrightarrow> run_state m s = (b, t) \<Longrightarrow> requests_ok t"
  using keepsD by (fastforce simp: requests_ok_def waiting_def)


section \<open>What a program answers\<close>

definition gives :: "('a \<Rightarrow> bool) \<Rightarrow> ('s, 'a) state \<Rightarrow> bool" where
  "gives P m \<longleftrightarrow> (\<forall>s. P (fst (run_state m s)))"

named_theorems gives_intros

lemma gives_return [gives_intros]: "P a \<Longrightarrow> gives P (State_Monad.return a)"
  by (simp add: gives_def)

lemma gives_bind:
  assumes "gives Q m" "\<And>x. Q x \<Longrightarrow> gives P (f x)"
  shows "gives P (State_Monad.bind m f)"
  unfolding gives_def
proof
  fix s
  obtain a t where a: "run_state m s = (a, t)" by fastforce
  then have "Q a" using assms(1) by (metis gives_def fst_conv)
  then show "P (fst (run_state (State_Monad.bind m f) s))" using assms(2) a by (simp add: gives_def)
qed

lemma gives_after [gives_intros]: "(\<And>x. gives P (f x)) \<Longrightarrow> gives P (State_Monad.bind m f)"
  by (rule gives_bind[of "\<lambda>_. True"]) (simp_all add: gives_def)

lemma gives_if [gives_intros]: "(b \<Longrightarrow> gives P m) \<Longrightarrow> (\<not> b \<Longrightarrow> gives P n) \<Longrightarrow> gives P (if b then m else n)"
  by simp

lemma gives_let [gives_intros]: "(\<And>x. x = t \<Longrightarrow> gives P (f x)) \<Longrightarrow> gives P (let x = t in f x)"
  by (simp add: Let_def)

section \<open>No posted request is answered as invalid\<close>

abbreviation heard :: "NetworkResult \<Rightarrow> bool" where
  "heard r \<equiv> ne_status r \<noteq> kNetInvalidArgument"

lemma heard_scan_into: "heard r \<Longrightarrow> gives heard (scan_into H r)"
  unfolding scan_into_def by (intro gives_intros) (simp_all split: option.split)

lemma heard_start_connect: "heard r \<Longrightarrow> gives (\<lambda>x. heard (fst x)) (start_connect H q r)"
  unfolding start_connect_def by (intro gives_intros) simp_all

lemma heard_answered: "gives heard m \<Longrightarrow> gives (\<lambda>x. heard (fst x)) (answered m)"
  unfolding answered_def by (erule gives_bind) (simp add: gives_return)

lemma heard_scan: "heard r \<Longrightarrow> gives (\<lambda>x. heard (fst x)) (handle_scan esp H q r)"
  unfolding handle_scan_def
  by (intro heard_answered[OF heard_scan_into, unfolded answered_def] gives_intros) simp_all

lemma heard_connect:
  assumes "heard r" "nq_ssid q \<noteq> []"
  shows "gives (\<lambda>x. heard (fst x)) (handle_connect H q r)"
  unfolding handle_connect_def by (intro gives_intros heard_start_connect) (use assms in simp_all)

lemma heard_credentials: "heard r \<Longrightarrow> gives heard (handle_credentials_status H r)"
  unfolding handle_credentials_status_def by (intro gives_intros) (simp add: Let_def)

lemma heard_window: "heard r \<Longrightarrow> nq_join_window_seconds q \<noteq> 0 \<Longrightarrow> gives heard (handle_open_join_window H q r)"
  unfolding handle_open_join_window_def by (intro gives_intros) simp_all

lemma heard_remove:
  assumes "nq_device_short_addr q \<noteq> kUnknownDeviceShortAddr" "nq_device_short_addr q \<noteq> 0"
  shows "gives heard (handle_remove_device H q r)"
  unfolding handle_remove_device_def by (intro gives_intros) (use assms in simp_all)

lemma heard_request: "request_ok q \<Longrightarrow> gives (\<lambda>x. heard (fst x)) (handle_request esp H q)"
  by (cases "nq_operation q")
    (simp_all add: handle_request_def request_ok_def heard_scan heard_connect heard_answered heard_credentials
      heard_window heard_remove result_of_request_def)

section \<open>Sessions of posts\<close>

datatype NetworkPost =
  PostScan u32 | PostConnect u32 "string option" "string option" bool | PostCredentialsStatus u32 |
  PostOpenJoinWindow u32 u16 | PostRemove u32 u16 bool u32 | PostJoinCandidate u16 | ServeNext

fun post_step :: "bool \<Rightarrow> 'h Hal \<Rightarrow> NetworkPost \<Rightarrow> ('h, 'o, 'r) Net \<Rightarrow> ('h, 'o, 'r) Net" where
  "post_step esp H (PostScan i) s = snd (run_state (post_network_scan i) s)"
| "post_step esp H (PostConnect i ssid password keep) s = snd (run_state (post_network_connect i ssid password keep) s)"
| "post_step esp H (PostCredentialsStatus i) s = snd (run_state (post_network_credentials_status i) s)"
| "post_step esp H (PostOpenJoinWindow i d) s = snd (run_state (post_open_join_window i d) s)"
| "post_step esp H (PostRemove i a f t) s = snd (run_state (post_remove_device i a f t) s)"
| "post_step esp H (PostJoinCandidate a) s = snd (run_state (post_zigbee_join_candidate H a) s)"
| "post_step esp H ServeNext s = serve_next esp H s"

definition post_session :: "bool \<Rightarrow> 'h Hal \<Rightarrow> NetworkPost list \<Rightarrow> ('h, 'o, 'r) Net \<Rightarrow> ('h, 'o, 'r) Net" where
  "post_session esp H ops s = fold (post_step esp H) ops s"

definition keeps_ok :: "('h, 'o, 'r, 'a) net \<Rightarrow> bool" where
  "keeps_ok m \<longleftrightarrow> (\<forall>s. requests_ok s \<longrightarrow> requests_ok (snd (run_state m s)))"

named_theorems keeps_ok_intros

lemma keeps_ok_enqueue [keeps_ok_intros]: "request_ok r \<Longrightarrow> keeps_ok (enqueue_request r)"
  unfolding keeps_ok_def using enqueue_ok by (metis prod.collapse)

lemma keeps_ok_keeps: "keeps nt_network m \<Longrightarrow> keeps_ok m"
  unfolding keeps_ok_def using keeps_requests by (metis prod.collapse)

lemma keeps_ok_return [keeps_ok_intros]: "keeps_ok (State_Monad.return a)"
  by (rule keeps_ok_keeps) (rule keeps_return)

lemma keeps_ok_bind [keeps_ok_intros]:
  assumes "keeps_ok m" "\<And>x. keeps_ok (f x)"
  shows "keeps_ok (State_Monad.bind m f)"
  unfolding keeps_ok_def
proof (intro allI impI)
  fix s :: "('a, 'b, 'c) Net" assume ok: "requests_ok s"
  obtain a t where a: "run_state m s = (a, t)" by fastforce
  then have "requests_ok t" using assms(1) ok by (metis keeps_ok_def snd_conv)
  then show "requests_ok (snd (run_state (State_Monad.bind m f) s))" using assms(2) a by (simp add: keeps_ok_def)
qed

lemma keeps_ok_if [keeps_ok_intros]: "(b \<Longrightarrow> keeps_ok m) \<Longrightarrow> (\<not> b \<Longrightarrow> keeps_ok n) \<Longrightarrow> keeps_ok (if b then m else n)"
  by simp

lemma keeps_ok_option [keeps_ok_intros]:
  "keeps_ok m \<Longrightarrow> (\<And>y. keeps_ok (f y)) \<Longrightarrow> keeps_ok (case x of None \<Rightarrow> m | Some y \<Rightarrow> f y)"
  by (simp split: option.split)

lemma keeps_network_join: "keeps nt_network (handle_join_candidate H a t)"
  unfolding handle_join_candidate_def maybe_auto_close_join_window_after_first_join_def net_defs
  by (intro keeps_intros)

lemma posts_keep_ok:
  "keeps_ok (post_network_scan i)"
  "keeps_ok (post_network_connect i ssid password keep)"
  "keeps_ok (post_network_credentials_status i)"
  "keeps_ok (post_open_join_window i d)"
  "keeps_ok (post_remove_device i a f timeout)"
  "keeps_ok (post_zigbee_join_candidate H a)"
proof -
  show "keeps_ok (post_network_scan i)"
    unfolding post_network_scan_def note_poll_def
    by (intro keeps_ok_intros keeps_ok_keeps[OF keeps_parts(6)]) (simp add: request_ok_def)
  show "keeps_ok (post_network_connect i ssid password keep)"
    unfolding post_network_connect_def
    by (intro keeps_ok_intros)
      (auto simp: request_ok_def connect_request_def text_of_def network_request_default_def split: option.split)
  show "keeps_ok (post_network_credentials_status i)"
    unfolding post_network_credentials_status_def by (intro keeps_ok_intros) (simp add: request_ok_def)
  show "keeps_ok (post_open_join_window i d)"
    unfolding post_open_join_window_def by (intro keeps_ok_intros) (simp add: request_ok_def)
  show "keeps_ok (post_remove_device i a f timeout)"
    unfolding post_remove_device_def by (intro keeps_ok_intros) (simp add: request_ok_def clamp_bounds)
  show "keeps_ok (post_zigbee_join_candidate H a)"
    unfolding post_zigbee_join_candidate_def by (intro keeps_ok_keeps keeps_intros keeps_network_join)
qed


lemma pop_ok:
  assumes "requests_ok s" "pop_request s = Some (r, t)"
  shows "requests_ok t" "request_ok r"
proof -
  obtain q where q: "ring_pop kRequestQueueCapacity (nm_requests (nt_network s)) = Some (r, q)"
    and t: "t = s\<lparr>nt_network := (nt_network s)\<lparr>nm_requests := q\<rparr>\<rparr>"
    using assms(2) by (auto simp: pop_request_def)
  note refines = ring_pop_refines[OF _ q]
  show "requests_ok t" "request_ok r" using assms(1) refines by (auto simp: requests_ok_def waiting_def t)
qed

lemma post_step_ok: "requests_ok s \<Longrightarrow> requests_ok (post_step esp H op s)"
proof (cases op)
  case ServeNext
  assume ok: "requests_ok s"
  show ?thesis
  proof (cases "pop_request s")
    case None then show ?thesis using ok ServeNext by (simp add: serve_next_def)
  next
    case (Some p)
    obtain q t where p: "p = (q, t)" by fastforce
    then show ?thesis using ServeNext Some pop_ok(1)[OF ok, of q t]
        keeps_ok_keeps[OF keeps_network_serve, of esp H q, unfolded keeps_ok_def, rule_format, of t]
      by (simp add: serve_next_def)
  qed
qed (simp_all add: posts_keep_ok[unfolded keeps_ok_def, rule_format])

lemma post_session_ok: "requests_ok s \<Longrightarrow> requests_ok (post_session esp H ops s)"
  by (induction ops arbitrary: s) (simp_all add: post_session_def post_step_ok)

lemma net_init_requests_ok: "requests_ok (net_init h ob r)"
  by (simp add: requests_ok_def waiting_def net_init_def network_manager_init_def kRequestQueueCapacity_def ring_inv_empty)

text \<open>
  C27: Whatever the tasks post, with any arguments, and however many requests are served in between, every request that
  waits in the queue is well formed: its id is not zero, the network name is not empty and fits its buffer, the
  window has a duration, the removal names a device and its timeout is between 500 ms and 30 s. The request that is
  taken next is one of them, and its handler never answers it as an invalid argument, in whatever state and with
  whatever the drivers say.
\<close>

theorem posted_requests_are_well_formed:
  "let s = post_session esp H ops (net_init h ob r)
   in list_all request_ok (waiting s) \<and> length (waiting s) \<le> kRequestQueueCapacity \<and>
      (case pop_request s of
         None \<Rightarrow> waiting s = []
       | Some (q, t) \<Rightarrow> request_ok q \<and> waiting s = q # waiting t \<and>
           ne_status (fst (fst (run_state (handle_request esp H q) u))) \<noteq> kNetInvalidArgument)"
proof -
  define s where "s = post_session esp H ops (net_init h ob r)"
  have ok: "requests_ok s" unfolding s_def by (rule post_session_ok[OF net_init_requests_ok])
  have len: "length (waiting s) \<le> kRequestQueueCapacity"
    using ok by (simp add: requests_ok_def waiting_def ring_inv_def)
  have next_ok: "case pop_request s of
         None \<Rightarrow> waiting s = []
       | Some (q, t) \<Rightarrow> request_ok q \<and> waiting s = q # waiting t \<and>
           ne_status (fst (fst (run_state (handle_request esp H q) u))) \<noteq> kNetInvalidArgument"
  proof (cases "pop_request s")
    case None
    then show ?thesis by (simp add: pop_request_def waiting_def ring_pop_def ring_list_def split: if_splits)
  next
    case (Some p)
    obtain q t where p: "p = (q, t)" by fastforce
    have head: "waiting s = q # waiting t"
      using ok Some ring_pop_refines(2) by (fastforce simp: pop_request_def waiting_def requests_ok_def p)
    have "request_ok q" using pop_ok(2)[OF ok Some[unfolded p]] .
    then show ?thesis using head Some p heard_request[of q esp H, unfolded gives_def, rule_format, of u] by simp
  qed
  show ?thesis using ok len next_ok by (simp add: Let_def requests_ok_def flip: s_def)
qed

end
