(* ===== verification/SnapshotStore.thy ===== *)
theory SnapshotStore
  imports Prelude
begin

text \<open>
  The snapshots of \<^verbatim>\<open>components/service/read_model_coordinator.cpp\<close> that readers on other tasks copy while the
  runtime task replaces them: a value of many words guarded by a sequence number, which is odd while the value
  is being written. \<open>store_snapshot\<close> and \<open>load_snapshot\<close> are the operations run alone; the step relation \<open>store_step\<close>
  cuts them at every access to the shared object, with one writer and any number of readers; there the value
  is a list of words, copied one after another. The relation is sequentially consistent: the acquire and release
  orderings of the code are taken as a total order of the accesses.
\<close>

record 'v SnapshotStorage =
  so_seq :: u32
  so_ready :: bool
  so_value :: 'v

text \<open>The two storages without a flag (network and configuration) are ready from the start.\<close>

definition storage_init :: "bool \<Rightarrow> 'v \<Rightarrow> 'v SnapshotStorage" where
  "storage_init ready v = \<lparr>so_seq = 0, so_ready = ready, so_value = v\<rparr>"

definition store_snapshot :: "'v \<Rightarrow> 'v SnapshotStorage \<Rightarrow> 'v SnapshotStorage" where
  "store_snapshot v p = \<lparr>so_seq = so_seq p + 2, so_ready = True, so_value = v\<rparr>"

text \<open>Run alone, the loop returns in its first pass, or never.\<close>

definition load_snapshot :: "'v SnapshotStorage \<Rightarrow> 'v option" where
  "load_snapshot p = (if so_ready p \<and> \<not> odd (unat (so_seq p)) then Some (so_value p) else None)"

section \<open>The accesses one by one\<close>

text \<open>
  A reader has passed the flag, has loaded an even number and copied some words, or has compared the numbers
  and returns. The counts are ghosts: how many changes of the number had been made when it was loaded first,
  and when it was loaded again.
\<close>

datatype 'w load =
  LoadIdle | LoadSpin | LoadCopy u32 nat "'w list" | LoadReturns nat nat "'w list"

text \<open>The writer has stored the odd number and some words, or has stored the even one.\<close>

datatype 'w store = StoreIdle | StoreCopy "'w list" u32 nat | StoreReady

record 'w StoreSystem =
  ssy_storage :: "'w list SnapshotStorage"
  ssy_readers :: "'w load list"
  ssy_writer :: "'w store"
  ssy_history :: "'w list list"

text \<open>The history is a ghost: the first value, and every value whose store is complete.\<close>

definition changes :: "'w StoreSystem \<Rightarrow> nat" where
  "changes y = 2 * (length (ssy_history y) - 1) +
     (case ssy_writer y of StoreCopy v s i \<Rightarrow> 1 | _ \<Rightarrow> 0)"

definition move_reader :: "nat \<Rightarrow> 'w load \<Rightarrow> 'w StoreSystem \<Rightarrow> 'w StoreSystem" where
  "move_reader r p y = y\<lparr>ssy_readers := (ssy_readers y)[r := p]\<rparr>"

definition at_load :: "nat \<Rightarrow> 'w load \<Rightarrow> 'w StoreSystem \<Rightarrow> bool" where
  "at_load r p y \<longleftrightarrow> r < length (ssy_readers y) \<and> ssy_readers y ! r = p"

inductive store_step :: "'w StoreSystem \<Rightarrow> 'w StoreSystem \<Rightarrow> bool" for y where
  load_ready: "at_load r LoadIdle y \<Longrightarrow> so_ready (ssy_storage y) \<Longrightarrow> store_step y (move_reader r LoadSpin y)"
| load_even: "at_load r LoadSpin y \<Longrightarrow> \<not> odd (unat (so_seq (ssy_storage y))) \<Longrightarrow>
     store_step y (move_reader r (LoadCopy (so_seq (ssy_storage y)) (changes y) []) y)"
| load_odd: "at_load r LoadSpin y \<Longrightarrow> odd (unat (so_seq (ssy_storage y))) \<Longrightarrow> store_step y y"
| load_word: "at_load r (LoadCopy s k xs) y \<Longrightarrow> length xs < length (so_value (ssy_storage y)) \<Longrightarrow>
     store_step y (move_reader r (LoadCopy s k (xs @ [so_value (ssy_storage y) ! length xs])) y)"
| load_same: "at_load r (LoadCopy s k xs) y \<Longrightarrow> length xs = length (so_value (ssy_storage y)) \<Longrightarrow>
     so_seq (ssy_storage y) = s \<Longrightarrow> store_step y (move_reader r (LoadReturns k (changes y) xs) y)"
| load_retry: "at_load r (LoadCopy s k xs) y \<Longrightarrow> length xs = length (so_value (ssy_storage y)) \<Longrightarrow>
     so_seq (ssy_storage y) \<noteq> s \<Longrightarrow> store_step y (move_reader r LoadSpin y)"
| load_done: "at_load r (LoadReturns k m xs) y \<Longrightarrow> store_step y (move_reader r LoadIdle y)"
| store_begin: "ssy_writer y = StoreIdle \<Longrightarrow> length v = length (so_value (ssy_storage y)) \<Longrightarrow>
     store_step y (y\<lparr>ssy_storage := (ssy_storage y)\<lparr>so_seq := so_seq (ssy_storage y) + 1\<rparr>,
                     ssy_writer := StoreCopy v (so_seq (ssy_storage y)) 0\<rparr>)"
| store_word: "ssy_writer y = StoreCopy v s i \<Longrightarrow> i < length v \<Longrightarrow>
     store_step y (y\<lparr>ssy_storage := (ssy_storage y)\<lparr>so_value := (so_value (ssy_storage y))[i := v ! i]\<rparr>,
                     ssy_writer := StoreCopy v s (i + 1)\<rparr>)"
| store_even: "ssy_writer y = StoreCopy v s i \<Longrightarrow> i = length v \<Longrightarrow>
     store_step y (y\<lparr>ssy_storage := (ssy_storage y)\<lparr>so_seq := s + 2\<rparr>, ssy_writer := StoreReady,
                     ssy_history := ssy_history y @ [v]\<rparr>)"
| store_ready: "ssy_writer y = StoreReady \<Longrightarrow>
     store_step y (y\<lparr>ssy_storage := (ssy_storage y)\<lparr>so_ready := True\<rparr>, ssy_writer := StoreIdle\<rparr>)"

definition store_start :: "bool \<Rightarrow> 'w list \<Rightarrow> nat \<Rightarrow> 'w StoreSystem" where
  "store_start ready v n =
     \<lparr>ssy_storage = storage_init ready v, ssy_readers = replicate n LoadIdle, ssy_writer = StoreIdle,
      ssy_history = [v]\<rparr>"

definition store_reachable :: "bool \<Rightarrow> 'w list \<Rightarrow> nat \<Rightarrow> 'w StoreSystem \<Rightarrow> bool" where
  "store_reachable ready v n y \<longleftrightarrow> store_step\<^sup>*\<^sup>* (store_start ready v n) y"

section \<open>The invariant\<close>

text \<open>
  What holds of the shared object: the number counts the changes, and the value is the last stored one, up to
  the words the writer has replaced.
\<close>

definition writer_at :: "'w StoreSystem \<Rightarrow> bool" where
  "writer_at y \<longleftrightarrow> ssy_history y \<noteq> [] \<and> so_seq (ssy_storage y) = of_nat (changes y) \<and>
     length (so_value (ssy_storage y)) = length (last (ssy_history y)) \<and>
     (case ssy_writer y of
        StoreCopy v s i \<Rightarrow> s + 1 = so_seq (ssy_storage y) \<and> i \<le> length v \<and> length v = length (last (ssy_history y)) \<and>
          so_value (ssy_storage y) = take i v @ drop i (last (ssy_history y))
      | _ \<Rightarrow> so_value (ssy_storage y) = last (ssy_history y))"

text \<open>A copy is a part of the stored value as long as no change has been made since it began.\<close>

fun reader_at :: "bool \<Rightarrow> 'w StoreSystem \<Rightarrow> 'w load \<Rightarrow> bool" where
  "reader_at ready y LoadIdle \<longleftrightarrow> True"
| "reader_at ready y LoadSpin \<longleftrightarrow> (ready \<or> 2 \<le> length (ssy_history y))"
| "reader_at ready y (LoadCopy s k xs) \<longleftrightarrow> s = of_nat k \<and> even k \<and> k \<le> changes y \<and> (ready \<or> 2 \<le> k) \<and>
     (changes y = k \<longrightarrow> xs = take (length xs) (last (ssy_history y)))"
| "reader_at ready y (LoadReturns k m xs) \<longleftrightarrow> even k \<and> k \<le> m \<and> m \<le> changes y \<and> (ready \<or> 2 \<le> k) \<and>
     (m < k + 2 ^ 32 \<longrightarrow> m = k \<and> xs = ssy_history y ! (k div 2))"

definition store_inv :: "bool \<Rightarrow> 'w StoreSystem \<Rightarrow> bool" where
  "store_inv ready y \<longleftrightarrow> writer_at y \<and> list_all (reader_at ready y) (ssy_readers y) \<and>
     (so_ready (ssy_storage y) \<longrightarrow> ready \<or> 2 \<le> length (ssy_history y)) \<and>
     (ssy_writer y = StoreReady \<longrightarrow> 2 \<le> length (ssy_history y))"

lemma changes_move_reader [simp]: "changes (move_reader r p y) = changes y"
  by (simp add: changes_def move_reader_def)

lemma writer_at_move_reader [simp]: "writer_at (move_reader r p y) = writer_at y"
  by (cases "ssy_writer y") (simp_all add: writer_at_def move_reader_def changes_def)

lemma reader_at_move_reader [simp]: "reader_at ready (move_reader r p y) q = reader_at ready y q"
  by (cases q) (simp_all, simp_all add: move_reader_def)

lemma store_inv_move_reader:
  assumes "store_inv ready y" "reader_at ready y p"
  shows "store_inv ready (move_reader r p y)"
  using assms by (simp add: store_inv_def list_all_iff) (auto simp: move_reader_def dest!: set_update_subset_insert[THEN subsetD])

lemma store_inv_at:
  assumes "store_inv ready y" "at_load r p y"
  shows "reader_at ready y p"
  using assms by (auto simp: store_inv_def at_load_def list_all_length)

lemma store_inv_start: "store_inv ready (store_start ready v n)"
  by (simp add: store_inv_def store_start_def writer_at_def storage_init_def changes_def list_all_iff)

text \<open>The readers only depend on the history and the count, which grow.\<close>

lemma reader_at_grows:
  assumes "reader_at ready y p" "changes y < changes z"
    and "\<exists>vs. ssy_history z = ssy_history y @ vs" "changes y div 2 < length (ssy_history y)"
  shows "reader_at ready z p"
proof -
  obtain vs where h: "ssy_history z = ssy_history y @ vs" using assms(3) ..
  show ?thesis
  proof (cases p)
    case (LoadReturns k m xs)
    have "k div 2 < length (ssy_history y)" if "k \<le> m" "m \<le> changes y"
      using that assms(4) by (meson div_le_mono le_less_trans order_trans)
    then show ?thesis using LoadReturns assms(1,2) h by (auto simp: nth_append)
  qed (use assms(1,2) h in auto)
qed

lemma changes_bound: "ssy_history y \<noteq> [] \<Longrightarrow> changes y div 2 < length (ssy_history y)"
  by (cases "ssy_history y") (auto simp: changes_def split: store.split)


lemma last_history: "ssy_history y \<noteq> [] \<Longrightarrow> last (ssy_history y) = ssy_history y ! (changes y div 2)"
  by (cases "ssy_writer y") (simp_all add: changes_def last_conv_nth)

lemma not_copying: "even (changes y) \<Longrightarrow> writer_at y \<Longrightarrow> so_value (ssy_storage y) = last (ssy_history y)"
  by (cases "ssy_writer y") (simp_all add: changes_def, simp_all add: writer_at_def)

text \<open>The number only repeats after \<open>2 ^ 32\<close> changes.\<close>

lemma same_count:
  assumes "of_nat n = (of_nat k :: u32)" "k \<le> n" "n < k + 2 ^ 32"
  shows "n = k"
proof -
  have "(of_nat (n - k) :: u32) = 0" using assms(1,2) by (simp add: of_nat_diff)
  then have "2 ^ 32 dvd n - k" unfolding word_of_nat_eq_0_iff by simp
  moreover have "n - k < 2 ^ 32" using assms(2,3) by linarith
  ultimately have "n - k = 0" using nat_dvd_not_less by blast
  then show ?thesis using assms(2) by simp
qed

lemma store_inv_writer:
  assumes "store_inv ready y" "ssy_readers z = ssy_readers y" "changes y < changes z"
    and "\<exists>vs. ssy_history z = ssy_history y @ vs" "writer_at z"
    and "so_ready (ssy_storage z) = so_ready (ssy_storage y)"
    and "ssy_writer z = StoreReady \<Longrightarrow> 2 \<le> length (ssy_history z)"
  shows "store_inv ready z"
proof -
  have "ssy_history y \<noteq> []" using assms(1) by (simp add: store_inv_def writer_at_def)
  from changes_bound[OF this] have "list_all (reader_at ready z) (ssy_readers z)"
    using assms(1-4) reader_at_grows[of ready y _ z] by (simp add: store_inv_def list_all_iff)
  moreover have "length (ssy_history y) \<le> length (ssy_history z)" using assms(4) by auto
  ultimately show ?thesis using assms by (auto simp: store_inv_def)
qed

lemma reader_at_cong:
  "changes z = changes y \<Longrightarrow> ssy_history z = ssy_history y \<Longrightarrow> reader_at ready z = reader_at ready y"
proof
  fix p assume "changes z = changes y" "ssy_history z = ssy_history y"
  then show "reader_at ready z p = reader_at ready y p" by (cases p) simp_all
qed

lemma copy_one_word:
  "i < length v \<Longrightarrow> length v = length w \<Longrightarrow> (take i v @ drop i w)[i := v ! i] = take (i + 1) v @ drop (i + 1) w"
  by (simp add: list_update_append take_Suc_conv_app_nth Cons_nth_drop_Suc[symmetric])

lemma store_inv_step:
  assumes "store_step y z" "store_inv ready y"
  shows "store_inv ready z"
  using assms(1)
proof cases
  case (load_ready r)
  have "reader_at ready y LoadSpin" using load_ready assms(2) by (simp add: store_inv_def)
  then show ?thesis unfolding load_ready(1) by (rule store_inv_move_reader[OF assms(2)])
next
  case (load_even r)
  have c: "so_seq (ssy_storage y) = of_nat (changes y)" using assms(2) by (simp add: store_inv_def writer_at_def)
  have "even (changes y)" using load_even(3) unfolding c by (simp add: unat_of_nat dvd_mod_iff)
  moreover have "ready \<or> 2 \<le> changes y" using store_inv_at[OF assms(2) load_even(2)] by (auto simp: changes_def)
  ultimately show ?thesis using load_even(1) c store_inv_move_reader[OF assms(2)] by simp
next
  case (load_word r s k xs)
  have "so_value (ssy_storage y) = last (ssy_history y)" if "changes y = k"
    using that store_inv_at[OF assms(2) load_word(2)] not_copying assms(2) by (auto simp: store_inv_def)
  then have "reader_at ready y (LoadCopy s k (xs @ [so_value (ssy_storage y) ! length xs]))"
    using store_inv_at[OF assms(2) load_word(2)] load_word(3) by (auto simp: take_Suc_conv_app_nth)
  then show ?thesis unfolding load_word(1) by (rule store_inv_move_reader[OF assms(2)])
next
  case (load_same r s k xs)
  have at: "s = of_nat k" "even k" "k \<le> changes y" "ready \<or> 2 \<le> k"
      "changes y = k \<Longrightarrow> xs = take (length xs) (last (ssy_history y))"
    using store_inv_at[OF assms(2) load_same(2)] by auto
  have w: "writer_at y" "ssy_history y \<noteq> []" "so_seq (ssy_storage y) = of_nat (changes y)"
      "length (so_value (ssy_storage y)) = length (last (ssy_history y))"
    using assms(2) by (auto simp: store_inv_def writer_at_def)
  have "changes y = k" if "changes y < k + 2 ^ 32"
    using same_count[OF _ at(3) that] w(3) load_same(4) at(1) by simp
  then have "reader_at ready y (LoadReturns k (changes y) xs)"
    using at w(4) load_same(3) last_history[OF w(2)] by auto
  then show ?thesis unfolding load_same(1) by (rule store_inv_move_reader[OF assms(2)])
next
  case (load_retry r s k xs)
  have "ready \<or> 2 \<le> changes y" using store_inv_at[OF assms(2) load_retry(2)] by auto
  moreover have "2 \<le> length (ssy_history y)" if "2 \<le> changes y"
    using that by (cases "ssy_writer y") (auto simp: changes_def)
  ultimately have "reader_at ready y LoadSpin" by auto
  then show ?thesis unfolding load_retry(1) by (rule store_inv_move_reader[OF assms(2)])
next
  case (load_done r k m xs)
  then show ?thesis using store_inv_move_reader[OF assms(2)] by simp
next
  case (store_begin v)
  have w: "ssy_history y \<noteq> []" "so_seq (ssy_storage y) = of_nat (changes y)"
      "length (so_value (ssy_storage y)) = length (last (ssy_history y))" "so_value (ssy_storage y) = last (ssy_history y)"
    using assms(2) store_begin(2) by (simp_all add: store_inv_def writer_at_def)
  have c: "changes z = changes y + 1" using store_begin(1,2) by (simp add: changes_def)
  have "writer_at z" unfolding writer_at_def c using store_begin w by simp
  then show ?thesis
    by (intro store_inv_writer[OF assms(2)]) (simp_all only: c, simp_all add: store_begin(1))
next
  case (store_word v s i)
  have z: "changes z = changes y" "ssy_history z = ssy_history y" "ssy_readers z = ssy_readers y"
    using store_word by (simp_all add: changes_def)
  have w: "ssy_history y \<noteq> []" "so_seq (ssy_storage y) = of_nat (changes y)" "s + 1 = so_seq (ssy_storage y)"
      "length v = length (last (ssy_history y))" "length (so_value (ssy_storage y)) = length (last (ssy_history y))"
      "so_value (ssy_storage y) = take i v @ drop i (last (ssy_history y))"
    using assms(2) store_word(2) by (simp_all add: store_inv_def writer_at_def)
  have "(so_value (ssy_storage y))[i := v ! i] = take (i + 1) v @ drop (i + 1) (last (ssy_history y))"
    unfolding w(6) by (rule copy_one_word) (use w store_word(3) in simp_all)
  then have "writer_at z" unfolding writer_at_def z(1,2) using store_word w by simp
  then show ?thesis using assms(2) store_word reader_at_cong[OF z(1,2)] by (simp add: store_inv_def)
next
  case (store_even v s i)
  have w: "ssy_history y \<noteq> []" "so_seq (ssy_storage y) = of_nat (changes y)" "s + 1 = so_seq (ssy_storage y)"
      "length v = length (last (ssy_history y))" "so_value (ssy_storage y) = v"
    using assms(2) store_even by (simp_all add: store_inv_def writer_at_def)
  have c: "changes z = changes y + 1" using store_even(1,2) w(1) by (cases "ssy_history y") (simp_all add: changes_def)
  have "of_nat (changes y) = 1 + s" using w(2,3) by (simp add: add.commute)
  then have "writer_at z" unfolding writer_at_def c using store_even w by simp
  then show ?thesis
    by (intro store_inv_writer[OF assms(2)])
      (simp_all only: c, use w(1) in \<open>simp_all add: store_even(1) Suc_le_eq\<close>)
next
  case store_ready
  have z: "changes z = changes y" "ssy_history z = ssy_history y" "ssy_readers z = ssy_readers y"
    using store_ready by (simp_all add: changes_def)
  have "writer_at z" using assms(2) store_ready unfolding store_inv_def writer_at_def z(1,2) by simp
  then show ?thesis using assms(2) store_ready reader_at_cong[OF z(1,2)] z by (simp add: store_inv_def)
qed (use assms in simp_all)

theorem store_inv_reachable:
  assumes "store_reachable ready v n y"
  shows "store_inv ready y"
  using assms unfolding store_reachable_def
  by (induction rule: rtranclp_induct) (auto intro: store_inv_start store_inv_step)

text \<open>
  C33: a snapshot is never torn. In every interleaving of one writer and any number of readers, what a reader
  returns is, word for word, the last value whose store was complete when the reader loaded the number, and
  still was when it loaded it again, unless \<open>2 ^ 32\<close> changes came between the two; and where the flag guards
  the storage, it is never the value the storage was created with.
\<close>

theorem snapshot_is_never_torn:
  assumes "store_reachable ready v n y" "at_load r (LoadReturns before after xs) y" "after < before + 2 ^ 32"
  shows "after = before \<and> before div 2 < length (ssy_history y) \<and> xs = ssy_history y ! (before div 2) \<and>
         (ready \<or> 0 < before div 2)"
proof -
  have i: "store_inv ready y" using assms(1) by (rule store_inv_reachable)
  have at: "reader_at ready y (LoadReturns before after xs)" using store_inv_at[OF i assms(2)] .
  have "ssy_history y \<noteq> []" using i by (simp add: store_inv_def writer_at_def)
  then have "before div 2 < length (ssy_history y)"
    using at changes_bound by (metis div_le_mono le_less_trans reader_at.simps(4) order_trans)
  then show ?thesis using at assms(3) by auto
qed

text \<open>A storage of two words, one reader, one store, and the copy of the reader that spans it.\<close>

definition seq_at :: "u32 \<Rightarrow> nat list \<Rightarrow> bool \<Rightarrow> nat list SnapshotStorage" where
  "seq_at q v b = \<lparr>so_seq = q, so_ready = b, so_value = v\<rparr>"

definition sys_at :: "nat list SnapshotStorage \<Rightarrow> nat load \<Rightarrow> nat store \<Rightarrow> nat list list \<Rightarrow> nat StoreSystem" where
  "sys_at p l w h = \<lparr>ssy_storage = p, ssy_readers = [l], ssy_writer = w, ssy_history = h\<rparr>"

lemmas sys_at_step = sys_at_def seq_at_def at_load_def move_reader_def changes_def

lemma sample_store:
  "store_step\<^sup>*\<^sup>* (sys_at (seq_at 0 [0, 0] True) LoadIdle StoreIdle [[0, 0]])
     (sys_at (seq_at 2 [7, 8] True) LoadIdle StoreReady [[0, 0], [7, 8]])"
proof -
  let ?y = "\<lambda>q v w h. sys_at (seq_at q v True) LoadIdle w h"
  have "store_step (?y 0 [0, 0] StoreIdle [[0, 0]]) (?y 1 [0, 0] (StoreCopy [7, 8] 0 0) [[0, 0]])"
    using store_begin[of "?y 0 [0, 0] StoreIdle [[0, 0]]" "[7, 8]"] by (simp add: sys_at_step)
  moreover have "store_step (?y 1 [0, 0] (StoreCopy [7, 8] 0 0) [[0, 0]]) (?y 1 [7, 0] (StoreCopy [7, 8] 0 1) [[0, 0]])"
    using store_word[of "?y 1 [0, 0] (StoreCopy [7, 8] 0 0) [[0, 0]]" "[7, 8]" 0 0] by (simp add: sys_at_step)
  moreover have "store_step (?y 1 [7, 0] (StoreCopy [7, 8] 0 1) [[0, 0]]) (?y 1 [7, 8] (StoreCopy [7, 8] 0 2) [[0, 0]])"
    using store_word[of "?y 1 [7, 0] (StoreCopy [7, 8] 0 1) [[0, 0]]" "[7, 8]" 0 1] by (simp add: sys_at_step eval_nat_numeral)
  moreover have "store_step (?y 1 [7, 8] (StoreCopy [7, 8] 0 2) [[0, 0]]) (?y 2 [7, 8] StoreReady [[0, 0], [7, 8]])"
    using store_even[of "?y 1 [7, 8] (StoreCopy [7, 8] 0 2) [[0, 0]]" "[7, 8]" 0 2] by (simp add: sys_at_step)
  ultimately show ?thesis by (meson converse_rtranclp_into_rtranclp rtranclp.rtrancl_refl)
qed

lemma sample_load:
  "store_step\<^sup>*\<^sup>* (sys_at (seq_at 2 [7, 8] True) LoadIdle StoreReady [[0, 0], [7, 8]])
     (sys_at (seq_at 2 [7, 8] True) (LoadReturns 2 2 [7, 8]) StoreReady [[0, 0], [7, 8]])"
proof -
  let ?y = "\<lambda>l. sys_at (seq_at 2 [7, 8] True) l StoreReady [[0, 0], [7, 8]]"
  have "store_step (?y LoadIdle) (?y LoadSpin)"
    using load_ready[of 0 "?y LoadIdle"] by (simp add: sys_at_step)
  moreover have "store_step (?y LoadSpin) (?y (LoadCopy 2 2 []))"
    using load_even[of 0 "?y LoadSpin"] by (simp add: sys_at_step)
  moreover have "store_step (?y (LoadCopy 2 2 [])) (?y (LoadCopy 2 2 [7]))"
    using load_word[of 0 2 2 "[]" "?y (LoadCopy 2 2 [])"] by (simp add: sys_at_step)
  moreover have "store_step (?y (LoadCopy 2 2 [7])) (?y (LoadCopy 2 2 [7, 8]))"
    using load_word[of 0 2 2 "[7]" "?y (LoadCopy 2 2 [7])"] by (simp add: sys_at_step)
  moreover have "store_step (?y (LoadCopy 2 2 [7, 8])) (?y (LoadReturns 2 2 [7, 8]))"
    using load_same[of 0 2 2 "[7, 8]" "?y (LoadCopy 2 2 [7, 8])"] by (simp add: sys_at_step)
  ultimately show ?thesis by (meson converse_rtranclp_into_rtranclp rtranclp.rtrancl_refl)
qed

lemma sample_read:
  "store_reachable True [0, 0] 1 (sys_at (seq_at 2 [7, 8] True) (LoadReturns 2 2 [7, 8]) StoreReady [[0, 0], [7, 8]])"
  using rtranclp_trans[OF sample_store sample_load]
  by (simp add: store_reachable_def store_start_def storage_init_def sys_at_def seq_at_def)

lemma snapshot_is_never_torn_witness:
  "[7, 8 :: nat] = ssy_history (sys_at (seq_at 2 [7, 8] True) (LoadReturns 2 2 [7, 8]) StoreReady [[0, 0], [7, 8]]) ! 1"
  using snapshot_is_never_torn[OF sample_read, of 0 2 2 "[7, 8]"] by (simp add: sys_at_def at_load_def)

end
