(* ===== verification/ReadModel.thy ===== *)
theory ReadModel
  imports SnapshotStore CoreRegistry CoreInvariants DeviceManager DescriptorStore
begin

text \<open>
  What the front ends read (\<^verbatim>\<open>components/service/read_model_coordinator.cpp\<close>,
  \<^verbatim>\<open>bridge_snapshot_builder.cpp\<close>, \<^verbatim>\<open>devices_api_snapshot_builder.cpp\<close>): the snapshots of the devices for the web
  API, for the MQTT bridge and for the Matter bridge, and the status of the network and of the configuration.
  The coordinator keeps the last inputs and rebuilds the snapshots they appear in. How readers copy a snapshot
  while it is replaced is the subject of \<open>SnapshotStore\<close>; here every operation runs alone.
\<close>

section \<open>The states of a device as the front ends see them\<close>

datatype DeviceReportingState =
  kDevReportingUnknown | kDevInterviewCompleted | kDevBindingReady | kDevReportingConfigured | kDevReportingActive | kDevStale

datatype DeviceOccupancyState = kDevOccupancyUnknown | kDevNotOccupied | kDevOccupied

datatype DeviceContactState = kDevContactUnknown | kDevClosed | kDevOpen

fun to_device_reporting_state :: "CoreReportingState \<Rightarrow> DeviceReportingState" where
  "to_device_reporting_state kInterviewCompleted = kDevInterviewCompleted"
| "to_device_reporting_state kBindingReady = kDevBindingReady"
| "to_device_reporting_state kReportingConfigured = kDevReportingConfigured"
| "to_device_reporting_state kReportingActive = kDevReportingActive"
| "to_device_reporting_state kStale = kDevStale"
| "to_device_reporting_state kReportingUnknown = kDevReportingUnknown"

fun to_device_occupancy_state :: "CoreOccupancyState \<Rightarrow> DeviceOccupancyState" where
  "to_device_occupancy_state kNotOccupied = kDevNotOccupied"
| "to_device_occupancy_state kOccupied = kDevOccupied"
| "to_device_occupancy_state kOccupancyUnknown = kDevOccupancyUnknown"

fun to_device_contact_state :: "CoreContactState \<Rightarrow> DeviceContactState" where
  "to_device_contact_state kClosed = kDevClosed"
| "to_device_contact_state kOpen = kDevOpen"
| "to_device_contact_state kContactUnknown = kDevContactUnknown"

section \<open>The snapshots of the bridges\<close>

record MqttBridgeDeviceSnapshot =
  mb_short_addr :: u16
  mb_online :: bool
  mb_power_on :: bool
  mb_has_temperature :: bool
  mb_temperature_centi_c :: u16
  mb_occupancy_state :: DeviceOccupancyState
  mb_contact_state :: DeviceContactState
  mb_contact_tamper :: bool
  mb_contact_battery_low :: bool
  mb_has_battery :: bool
  mb_battery_percent :: u8
  mb_has_battery_voltage :: bool
  mb_battery_voltage_mv :: u16
  mb_has_lqi :: bool
  mb_lqi :: u8
  mb_has_rssi :: bool
  mb_rssi_dbm :: u8
  mb_stale :: bool
  mb_last_report_at_ms :: u32

definition mqtt_device_default :: MqttBridgeDeviceSnapshot where
  "mqtt_device_default =
     \<lparr>mb_short_addr = kUnknownShortAddr, mb_online = False, mb_power_on = False, mb_has_temperature = False,
      mb_temperature_centi_c = 0, mb_occupancy_state = kDevOccupancyUnknown, mb_contact_state = kDevContactUnknown,
      mb_contact_tamper = False, mb_contact_battery_low = False, mb_has_battery = False, mb_battery_percent = 0,
      mb_has_battery_voltage = False, mb_battery_voltage_mv = 0, mb_has_lqi = False, mb_lqi = 0,
      mb_has_rssi = False, mb_rssi_dbm = 0, mb_stale = False, mb_last_report_at_ms = 0\<rparr>"

datatype MatterBridgeDeviceClass = kClassUnknown | kClassTemperature | kClassOccupancy | kClassContact

record MatterBridgeDeviceSnapshot =
  xb_short_addr :: u16
  xb_online :: bool
  xb_stale :: bool
  xb_primary_class :: MatterBridgeDeviceClass
  xb_has_temperature :: bool
  xb_temperature_centi_c :: u16
  xb_has_occupancy :: bool
  xb_occupied :: bool
  xb_has_contact :: bool
  xb_contact_open :: bool

definition matter_device_default :: MatterBridgeDeviceSnapshot where
  "matter_device_default =
     \<lparr>xb_short_addr = kUnknownShortAddr, xb_online = False, xb_stale = False, xb_primary_class = kClassUnknown,
      xb_has_temperature = False, xb_temperature_centi_c = 0, xb_has_occupancy = False, xb_occupied = False,
      xb_has_contact = False, xb_contact_open = False\<rparr>"

text \<open>A snapshot of a bridge: its revision, and an array of which the first \<open>count\<close> entries are filled.\<close>

record 'd BridgeSnapshot =
  bs_revision :: u32
  bs_device_count :: u16
  bs_devices :: "'d list"

definition bridge_snapshot_default :: "'d \<Rightarrow> 'd BridgeSnapshot" where
  "bridge_snapshot_default d = \<lparr>bs_revision = 0, bs_device_count = 0, bs_devices = replicate kServiceMaxDevices d\<rparr>"

definition bs_list :: "'d BridgeSnapshot \<Rightarrow> 'd list" where
  "bs_list b = take (unat (bs_device_count b)) (bs_devices b)"

definition mqtt_device_of :: "CoreDeviceRecord \<Rightarrow> MqttBridgeDeviceSnapshot" where
  "mqtt_device_of d =
     \<lparr>mb_short_addr = dr_short_addr d, mb_online = dr_online d, mb_power_on = dr_power_on d,
      mb_has_temperature = dr_has_temperature d, mb_temperature_centi_c = dr_temperature_centi_c d,
      mb_occupancy_state = to_device_occupancy_state (dr_occupancy_state d),
      mb_contact_state = to_device_contact_state (dr_contact_state d),
      mb_contact_tamper = dr_contact_tamper d, mb_contact_battery_low = dr_contact_battery_low d,
      mb_has_battery = dr_has_battery d, mb_battery_percent = dr_battery_percent d,
      mb_has_battery_voltage = dr_has_battery_voltage d, mb_battery_voltage_mv = dr_battery_voltage_mv d,
      mb_has_lqi = dr_has_lqi d, mb_lqi = dr_lqi d, mb_has_rssi = dr_has_rssi d, mb_rssi_dbm = dr_rssi_dbm d,
      mb_stale = dr_stale d, mb_last_report_at_ms = dr_last_report_at_ms d\<rparr>"

definition matter_device_of :: "CoreDeviceRecord \<Rightarrow> MatterBridgeDeviceSnapshot" where
  "matter_device_of d =
     (let has_temperature = dr_has_temperature d;
          has_occupancy = (dr_occupancy_state d \<noteq> kOccupancyUnknown);
          has_contact = (dr_contact_state d \<noteq> kContactUnknown)
      in \<lparr>xb_short_addr = dr_short_addr d, xb_online = dr_online d, xb_stale = dr_stale d,
          xb_primary_class = (if has_temperature then kClassTemperature
                              else if has_occupancy then kClassOccupancy
                              else if has_contact then kClassContact
                              else kClassUnknown),
          xb_has_temperature = has_temperature, xb_temperature_centi_c = dr_temperature_centi_c d,
          xb_has_occupancy = has_occupancy, xb_occupied = (dr_occupancy_state d = kOccupied),
          xb_has_contact = has_contact, xb_contact_open = (dr_contact_state d = kOpen)\<rparr>)"

text \<open>The loop of both builders: the next free entry of the array is filled for every device they list.\<close>

fun fill_devices :: "(CoreDeviceRecord \<Rightarrow> 'd) \<Rightarrow> CoreDeviceRecord list \<Rightarrow> 'd BridgeSnapshot \<Rightarrow> 'd BridgeSnapshot" where
  "fill_devices view [] out = out"
| "fill_devices view (d # ds) out =
     (if \<not> unat (bs_device_count out) < kServiceMaxDevices then out
      else if dr_short_addr d = kUnknownDeviceShortAddr \<or> \<not> dr_online d then fill_devices view ds out
      else fill_devices view ds
             (out\<lparr>bs_devices := (bs_devices out)[unat (bs_device_count out) := view d],
                  bs_device_count := bs_device_count out + 1\<rparr>))"

definition build_bridge_snapshot ::
  "(CoreDeviceRecord \<Rightarrow> 'd) \<Rightarrow> Registry \<Rightarrow> 'd BridgeSnapshot \<Rightarrow> 'd BridgeSnapshot \<times> Registry" where
  "build_bridge_snapshot view g out =
     (let (ref, g1) = pin_current g;
          state = ss_state (reg_slots g1 ! sr_slot_index ref);
          out1 = out\<lparr>bs_revision := st_revision state, bs_device_count := 0\<rparr>
      in (fill_devices view (st_devices state) out1, snd (release_snapshot (Some ref) g1)))"

definition build_mqtt_snapshot ::
  "Registry \<Rightarrow> MqttBridgeDeviceSnapshot BridgeSnapshot \<times> Registry" where
  "build_mqtt_snapshot g = build_bridge_snapshot mqtt_device_of g (bridge_snapshot_default mqtt_device_default)"

definition build_matter_snapshot ::
  "Registry \<Rightarrow> MatterBridgeDeviceSnapshot BridgeSnapshot \<times> Registry" where
  "build_matter_snapshot g = build_bridge_snapshot matter_device_of g (bridge_snapshot_default matter_device_default)"

section \<open>The devices of the web API\<close>

record DevicesApiDeviceSnapshot =
  da_short_addr :: u16
  da_online :: bool
  da_power_on :: bool
  da_reporting_state :: DeviceReportingState
  da_last_report_at_ms :: u32
  da_stale :: bool
  da_has_temperature :: bool
  da_temperature_centi_c :: u16
  da_occupancy_state :: DeviceOccupancyState
  da_contact_state :: DeviceContactState
  da_contact_tamper :: bool
  da_contact_battery_low :: bool
  da_has_battery :: bool
  da_battery_percent :: u8
  da_has_battery_voltage :: bool
  da_battery_voltage_mv :: u16
  da_has_lqi :: bool
  da_lqi :: u8
  da_has_rssi :: bool
  da_rssi_dbm :: u8
  da_force_remove_armed :: bool
  da_force_remove_ms_left :: u32
  da_identity_status :: DeviceDescriptorStatus
  da_manufacturer :: string
  da_model :: string

record DevicesApiSnapshot =
  as_revision :: u32
  as_join_window_open :: bool
  as_join_window_seconds_left :: u16
  as_devices :: "DevicesApiDeviceSnapshot list"

text \<open>
  The entry of slot \<open>i\<close>: what the core knows, what the runtime snapshot holds at the same index, and the
  identity. The device count of the snapshot is the length of its list.
\<close>

definition api_device :: "DeviceRuntimeSnapshot \<Rightarrow> DescriptorStore \<Rightarrow> nat \<Rightarrow> CoreDeviceRecord \<Rightarrow> DevicesApiDeviceSnapshot" where
  "api_device rs ids i d =
     \<lparr>da_short_addr = dr_short_addr d, da_online = dr_online d, da_power_on = dr_power_on d,
      da_reporting_state = to_device_reporting_state (ds_reporting_state rs ! i),
      da_last_report_at_ms = ds_last_report_at_ms rs ! i, da_stale = ds_stale rs ! i,
      da_has_temperature = dr_has_temperature d, da_temperature_centi_c = dr_temperature_centi_c d,
      da_occupancy_state = to_device_occupancy_state (dr_occupancy_state d),
      da_contact_state = to_device_contact_state (dr_contact_state d),
      da_contact_tamper = dr_contact_tamper d, da_contact_battery_low = dr_contact_battery_low d,
      da_has_battery = ds_has_battery rs ! i, da_battery_percent = ds_battery_percent rs ! i,
      da_has_battery_voltage = ds_has_battery_voltage rs ! i, da_battery_voltage_mv = ds_battery_voltage_mv rs ! i,
      da_has_lqi = ds_has_lqi rs ! i, da_lqi = ds_lqi rs ! i, da_has_rssi = ds_has_rssi rs ! i,
      da_rssi_dbm = ds_rssi_dbm rs ! i, da_force_remove_armed = 0 < ds_force_remove_ms_left rs ! i,
      da_force_remove_ms_left = ds_force_remove_ms_left rs ! i,
      da_identity_status = (case descriptor_find (dr_short_addr d) ids of
                              None \<Rightarrow> kDescriptorUnknown | Some k \<Rightarrow> dd_status (ids ! k)),
      da_manufacturer = (case descriptor_find (dr_short_addr d) ids of
                           None \<Rightarrow> replicate kDeviceDescriptorManufacturerMaxLen nul | Some k \<Rightarrow> dd_manufacturer (ids ! k)),
      da_model = (case descriptor_find (dr_short_addr d) ids of
                    None \<Rightarrow> replicate kDeviceDescriptorModelMaxLen nul | Some k \<Rightarrow> dd_model (ids ! k))\<rparr>"

fun fill_api_devices ::
  "DeviceRuntimeSnapshot \<Rightarrow> DescriptorStore \<Rightarrow> nat \<Rightarrow> CoreDeviceRecord list \<Rightarrow> DevicesApiDeviceSnapshot list \<Rightarrow>
   DevicesApiDeviceSnapshot list" where
  "fill_api_devices rs ids i [] out = out"
| "fill_api_devices rs ids i (d # ds) out =
     (if \<not> length out < kMaxDevices then out
      else if dr_short_addr d = kUnknownDeviceShortAddr then fill_api_devices rs ids (i + 1) ds out
      else fill_api_devices rs ids (i + 1) ds (out @ [api_device rs ids i d]))"

definition build_devices_snapshot ::
  "CoreState \<Rightarrow> DeviceRuntimeSnapshot \<Rightarrow> DescriptorStore \<Rightarrow> DevicesApiSnapshot" where
  "build_devices_snapshot s rs ids =
     \<lparr>as_revision = st_revision s, as_join_window_open = ds_join_window_open rs,
      as_join_window_seconds_left = ds_join_window_seconds_left rs,
      as_devices = fill_api_devices rs ids 0 (st_devices s) []\<rparr>"

section \<open>The coordinator\<close>

datatype MqttConnectionError = kMqttNone | kMqttDisabled | kMqttInitFailed | kMqttStartFailed | kMqttSubscribeFailed

record MqttStatusSnapshot =
  mq_enabled :: bool
  mq_connected :: bool
  mq_last_connect_error :: MqttConnectionError
  mq_broker_endpoint_summary :: string

definition mqtt_status_default :: MqttStatusSnapshot where
  "mqtt_status_default = \<lparr>mq_enabled = False, mq_connected = False, mq_last_connect_error = kMqttNone,
     mq_broker_endpoint_summary = []\<rparr>"

record NetworkApiSnapshot =
  na_revision :: u32
  na_connected :: bool
  na_refresh_requests :: u32
  na_current_backoff_ms :: u32
  na_mqtt :: MqttStatusSnapshot

record ConfigApiSnapshot =
  ca_revision :: u32
  ca_last_command_status :: u8
  ca_command_timeout_ms :: u32
  ca_max_command_retries :: u8
  ca_autoconnect_failures :: u32

record CorePublishInput =
  ci_revision :: u32
  ci_network_connected :: bool
  ci_last_command_status :: u8

record NetworkPublishInput =
  ni_refresh_requests :: u32
  ni_current_backoff_ms :: u32
  ni_mqtt :: MqttStatusSnapshot

record ConfigPublishInput =
  cfi_command_timeout_ms :: u32
  cfi_max_command_retries :: u8
  cfi_autoconnect_failures :: u32

record ReadModelCoordinator =
  rc_network :: "NetworkApiSnapshot SnapshotStorage"
  rc_config :: "ConfigApiSnapshot SnapshotStorage"
  rc_devices :: "DevicesApiSnapshot SnapshotStorage"
  rc_mqtt :: "MqttBridgeDeviceSnapshot BridgeSnapshot SnapshotStorage"
  rc_matter :: "MatterBridgeDeviceSnapshot BridgeSnapshot SnapshotStorage"
  rc_core_input :: CorePublishInput
  rc_network_input :: NetworkPublishInput
  rc_config_input :: ConfigPublishInput

definition core_input_default :: CorePublishInput where
  "core_input_default = \<lparr>ci_revision = 0, ci_network_connected = False, ci_last_command_status = 0\<rparr>"

definition network_input_default :: NetworkPublishInput where
  "network_input_default = \<lparr>ni_refresh_requests = 0, ni_current_backoff_ms = 0, ni_mqtt = mqtt_status_default\<rparr>"

definition config_input_default :: ConfigPublishInput where
  "config_input_default = \<lparr>cfi_command_timeout_ms = 5000, cfi_max_command_retries = 1, cfi_autoconnect_failures = 0\<rparr>"

definition network_snapshot_of :: "CorePublishInput \<Rightarrow> NetworkPublishInput \<Rightarrow> NetworkApiSnapshot" where
  "network_snapshot_of ci ni =
     \<lparr>na_revision = ci_revision ci, na_connected = ci_network_connected ci, na_refresh_requests = ni_refresh_requests ni,
      na_current_backoff_ms = ni_current_backoff_ms ni, na_mqtt = ni_mqtt ni\<rparr>"

definition config_snapshot_of :: "CorePublishInput \<Rightarrow> ConfigPublishInput \<Rightarrow> ConfigApiSnapshot" where
  "config_snapshot_of ci cf =
     \<lparr>ca_revision = ci_revision ci, ca_last_command_status = ci_last_command_status ci,
      ca_command_timeout_ms = cfi_command_timeout_ms cf, ca_max_command_retries = cfi_max_command_retries cf,
      ca_autoconnect_failures = cfi_autoconnect_failures cf\<rparr>"

definition read_model_init :: ReadModelCoordinator where
  "read_model_init =
     \<lparr>rc_network = storage_init True (network_snapshot_of core_input_default network_input_default),
      rc_config = storage_init True (config_snapshot_of core_input_default config_input_default),
      rc_devices = storage_init False \<lparr>as_revision = 0, as_join_window_open = False, as_join_window_seconds_left = 0,
                                       as_devices = []\<rparr>,
      rc_mqtt = storage_init False (bridge_snapshot_default mqtt_device_default),
      rc_matter = storage_init False (bridge_snapshot_default matter_device_default),
      rc_core_input = core_input_default, rc_network_input = network_input_default,
      rc_config_input = config_input_default\<rparr>"

definition rebuild_network_snapshot :: "ReadModelCoordinator \<Rightarrow> ReadModelCoordinator" where
  "rebuild_network_snapshot c =
     c\<lparr>rc_network := store_snapshot (network_snapshot_of (rc_core_input c) (rc_network_input c)) (rc_network c)\<rparr>"

definition rebuild_config_snapshot :: "ReadModelCoordinator \<Rightarrow> ReadModelCoordinator" where
  "rebuild_config_snapshot c =
     c\<lparr>rc_config := store_snapshot (config_snapshot_of (rc_core_input c) (rc_config_input c)) (rc_config c)\<rparr>"

definition refresh_bridge_snapshots :: "Registry \<Rightarrow> ReadModelCoordinator \<Rightarrow> Registry \<times> ReadModelCoordinator" where
  "refresh_bridge_snapshots g c =
     (let (mqtt, g1) = build_mqtt_snapshot g;
          (matter, g2) = build_matter_snapshot g1
      in (g2, c\<lparr>rc_mqtt := store_snapshot mqtt (rc_mqtt c), rc_matter := store_snapshot matter (rc_matter c)\<rparr>))"

definition on_core_state_published ::
  "CorePublishInput \<Rightarrow> Registry \<Rightarrow> ReadModelCoordinator \<Rightarrow> Registry \<times> ReadModelCoordinator" where
  "on_core_state_published input g c =
     refresh_bridge_snapshots g
       (rebuild_config_snapshot (rebuild_network_snapshot (c\<lparr>rc_core_input := input\<rparr>)))"

definition on_runtime_stats_changed :: "NetworkPublishInput \<Rightarrow> ReadModelCoordinator \<Rightarrow> ReadModelCoordinator" where
  "on_runtime_stats_changed input c =
     rebuild_config_snapshot (rebuild_network_snapshot (c\<lparr>rc_network_input := input\<rparr>))"

definition on_config_changed :: "ConfigPublishInput \<Rightarrow> ReadModelCoordinator \<Rightarrow> ReadModelCoordinator" where
  "on_config_changed input c = rebuild_config_snapshot (c\<lparr>rc_config_input := input\<rparr>)"

definition on_mqtt_status_changed :: "MqttStatusSnapshot \<Rightarrow> ReadModelCoordinator \<Rightarrow> ReadModelCoordinator" where
  "on_mqtt_status_changed status c =
     rebuild_network_snapshot (c\<lparr>rc_network_input := (rc_network_input c)\<lparr>ni_mqtt := status\<rparr>\<rparr>)"

definition publish_devices_api_snapshot ::
  "CoreState \<Rightarrow> DeviceRuntimeSnapshot \<Rightarrow> DescriptorStore \<Rightarrow> ReadModelCoordinator \<Rightarrow> ReadModelCoordinator" where
  "publish_devices_api_snapshot s rs ids c =
     c\<lparr>rc_devices := store_snapshot (build_devices_snapshot s rs ids) (rc_devices c)\<rparr>"

definition build_network_api_snapshot :: "ReadModelCoordinator \<Rightarrow> NetworkApiSnapshot option" where
  "build_network_api_snapshot c = load_snapshot (rc_network c)"

definition build_config_api_snapshot :: "ReadModelCoordinator \<Rightarrow> ConfigApiSnapshot option" where
  "build_config_api_snapshot c = load_snapshot (rc_config c)"

definition build_devices_api_snapshot :: "ReadModelCoordinator \<Rightarrow> DevicesApiSnapshot option" where
  "build_devices_api_snapshot c = load_snapshot (rc_devices c)"

definition build_mqtt_bridge_snapshot :: "ReadModelCoordinator \<Rightarrow> MqttBridgeDeviceSnapshot BridgeSnapshot option" where
  "build_mqtt_bridge_snapshot c = load_snapshot (rc_mqtt c)"

definition build_matter_bridge_snapshot :: "ReadModelCoordinator \<Rightarrow> MatterBridgeDeviceSnapshot BridgeSnapshot option" where
  "build_matter_bridge_snapshot c = load_snapshot (rc_matter c)"

section \<open>What a built snapshot shows\<close>

definition shown :: "CoreDeviceRecord \<Rightarrow> bool" where
  "shown d \<longleftrightarrow> dr_short_addr d \<noteq> kUnknownDeviceShortAddr \<and> dr_online d"

lemma fill_devices_list:
  assumes "length (bs_devices out) = kServiceMaxDevices"
    and "unat (bs_device_count out) + length (filter shown ds) \<le> kServiceMaxDevices"
  shows "bs_list (fill_devices view ds out) = bs_list out @ map view (filter shown ds) \<and>
         bs_revision (fill_devices view ds out) = bs_revision out \<and>
         length (bs_devices (fill_devices view ds out)) = kServiceMaxDevices"
  using assms
proof (induction ds arbitrary: out)
  case Nil
  then show ?case by simp
next
  case (Cons d ds)
  show ?case
  proof (cases "shown d")
    case False
    then have skip: "filter shown (d # ds) = filter shown ds" by simp
    show ?thesis
    proof (cases "unat (bs_device_count out) < kServiceMaxDevices")
      case True
      then have "fill_devices view (d # ds) out = fill_devices view ds out" using False by (simp add: shown_def)
      then show ?thesis using Cons.IH[OF Cons.prems(1)] Cons.prems(2) unfolding skip by simp
    next
      case full: False
      then have "length (filter shown ds) = 0" using Cons.prems(2) unfolding skip by linarith
      then have "filter shown ds = []" by (simp only: length_0_conv)
      then show ?thesis using full Cons.prems(1) unfolding skip by simp
    qed
  next
    case True
    define n where "n = unat (bs_device_count out)"
    define next' where "next' = out\<lparr>bs_devices := (bs_devices out)[n := view d], bs_device_count := bs_device_count out + 1\<rparr>"
    have n: "n < 64" using Cons.prems(2) True by (simp add: n_def kServiceMaxDevices_def)
    then have u: "unat (bs_device_count out + 1) = Suc n"
      unfolding n_def by (subst unat_word_ariths(1)) simp
    have "bs_list next' = bs_list out @ [view d]"
      using n Cons.prems(1) u
      by (simp add: bs_list_def next'_def kServiceMaxDevices_def n_def[symmetric] take_Suc_conv_app_nth)
    moreover have "fill_devices view (d # ds) out = fill_devices view ds next'"
      using n True by (simp add: next'_def n_def shown_def kServiceMaxDevices_def)
    moreover have "length (bs_devices next') = kServiceMaxDevices" "bs_revision next' = bs_revision out"
      using Cons.prems(1) by (simp_all add: next'_def)
    moreover have "unat (bs_device_count next') + length (filter shown ds) \<le> kServiceMaxDevices"
      using Cons.prems(2) True u by (simp add: next'_def n_def)
    moreover have "map view (filter shown (d # ds)) = view d # map view (filter shown ds)" using True by simp
    ultimately show ?thesis using Cons.IH[of next'] by simp
  qed
qed

lemma bs_list_default [simp]: "bs_list (b\<lparr>bs_device_count := 0\<rparr>) = []"
  by (simp add: bs_list_def)

lemma pin_release:
  assumes "reg_pins g ! reg_active g \<noteq> - 1" "registry_shape g" "sr_slot_index ref = reg_active g"
  shows "snd (release_snapshot (Some ref) (add_pin (reg_active g) g)) = g"
proof -
  have "reg_pins g ! reg_active g + 1 \<noteq> 0" using assms(1) eq_neg_iff_add_eq_0 by blast
  then have "drop_pin (reg_active g) (add_pin (reg_active g) g) = g"
    using assms(2) by (simp add: drop_pin_def add_pin_def registry_shape_def)
  then show ?thesis using assms(2,3) by (simp add: release_snapshot_def registry_shape_def)
qed

lemma build_bridge_snapshot_list:
  assumes "registry_shape g" "reg_pins g ! reg_active g \<noteq> - 1" "length (st_devices (visible g)) = kMaxDevices"
    and "length (bs_devices out) = kServiceMaxDevices"
  shows "bs_list (fst (build_bridge_snapshot view g out)) = map view (filter shown (st_devices (visible g))) \<and>
         bs_revision (fst (build_bridge_snapshot view g out)) = st_revision (visible g) \<and>
         snd (build_bridge_snapshot view g out) = g"
proof -
  have "length (filter shown (st_devices (visible g))) \<le> kServiceMaxDevices"
    using length_filter_le[of shown "st_devices (visible g)"] assms(3) by (simp add: kMaxDevices_def kServiceMaxDevices_def)
  moreover define start where "start = out\<lparr>bs_revision := st_revision (visible g), bs_device_count := 0\<rparr>"
  ultimately have "bs_list (fill_devices view (st_devices (visible g)) start) = map view (filter shown (st_devices (visible g))) \<and>
      bs_revision (fill_devices view (st_devices (visible g)) start) = st_revision (visible g)"
    using fill_devices_list[of start "st_devices (visible g)" view] assms(4) by (simp add: start_def)
  moreover have "build_bridge_snapshot view g out = (fill_devices view (st_devices (visible g)) start, g)"
    using pin_release[OF assms(2,1), of "ref_of (reg_active g) g"]
    by (simp add: build_bridge_snapshot_def pin_current_def ref_of_def visible_def start_def Let_def)
  ultimately show ?thesis by simp
qed

text \<open>The number of readers never reaches \<open>2 ^ 32\<close>.\<close>

definition registry_ok :: "Registry \<Rightarrow> bool" where
  "registry_ok g \<longleftrightarrow> registry_shape g \<and> list_all (\<lambda>p. p \<noteq> - 1) (reg_pins g)"



lemma registry_ok_active: "registry_ok g \<Longrightarrow> registry_shape g \<and> reg_pins g ! reg_active g \<noteq> - 1"
  by (simp add: registry_ok_def registry_shape_def list_all_length)

lemma build_mqtt_snapshot_list:
  assumes "registry_ok g" "length (st_devices (visible g)) = kMaxDevices"
  shows "bs_list (fst (build_mqtt_snapshot g)) = map mqtt_device_of (filter shown (st_devices (visible g))) \<and>
         bs_revision (fst (build_mqtt_snapshot g)) = st_revision (visible g) \<and> snd (build_mqtt_snapshot g) = g"
  unfolding build_mqtt_snapshot_def using registry_ok_active[OF assms(1)] assms(2)
  by (intro build_bridge_snapshot_list) (auto simp: bridge_snapshot_default_def)

lemma build_matter_snapshot_list:
  assumes "registry_ok g" "length (st_devices (visible g)) = kMaxDevices"
  shows "bs_list (fst (build_matter_snapshot g)) = map matter_device_of (filter shown (st_devices (visible g))) \<and>
         bs_revision (fst (build_matter_snapshot g)) = st_revision (visible g) \<and> snd (build_matter_snapshot g) = g"
  unfolding build_matter_snapshot_def using registry_ok_active[OF assms(1)] assms(2)
  by (intro build_bridge_snapshot_list) (auto simp: bridge_snapshot_default_def)

lemma fill_api_devices_list:
  assumes "length out + length ds \<le> kMaxDevices"
  shows "fill_api_devices rs ids i ds out =
     out @ map (\<lambda>(i, d). api_device rs ids i d)
             (filter (\<lambda>(i, d). dr_short_addr d \<noteq> kUnknownDeviceShortAddr) (enumerate i ds))"
  using assms by (induction ds arbitrary: i out) auto

text \<open>The devices of the directory that have an address.\<close>

definition addressed :: "CoreState \<Rightarrow> CoreDeviceRecord set" where
  "addressed s = {d \<in> ran (devices_of s). dr_short_addr d \<noteq> kUnknownDeviceShortAddr}"

lemma shown_directory:
  assumes "core_inv s"
  shows "set (filter shown (st_devices s)) = addressed s"
proof -
  have "d \<in> ran (devices_of s) \<longleftrightarrow> d \<in> set (st_devices s) \<and> occupied d" for d
    using assms by (auto simp: ran_def devices_of_def core_inv_def dir.slot_map_iff in_set_conv_nth)
  moreover have "occupied d \<longleftrightarrow> dr_online d" if "d \<in> set (st_devices s)" for d
    using assms that by (cases "occupied d") (auto simp: core_inv_def list_all_iff record_ok_def device_record_default_def)
  ultimately show ?thesis by (auto simp: addressed_def shown_def)
qed

section \<open>Properties\<close>

text \<open>
  Each bridge is shown exactly the devices of the core's directory that have an address, in the order of
  the device table, each with the fields of its record, under the revision of the published state; building the
  snapshots leaves the registry as it was.
\<close>

theorem bridges_show_the_directory:
  assumes "registry_ok g" "core_inv (visible g)"
  shows "(let (mqtt, g1) = build_mqtt_snapshot g; (matter, g2) = build_matter_snapshot g1
          in g1 = g \<and> g2 = g \<and> bs_revision mqtt = st_revision (visible g) \<and> bs_revision matter = st_revision (visible g) \<and>
             bs_list mqtt = map mqtt_device_of (filter shown (st_devices (visible g))) \<and>
             bs_list matter = map matter_device_of (filter shown (st_devices (visible g))) \<and>
             set (bs_list mqtt) = mqtt_device_of ` addressed (visible g) \<and>
             set (bs_list matter) = matter_device_of ` addressed (visible g))"
proof -
  have l: "length (st_devices (visible g)) = kMaxDevices" using assms(2) by (simp add: core_inv_def)
  obtain mqtt where q: "build_mqtt_snapshot g = (mqtt, g)" "bs_revision mqtt = st_revision (visible g)"
      "bs_list mqtt = map mqtt_device_of (filter shown (st_devices (visible g)))"
    using build_mqtt_snapshot_list[OF assms(1) l] by (metis prod.collapse)
  obtain matter where m: "build_matter_snapshot g = (matter, g)" "bs_revision matter = st_revision (visible g)"
      "bs_list matter = map matter_device_of (filter shown (st_devices (visible g)))"
    using build_matter_snapshot_list[OF assms(1) l] by (metis prod.collapse)
  show ?thesis
    unfolding q(1) Let_def prod.case m(1)
    using q(2,3) m(2,3) shown_directory[OF assms(2)] by (simp only: set_map simp_thms)
qed

lemma registry_ok_publish:
  assumes "registry_ok g"
  shows "registry_ok (snd (publish s g))"
proof -
  have "reg_pins (snd (publish s g)) = reg_pins g"
    using publish_cases[of g s] publish_True(5)[of g] assms by (auto simp: registry_ok_def)
  then show ?thesis using assms publish_shape by (simp add: registry_ok_def)
qed

lemma registry_ok_init: "registry_ok registry_init"
  by (simp add: registry_ok_def registry_shape_init) (simp add: registry_init_def list_all_iff)

lemma bridges_show_the_directory_witness:
  "bs_revision (fst (build_mqtt_snapshot (snd (publish sample_state registry_init)))) =
     st_revision (visible (snd (publish sample_state registry_init)))"
proof -
  have "visible (snd (publish sample_state registry_init)) = next_state_of (visible registry_init) sample_state"
    using publish_contract[OF registry_shape_init, of sample_state]
    by (auto simp: registry_init_def kSnapshotCount_def split: if_splits intro: exI[of _ 1])
  then have "core_inv (visible (snd (publish sample_state registry_init)))"
    using sample_state_inv by (simp add: next_state_of_def)
  from bridges_show_the_directory[OF registry_ok_publish[OF registry_ok_init] this] show ?thesis
    by (simp add: case_prod_unfold Let_def)
qed

end
