(* ===== verification/OtaManifest.thy ===== *)
theory OtaManifest
  imports Prelude
begin

text \<open>
  \<^verbatim>\<open>components/service/ota_manifest.cpp\<close> and \<^verbatim>\<open>ota_trust_store.cpp\<close>: the manifest of an update, the order of the
  checks it has to pass, the comparison of dotted versions, and the text its signature covers. A character
  buffer is the string up to its terminator. The check of a signature against a public key is an argument,
  for it is done by the cryptographic library of the target.
\<close>

section \<open>Manifests\<close>

definition kOtaManifestSha256HexLen :: nat where "kOtaManifestSha256HexLen = 64"
definition kOtaManifestSigningPayloadMaxLen :: nat where "kOtaManifestSigningPayloadMaxLen = 512"

record OtaManifest =
  om_url :: string
  om_version :: string
  om_project :: string
  om_board :: string
  om_chip_target :: string
  om_sha256 :: string
  om_signature_algo :: string
  om_signature_key_id :: string
  om_signature :: string
  om_min_schema :: u32
  om_allow_downgrade :: bool

record OtaManifestContext =
  oc_current_version :: string
  oc_current_project :: string
  oc_current_board :: string
  oc_current_chip_target :: string
  oc_current_schema :: u32

definition ota_manifest_default :: OtaManifest where
  "ota_manifest_default =
     \<lparr>om_url = [], om_version = [], om_project = [], om_board = [], om_chip_target = [], om_sha256 = [],
      om_signature_algo = [], om_signature_key_id = [], om_signature = [], om_min_schema = 0,
      om_allow_downgrade = False\<rparr>"

datatype OtaManifestValidationStatus =
  kManifestOk | kInvalidUrl | kInvalidSha256 | kProjectMismatch | kBoardMismatch | kChipTargetMismatch |
  kSchemaTooNew | kDowngradeRejected | kMissingSignature | kInvalidSignature

section \<open>Text\<close>

definition has_prefix :: "string \<Rightarrow> string \<Rightarrow> bool" where
  "has_prefix value prefix \<longleftrightarrow> take (length prefix) value = prefix"

definition copy_if_empty :: "string \<Rightarrow> string \<Rightarrow> string" where
  "copy_if_empty source target = (if target \<noteq> [] then target else source)"

text \<open>\<^verbatim>\<open>isdigit\<close> and \<^verbatim>\<open>isxdigit\<close> of the C locale.\<close>

definition isdigit :: "char \<Rightarrow> bool" where
  "isdigit c \<longleftrightarrow> (48::nat) \<le> of_char c \<and> (of_char c :: nat) \<le> 57"

definition isxdigit :: "char \<Rightarrow> bool" where
  "isxdigit c \<longleftrightarrow> isdigit c \<or> (65::nat) \<le> of_char c \<and> (of_char c :: nat) \<le> 70 \<or>
     (97::nat) \<le> of_char c \<and> (of_char c :: nat) \<le> 102"

definition is_valid_sha256_hex :: "string \<Rightarrow> bool" where
  "is_valid_sha256_hex value \<longleftrightarrow> value = [] \<or> length value = kOtaManifestSha256HexLen \<and> list_all isxdigit value"

definition has_any_signature_material :: "OtaManifest \<Rightarrow> bool" where
  "has_any_signature_material m \<longleftrightarrow> om_signature_algo m \<noteq> [] \<or> om_signature_key_id m \<noteq> [] \<or> om_signature m \<noteq> []"

definition has_complete_signature_material :: "OtaManifest \<Rightarrow> bool" where
  "has_complete_signature_material m \<longleftrightarrow> om_signature_algo m \<noteq> [] \<and> om_signature_key_id m \<noteq> [] \<and> om_signature m \<noteq> []"

section \<open>Versions\<close>

definition digit_value :: "char \<Rightarrow> u32" where
  "digit_value c = of_nat (of_char c - 48)"

text \<open>The inner loop: the digits up to a dot or the end.\<close>

fun parse_part :: "u32 \<Rightarrow> string \<Rightarrow> (u32 \<times> string) option" where
  "parse_part part [] = Some (part, [])"
| "parse_part part (c # cursor) =
     (if c = CHR ''.'' then Some (part, c # cursor)
      else if \<not> isdigit c then None
      else parse_part (part * 10 + digit_value c) cursor)"

lemma parse_part_rest: "parse_part part cursor = Some (p, rest) \<Longrightarrow> length rest \<le> length cursor"
  by (induction part cursor rule: parse_part.induct) (auto split: if_splits)

lemma parse_part_first: "parse_part part (c # cursor) = Some (p, rest) \<Longrightarrow> isdigit c \<Longrightarrow> length rest \<le> length cursor"
  by (auto simp: isdigit_def dest: parse_part_rest split: if_splits)

text \<open>The outer loop, with the parts found so far; \<open>None\<close> when the text is refused.\<close>

function parse_parts :: "nat \<Rightarrow> u32 list \<Rightarrow> string \<Rightarrow> u32 list option" where
  "parse_parts part_capacity parts [] = Some parts"
| "parse_parts part_capacity parts (c # cursor) =
     (if length parts \<ge> part_capacity then None
      else if \<not> isdigit c then None
      else (case parse_part 0 (c # cursor) of
              None \<Rightarrow> None
            | Some (part, []) \<Rightarrow> parse_parts part_capacity (parts @ [part]) []
            | Some (part, d # rest) \<Rightarrow> if rest = [] then None else parse_parts part_capacity (parts @ [part]) rest))"
  by pat_completeness auto
termination
  by (relation "measure (\<lambda>(n, ps, cursor). length cursor)") (auto simp del: parse_part.simps dest!: parse_part_first)

definition parse_dotted_numeric_version :: "nat \<Rightarrow> string \<Rightarrow> u32 list option" where
  "parse_dotted_numeric_version part_capacity value =
     (if part_capacity = 0 \<or> value = [] then None
      else case parse_parts part_capacity [] value of
             None \<Rightarrow> None
           | Some parts \<Rightarrow> if parts \<noteq> [] then Some parts else None)"

text \<open>The comparison loop, over the indices still to look at.\<close>

definition part_at :: "u32 list \<Rightarrow> nat \<Rightarrow> u32" where
  "part_at parts i = (if i < length parts then parts ! i else 0)"

fun older_parts :: "nat list \<Rightarrow> u32 list \<Rightarrow> u32 list \<Rightarrow> bool" where
  "older_parts [] lhs rhs = False"
| "older_parts (i # is) lhs rhs =
     (if part_at lhs i < part_at rhs i then True
      else if part_at lhs i > part_at rhs i then False
      else older_parts is lhs rhs)"

definition is_downgrade :: "string \<Rightarrow> string \<Rightarrow> bool" where
  "is_downgrade requested current =
     (case (parse_dotted_numeric_version 4 requested, parse_dotted_numeric_version 4 current) of
        (Some r, Some c) \<Rightarrow> older_parts [0..<max (length r) (length c)] r c
      | _ \<Rightarrow> False)"

section \<open>Signatures\<close>

fun decimal :: "nat \<Rightarrow> string" where
  "decimal n = (if n < 10 then [char_of (48 + n)] else decimal (n div 10) @ [char_of (48 + n mod 10)])"

declare decimal.simps [simp del]

abbreviation newline :: char where "newline \<equiv> CHR 0x0A"

definition signing_text :: "OtaManifest \<Rightarrow> string" where
  "signing_text m =
     ''version='' @ om_version m @ [newline] @
     ''url='' @ om_url m @ [newline] @
     ''sha256='' @ om_sha256 m @ [newline] @
     ''project='' @ om_project m @ [newline] @
     ''board='' @ om_board m @ [newline] @
     ''chip_target='' @ om_chip_target m @ [newline] @
     ''min_schema='' @ decimal (unat (om_min_schema m)) @ [newline] @
     ''allow_downgrade='' @ (if om_allow_downgrade m then ''true'' else ''false'') @ [newline]"

definition build_ota_manifest_signing_payload :: "OtaManifest \<Rightarrow> nat \<Rightarrow> string option" where
  "build_ota_manifest_signing_payload m out_capacity =
     (if out_capacity = 0 then None
      else if 0 < length (signing_text m) \<and> length (signing_text m) < out_capacity then Some (signing_text m)
      else None)"

text \<open>The trust store of the host build; the target keeps the two keys in the image.\<close>

definition kManifestPublicKeyV1Pem :: string where
  "kManifestPublicKeyV1Pem = ''-----BEGIN PUBLIC KEY-----'' @ [newline] @ ''ota-release-v1-test-key'' @ [newline] @
     ''-----END PUBLIC KEY-----'' @ [newline]"

definition kManifestPublicKeyV2Pem :: string where
  "kManifestPublicKeyV2Pem = ''-----BEGIN PUBLIC KEY-----'' @ [newline] @ ''ota-release-v2-test-key'' @ [newline] @
     ''-----END PUBLIC KEY-----'' @ [newline]"

definition find_ota_manifest_public_key_pem :: "string \<Rightarrow> string option" where
  "find_ota_manifest_public_key_pem signature_key_id =
     (if signature_key_id = [] then None
      else if signature_key_id = ''ota-release-v1'' then Some kManifestPublicKeyV1Pem
      else if signature_key_id = ''ota-release-v2'' then Some kManifestPublicKeyV2Pem
      else None)"

text \<open>\<open>verify payload algo pem signature\<close> is \<^verbatim>\<open>hal_ota_verify_manifest_signature\<close>.\<close>

type_synonym verifier = "string \<Rightarrow> string \<Rightarrow> string \<Rightarrow> string \<Rightarrow> bool"

definition verify_ota_manifest_signature :: "verifier \<Rightarrow> OtaManifest \<Rightarrow> bool" where
  "verify_ota_manifest_signature verify m =
     (case find_ota_manifest_public_key_pem (om_signature_key_id m) of
        None \<Rightarrow> False
      | Some pem \<Rightarrow>
          (case build_ota_manifest_signing_payload m kOtaManifestSigningPayloadMaxLen of
             None \<Rightarrow> False
           | Some payload \<Rightarrow> verify payload (om_signature_algo m) pem (om_signature m)))"

section \<open>Validation\<close>

definition apply_ota_manifest_defaults :: "OtaManifestContext \<Rightarrow> OtaManifest \<Rightarrow> OtaManifest" where
  "apply_ota_manifest_defaults c m =
     m\<lparr>om_project := copy_if_empty (oc_current_project c) (om_project m),
       om_board := copy_if_empty (oc_current_board c) (om_board m),
       om_chip_target := copy_if_empty (oc_current_chip_target c) (om_chip_target m),
       om_min_schema := (if om_min_schema m = 0 then oc_current_schema c else om_min_schema m)\<rparr>"

text \<open>\<open>allow_http\<close> is the build option that lets plain HTTP through for tests.\<close>

definition validate_ota_manifest ::
  "bool \<Rightarrow> verifier \<Rightarrow> OtaManifest \<Rightarrow> OtaManifestContext \<Rightarrow> OtaManifestValidationStatus" where
  "validate_ota_manifest allow_http verify m c =
     (if om_url m = [] then kInvalidUrl
      else if \<not> has_prefix (om_url m) ''https://'' \<and> \<not> (allow_http \<and> has_prefix (om_url m) ''http://'') then kInvalidUrl
      else if \<not> is_valid_sha256_hex (om_sha256 m) then kInvalidSha256
      else if om_project m \<noteq> [] \<and> om_project m \<noteq> oc_current_project c then kProjectMismatch
      else if om_board m \<noteq> [] \<and> om_board m \<noteq> oc_current_board c then kBoardMismatch
      else if om_chip_target m \<noteq> [] \<and> om_chip_target m \<noteq> oc_current_chip_target c then kChipTargetMismatch
      else if oc_current_schema c \<noteq> 0 \<and> om_min_schema m > oc_current_schema c then kSchemaTooNew
      else if \<not> om_allow_downgrade m \<and> om_version m \<noteq> [] \<and> oc_current_version c \<noteq> [] \<and>
              is_downgrade (om_version m) (oc_current_version c) then kDowngradeRejected
      else if has_any_signature_material m then
        if \<not> has_complete_signature_material m then kMissingSignature
        else if \<not> verify_ota_manifest_signature verify m then kInvalidSignature
        else kManifestOk
      else kManifestOk)"


section \<open>The order of versions\<close>

text \<open>The usual text of a version, and versions with the missing parts as zero.\<close>

fun version_text :: "nat list \<Rightarrow> string" where
  "version_text [] = []"
| "version_text [n] = decimal n"
| "version_text (n # m # ns) = decimal n @ CHR ''.'' # version_text (m # ns)"

definition padded :: "nat list \<Rightarrow> nat list" where
  "padded ns = map (\<lambda>n. n mod 2 ^ 32) ns @ replicate (4 - length ns) 0"

lemma isdigit_char_of: "n < (10::nat) \<Longrightarrow> isdigit (char_of (48 + n))"
  by (simp add: isdigit_def)

lemma digit_value_char_of: "n < (10::nat) \<Longrightarrow> digit_value (char_of (48 + n)) = of_nat n"
  by (simp add: digit_value_def)

lemma char_of_not: "n < (10::nat) \<Longrightarrow> char_of (48 + n) \<noteq> CHR ''.''" "n < (10::nat) \<Longrightarrow> char_of (48 + n) \<noteq> newline"
proof -
  assume n: "n < 10"
  then have d: "isdigit (char_of (48 + n))" by (rule isdigit_char_of)
  show "char_of (48 + n) \<noteq> CHR ''.''" using d by (auto simp: isdigit_def simp del: of_char_of)
  show "char_of (48 + n) \<noteq> newline" using d by (auto simp: isdigit_def simp del: of_char_of)
qed

lemma decimal_first: "\<exists>c cs. decimal n = c # cs \<and> isdigit c"
proof (induction n rule: decimal.induct)
  case (1 n)
  show ?case
  proof (cases "n < 10")
    case True
    then show ?thesis by (simp add: decimal.simps[of n] isdigit_char_of)
  next
    case False
    then show ?thesis using 1 by (auto simp: decimal.simps[of n])
  qed
qed

lemma decimal_chars: "c \<in> set (decimal n) \<Longrightarrow> c \<noteq> newline"
proof (induction n rule: decimal.induct)
  case (1 n)
  show ?case
  proof (cases "n < 10")
    case True
    then show ?thesis using 1(2) char_of_not(2)[of n] by (simp add: decimal.simps[of n])
  next
    case False
    then show ?thesis using 1 char_of_not(2)[of "n mod 10"] by (auto simp: decimal.simps[of n])
  qed
qed

text \<open>Reading a decimal multiplies what was read before by a power of ten.\<close>

lemma parse_part_decimal:
  "parse_part part (decimal n @ rest) = parse_part (part * 10 ^ length (decimal n) + of_nat n) rest"
proof (induction n arbitrary: part rest rule: decimal.induct)
  case (1 n)
  show ?case
  proof (cases "n < 10")
    case True
    then show ?thesis
      by (simp add: decimal.simps[of n] isdigit_char_of digit_value_char_of char_of_not)
  next
    case False
    let ?d = "char_of (48 + n mod 10) :: char"
    have d: "isdigit ?d" "?d \<noteq> CHR ''.''" "digit_value ?d = of_nat (n mod 10)"
      using isdigit_char_of[of "n mod 10"] char_of_not(1)[of "n mod 10"] digit_value_char_of[of "n mod 10"] by simp_all
    have n: "(of_nat n :: u32) = of_nat (n div 10) * 10 + of_nat (n mod 10)"
      by (metis div_mult_mod_eq of_nat_add of_nat_mult of_nat_numeral)
    have "parse_part part (decimal n @ rest) = parse_part part (decimal (n div 10) @ ?d # rest)"
      using False by (simp add: decimal.simps[of n])
    also have "\<dots> = parse_part ((part * 10 ^ length (decimal (n div 10)) + of_nat (n div 10)) * 10 + of_nat (n mod 10)) rest"
      using 1[OF False] d by simp
    also have "\<dots> = parse_part (part * 10 ^ length (decimal n) + of_nat n) rest"
      using False by (simp add: decimal.simps[of n] n algebra_simps)
    finally show ?thesis .
  qed
qed

lemma parse_parts_version:
  "ns \<noteq> [] \<Longrightarrow> length ps + length ns \<le> k \<Longrightarrow> parse_parts k ps (version_text ns) = Some (ps @ map of_nat ns)"
proof (induction ns arbitrary: ps rule: version_text.induct)
  case (2 n)
  obtain c cs where c: "decimal n = c # cs" "isdigit c" using decimal_first by blast
  have "parse_part 0 (c # cs) = Some (of_nat n, [])" using parse_part_decimal[of 0 n "[]"] c by simp
  then show ?case using 2 c by (simp del: parse_part.simps)
next
  case (3 n m ns)
  obtain c cs where c: "decimal n = c # cs" "isdigit c" using decimal_first by blast
  have "parse_part 0 (c # cs @ CHR ''.'' # version_text (m # ns)) = Some (of_nat n, CHR ''.'' # version_text (m # ns))"
    using parse_part_decimal[of 0 n "CHR ''.'' # version_text (m # ns)"] c by simp
  moreover have "version_text (m # ns) \<noteq> []" using decimal_first[of m] by (cases ns) auto
  ultimately show ?case using 3 c by (simp del: parse_part.simps)
qed simp

lemma parse_version:
  "ns \<noteq> [] \<Longrightarrow> length ns \<le> 4 \<Longrightarrow> parse_dotted_numeric_version 4 (version_text ns) = Some (map of_nat ns)"
proof -
  assume ns: "ns \<noteq> []" "length ns \<le> 4"
  have "version_text ns \<noteq> []"
    using ns(1) decimal_first[of "hd ns"] by (cases ns rule: version_text.cases) auto
  then show ?thesis using parse_parts_version[of ns "[]" 4] ns by (simp add: parse_dotted_numeric_version_def)
qed

lemma older_parts_lexord:
  "older_parts is lhs rhs \<longleftrightarrow>
     (map (\<lambda>i. unat (part_at lhs i)) is, map (\<lambda>i. unat (part_at rhs i)) is) \<in> lexord {(a, b). a < b}"
  by (induction "is" lhs rhs rule: older_parts.induct) (auto simp: word_less_nat_alt)

lemma older_parts_longer:
  assumes "length lhs \<le> n" "length rhs \<le> n" "n \<le> k"
  shows "older_parts [0..<k] lhs rhs = older_parts [0..<n] lhs rhs"
proof -
  have tail: "older_parts (is @ js) lhs rhs = older_parts is lhs rhs" if "\<forall>j\<in>set js. n \<le> j" for "is" js
    using that
  proof (induction "is")
    case Nil
    then show ?case using assms(1,2) by (induction js) (auto simp: part_at_def)
  qed simp
  have "[0..<k] = [0..<n] @ [n..<k]" using assms(3) by (metis le0 upt_add_eq_append le_add_diff_inverse)
  then show ?thesis using tail[of "[n..<k]" "[0..<n]"] by simp
qed

lemma padded_parts:
  assumes "length ns \<le> 4"
  shows "map (\<lambda>i. unat (part_at (map of_nat ns) i)) [0..<4] = padded ns"
  using assms by (intro nth_equalityI) (auto simp: padded_def part_at_def nth_append unat_of_nat)

lemma downgrade_aux:
  assumes "ns \<noteq> []" "length ns \<le> 4" "ms \<noteq> []" "length ms \<le> 4"
  shows "is_downgrade (version_text ns) (version_text ms) \<longleftrightarrow> (padded ns, padded ms) \<in> lexord {(a, b). a < b}"
proof -
  have "is_downgrade (version_text ns) (version_text ms) = older_parts [0..<4] (map of_nat ns) (map of_nat ms)"
    using assms older_parts_longer[of "map of_nat ns" "max (length ns) (length ms)" "map of_nat ms" 4]
    by (simp add: is_downgrade_def parse_version)
  then show ?thesis using assms by (simp only: older_parts_lexord padded_parts)
qed


text \<open>
  C30: For versions of one to four numbers, a requested version is a downgrade exactly when, read modulo \<open>2 ^ 32\<close>
  and with the missing numbers as zero, it comes before the current one in the order that compares the
  first different number. So a version is never a downgrade of itself, the comparison is strict, and \<open>1.2\<close>
  and \<open>1.2.0\<close> are the same.
\<close>

theorem downgrade_is_the_order_of_versions:
  assumes "ns \<noteq> []" "length ns \<le> 4" "ms \<noteq> []" "length ms \<le> 4"
  shows "is_downgrade (version_text ns) (version_text ms) \<longleftrightarrow> (padded ns, padded ms) \<in> lexord {(a, b). a < b}"
  using assms by (rule downgrade_aux)

lemma downgrade_is_the_order_of_versions_witness:
  "is_downgrade ''1.9'' ''1.10.1'' \<and> \<not> is_downgrade ''1.2'' ''1.2.0'' \<and> is_downgrade ''4294967296'' ''1''"
proof -
  have zeros: "replicate 2 (0::nat) = [0, 0]" "replicate 3 (0::nat) = [0, 0, 0]"
    by (simp_all add: numeral_2_eq_2 numeral_3_eq_3)
  have texts: "version_text [1, 9] = ''1.9''" "version_text [1, 10, 1] = ''1.10.1''" "version_text [1, 2] = ''1.2''"
    "version_text [1, 2, 0] = ''1.2.0''" "version_text [4294967296] = ''4294967296''" "version_text [1] = ''1''"
    by (simp_all add: decimal.simps char_of_def bit_0)
  show ?thesis
    using downgrade_is_the_order_of_versions[of "[1, 9]" "[1, 10, 1]"]
      downgrade_is_the_order_of_versions[of "[1, 2]" "[1, 2, 0]"]
      downgrade_is_the_order_of_versions[of "[4294967296]" "[1]"]
    unfolding texts by (simp add: padded_def zeros)
qed

section \<open>What a signature covers\<close>

text \<open>The fields of the signed text, and manifests whose fields are lines.\<close>

definition signed_fields :: "OtaManifest \<Rightarrow> string list \<times> u32 \<times> bool" where
  "signed_fields m =
     ([om_version m, om_url m, om_sha256 m, om_project m, om_board m, om_chip_target m],
      om_min_schema m, om_allow_downgrade m)"

definition fields_are_lines :: "OtaManifest \<Rightarrow> bool" where
  "fields_are_lines m \<longleftrightarrow> list_all (\<lambda>x. newline \<notin> set x) (fst (signed_fields m))"

text \<open>The text as lines; different lists of lines give different texts.\<close>

definition signing_lines :: "OtaManifest \<Rightarrow> string list" where
  "signing_lines m =
     [''version='' @ om_version m, ''url='' @ om_url m, ''sha256='' @ om_sha256 m, ''project='' @ om_project m,
      ''board='' @ om_board m, ''chip_target='' @ om_chip_target m, ''min_schema='' @ decimal (unat (om_min_schema m)),
      ''allow_downgrade='' @ (if om_allow_downgrade m then ''true'' else ''false'')]"

definition unlines :: "string list \<Rightarrow> string" where
  "unlines ls = concat (map (\<lambda>l. l @ [newline]) ls)"

lemma signing_text_lines: "signing_text m = unlines (signing_lines m)"
  by (simp add: signing_text_def signing_lines_def unlines_def)

lemma first_line: "newline \<notin> set x \<Longrightarrow> takeWhile (\<lambda>c. c \<noteq> newline) (x @ newline # rest) = x"
  by (induction x) auto

lemma unlines_inj:
  assumes "unlines xs = unlines ys" "\<forall>x\<in>set xs. newline \<notin> set x" "\<forall>y\<in>set ys. newline \<notin> set y"
  shows "xs = ys"
  using assms
proof (induction xs arbitrary: ys)
  case Nil
  then show ?case by (cases ys) (simp_all add: unlines_def)
next
  case (Cons x xs)
  obtain y ys' where ys: "ys = y # ys'" using Cons(2) by (cases ys) (simp_all add: unlines_def)
  have eq: "x @ newline # unlines xs = y @ newline # unlines ys'"
    using Cons(2) by (simp add: ys unlines_def)
  have "x = y" using first_line[of x "unlines xs"] first_line[of y "unlines ys'"] Cons(3,4) ys eq by simp
  then show ?case using eq Cons ys by simp
qed

lemma count_decimal: "count_list (decimal n) newline = 0"
  using decimal_chars[of newline n] by (auto simp: count_list_0_iff)

lemma count_unlines: "count_list (unlines ls) newline = length ls + sum_list (map (\<lambda>l. count_list l newline) ls)"
  by (induction ls) (simp_all add: unlines_def)

lemma fields_are_lines_iff: "fields_are_lines m \<longleftrightarrow> (\<forall>l\<in>set (signing_lines m). newline \<notin> set l)"
  using decimal_chars[of newline] by (auto simp: fields_are_lines_def signed_fields_def signing_lines_def)

lemma lines_count: "fields_are_lines m \<longleftrightarrow> count_list (signing_text m) newline = 8"
  unfolding fields_are_lines_iff signing_text_lines count_unlines
  by (auto simp: count_list_0_iff signing_lines_def sum_list_eq_0_iff)

lemma decimal_word_inj:
  fixes x y :: u32
  assumes "decimal (unat x) = decimal (unat y)"
  shows "x = y"
proof -
  have num: "parse_part 0 (decimal (unat z)) = Some (z, [])" for z :: u32
    using parse_part_decimal[of 0 "unat z" "[]"] by (simp del: decimal.simps)
  have "Some (x, [] :: string) = Some (y, [])" using num[of x] num[of y] unfolding assms by (rule box_equals[OF refl])
  then show ?thesis by simp
qed

lemma signing_text_inj:
  assumes "fields_are_lines m" "signing_text m' = signing_text m"
  shows "signed_fields m' = signed_fields m"
proof -
  have "fields_are_lines m'" using assms by (simp add: lines_count)
  then have "signing_lines m' = signing_lines m"
    using assms by (intro unlines_inj) (simp_all add: signing_text_lines fields_are_lines_iff)
  then show ?thesis
    by (auto simp: signing_lines_def signed_fields_def dest: decimal_word_inj split: if_splits)
qed


lemma validate_ok_cases:
  assumes "validate_ota_manifest allow_http verify m c = kManifestOk"
  shows "om_allow_downgrade m \<or> \<not> is_downgrade (om_version m) (oc_current_version c)"
    and "has_any_signature_material m \<Longrightarrow> verify_ota_manifest_signature verify m"
  using assms by (auto simp: validate_ota_manifest_def is_downgrade_def parse_dotted_numeric_version_def
      split: if_splits option.splits)

text \<open>
  C29: When the holders of the two trusted keys only sign the texts of released manifests, whose fields are single
  lines, a signed manifest that is accepted agrees with a released one in every signed field: version,
  address, digest, project, board, chip, schema and the permission to go back. And it goes back to an older
  version only if the released manifest permits it.
\<close>

theorem accepted_signature_binds_the_manifest:
  assumes "\<And>payload algo pem signature. verify payload algo pem signature \<Longrightarrow>
      pem \<in> {kManifestPublicKeyV1Pem, kManifestPublicKeyV2Pem} \<Longrightarrow>
      \<exists>p\<in>released. fields_are_lines p \<and> payload = signing_text p"
    and "validate_ota_manifest allow_http verify m c = kManifestOk" "has_any_signature_material m"
  shows "\<exists>p\<in>released. signed_fields m = signed_fields p \<and>
      (om_allow_downgrade p \<or> \<not> is_downgrade (om_version p) (oc_current_version c))"
proof -
  obtain pem where pem: "find_ota_manifest_public_key_pem (om_signature_key_id m) = Some pem"
    and verified: "verify (signing_text m) (om_signature_algo m) pem (om_signature m)"
    using validate_ok_cases(2)[OF assms(2,3)]
    by (auto simp: verify_ota_manifest_signature_def build_ota_manifest_signing_payload_def split: option.splits if_splits)
  have "pem \<in> {kManifestPublicKeyV1Pem, kManifestPublicKeyV2Pem}"
    using pem by (auto simp: find_ota_manifest_public_key_pem_def split: if_splits)
  then obtain p where p: "p \<in> released" "fields_are_lines p" "signing_text m = signing_text p"
    using assms(1)[OF verified] by blast
  have same: "signed_fields m = signed_fields p" using signing_text_inj[OF p(2,3)] .
  then have "om_allow_downgrade p = om_allow_downgrade m" "om_version p = om_version m"
    by (simp_all add: signed_fields_def)
  then show ?thesis using p(1) same validate_ok_cases(1)[OF assms(2)] by auto
qed

definition released_manifest :: OtaManifest where
  "released_manifest = ota_manifest_default
     \<lparr>om_url := ''https://host/image.bin'', om_version := ''1.2.0'', om_project := ''gateway'', om_min_schema := 3,
      om_signature_algo := ''ecdsa'', om_signature_key_id := ''ota-release-v1'', om_signature := ''00ff''\<rparr>"

definition running_context :: OtaManifestContext where
  "running_context = \<lparr>oc_current_version = ''1.1'', oc_current_project = ''gateway'', oc_current_board = ''board'',
     oc_current_chip_target = ''chip'', oc_current_schema = 3\<rparr>"

definition release_verifier :: verifier where
  "release_verifier payload algo pem signature \<longleftrightarrow> signature = ''00ff'' \<and> payload = signing_text released_manifest"

lemma accepted_signature_binds_the_manifest_witness:
  "validate_ota_manifest False release_verifier released_manifest running_context = kManifestOk \<and>
   (\<exists>p\<in>{released_manifest}. signed_fields released_manifest = signed_fields p \<and>
      (om_allow_downgrade p \<or> \<not> is_downgrade (om_version p) (oc_current_version running_context)))"
proof -
  have ok: "validate_ota_manifest False release_verifier released_manifest running_context = kManifestOk"
    by code_simp
  have signed: "has_any_signature_material released_manifest" by code_simp
  have fields: "fields_are_lines released_manifest" by code_simp
  show ?thesis
    using ok accepted_signature_binds_the_manifest[OF _ ok signed, of "{released_manifest}"] fields
    by (simp add: release_verifier_def)
qed

text \<open>The same manifest without its signature.\<close>

definition without_signature :: "OtaManifest \<Rightarrow> OtaManifest" where
  "without_signature m = m\<lparr>om_signature_algo := [], om_signature_key_id := [], om_signature := []\<rparr>"

lemma without_signature_fields:
  "om_url (without_signature m) = om_url m" "om_sha256 (without_signature m) = om_sha256 m"
  "om_project (without_signature m) = om_project m" "om_board (without_signature m) = om_board m"
  "om_chip_target (without_signature m) = om_chip_target m" "om_min_schema (without_signature m) = om_min_schema m"
  "om_allow_downgrade (without_signature m) = om_allow_downgrade m" "om_version (without_signature m) = om_version m"
  "has_any_signature_material (without_signature m) = False"
  by (simp_all add: without_signature_def has_any_signature_material_def)

text \<open>The chain of checks, with the conditions as variables.\<close>

lemma checks_before_signature:
  assumes "(if a then kInvalidUrl else if b then kInvalidUrl else if c then kInvalidSha256 else if d then kProjectMismatch
      else if e then kBoardMismatch else if f then kChipTargetMismatch else if g then kSchemaTooNew
      else if h then kDowngradeRejected else r) \<in> {kManifestOk, kMissingSignature, kInvalidSignature}"
  shows "(if a then kInvalidUrl else if b then kInvalidUrl else if c then kInvalidSha256 else if d then kProjectMismatch
      else if e then kBoardMismatch else if f then kChipTargetMismatch else if g then kSchemaTooNew
      else if h then kDowngradeRejected else kManifestOk) = kManifestOk"
  using assms by (simp split: if_splits)

text \<open>
  C31: The signature is optional: whatever manifest is refused for a missing part of the signature or for a wrong one
  is accepted once its three signature fields are empty, and so is every manifest that is accepted with one.
\<close>

theorem stripped_signature_is_accepted:
  assumes "validate_ota_manifest allow_http verify m c \<in> {kManifestOk, kMissingSignature, kInvalidSignature}"
  shows "validate_ota_manifest allow_http verify (without_signature m) c = kManifestOk"
  using checks_before_signature[OF assms[unfolded validate_ota_manifest_def]]
  unfolding validate_ota_manifest_def without_signature_fields if_False .

lemma stripped_signature_is_accepted_witness:
  "validate_ota_manifest False release_verifier (released_manifest\<lparr>om_signature := ''11''\<rparr>) running_context =
     kInvalidSignature \<and>
   validate_ota_manifest False release_verifier (without_signature (released_manifest\<lparr>om_signature := ''11''\<rparr>))
     running_context = kManifestOk"
proof -
  have refused: "validate_ota_manifest False release_verifier (released_manifest\<lparr>om_signature := ''11''\<rparr>)
      running_context = kInvalidSignature"
    by code_simp
  then show ?thesis
    using stripped_signature_is_accepted[of False release_verifier "released_manifest\<lparr>om_signature := ''11''\<rparr>"
        running_context] by simp
qed

end
