(* ===== verification/UpdateState.thy ===== *)
theory UpdateState
  imports NetworkPosts OtaManifest
begin

text \<open>
  The state of the two update managers of \<^verbatim>\<open>components/service\<close> (firmware over the air, co-processor), the
  drivers they call, and the build options that choose between their branches. It holds the state of
  the network side, whose result store and configuration the managers share.
\<close>

section \<open>Build options and drivers\<close>

text \<open>The options of the build, and \<open>bo_esp\<close> for a build for the target.\<close>

record BuildOptions =
  bo_esp :: bool
  bo_allow_http :: bool
  bo_trust_cert_bundle :: bool
  bo_trust_pinned_ca :: bool
  bo_auto_reboot :: bool
  bo_reboot_delay_ms :: u32
  bo_chip_target :: string
  bo_root_ca_pem :: string

definition kProjectName :: string where "kProjectName = ''zigbee_gateway''"
definition kVersion :: string where "kVersion = ''0.1.0''"
definition kBoardId :: string where "kBoardId = ''zigbee-gateway-esp32c6''"

datatype hal_tls_trust_mode = HAL_TLS_TRUST_NONE | HAL_TLS_TRUST_CERT_BUNDLE | HAL_TLS_TRUST_PINNED_CA

record hal_ota_https_request =
  hq_url :: string
  hq_expected_version :: "string option"
  hq_expected_project_name :: "string option"
  hq_timeout_ms :: u32
  hq_allow_plain_http :: bool
  hq_tls_trust_mode :: hal_tls_trust_mode
  hq_trusted_root_ca_pem :: "string option"

datatype hal_ota_https_status =
  HAL_OTA_HTTPS_STATUS_OK | HAL_OTA_HTTPS_STATUS_INVALID_ARGUMENT | HAL_OTA_HTTPS_STATUS_DOWNLOAD_FAILED |
  HAL_OTA_HTTPS_STATUS_VERIFY_FAILED | HAL_OTA_HTTPS_STATUS_APPLY_FAILED | HAL_OTA_HTTPS_STATUS_INTERNAL_ERROR

text \<open>What the transport reports of a failure.\<close>

record TransportDiag =
  td_last_esp_err :: u32
  td_last_tls_error :: u32
  td_tls_error_code :: u32
  td_tls_flags :: u32
  td_socket_errno :: u32
  td_http_status_code :: u32
  td_failure_stage :: u8

definition transport_diag_default :: TransportDiag where
  "transport_diag_default = \<lparr>td_last_esp_err = 0, td_last_tls_error = 0, td_tls_error_code = 0, td_tls_flags = 0,
     td_socket_errno = 0, td_http_status_code = 0, td_failure_stage = 0\<rparr>"

record hal_ota_https_result =
  hr_status :: hal_ota_https_status
  hr_reboot_required :: bool
  hr_bytes_read :: u32
  hr_image_size :: u32
  hr_image_size_known :: bool
  hr_diag :: TransportDiag
  hr_discovered_version :: string

record hal_rcp_https_request =
  hp_url :: string
  hp_expected_sha256_hex :: "string option"
  hp_expected_version :: "string option"
  hp_timeout_ms :: u32
  hp_allow_plain_http :: bool
  hp_tls_trust_mode :: hal_tls_trust_mode
  hp_trusted_root_ca_pem :: "string option"

datatype hal_rcp_https_status =
  HAL_RCP_HTTPS_STATUS_OK | HAL_RCP_HTTPS_STATUS_INVALID_ARGUMENT | HAL_RCP_HTTPS_STATUS_TRANSPORT_FAILED |
  HAL_RCP_HTTPS_STATUS_VERIFY_FAILED | HAL_RCP_HTTPS_STATUS_APPLY_FAILED | HAL_RCP_HTTPS_STATUS_PROBE_FAILED |
  HAL_RCP_HTTPS_STATUS_RECOVERY_FAILED | HAL_RCP_HTTPS_STATUS_INTERNAL_ERROR

record hal_rcp_https_result =
  hs_status :: hal_rcp_https_status
  hs_bytes_read :: u32
  hs_discovered_version :: string

text \<open>
  A transfer gives the progress it reported through the callback, in order, its return code and its result.
  A Boolean answer says whether the status was OK.
\<close>

record 'h UpdateHal =
  hal_nvs_set_u32 :: "string \<Rightarrow> u32 \<Rightarrow> 'h \<Rightarrow> bool \<times> 'h"
  hal_nvs_get_u32 :: "string \<Rightarrow> 'h \<Rightarrow> u32 option \<times> 'h"
  hal_ota_get_running_version :: "nat \<Rightarrow> 'h \<Rightarrow> string \<times> 'h"
  hal_ota_verify_manifest_signature :: verifier
  hal_ota_perform_https_update ::
    "hal_ota_https_request \<Rightarrow> 'h \<Rightarrow> ((u32 \<times> u32 \<times> bool) list \<times> int \<times> hal_ota_https_result) \<times> 'h"
  hal_ota_schedule_restart :: "u32 \<Rightarrow> 'h \<Rightarrow> 'h"
  start_ota_worker :: "'h \<Rightarrow> bool \<times> 'h"
  hal_mqtt_is_enabled :: "'h \<Rightarrow> bool \<times> 'h"
  hal_mqtt_stop :: "'h \<Rightarrow> bool \<times> 'h"
  hal_mqtt_start :: "'h \<Rightarrow> bool \<times> 'h"
  hal_mqtt_release_resources :: "'h \<Rightarrow> bool \<times> 'h"
  hal_mqtt_restore_resources :: "'h \<Rightarrow> bool \<times> 'h"
  hal_rcp_backend_available :: "'h \<Rightarrow> bool \<times> 'h"
  hal_rcp_get_backend_name :: "nat \<Rightarrow> 'h \<Rightarrow> string option \<times> 'h"
  hal_rcp_get_running_version :: "nat \<Rightarrow> 'h \<Rightarrow> string option \<times> 'h"
  hal_rcp_perform_https_update :: "hal_rcp_https_request \<Rightarrow> 'h \<Rightarrow> (int \<times> hal_rcp_https_result) \<times> 'h"

section \<open>Firmware update\<close>

datatype OtaStage = kOtaIdle | kOtaStageQueued | kOtaStageDownloading | kSwitchPending | kRebootPending | kOtaFailed

datatype OtaSubmitStatus =
  kOtaAccepted | kOtaBusy | kOtaInvalidRequest | kOtaInvalidManifest | kOtaProjectMismatch | kOtaBoardMismatch |
  kOtaChipTargetMismatch | kOtaSchemaMismatch | kOtaDowngradeRejected | kOtaMissingSignature | kOtaInvalidSignature

datatype OtaOperationStatus =
  kOtaOk | kOtaInvalidArgument | kOtaNoCapacity | kOtaDownloadFailed | kOtaVerifyFailed | kOtaApplyFailed |
  kOtaInternalError | kOpManifestInvalid | kOpProjectMismatch | kOpBoardMismatch | kOpChipTargetMismatch |
  kOpSchemaMismatch | kOpDowngradeRejected | kOpMissingSignature | kOpInvalidSignature

record OtaStartRequest =
  oq_request_id :: u32
  oq_manifest :: OtaManifest

text \<open>The result of an update but for its id, which the result store keeps.\<close>

record OtaResult =
  ot_status :: OtaOperationStatus
  ot_reboot_required :: bool
  ot_downloaded_bytes :: u32
  ot_image_size :: u32
  ot_image_size_known :: bool
  ot_diag :: TransportDiag
  ot_target_version :: string

definition ota_result_default :: OtaResult where
  "ota_result_default = \<lparr>ot_status = kOtaInternalError, ot_reboot_required = False, ot_downloaded_bytes = 0,
     ot_image_size = 0, ot_image_size_known = False, ot_diag = transport_diag_default, ot_target_version = []\<rparr>"

datatype OtaStatusUpdateKind = kOtaUpNone | kOtaUpQueued | kOtaUpStarted | kOtaUpProgress | kOtaUpFinished | kOtaUpRebootPending

record OtaStatusUpdate =
  ou_kind :: OtaStatusUpdateKind
  ou_request_id :: u32
  ou_status :: OtaOperationStatus
  ou_downloaded_bytes :: u32
  ou_image_size :: u32
  ou_image_size_known :: bool
  ou_diag :: TransportDiag
  ou_target_version :: string

definition ota_update_default :: OtaStatusUpdate where
  "ota_update_default = \<lparr>ou_kind = kOtaUpNone, ou_request_id = 0, ou_status = kOtaOk, ou_downloaded_bytes = 0,
     ou_image_size = 0, ou_image_size_known = False, ou_diag = transport_diag_default, ou_target_version = []\<rparr>"

record OtaApiSnapshot =
  os_active_request_id :: u32
  os_busy :: bool
  os_stage :: OtaStage
  os_last_error :: OtaOperationStatus
  os_downloaded_bytes :: u32
  os_image_size :: u32
  os_image_size_known :: bool
  os_diag :: TransportDiag
  os_debug_request_id :: u32
  os_debug_breadcrumb :: string
  os_current_version :: string
  os_target_version :: string

definition ota_snapshot_default :: OtaApiSnapshot where
  "ota_snapshot_default = \<lparr>os_active_request_id = 0, os_busy = False, os_stage = kOtaIdle, os_last_error = kOtaOk,
     os_downloaded_bytes = 0, os_image_size = 0, os_image_size_known = False, os_diag = transport_diag_default,
     os_debug_request_id = 0, os_debug_breadcrumb = [], os_current_version = [], os_target_version = []\<rparr>"

record OtaManager =
  oa_slot :: "OtaStartRequest option"
  oa_update :: OtaStatusUpdate
  oa_snapshot :: OtaApiSnapshot
  oa_busy :: bool
  oa_pending_count :: u32
  oa_active_request_id :: u32

definition ota_manager_init :: OtaManager where
  "ota_manager_init = \<lparr>oa_slot = None, oa_update = ota_update_default, oa_snapshot = ota_snapshot_default,
     oa_busy = False, oa_pending_count = 0, oa_active_request_id = 0\<rparr>"

section \<open>Co-processor update\<close>

datatype RcpUpdateStage = kRcpIdle | kRcpStageQueued | kRcpStageApplying | kRcpCompleted | kRcpFailed

datatype RcpUpdateSubmitStatus =
  kRcpAccepted | kRcpBusy | kRcpInvalidRequest | kRcpConflict | kRcpBoardMismatch | kRcpTransportMismatch |
  kRcpGatewayVersionMismatch | kRcpUnsupportedBackend

datatype RcpUpdateOperationStatus =
  kRcpOk | kRcpInvalidArgument | kRcpOpNoCapacity | kRcpOpConflict | kRcpOpBoardMismatch | kRcpOpTransportMismatch |
  kRcpOpGatewayVersionMismatch | kRcpTransportFailed | kRcpVerifyFailed | kRcpApplyFailed | kRcpProbeFailed |
  kRcpRecoveryFailed | kRcpInternalError | kRcpOpUnsupportedBackend

record RcpUpdateRequest =
  rq_request_id :: u32
  rq_url :: string
  rq_target_version :: string
  rq_sha256 :: string
  rq_board :: string
  rq_transport :: string
  rq_gateway_min_version :: string

record RcpUpdateResult =
  ru_status :: RcpUpdateOperationStatus
  ru_written_bytes :: u32
  ru_target_version :: string

definition rcp_result_default :: RcpUpdateResult where
  "rcp_result_default = \<lparr>ru_status = kRcpInternalError, ru_written_bytes = 0, ru_target_version = []\<rparr>"

datatype RcpStatusUpdateKind = kRcpUpNone | kRcpUpQueued | kRcpUpStarted | kRcpUpFinished

record RcpStatusUpdate =
  rp_kind :: RcpStatusUpdateKind
  rp_request_id :: u32
  rp_status :: RcpUpdateOperationStatus
  rp_written_bytes :: u32
  rp_target_version :: string

definition rcp_update_default :: RcpStatusUpdate where
  "rcp_update_default = \<lparr>rp_kind = kRcpUpNone, rp_request_id = 0, rp_status = kRcpOk, rp_written_bytes = 0,
     rp_target_version = []\<rparr>"

record RcpUpdateApiSnapshot =
  rn_active_request_id :: u32
  rn_busy :: bool
  rn_backend_available :: bool
  rn_stage :: RcpUpdateStage
  rn_last_error :: RcpUpdateOperationStatus
  rn_written_bytes :: u32
  rn_backend_name :: string
  rn_current_version :: string
  rn_target_version :: string

definition rcp_snapshot_default :: RcpUpdateApiSnapshot where
  "rcp_snapshot_default = \<lparr>rn_active_request_id = 0, rn_busy = False, rn_backend_available = False,
     rn_stage = kRcpIdle, rn_last_error = kRcpOk, rn_written_bytes = 0, rn_backend_name = [],
     rn_current_version = [], rn_target_version = []\<rparr>"

record RcpUpdateManager =
  ra_slot :: "RcpUpdateRequest option"
  ra_update :: RcpStatusUpdate
  ra_snapshot :: RcpUpdateApiSnapshot
  ra_busy :: bool
  ra_pending_count :: u32

definition rcp_manager_init :: RcpUpdateManager where
  "rcp_manager_init = \<lparr>ra_slot = None, ra_update = rcp_update_default, ra_snapshot = rcp_snapshot_default,
     ra_busy = False, ra_pending_count = 0\<rparr>"

section \<open>The state together\<close>

record 'h System =
  sy_net :: "('h, OtaResult, RcpUpdateResult) Net"
  sy_ota :: OtaManager
  sy_rcp :: RcpUpdateManager

definition system_init :: "'h \<Rightarrow> 'h System" where
  "system_init h = \<lparr>sy_net = net_init h ota_result_default rcp_result_default, sy_ota = ota_manager_init,
     sy_rcp = rcp_manager_init\<rparr>"

type_synonym ('h, 'a) sys = "('h System, 'a) state"

definition on_net :: "('h, OtaResult, RcpUpdateResult, 'a) net \<Rightarrow> ('h, 'a) sys" where
  "on_net m = State (\<lambda>s. case run_state m (sy_net s) of (a, n) \<Rightarrow> (a, s\<lparr>sy_net := n\<rparr>))"

definition on_ota :: "(OtaManager \<Rightarrow> OtaManager) \<Rightarrow> ('h, unit) sys" where
  "on_ota f = modify (\<lambda>s. s\<lparr>sy_ota := f (sy_ota s)\<rparr>)"

definition on_rcp :: "(RcpUpdateManager \<Rightarrow> RcpUpdateManager) \<Rightarrow> ('h, unit) sys" where
  "on_rcp f = modify (\<lambda>s. s\<lparr>sy_rcp := f (sy_rcp s)\<rparr>)"

definition driver :: "('h \<Rightarrow> 'a \<times> 'h) \<Rightarrow> ('h, 'a) sys" where
  "driver f = on_net (call f)"

lemma run_sys [simp]:
  "run_state (on_net m) s = (case run_state m (sy_net s) of (a, n) \<Rightarrow> (a, s\<lparr>sy_net := n\<rparr>))"
  "run_state (on_ota f) s = ((), s\<lparr>sy_ota := f (sy_ota s)\<rparr>)"
  "run_state (on_rcp g) s = ((), s\<lparr>sy_rcp := g (sy_rcp s)\<rparr>)"
  "run_state (driver d) s = (case d (nt_hal (sy_net s)) of (b, h) \<Rightarrow> (b, s\<lparr>sy_net := (sy_net s)\<lparr>nt_hal := h\<rparr>\<rparr>))"
  by (simp_all add: on_net_def on_ota_def on_rcp_def driver_def split: prod.split)

end
