(* ===== verification/OtaUpdate.thy ===== *)
theory OtaUpdate
  imports UpdateState
begin

text \<open>
  \<^verbatim>\<open>components/service/ota_manager.cpp\<close> and \<^verbatim>\<open>ota_transport_policy.cpp\<close>: the slot of the one request, the
  worker that serves it (a task of its own on the target, part of the loop on the host), and the status
  updates that the runtime applies to the snapshot of the interface.
\<close>

section \<open>Transport request\<close>

definition trust_mode :: "BuildOptions \<Rightarrow> hal_tls_trust_mode" where
  "trust_mode b = (if bo_trust_cert_bundle b then HAL_TLS_TRUST_CERT_BUNDLE
     else if bo_trust_pinned_ca b then HAL_TLS_TRUST_PINNED_CA else HAL_TLS_TRUST_NONE)"

definition trusted_root_ca :: "BuildOptions \<Rightarrow> string option" where
  "trusted_root_ca b = (if \<not> bo_trust_cert_bundle b \<and> bo_trust_pinned_ca b \<and> bo_esp b then Some (bo_root_ca_pem b) else None)"

definition unless_empty :: "string \<Rightarrow> string option" where
  "unless_empty x = (if x \<noteq> [] then Some x else None)"

definition build_ota_transport_request :: "BuildOptions \<Rightarrow> OtaStartRequest \<Rightarrow> hal_ota_https_request option" where
  "build_ota_transport_request b request =
     (let m = oq_manifest request in
      if om_url m = [] then None
      else Some \<lparr>hq_url = om_url m, hq_expected_version = unless_empty (om_version m),
             hq_expected_project_name = unless_empty (om_project m), hq_timeout_ms = 15000,
             hq_allow_plain_http = bo_allow_http b, hq_tls_trust_mode = trust_mode b,
             hq_trusted_root_ca_pem = trusted_root_ca b\<rparr>)"

section \<open>Helpers\<close>

definition copy_chars :: "nat \<Rightarrow> string \<Rightarrow> string" where
  "copy_chars n source = (if length source \<ge> n then [] else source)"

definition map_ota_hal_status :: "hal_ota_https_status \<Rightarrow> OtaOperationStatus" where
  "map_ota_hal_status status =
     (case status of
        HAL_OTA_HTTPS_STATUS_OK \<Rightarrow> kOtaOk
      | HAL_OTA_HTTPS_STATUS_INVALID_ARGUMENT \<Rightarrow> kOtaInvalidArgument
      | HAL_OTA_HTTPS_STATUS_DOWNLOAD_FAILED \<Rightarrow> kOtaDownloadFailed
      | HAL_OTA_HTTPS_STATUS_VERIFY_FAILED \<Rightarrow> kOtaVerifyFailed
      | HAL_OTA_HTTPS_STATUS_APPLY_FAILED \<Rightarrow> kOtaApplyFailed
      | HAL_OTA_HTTPS_STATUS_INTERNAL_ERROR \<Rightarrow> kOtaInternalError)"

definition map_manifest_status :: "OtaManifestValidationStatus \<Rightarrow> OtaSubmitStatus" where
  "map_manifest_status status =
     (case status of
        kManifestOk \<Rightarrow> kOtaAccepted
      | kInvalidUrl \<Rightarrow> kOtaInvalidManifest
      | kInvalidSha256 \<Rightarrow> kOtaInvalidManifest
      | kProjectMismatch \<Rightarrow> kOtaProjectMismatch
      | kBoardMismatch \<Rightarrow> kOtaBoardMismatch
      | kChipTargetMismatch \<Rightarrow> kOtaChipTargetMismatch
      | kSchemaTooNew \<Rightarrow> kOtaSchemaMismatch
      | kDowngradeRejected \<Rightarrow> kOtaDowngradeRejected
      | kMissingSignature \<Rightarrow> kOtaMissingSignature
      | kInvalidSignature \<Rightarrow> kOtaInvalidSignature)"

definition operation_status_from_submit_status :: "OtaSubmitStatus \<Rightarrow> OtaOperationStatus" where
  "operation_status_from_submit_status status =
     (case status of
        kOtaAccepted \<Rightarrow> kOtaOk
      | kOtaBusy \<Rightarrow> kOtaNoCapacity
      | kOtaInvalidRequest \<Rightarrow> kOtaInvalidArgument
      | kOtaInvalidManifest \<Rightarrow> kOpManifestInvalid
      | kOtaProjectMismatch \<Rightarrow> kOpProjectMismatch
      | kOtaBoardMismatch \<Rightarrow> kOpBoardMismatch
      | kOtaChipTargetMismatch \<Rightarrow> kOpChipTargetMismatch
      | kOtaSchemaMismatch \<Rightarrow> kOpSchemaMismatch
      | kOtaDowngradeRejected \<Rightarrow> kOpDowngradeRejected
      | kOtaMissingSignature \<Rightarrow> kOpMissingSignature
      | kOtaInvalidSignature \<Rightarrow> kOpInvalidSignature)"

definition build_manifest_context :: "BuildOptions \<Rightarrow> 'h UpdateHal \<Rightarrow> ('h, OtaManifestContext) sys" where
  "build_manifest_context b U = do {
     current_version \<leftarrow> driver (hal_ota_get_running_version U 32);
     config \<leftarrow> gets (\<lambda>s. rt_config (nt_runtime (sy_net s)));
     State_Monad.return \<lparr>oc_current_version = current_version, oc_current_project = text_of 32 kProjectName,
       oc_current_board = text_of 32 kBoardId, oc_current_chip_target = text_of 24 (bo_chip_target b),
       oc_current_schema = cm_schema_version config\<rparr>
   }"

definition manifest_version_or_empty :: "OtaManifest \<Rightarrow> string" where
  "manifest_version_or_empty m = text_of 32 (om_version m)"

definition kOtaDebugRequestIdKey :: string where "kOtaDebugRequestIdKey = ''ota_dbg_req''"
definition kOtaDebugBreadcrumbKey :: string where "kOtaDebugBreadcrumbKey = ''ota_dbg_step''"

definition persist_ota_debug_breadcrumb :: "'h Hal \<Rightarrow> 'h UpdateHal \<Rightarrow> u32 \<Rightarrow> string \<Rightarrow> ('h, unit) sys" where
  "persist_ota_debug_breadcrumb H U request_id breadcrumb = do {
     (if request_id \<noteq> 0 then driver (hal_nvs_set_u32 U kOtaDebugRequestIdKey request_id) else State_Monad.return True);
     (if breadcrumb \<noteq> [] then driver (hal_nvs_set_str H kOtaDebugBreadcrumbKey breadcrumb) else State_Monad.return True);
     State_Monad.return ()
   }"

definition load_ota_debug_breadcrumb :: "'h Hal \<Rightarrow> 'h UpdateHal \<Rightarrow> OtaApiSnapshot \<Rightarrow> ('h, OtaApiSnapshot) sys" where
  "load_ota_debug_breadcrumb H U out = do {
     let cleared = out\<lparr>os_debug_request_id := 0, os_debug_breadcrumb := []\<rparr>;
     request_id \<leftarrow> driver (hal_nvs_get_u32 U kOtaDebugRequestIdKey);
     (case request_id of
        None \<Rightarrow> State_Monad.return cleared
      | Some i \<Rightarrow>
          if i = 0 then State_Monad.return cleared
          else do {
            breadcrumb \<leftarrow> driver (hal_nvs_get_str H kOtaDebugBreadcrumbKey 48);
            State_Monad.return (cleared\<lparr>os_debug_request_id := i,
              os_debug_breadcrumb := (case breadcrumb of None \<Rightarrow> [] | Some x \<Rightarrow> x)\<rparr>)
          })
   }"

section \<open>Status updates\<close>

definition publish_ota_status_queued :: "OtaStartRequest \<Rightarrow> ('h, unit) sys" where
  "publish_ota_status_queued request = on_ota (\<lambda>o'. o'\<lparr>oa_update := ota_update_default
     \<lparr>ou_kind := kOtaUpQueued, ou_request_id := oq_request_id request,
      ou_target_version := manifest_version_or_empty (oq_manifest request)\<rparr>\<rparr>)"

definition publish_ota_status_started :: "OtaStartRequest \<Rightarrow> ('h, unit) sys" where
  "publish_ota_status_started request = on_ota (\<lambda>o'. o'\<lparr>oa_update := ota_update_default
     \<lparr>ou_kind := kOtaUpStarted, ou_request_id := oq_request_id request,
      ou_target_version := manifest_version_or_empty (oq_manifest request)\<rparr>\<rparr>)"

definition publish_ota_status_progress :: "u32 \<Rightarrow> u32 \<times> u32 \<times> bool \<Rightarrow> ('h, unit) sys" where
  "publish_ota_status_progress request_id p = on_ota (\<lambda>o'. o'\<lparr>oa_update := ota_update_default
     \<lparr>ou_kind := kOtaUpProgress, ou_request_id := request_id, ou_downloaded_bytes := fst p,
      ou_image_size := fst (snd p), ou_image_size_known := snd (snd p)\<rparr>\<rparr>)"

definition publish_ota_status_finished :: "u32 \<Rightarrow> OtaResult \<Rightarrow> ('h, unit) sys" where
  "publish_ota_status_finished request_id result = on_ota (\<lambda>o'. o'\<lparr>oa_update := ota_update_default
     \<lparr>ou_kind := kOtaUpFinished, ou_request_id := request_id, ou_status := ot_status result,
      ou_downloaded_bytes := ot_downloaded_bytes result, ou_image_size := ot_image_size result,
      ou_image_size_known := ot_image_size_known result, ou_diag := ot_diag result,
      ou_target_version := ot_target_version result\<rparr>\<rparr>)"

definition publish_ota_status_reboot_pending :: "u32 \<Rightarrow> ('h, unit) sys" where
  "publish_ota_status_reboot_pending request_id = on_ota (\<lambda>o'. o'\<lparr>oa_update := ota_update_default
     \<lparr>ou_kind := kOtaUpRebootPending, ou_request_id := request_id\<rparr>\<rparr>)"

definition take_ota_status_update :: "OtaManager \<Rightarrow> (OtaStatusUpdate \<times> OtaManager) option" where
  "take_ota_status_update o' =
     (if ou_kind (oa_update o') = kOtaUpNone then None
      else Some (oa_update o', o'\<lparr>oa_update := ota_update_default\<rparr>))"

text \<open>The snapshot of a request that starts, in the given stage.\<close>

definition ota_snapshot_start :: "OtaStage \<Rightarrow> OtaStatusUpdate \<Rightarrow> OtaApiSnapshot \<Rightarrow> OtaApiSnapshot" where
  "ota_snapshot_start stage u s = s\<lparr>os_busy := True, os_stage := stage, os_last_error := kOtaOk,
     os_downloaded_bytes := 0, os_image_size := 0, os_image_size_known := False,
     os_diag := transport_diag_default, os_target_version := ou_target_version u\<rparr>"

definition apply_ota_status_update :: "OtaStatusUpdate \<Rightarrow> OtaManager \<Rightarrow> bool \<times> OtaManager" where
  "apply_ota_status_update u o' =
     (if ou_kind u = kOtaUpNone \<or> ou_request_id u = 0 then (False, o')
      else let s = (oa_snapshot o')\<lparr>os_active_request_id := ou_request_id u\<rparr> in
        (case ou_kind u of
           kOtaUpQueued \<Rightarrow> (True, o'\<lparr>oa_snapshot := ota_snapshot_start kOtaStageQueued u s\<rparr>)
         | kOtaUpStarted \<Rightarrow> (True, o'\<lparr>oa_snapshot := ota_snapshot_start kOtaStageDownloading u s\<rparr>)
         | kOtaUpProgress \<Rightarrow> (True, o'\<lparr>oa_snapshot := s\<lparr>os_busy := True, os_stage := kOtaStageDownloading,
             os_downloaded_bytes := ou_downloaded_bytes u, os_image_size := ou_image_size u,
             os_image_size_known := ou_image_size_known u\<rparr>\<rparr>)
         | kOtaUpFinished \<Rightarrow> (True, o'\<lparr>oa_snapshot := s\<lparr>os_busy := False,
             os_stage := (if ou_status u = kOtaOk then kSwitchPending else kOtaFailed),
             os_last_error := (if ou_status u = kOtaOk then kOtaOk else ou_status u),
             os_downloaded_bytes := ou_downloaded_bytes u, os_image_size := ou_image_size u,
             os_image_size_known := ou_image_size_known u, os_diag := ou_diag u,
             os_target_version := ou_target_version u\<rparr>\<rparr>)
         | kOtaUpRebootPending \<Rightarrow> (True, o'\<lparr>oa_snapshot :=
             (if os_stage s = kSwitchPending then s\<lparr>os_stage := kRebootPending\<rparr> else s)\<rparr>)
         | kOtaUpNone \<Rightarrow> (False, o'\<lparr>oa_snapshot := s\<rparr>)))"

definition drain_ota_status_update :: "('h, bool) sys" where
  "drain_ota_status_update = State (\<lambda>s.
     case take_ota_status_update (sy_ota s) of
       None \<Rightarrow> (False, s)
     | Some (u, o') \<Rightarrow> (case apply_ota_status_update u o' of (ok, o2) \<Rightarrow> (ok, s\<lparr>sy_ota := o2\<rparr>)))"

section \<open>Posting a request\<close>

definition ota_has_pending_or_busy :: "OtaManager \<Rightarrow> bool" where
  "ota_has_pending_or_busy o' \<longleftrightarrow> oa_busy o' \<or> oa_pending_count o' \<noteq> 0"

definition note_ota_poll :: "u32 \<Rightarrow> OtaPollStatus \<Rightarrow> ('h, unit) sys" where
  "note_ota_poll request_id status = on_net (results (\<lambda>q. ((), note_ota_poll_status request_id status q)))"

definition queue_ota_result :: "u32 \<Rightarrow> OtaResult \<Rightarrow> ('h, bool) sys" where
  "queue_ota_result request_id result =
     on_net (results (publish_ota_result \<lparr>or_request_id = request_id, or_body = result\<rparr>))"

definition ota_fill_slot :: "OtaStartRequest \<Rightarrow> OtaManager \<Rightarrow> OtaManager" where
  "ota_fill_slot request o' = o'\<lparr>oa_slot := Some request, oa_pending_count := 1\<rparr>"

definition ota_enqueue_request :: "BuildOptions \<Rightarrow> 'h Hal \<Rightarrow> 'h UpdateHal \<Rightarrow> OtaStartRequest \<Rightarrow> ('h, OtaSubmitStatus) sys" where
  "ota_enqueue_request b H U request =
     (if oq_request_id request = 0 \<or> om_url (oq_manifest request) = [] then State_Monad.return kOtaInvalidRequest
      else do {
        c \<leftarrow> build_manifest_context b U;
        let normalized = request\<lparr>oq_manifest := apply_ota_manifest_defaults c (oq_manifest request)\<rparr>;
        let status = map_manifest_status (validate_ota_manifest (bo_allow_http b)
              (hal_ota_verify_manifest_signature U) (oq_manifest normalized) c);
        if status \<noteq> kOtaAccepted then State_Monad.return status
        else do {
          o' \<leftarrow> gets sy_ota;
          if oa_slot o' \<noteq> None \<or> oa_busy o' then State_Monad.return kOtaBusy
          else do {
            on_ota (ota_fill_slot normalized);
            persist_ota_debug_breadcrumb H U (oq_request_id normalized) ''accepted'';
            note_ota_poll (oq_request_id normalized) kOtaQueued;
            publish_ota_status_queued normalized;
            State_Monad.return kOtaAccepted
          }
        }
      })"

section \<open>The worker\<close>

definition ota_pop_request :: "'h Hal \<Rightarrow> 'h UpdateHal \<Rightarrow> ('h, OtaStartRequest option) sys" where
  "ota_pop_request H U = do {
     o' \<leftarrow> gets sy_ota;
     (case oa_slot o' of
        None \<Rightarrow> State_Monad.return None
      | Some request \<Rightarrow> do {
          on_ota (\<lambda>o'. o'\<lparr>oa_slot := None, oa_pending_count := 0, oa_busy := True,
                           oa_active_request_id := oq_request_id request\<rparr>);
          persist_ota_debug_breadcrumb H U (oq_request_id request) ''worker_popped'';
          State_Monad.return (Some request)
        })
   }"

definition ota_start :: "'h Hal \<Rightarrow> 'h UpdateHal \<Rightarrow> OtaStartRequest \<Rightarrow> ('h, unit) sys" where
  "ota_start H U request = do {
     persist_ota_debug_breadcrumb H U (oq_request_id request) ''worker_started'';
     publish_ota_status_started request;
     note_ota_poll (oq_request_id request) kOtaDownloading
   }"

definition ota_release :: "('h, unit) sys" where
  "ota_release = on_ota (\<lambda>o'. o'\<lparr>oa_busy := False, oa_active_request_id := 0\<rparr>)"

text \<open>Before the transfer the bridge is stopped; the answers say whether it was and whether its memory was released.\<close>

definition ota_pause_mqtt :: "'h Hal \<Rightarrow> 'h UpdateHal \<Rightarrow> u32 \<Rightarrow> ('h, bool \<times> bool) sys" where
  "ota_pause_mqtt H U request_id = do {
     enabled \<leftarrow> driver (hal_mqtt_is_enabled U);
     if \<not> enabled then State_Monad.return (False, False)
     else do {
       stopped \<leftarrow> driver (hal_mqtt_stop U);
       if \<not> stopped then State_Monad.return (False, False)
       else do {
         persist_ota_debug_breadcrumb H U request_id ''mqtt_paused'';
         released \<leftarrow> driver (hal_mqtt_release_resources U);
         (if released then persist_ota_debug_breadcrumb H U request_id ''mqtt_released'' else State_Monad.return ());
         State_Monad.return (True, released)
       }
     }
   }"

definition ota_resume_mqtt :: "'h UpdateHal \<Rightarrow> bool \<Rightarrow> ('h, unit) sys" where
  "ota_resume_mqtt U released = do {
     (if released then driver (hal_mqtt_restore_resources U) else State_Monad.return True);
     driver (hal_mqtt_start U);
     State_Monad.return ()
   }"

definition ota_preflight :: "BuildOptions \<Rightarrow> 'h Hal \<Rightarrow> 'h UpdateHal \<Rightarrow> u32 \<Rightarrow> ('h, bool \<times> bool) sys" where
  "ota_preflight b H U request_id =
     (if bo_esp b then ota_pause_mqtt H U request_id else State_Monad.return (False, False))"

definition ota_recover :: "'h UpdateHal \<Rightarrow> bool \<times> bool \<Rightarrow> OtaResult \<Rightarrow> ('h, unit) sys" where
  "ota_recover U mqtt result =
     (if fst mqtt \<and> ot_status result \<noteq> kOtaOk then ota_resume_mqtt U (snd mqtt) else State_Monad.return ())"

definition ota_result_of :: "OtaStartRequest \<Rightarrow> int \<Rightarrow> hal_ota_https_result \<Rightarrow> OtaResult" where
  "ota_result_of request hal_rc r =
     (let wanted = manifest_version_or_empty (oq_manifest request);
          status = map_ota_hal_status (hr_status r)
      in \<lparr>ot_status = (if hal_rc \<noteq> 0 \<and> status = kOtaOk then kOtaInternalError else status),
          ot_reboot_required = hr_reboot_required r, ot_downloaded_bytes = hr_bytes_read r,
          ot_image_size = hr_image_size r, ot_image_size_known = hr_image_size_known r, ot_diag = hr_diag r,
          ot_target_version = (if wanted = [] \<and> hr_discovered_version r \<noteq> []
             then copy_chars 32 (hr_discovered_version r) else wanted)\<rparr>)"

text \<open>The end of a request: its status, the release of the manager, its result, and the reboot.\<close>

definition ota_deliver :: "'h Hal \<Rightarrow> 'h UpdateHal \<Rightarrow> u32 \<Rightarrow> OtaResult \<Rightarrow> ('h, bool) sys" where
  "ota_deliver H U request_id result = do {
     publish_ota_status_finished request_id result;
     ota_release;
     ok \<leftarrow> queue_ota_result request_id result;
     persist_ota_debug_breadcrumb H U request_id (if ok then ''result_queued'' else ''result_drop'');
     State_Monad.return ok
   }"

definition ota_reboot :: "BuildOptions \<Rightarrow> 'h Hal \<Rightarrow> 'h UpdateHal \<Rightarrow> u32 \<Rightarrow> OtaResult \<Rightarrow> ('h, unit) sys" where
  "ota_reboot b H U request_id result =
     (if bo_esp b \<and> bo_auto_reboot b \<and> ot_status result = kOtaOk \<and> ot_reboot_required result then do {
        publish_ota_status_reboot_pending request_id;
        persist_ota_debug_breadcrumb H U request_id ''reboot_scheduled'';
        driver (\<lambda>h. ((), hal_ota_schedule_restart U (bo_reboot_delay_ms b) h))
      } else State_Monad.return ())"

fun publish_all_progress :: "u32 \<Rightarrow> (u32 \<times> u32 \<times> bool) list \<Rightarrow> ('h, unit) sys" where
  "publish_all_progress request_id [] = State_Monad.return ()"
| "publish_all_progress request_id (p # ps) =
     do { publish_ota_status_progress request_id p; publish_all_progress request_id ps }"

text \<open>The callback reports nothing for a request without an id.\<close>

definition ota_reports :: "OtaStartRequest \<Rightarrow> (u32 \<times> u32 \<times> bool) list \<Rightarrow> (u32 \<times> u32 \<times> bool) list" where
  "ota_reports request ps = (if oq_request_id request = 0 then [] else ps)"

definition ota_transfer :: "BuildOptions \<Rightarrow> 'h Hal \<Rightarrow> 'h UpdateHal \<Rightarrow> OtaStartRequest \<Rightarrow> hal_ota_https_request \<Rightarrow> ('h, bool) sys" where
  "ota_transfer b H U request hal_request = do {
     let i = oq_request_id request;
     mqtt \<leftarrow> ota_preflight b H U i;
     persist_ota_debug_breadcrumb H U i ''before_hal'';
     r \<leftarrow> driver (hal_ota_perform_https_update U hal_request);
     publish_all_progress i (ota_reports request (fst r));
     persist_ota_debug_breadcrumb H U i ''after_hal'';
     let result = ota_result_of request (fst (snd r)) (snd (snd r));
     ota_recover U mqtt result;
     ok \<leftarrow> ota_deliver H U i result;
     ota_reboot b H U i result;
     State_Monad.return ok
   }"

definition ota_process_request :: "BuildOptions \<Rightarrow> 'h Hal \<Rightarrow> 'h UpdateHal \<Rightarrow> OtaStartRequest \<Rightarrow> ('h, bool) sys" where
  "ota_process_request b H U request = do {
     ota_start H U request;
     (case build_ota_transport_request b request of
        None \<Rightarrow> do {
          _ \<leftarrow> ota_deliver H U (oq_request_id request) (ota_result_default\<lparr>ot_status := kOtaInvalidArgument\<rparr>);
          State_Monad.return False
        }
      | Some hal_request \<Rightarrow> ota_transfer b H U request hal_request)
   }"

text \<open>One round of the worker, or of the loop on the host.\<close>

definition ota_drain_requests :: "BuildOptions \<Rightarrow> 'h Hal \<Rightarrow> 'h UpdateHal \<Rightarrow> ('h, bool) sys" where
  "ota_drain_requests b H U = do {
     r \<leftarrow> ota_pop_request H U;
     (case r of
        None \<Rightarrow> State_Monad.return False
      | Some request \<Rightarrow> do {
          ok \<leftarrow> ota_process_request b H U request;
          (if ok then State_Monad.return () else on_net (on_runtime note_dropped_event));
          State_Monad.return True
        })
   }"

definition build_ota_api_snapshot :: "'h Hal \<Rightarrow> 'h UpdateHal \<Rightarrow> ('h, OtaApiSnapshot) sys" where
  "build_ota_api_snapshot H U = do {
     out \<leftarrow> gets (\<lambda>s. oa_snapshot (sy_ota s));
     version \<leftarrow> driver (hal_ota_get_running_version U 32);
     load_ota_debug_breadcrumb H U (out\<lparr>os_current_version := version\<rparr>)
   }"

end
