(* ===== verification/RcpUpdate.thy ===== *)
theory RcpUpdate
  imports OtaUpdate
begin

text \<open>
  \<^verbatim>\<open>components/service/rcp_update_manager.cpp\<close> and \<^verbatim>\<open>rcp_transport_policy.cpp\<close>: the update of the
  co-processor, with a slot, a worker and status updates like those of the firmware update, and the two
  posts of the runtime that keep the updates apart.
\<close>

section \<open>Requests\<close>

definition kExpectedRcpTransport :: string where "kExpectedRcpTransport = ''uart''"

definition build_rcp_transport_request :: "BuildOptions \<Rightarrow> RcpUpdateRequest \<Rightarrow> hal_rcp_https_request option" where
  "build_rcp_transport_request b request =
     (if rq_url request = [] then None
      else Some \<lparr>hp_url = rq_url request, hp_expected_sha256_hex = unless_empty (rq_sha256 request),
             hp_expected_version = unless_empty (rq_target_version request), hp_timeout_ms = 30000,
             hp_allow_plain_http = bo_allow_http b, hp_tls_trust_mode = trust_mode b,
             hp_trusted_root_ca_pem = trusted_root_ca b\<rparr>)"

text \<open>Unlike its namesake of the firmware update, this copy cuts a long text off.\<close>

definition copy_cut :: "nat \<Rightarrow> string \<Rightarrow> string" where
  "copy_cut n source = (if source = [] then [] else text_of n source)"

definition request_version_or_empty :: "RcpUpdateRequest \<Rightarrow> string" where
  "request_version_or_empty request = copy_cut 32 (rq_target_version request)"

definition version_is_older_than :: "string \<Rightarrow> string \<Rightarrow> bool" where
  "version_is_older_than current minimum =
     (case (parse_dotted_numeric_version 4 current, parse_dotted_numeric_version 4 minimum) of
        (Some c, Some m) \<Rightarrow> older_parts [0..<max (length c) (length m)] c m
      | _ \<Rightarrow> False)"

definition validate_rcp_request :: "RcpUpdateRequest \<Rightarrow> RcpUpdateSubmitStatus" where
  "validate_rcp_request request =
     (if rq_url request = [] \<or> \<not> is_valid_sha256_hex (rq_sha256 request) then kRcpInvalidRequest
      else if rq_board request \<noteq> [] \<and> rq_board request \<noteq> kBoardId then kRcpBoardMismatch
      else if rq_transport request \<noteq> [] \<and> rq_transport request \<noteq> kExpectedRcpTransport then kRcpTransportMismatch
      else if rq_gateway_min_version request \<noteq> [] \<and> version_is_older_than kVersion (rq_gateway_min_version request)
        then kRcpGatewayVersionMismatch
      else kRcpAccepted)"

definition map_rcp_hal_status :: "hal_rcp_https_status \<Rightarrow> RcpUpdateOperationStatus" where
  "map_rcp_hal_status status =
     (case status of
        HAL_RCP_HTTPS_STATUS_OK \<Rightarrow> kRcpOk
      | HAL_RCP_HTTPS_STATUS_INVALID_ARGUMENT \<Rightarrow> kRcpInvalidArgument
      | HAL_RCP_HTTPS_STATUS_TRANSPORT_FAILED \<Rightarrow> kRcpTransportFailed
      | HAL_RCP_HTTPS_STATUS_VERIFY_FAILED \<Rightarrow> kRcpVerifyFailed
      | HAL_RCP_HTTPS_STATUS_APPLY_FAILED \<Rightarrow> kRcpApplyFailed
      | HAL_RCP_HTTPS_STATUS_PROBE_FAILED \<Rightarrow> kRcpProbeFailed
      | HAL_RCP_HTTPS_STATUS_RECOVERY_FAILED \<Rightarrow> kRcpRecoveryFailed
      | HAL_RCP_HTTPS_STATUS_INTERNAL_ERROR \<Rightarrow> kRcpInternalError)"

section \<open>Status updates\<close>

definition publish_rcp_status_queued :: "RcpUpdateRequest \<Rightarrow> ('h, unit) sys" where
  "publish_rcp_status_queued request = on_rcp (\<lambda>r. r\<lparr>ra_update := rcp_update_default
     \<lparr>rp_kind := kRcpUpQueued, rp_request_id := rq_request_id request,
      rp_target_version := request_version_or_empty request\<rparr>\<rparr>)"

definition publish_rcp_status_started :: "RcpUpdateRequest \<Rightarrow> ('h, unit) sys" where
  "publish_rcp_status_started request = on_rcp (\<lambda>r. r\<lparr>ra_update := rcp_update_default
     \<lparr>rp_kind := kRcpUpStarted, rp_request_id := rq_request_id request,
      rp_target_version := request_version_or_empty request\<rparr>\<rparr>)"

definition publish_rcp_status_finished :: "u32 \<Rightarrow> RcpUpdateResult \<Rightarrow> ('h, unit) sys" where
  "publish_rcp_status_finished request_id result = on_rcp (\<lambda>r. r\<lparr>ra_update := rcp_update_default
     \<lparr>rp_kind := kRcpUpFinished, rp_request_id := request_id, rp_status := ru_status result,
      rp_written_bytes := ru_written_bytes result, rp_target_version := ru_target_version result\<rparr>\<rparr>)"

definition take_rcp_status_update :: "RcpUpdateManager \<Rightarrow> (RcpStatusUpdate \<times> RcpUpdateManager) option" where
  "take_rcp_status_update r =
     (if rp_kind (ra_update r) = kRcpUpNone then None
      else Some (ra_update r, r\<lparr>ra_update := rcp_update_default\<rparr>))"

definition rcp_current_version :: "'h UpdateHal \<Rightarrow> ('h, string) sys" where
  "rcp_current_version U = do {
     version \<leftarrow> driver (hal_rcp_get_running_version U 32);
     State_Monad.return (case version of None \<Rightarrow> copy_cut 32 kVersion | Some v \<Rightarrow> v)
   }"

definition fill_backend_snapshot_fields :: "'h UpdateHal \<Rightarrow> RcpUpdateApiSnapshot \<Rightarrow> ('h, RcpUpdateApiSnapshot) sys" where
  "fill_backend_snapshot_fields U snapshot = do {
     available \<leftarrow> driver (hal_rcp_backend_available U);
     name \<leftarrow> driver (hal_rcp_get_backend_name U 32);
     State_Monad.return (snapshot\<lparr>rn_backend_available := available,
       rn_backend_name := (case name of
           None \<Rightarrow> copy_cut 32 (if available then ''available'' else ''unconfigured'')
         | Some n \<Rightarrow> n)\<rparr>)
   }"

definition rcp_snapshot_update :: "RcpStatusUpdate \<Rightarrow> RcpUpdateApiSnapshot \<Rightarrow> RcpUpdateApiSnapshot option" where
  "rcp_snapshot_update u s0 =
     (let s = s0\<lparr>rn_active_request_id := rp_request_id u\<rparr> in
      (case rp_kind u of
         kRcpUpQueued \<Rightarrow> Some (s\<lparr>rn_busy := True, rn_stage := kRcpStageQueued, rn_last_error := kRcpOk,
           rn_written_bytes := 0, rn_target_version := rp_target_version u\<rparr>)
       | kRcpUpStarted \<Rightarrow> Some (s\<lparr>rn_busy := True, rn_stage := kRcpStageApplying, rn_last_error := kRcpOk,
           rn_written_bytes := 0, rn_target_version := rp_target_version u\<rparr>)
       | kRcpUpFinished \<Rightarrow> Some (s\<lparr>rn_busy := False, rn_last_error := rp_status u,
           rn_written_bytes := rp_written_bytes u, rn_target_version := rp_target_version u,
           rn_stage := (if rp_status u = kRcpOk then kRcpCompleted else kRcpFailed)\<rparr>)
       | kRcpUpNone \<Rightarrow> None))"

definition apply_rcp_status_update :: "'h UpdateHal \<Rightarrow> RcpStatusUpdate \<Rightarrow> ('h, bool) sys" where
  "apply_rcp_status_update U u =
     (if rp_kind u = kRcpUpNone \<or> rp_request_id u = 0 then State_Monad.return False
      else do {
        r \<leftarrow> gets sy_rcp;
        (case rcp_snapshot_update u (ra_snapshot r) of
           None \<Rightarrow> State_Monad.return False
         | Some s \<Rightarrow> do {
             version \<leftarrow> rcp_current_version U;
             s1 \<leftarrow> fill_backend_snapshot_fields U (s\<lparr>rn_current_version := version\<rparr>);
             on_rcp (\<lambda>r. r\<lparr>ra_snapshot := s1\<rparr>);
             State_Monad.return True
           })
      })"

definition drain_rcp_update_status_update :: "'h UpdateHal \<Rightarrow> ('h, bool) sys" where
  "drain_rcp_update_status_update U = do {
     r \<leftarrow> gets sy_rcp;
     (case take_rcp_status_update r of
        None \<Rightarrow> State_Monad.return False
      | Some (u, r1) \<Rightarrow> do { on_rcp (\<lambda>_. r1); apply_rcp_status_update U u })
   }"

definition build_rcp_api_snapshot :: "'h UpdateHal \<Rightarrow> ('h, RcpUpdateApiSnapshot) sys" where
  "build_rcp_api_snapshot U = do {
     out \<leftarrow> gets (\<lambda>s. ra_snapshot (sy_rcp s));
     out1 \<leftarrow> fill_backend_snapshot_fields U out;
     version \<leftarrow> rcp_current_version U;
     State_Monad.return (out1\<lparr>rn_current_version := version\<rparr>)
   }"

section \<open>Posting and serving a request\<close>

definition rcp_has_pending_or_busy :: "RcpUpdateManager \<Rightarrow> bool" where
  "rcp_has_pending_or_busy r \<longleftrightarrow> ra_busy r \<or> ra_pending_count r \<noteq> 0"

definition note_rcp_poll :: "u32 \<Rightarrow> RcpUpdatePollStatus \<Rightarrow> ('h, unit) sys" where
  "note_rcp_poll request_id status = on_net (results (\<lambda>q. ((), note_rcp_update_poll_status request_id status q)))"

definition queue_rcp_update_result :: "u32 \<Rightarrow> RcpUpdateResult \<Rightarrow> ('h, bool) sys" where
  "queue_rcp_update_result request_id result =
     on_net (results (publish_rcp_update_result \<lparr>or_request_id = request_id, or_body = result\<rparr>))"

definition rcp_fill_slot :: "RcpUpdateRequest \<Rightarrow> RcpUpdateManager \<Rightarrow> RcpUpdateManager" where
  "rcp_fill_slot request r = r\<lparr>ra_slot := Some request, ra_pending_count := 1\<rparr>"

definition rcp_enqueue_request :: "'h UpdateHal \<Rightarrow> RcpUpdateRequest \<Rightarrow> ('h, RcpUpdateSubmitStatus) sys" where
  "rcp_enqueue_request U request =
     (if rq_request_id request = 0 \<or> rq_url request = [] then State_Monad.return kRcpInvalidRequest
      else if validate_rcp_request request \<noteq> kRcpAccepted then State_Monad.return (validate_rcp_request request)
      else do {
        available \<leftarrow> driver (hal_rcp_backend_available U);
        if \<not> available then State_Monad.return kRcpUnsupportedBackend
        else do {
          r \<leftarrow> gets sy_rcp;
          if ra_slot r \<noteq> None \<or> ra_busy r then State_Monad.return kRcpBusy
          else do {
            on_rcp (rcp_fill_slot request);
            note_rcp_poll (rq_request_id request) kRcpQueued;
            publish_rcp_status_queued request;
            State_Monad.return kRcpAccepted
          }
        }
      })"

definition rcp_pop_request :: "('h, RcpUpdateRequest option) sys" where
  "rcp_pop_request = do {
     r \<leftarrow> gets sy_rcp;
     (case ra_slot r of
        None \<Rightarrow> State_Monad.return None
      | Some request \<Rightarrow> do {
          on_rcp (\<lambda>r. r\<lparr>ra_slot := None, ra_pending_count := 0, ra_busy := True\<rparr>);
          State_Monad.return (Some request)
        })
   }"

definition rcp_start :: "RcpUpdateRequest \<Rightarrow> ('h, unit) sys" where
  "rcp_start request = do {
     note_rcp_poll (rq_request_id request) kRcpApplying;
     publish_rcp_status_started request
   }"

text \<open>The end of a request: the manager is free again before its status is published.\<close>

definition rcp_deliver :: "u32 \<Rightarrow> RcpUpdateResult \<Rightarrow> ('h, bool) sys" where
  "rcp_deliver request_id result = do {
     on_rcp (\<lambda>r. r\<lparr>ra_busy := False\<rparr>);
     publish_rcp_status_finished request_id result;
     queue_rcp_update_result request_id result
   }"

definition rcp_result_of :: "RcpUpdateRequest \<Rightarrow> int \<Rightarrow> hal_rcp_https_result \<Rightarrow> RcpUpdateResult" where
  "rcp_result_of request rc r =
     \<lparr>ru_status = map_rcp_hal_status (hs_status r), ru_written_bytes = hs_bytes_read r,
      ru_target_version = (if rc = 0 \<and> hs_discovered_version r \<noteq> [] then copy_cut 32 (hs_discovered_version r)
        else request_version_or_empty request)\<rparr>"

definition rcp_process_request :: "BuildOptions \<Rightarrow> 'h UpdateHal \<Rightarrow> RcpUpdateRequest \<Rightarrow> ('h, bool) sys" where
  "rcp_process_request b U request = do {
     rcp_start request;
     let i = rq_request_id request;
     let empty_result = rcp_result_default\<lparr>ru_target_version := request_version_or_empty request\<rparr>;
     available \<leftarrow> driver (hal_rcp_backend_available U);
     if \<not> available then rcp_deliver i (empty_result\<lparr>ru_status := kRcpOpUnsupportedBackend\<rparr>)
     else
       (case build_rcp_transport_request b request of
          None \<Rightarrow> rcp_deliver i (empty_result\<lparr>ru_status := kRcpInvalidArgument\<rparr>)
        | Some hal_request \<Rightarrow> do {
            r \<leftarrow> driver (hal_rcp_perform_https_update U hal_request);
            rcp_deliver i (rcp_result_of request (fst r) (snd r))
          })
   }"

definition rcp_drain_requests :: "BuildOptions \<Rightarrow> 'h UpdateHal \<Rightarrow> ('h, bool) sys" where
  "rcp_drain_requests b U = do {
     r \<leftarrow> rcp_pop_request;
     (case r of
        None \<Rightarrow> State_Monad.return False
      | Some request \<Rightarrow> rcp_process_request b U request)
   }"

section \<open>The posts of the runtime\<close>

definition post_ota_start :: "BuildOptions \<Rightarrow> 'h Hal \<Rightarrow> 'h UpdateHal \<Rightarrow> OtaStartRequest \<Rightarrow> ('h, OtaSubmitStatus) sys" where
  "post_ota_start b H U request = do {
     r \<leftarrow> gets sy_rcp;
     if rcp_has_pending_or_busy r then State_Monad.return kOtaBusy
     else do {
       started \<leftarrow> (if bo_esp b then driver (start_ota_worker U) else State_Monad.return True);
       if \<not> started then State_Monad.return kOtaBusy
       else ota_enqueue_request b H U request
     }
   }"

definition post_rcp_update_start :: "'h UpdateHal \<Rightarrow> RcpUpdateRequest \<Rightarrow> ('h, RcpUpdateSubmitStatus) sys" where
  "post_rcp_update_start U request = do {
     o' \<leftarrow> gets sy_ota;
     if ota_has_pending_or_busy o' then State_Monad.return kRcpConflict
     else rcp_enqueue_request U request
   }"

end
