(* ===== verification/Updates.thy ===== *)
theory Updates
  imports RcpUpdate
begin

text \<open>
  The two update managers at work: their workers cut into the steps between which other tasks run, every
  order of steps and posts, and what holds in all of them.
\<close>

section \<open>The workers\<close>

text \<open>
  Where the firmware worker is: it has taken a request, is about to transfer, still reports progress, or
  is on its way through the end of \<^verbatim>\<open>process_request\<close>. The flag says whether the transfer took place.
\<close>

datatype OtaWorker =
  OtaIdle | OtaTaken OtaStartRequest | OtaRunning OtaStartRequest hal_ota_https_request |
  OtaReporting OtaStartRequest "bool \<times> bool" "(u32 \<times> u32 \<times> bool) list" OtaResult |
  OtaEnding OtaStartRequest OtaResult bool | OtaReleasing OtaStartRequest OtaResult bool |
  OtaQueueing OtaStartRequest OtaResult bool | OtaClosing OtaStartRequest OtaResult bool bool

fun ota_worker_step :: "BuildOptions \<Rightarrow> 'h Hal \<Rightarrow> 'h UpdateHal \<Rightarrow> OtaWorker \<Rightarrow> ('h, OtaWorker) sys" where
  "ota_worker_step b H U OtaIdle = do {
     r \<leftarrow> ota_pop_request H U;
     State_Monad.return (case r of None \<Rightarrow> OtaIdle | Some q \<Rightarrow> OtaTaken q)
   }"
| "ota_worker_step b H U (OtaTaken q) = do {
     ota_start H U q;
     State_Monad.return (case build_ota_transport_request b q of
         None \<Rightarrow> OtaEnding q (ota_result_default\<lparr>ot_status := kOtaInvalidArgument\<rparr>) False
       | Some hal_request \<Rightarrow> OtaRunning q hal_request)
   }"
| "ota_worker_step b H U (OtaRunning q hal_request) = do {
     mqtt \<leftarrow> ota_preflight b H U (oq_request_id q);
     persist_ota_debug_breadcrumb H U (oq_request_id q) ''before_hal'';
     r \<leftarrow> driver (hal_ota_perform_https_update U hal_request);
     State_Monad.return (OtaReporting q mqtt (ota_reports q (fst r))
       (ota_result_of q (fst (snd r)) (snd (snd r))))
   }"
| "ota_worker_step b H U (OtaReporting q mqtt (p # ps) result) = do {
     publish_ota_status_progress (oq_request_id q) p;
     State_Monad.return (OtaReporting q mqtt ps result)
   }"
| "ota_worker_step b H U (OtaReporting q mqtt [] result) = do {
     persist_ota_debug_breadcrumb H U (oq_request_id q) ''after_hal'';
     ota_recover U mqtt result;
     State_Monad.return (OtaEnding q result True)
   }"
| "ota_worker_step b H U (OtaEnding q result done) = do {
     publish_ota_status_finished (oq_request_id q) result;
     State_Monad.return (OtaReleasing q result done)
   }"
| "ota_worker_step b H U (OtaReleasing q result done) = do {
     ota_release;
     State_Monad.return (OtaQueueing q result done)
   }"
| "ota_worker_step b H U (OtaQueueing q result done) = do {
     ok \<leftarrow> queue_ota_result (oq_request_id q) result;
     persist_ota_debug_breadcrumb H U (oq_request_id q) (if ok then ''result_queued'' else ''result_drop'');
     State_Monad.return (OtaClosing q result done ok)
   }"
| "ota_worker_step b H U (OtaClosing q result done ok) = do {
     (if done then ota_reboot b H U (oq_request_id q) result else State_Monad.return ());
     (if done \<and> ok then State_Monad.return () else on_net (on_runtime note_dropped_event));
     State_Monad.return OtaIdle
   }"

datatype RcpWorker =
  RcpWaiting | RcpTaken RcpUpdateRequest | RcpRunning RcpUpdateRequest hal_rcp_https_request |
  RcpEnding RcpUpdateRequest RcpUpdateResult | RcpPublishing RcpUpdateRequest RcpUpdateResult |
  RcpQueueing RcpUpdateRequest RcpUpdateResult

fun rcp_worker_step :: "BuildOptions \<Rightarrow> 'h UpdateHal \<Rightarrow> RcpWorker \<Rightarrow> ('h, RcpWorker) sys" where
  "rcp_worker_step b U RcpWaiting = do {
     r \<leftarrow> rcp_pop_request;
     State_Monad.return (case r of None \<Rightarrow> RcpWaiting | Some q \<Rightarrow> RcpTaken q)
   }"
| "rcp_worker_step b U (RcpTaken q) = do {
     rcp_start q;
     let empty_result = rcp_result_default\<lparr>ru_target_version := request_version_or_empty q\<rparr>;
     available \<leftarrow> driver (hal_rcp_backend_available U);
     State_Monad.return (if \<not> available then RcpEnding q (empty_result\<lparr>ru_status := kRcpOpUnsupportedBackend\<rparr>)
       else (case build_rcp_transport_request b q of
               None \<Rightarrow> RcpEnding q (empty_result\<lparr>ru_status := kRcpInvalidArgument\<rparr>)
             | Some hal_request \<Rightarrow> RcpRunning q hal_request))
   }"
| "rcp_worker_step b U (RcpRunning q hal_request) = do {
     r \<leftarrow> driver (hal_rcp_perform_https_update U hal_request);
     State_Monad.return (RcpEnding q (rcp_result_of q (fst r) (snd r)))
   }"
| "rcp_worker_step b U (RcpEnding q result) = do {
     on_rcp (\<lambda>r. r\<lparr>ra_busy := False\<rparr>);
     State_Monad.return (RcpPublishing q result)
   }"
| "rcp_worker_step b U (RcpPublishing q result) = do {
     publish_rcp_status_finished (rq_request_id q) result;
     State_Monad.return (RcpQueueing q result)
   }"
| "rcp_worker_step b U (RcpQueueing q result) = do {
     _ \<leftarrow> queue_rcp_update_result (rq_request_id q) result;
     State_Monad.return RcpWaiting
   }"

section \<open>The steps are the loops\<close>

text \<open>The worker on its own comes from one place to another in some number of steps.\<close>

inductive ota_reaches :: "BuildOptions \<Rightarrow> 'h Hal \<Rightarrow> 'h UpdateHal \<Rightarrow> OtaWorker \<times> 'h System \<Rightarrow> OtaWorker \<times> 'h System \<Rightarrow> bool"
  for b H U where
  ota_reaches_refl: "ota_reaches b H U y y"
| ota_reaches_step: "ota_reaches b H U (run_state (ota_worker_step b H U w) s) z \<Longrightarrow> ota_reaches b H U (w, s) z"

inductive rcp_reaches :: "BuildOptions \<Rightarrow> 'h UpdateHal \<Rightarrow> RcpWorker \<times> 'h System \<Rightarrow> RcpWorker \<times> 'h System \<Rightarrow> bool"
  for b U where
  rcp_reaches_refl: "rcp_reaches b U y y"
| rcp_reaches_step: "rcp_reaches b U (run_state (rcp_worker_step b U w) s) z \<Longrightarrow> rcp_reaches b U (w, s) z"

definition note_if_dropped :: "bool \<Rightarrow> ('h, unit) sys" where
  "note_if_dropped ok = (if ok then State_Monad.return () else on_net (on_runtime note_dropped_event))"

lemma ota_reaches_reports:
  assumes "run_state (publish_all_progress (oq_request_id q) ps) s = ((), t)"
    and "ota_reaches b H U (OtaReporting q mqtt [] result, t) z"
  shows "ota_reaches b H U (OtaReporting q mqtt ps result, s) z"
  using assms
proof (induction ps arbitrary: s)
  case (Cons p ps)
  show ?case
    by (rule ota_reaches_step) (use Cons in \<open>simp_all add: publish_ota_status_progress_def\<close>)
qed simp

lemma ota_reaches_ending:
  assumes "run_state (ota_deliver H U (oq_request_id q) result) s = (ok, t)"
    and "run_state (if done then ota_reboot b H U (oq_request_id q) result else State_Monad.return ()) t = ((), u)"
    and "run_state (note_if_dropped (done \<and> ok)) u = ((), v)"
  shows "ota_reaches b H U (OtaEnding q result done, s) (OtaIdle, v)"
proof -
  obtain s1 where s1: "run_state (publish_ota_status_finished (oq_request_id q) result) s = ((), s1)"
    by (metis surj_pair old.unit.exhaust)
  obtain s2 where s2: "run_state ota_release s1 = ((), s2)" by (metis surj_pair old.unit.exhaust)
  have queueing: "run_state (ota_worker_step b H U (OtaQueueing q result done)) s2 = (OtaClosing q result done ok, t)"
    using assms(1) s1 s2 by (auto simp: ota_deliver_def split: prod.splits)
  have closing: "run_state (ota_worker_step b H U (OtaClosing q result done ok)) t = (OtaIdle, v)"
    using assms(2,3) by (auto simp: note_if_dropped_def split: if_splits)
  have "ota_reaches b H U (OtaQueueing q result done, s2) (OtaIdle, v)"
    by (rule ota_reaches_step, subst queueing, rule ota_reaches_step, subst closing, rule ota_reaches_refl)
  then have "ota_reaches b H U (OtaReleasing q result done, s1) (OtaIdle, v)"
    by (intro ota_reaches_step) (simp add: s2)
  then show ?thesis by (intro ota_reaches_step) (simp add: s1)
qed

lemma ota_reaches_taken:
  assumes "run_state (ota_process_request b H U q) s = (ok, t)" "run_state (note_if_dropped ok) t = ((), u)"
  shows "ota_reaches b H U (OtaTaken q, s) (OtaIdle, u)"
proof -
  let ?i = "oq_request_id q"
  obtain s1 where start: "run_state (ota_start H U q) s = ((), s1)" by (metis surj_pair old.unit.exhaust)
  show ?thesis
  proof (cases "build_ota_transport_request b q")
    case None
    let ?res = "ota_result_default\<lparr>ot_status := kOtaInvalidArgument\<rparr>"
    obtain ok' s2 where deliver: "run_state (ota_deliver H U ?i ?res) s1 = (ok', s2)" by fastforce
    have "ok = False" "t = s2" using assms(1) by (simp_all add: ota_process_request_def start None deliver)
    then have "ota_reaches b H U (OtaEnding q ?res False, s1) (OtaIdle, u)"
      using assms(2) by (intro ota_reaches_ending[OF deliver]) simp_all
    then show ?thesis by (intro ota_reaches_step) (simp add: start None)
  next
    case (Some hr)
    obtain mqtt s2 where mqtt: "run_state (ota_preflight b H U ?i) s1 = (mqtt, s2)" by fastforce
    obtain s3 where before: "run_state (persist_ota_debug_breadcrumb H U ?i ''before_hal'') s2 = ((), s3)"
      by (metis surj_pair old.unit.exhaust)
    obtain r h where r: "hal_ota_perform_https_update U hr (nt_hal (sy_net s3)) = (r, h)" by fastforce
    let ?ps = "ota_reports q (fst r)" and ?res = "ota_result_of q (fst (snd r)) (snd (snd r))"
    obtain s5 where progress: "run_state (publish_all_progress ?i ?ps) (s3\<lparr>sy_net := (sy_net s3)\<lparr>nt_hal := h\<rparr>\<rparr>) = ((), s5)"
      by (metis surj_pair old.unit.exhaust)
    obtain s6 where after: "run_state (persist_ota_debug_breadcrumb H U ?i ''after_hal'') s5 = ((), s6)"
      by (metis surj_pair old.unit.exhaust)
    obtain s7 where recover: "run_state (ota_recover U mqtt ?res) s6 = ((), s7)" by (metis surj_pair old.unit.exhaust)
    obtain ok' s8 where deliver: "run_state (ota_deliver H U ?i ?res) s7 = (ok', s8)" by fastforce
    obtain s9 where reboot: "run_state (ota_reboot b H U ?i ?res) s8 = ((), s9)" by (metis surj_pair old.unit.exhaust)
    have "ok' = ok" "s9 = t"
      using assms(1)
      by (simp_all add: ota_process_request_def ota_transfer_def start Some mqtt before r progress after recover deliver reboot Let_def)
    then have "ota_reaches b H U (OtaEnding q ?res True, s7) (OtaIdle, u)"
      using assms(2) reboot by (intro ota_reaches_ending[OF deliver]) simp_all
    then have "ota_reaches b H U (OtaReporting q mqtt [] ?res, s5) (OtaIdle, u)"
      by (intro ota_reaches_step) (simp add: after recover)
    note reports = ota_reaches_reports[OF progress this]
    have running: "run_state (ota_worker_step b H U (OtaRunning q hr)) s1 =
        (OtaReporting q mqtt ?ps ?res, s3\<lparr>sy_net := (sy_net s3)\<lparr>nt_hal := h\<rparr>\<rparr>)"
      by (simp add: mqtt before r)
    have "ota_reaches b H U (OtaRunning q hr, s1) (OtaIdle, u)"
      by (rule ota_reaches_step, subst running, rule reports)
    then show ?thesis by (intro ota_reaches_step) (simp add: start Some)
  qed
qed

text \<open>Left alone, the worker steps through one round of its loop.\<close>

lemma ota_drain_is_reached: "ota_reaches b H U (OtaIdle, s) (OtaIdle, snd (run_state (ota_drain_requests b H U) s))"
proof (cases "run_state (ota_pop_request H U) s")
  case (Pair r s1)
  show ?thesis
  proof (cases r)
    case None
    then show ?thesis by (intro ota_reaches_step) (simp add: Pair ota_drain_requests_def ota_reaches_refl)
  next
    case (Some q)
    obtain ok t where process: "run_state (ota_process_request b H U q) s1 = (ok, t)" by fastforce
    obtain u where note_drop: "run_state (note_if_dropped ok) t = ((), u)" by (metis surj_pair old.unit.exhaust)
    have "snd (run_state (ota_drain_requests b H U) s) = u"
      using note_drop by (auto simp: ota_drain_requests_def Pair Some process note_if_dropped_def split: if_splits)
    then show ?thesis
      using ota_reaches_taken[OF process note_drop] by (intro ota_reaches_step) (simp add: Pair Some)
  qed
qed


lemma rcp_reaches_ending:
  assumes "run_state (rcp_deliver (rq_request_id q) result) s = (ok, t)"
  shows "rcp_reaches b U (RcpEnding q result, s) (RcpWaiting, t)"
proof -
  let ?free = "s\<lparr>sy_rcp := (sy_rcp s)\<lparr>ra_busy := False\<rparr>\<rparr>"
  obtain s2 where s2: "run_state (publish_rcp_status_finished (rq_request_id q) result) ?free = ((), s2)"
    by (metis surj_pair old.unit.exhaust)
  have "run_state (rcp_worker_step b U (RcpQueueing q result)) s2 = (RcpWaiting, t)"
    using assms s2 by (auto simp: rcp_deliver_def split: prod.splits)
  then have "rcp_reaches b U (RcpQueueing q result, s2) (RcpWaiting, t)"
    by (intro rcp_reaches_step) (simp only: rcp_reaches_refl)
  then have "rcp_reaches b U (RcpPublishing q result, ?free) (RcpWaiting, t)"
    by (intro rcp_reaches_step) (simp add: s2)
  then show ?thesis by (intro rcp_reaches_step) simp
qed

lemma rcp_drain_is_reached: "rcp_reaches b U (RcpWaiting, s) (RcpWaiting, snd (run_state (rcp_drain_requests b U) s))"
proof (cases "run_state rcp_pop_request s")
  case (Pair r s1)
  show ?thesis
  proof (cases r)
    case None
    then show ?thesis by (intro rcp_reaches_step) (simp add: Pair rcp_drain_requests_def rcp_reaches_refl)
  next
    case (Some q)
    obtain ok t where process: "run_state (rcp_process_request b U q) s1 = (ok, t)" by fastforce
    have drain: "snd (run_state (rcp_drain_requests b U) s) = t" by (simp add: rcp_drain_requests_def Pair Some process)
    obtain s2 where start: "run_state (rcp_start q) s1 = ((), s2)" by (metis surj_pair old.unit.exhaust)
    obtain available h where avail: "hal_rcp_backend_available U (nt_hal (sy_net s2)) = (available, h)" by fastforce
    let ?s3 = "s2\<lparr>sy_net := (sy_net s2)\<lparr>nt_hal := h\<rparr>\<rparr>"
    have "rcp_reaches b U (RcpTaken q, s1) (RcpWaiting, t)"
    proof (cases "available \<and> build_rcp_transport_request b q \<noteq> None")
      case True
      then obtain hr where hr: "available" "build_rcp_transport_request b q = Some hr" by auto
      obtain r' h' where transfer: "hal_rcp_perform_https_update U hr (nt_hal (sy_net ?s3)) = (r', h')" by fastforce
      have "run_state (rcp_deliver (rq_request_id q) (rcp_result_of q (fst r') (snd r')))
          (?s3\<lparr>sy_net := (sy_net ?s3)\<lparr>nt_hal := h'\<rparr>\<rparr>) = (ok, t)"
        using process hr transfer by (simp add: rcp_process_request_def start avail)
      from rcp_reaches_ending[OF this, of b U] transfer
      have "rcp_reaches b U (RcpRunning q hr, ?s3) (RcpWaiting, t)"
        by (intro rcp_reaches_step) simp
      then show ?thesis by (intro rcp_reaches_step) (simp add: start avail hr)
    next
      case False
      let ?res = "rcp_result_default\<lparr>ru_target_version := request_version_or_empty q,
          ru_status := (if available then kRcpInvalidArgument else kRcpOpUnsupportedBackend)\<rparr>"
      have "run_state (rcp_deliver (rq_request_id q) ?res) ?s3 = (ok, t)"
        using process False by (auto simp: rcp_process_request_def start avail split: if_splits)
      from rcp_reaches_ending[OF this, of b U] False show ?thesis
        by (intro rcp_reaches_step) (auto simp: start avail Let_def split: if_splits)
    qed
    then show ?thesis by (intro rcp_reaches_step) (simp add: Pair Some drain)
  qed
qed

section \<open>Who holds what\<close>

text \<open>The part of the managers that decides who may start: the slot, the busy flag, the pending count.\<close>

abbreviation ota_ctl :: "'h System \<Rightarrow> OtaStartRequest option \<times> bool \<times> u32" where
  "ota_ctl s \<equiv> (oa_slot (sy_ota s), oa_busy (sy_ota s), oa_pending_count (sy_ota s))"

abbreviation rcp_ctl :: "'h System \<Rightarrow> RcpUpdateRequest option \<times> bool \<times> u32" where
  "rcp_ctl s \<equiv> (ra_slot (sy_rcp s), ra_busy (sy_rcp s), ra_pending_count (sy_rcp s))"

lemma keeps_ctl [keeps_intros]:
  "keeps ota_ctl (driver d)" "keeps ota_ctl (on_net m)" "keeps ota_ctl (on_rcp g)"
  "(\<And>o'. oa_slot (f o') = oa_slot o' \<and> oa_busy (f o') = oa_busy o' \<and> oa_pending_count (f o') = oa_pending_count o') \<Longrightarrow>
    keeps ota_ctl (on_ota f)"
  "keeps rcp_ctl (driver d)" "keeps rcp_ctl (on_net m)" "keeps rcp_ctl (on_ota f)"
  "(\<And>r. ra_slot (g r) = ra_slot r \<and> ra_busy (g r) = ra_busy r \<and> ra_pending_count (g r) = ra_pending_count r) \<Longrightarrow>
    keeps rcp_ctl (on_rcp g)"
  by (simp_all add: keeps_def split: prod.split)

lemmas sys_defs = persist_ota_debug_breadcrumb_def publish_ota_status_queued_def publish_ota_status_started_def
  publish_ota_status_progress_def publish_ota_status_finished_def publish_ota_status_reboot_pending_def
  publish_rcp_status_queued_def publish_rcp_status_started_def publish_rcp_status_finished_def
  note_ota_poll_def queue_ota_result_def note_rcp_poll_def queue_rcp_update_result_def build_manifest_context_def
  ota_start_def rcp_start_def ota_pause_mqtt_def ota_resume_mqtt_def ota_preflight_def ota_recover_def ota_reboot_def

lemma keeps_ota_ctl [keeps_intros]:
  "keeps ota_ctl (persist_ota_debug_breadcrumb H U i x)" "keeps ota_ctl (build_manifest_context b U)"
  "keeps ota_ctl (ota_start H U q)" "keeps ota_ctl (ota_preflight b H U i)" "keeps ota_ctl (ota_recover U mqtt result)"
  "keeps ota_ctl (ota_reboot b H U i result)" "keeps ota_ctl (queue_ota_result i result)"
  "keeps ota_ctl (note_ota_poll i p)" "keeps ota_ctl (publish_ota_status_queued q)"
  "keeps ota_ctl (publish_ota_status_progress i k)" "keeps ota_ctl (publish_ota_status_finished i result)"
  unfolding sys_defs by (intro keeps_intros; simp)+

lemma keeps_rcp_ctl [keeps_intros]:
  "keeps rcp_ctl (persist_ota_debug_breadcrumb H U i x)" "keeps rcp_ctl (build_manifest_context b U)"
  "keeps rcp_ctl (ota_start H U q)" "keeps rcp_ctl (ota_preflight b H U i)" "keeps rcp_ctl (ota_recover U mqtt result)"
  "keeps rcp_ctl (ota_reboot b H U i result)" "keeps rcp_ctl (queue_ota_result i result)"
  "keeps rcp_ctl (note_ota_poll i p)" "keeps rcp_ctl (publish_ota_status_queued q)"
  "keeps rcp_ctl (publish_ota_status_progress i k)" "keeps rcp_ctl (publish_ota_status_finished i result)"
  "keeps rcp_ctl (rcp_start q')" "keeps rcp_ctl (queue_rcp_update_result i result')"
  "keeps rcp_ctl (note_rcp_poll i p')" "keeps rcp_ctl (publish_rcp_status_queued q')"
  "keeps rcp_ctl (publish_rcp_status_finished i result')"
  unfolding sys_defs by (intro keeps_intros; simp)+


lemma ota_enqueue_effect:
  assumes "run_state (ota_enqueue_request b H U q) s = (status, t)"
  shows "rcp_ctl t = rcp_ctl s"
    and "status \<noteq> kOtaAccepted \<Longrightarrow> ota_ctl t = ota_ctl s"
    and "status = kOtaAccepted \<Longrightarrow> oq_request_id q \<noteq> 0 \<and> oa_slot (sy_ota s) = None \<and> \<not> oa_busy (sy_ota s) \<and>
      (\<exists>q'. oq_request_id q' = oq_request_id q \<and> ota_ctl t = (Some q', False, 1))"
proof -
  have all: "rcp_ctl t = rcp_ctl s \<and> (if status = kOtaAccepted then
      oq_request_id q \<noteq> 0 \<and> oa_slot (sy_ota s) = None \<and> \<not> oa_busy (sy_ota s) \<and>
      (\<exists>q'. oq_request_id q' = oq_request_id q \<and> ota_ctl t = (Some q', False, 1)) else ota_ctl t = ota_ctl s)"
  proof (cases "oq_request_id q = 0 \<or> om_url (oq_manifest q) = []")
    case True
    then show ?thesis using assms by (auto simp: ota_enqueue_request_def)
  next
    case False
    obtain c s1 where c: "run_state (build_manifest_context b U) s = (c, s1)" by fastforce
    have s1: "ota_ctl s1 = ota_ctl s" "rcp_ctl s1 = rcp_ctl s"
      using keepsD[OF keeps_ota_ctl(2) c] keepsD[OF keeps_rcp_ctl(2) c] .
    define q' where "q' = q\<lparr>oq_manifest := apply_ota_manifest_defaults c (oq_manifest q)\<rparr>"
    define st where "st = map_manifest_status (validate_ota_manifest (bo_allow_http b)
        (hal_ota_verify_manifest_signature U) (oq_manifest q') c)"
    have id: "oq_request_id q' = oq_request_id q" by (simp add: q'_def)
    show ?thesis
    proof (cases "st \<noteq> kOtaAccepted \<or> oa_slot (sy_ota s1) \<noteq> None \<or> oa_busy (sy_ota s1)")
      case True
      have "t = s1 \<and> status \<noteq> kOtaAccepted"
        using assms False True
        by (auto simp: ota_enqueue_request_def c Let_def st_def q'_def split: if_splits)
      then show ?thesis using s1 by auto
    next
      case free: False
      let ?s2 = "s1\<lparr>sy_ota := ota_fill_slot q' (sy_ota s1)\<rparr>"
      obtain s3 where s3: "run_state (persist_ota_debug_breadcrumb H U (oq_request_id q') ''accepted'') ?s2 = ((), s3)"
        by (metis surj_pair old.unit.exhaust)
      obtain s4 where s4: "run_state (note_ota_poll (oq_request_id q') kOtaQueued) s3 = ((), s4)"
        by (metis surj_pair old.unit.exhaust)
      have run: "status = kOtaAccepted" "run_state (publish_ota_status_queued q') s4 = ((), t)"
        using assms False free s3 s4
        by (auto simp: ota_enqueue_request_def c Let_def publish_ota_status_queued_def st_def q'_def)
      have "ota_ctl t = ota_ctl ?s2" "rcp_ctl t = rcp_ctl ?s2"
        using keepsD[OF keeps_ota_ctl(1) s3] keepsD[OF keeps_rcp_ctl(1) s3] keepsD[OF keeps_ota_ctl(8) s4]
          keepsD[OF keeps_rcp_ctl(8) s4] keepsD[OF keeps_ota_ctl(9) run(2)] keepsD[OF keeps_rcp_ctl(9) run(2)] by simp_all
      then show ?thesis using s1 free False run(1) id by (auto simp: ota_fill_slot_def)
    qed
  qed
  show "rcp_ctl t = rcp_ctl s" using all ..
  show "status \<noteq> kOtaAccepted \<Longrightarrow> ota_ctl t = ota_ctl s" using all by simp
  show "status = kOtaAccepted \<Longrightarrow> oq_request_id q \<noteq> 0 \<and> oa_slot (sy_ota s) = None \<and> \<not> oa_busy (sy_ota s) \<and>
      (\<exists>q'. oq_request_id q' = oq_request_id q \<and> ota_ctl t = (Some q', False, 1))"
    using all by simp
qed

lemma rcp_enqueue_effect:
  assumes "run_state (rcp_enqueue_request U q) s = (status, t)"
  shows "ota_ctl t = ota_ctl s"
    and "status \<noteq> kRcpAccepted \<Longrightarrow> rcp_ctl t = rcp_ctl s"
    and "status = kRcpAccepted \<Longrightarrow> rq_request_id q \<noteq> 0 \<and> ra_slot (sy_rcp s) = None \<and> \<not> ra_busy (sy_rcp s) \<and>
      rcp_ctl t = (Some q, False, 1)"
  using assms
  by (auto simp: rcp_enqueue_request_def rcp_fill_slot_def note_rcp_poll_def publish_rcp_status_queued_def Let_def
      split: if_splits prod.splits)

section \<open>Every order of steps and posts\<close>

datatype UpdateOp = PostOta OtaStartRequest | PostRcp RcpUpdateRequest | OtaStep | RcpStep | DrainOtaStatus | DrainRcpStatus

type_synonym 'h updates = "'h System \<times> OtaWorker \<times> RcpWorker"

fun update_op :: "BuildOptions \<Rightarrow> 'h Hal \<Rightarrow> 'h UpdateHal \<Rightarrow> UpdateOp \<Rightarrow> 'h updates \<Rightarrow> 'h updates" where
  "update_op b H U (PostOta q) (s, wo, wr) = (snd (run_state (post_ota_start b H U q) s), wo, wr)"
| "update_op b H U (PostRcp q) (s, wo, wr) = (snd (run_state (post_rcp_update_start U q) s), wo, wr)"
| "update_op b H U OtaStep (s, wo, wr) = (case run_state (ota_worker_step b H U wo) s of (wo', t) \<Rightarrow> (t, wo', wr))"
| "update_op b H U RcpStep (s, wo, wr) = (case run_state (rcp_worker_step b U wr) s of (wr', t) \<Rightarrow> (t, wo, wr'))"
| "update_op b H U DrainOtaStatus (s, wo, wr) = (snd (run_state drain_ota_status_update s), wo, wr)"
| "update_op b H U DrainRcpStatus (s, wo, wr) = (snd (run_state (drain_rcp_update_status_update U) s), wo, wr)"

text \<open>The request of a worker, while it is not answered, and whether the manager is busy with it.\<close>

fun ota_request_of :: "OtaWorker \<Rightarrow> OtaStartRequest option" where
  "ota_request_of OtaIdle = None"
| "ota_request_of (OtaTaken q) = Some q"
| "ota_request_of (OtaRunning q hr) = Some q"
| "ota_request_of (OtaReporting q mqtt ps r) = Some q"
| "ota_request_of (OtaEnding q r d) = Some q"
| "ota_request_of (OtaReleasing q r d) = Some q"
| "ota_request_of (OtaQueueing q r d) = Some q"
| "ota_request_of (OtaClosing q r d k) = None"

fun ota_worker_busy :: "OtaWorker \<Rightarrow> bool" where
  "ota_worker_busy OtaIdle = False"
| "ota_worker_busy (OtaQueueing q r d) = False"
| "ota_worker_busy (OtaClosing q r d k) = False"
| "ota_worker_busy _ = True"

fun rcp_request_of :: "RcpWorker \<Rightarrow> RcpUpdateRequest option" where
  "rcp_request_of RcpWaiting = None"
| "rcp_request_of (RcpTaken q) = Some q"
| "rcp_request_of (RcpRunning q hr) = Some q"
| "rcp_request_of (RcpEnding q r) = Some q"
| "rcp_request_of (RcpPublishing q r) = Some q"
| "rcp_request_of (RcpQueueing q r) = Some q"

fun rcp_worker_busy :: "RcpWorker \<Rightarrow> bool" where
  "rcp_worker_busy (RcpTaken q) = True"
| "rcp_worker_busy (RcpRunning q hr) = True"
| "rcp_worker_busy (RcpEnding q r) = True"
| "rcp_worker_busy _ = False"

lemma ota_step_keeps_rcp: "keeps rcp_ctl (ota_worker_step b H U w)"
  by (cases "(b, H, U, w)" rule: ota_worker_step.cases)
    (simp_all add: ota_pop_request_def ota_release_def, (intro conjI impI keeps_intros)+)

lemma ota_step_keeps:
  "w \<noteq> OtaIdle \<Longrightarrow> \<forall>q r d. w \<noteq> OtaReleasing q r d \<Longrightarrow> keeps ota_ctl (ota_worker_step b H U w)"
  by (cases "(b, H, U, w)" rule: ota_worker_step.cases) (simp_all, (intro conjI impI keeps_intros; simp)+)

lemma ota_step_worker:
  "run_state (ota_worker_step b H U w) s = (w', t) \<Longrightarrow>
    ota_request_of w' = (case w of OtaIdle \<Rightarrow> oa_slot (sy_ota s) | OtaQueueing q r d \<Rightarrow> None | _ \<Rightarrow> ota_request_of w)"
  "run_state (ota_worker_step b H U w) s = (w', t) \<Longrightarrow>
    ota_worker_busy w' = (case w of OtaIdle \<Rightarrow> oa_slot (sy_ota s) \<noteq> None | OtaReleasing q r d \<Rightarrow> False | _ \<Rightarrow> ota_worker_busy w)"
  by (cases "(b, H, U, w)" rule: ota_worker_step.cases;
      auto simp: ota_pop_request_def split: option.splits prod.splits)+

lemma ota_step_idle:
  assumes "run_state (ota_worker_step b H U OtaIdle) s = (w', t)"
  shows "ota_ctl t = (case oa_slot (sy_ota s) of None \<Rightarrow> ota_ctl s | Some q \<Rightarrow> (None, True, 0))"
proof (cases "oa_slot (sy_ota s)")
  case None
  then show ?thesis using assms by (simp add: ota_pop_request_def)
next
  case (Some q)
  let ?s = "s\<lparr>sy_ota := (sy_ota s)\<lparr>oa_slot := None, oa_pending_count := 0, oa_busy := True,
      oa_active_request_id := oq_request_id q\<rparr>\<rparr>"
  have "run_state (persist_ota_debug_breadcrumb H U (oq_request_id q) ''worker_popped'') ?s = ((), t)"
    using assms Some by (auto simp: ota_pop_request_def split: prod.splits)
  from keepsD[OF keeps_ota_ctl(1) this] show ?thesis by (simp add: Some)
qed

lemma ota_step_releasing:
  "run_state (ota_worker_step b H U (OtaReleasing q r d)) s = (w', t) \<Longrightarrow>
   ota_ctl t = (oa_slot (sy_ota s), False, oa_pending_count (sy_ota s))"
  by (auto simp: ota_release_def)

lemma rcp_step_keeps_ota: "keeps ota_ctl (rcp_worker_step b U w)"
  by (cases w) (simp_all add: rcp_pop_request_def rcp_start_def note_rcp_poll_def publish_rcp_status_started_def
      publish_rcp_status_finished_def queue_rcp_update_result_def, (intro keeps_intros)+)

lemma rcp_step_effect:
  assumes "run_state (rcp_worker_step b U w) s = (w', t)"
  shows "rcp_ctl t = (case w of
        RcpWaiting \<Rightarrow> (case ra_slot (sy_rcp s) of None \<Rightarrow> rcp_ctl s | Some q \<Rightarrow> (None, True, 0))
      | RcpEnding q r \<Rightarrow> (ra_slot (sy_rcp s), False, ra_pending_count (sy_rcp s))
      | _ \<Rightarrow> rcp_ctl s)"
    and "rcp_request_of w' = (case w of RcpWaiting \<Rightarrow> ra_slot (sy_rcp s) | RcpQueueing q r \<Rightarrow> None | _ \<Rightarrow> rcp_request_of w)"
    and "rcp_worker_busy w' = (case w of RcpWaiting \<Rightarrow> ra_slot (sy_rcp s) \<noteq> None | RcpEnding q r \<Rightarrow> False | _ \<Rightarrow> rcp_worker_busy w)"
  using assms
  by (cases w; auto simp: rcp_pop_request_def rcp_start_def note_rcp_poll_def publish_rcp_status_started_def
      publish_rcp_status_finished_def queue_rcp_update_result_def Let_def split: option.splits prod.splits if_splits)+


section \<open>The books of the two managers\<close>

fun option_id :: "('a \<Rightarrow> u32) \<Rightarrow> 'a option \<Rightarrow> u32 multiset" where
  "option_id f None = {#}"
| "option_id f (Some x) = {#f x#}"

text \<open>The ids of the requests accepted and not answered, those a step accepts, those it answers.\<close>

fun open_updates :: "'h updates \<Rightarrow> u32 multiset" where
  "open_updates (s, wo, wr) = option_id oq_request_id (oa_slot (sy_ota s)) + option_id oq_request_id (ota_request_of wo) +
     option_id rq_request_id (ra_slot (sy_rcp s)) + option_id rq_request_id (rcp_request_of wr)"

fun update_accepts :: "BuildOptions \<Rightarrow> 'h Hal \<Rightarrow> 'h UpdateHal \<Rightarrow> UpdateOp \<Rightarrow> 'h updates \<Rightarrow> u32 multiset" where
  "update_accepts b H U (PostOta q) (s, wo, wr) =
     (if fst (run_state (post_ota_start b H U q) s) = kOtaAccepted then {#oq_request_id q#} else {#})"
| "update_accepts b H U (PostRcp q) (s, wo, wr) =
     (if fst (run_state (post_rcp_update_start U q) s) = kRcpAccepted then {#rq_request_id q#} else {#})"
| "update_accepts b H U a y = {#}"

fun update_answers :: "UpdateOp \<Rightarrow> 'h updates \<Rightarrow> u32 multiset" where
  "update_answers OtaStep (s, OtaQueueing q r d, wr) =
     (if fst (run_state (queue_ota_result (oq_request_id q) r) s) then {#oq_request_id q#} else {#})"
| "update_answers RcpStep (s, wo, RcpQueueing q r) =
     (if fst (run_state (queue_rcp_update_result (rq_request_id q) r) s) then {#rq_request_id q#} else {#})"
| "update_answers a y = {#}"

definition ota_active :: "'h System \<Rightarrow> bool" where
  "ota_active s \<longleftrightarrow> oa_slot (sy_ota s) \<noteq> None \<or> oa_busy (sy_ota s)"

definition rcp_active :: "'h System \<Rightarrow> bool" where
  "rcp_active s \<longleftrightarrow> ra_slot (sy_rcp s) \<noteq> None \<or> ra_busy (sy_rcp s)"

fun ids_ok :: "('a \<Rightarrow> u32) \<Rightarrow> 'a option \<Rightarrow> bool" where
  "ids_ok f None = True"
| "ids_ok f (Some x) = (f x \<noteq> 0)"

fun updates_ok :: "'h updates \<Rightarrow> bool" where
  "updates_ok (s, wo, wr) \<longleftrightarrow>
     oa_busy (sy_ota s) = ota_worker_busy wo \<and>
     oa_pending_count (sy_ota s) = (if oa_slot (sy_ota s) = None then 0 else 1) \<and>
     ids_ok oq_request_id (oa_slot (sy_ota s)) \<and> ids_ok oq_request_id (ota_request_of wo) \<and>
     ra_busy (sy_rcp s) = rcp_worker_busy wr \<and>
     ra_pending_count (sy_rcp s) = (if ra_slot (sy_rcp s) = None then 0 else 1) \<and>
     ids_ok rq_request_id (ra_slot (sy_rcp s)) \<and> ids_ok rq_request_id (rcp_request_of wr) \<and>
     \<not> (ota_active s \<and> rcp_active s)"

lemma ctl_eqs:
  "ota_ctl t = ota_ctl s \<Longrightarrow> oa_slot (sy_ota t) = oa_slot (sy_ota s) \<and> oa_busy (sy_ota t) = oa_busy (sy_ota s) \<and>
     oa_pending_count (sy_ota t) = oa_pending_count (sy_ota s)"
  "rcp_ctl t = rcp_ctl s \<Longrightarrow> ra_slot (sy_rcp t) = ra_slot (sy_rcp s) \<and> ra_busy (sy_rcp t) = ra_busy (sy_rcp s) \<and>
     ra_pending_count (sy_rcp t) = ra_pending_count (sy_rcp s)"
  by simp_all

lemma updates_ok_cong:
  assumes "ota_ctl t = ota_ctl s" "rcp_ctl t = rcp_ctl s"
  shows "updates_ok (t, wo, wr) = updates_ok (s, wo, wr)" "open_updates (t, wo, wr) = open_updates (s, wo, wr)"
  using assms by (auto simp: ota_active_def rcp_active_def)

lemma post_ota_balance:
  assumes ok: "updates_ok (s, wo, wr)" and run: "run_state (post_ota_start b H U q) s = (status, t)"
  shows "updates_ok (t, wo, wr)"
    and "open_updates (t, wo, wr) = open_updates (s, wo, wr) + (if status = kOtaAccepted then {#oq_request_id q#} else {#})"
proof -
  have all: "updates_ok (t, wo, wr) \<and>
      open_updates (t, wo, wr) = open_updates (s, wo, wr) + (if status = kOtaAccepted then {#oq_request_id q#} else {#})"
  proof (cases "rcp_has_pending_or_busy (sy_rcp s)")
    case True
    then show ?thesis using assms by (auto simp: post_ota_start_def)
  next
    case False
    obtain started s1 where s1: "run_state (if bo_esp b then driver (start_ota_worker U) else State_Monad.return True) s = (started, s1)"
      by fastforce
    have same: "ota_ctl s1 = ota_ctl s" "rcp_ctl s1 = rcp_ctl s"
      using s1 by (auto split: if_splits prod.splits)
    show ?thesis
    proof (cases started)
      case False
      have "t = s1 \<and> status = kOtaBusy"
        using run s1 False \<open>\<not> rcp_has_pending_or_busy (sy_rcp s)\<close> by (auto simp: post_ota_start_def split: if_splits prod.splits)
      then show ?thesis using ok updates_ok_cong[OF same, of wo wr] by simp
    next
      case True
      have enq: "run_state (ota_enqueue_request b H U q) s1 = (status, t)"
        using run s1 True \<open>\<not> rcp_has_pending_or_busy (sy_rcp s)\<close> by (auto simp: post_ota_start_def split: if_splits prod.splits)
      note e = ota_enqueue_effect[OF enq]
      show ?thesis
      proof (cases "status = kOtaAccepted")
        case True
        obtain q' where q': "oq_request_id q' = oq_request_id q" "ota_ctl t = (Some q', False, 1)"
          and free: "oq_request_id q \<noteq> 0" "oa_slot (sy_ota s1) = None" "\<not> oa_busy (sy_ota s1)"
          using e(3)[OF True] by blast
        then show ?thesis
          using ok same e(1) True \<open>\<not> rcp_has_pending_or_busy (sy_rcp s)\<close>
          by (auto simp: rcp_has_pending_or_busy_def ota_active_def rcp_active_def split: if_splits)
      next
        case refused: False
        have "ota_ctl t = ota_ctl s" "rcp_ctl t = rcp_ctl s" using e(1) e(2)[OF refused] same by auto
        from updates_ok_cong[OF this, of wo wr] show ?thesis using ok refused by simp
      qed
    qed
  qed
  then show "updates_ok (t, wo, wr)"
    and "open_updates (t, wo, wr) = open_updates (s, wo, wr) + (if status = kOtaAccepted then {#oq_request_id q#} else {#})"
    by blast+
qed

lemma post_rcp_balance:
  assumes ok: "updates_ok (s, wo, wr)" and run: "run_state (post_rcp_update_start U q) s = (status, t)"
  shows "updates_ok (t, wo, wr)"
    and "open_updates (t, wo, wr) = open_updates (s, wo, wr) + (if status = kRcpAccepted then {#rq_request_id q#} else {#})"
proof -
  have all: "updates_ok (t, wo, wr) \<and>
      open_updates (t, wo, wr) = open_updates (s, wo, wr) + (if status = kRcpAccepted then {#rq_request_id q#} else {#})"
  proof (cases "ota_has_pending_or_busy (sy_ota s)")
    case True
    then show ?thesis using assms by (auto simp: post_rcp_update_start_def)
  next
    case False
    then have enq: "run_state (rcp_enqueue_request U q) s = (status, t)" using run by (simp add: post_rcp_update_start_def)
    note e = rcp_enqueue_effect[OF enq]
    show ?thesis
    proof (cases "status = kRcpAccepted")
      case True
      show ?thesis using e(3)[OF True] e(1) ok True False
        by (auto simp: ota_has_pending_or_busy_def ota_active_def rcp_active_def split: if_splits)
    next
      case refused: False
      from updates_ok_cong[OF e(1) e(2)[OF refused], of wo wr] show ?thesis using ok refused by simp
    qed
  qed
  then show "updates_ok (t, wo, wr)"
    and "open_updates (t, wo, wr) = open_updates (s, wo, wr) + (if status = kRcpAccepted then {#rq_request_id q#} else {#})"
    by blast+
qed


lemma ota_step_balance:
  assumes ok: "updates_ok (s, w, wr)" and run: "run_state (ota_worker_step b H U w) s = (w', t)"
  shows "updates_ok (t, w', wr)"
    and "open_updates (t, w', wr) + update_answers OtaStep (s, w, wr) = open_updates (s, w, wr)"
proof -
  note rcp = keepsD[OF ota_step_keeps_rcp run] and worker = ota_step_worker[OF run]
  have all: "updates_ok (t, w', wr) \<and> open_updates (t, w', wr) + update_answers OtaStep (s, w, wr) = open_updates (s, w, wr)"
  proof (cases "w = OtaIdle \<or> (\<exists>q r d. w = OtaReleasing q r d)")
    case True
    then show ?thesis
    proof
      assume w: "w = OtaIdle"
      then show ?thesis using ota_step_idle[OF run[unfolded w]] worker ok rcp
        by (cases "oa_slot (sy_ota s)") (auto simp: ota_active_def rcp_active_def)
    next
      assume "\<exists>q r d. w = OtaReleasing q r d"
      then obtain q r d where w: "w = OtaReleasing q r d" by blast
      then show ?thesis using ota_step_releasing[OF run[unfolded w]] worker ok rcp
        by (auto simp: ota_active_def rcp_active_def)
    qed
  next
    case False
    then have ota: "ota_ctl t = ota_ctl s" using keepsD[OF ota_step_keeps run] by blast
    have answers: "update_answers OtaStep (s, w, wr) = (case w of OtaQueueing q r d \<Rightarrow> {#oq_request_id q#} | _ \<Rightarrow> {#})"
      using ok by (cases w) (auto simp: queue_ota_result_def publish_ota_result_def split: prod.split)
    show ?thesis using False ota rcp worker ok answers
      by (cases w) (auto simp: ota_active_def rcp_active_def split: if_splits)
  qed
  then show "updates_ok (t, w', wr)"
    and "open_updates (t, w', wr) + update_answers OtaStep (s, w, wr) = open_updates (s, w, wr)" by blast+
qed

lemma rcp_step_balance:
  assumes ok: "updates_ok (s, wo, w)" and run: "run_state (rcp_worker_step b U w) s = (w', t)"
  shows "updates_ok (t, wo, w')"
    and "open_updates (t, wo, w') + update_answers RcpStep (s, wo, w) = open_updates (s, wo, w)"
proof -
  note ota = keepsD[OF rcp_step_keeps_ota run] and worker = rcp_step_effect[OF run]
  have answers: "update_answers RcpStep (s, wo, w) = (case w of RcpQueueing q r \<Rightarrow> {#rq_request_id q#} | _ \<Rightarrow> {#})"
    using ok by (cases w) (auto simp: queue_rcp_update_result_def publish_rcp_update_result_def split: prod.split)
  have all: "updates_ok (t, wo, w') \<and> open_updates (t, wo, w') + update_answers RcpStep (s, wo, w) = open_updates (s, wo, w)"
    using ota worker ok answers
    by (cases w; cases "ra_slot (sy_rcp s)") (auto simp: ota_active_def rcp_active_def split: if_splits)
  then show "updates_ok (t, wo, w')"
    and "open_updates (t, wo, w') + update_answers RcpStep (s, wo, w) = open_updates (s, wo, w)" by blast+
qed

lemma keeps_pair [keeps_intros]: "(\<And>x z. keeps f (g x z)) \<Longrightarrow> keeps f (case p of (x, z) \<Rightarrow> g x z)"
  by (simp split: prod.split)

lemma drains_keep_ctl:
  "keeps ota_ctl drain_ota_status_update" "keeps rcp_ctl drain_ota_status_update"
  "keeps ota_ctl (drain_rcp_update_status_update U)" "keeps rcp_ctl (drain_rcp_update_status_update U)"
proof -
  show "keeps ota_ctl drain_ota_status_update" "keeps rcp_ctl drain_ota_status_update"
    by (auto simp: keeps_def drain_ota_status_update_def take_ota_status_update_def apply_ota_status_update_def Let_def
        split: option.splits OtaStatusUpdateKind.splits)
  show "keeps ota_ctl (drain_rcp_update_status_update U)"
    unfolding drain_rcp_update_status_update_def apply_rcp_status_update_def rcp_current_version_def
      fill_backend_snapshot_fields_def
    by (intro keeps_intros)
  show "keeps rcp_ctl (drain_rcp_update_status_update U)"
    by (auto simp: keeps_def drain_rcp_update_status_update_def take_rcp_status_update_def apply_rcp_status_update_def
        rcp_current_version_def fill_backend_snapshot_fields_def split: option.splits prod.splits)
qed

lemma update_op_balance:
  assumes "updates_ok y"
  shows "updates_ok (update_op b H U a y)"
    and "open_updates (update_op b H U a y) + update_answers a y = open_updates y + update_accepts b H U a y"
proof -
  obtain s wo wr where y: "y = (s, wo, wr)" by (cases y)
  have drain: "updates_ok (snd (run_state m s), wo, wr) \<and> open_updates (snd (run_state m s), wo, wr) = open_updates (s, wo, wr)"
    if "keeps ota_ctl m" "keeps rcp_ctl m" for m :: "('a, bool) sys"
  proof -
    obtain x t where t: "run_state m s = (x, t)" by fastforce
    from updates_ok_cong[OF keepsD[OF that(1) t] keepsD[OF that(2) t], of wo wr] show ?thesis
      using assms by (simp add: y t)
  qed
  have "updates_ok (update_op b H U a y) \<and>
      open_updates (update_op b H U a y) + update_answers a y = open_updates y + update_accepts b H U a y"
  proof (cases a)
    case (PostOta q)
    obtain st t where run: "run_state (post_ota_start b H U q) s = (st, t)" by fastforce
    show ?thesis using post_ota_balance[OF assms[unfolded y] run] by (simp add: y PostOta run)
  next
    case (PostRcp q)
    obtain st t where run: "run_state (post_rcp_update_start U q) s = (st, t)" by fastforce
    show ?thesis using post_rcp_balance[OF assms[unfolded y] run] by (simp add: y PostRcp run)
  next
    case OtaStep
    obtain w' t where run: "run_state (ota_worker_step b H U wo) s = (w', t)" by fastforce
    show ?thesis using ota_step_balance[OF assms[unfolded y] run] by (simp add: y OtaStep run)
  next
    case RcpStep
    obtain w' t where run: "run_state (rcp_worker_step b U wr) s = (w', t)" by fastforce
    show ?thesis using rcp_step_balance[OF assms[unfolded y] run] by (simp add: y RcpStep run)
  next
    case DrainOtaStatus
    then show ?thesis using drain[OF drains_keep_ctl(1,2)] by (simp add: y)
  next
    case DrainRcpStatus
    then show ?thesis using drain[OF drains_keep_ctl(3,4)] by (simp add: y)
  qed
  then show "updates_ok (update_op b H U a y)"
    and "open_updates (update_op b H U a y) + update_answers a y = open_updates y + update_accepts b H U a y" by blast+
qed

interpretation update_ledger: ledger "update_op b H U" open_updates "update_accepts b H U" update_answers updates_ok for b H U
  by unfold_locales (simp_all only: update_op_balance)

definition updates_start :: "'h \<Rightarrow> 'h updates" where
  "updates_start h = (system_init h, OtaIdle, RcpWaiting)"

definition update_session :: "BuildOptions \<Rightarrow> 'h Hal \<Rightarrow> 'h UpdateHal \<Rightarrow> UpdateOp list \<Rightarrow> 'h updates \<Rightarrow> 'h updates" where
  "update_session b H U ops y = ledger.run (update_op b H U) ops y"

definition accepted_updates :: "BuildOptions \<Rightarrow> 'h Hal \<Rightarrow> 'h UpdateHal \<Rightarrow> UpdateOp list \<Rightarrow> 'h updates \<Rightarrow> u32 multiset" where
  "accepted_updates b H U ops y = ledger.total (update_op b H U) (update_accepts b H U) ops y"

definition answered_updates :: "BuildOptions \<Rightarrow> 'h Hal \<Rightarrow> 'h UpdateHal \<Rightarrow> UpdateOp list \<Rightarrow> 'h updates \<Rightarrow> u32 multiset" where
  "answered_updates b H U ops y = ledger.total (update_op b H U) update_answers ops y"

lemma updates_start_ok: "updates_ok (updates_start h)" "open_updates (updates_start h) = {#}"
  by (simp_all add: updates_start_def system_init_def ota_manager_init_def rcp_manager_init_def ota_active_def rcp_active_def)



text \<open>Drivers of a test bench: nothing is stored, every call succeeds, a transfer reports half of the image first.\<close>

definition bench_hal :: "unit Hal" where
  "bench_hal =
     \<lparr>hal_clock_ms = (\<lambda>h. (1, h)), hal_nvs_get_str = (\<lambda>k n h. (None, h)), hal_nvs_set_str = (\<lambda>k v h. (True, h)),
      hal_wifi_get_mode = (\<lambda>h. (Some HAL_WIFI_MODE_STA, h)), hal_wifi_set_mode = (\<lambda>m h. (True, h)),
      hal_wifi_start_ap = (\<lambda>a b h. (True, h)), hal_wifi_get_ap_client_count = (\<lambda>h. (Some 0, h)),
      hal_wifi_connect_sta = (\<lambda>a b h. (True, h)), hal_wifi_connect_sta_async = (\<lambda>a b h. (True, h)),
      hal_wifi_scan = (\<lambda>n h. (Some [], h)), hal_zigbee_set_primary_channel_mask = (\<lambda>m h. (True, h)),
      hal_zigbee_set_max_children = (\<lambda>m h. (True, h)), hal_zigbee_init = (\<lambda>h. (True, h)),
      hal_zigbee_is_network_formed = (\<lambda>h. (True, h)),
      hal_zigbee_start_network_formation = (\<lambda>h. (HAL_ZIGBEE_STATUS_OK, h)),
      hal_zigbee_open_network = (\<lambda>n h. (HAL_ZIGBEE_STATUS_OK, h)), hal_zigbee_close_network = (\<lambda>h. (HAL_ZIGBEE_STATUS_OK, h)),
      hal_zigbee_remove_device = (\<lambda>a h. (HAL_ZIGBEE_STATUS_OK, h)), hal_zigbee_get_join_window_status = (\<lambda>h. (Some (False, 0), h))\<rparr>"

definition bench_update_hal :: "unit UpdateHal" where
  "bench_update_hal =
     \<lparr>hal_nvs_set_u32 = (\<lambda>k v h. (True, h)), hal_nvs_get_u32 = (\<lambda>k h. (None, h)),
      hal_ota_get_running_version = (\<lambda>n h. (''0.1.0'', h)), hal_ota_verify_manifest_signature = (\<lambda>p a k x. False),
      hal_ota_perform_https_update = (\<lambda>q h. (([(512, 1024, True)], 0,
        \<lparr>hr_status = HAL_OTA_HTTPS_STATUS_OK, hr_reboot_required = True, hr_bytes_read = 1024, hr_image_size = 1024,
         hr_image_size_known = True, hr_diag = transport_diag_default, hr_discovered_version = ''0.2.0''\<rparr>), h)),
      hal_ota_schedule_restart = (\<lambda>d h. h), start_ota_worker = (\<lambda>h. (True, h)),
      hal_mqtt_is_enabled = (\<lambda>h. (False, h)), hal_mqtt_stop = (\<lambda>h. (True, h)), hal_mqtt_start = (\<lambda>h. (True, h)),
      hal_mqtt_release_resources = (\<lambda>h. (True, h)), hal_mqtt_restore_resources = (\<lambda>h. (True, h)),
      hal_rcp_backend_available = (\<lambda>h. (True, h)), hal_rcp_get_backend_name = (\<lambda>n h. (None, h)),
      hal_rcp_get_running_version = (\<lambda>n h. (None, h)),
      hal_rcp_perform_https_update = (\<lambda>q h. ((0, \<lparr>hs_status = HAL_RCP_HTTPS_STATUS_OK, hs_bytes_read = 256,
         hs_discovered_version = []\<rparr>), h))\<rparr>"

definition bench_options :: BuildOptions where
  "bench_options = \<lparr>bo_esp = True, bo_allow_http = False, bo_trust_cert_bundle = True, bo_trust_pinned_ca = False,
     bo_auto_reboot = True, bo_reboot_delay_ms = 0, bo_chip_target = ''esp32c6'', bo_root_ca_pem = []\<rparr>"

definition bench_ota_request :: OtaStartRequest where
  "bench_ota_request = \<lparr>oq_request_id = 7, oq_manifest = ota_manifest_default\<lparr>om_url := ''https://host/image.bin''\<rparr>\<rparr>"

definition bench_rcp_request :: RcpUpdateRequest where
  "bench_rcp_request = \<lparr>rq_request_id = 8, rq_url = ''https://host/rcp.bin'', rq_target_version = [], rq_sha256 = [],
     rq_board = [], rq_transport = [], rq_gateway_min_version = []\<rparr>"

section \<open>Posts that overlap\<close>

text \<open>
  The two posts run in tasks of their own, and each is a check of the other manager followed by an entry into its
  own. Here both checks come before both entries.
\<close>

definition overlapping_posts ::
  "BuildOptions \<Rightarrow> 'h Hal \<Rightarrow> 'h UpdateHal \<Rightarrow> OtaStartRequest \<Rightarrow> RcpUpdateRequest \<Rightarrow>
   ('h, OtaSubmitStatus \<times> RcpUpdateSubmitStatus) sys" where
  "overlapping_posts b H U q p = do {
     r \<leftarrow> gets sy_rcp;
     o' \<leftarrow> gets sy_ota;
     st \<leftarrow> (if rcp_has_pending_or_busy r then State_Monad.return kOtaBusy else ota_enqueue_request b H U q);
     sr \<leftarrow> (if ota_has_pending_or_busy o' then State_Monad.return kRcpConflict else rcp_enqueue_request U p);
     State_Monad.return (st, sr)
   }"

text \<open>
  Nothing holds the two posts apart once both checks are made: whenever both managers are free and each request
  would be accepted on its own, overlapping posts accept both, and a firmware update and an update of the
  co-processor run at the same time.
\<close>

theorem overlapping_posts_start_both:
  assumes "\<not> rcp_has_pending_or_busy (sy_rcp s)" "\<not> ota_has_pending_or_busy (sy_ota s)"
    and "run_state (ota_enqueue_request b H U q) s = (kOtaAccepted, t)"
    and "run_state (rcp_enqueue_request U p) t = (kRcpAccepted, u)"
  shows "run_state (overlapping_posts b H U q p) s = ((kOtaAccepted, kRcpAccepted), u) \<and> ota_active u \<and> rcp_active u"
proof -
  have "ota_active t" using ota_enqueue_effect(3)[OF assms(3)] by (auto simp: ota_active_def)
  then have "ota_active u" using rcp_enqueue_effect(1)[OF assms(4)] by (auto simp: ota_active_def)
  moreover have "rcp_active u" using rcp_enqueue_effect(3)[OF assms(4)] by (auto simp: rcp_active_def)
  ultimately show ?thesis using assms by (simp add: overlapping_posts_def)
qed

lemma ota_enqueue_accepts:
  assumes "oq_request_id q \<noteq> 0" "om_url (oq_manifest q) \<noteq> []"
    and "run_state (build_manifest_context b U) s = (c, s)" "oa_slot (sy_ota s) = None" "\<not> oa_busy (sy_ota s)"
    and "validate_ota_manifest (bo_allow_http b) (hal_ota_verify_manifest_signature U)
          (apply_ota_manifest_defaults c (oq_manifest q)) c = kManifestOk"
  shows "fst (run_state (ota_enqueue_request b H U q) s) = kOtaAccepted"
  using assms by (simp add: ota_enqueue_request_def map_manifest_status_def Let_def split: prod.split)

definition bench_context :: OtaManifestContext where
  "bench_context = \<lparr>oc_current_version = ''0.1.0'', oc_current_project = ''zigbee_gateway'',
     oc_current_board = ''zigbee-gateway-esp32c6'', oc_current_chip_target = ''esp32c6'', oc_current_schema = kCurrentSchemaVersion\<rparr>"

lemma overlapping_posts_start_both_witness:
  "let y = run_state (overlapping_posts bench_options bench_hal bench_update_hal bench_ota_request bench_rcp_request)
             (system_init ())
   in fst y = (kOtaAccepted, kRcpAccepted) \<and> ota_active (snd y) \<and> rcp_active (snd y)"
proof -
  let ?ota = "run_state (ota_enqueue_request bench_options bench_hal bench_update_hal bench_ota_request) (system_init ())"
  let ?rcp = "run_state (rcp_enqueue_request bench_update_hal bench_rcp_request) (snd ?ota)"
  have free: "\<not> rcp_has_pending_or_busy (sy_rcp (system_init ()))" "\<not> ota_has_pending_or_busy (sy_ota (system_init ()))"
    by (simp_all add: system_init_def rcp_manager_init_def ota_manager_init_def rcp_has_pending_or_busy_def ota_has_pending_or_busy_def)
  have idle: "oa_slot (sy_ota (system_init ())) = None" "\<not> oa_busy (sy_ota (system_init ()))"
    "rt_config (nt_runtime (sy_net (system_init ()))) = config_init"
    by (simp_all add: system_init_def ota_manager_init_def net_init_def runtime_init_def)
  have bench: "run_state (build_manifest_context bench_options bench_update_hal) (system_init ()) = (bench_context, system_init ())"
    by (simp add: build_manifest_context_def bench_update_hal_def bench_options_def bench_context_def idle text_of_def
        kProjectName_def kBoardId_def config_init_def)
  have valid: "validate_ota_manifest (bo_allow_http bench_options) (hal_ota_verify_manifest_signature bench_update_hal)
      (apply_ota_manifest_defaults bench_context (oq_manifest bench_ota_request)) bench_context = kManifestOk"
    by code_simp
  have "fst ?ota = kOtaAccepted"
    by (rule ota_enqueue_accepts[OF _ _ bench idle(1,2) valid]) (simp_all add: bench_ota_request_def)
  then have ota: "?ota = (kOtaAccepted, snd ?ota)" by (metis prod.collapse)
  have "ra_slot (sy_rcp (snd ?ota)) = None \<and> \<not> ra_busy (sy_rcp (snd ?ota))"
    using ota_enqueue_effect(1)[OF ota] by (simp add: system_init_def rcp_manager_init_def)
  moreover have "validate_rcp_request bench_rcp_request = kRcpAccepted" by code_simp
  ultimately have "fst ?rcp = kRcpAccepted"
    by (simp add: rcp_enqueue_request_def bench_update_hal_def bench_rcp_request_def split: prod.split)
  then have rcp: "?rcp = (kRcpAccepted, snd ?rcp)" by (metis prod.collapse)
  show ?thesis using overlapping_posts_start_both[OF free ota rcp] by (simp add: Let_def)
qed

section \<open>The update that announces the reboot\<close>

text \<open>
  The status updates share one place. When a firmware update has succeeded, the worker publishes that it is
  finished and at once that the reboot is pending; unless the runtime comes in between, the first is gone, and
  the second changes nothing of a snapshot that still shows the download: it stays busy, in the same stage,
  until the restart.
\<close>

theorem reboot_update_hides_the_finish:
  assumes "bo_esp b" "bo_auto_reboot b" "ot_status result = kOtaOk" "ot_reboot_required result"
    and "oq_request_id q \<noteq> 0" "os_stage (oa_snapshot (sy_ota s)) \<noteq> kSwitchPending"
    and "run_state (do { ok \<leftarrow> ota_deliver H U (oq_request_id q) result; ota_reboot b H U (oq_request_id q) result;
           drain_ota_status_update }) s = (drained, t)"
  shows "drained \<and> oa_snapshot (sy_ota t) = (oa_snapshot (sy_ota s))\<lparr>os_active_request_id := oq_request_id q\<rparr>"
proof -
  have snapshot: "keeps (\<lambda>s. oa_snapshot (sy_ota s)) (ota_deliver H U (oq_request_id q) result)"
    unfolding ota_deliver_def sys_defs ota_release_def
    by (intro keeps_intros) (auto simp: keeps_def split: prod.split)
  obtain ok s1 where s1: "run_state (ota_deliver H U (oq_request_id q) result) s = (ok, s1)" by fastforce
  have same: "oa_snapshot (sy_ota s1) = oa_snapshot (sy_ota s)" using keepsD[OF snapshot s1] .
  obtain s2 where s2: "run_state (ota_reboot b H U (oq_request_id q) result) s1 = ((), s2)"
    by (metis surj_pair old.unit.exhaust)
  have "sy_ota s2 = (sy_ota s1)\<lparr>oa_update := ota_update_default\<lparr>ou_kind := kOtaUpRebootPending, ou_request_id := oq_request_id q\<rparr>\<rparr>"
    using s2 assms(1-4)
    by (auto simp: ota_reboot_def publish_ota_status_reboot_pending_def persist_ota_debug_breadcrumb_def split: if_splits prod.splits)
  then show ?thesis
    using assms(5-7) same s1 s2
    by (auto simp: drain_ota_status_update_def take_ota_status_update_def apply_ota_status_update_def Let_def)
qed

lemma reboot_update_hides_the_finish_witness:
  "let m = (do { ok \<leftarrow> ota_deliver bench_hal bench_update_hal 7 (ota_result_default\<lparr>ot_status := kOtaOk, ot_reboot_required := True\<rparr>);
           ota_reboot bench_options bench_hal bench_update_hal 7 (ota_result_default\<lparr>ot_status := kOtaOk, ot_reboot_required := True\<rparr>);
           drain_ota_status_update });
       s = (system_init ())\<lparr>sy_ota := ota_manager_init\<lparr>oa_snapshot := ota_snapshot_default
             \<lparr>os_busy := True, os_stage := kOtaStageDownloading\<rparr>\<rparr>\<rparr>;
       t = snd (run_state m s)
   in os_busy (oa_snapshot (sy_ota t)) \<and> os_stage (oa_snapshot (sy_ota t)) = kOtaStageDownloading"
proof -
  let ?r = "ota_result_default\<lparr>ot_status := kOtaOk, ot_reboot_required := True\<rparr>"
  let ?s = "(system_init ())\<lparr>sy_ota := ota_manager_init\<lparr>oa_snapshot := ota_snapshot_default
             \<lparr>os_busy := True, os_stage := kOtaStageDownloading\<rparr>\<rparr>\<rparr>"
  let ?y = "run_state (do { ok \<leftarrow> ota_deliver bench_hal bench_update_hal (oq_request_id bench_ota_request) ?r;
      ota_reboot bench_options bench_hal bench_update_hal (oq_request_id bench_ota_request) ?r;
      drain_ota_status_update }) ?s"
  have q: "oq_request_id bench_ota_request = 7" by (simp add: bench_ota_request_def)
  have y: "?y = (fst ?y, snd ?y)" by (rule prod.collapse[symmetric])
  have "oa_snapshot (sy_ota (snd ?y)) = (oa_snapshot (sy_ota ?s))\<lparr>os_active_request_id := oq_request_id bench_ota_request\<rparr>"
    using reboot_update_hides_the_finish[OF _ _ _ _ _ _ y] by (simp add: bench_options_def q)
  then show ?thesis unfolding Let_def q by (simp add: ota_manager_init_def)
qed

end
