(* ===== verification/Gateway.thy ===== *)
theory Gateway
  imports ReadModel Updates NetworkPosts StatePersistence "HOL-Library.While_Combinator"
begin

text \<open>
  The runtime as a whole (\<^verbatim>\<open>components/service/service_runtime.cpp\<close>): the state of all managers together, the
  effects of the core (\<^verbatim>\<open>effect_executor.cpp\<close>), the cycle that drains the queues and reduces the events, and the
  tick. The drivers are records of functions on a state of their own. A successful write of a u32 value calls
  back into the runtime; here an operation that may write runs on a driver state that carries the list of its
  writes, and reports them when it is done (\<open>deliver_notes\<close>), which is the same because nothing in between looks
  at the queue they go to. The event bus is left out: no part of the repository subscribes to it.
\<close>

section \<open>Drivers\<close>

text \<open>The drivers of the effects, of the blobs and of the initialisation frames.\<close>

record 'd EffectHal =
  eh_set_blob :: "'d blob_setter"
  eh_get_blob :: "string \<Rightarrow> u8 list \<Rightarrow> 'd \<Rightarrow> hal_nvs_status \<times> u8 list \<times> u32 option"
  eh_led_set :: "bool \<Rightarrow> 'd \<Rightarrow> bool \<times> 'd"
  eh_send_on_off :: "u32 \<Rightarrow> u16 \<Rightarrow> bool \<Rightarrow> 'd \<Rightarrow> bool \<times> 'd"
  eh_wifi_refresh :: "'d \<Rightarrow> bool \<times> 'd"
  eh_send_tuya_dp :: "u32 \<Rightarrow> u16 \<Rightarrow> u8 \<Rightarrow> u8 \<Rightarrow> TuyaDpType \<Rightarrow> u8 list \<Rightarrow> u8 \<Rightarrow> 'd \<Rightarrow> bool \<times> 'd"

record 'd Platform =
  pf_build :: BuildOptions
  pf_hal :: "'d Hal"
  pf_update :: "'d UpdateHal"
  pf_effect :: "'d EffectHal"
  pf_pack :: "PersistedCoreStateV1 \<Rightarrow> u8 list"
  pf_unpack :: "u8 list \<Rightarrow> PersistedCoreStateV1"

text \<open>The state of the drivers with the u32 writes of the operation so far.\<close>

type_synonym 'd logged = "'d \<times> (string \<times> u32) list"

definition quiet :: "('d \<Rightarrow> 'a \<times> 'd) \<Rightarrow> 'd logged \<Rightarrow> 'a \<times> 'd logged" where
  "quiet f x = (case f (fst x) of (a, d) \<Rightarrow> (a, (d, snd x)))"

definition logging :: "'d setter \<Rightarrow> 'd logged setter" where
  "logging put k v x = (case put k v (fst x) of (ok, d) \<Rightarrow> (ok, (d, if ok then snd x @ [(k, v)] else snd x)))"

definition quiet_hal :: "'d Hal \<Rightarrow> 'd logged Hal" where
  "quiet_hal H =
     \<lparr>hal_clock_ms = quiet (hal_clock_ms H),
      hal_nvs_get_str = (\<lambda>k n. quiet (hal_nvs_get_str H k n)), hal_nvs_set_str = (\<lambda>k v. quiet (hal_nvs_set_str H k v)),
      hal_wifi_get_mode = quiet (hal_wifi_get_mode H), hal_wifi_set_mode = (\<lambda>m. quiet (hal_wifi_set_mode H m)),
      hal_wifi_start_ap = (\<lambda>s p. quiet (hal_wifi_start_ap H s p)),
      hal_wifi_get_ap_client_count = quiet (hal_wifi_get_ap_client_count H),
      hal_wifi_connect_sta = (\<lambda>s p. quiet (hal_wifi_connect_sta H s p)),
      hal_wifi_connect_sta_async = (\<lambda>s p. quiet (hal_wifi_connect_sta_async H s p)),
      hal_wifi_scan = (\<lambda>n. quiet (hal_wifi_scan H n)),
      hal_zigbee_set_primary_channel_mask = (\<lambda>m. quiet (hal_zigbee_set_primary_channel_mask H m)),
      hal_zigbee_set_max_children = (\<lambda>n. quiet (hal_zigbee_set_max_children H n)),
      hal_zigbee_init = quiet (hal_zigbee_init H),
      hal_zigbee_is_network_formed = quiet (hal_zigbee_is_network_formed H),
      hal_zigbee_start_network_formation = quiet (hal_zigbee_start_network_formation H),
      hal_zigbee_open_network = (\<lambda>s. quiet (hal_zigbee_open_network H s)),
      hal_zigbee_close_network = quiet (hal_zigbee_close_network H),
      hal_zigbee_remove_device = (\<lambda>a. quiet (hal_zigbee_remove_device H a)),
      hal_zigbee_get_join_window_status = quiet (hal_zigbee_get_join_window_status H)\<rparr>"

definition quiet_update_hal :: "'d UpdateHal \<Rightarrow> 'd logged UpdateHal" where
  "quiet_update_hal U =
     \<lparr>hal_nvs_set_u32 = logging (hal_nvs_set_u32 U), hal_nvs_get_u32 = (\<lambda>k. quiet (hal_nvs_get_u32 U k)),
      hal_ota_get_running_version = (\<lambda>n. quiet (hal_ota_get_running_version U n)),
      hal_ota_verify_manifest_signature = hal_ota_verify_manifest_signature U,
      hal_ota_perform_https_update = (\<lambda>r. quiet (hal_ota_perform_https_update U r)),
      hal_ota_schedule_restart = (\<lambda>t x. (hal_ota_schedule_restart U t (fst x), snd x)),
      start_ota_worker = quiet (start_ota_worker U),
      hal_mqtt_is_enabled = quiet (hal_mqtt_is_enabled U), hal_mqtt_stop = quiet (hal_mqtt_stop U),
      hal_mqtt_start = quiet (hal_mqtt_start U), hal_mqtt_release_resources = quiet (hal_mqtt_release_resources U),
      hal_mqtt_restore_resources = quiet (hal_mqtt_restore_resources U),
      hal_rcp_backend_available = quiet (hal_rcp_backend_available U),
      hal_rcp_get_backend_name = (\<lambda>n. quiet (hal_rcp_get_backend_name U n)),
      hal_rcp_get_running_version = (\<lambda>n. quiet (hal_rcp_get_running_version U n)),
      hal_rcp_perform_https_update = (\<lambda>r. quiet (hal_rcp_perform_https_update U r))\<rparr>"

abbreviation put_of :: "'d Platform \<Rightarrow> 'd logged setter" where "put_of P \<equiv> logging (hal_nvs_set_u32 (pf_update P))"

section \<open>The state of the runtime\<close>

record 'd Gateway =
  gw_system :: "'d System"
  gw_registry :: Registry
  gw_commands :: CommandManager
  gw_persistence :: PersistenceManager
  gw_state_persistence :: StatePersistence
  gw_read_models :: ReadModelCoordinator
  gw_pending_mqtt :: "MqttStatusSnapshot option"
  gw_mqtt_cache :: MqttStatusSnapshot

type_synonym ('d, 'a) gw = "'d Gateway \<Rightarrow> 'a \<times> 'd Gateway"

abbreviation gw_net :: "'d Gateway \<Rightarrow> ('d, OtaResult, RcpUpdateResult) Net" where
  "gw_net g \<equiv> sy_net (gw_system g)"

abbreviation gw_rt :: "'d Gateway \<Rightarrow> ServiceRuntime" where "gw_rt g \<equiv> nt_runtime (gw_net g)"

definition set_net :: "('d, OtaResult, RcpUpdateResult) Net \<Rightarrow> 'd Gateway \<Rightarrow> 'd Gateway" where
  "set_net n g = g\<lparr>gw_system := (gw_system g)\<lparr>sy_net := n\<rparr>\<rparr>"

definition set_rt :: "ServiceRuntime \<Rightarrow> 'd Gateway \<Rightarrow> 'd Gateway" where
  "set_rt rt g = set_net ((gw_net g)\<lparr>nt_runtime := rt\<rparr>) g"

definition upd_stats :: "(RuntimeStats \<Rightarrow> RuntimeStats) \<Rightarrow> 'd Gateway \<Rightarrow> 'd Gateway" where
  "upd_stats f g = set_rt ((gw_rt g)\<lparr>rt_stats := f (rt_stats (gw_rt g))\<rparr>) g"

text \<open>An operation of the network side, and one of the updates as well.\<close>

definition run_net_op :: "('d, OtaResult, RcpUpdateResult, 'a) net \<Rightarrow> ('d, 'a) gw" where
  "run_net_op m g = (case run_state m (gw_net g) of (a, n) \<Rightarrow> (a, set_net n g))"

definition run_sys_op :: "('d, 'a) sys \<Rightarrow> ('d, 'a) gw" where
  "run_sys_op m g = (case run_state m (gw_system g) of (a, s) \<Rightarrow> (a, g\<lparr>gw_system := s\<rparr>))"

text \<open>One driver call.\<close>

definition run_driver :: "('d \<Rightarrow> 'a \<times> 'd) \<Rightarrow> ('d, 'a) gw" where
  "run_driver f = run_net_op (call f)"

definition report_write :: "string \<times> u32 \<Rightarrow> ServiceRuntime \<times> PersistenceManager \<Rightarrow> ServiceRuntime \<times> PersistenceManager" where
  "report_write w x = on_nvs_u32_written (Some (fst w)) (snd w) (fst x) (snd x)"

definition deliver_notes :: "(string \<times> u32) list \<Rightarrow> 'd Gateway \<Rightarrow> 'd Gateway" where
  "deliver_notes log g =
     (case fold report_write log (gw_rt g, gw_persistence g) of
        (rt, pm) \<Rightarrow> set_rt rt (g\<lparr>gw_persistence := pm\<rparr>))"

text \<open>An operation of the updates that writes runs on the state with a list of writes.\<close>

definition change_hal :: "('d \<Rightarrow> 'e) \<Rightarrow> 'd System \<Rightarrow> 'e System" where
  "change_hal f s =
     (let n = sy_net s
      in \<lparr>sy_net = \<lparr>nt_hal = f (nt_hal n), nt_runtime = nt_runtime n, nt_connectivity = nt_connectivity n,
                     nt_policy = nt_policy n, nt_lifecycle = nt_lifecycle n, nt_network = nt_network n,
                     nt_scan = nt_scan n, nt_results = nt_results n\<rparr>,
          sy_ota = sy_ota s, sy_rcp = sy_rcp s\<rparr>)"

definition run_logged_op :: "('d logged, 'a) sys \<Rightarrow> ('d, 'a) gw" where
  "run_logged_op m g =
     (case run_state m (change_hal (\<lambda>d. (d, [])) (gw_system g)) of
        (a, s) \<Rightarrow> (a, deliver_notes (snd (nt_hal (sy_net s))) (g\<lparr>gw_system := change_hal fst s\<rparr>)))"

text \<open>One write of a u32 value, with its callback.\<close>

definition write_u32 :: "'d Platform \<Rightarrow> string \<Rightarrow> u32 \<Rightarrow> ('d, bool) gw" where
  "write_u32 P k v g =
     (case run_driver (hal_nvs_set_u32 (pf_update P) k v) g of
        (ok, g1) \<Rightarrow> (ok, if ok then deliver_notes [(k, v)] g1 else g1))"

section \<open>The read models\<close>

definition capture_core_read_model :: "Registry \<Rightarrow> CorePublishInput \<times> Registry" where
  "capture_core_read_model g =
     (let (ref, g1) = pin_current g;
          state = ss_state (reg_slots g1 ! sr_slot_index ref)
      in (\<lparr>ci_revision = st_revision state, ci_network_connected = st_network_connected state,
           ci_last_command_status = st_last_command_status state\<rparr>, snd (release_snapshot (Some ref) g1)))"

definition notify_read_models_from_runtime_stats :: "'d Gateway \<Rightarrow> 'd Gateway" where
  "notify_read_models_from_runtime_stats g =
     (let st = rt_stats (gw_rt g)
      in g\<lparr>gw_read_models := on_runtime_stats_changed
             \<lparr>ni_refresh_requests = rx_network_refresh_requests st, ni_current_backoff_ms = rx_current_backoff_ms st,
              ni_mqtt = gw_mqtt_cache g\<rparr> (gw_read_models g)\<rparr>)"

definition notify_read_models_from_config_cache :: "'d Gateway \<Rightarrow> 'd Gateway" where
  "notify_read_models_from_config_cache g =
     (let rt = gw_rt g
      in g\<lparr>gw_read_models := on_config_changed
             \<lparr>cfi_command_timeout_ms = rt_config_timeout_ms_cache rt,
              cfi_max_command_retries = ucast (rt_config_max_retries_cache rt),
              cfi_autoconnect_failures = rx_autoconnect_failures (rt_stats rt)\<rparr> (gw_read_models g)\<rparr>)"

definition notify_read_models_from_core_snapshot :: "'d Gateway \<Rightarrow> 'd Gateway" where
  "notify_read_models_from_core_snapshot g =
     (let (input, r) = capture_core_read_model (gw_registry g);
          (r1, c) = on_core_state_published input r (gw_read_models g)
      in g\<lparr>gw_registry := r1, gw_read_models := c\<rparr>)"

definition post_mqtt_status :: "MqttStatusSnapshot \<Rightarrow> ('d, bool) gw" where
  "post_mqtt_status status g =
     (True, g\<lparr>gw_pending_mqtt := Some (status\<lparr>mq_broker_endpoint_summary := take 95 (mq_broker_endpoint_summary status)\<rparr>)\<rparr>)"

definition drain_mqtt_status_update :: "('d, bool) gw" where
  "drain_mqtt_status_update g =
     (case gw_pending_mqtt g of
        None \<Rightarrow> (False, g)
      | Some status \<Rightarrow>
          (True, g\<lparr>gw_pending_mqtt := None, gw_mqtt_cache := status,
                   gw_read_models := on_mqtt_status_changed status (gw_read_models g)\<rparr>))"

definition gw_autoconnect :: "'d Platform \<Rightarrow> ('d, ConnectivityAutoconnectResult) gw" where
  "gw_autoconnect P g =
     (case run_net_op (autoconnect_from_saved_credentials (pf_hal P)) g of
        (a, g1) \<Rightarrow> (a, notify_read_models_from_runtime_stats g1))"

section \<open>The drains of a cycle\<close>

text \<open>Each takes everything its queue holds (the updates: one) and says whether it did something.\<close>

definition count_failed_effect :: "'d Gateway \<Rightarrow> 'd Gateway" where
  "count_failed_effect = upd_stats (\<lambda>st. st\<lparr>rx_failed_effects := rx_failed_effects st + 1\<rparr>)"

definition drain_persistence_flush :: "'d Platform \<Rightarrow> ('d, bool) gw" where
  "drain_persistence_flush P g =
     (case flush_if_needed (eh_set_blob (pf_effect P)) (pf_pack P) (gw_state_persistence g) (gw_registry g) (nt_hal (gw_net g)) of
        (r, sp, reg, h) \<Rightarrow>
          let g1 = set_net ((gw_net g)\<lparr>nt_hal := h\<rparr>) (g\<lparr>gw_state_persistence := sp, gw_registry := reg\<rparr>)
          in if r = kFlushed then (True, g1)
             else if r = kFlushFailed then (True, count_failed_effect g1)
             else (False, g1))"

definition drain_nvs :: "('d, bool) gw" where
  "drain_nvs g =
     (case drain_nvs_writes (gw_rt g) (gw_persistence g) of
        (b, rt, pm) \<Rightarrow> (b, set_rt rt (g\<lparr>gw_persistence := pm\<rparr>)))"

definition drain_config :: "'d Platform \<Rightarrow> ('d, bool) gw" where
  "drain_config P g =
     (let n = gw_net g
      in case drain_config_writes (put_of P) (nt_runtime n, (nt_hal n, []), nt_results n) (gw_persistence g) of
           (b, (rt, h, rs), pm) \<Rightarrow>
             (b, deliver_notes (snd h)
                   (set_net (n\<lparr>nt_runtime := rt, nt_hal := fst h, nt_results := rs\<rparr>) (g\<lparr>gw_persistence := pm\<rparr>))))"

definition drain_profiles :: "'d Platform \<Rightarrow> ('d, bool) gw" where
  "drain_profiles P g =
     (let n = gw_net g
      in case drain_reporting_profile_writes (put_of P) (nt_runtime n, (nt_hal n, [])) (gw_persistence g) of
           (b, (rt, h), pm) \<Rightarrow>
             (b, deliver_notes (snd h) (set_net (n\<lparr>nt_runtime := rt, nt_hal := fst h\<rparr>) (g\<lparr>gw_persistence := pm\<rparr>))))"

definition drain_network :: "'d Platform \<Rightarrow> ('d, bool) gw" where
  "drain_network P g = (case drain_requests (bo_esp (pf_build P)) (pf_hal P) (gw_net g) of (b, n) \<Rightarrow> (b, set_net n g))"

definition drain_ota :: "'d Platform \<Rightarrow> ('d, bool) gw" where
  "drain_ota P g =
     (if bo_esp (pf_build P) then (False, g)
      else run_logged_op (ota_drain_requests (pf_build P) (quiet_hal (pf_hal P)) (quiet_update_hal (pf_update P))) g)"

definition drain_ota_status :: "('d, bool) gw" where
  "drain_ota_status = run_sys_op drain_ota_status_update"

definition drain_rcp :: "'d Platform \<Rightarrow> ('d, bool) gw" where
  "drain_rcp P g =
     (if bo_esp (pf_build P) then (False, g)
      else run_sys_op (rcp_drain_requests (pf_build P) (pf_update P)) g)"

definition drain_rcp_status :: "'d Platform \<Rightarrow> ('d, bool) gw" where
  "drain_rcp_status P = run_sys_op (drain_rcp_update_status_update (pf_update P))"

definition drain_commands :: "('d, bool) gw" where
  "drain_commands g =
     (case drain_command_requests (gw_rt g) (gw_commands g) of
        (b, rt, m) \<Rightarrow> (b, set_rt rt (g\<lparr>gw_commands := m\<rparr>)))"

definition drain_results :: "('d, bool) gw" where
  "drain_results g =
     (case drain_command_results (gw_rt g) (gw_commands g) of
        (b, rt, m) \<Rightarrow> (b, set_rt rt (g\<lparr>gw_commands := m\<rparr>)))"

definition drains :: "'d Platform \<Rightarrow> ('d, bool) gw list" where
  "drains P = [drain_persistence_flush P, drain_nvs, drain_config P, drain_profiles P, drain_network P, drain_ota P,
     drain_ota_status, drain_rcp P, drain_rcp_status P, drain_commands, drain_results]"

fun run_drains :: "('d, bool) gw list \<Rightarrow> ('d, bool) gw" where
  "run_drains [] g = (False, g)"
| "run_drains (f # fs) g = (case f g of (b, g1) \<Rightarrow> case run_drains fs g1 of (c, g2) \<Rightarrow> (b \<or> c, g2))"

text \<open>The events that found no room since the last pass are counted.\<close>

definition take_dropped_ingress :: "('d, u32) gw" where
  "take_dropped_ingress g =
     (let rt = gw_rt g; n = rt_dropped_ingress rt
      in (n, set_rt (rt\<lparr>rt_dropped_ingress := 0,
                        rt_stats := (rt_stats rt)\<lparr>rx_dropped_events := rx_dropped_events (rt_stats rt) + n\<rparr>\<rparr>) g))"

section \<open>One event\<close>

definition normalize_occupancy :: "'d Platform \<Rightarrow> CoreEvent \<Rightarrow> 'd Gateway \<Rightarrow> 'd Gateway" where
  "normalize_occupancy P e g =
     (if ev_type e = kAttributeReported \<and> ev_cluster_id e = 0x0406 \<and> ev_attribute_id e = 0
      then
        let c = rt_config (gw_rt g);
            policy = \<lparr>op_debounce_ms = motion_occupancy_debounce_ms c, op_hold_ms = motion_occupancy_hold_ms c\<rparr>;
            (t, g1) = run_net_op (now (pf_hal P)) g;
            (domain_event, m) = normalize_occupancy_report (ev_device_short_addr e) (ev_value_u32 e AND 1 \<noteq> 0) t policy
                                  (rt_reporting (gw_rt g1));
            g2 = set_rt ((gw_rt g1)\<lparr>rt_reporting := m\<rparr>) g1
        in (case domain_event of
              None \<Rightarrow> g2
            | Some d \<Rightarrow> (case push_event d (gw_rt g2) of
                           (ok, rt) \<Rightarrow> set_rt (if ok then rt else note_dropped_event rt) g2))
      else g)"

definition note_reporting_actions :: "RuntimeActions \<Rightarrow> RuntimeStats \<Rightarrow> RuntimeStats" where
  "note_reporting_actions a st =
     (let st1 = (if ra_mark_degraded a then st\<lparr>rx_reporting_failures := rx_reporting_failures st + 1\<rparr> else st)
      in if ra_request_interview a \<or> ra_request_bind a \<or> ra_request_configure_reporting a
         then st1\<lparr>rx_reporting_retries := rx_reporting_retries st1 + 1\<rparr> else st1)"

definition apply_reporting :: "CoreEvent \<Rightarrow> 'd Gateway \<Rightarrow> 'd Gateway" where
  "apply_reporting e g =
     (let rt = gw_rt g; (actions, m) = rm_handle_event e (rt_reporting rt)
      in set_rt (rt\<lparr>rt_reporting := m,
                    rt_stats := (note_reporting_actions actions (rt_stats rt))\<lparr>rx_stale_devices := degraded_count m\<rparr>\<rparr>) g)"

definition apply_managers :: "'d Platform \<Rightarrow> CoreEvent \<Rightarrow> 'd Gateway \<Rightarrow> 'd Gateway" where
  "apply_managers P e g =
     (let g1 = apply_reporting e (normalize_occupancy P e g);
          rt = gw_rt g1;
          g2 = set_rt (rt\<lparr>rt_devices := snd (DeviceManager.handle_event e (rt_devices rt))\<rparr>) g1;
          n = gw_net g2;
          g3 = set_net (n\<lparr>nt_network := snd (network_handle_event e (nt_network n))\<rparr>) g2;
          (t, g4) = run_net_op (now (pf_hal P)) g3;
          (_, g5) = run_net_op (maybe_request_auto_rejoin_window (pf_hal P) (ev_type e) (ev_device_short_addr e) t) g4
      in upd_stats (\<lambda>st. st\<lparr>rx_network_refresh_requests := nm_refresh_count (nt_network (gw_net g5))\<rparr>) g5)"

section \<open>Effects\<close>

definition execute_effect :: "'d Platform \<Rightarrow> CoreEffect \<Rightarrow> ('d, bool) gw" where
  "execute_effect P f g =
     (case ef_type f of
        kPersistState \<Rightarrow> write_u32 P ''core_rev'' (ef_arg_u32 f) g
      | kSetLed \<Rightarrow> run_driver (eh_led_set (pf_effect P) (ef_arg_bool f)) g
      | kSendZigbeeOnOff \<Rightarrow>
          run_driver (eh_send_on_off (pf_effect P) (ef_correlation_id f) (ef_device_short_addr f) (ef_arg_bool f)) g
      | kEffectRefreshNetwork \<Rightarrow> run_driver (eh_wifi_refresh (pf_effect P)) g
      | _ \<Rightarrow> (True, g))"

text \<open>The data point a switch is sent instead, when its descriptor resolved to a Tuya plugin.\<close>

definition tuya_on_off_command :: "CoreEffect \<Rightarrow> ServiceRuntime \<Rightarrow> TuyaDpCommand option" where
  "tuya_on_off_command effect rt =
     (case descriptor_entry (ef_device_short_addr effect) (rt_descriptors rt) of
        None \<Rightarrow> None
      | Some e \<Rightarrow>
          if dd_status e \<noteq> kDescriptorResolved then None
          else
            let fp = \<lparr>fp_manufacturer = Some (cstr (dd_manufacturer e)), fp_model = Some (cstr (dd_model e)),
                      fp_endpoint = 1\<rparr>;
                enc = encode_command fp \<lparr>tc_kind = kNormPowerOn, tc_value = (if ef_arg_bool effect then 1 else 0)\<rparr>
            in if \<not> te_plugin_found enc \<or> \<not> tk_supported (te_dp_command enc) then None
               else Some (te_dp_command enc))"

lemma tuya_on_off_command_eq:
  "try_execute_tuya_on_off send f rt =
     (case tuya_on_off_command f rt of
        None \<Rightarrow> (False, False) | Some c \<Rightarrow> (send (ef_correlation_id f) (ef_device_short_addr f) c, True))"
  by (simp add: try_execute_tuya_on_off_def tuya_on_off_command_def Let_def split: option.split)

definition perform_effect :: "'d Platform \<Rightarrow> CoreEffect \<Rightarrow> ('d, bool) gw" where
  "perform_effect P f g =
     (case (if ef_type f = kSendZigbeeOnOff then tuya_on_off_command f (gw_rt g) else None) of
        Some c \<Rightarrow> run_driver (eh_send_tuya_dp (pf_effect P) (ef_correlation_id f) (ef_device_short_addr f)
                    (tk_endpoint c) (tk_dp_id c) (tk_dp_type c) (tk_value c) (tk_value_len c)) g
      | None \<Rightarrow> execute_effect P f g)"

definition save_config :: "'d Platform \<Rightarrow> 'd Gateway \<Rightarrow> 'd Gateway" where
  "save_config P g =
     (let n = gw_net g
      in case save (put_of P) (rt_config (nt_runtime n)) (nt_hal n, []) of
           (_, c, h) \<Rightarrow>
             deliver_notes (snd h) (set_net (n\<lparr>nt_hal := fst h, nt_runtime := (nt_runtime n)\<lparr>rt_config := c\<rparr>\<rparr>) g))"

definition count_effect :: "bool \<Rightarrow> RuntimeStats \<Rightarrow> RuntimeStats" where
  "count_effect ok st =
     (let st1 = st\<lparr>rx_executed_effects := rx_executed_effects st + 1\<rparr>
      in if ok then st1 else st1\<lparr>rx_failed_effects := rx_failed_effects st1 + 1\<rparr>)"

definition after_effect :: "'d Platform \<Rightarrow> CoreEffect \<Rightarrow> 'd Gateway \<Rightarrow> 'd Gateway" where
  "after_effect P f g =
     (if ef_type f = kPersistState
      then (save_config P g)\<lparr>gw_state_persistence := note_persist_state_requested (gw_state_persistence g)\<rparr>
      else g)"

fun execute_effects :: "'d Platform \<Rightarrow> CoreEffect list \<Rightarrow> 'd Gateway \<Rightarrow> 'd Gateway" where
  "execute_effects P [] g = g"
| "execute_effects P (f # fs) g =
     (case perform_effect P f g of
        (ok, g1) \<Rightarrow> execute_effects P fs (after_effect P f (upd_stats (count_effect ok) g1)))"

section \<open>The cycle\<close>

definition reduce_and_publish :: "CoreEvent \<Rightarrow> 'd Gateway \<Rightarrow> CoreEffect list \<times> 'd Gateway" where
  "reduce_and_publish e g =
     (let (prev, reg) = snapshot_copy (gw_registry g);
          reduced = core_reduce prev e;
          g1 = g\<lparr>gw_registry := reg\<rparr>
      in (effects_of (rr_effects reduced),
          if st_revision (rr_next reduced) \<noteq> st_revision prev
          then (case publish (rr_next reduced) reg of
                  (ok, reg1) \<Rightarrow> let g2 = g1\<lparr>gw_registry := reg1\<rparr>
                                in if ok then g2 else set_rt (note_dropped_event (gw_rt g2)) g2)
          else g1))"

definition process_event :: "'d Platform \<Rightarrow> CoreEvent \<Rightarrow> 'd Gateway \<Rightarrow> 'd Gateway" where
  "process_event P e g =
     (let g1 = apply_managers P e (upd_stats (\<lambda>st. st\<lparr>rx_processed_events := rx_processed_events st + 1\<rparr>) g);
          g2 = (if ev_type e = kNetworkDown then snd (gw_autoconnect P g1) else g1);
          (effects, g3) = reduce_and_publish e g2
      in execute_effects P effects g3)"

text \<open>The loop: whether it goes on, the number of events it took, whether it did anything, the state.\<close>

record 'd Cycle =
  cy_running :: bool
  cy_processed :: nat
  cy_progress :: bool
  cy_gateway :: "'d Gateway"

definition kMaxProcessedEventsPerCycle :: nat where "kMaxProcessedEventsPerCycle = 64"

definition cycle_step :: "'d Platform \<Rightarrow> 'd Cycle \<Rightarrow> 'd Cycle" where
  "cycle_step P c =
     (if cy_processed c \<ge> kMaxProcessedEventsPerCycle then c\<lparr>cy_running := False\<rparr>
      else
        let (dropped, g1) = take_dropped_ingress (cy_gateway c);
            progress = (cy_progress c \<or> dropped \<noteq> 0);
            (made_progress, g2) = run_drains (drains P) g1
        in case pop_event (gw_rt g2) of
             None \<Rightarrow> \<lparr>cy_running = made_progress, cy_processed = cy_processed c,
                      cy_progress = (progress \<or> made_progress), cy_gateway = g2\<rparr>
           | Some (e, rt) \<Rightarrow> \<lparr>cy_running = True, cy_processed = cy_processed c + 1, cy_progress = True,
                               cy_gateway = process_event P e (set_rt rt g2)\<rparr>)"

definition cycle_start :: "'d Platform \<Rightarrow> 'd Gateway \<Rightarrow> 'd Cycle" where
  "cycle_start P g =
     (let (a, g1) = drain_mqtt_status_update g;
          (b, g2) = drain_ota_status g1;
          (c, g3) = drain_rcp_status P g2
      in \<lparr>cy_running = True, cy_processed = 0, cy_progress = (a \<or> b \<or> c), cy_gateway = g3\<rparr>)"

definition cycle_end :: "'d Cycle \<Rightarrow> nat \<times> 'd Gateway" where
  "cycle_end c =
     (let g = cy_gateway c;
          g1 = (if cy_progress c then notify_read_models_from_config_cache (notify_read_models_from_runtime_stats g) else g)
      in (cy_processed c, if cy_progress c \<and> cy_processed c \<noteq> 0 then notify_read_models_from_core_snapshot g1 else g1))"

text \<open>\<open>None\<close>: the loop never ends.\<close>

definition process_pending :: "'d Platform \<Rightarrow> 'd Gateway \<Rightarrow> (nat \<times> 'd Gateway) option" where
  "process_pending P g = map_option cycle_end (while_option cy_running (cycle_step P) (cycle_start P g))"

section \<open>The tick\<close>

fun push_stale_events :: "u16 list \<Rightarrow> ServiceRuntime \<Rightarrow> nat \<times> ServiceRuntime" where
  "push_stale_events [] rt = (0, rt)"
| "push_stale_events (a # as) rt =
     (case push_event (core_event_default\<lparr>ev_type := kDeviceStale, ev_device_short_addr := a\<rparr>) rt of
        (True, rt1) \<Rightarrow> (case push_stale_events as rt1 of (n, rt2) \<Rightarrow> (n + 1, rt2))
      | (False, rt1) \<Rightarrow>
          let rt2 = note_dropped_event rt1
          in push_stale_events as (rt2\<lparr>rt_reporting := snd (set_stale_pending a False (rt_reporting rt2))\<rparr>))"

definition tick_stale :: "u32 \<Rightarrow> ('d, nat) gw" where
  "tick_stale now_ms g =
     (let rt = gw_rt g;
          (as, m) = collect_stale_candidates now_ms kDefaultMaxSilenceWindowMs (rt_reporting rt);
          (n, rt1) = push_stale_events as (rt\<lparr>rt_reporting := m\<rparr>)
      in (n, set_rt rt1 g))"

definition tick_tuya_init :: "'d Platform \<Rightarrow> u32 \<Rightarrow> 'd Gateway \<Rightarrow> 'd Gateway" where
  "tick_tuya_init P now_ms g =
     (let rt = gw_rt g;
          (act, ti) = init_tick now_ms (rt_tuya_init rt);
          g1 = set_rt (rt\<lparr>rt_tuya_init := ti\<rparr>) g
      in if ta_pending act
         then (case run_driver (eh_send_tuya_dp (pf_effect P) (ta_correlation_id act) (ta_short_addr act) (ta_endpoint act)
                      (ta_dp_id act) (ta_dp_type act) (ta_value act) (ta_value_len act)) g1 of
                 (ok, g2) \<Rightarrow>
                   if ok then g2
                   else set_rt ((gw_rt g2)\<lparr>rt_tuya_init := snd (notify_ack (ta_correlation_id act) False (rt_tuya_init (gw_rt g2)))\<rparr>) g2)
         else g1)"

definition tick_timeouts :: "u32 \<Rightarrow> ('d, nat) gw" where
  "tick_timeouts now_ms g =
     (case process_timeouts now_ms (gw_rt g) (gw_commands g) of
        (n, rt, m) \<Rightarrow> (n, set_rt rt (g\<lparr>gw_commands := m\<rparr>)))"

definition tick_pending_sta_connect :: "'d Platform \<Rightarrow> u32 \<Rightarrow> ('d, nat) gw" where
  "tick_pending_sta_connect P now_ms g =
     (let (core, reg) = capture_core_read_model (gw_registry g)
      in run_net_op (process_pending_sta_connect (pf_hal P) (ci_network_connected core) now_ms) (g\<lparr>gw_registry := reg\<rparr>))"

definition kMaxAutoconnectRetries :: u8 where "kMaxAutoconnectRetries = 5"

definition tick_autoconnect :: "'d Platform \<Rightarrow> u32 \<Rightarrow> 'd Gateway \<Rightarrow> 'd Gateway" where
  "tick_autoconnect P now_ms g =
     (let (core, reg) = capture_core_read_model (gw_registry g);
          g1 = g\<lparr>gw_registry := reg\<rparr>
      in if \<not> ci_network_connected core \<and> \<not> has_pending_sta_connect (nt_policy (gw_net g1)) \<and>
            can_attempt_autoconnect now_ms kMaxAutoconnectRetries (nt_connectivity (gw_net g1))
         then snd (gw_autoconnect P g1) else g1)"

definition tick_start :: "u32 \<Rightarrow> 'd Gateway \<Rightarrow> 'd Gateway" where
  "tick_start now_ms g =
     (let rt = gw_rt g
      in snd (drain_mqtt_status_update
           (set_rt (rt\<lparr>rt_stats := (rt_stats rt)\<lparr>rx_stale_devices := degraded_count (rt_reporting rt)\<rparr>,
                       rt_last_tick_ms := now_ms\<rparr>) g)))"

definition tick :: "'d Platform \<Rightarrow> u32 \<Rightarrow> ('d, nat) gw" where
  "tick P now_ms g =
     (let (_, g1) = run_net_op (process_zigbee_join_window_policy (pf_hal P) now_ms) (tick_start now_ms g);
          (timeouts, g2) = tick_timeouts now_ms g1;
          (stale, g3) = tick_stale now_ms g2;
          (connects, g4) = tick_pending_sta_connect P now_ms (tick_tuya_init P now_ms g3);
          (removals, g5) = run_net_op (process_force_remove_timeouts now_ms) g4
      in (timeouts + stale + connects + removals, notify_read_models_from_runtime_stats (tick_autoconnect P now_ms g5)))"

section \<open>Starting, reading\<close>

definition reload_config_bootstrap_state :: "'d Platform \<Rightarrow> 'd Gateway \<Rightarrow> 'd Gateway" where
  "reload_config_bootstrap_state P g =
     (let n = gw_net g; rt = nt_runtime n
      in case load (\<lambda>k x. fst (hal_nvs_get_u32 (pf_update P) k (fst x))) (put_of P) (nt_hal n, []) (rt_config rt) of
           (_, c, h) \<Rightarrow>
             notify_read_models_from_config_cache (deliver_notes (snd h)
               (set_net (n\<lparr>nt_hal := fst h,
                  nt_runtime := rt\<lparr>rt_config := c, rt_config_timeout_ms_cache := cm_command_timeout_ms c,
                                   rt_config_max_retries_cache := ucast (cm_max_command_retries c)\<rparr>\<rparr>) g)))"

definition gateway_default :: "'d \<Rightarrow> 'd Gateway" where
  "gateway_default d =
     \<lparr>gw_system = system_init d, gw_registry = registry_init, gw_commands = command_manager_init,
      gw_persistence = persistence_manager_init, gw_state_persistence = state_persistence_init,
      gw_read_models = read_model_init, gw_pending_mqtt = None, gw_mqtt_cache = mqtt_status_default\<rparr>"

text \<open>The constructor.\<close>

definition gateway_init :: "'d Platform \<Rightarrow> 'd \<Rightarrow> 'd Gateway" where
  "gateway_init P d =
     notify_read_models_from_core_snapshot (notify_read_models_from_runtime_stats
       (snd (run_net_op (set_join_window_cache False 0) (reload_config_bootstrap_state P (gateway_default d)))))"

definition gw_restore :: "'d Platform \<Rightarrow> ('d, bool) gw" where
  "gw_restore P g =
     (case restore_persisted_core_state (eh_get_blob (pf_effect P)) (pf_pack P) (pf_unpack P)
             (gw_registry g) (nt_hal (gw_net g)) of
        (restored, reg) \<Rightarrow>
          let g1 = g\<lparr>gw_registry := reg\<rparr>
          in (restored, if restored then notify_read_models_from_core_snapshot g1 else g1))"

text \<open>The start, but for the tasks it creates; on the target the restore is the first thing the runtime task does.\<close>

definition gw_start :: "'d Platform \<Rightarrow> ('d, bool) gw" where
  "gw_start P g =
     (if \<not> loaded_ok (rt_config (gw_rt g)) then (False, g)
      else (case consume_restore_pending (gw_state_persistence g) of
              (pending, sp) \<Rightarrow>
                let g1 = g\<lparr>gw_state_persistence := sp\<rparr>
                in (True, if pending then snd (gw_restore P g1) else g1)))"

text \<open>One round of the runtime task: \<open>None\<close> when the cycle never ends.\<close>

definition runtime_round :: "'d Platform \<Rightarrow> u32 \<Rightarrow> 'd Gateway \<Rightarrow> 'd Gateway option" where
  "runtime_round P now_ms g = map_option (\<lambda>(n, g1). snd (tick P now_ms g1)) (process_pending P g)"

definition build_devices_runtime_snapshot :: "CoreState \<Rightarrow> u32 \<Rightarrow> 'd Gateway \<Rightarrow> DeviceRuntimeSnapshot" where
  "build_devices_runtime_snapshot s now_ms g =
     (case get_join_window_status (nt_lifecycle (gw_net g)) of
        (is_open, seconds_left) \<Rightarrow> build_runtime_snapshot s now_ms is_open seconds_left (rt_devices (gw_rt g)))"

definition gw_devices_api_snapshot :: "u32 \<Rightarrow> ('d, DevicesApiSnapshot option) gw" where
  "gw_devices_api_snapshot now_ms g =
     (let (ref, reg) = pin_current (gw_registry g);
          s = ss_state (reg_slots reg ! sr_slot_index ref);
          c = publish_devices_api_snapshot s (build_devices_runtime_snapshot s now_ms g) (rt_descriptors (gw_rt g))
                (gw_read_models g)
      in (build_devices_api_snapshot c, g\<lparr>gw_registry := snd (release_snapshot (Some ref) reg), gw_read_models := c\<rparr>))"

definition pending_events :: "'d Gateway \<Rightarrow> nat" where
  "pending_events g =
     (let n = gw_net g; rs = nt_results n
      in rg_count (rt_event_queue (gw_rt g)) + pending_ingress_count (gw_commands g) + persistence_pending (gw_persistence g) +
         rg_count (nm_requests (nt_network n)) + pending_network_results rs + pending_ota_results rs +
         pending_rcp_update_results rs + unat (sm_pending_count (nt_scan n)) +
         unat (oa_pending_count (sy_ota (gw_system g))) + unat (ra_pending_count (sy_rcp (gw_system g))))"

end
