(* ===== verification/GatewayCycle.thy ===== *)
theory GatewayCycle
  imports Gateway
begin

text \<open>
  The cycle of the runtime ends: every drain that did something leaves less to do. The work is what waits in the
  queues and slots, weighted so that serving a request is worth more than the status update it leaves behind; a
  write of the configuration leaves notifications, but never more than their queue holds.
\<close>

section \<open>What the operations leave alone\<close>

abbreviation requests_of :: "'h System \<Rightarrow> NetworkRequest ring" where
  "requests_of s \<equiv> nm_requests (nt_network (sy_net s))"

abbreviation ota_slot_of :: "'h System \<Rightarrow> OtaStartRequest option" where "ota_slot_of s \<equiv> oa_slot (sy_ota s)"

abbreviation rcp_slot_of :: "'h System \<Rightarrow> RcpUpdateRequest option" where "rcp_slot_of s \<equiv> ra_slot (sy_rcp s)"

lemma keeps_system [keeps_intros]:
  "keeps requests_of (driver d)" "keeps requests_of (on_net (results q))" "keeps requests_of (on_net (on_runtime u))"
  "keeps requests_of (on_ota f)" "keeps requests_of (on_rcp k)"
  "keeps sy_rcp (driver d)" "keeps sy_rcp (on_net m)" "keeps sy_rcp (on_ota f)"
  "keeps sy_ota (driver d)" "keeps sy_ota (on_net m)" "keeps sy_ota (on_rcp k)"
  "keeps ota_slot_of (driver d)" "keeps ota_slot_of (on_net m)" "keeps ota_slot_of (on_rcp k)"
  "keeps rcp_slot_of (driver d)" "keeps rcp_slot_of (on_net m)" "keeps rcp_slot_of (on_ota f)"
  "(\<And>x. oa_slot (f x) = oa_slot x) \<Longrightarrow> keeps ota_slot_of (on_ota f)"
  "(\<And>x. ra_slot (k x) = ra_slot x) \<Longrightarrow> keeps rcp_slot_of (on_rcp k)"
  by (simp_all add: keeps_def case_prod_unfold)

lemma keeps_progress_once [keeps_intros]:
  "keeps requests_of (publish_ota_status_progress i p)" "keeps sy_rcp (publish_ota_status_progress i p)"
  "keeps ota_slot_of (publish_ota_status_progress i p)"
  unfolding publish_ota_status_progress_def by (intro keeps_intros; simp)+

lemma keeps_progress [keeps_intros]:
  assumes "\<And>p. keeps f (publish_ota_status_progress i p)"
  shows "keeps f (publish_all_progress i ps)"
  by (induction ps) (simp_all add: keeps_return keeps_bind assms)

lemmas update_defs = sys_defs ota_process_request_def ota_transfer_def ota_deliver_def ota_release_def
  rcp_process_request_def rcp_deliver_def rcp_start_def note_rcp_poll_def queue_rcp_update_result_def
  publish_rcp_status_started_def publish_rcp_status_finished_def

lemma keeps_process [keeps_intros]:
  "keeps requests_of (ota_process_request b H U q)" "keeps sy_rcp (ota_process_request b H U q)"
  "keeps ota_slot_of (ota_process_request b H U q)" "keeps requests_of (rcp_process_request b U r)"
  "keeps sy_ota (rcp_process_request b U r)" "keeps rcp_slot_of (rcp_process_request b U r)"
  unfolding update_defs by (intro keeps_intros; simp)+


lemma keeps_run: "keeps f m \<Longrightarrow> f (snd (run_state m s)) = f s"
  by (simp add: keeps_def)

section \<open>What is left to do\<close>

definition update_work :: "'d System \<Rightarrow> nat" where
  "update_work s =
     (if ota_slot_of s = None then 0 else 2) + (if ou_kind (oa_update (sy_ota s)) = kOtaUpNone then 0 else 1) +
     (if rcp_slot_of s = None then 0 else 2) + (if rp_kind (ra_update (sy_rcp s)) = kRcpUpNone then 0 else 1)"

definition nvs_waiting :: "'d Gateway \<Rightarrow> nat" where
  "nvs_waiting g = rg_count (pm_nvs_writes (gw_persistence g))"

text \<open>The queues that a cycle empties, with the request to save the core state.\<close>

definition waiting_counts :: "'d Gateway \<Rightarrow> nat list" where
  "waiting_counts g =
     [if sp_persist_pending (gw_state_persistence g) then 1 else 0,
      rg_count (pm_config_writes (gw_persistence g)), rg_count (pm_profile_writes (gw_persistence g)),
      rg_count (requests_of (gw_system g)),
      rg_count (cq_request_queue (gw_commands g)), rg_count (cq_result_queue (gw_commands g))]"

definition gateway_work :: "'d Gateway \<Rightarrow> nat" where
  "gateway_work g = 17 * (sum_list (waiting_counts g) + update_work (gw_system g)) + nvs_waiting g"

text \<open>A drain that did something leaves less work, one that did nothing no more.\<close>

definition drain_ok :: "('d, bool) gw \<Rightarrow> bool" where
  "drain_ok f \<longleftrightarrow> (\<forall>g. gateway_work (snd (f g)) \<le> gateway_work g \<and> (fst (f g) \<longrightarrow> gateway_work (snd (f g)) < gateway_work g))"

lemma drain_okI:
  assumes "\<And>g b h. f g = (b, h) \<Longrightarrow> gateway_work h \<le> gateway_work g \<and> (b \<longrightarrow> gateway_work h < gateway_work g)"
  shows "drain_ok f"
  using assms by (metis drain_ok_def prod.collapse)

lemma run_drains_work:
  assumes "list_all drain_ok fs"
  shows "gateway_work (snd (run_drains fs g)) \<le> gateway_work g \<and>
         (fst (run_drains fs g) \<longrightarrow> gateway_work (snd (run_drains fs g)) < gateway_work g)"
  using assms
proof (induction fs arbitrary: g)
  case Nil
  then show ?case by simp
next
  case (Cons f fs)
  obtain b g1 c g2 where r: "f g = (b, g1)" "run_drains fs g1 = (c, g2)" by fastforce
  have "gateway_work g1 \<le> gateway_work g \<and> (b \<longrightarrow> gateway_work g1 < gateway_work g)"
    using Cons.prems r(1) by (auto simp: drain_ok_def dest: spec[of _ g])
  then show ?case using Cons.IH[of g1] Cons.prems r by auto
qed

subsection \<open>Notifications\<close>

lemma nvs_ring_push: "ring_push cap x q = Some q' \<Longrightarrow> rg_count q' = Suc (rg_count q) \<and> rg_count q < cap"
  by (auto simp: ring_push_def split: if_splits)

lemma report_write_frame:
  assumes "report_write w (rt, pm) = (rt', pm')"
  shows "pm_config_writes pm' = pm_config_writes pm \<and> pm_profile_writes pm' = pm_profile_writes pm \<and>
         rg_count (pm_nvs_writes pm') \<le> max 16 (rg_count (pm_nvs_writes pm)) \<and> rg_count (pm_nvs_writes pm) \<le> rg_count (pm_nvs_writes pm')"
  using assms
  by (auto simp: report_write_def on_nvs_u32_written_def queue_nvs_write_def kNvsWriteQueueCapacity_def Let_def
      split: option.splits if_splits bool.splits dest!: nvs_ring_push)

lemma report_writes_frame:
  assumes "fold report_write ws (rt, pm) = (rt', pm')"
  shows "pm_config_writes pm' = pm_config_writes pm \<and> pm_profile_writes pm' = pm_profile_writes pm \<and>
         rg_count (pm_nvs_writes pm') \<le> max 16 (rg_count (pm_nvs_writes pm))"
  using assms
proof (induction ws arbitrary: rt pm)
  case Nil
  then show ?case by simp
next
  case (Cons w ws)
  obtain rt1 pm1 where w: "report_write w (rt, pm) = (rt1, pm1)" by fastforce
  show ?case using report_write_frame[OF w] Cons.IH[of rt1 pm1] Cons.prems w by auto
qed

lemma set_rt_system [simp]:
  "requests_of (gw_system (set_rt rt g)) = requests_of (gw_system g)" "sy_ota (gw_system (set_rt rt g)) = sy_ota (gw_system g)"
  "sy_rcp (gw_system (set_rt rt g)) = sy_rcp (gw_system g)" "nt_runtime (gw_net (set_rt rt g)) = rt"
  "gw_persistence (set_rt rt g) = gw_persistence g" "gw_commands (set_rt rt g) = gw_commands g"
  "gw_state_persistence (set_rt rt g) = gw_state_persistence g" "gw_registry (set_rt rt g) = gw_registry g"
  "gw_read_models (set_rt rt g) = gw_read_models g" "gw_pending_mqtt (set_rt rt g) = gw_pending_mqtt g"
  by (simp_all add: set_rt_def set_net_def)

lemma set_net_frame [simp]:
  "sy_ota (gw_system (set_net n g)) = sy_ota (gw_system g)" "sy_rcp (gw_system (set_net n g)) = sy_rcp (gw_system g)"
  "gw_net (set_net n g) = n"
  "gw_persistence (set_net n g) = gw_persistence g" "gw_commands (set_net n g) = gw_commands g"
  "gw_state_persistence (set_net n g) = gw_state_persistence g" "gw_registry (set_net n g) = gw_registry g"
  "gw_read_models (set_net n g) = gw_read_models g" "gw_pending_mqtt (set_net n g) = gw_pending_mqtt g"
  by (simp_all add: set_net_def)

lemma update_work_cong: "sy_ota s = sy_ota t \<Longrightarrow> sy_rcp s = sy_rcp t \<Longrightarrow> update_work s = update_work t"
  by (simp add: update_work_def)

lemma deliver_notes_work:
  "waiting_counts (deliver_notes ws g) = waiting_counts g \<and>
   update_work (gw_system (deliver_notes ws g)) = update_work (gw_system g) \<and>
   nvs_waiting (deliver_notes ws g) \<le> nvs_waiting g + 16 \<and> (ws = [] \<longrightarrow> nvs_waiting (deliver_notes ws g) = nvs_waiting g)"
proof -
  obtain rt pm where r: "fold report_write ws (gw_rt g, gw_persistence g) = (rt, pm)" by fastforce
  show ?thesis using report_writes_frame[OF r] r
    by (auto simp: deliver_notes_def waiting_counts_def nvs_waiting_def intro!: update_work_cong)
qed

subsection \<open>The drains\<close>

lemma drain_work:
  assumes "sum_list (waiting_counts h) + update_work (gw_system h) + of_bool b \<le>
      sum_list (waiting_counts g) + update_work (gw_system g)"
    and "nvs_waiting h \<le> nvs_waiting g"
  shows "gateway_work h \<le> gateway_work g \<and> (b \<longrightarrow> gateway_work h < gateway_work g)"
  using assms by (cases b) (simp_all add: gateway_work_def)

lemma update_work_frame [simp]:
  "update_work (gw_system (set_rt rt g)) = update_work (gw_system g)"
  "update_work (gw_system (set_net n g)) = update_work (gw_system g)"
  by (auto intro!: update_work_cong)

lemma flush_work: "drain_ok (drain_persistence_flush P)"
proof (rule drain_okI)
  fix g :: "'a Gateway" and b h
  assume f: "drain_persistence_flush P g = (b, h)"
  obtain r sp reg d where r: "flush_if_needed (eh_set_blob (pf_effect P)) (pf_pack P) (gw_state_persistence g)
      (gw_registry g) (nt_hal (gw_net g)) = (r, sp, reg, d)" by (metis prod.collapse)
  have sp: "\<not> sp_persist_pending sp \<and> (r \<noteq> kFlushNoop \<longrightarrow> sp_persist_pending (gw_state_persistence g))"
    using r by (auto simp: flush_if_needed_def Let_def split: if_splits prod.splits)
  have "waiting_counts h = (waiting_counts g)[0 := 0] \<and> update_work (gw_system h) = update_work (gw_system g) \<and>
      nvs_waiting h = nvs_waiting g \<and> b = (r \<noteq> kFlushNoop)"
    using f sp unfolding drain_persistence_flush_def r
    by (cases r) (auto simp: waiting_counts_def nvs_waiting_def count_failed_effect_def upd_stats_def Let_def)
  then show "gateway_work h \<le> gateway_work g \<and> (b \<longrightarrow> gateway_work h < gateway_work g)"
    using sp by (intro drain_work) (auto simp: waiting_counts_def)
qed

lemma drain_nvs_writes_count:
  "fst (drain_nvs_writes rt m) = (0 < rg_count (pm_nvs_writes m)) \<and>
   rg_count (pm_nvs_writes (snd (snd (drain_nvs_writes rt m)))) = 0 \<and>
   pm_config_writes (snd (snd (drain_nvs_writes rt m))) = pm_config_writes m \<and>
   pm_profile_writes (snd (snd (drain_nvs_writes rt m))) = pm_profile_writes m"
proof (induction rt m rule: drain_nvs_writes.induct)
  case (1 rt m)
  show ?case
  proof (cases "pop_nvs_write m")
    case None
    then show ?thesis by (simp add: drain_nvs_writes.simps pop_nvs_write_def ring_pop_def split: if_splits)
  next
    case (Some x)
    then obtain n m1 where x: "pop_nvs_write m = Some (n, m1)" by (cases x) simp
    then have "0 < rg_count (pm_nvs_writes m)" "pm_config_writes m1 = pm_config_writes m" "pm_profile_writes m1 = pm_profile_writes m"
      by (auto simp: pop_nvs_write_def ring_pop_def split: if_splits)
    then show ?thesis using 1[OF x refl] x by (simp add: drain_nvs_writes.simps[of rt m])
  qed
qed

lemma nvs_work: "drain_ok drain_nvs"
proof (rule drain_okI)
  fix g :: "'a Gateway" and b h
  assume f: "drain_nvs g = (b, h)"
  obtain c rt m where r: "drain_nvs_writes (gw_rt g) (gw_persistence g) = (c, rt, m)" by (metis prod.collapse)
  show "gateway_work h \<le> gateway_work g \<and> (b \<longrightarrow> gateway_work h < gateway_work g)"
    using f drain_nvs_writes_count[of "gw_rt g" "gw_persistence g"] unfolding drain_nvs_def r
    by (auto simp: gateway_work_def waiting_counts_def nvs_waiting_def)
qed

lemma drain_config_writes_count:
  "fst (drain_config_writes put x m) = (0 < rg_count (pm_config_writes m)) \<and>
   rg_count (pm_config_writes (snd (snd (drain_config_writes put x m)))) = 0 \<and>
   pm_nvs_writes (snd (snd (drain_config_writes put x m))) = pm_nvs_writes m \<and>
   pm_profile_writes (snd (snd (drain_config_writes put x m))) = pm_profile_writes m \<and>
   (rg_count (pm_config_writes m) = 0 \<longrightarrow> drain_config_writes put x m = (False, x, m))"
proof (induction put x m rule: drain_config_writes.induct)
  case (1 put x m)
  show ?case
  proof (cases "pop_config_write m")
    case None
    then show ?thesis by (simp add: drain_config_writes.simps pop_config_write_def ring_pop_def split: if_splits)
  next
    case (Some y)
    then obtain n m1 where y: "pop_config_write m = Some (n, m1)" by (cases y) simp
    then have "0 < rg_count (pm_config_writes m)" "pm_nvs_writes m1 = pm_nvs_writes m" "pm_profile_writes m1 = pm_profile_writes m"
      by (auto simp: pop_config_write_def ring_pop_def split: if_splits)
    then show ?thesis using 1[OF y refl] y by (simp add: drain_config_writes.simps[of put x m])
  qed
qed

lemma drain_profile_writes_count:
  "fst (drain_reporting_profile_writes put x m) = (0 < rg_count (pm_profile_writes m)) \<and>
   rg_count (pm_profile_writes (snd (snd (drain_reporting_profile_writes put x m)))) = 0 \<and>
   pm_nvs_writes (snd (snd (drain_reporting_profile_writes put x m))) = pm_nvs_writes m \<and>
   pm_config_writes (snd (snd (drain_reporting_profile_writes put x m))) = pm_config_writes m \<and>
   (rg_count (pm_profile_writes m) = 0 \<longrightarrow> drain_reporting_profile_writes put x m = (False, x, m))"
proof (induction put x m rule: drain_reporting_profile_writes.induct)
  case (1 put x m)
  show ?case
  proof (cases "pop_reporting_profile_write m")
    case None
    then show ?thesis
      by (simp add: drain_reporting_profile_writes.simps pop_reporting_profile_write_def ring_pop_def split: if_splits)
  next
    case (Some y)
    then obtain n m1 where y: "pop_reporting_profile_write m = Some (n, m1)" by (cases y) simp
    then have "0 < rg_count (pm_profile_writes m)" "pm_nvs_writes m1 = pm_nvs_writes m" "pm_config_writes m1 = pm_config_writes m"
      by (auto simp: pop_reporting_profile_write_def ring_pop_def split: if_splits)
    then show ?thesis using 1[OF y refl] y by (simp add: drain_reporting_profile_writes.simps[of put x m])
  qed
qed

text \<open>Work that goes down by one pays for the notifications of any number of writes.\<close>

lemma delivered_work:
  assumes "sum_list (waiting_counts h) + update_work (gw_system h) \<le> sum_list (waiting_counts g) + update_work (gw_system g)"
    and "b \<Longrightarrow> sum_list (waiting_counts h) + update_work (gw_system h) < sum_list (waiting_counts g) + update_work (gw_system g)"
    and "nvs_waiting h \<le> nvs_waiting g" "\<not> b \<Longrightarrow> ws = []"
  shows "gateway_work (deliver_notes ws h) \<le> gateway_work g \<and> (b \<longrightarrow> gateway_work (deliver_notes ws h) < gateway_work g)"
  using deliver_notes_work[of ws h] assms by (cases b) (auto simp: gateway_work_def)

lemma config_work: "drain_ok (drain_config P)"
proof (rule drain_okI)
  fix g :: "'a Gateway" and b h
  assume f: "drain_config P g = (b, h)"
  let ?x = "(nt_runtime (gw_net g), (nt_hal (gw_net g), []), nt_results (gw_net g))"
  obtain rt d rs m where r: "drain_config_writes (put_of P) ?x (gw_persistence g) = (b, (rt, d, rs), m)"
      "h = deliver_notes (snd d) (set_net ((gw_net g)\<lparr>nt_runtime := rt, nt_hal := fst d, nt_results := rs\<rparr>) (g\<lparr>gw_persistence := m\<rparr>))"
    using f by (auto simp: drain_config_def Let_def split: prod.splits)
  note c = drain_config_writes_count[of "put_of P" ?x "gw_persistence g", unfolded r(1) fst_conv snd_conv]
  show "gateway_work h \<le> gateway_work g \<and> (b \<longrightarrow> gateway_work h < gateway_work g)"
    unfolding r(2) by (rule delivered_work) (use c in \<open>auto simp: waiting_counts_def nvs_waiting_def\<close>)
qed

lemma profiles_work: "drain_ok (drain_profiles P)"
proof (rule drain_okI)
  fix g :: "'a Gateway" and b h
  assume f: "drain_profiles P g = (b, h)"
  let ?x = "(nt_runtime (gw_net g), (nt_hal (gw_net g), []))"
  obtain rt d m where r: "drain_reporting_profile_writes (put_of P) ?x (gw_persistence g) = (b, (rt, d), m)"
      "h = deliver_notes (snd d) (set_net ((gw_net g)\<lparr>nt_runtime := rt, nt_hal := fst d\<rparr>) (g\<lparr>gw_persistence := m\<rparr>))"
    using f by (auto simp: drain_profiles_def Let_def split: prod.splits)
  note c = drain_profile_writes_count[of "put_of P" ?x "gw_persistence g", unfolded r(1) fst_conv snd_conv]
  show "gateway_work h \<le> gateway_work g \<and> (b \<longrightarrow> gateway_work h < gateway_work g)"
    unfolding r(2) by (rule delivered_work) (use c in \<open>auto simp: waiting_counts_def nvs_waiting_def\<close>)
qed

lemma drain_requests_count:
  "fst (drain_requests esp H s) = (0 < rg_count (nm_requests (nt_network s))) \<and>
   rg_count (nm_requests (nt_network (snd (drain_requests esp H s)))) = 0 \<and>
   (rg_count (nm_requests (nt_network s)) = 0 \<longrightarrow> drain_requests esp H s = (False, s))"
proof (induction esp H s rule: drain_requests.induct)
  case (1 esp H s)
  show ?case
  proof (cases "pop_request s")
    case None
    then show ?thesis by (simp add: drain_requests.simps pop_request_def ring_pop_def split: if_splits)
  next
    case (Some y)
    then obtain q s1 where y: "pop_request s = Some (q, s1)" by (cases y) simp
    then have "0 < rg_count (nm_requests (nt_network s))" by (auto simp: pop_request_def ring_pop_def split: if_splits)
    then show ?thesis using 1[OF y refl] y by (simp add: drain_requests.simps[of esp H s])
  qed
qed

lemma network_work: "drain_ok (drain_network P)"
proof (rule drain_okI)
  fix g :: "'a Gateway" and b h
  assume f: "drain_network P g = (b, h)"
  then obtain n where n: "drain_requests (bo_esp (pf_build P)) (pf_hal P) (gw_net g) = (b, n)" "h = set_net n g"
    by (auto simp: drain_network_def split: prod.splits)
  then show "gateway_work h \<le> gateway_work g \<and> (b \<longrightarrow> gateway_work h < gateway_work g)"
    using drain_requests_count[of "bo_esp (pf_build P)" "pf_hal P" "gw_net g"]
    by (intro drain_work) (auto simp: waiting_counts_def nvs_waiting_def)
qed

lemma change_hal_frame [simp]:
  "requests_of (change_hal k s) = requests_of s" "sy_ota (change_hal k s) = sy_ota s" "sy_rcp (change_hal k s) = sy_rcp s"
  "nt_hal (sy_net (change_hal k s)) = k (nt_hal (sy_net s))" "change_hal k (change_hal j s) = change_hal (\<lambda>d. k (j d)) s"
  "change_hal (\<lambda>d. d) s = s"
  by (simp_all add: change_hal_def Let_def)

lemma ota_drain_effect:
  assumes "run_state (ota_drain_requests b H U) s = (c, t)"
  shows "requests_of t = requests_of s \<and> sy_rcp t = sy_rcp s \<and> ota_slot_of t = None \<and>
         c = (ota_slot_of s \<noteq> None) \<and> (ota_slot_of s = None \<longrightarrow> t = s)"
proof (cases "ota_slot_of s")
  case None
  then show ?thesis using assms by (simp add: ota_drain_requests_def ota_pop_request_def)
next
  case (Some q)
  obtain r s1 where p: "run_state (ota_pop_request H U) s = (r, s1)" by fastforce
  let ?s0 = "s\<lparr>sy_ota := (sy_ota s)\<lparr>oa_slot := None, oa_pending_count := 0, oa_busy := True,
      oa_active_request_id := oq_request_id q\<rparr>\<rparr>"
  let ?m = "persist_ota_debug_breadcrumb H U (oq_request_id q) ''worker_popped''"
  have k: "keeps requests_of ?m" "keeps sy_rcp ?m" "keeps ota_slot_of ?m"
    unfolding persist_ota_debug_breadcrumb_def by (intro keeps_intros)+
  have p': "s1 = snd (run_state ?m ?s0)" and r: "r = Some q"
    using p Some by (auto simp: ota_pop_request_def split: prod.splits)
  have s1: "requests_of s1 = requests_of s" "sy_rcp s1 = sy_rcp s" "ota_slot_of s1 = None"
    unfolding p' using k[THEN keeps_run, of ?s0] by simp_all
  obtain ok s2 where q: "run_state (ota_process_request b H U q) s1 = (ok, s2)" by fastforce
  have s2: "requests_of s2 = requests_of s1" "sy_rcp s2 = sy_rcp s1" "ota_slot_of s2 = ota_slot_of s1"
    using keeps_process(1,2,3)[THEN keeps_run, of b H U q s1] q by simp_all
  show ?thesis using assms Some s1 s2 by (auto simp: ota_drain_requests_def p r q split: if_splits)
qed

lemma ota_work: "drain_ok (drain_ota P)"
proof (rule drain_okI)
  fix g :: "'a Gateway" and b h
  assume f: "drain_ota P g = (b, h)"
  show "gateway_work h \<le> gateway_work g \<and> (b \<longrightarrow> gateway_work h < gateway_work g)"
  proof (cases "bo_esp (pf_build P)")
    case True
    then show ?thesis using f by (simp add: drain_ota_def)
  next
    case False
    let ?s = "change_hal (\<lambda>d. (d, [])) (gw_system g)"
    obtain t where t: "run_state (ota_drain_requests (pf_build P) (quiet_hal (pf_hal P)) (quiet_update_hal (pf_update P))) ?s = (b, t)"
        "h = deliver_notes (snd (nt_hal (sy_net t))) (g\<lparr>gw_system := change_hal fst t\<rparr>)"
      using f False by (auto simp: drain_ota_def run_logged_op_def split: prod.splits)
    note e = ota_drain_effect[OF t(1)]
    have w: "waiting_counts (g\<lparr>gw_system := change_hal fst t\<rparr>) = waiting_counts g"
      using e by (simp add: waiting_counts_def)
    have u: "update_work (change_hal fst t) + of_bool b \<le> update_work (gw_system g)"
    proof (cases b)
      case True
      then show ?thesis using e by (auto simp: update_work_def)
    next
      case False
      then show ?thesis using e by (auto intro!: eq_imp_le update_work_cong)
    qed
    show ?thesis
      unfolding t(2)
      by (rule delivered_work) (use w u e in \<open>auto simp: nvs_waiting_def\<close>)
  qed
qed

lemma applied_ota_frame:
  "apply_ota_status_update u o1 = (ok, o2) \<Longrightarrow> oa_slot o2 = oa_slot o1 \<and> oa_update o2 = oa_update o1"
  by (auto simp: apply_ota_status_update_def Let_def split: if_splits OtaStatusUpdateKind.splits)

lemma ota_status_work: "drain_ok drain_ota_status"
proof (rule drain_okI)
  fix g :: "'a Gateway" and b h
  assume f: "drain_ota_status g = (b, h)"
  have "\<exists>o'. h = g\<lparr>gw_system := (gw_system g)\<lparr>sy_ota := o'\<rparr>\<rparr> \<and> oa_slot o' = ota_slot_of (gw_system g) \<and>
      (if ou_kind (oa_update (sy_ota (gw_system g))) = kOtaUpNone then oa_update o' = oa_update (sy_ota (gw_system g)) \<and> \<not> b
       else ou_kind (oa_update o') = kOtaUpNone)"
  proof (cases "take_ota_status_update (sy_ota (gw_system g))")
    case None
    then show ?thesis using f
      by (intro exI[of _ "sy_ota (gw_system g)"])
        (auto simp: drain_ota_status_def run_sys_op_def drain_ota_status_update_def take_ota_status_update_def split: if_splits)
  next
    case (Some x)
    obtain u o1 where x: "x = (u, o1)" by fastforce
    obtain ok o2 where a: "apply_ota_status_update u o1 = (ok, o2)" by fastforce
    show ?thesis using f Some x a applied_ota_frame[OF a]
      by (intro exI[of _ o2])
        (auto simp: drain_ota_status_def run_sys_op_def drain_ota_status_update_def take_ota_status_update_def
          ota_update_default_def split: if_splits)
  qed
  then obtain o' where o': "h = g\<lparr>gw_system := (gw_system g)\<lparr>sy_ota := o'\<rparr>\<rparr>" "oa_slot o' = ota_slot_of (gw_system g)"
      "if ou_kind (oa_update (sy_ota (gw_system g))) = kOtaUpNone then oa_update o' = oa_update (sy_ota (gw_system g)) \<and> \<not> b
       else ou_kind (oa_update o') = kOtaUpNone" by blast
  then show "gateway_work h \<le> gateway_work g \<and> (b \<longrightarrow> gateway_work h < gateway_work g)"
    by (intro drain_work) (auto simp: waiting_counts_def nvs_waiting_def update_work_def split: if_splits)
qed


lemma keeps_rcp_status [keeps_intros]:
  "keeps requests_of (apply_rcp_status_update U u)" "keeps sy_ota (apply_rcp_status_update U u)"
  "keeps rcp_slot_of (apply_rcp_status_update U u)"
  unfolding apply_rcp_status_update_def rcp_current_version_def fill_backend_snapshot_fields_def by (intro keeps_intros; simp)+

lemma keeps_rcp_update:
  "keeps (\<lambda>s. ra_update (sy_rcp s)) (apply_rcp_status_update U u)"
proof -
  have a: "keeps (\<lambda>s. ra_update (sy_rcp s)) (driver d)" for d by (simp add: keeps_def case_prod_unfold)
  have b: "(\<And>x. ra_update (k x) = ra_update x) \<Longrightarrow> keeps (\<lambda>s. ra_update (sy_rcp s)) (on_rcp k)" for k by (simp add: keeps_def)
  show ?thesis
    unfolding apply_rcp_status_update_def rcp_current_version_def fill_backend_snapshot_fields_def
    by (intro keeps_intros a b; simp)+
qed

lemma rcp_drain_effect:
  assumes "run_state (rcp_drain_requests b U) s = (c, t)"
  shows "requests_of t = requests_of s \<and> sy_ota t = sy_ota s \<and> rcp_slot_of t = None \<and>
         (rcp_slot_of s = None \<longrightarrow> t = s \<and> \<not> c)"
proof (cases "rcp_slot_of s")
  case None
  then show ?thesis using assms by (simp add: rcp_drain_requests_def rcp_pop_request_def)
next
  case (Some q)
  let ?s0 = "s\<lparr>sy_rcp := (sy_rcp s)\<lparr>ra_slot := None, ra_pending_count := 0, ra_busy := True\<rparr>\<rparr>"
  have "t = snd (run_state (rcp_process_request b U q) ?s0)"
    using assms Some by (auto simp: rcp_drain_requests_def rcp_pop_request_def)
  then show ?thesis using keeps_process(4,5,6)[THEN keeps_run, of b U q ?s0] Some by simp
qed

lemma rcp_work: "drain_ok (drain_rcp P)"
proof (rule drain_okI)
  fix g :: "'a Gateway" and b h
  assume f: "drain_rcp P g = (b, h)"
  show "gateway_work h \<le> gateway_work g \<and> (b \<longrightarrow> gateway_work h < gateway_work g)"
  proof (cases "bo_esp (pf_build P)")
    case True
    then show ?thesis using f by (simp add: drain_rcp_def)
  next
    case False
    then obtain t where t: "run_state (rcp_drain_requests (pf_build P) (pf_update P)) (gw_system g) = (b, t)" "h = g\<lparr>gw_system := t\<rparr>"
      using f by (auto simp: drain_rcp_def run_sys_op_def split: prod.splits)
    note e = rcp_drain_effect[OF t(1)]
    have "update_work t + of_bool b \<le> update_work (gw_system g)"
      using e by (cases "rcp_slot_of (gw_system g) = None") (auto simp: update_work_def)
    then show ?thesis using e t(2) by (intro drain_work) (auto simp: waiting_counts_def nvs_waiting_def)
  qed
qed

lemma rcp_status_work: "drain_ok (drain_rcp_status P)"
proof (rule drain_okI)
  fix g :: "'a Gateway" and b h
  assume f: "drain_rcp_status P g = (b, h)"
  obtain t where t: "run_state (drain_rcp_update_status_update (pf_update P)) (gw_system g) = (b, t)" "h = g\<lparr>gw_system := t\<rparr>"
    using f by (auto simp: drain_rcp_status_def run_sys_op_def split: prod.splits)
  have "requests_of t = requests_of (gw_system g) \<and> update_work t + of_bool b \<le> update_work (gw_system g)"
  proof (cases "rp_kind (ra_update (sy_rcp (gw_system g))) = kRcpUpNone")
    case True
    then show ?thesis using t(1) by (auto simp: drain_rcp_update_status_update_def take_rcp_status_update_def)
  next
    case False
    let ?s0 = "(gw_system g)\<lparr>sy_rcp := (sy_rcp (gw_system g))\<lparr>ra_update := rcp_update_default\<rparr>\<rparr>"
    let ?m = "apply_rcp_status_update (pf_update P) (ra_update (sy_rcp (gw_system g)))"
    have "t = snd (run_state ?m ?s0)"
      using t(1) False by (auto simp: drain_rcp_update_status_update_def take_rcp_status_update_def)
    then show ?thesis
      using keeps_rcp_status[THEN keeps_run, of "pf_update P" "ra_update (sy_rcp (gw_system g))" ?s0]
        keeps_rcp_update[THEN keeps_run, of "pf_update P" "ra_update (sy_rcp (gw_system g))" ?s0] False
      by (auto simp: update_work_def rcp_update_default_def)
  qed
  then show "gateway_work h \<le> gateway_work g \<and> (b \<longrightarrow> gateway_work h < gateway_work g)"
    using t(2) by (intro drain_work) (auto simp: waiting_counts_def nvs_waiting_def)
qed

lemma drain_command_requests_count:
  "fst (drain_command_requests rt m) = (0 < rg_count (cq_request_queue m)) \<and>
   rg_count (cq_request_queue (snd (snd (drain_command_requests rt m)))) = 0 \<and>
   cq_result_queue (snd (snd (drain_command_requests rt m))) = cq_result_queue m"
proof (induction rt m rule: drain_command_requests.induct)
  case (1 rt m)
  show ?case
  proof (cases "pop_command_request m")
    case None
    then show ?thesis by (simp add: drain_command_requests.simps pop_command_request_def ring_pop_def split: if_splits)
  next
    case (Some x)
    then obtain c m1 where x: "pop_command_request m = Some (c, m1)" by (cases x) simp
    obtain err rt1 m2 where s: "submit_command_internal c rt m1 = (err, rt1, m2)" by (metis prod_cases3)
    have "0 < rg_count (cq_request_queue m)" "cq_result_queue m1 = cq_result_queue m"
      using x by (auto simp: pop_command_request_def ring_pop_def split: if_splits)
    moreover have "cq_result_queue m2 = cq_result_queue m1" using submit_internal_frame(1)[of c rt m1] s by simp
    ultimately show ?thesis using 1[OF x refl s[symmetric] refl] x s by (simp add: drain_command_requests.simps[of rt m])
  qed
qed

lemma drain_command_results_count:
  "fst (drain_command_results rt m) = (0 < rg_count (cq_result_queue m)) \<and>
   rg_count (cq_result_queue (snd (snd (drain_command_results rt m)))) = 0 \<and>
   cq_request_queue (snd (snd (drain_command_results rt m))) = cq_request_queue m"
proof (induction rt m rule: drain_command_results.induct)
  case (1 rt m)
  show ?case
  proof (cases "pop_command_result m")
    case None
    then show ?thesis by (simp add: drain_command_results.simps pop_command_result_def ring_pop_def split: if_splits)
  next
    case (Some x)
    then obtain r m1 where x: "pop_command_result m = Some (r, m1)" by (cases x) simp
    obtain b ti where b: "try_route_tuya_init_result r (rt_tuya_init rt) = (b, ti)" by fastforce
    have m1: "0 < rg_count (cq_result_queue m)" "cq_request_queue m1 = cq_request_queue m"
      using x by (auto simp: pop_command_result_def ring_pop_def split: if_splits)
    show ?thesis
    proof (cases b)
      case True
      then show ?thesis using 1(1)[OF x refl b[symmetric]] m1 x b by (simp add: drain_command_results.simps[of rt m])
    next
      case False
      obtain err rt1 m2 where s: "resolve_command_result r (rt\<lparr>rt_tuya_init := ti\<rparr>) m1 = (err, rt1, m2)" by (metis prod_cases3)
      have "cq_request_queue m2 = cq_request_queue m1"
        using resolve_internal_frame(1)[of r "rt\<lparr>rt_tuya_init := ti\<rparr>" m1] s by simp
      then show ?thesis using 1(2)[OF x refl b[symmetric] _ s[symmetric] refl] False m1 x b s
        by (simp add: drain_command_results.simps[of rt m])
    qed
  qed
qed

lemma commands_work: "drain_ok drain_commands"
proof (rule drain_okI)
  fix g :: "'a Gateway" and b h
  assume "drain_commands g = (b, h)"
  then show "gateway_work h \<le> gateway_work g \<and> (b \<longrightarrow> gateway_work h < gateway_work g)"
    using drain_command_requests_count[of "gw_rt g" "gw_commands g"]
    by (intro drain_work) (auto simp: drain_commands_def waiting_counts_def nvs_waiting_def split: prod.splits)
qed

lemma results_work: "drain_ok drain_results"
proof (rule drain_okI)
  fix g :: "'a Gateway" and b h
  assume "drain_results g = (b, h)"
  then show "gateway_work h \<le> gateway_work g \<and> (b \<longrightarrow> gateway_work h < gateway_work g)"
    using drain_command_results_count[of "gw_rt g" "gw_commands g"]
    by (intro drain_work) (auto simp: drain_results_def waiting_counts_def nvs_waiting_def split: prod.splits)
qed

lemma drains_work: "list_all drain_ok (drains P)"
  by (simp add: drains_def flush_work nvs_work config_work profiles_work network_work ota_work ota_status_work rcp_work
      rcp_status_work commands_work results_work)

lemma take_dropped_work [simp]: "gateway_work (snd (take_dropped_ingress g)) = gateway_work g"
  by (simp add: take_dropped_ingress_def gateway_work_def waiting_counts_def nvs_waiting_def Let_def)


section \<open>What a drain that did nothing tells\<close>

definition counts :: "'d Gateway \<Rightarrow> nat list" where "counts g = nvs_waiting g # waiting_counts g"

definition drained :: "'d Gateway \<Rightarrow> bool" where
  "drained g \<longleftrightarrow> list_all (\<lambda>n. n = 0) (counts g) \<and> rg_count (rt_event_queue (gw_rt g)) = 0"

definition idle_means :: "nat list \<Rightarrow> ('d, bool) gw \<Rightarrow> bool" where
  "idle_means is f \<longleftrightarrow> (\<forall>g h. f g = (False, h) \<longrightarrow> counts h = counts g \<and> list_all (\<lambda>i. counts g ! i = 0) is)"

lemma run_drains_idle:
  "list_all2 idle_means iss fs \<Longrightarrow> run_drains fs g = (False, h) \<Longrightarrow>
     counts h = counts g \<and> list_all (\<lambda>i. counts g ! i = 0) (concat iss)"
proof (induction iss fs arbitrary: g rule: list_all2_induct)
  case Nil
  then show ?case by simp
next
  case (Cons i iss f fs)
  obtain b g1 c g2 where r: "f g = (b, g1)" "run_drains fs g1 = (c, g2)" by fastforce
  then have "f g = (False, g1)" "run_drains fs g1 = (False, h)" using Cons.prems by auto
  then show ?case using Cons.IH[of g1] Cons.hyps(1) by (auto simp: idle_means_def)
qed

lemma idle_meansI:
  assumes "\<And>g h. f g = (False, h) \<Longrightarrow> counts h = counts g \<and> list_all (\<lambda>i. counts g ! i = 0) is"
  shows "idle_means is f"
  using assms by (simp add: idle_means_def)

lemmas count_defs = counts_def waiting_counts_def nvs_waiting_def

lemma flush_idle: "idle_means [1] (drain_persistence_flush P)"
  by (rule idle_meansI)
    (auto simp: count_defs drain_persistence_flush_def flush_if_needed_def Let_def split: if_splits prod.splits)

lemma nvs_idle: "idle_means [0] drain_nvs"
proof (rule idle_meansI)
  fix g h :: "'a Gateway"
  assume "drain_nvs g = (False, h)"
  then show "counts h = counts g \<and> list_all (\<lambda>i. counts g ! i = 0) [0]"
    using drain_nvs_writes_count[of "gw_rt g" "gw_persistence g"]
    by (auto simp: drain_nvs_def count_defs split: prod.splits)
qed

lemma deliver_nothing [simp]: "counts (deliver_notes [] g) = counts g"
  by (simp add: deliver_notes_def count_defs)

lemma config_idle: "idle_means [2] (drain_config P)"
proof (rule idle_meansI)
  fix g h :: "'a Gateway"
  let ?x = "(nt_runtime (gw_net g), (nt_hal (gw_net g), []), nt_results (gw_net g))"
  assume f: "drain_config P g = (False, h)"
  then show "counts h = counts g \<and> list_all (\<lambda>i. counts g ! i = 0) [2]"
    using drain_config_writes_count[of "put_of P" ?x "gw_persistence g"]
    by (auto simp: drain_config_def Let_def split: prod.splits) (simp_all add: count_defs)
qed

lemma profiles_idle: "idle_means [3] (drain_profiles P)"
proof (rule idle_meansI)
  fix g h :: "'a Gateway"
  let ?x = "(nt_runtime (gw_net g), (nt_hal (gw_net g), []))"
  assume f: "drain_profiles P g = (False, h)"
  then show "counts h = counts g \<and> list_all (\<lambda>i. counts g ! i = 0) [3]"
    using drain_profile_writes_count[of "put_of P" ?x "gw_persistence g"]
    by (auto simp: drain_profiles_def Let_def split: prod.splits) (simp_all add: count_defs)
qed

lemma network_idle: "idle_means [4] (drain_network P)"
proof (rule idle_meansI)
  fix g h :: "'a Gateway"
  assume f: "drain_network P g = (False, h)"
  then show "counts h = counts g \<and> list_all (\<lambda>i. counts g ! i = 0) [4]"
    using drain_requests_count[of "bo_esp (pf_build P)" "pf_hal P" "gw_net g"]
    by (auto simp: drain_network_def count_defs split: prod.splits)
qed

lemma change_hal_back [simp]: "change_hal fst (change_hal (\<lambda>d. (d, x)) s) = s"
  by (simp add: change_hal_def Let_def)

lemma ota_idle: "idle_means [] (drain_ota P)"
proof (rule idle_meansI)
  fix g h :: "'a Gateway"
  assume f: "drain_ota P g = (False, h)"
  show "counts h = counts g \<and> list_all (\<lambda>i. counts g ! i = 0) []"
  proof (cases "bo_esp (pf_build P)")
    case True
    then show ?thesis using f by (simp add: drain_ota_def)
  next
    case False
    then obtain t where t: "run_state (ota_drain_requests (pf_build P) (quiet_hal (pf_hal P)) (quiet_update_hal (pf_update P)))
          (change_hal (\<lambda>d. (d, [])) (gw_system g)) = (False, t)"
        "h = deliver_notes (snd (nt_hal (sy_net t))) (g\<lparr>gw_system := change_hal fst t\<rparr>)"
      using f by (auto simp: drain_ota_def run_logged_op_def split: prod.splits)
    have "t = change_hal (\<lambda>d. (d, [])) (gw_system g)" using ota_drain_effect[OF t(1)] by auto
    then have "h = deliver_notes [] g" using t(2) by simp
    then show ?thesis by simp
  qed
qed

lemma ota_status_idle: "idle_means [] drain_ota_status"
  by (rule idle_meansI) (auto simp: drain_ota_status_def run_sys_op_def drain_ota_status_update_def count_defs
      split: prod.splits option.splits)

lemma rcp_idle: "idle_means [] (drain_rcp P)"
proof (rule idle_meansI)
  fix g h :: "'a Gateway"
  assume f: "drain_rcp P g = (False, h)"
  then show "counts h = counts g \<and> list_all (\<lambda>i. counts g ! i = 0) []"
    by (auto simp: drain_rcp_def run_sys_op_def count_defs split: prod.splits if_splits dest!: rcp_drain_effect)
qed

lemma rcp_status_frame:
  assumes "run_state (drain_rcp_update_status_update U) s = (b, t)"
  shows "requests_of t = requests_of s"
proof (cases "take_rcp_status_update (sy_rcp s)")
  case (Some x)
  then obtain u r1 where x: "take_rcp_status_update (sy_rcp s) = Some (u, r1)" by (cases x) simp
  have "t = snd (run_state (apply_rcp_status_update U u) (s\<lparr>sy_rcp := r1\<rparr>))"
    using assms x by (auto simp: drain_rcp_update_status_update_def)
  then show ?thesis using keeps_rcp_status(1)[THEN keeps_run, of U u] by simp
qed (use assms in \<open>auto simp: drain_rcp_update_status_update_def\<close>)

lemma rcp_status_idle: "idle_means [] (drain_rcp_status P)"
  by (rule idle_meansI) (auto simp: drain_rcp_status_def run_sys_op_def count_defs split: prod.splits dest!: rcp_status_frame)

lemma commands_idle: "idle_means [5] drain_commands"
proof (rule idle_meansI)
  fix g h :: "'a Gateway"
  assume "drain_commands g = (False, h)"
  then show "counts h = counts g \<and> list_all (\<lambda>i. counts g ! i = 0) [5]"
    using drain_command_requests_count[of "gw_rt g" "gw_commands g"]
    by (auto simp: drain_commands_def count_defs split: prod.splits)
qed

lemma results_idle: "idle_means [6] drain_results"
proof (rule idle_meansI)
  fix g h :: "'a Gateway"
  assume "drain_results g = (False, h)"
  then show "counts h = counts g \<and> list_all (\<lambda>i. counts g ! i = 0) [6]"
    using drain_command_results_count[of "gw_rt g" "gw_commands g"]
    by (auto simp: drain_results_def count_defs split: prod.splits)
qed

lemma idle_drains:
  assumes "run_drains (drains P) g = (False, h)"
  shows "list_all (\<lambda>n. n = 0) (counts h)"
proof -
  have "list_all2 idle_means [[1], [0], [2], [3], [4], [], [], [], [], [5], [6]] (drains P)"
    unfolding drains_def
    by (simp add: flush_idle[simplified] nvs_idle config_idle profiles_idle network_idle ota_idle ota_status_idle rcp_idle
        rcp_status_idle commands_idle results_idle)
  from run_drains_idle[OF this assms] show ?thesis by (auto simp: counts_def waiting_counts_def)
qed

section \<open>The cycle\<close>

lemma cycle_step_decreases:
  assumes "cy_running c"
  shows "(cycle_step P c, c) \<in> measures [\<lambda>c. 64 - cy_processed c, \<lambda>c. gateway_work (cy_gateway c) + of_bool (cy_running c)]"
proof (cases "cy_processed c \<ge> 64")
  case True
  then show ?thesis using assms by (simp add: cycle_step_def kMaxProcessedEventsPerCycle_def)
next
  case False
  obtain n g1 where d: "take_dropped_ingress (cy_gateway c) = (n, g1)" by fastforce
  obtain b g2 where r: "run_drains (drains P) g1 = (b, g2)" by fastforce
  have w: "gateway_work g2 \<le> gateway_work (cy_gateway c) \<and> (b \<longrightarrow> gateway_work g2 < gateway_work (cy_gateway c))"
    using run_drains_work[OF drains_work, of P g1] r take_dropped_work[of "cy_gateway c"] d by simp
  show ?thesis
    using False w assms
    by (cases b) (auto simp: cycle_step_def kMaxProcessedEventsPerCycle_def d r split: option.split)
qed

definition cycle_inv :: "'d Cycle \<Rightarrow> bool" where
  "cycle_inv c \<longleftrightarrow> cy_processed c \<le> 64 \<and> (cy_running c \<or> cy_processed c = 64 \<or> drained (cy_gateway c))"

lemma cycle_step_inv: "cycle_inv c \<Longrightarrow> cy_running c \<Longrightarrow> cycle_inv (cycle_step P c)"
proof -
  assume i: "cycle_inv c" and run: "cy_running c"
  obtain n g1 where d: "take_dropped_ingress (cy_gateway c) = (n, g1)" by fastforce
  obtain b g2 where r: "run_drains (drains P) g1 = (b, g2)" by fastforce
  have "drained g2" if "\<not> b" "pop_event (gw_rt g2) = None"
    using that idle_drains[of P g1 g2] r
    by (auto simp: drained_def pop_event_def ring_pop_def split: if_splits)
  then show ?thesis using i
    by (cases "cy_processed c \<ge> 64"; cases "pop_event (gw_rt g2)")
      (auto simp: cycle_step_def cycle_inv_def kMaxProcessedEventsPerCycle_def d r)
qed

lemma cycle_returns:
  assumes "cycle_inv c"
  shows "\<exists>d. while_option cy_running (cycle_step P) c = Some d \<and> cycle_inv d \<and> \<not> cy_running d"
proof -
  obtain d where d: "while_option cy_running (cycle_step P) c = Some d"
    using wf_rel_while_option_Some[where P = cycle_inv and b = cy_running and c = "cycle_step P" and s = c,
        OF wf_measures _ _ assms] cycle_step_decreases cycle_step_inv by blast
  then show ?thesis
    using while_option_rule[where P = cycle_inv, OF _ d assms] cycle_step_inv while_option_stop[OF d] by blast
qed

lemma cycle_end_drained: "drained (snd (cycle_end c)) = drained (cy_gateway c)"
  by (simp add: cycle_end_def drained_def count_defs notify_read_models_from_config_cache_def
      notify_read_models_from_runtime_stats_def notify_read_models_from_core_snapshot_def Let_def split: prod.splits)

text \<open>
  C4: a cycle of the runtime always ends, whatever the drivers answer, the queues hold and the events ask for. It
  reduces at most 64 events, and when it stops before, nothing waits any more: the queues of u32 notifications,
  configuration and profile writes, network requests, commands, command results and events are empty, and no save of
  the core state is pending.
\<close>
theorem every_cycle_ends:
  "\<exists>n h. process_pending P g = Some (n, h) \<and> n \<le> 64 \<and> (n = 64 \<or> drained h)"
proof -
  have "cycle_inv (cycle_start P g)" by (simp add: cycle_inv_def cycle_start_def Let_def split: prod.split)
  from cycle_returns[OF this] obtain d where d: "while_option cy_running (cycle_step P) (cycle_start P g) = Some d"
      "cycle_inv d" "\<not> cy_running d" by blast
  show ?thesis
    by (rule exI[of _ "fst (cycle_end d)"], rule exI[of _ "snd (cycle_end d)"])
      (use d cycle_end_drained[of d] in \<open>auto simp: process_pending_def cycle_inv_def cycle_end_def Let_def\<close>)
qed

end
