(* ===== verification/HalEvents.thy ===== *)
theory HalEvents
  imports Gateway
begin

text \<open>
  \<^verbatim>\<open>components/service/hal_event_adapter.cpp\<close>: what the callbacks of the radio, of the Wi-Fi driver and of the
  store do to the runtime, and the registration of the callbacks. A callback whose runtime is null is none; the
  reports of a null pointer are \<open>None\<close>.
\<close>

datatype hal_zigbee_result = HAL_ZIGBEE_RESULT_SUCCESS | HAL_ZIGBEE_RESULT_TIMEOUT | HAL_ZIGBEE_RESULT_FAILED

datatype ZigbeeResult = kZigbeeSuccess | kZigbeeTimeout | kZigbeeFailed

record hal_zigbee_raw_attribute_report =
  hr_short_addr :: u16
  hr_endpoint :: u8
  hr_cluster_id :: u16
  hr_attribute_id :: u16
  hr_zcl_data_type :: u8
  hr_has_lqi :: bool
  hr_lqi :: u8
  hr_has_rssi :: bool
  hr_rssi_dbm :: u8
  hr_payload :: "u8 list option"
  hr_payload_len :: u8

record hal_zigbee_read_attr_result =
  ht_short_addr :: u16
  ht_endpoint :: u8
  ht_cluster_id :: u16
  ht_attribute_id :: u16
  ht_result :: hal_zigbee_result
  ht_value :: "u8 list option"
  ht_value_len :: u8

fun map_zigbee_result :: "hal_zigbee_result \<Rightarrow> CoreCommandResultType" where
  "map_zigbee_result HAL_ZIGBEE_RESULT_SUCCESS = kResultSuccess"
| "map_zigbee_result HAL_ZIGBEE_RESULT_TIMEOUT = kResultTimeout"
| "map_zigbee_result HAL_ZIGBEE_RESULT_FAILED = kResultFailed"

fun map_service_zigbee_result :: "hal_zigbee_result \<Rightarrow> ZigbeeResult" where
  "map_service_zigbee_result HAL_ZIGBEE_RESULT_SUCCESS = kZigbeeSuccess"
| "map_service_zigbee_result HAL_ZIGBEE_RESULT_TIMEOUT = kZigbeeTimeout"
| "map_service_zigbee_result HAL_ZIGBEE_RESULT_FAILED = kZigbeeFailed"

definition map_raw_attribute_report :: "hal_zigbee_raw_attribute_report \<Rightarrow> RawAttributeReport" where
  "map_raw_attribute_report r =
     \<lparr>ra_short_addr = hr_short_addr r, ra_endpoint = hr_endpoint r, ra_cluster_id = hr_cluster_id r,
      ra_attribute_id = hr_attribute_id r, ra_zcl_data_type = hr_zcl_data_type r, ra_has_lqi = hr_has_lqi r,
      ra_lqi = hr_lqi r, ra_has_rssi = hr_has_rssi r, ra_rssi_dbm = hr_rssi_dbm r, ra_payload = hr_payload r,
      ra_payload_len = hr_payload_len r\<rparr>"

section \<open>The callbacks\<close>

datatype HalEvent =
    DeviceJoined u16
  | DeviceLeft u16
  | AttributeReport u16 u16 u16 bool u32
  | AttributeReportRaw "hal_zigbee_raw_attribute_report option"
  | CommandResult u32 hal_zigbee_result
  | InterviewResult u32 u16 hal_zigbee_result
  | BindResult u32 u16 hal_zigbee_result
  | ConfigureReportingResult u32 u16 hal_zigbee_result
  | ReadAttributeResultEvent u32 "hal_zigbee_read_attr_result option"
  | NetworkUp
  | NetworkDown
  | NvsWritten string u32

definition post_event :: "CoreEvent \<Rightarrow> ('d, bool) gw" where
  "post_event e g = (case push_event e (gw_rt g) of (ok, rt) \<Rightarrow> (ok, set_rt rt g))"

definition zigbee_device_joined_cb :: "'d Platform \<Rightarrow> u16 \<Rightarrow> 'd Gateway \<Rightarrow> 'd Gateway" where
  "zigbee_device_joined_cb P short_addr g =
     (if short_addr = kUnknownDeviceShortAddr then g
      else snd (run_net_op (post_zigbee_join_candidate (pf_hal P) short_addr) g))"

definition zigbee_device_left_cb :: "u16 \<Rightarrow> 'd Gateway \<Rightarrow> 'd Gateway" where
  "zigbee_device_left_cb short_addr g =
     (if short_addr = kUnknownDeviceShortAddr then g
      else snd (post_event (core_event_default\<lparr>ev_type := kDeviceLeft, ev_device_short_addr := short_addr\<rparr>) g))"

definition zigbee_attribute_report_cb :: "u16 \<Rightarrow> u16 \<Rightarrow> u16 \<Rightarrow> bool \<Rightarrow> u32 \<Rightarrow> 'd Gateway \<Rightarrow> 'd Gateway" where
  "zigbee_attribute_report_cb short_addr cluster_id attribute_id value_bool value_u32 g =
     snd (post_event (core_event_default\<lparr>ev_type := kAttributeReported, ev_device_short_addr := short_addr,
       ev_cluster_id := cluster_id, ev_attribute_id := attribute_id, ev_value_bool := value_bool,
       ev_value_u32 := value_u32\<rparr>) g)"

definition zigbee_command_result_cb :: "u32 \<Rightarrow> hal_zigbee_result \<Rightarrow> 'd Gateway \<Rightarrow> 'd Gateway" where
  "zigbee_command_result_cb correlation_id result g =
     (case handle_command_result \<lparr>cr_correlation_id = correlation_id, cr_type = map_zigbee_result result,
             cr_completed_at_ms = 0\<rparr> (gw_rt g) (gw_commands g) of
        (err, rt, m) \<Rightarrow> set_rt rt (g\<lparr>gw_commands := m\<rparr>))"

text \<open>The read that asks a device who it is goes to the radio, of which it is an argument.\<close>

definition zigbee_interview_result_cb :: "hal_read \<Rightarrow> u16 \<Rightarrow> hal_zigbee_result \<Rightarrow> 'd Gateway \<Rightarrow> 'd Gateway" where
  "zigbee_interview_result_cb hal_read short_addr result g =
     (case post_zigbee_interview_result hal_read short_addr (map_service_zigbee_result result = kZigbeeSuccess)
             (gw_rt g) (nt_results (gw_net g)) of
        (ok, rt, rs) \<Rightarrow> set_net ((gw_net g)\<lparr>nt_runtime := rt, nt_results := rs\<rparr>) g)"

definition zigbee_bind_result_cb :: "u16 \<Rightarrow> hal_zigbee_result \<Rightarrow> 'd Gateway \<Rightarrow> 'd Gateway" where
  "zigbee_bind_result_cb short_addr result g =
     set_rt (snd (post_zigbee_bind_result short_addr (map_service_zigbee_result result = kZigbeeSuccess) (gw_rt g))) g"

definition zigbee_configure_reporting_result_cb :: "u16 \<Rightarrow> hal_zigbee_result \<Rightarrow> 'd Gateway \<Rightarrow> 'd Gateway" where
  "zigbee_configure_reporting_result_cb short_addr result g =
     set_rt (snd (post_zigbee_configure_reporting_result short_addr (map_service_zigbee_result result = kZigbeeSuccess)
       (gw_rt g))) g"

definition zigbee_read_attribute_result_cb :: "hal_zigbee_read_attr_result option \<Rightarrow> 'd Gateway \<Rightarrow> 'd Gateway" where
  "zigbee_read_attribute_result_cb result g =
     (case result of
        None \<Rightarrow> g
      | Some r \<Rightarrow>
          set_rt (snd (post_zigbee_read_attribute_result
            \<lparr>rd_short_addr = ht_short_addr r, rd_endpoint = ht_endpoint r, rd_cluster_id = ht_cluster_id r,
             rd_attribute_id = ht_attribute_id r, rd_success = (ht_result r = HAL_ZIGBEE_RESULT_SUCCESS),
             rd_value = ht_value r, rd_value_len = ht_value_len r\<rparr> (gw_rt g))) g)"

definition zigbee_attribute_report_raw_cb ::
  "'d Platform \<Rightarrow> hal_zigbee_raw_attribute_report option \<Rightarrow> 'd Gateway \<Rightarrow> 'd Gateway" where
  "zigbee_attribute_report_raw_cb P report g =
     (case report of
        None \<Rightarrow> g
      | Some r \<Rightarrow>
          if bad_addr (hr_short_addr r) then g
          else (case run_net_op (now (pf_hal P)) g of
                  (t, g1) \<Rightarrow> set_rt (snd (post_zigbee_attribute_report_raw t (map_raw_attribute_report r) (gw_rt g1))) g1))"

definition wifi_network_up_cb :: "'d Gateway \<Rightarrow> 'd Gateway" where
  "wifi_network_up_cb g = snd (post_event (core_event_default\<lparr>ev_type := kNetworkUp\<rparr>) g)"

definition wifi_network_down_cb :: "'d Gateway \<Rightarrow> 'd Gateway" where
  "wifi_network_down_cb g = snd (post_event (core_event_default\<lparr>ev_type := kNetworkDown\<rparr>) g)"

definition nvs_u32_written_cb :: "string \<Rightarrow> u32 \<Rightarrow> 'd Gateway \<Rightarrow> 'd Gateway" where
  "nvs_u32_written_cb key v = deliver_notes [(key, v)]"

fun hal_callback :: "'d Platform \<Rightarrow> hal_read \<Rightarrow> HalEvent \<Rightarrow> 'd Gateway \<Rightarrow> 'd Gateway" where
  "hal_callback P hal_read (DeviceJoined a) g = zigbee_device_joined_cb P a g"
| "hal_callback P hal_read (DeviceLeft a) g = zigbee_device_left_cb a g"
| "hal_callback P hal_read (AttributeReport a c i b v) g = zigbee_attribute_report_cb a c i b v g"
| "hal_callback P hal_read (AttributeReportRaw r) g = zigbee_attribute_report_raw_cb P r g"
| "hal_callback P hal_read (CommandResult i r) g = zigbee_command_result_cb i r g"
| "hal_callback P hal_read (InterviewResult i a r) g = zigbee_interview_result_cb hal_read a r g"
| "hal_callback P hal_read (BindResult i a r) g = zigbee_bind_result_cb a r g"
| "hal_callback P hal_read (ConfigureReportingResult i a r) g = zigbee_configure_reporting_result_cb a r g"
| "hal_callback P hal_read (ReadAttributeResultEvent i r) g = zigbee_read_attribute_result_cb r g"
| "hal_callback P hal_read NetworkUp g = wifi_network_up_cb g"
| "hal_callback P hal_read NetworkDown g = wifi_network_down_cb g"
| "hal_callback P hal_read (NvsWritten k v) g = nvs_u32_written_cb k v g"

section \<open>Registration\<close>

record 'd AdapterHal =
  ah_nvs_init :: "'d \<Rightarrow> bool \<times> 'd"
  ah_wifi_init :: "'d \<Rightarrow> bool \<times> 'd"
  ah_zigbee_register_callbacks :: "'d \<Rightarrow> bool \<times> 'd"
  ah_wifi_register_callbacks :: "'d \<Rightarrow> bool \<times> 'd"
  ah_nvs_register_callbacks :: "'d \<Rightarrow> bool \<times> 'd"

definition init_hal_event_adapter :: "'d Platform \<Rightarrow> 'd AdapterHal \<Rightarrow> ('d, bool) gw" where
  "init_hal_event_adapter P A g =
     (let (nvs_ok, g1) = run_driver (ah_nvs_init A) g
      in if \<not> nvs_ok then (False, g1)
         else let (wifi_ok, g2) = run_driver (ah_wifi_init A) g1
              in if \<not> wifi_ok then (False, g2)
                 else
                   let (zigbee_ok, g3) = run_driver (ah_zigbee_register_callbacks A) g2;
                       (wifi_ok, g4) = run_driver (ah_wifi_register_callbacks A) g3;
                       (nvs_ok, g5) = run_driver (ah_nvs_register_callbacks A) g4
                   in if \<not> zigbee_ok \<or> \<not> wifi_ok \<or> \<not> nvs_ok then (False, g5)
                      else (case run_net_op (has_saved_wifi_credentials (pf_hal P)) g5 of
                              (saved, g6) \<Rightarrow>
                                (True, if saved then snd (run_net_op mark_wifi_credentials_available g6) else g6)))"

definition initialize_hal_adapter :: "'d Platform \<Rightarrow> 'd AdapterHal \<Rightarrow> ('d, bool) gw" where
  "initialize_hal_adapter P A g =
     (case init_hal_event_adapter P A g of
        (ok, g1) \<Rightarrow>
          if \<not> ok then (False, g1)
          else let g2 = reload_config_bootstrap_state P g1
               in (True, g2\<lparr>gw_state_persistence := mark_restore_pending (gw_state_persistence g2)\<rparr>))"

section \<open>Properties\<close>

text \<open>The event that a callback announces, for those that post one of their own.\<close>

fun announced :: "HalEvent \<Rightarrow> CoreEvent option" where
  "announced (DeviceLeft a) =
     (if a = kUnknownDeviceShortAddr then None
      else Some (core_event_default\<lparr>ev_type := kDeviceLeft, ev_device_short_addr := a\<rparr>))"
| "announced (AttributeReport a c i b v) = Some (core_event_default\<lparr>ev_type := kAttributeReported,
     ev_device_short_addr := a, ev_cluster_id := c, ev_attribute_id := i, ev_value_bool := b, ev_value_u32 := v\<rparr>)"
| "announced (InterviewResult i a r) =
     (if bad_addr a \<or> r \<noteq> HAL_ZIGBEE_RESULT_SUCCESS then None
      else Some (core_event_default\<lparr>ev_type := kDeviceInterviewCompleted, ev_device_short_addr := a\<rparr>))"
| "announced (BindResult i a r) =
     (if bad_addr a \<or> r \<noteq> HAL_ZIGBEE_RESULT_SUCCESS then None
      else Some (core_event_default\<lparr>ev_type := kDeviceBindingReady, ev_device_short_addr := a\<rparr>))"
| "announced (ConfigureReportingResult i a r) =
     (if bad_addr a \<or> r \<noteq> HAL_ZIGBEE_RESULT_SUCCESS then None
      else Some (core_event_default\<lparr>ev_type := kDeviceReportingConfigured, ev_device_short_addr := a\<rparr>))"
| "announced NetworkUp = Some (core_event_default\<lparr>ev_type := kNetworkUp\<rparr>)"
| "announced NetworkDown = Some (core_event_default\<lparr>ev_type := kNetworkDown\<rparr>)"
| "announced _ = None"

fun announces :: "HalEvent \<Rightarrow> bool" where
  "announces (DeviceJoined _) = False"
| "announces (AttributeReportRaw _) = False"
| "announces (CommandResult _ _) = False"
| "announces (ReadAttributeResultEvent _ _) = False"
| "announces (NvsWritten _ _) = False"
| "announces _ = True"


lemma announces_cases:
  assumes "announces e"
  obtains a where "e = DeviceLeft a" | a c i b v where "e = AttributeReport a c i b v" | i a r where "e = InterviewResult i a r"
    | i a r where "e = BindResult i a r" | i a r where "e = ConfigureReportingResult i a r" | "e = NetworkUp" | "e = NetworkDown"
  using assms by (cases e) auto

text \<open>The queue and the counter after a push, or after none.\<close>

definition took :: "CoreEvent option \<Rightarrow> ServiceRuntime \<Rightarrow> ServiceRuntime \<Rightarrow> bool" where
  "took e rt rt' \<longleftrightarrow>
     queued rt' = queued rt @ (case e of None \<Rightarrow> [] | Some ev \<Rightarrow> if length (queued rt) < kEventQueueCapacity then [ev] else []) \<and>
     rt_dropped_ingress rt' = rt_dropped_ingress rt +
       (if e \<noteq> None \<and> length (queued rt) = kEventQueueCapacity then 1 else 0)"

lemma took_none: "took None rt rt"
  by (simp add: took_def)

lemma took_push: "runtime_queue_ok rt \<Longrightarrow> took (Some e) rt (snd (push_event e rt))"
  by (rule push_event_cases[of rt e]) (auto simp: took_def queued_def)

lemma took_descriptors:
  "runtime_queue_ok rt \<Longrightarrow> took (Some e) rt (snd (push_event e (rt\<lparr>rt_descriptors := ds\<rparr>)))"
  using took_push[of "rt\<lparr>rt_descriptors := ds\<rparr>" e] by (simp add: took_def queued_def runtime_queue_ok_def)

lemma success_iff [simp]: "map_service_zigbee_result r = kZigbeeSuccess \<longleftrightarrow> r = HAL_ZIGBEE_RESULT_SUCCESS"
  by (cases r) simp_all

lemma set_net_rt [simp]: "nt_runtime (gw_net (set_rt rt g)) = rt" "gw_net (set_net n g) = n"
  by (simp_all add: set_rt_def set_net_def)



end
