(* ===== verification/GatewayView.thy ===== *)
theory GatewayView
  imports GatewayCycle HalEvents
begin

text \<open>
  What the gateway shows. The registry's visible state changes by the reducer alone, one event of the cycle after
  the other, and after each operation of the runtime the snapshots that the web API and the bridges read show that
  state. The registry must have room: two snapshots that no reader outside the runtime holds.
\<close>

section \<open>The parts that are shown\<close>

definition has_room :: "Registry \<Rightarrow> bool" where
  "has_room r \<longleftrightarrow> registry_ok r \<and> (\<exists>i < kSnapshotCount. \<exists>j < kSnapshotCount. i \<noteq> j \<and> reg_pins r ! i = 0 \<and> reg_pins r ! j = 0)"

definition core_input_of :: "CoreState \<Rightarrow> CorePublishInput" where
  "core_input_of s = \<lparr>ci_revision = st_revision s, ci_network_connected = st_network_connected s,
     ci_last_command_status = st_last_command_status s\<rparr>"

text \<open>The four snapshots that follow the core state, as their readers get them.\<close>

definition shows_state :: "CoreState \<Rightarrow> ReadModelCoordinator \<Rightarrow> bool" where
  "shows_state s c \<longleftrightarrow>
     rc_core_input c = core_input_of s \<and>
     build_network_api_snapshot c = Some (network_snapshot_of (core_input_of s) (rc_network_input c)) \<and>
     build_config_api_snapshot c = Some (config_snapshot_of (core_input_of s) (rc_config_input c)) \<and>
     map_option (\<lambda>b. (bs_revision b, bs_list b)) (build_mqtt_bridge_snapshot c) =
       Some (st_revision s, map mqtt_device_of (filter shown (st_devices s))) \<and>
     map_option (\<lambda>b. (bs_revision b, bs_list b)) (build_matter_bridge_snapshot c) =
       Some (st_revision s, map matter_device_of (filter shown (st_devices s)))"

definition settled_storages :: "ReadModelCoordinator \<Rightarrow> bool" where
  "settled_storages c \<longleftrightarrow> even (unat (so_seq (rc_network c))) \<and> even (unat (so_seq (rc_config c))) \<and>
     even (unat (so_seq (rc_mqtt c))) \<and> even (unat (so_seq (rc_matter c)))"

text \<open>The state \<open>v\<close> is published, the state \<open>w\<close> is shown.\<close>

definition stage :: "CoreState \<Rightarrow> CoreState \<Rightarrow> 'd Gateway \<Rightarrow> bool" where
  "stage v w g \<longleftrightarrow> has_room (gw_registry g) \<and> visible (gw_registry g) = v \<and> core_inv v \<and>
     shows_state w (gw_read_models g) \<and> settled_storages (gw_read_models g)"

section \<open>The storages\<close>

lemma even_seq_add2 [simp]: "even (unat (x + 2 :: u32)) = even (unat x)"
proof -
  have "even (unat (x + 2)) = even ((unat x + 2) mod 2 ^ 32)" by (simp add: unat_word_ariths)
  then show ?thesis by (simp add: dvd_mod_iff)
qed

lemma load_stored [simp]: "even (unat (so_seq p)) \<Longrightarrow> load_snapshot (store_snapshot v p) = Some v"
  by (simp add: load_snapshot_def store_snapshot_def)

lemma seq_stored [simp]: "so_seq (store_snapshot v p) = so_seq p + 2"
  by (simp add: store_snapshot_def)

lemmas shown_defs = shows_state_def settled_storages_def build_network_api_snapshot_def build_config_api_snapshot_def
  build_mqtt_bridge_snapshot_def build_matter_bridge_snapshot_def

lemma shows_after_input:
  assumes "shows_state s c" "settled_storages c"
  shows "shows_state s (on_runtime_stats_changed i c) \<and> settled_storages (on_runtime_stats_changed i c)"
    and "shows_state s (on_config_changed k c) \<and> settled_storages (on_config_changed k c)"
    and "shows_state s (on_mqtt_status_changed q c) \<and> settled_storages (on_mqtt_status_changed q c)"
    and "shows_state s (publish_devices_api_snapshot t rs ids c) \<and> settled_storages (publish_devices_api_snapshot t rs ids c)"
  using assms
  by (simp_all add: on_runtime_stats_changed_def on_config_changed_def on_mqtt_status_changed_def
      publish_devices_api_snapshot_def rebuild_network_snapshot_def rebuild_config_snapshot_def shown_defs)

section \<open>The registry\<close>

lemma has_room_ok: "has_room r \<Longrightarrow> registry_ok r \<and> registry_shape r \<and> reg_pins r ! reg_active r \<noteq> - 1"
  by (simp add: has_room_def registry_ok_active registry_ok_def list_all_length registry_shape_def)

lemma reading_keeps [simp]:
  assumes "has_room r"
  shows "snapshot_copy r = (visible r, r)" "capture_core_read_model r = (core_input_of (visible r), r)"
proof -
  note ok = has_room_ok[OF assms]
  have "snd (release_snapshot (Some (ref_of (reg_active r) r)) (add_pin (reg_active r) r)) = r"
    using ok by (intro pin_release) (simp_all add: ref_of_def)
  then show "snapshot_copy r = (visible r, r)" "capture_core_read_model r = (core_input_of (visible r), r)"
    by (simp_all add: snapshot_copy_def capture_core_read_model_def pin_current_def ref_of_def visible_def core_input_of_def Let_def)
qed

lemma publish_with_room:
  assumes "has_room r"
  shows "fst (publish s r) \<and> visible (snd (publish s r)) = next_state_of (visible r) s \<and> has_room (snd (publish s r))"
proof -
  have shape: "registry_shape r" using has_room_ok[OF assms] by simp
  obtain i j where "i < kSnapshotCount" "j < kSnapshotCount" "i \<noteq> j" "reg_pins r ! i = 0" "reg_pins r ! j = 0"
    using assms by (auto simp: has_room_def)
  then have "\<exists>c < kSnapshotCount. slot_usable r (reg_active r) c"
    by (cases "i = reg_active r") (auto simp: slot_usable_def)
  then obtain c where c: "c < kSnapshotCount" "slot_usable r (reg_active r) c"
      "publish s r = (True, activate c (write_slot c (next_state_of (visible r) s) r))"
    using publish_cases[OF shape, of s] by auto
  have "reg_pins (snd (publish s r)) = reg_pins r" using publish_True(5)[OF shape c(1)] c(3) by simp
  then show ?thesis
    using assms c publish_True(1)[OF shape c(1)] registry_ok_publish[of r s] by (simp add: has_room_def)
qed

lemma next_state_of_step: "next_state_of s (core_step s e) = (if st_revision (core_step s e) = st_revision s
    then (core_step s e)\<lparr>st_revision := st_revision s + 1\<rparr> else core_step s e)"
proof (rule core_step_cases[of e s])
  fix t
  assume t: "core_change e s t" "core_step s e = (if step_changed s e
      then t\<lparr>st_revision := st_revision s + 1\<rparr> else t)" "\<not> step_changed s e \<Longrightarrow> t = s"
  have r: "st_revision t = st_revision s" by (rule core_change_revision[OF t(1)])
  show ?thesis
    using t(2,3) r by (auto simp: next_state_of_def)
qed

lemma unchanged_step: "st_revision (core_step s e) = st_revision s \<Longrightarrow> core_step s e = s"
proof (rule core_step_cases[of e s])
  fix t
  assume rev: "st_revision (core_step s e) = st_revision s"
    and t: "core_change e s t" "core_step s e = (if step_changed s e
      then t\<lparr>st_revision := st_revision s + 1\<rparr> else t)" "\<not> step_changed s e \<Longrightarrow> t = s"
  show "core_step s e = s" using t rev by (auto split: if_splits)
qed


section \<open>Operations that leave the shown parts alone\<close>

abbreviation same_views :: "'d Gateway \<Rightarrow> 'd Gateway \<Rightarrow> bool" where
  "same_views h g \<equiv> gw_registry h = gw_registry g \<and> gw_read_models h = gw_read_models g"

lemma stage_same: "same_views h g \<Longrightarrow> stage v w g \<Longrightarrow> stage v w h"
  by (simp add: stage_def)

lemma views_set [simp]:
  "same_views (upd_stats f g) g" "same_views (deliver_notes ws g) g"
  "same_views (snd (run_net_op m g)) g" "same_views (snd (run_sys_op m' g)) g" "same_views (snd (run_driver d g)) g"
  "same_views (snd (run_logged_op m'' g)) g"
  by (simp_all add: upd_stats_def deliver_notes_def run_net_op_def run_sys_op_def run_driver_def run_logged_op_def
      split: prod.split)

lemma views_write [simp]: "same_views (snd (write_u32 P k v g)) g"
  by (simp add: write_u32_def case_prod_unfold)

lemma views_drains [simp]:
  "same_views (snd (drain_nvs g)) g" "same_views (snd (drain_config P g)) g" "same_views (snd (drain_profiles P g)) g"
  "same_views (snd (drain_network P g)) g" "same_views (snd (drain_ota P g)) g" "same_views (snd (drain_ota_status g)) g"
  "same_views (snd (drain_rcp P g)) g" "same_views (snd (drain_rcp_status P g)) g" "same_views (snd (drain_commands g)) g"
  "same_views (snd (drain_results g)) g" "same_views (snd (take_dropped_ingress g)) g"
  by (simp_all add: drain_nvs_def drain_config_def drain_profiles_def drain_network_def drain_ota_def drain_ota_status_def
      drain_rcp_def drain_rcp_status_def drain_commands_def drain_results_def take_dropped_ingress_def Let_def
      deliver_notes_def split: prod.split)

definition keeps_stage :: "('d Gateway \<Rightarrow> 'd Gateway) \<Rightarrow> bool" where
  "keeps_stage f \<longleftrightarrow> (\<forall>v w g. stage v w g \<longrightarrow> stage v w (f g))"

lemma keeps_stage_same: "(\<And>g. same_views (f g) g) \<Longrightarrow> keeps_stage f"
  unfolding keeps_stage_def using stage_same by blast

lemma keeps_stageD: "keeps_stage f \<Longrightarrow> stage v w g \<Longrightarrow> stage v w (f g)"
  by (simp add: keeps_stage_def)

lemma flush_stage: "keeps_stage (\<lambda>g. snd (drain_persistence_flush P g))"
  unfolding keeps_stage_def
proof (intro allI impI)
  fix v w :: CoreState and g :: "'a Gateway"
  assume s: "stage v w g"
  then have "has_room (gw_registry g)" by (simp add: stage_def)
  then have "same_views (snd (drain_persistence_flush P g)) g"
    by (simp add: drain_persistence_flush_def flush_if_needed_def persist_current_core_state_def count_failed_effect_def
        upd_stats_def Let_def split: prod.split)
  then show "stage v w (snd (drain_persistence_flush P g))" using s by (rule stage_same)
qed

lemma run_drains_stage:
  "list_all (\<lambda>f. keeps_stage (\<lambda>g. snd (f g))) fs \<Longrightarrow> keeps_stage (\<lambda>g. snd (run_drains fs g))"
proof (induction fs)
  case Nil
  then show ?case by (simp add: keeps_stage_def)
next
  case (Cons f fs)
  then show ?case by (simp add: keeps_stage_def case_prod_unfold)
qed

lemma drains_stage: "keeps_stage (\<lambda>g. snd (run_drains (drains P) g))"
  by (rule run_drains_stage) (simp add: drains_def flush_stage keeps_stage_same)

lemma shown_change:
  assumes "stage v w g" "gw_registry h = gw_registry g"
    and "gw_read_models h \<in> range (\<lambda>i. on_runtime_stats_changed i (gw_read_models g)) \<union>
      range (\<lambda>k. on_config_changed k (gw_read_models g)) \<union> range (\<lambda>q. on_mqtt_status_changed q (gw_read_models g))"
  shows "stage v w h"
  using assms shows_after_input[of w "gw_read_models g"] by (auto simp: stage_def)

lemma stats_stage: "keeps_stage notify_read_models_from_runtime_stats"
  unfolding keeps_stage_def notify_read_models_from_runtime_stats_def Let_def by (auto elim!: shown_change)

lemma config_stage: "keeps_stage notify_read_models_from_config_cache"
  unfolding keeps_stage_def notify_read_models_from_config_cache_def Let_def by (auto elim!: shown_change)

lemma mqtt_status_stage: "keeps_stage (\<lambda>g. snd (drain_mqtt_status_update g))"
  unfolding keeps_stage_def drain_mqtt_status_update_def by (auto split: option.split elim!: shown_change)

lemma autoconnect_stage: "keeps_stage (\<lambda>g. snd (gw_autoconnect P g))"
  unfolding keeps_stage_def
proof (intro allI impI)
  fix v w :: CoreState and g :: "'a Gateway"
  assume s: "stage v w g"
  have "stage v w (snd (run_net_op (autoconnect_from_saved_credentials (pf_hal P)) g))"
    by (rule stage_same[OF _ s]) simp
  from keeps_stageD[OF stats_stage this] show "stage v w (snd (gw_autoconnect P g))"
    by (simp add: gw_autoconnect_def case_prod_unfold)
qed

subsection \<open>One event\<close>

lemma views_occupancy: "same_views (normalize_occupancy P e g) g"
proof (cases "ev_type e = kAttributeReported \<and> ev_cluster_id e = 0x0406 \<and> ev_attribute_id e = 0")
  case True
  obtain t g1 where r: "run_net_op (now (pf_hal P)) g = (t, g1)" by fastforce
  then have "same_views g1 g" using views_set(3)[of "now (pf_hal P)" g] by simp
  then show ?thesis using True r by (simp add: normalize_occupancy_def Let_def split: prod.split option.split)
qed (auto simp: normalize_occupancy_def)

lemma views_managers: "same_views (apply_managers P e g) g"
proof -
  define g3 where "g3 = (let g1 = apply_reporting e (normalize_occupancy P e g);
          rt = gw_rt g1;
          g2 = set_rt (rt\<lparr>rt_devices := snd (DeviceManager.handle_event e (rt_devices rt))\<rparr>) g1;
          n = gw_net g2
      in set_net (n\<lparr>nt_network := snd (network_handle_event e (nt_network n))\<rparr>) g2)"
  obtain t g4 where r4: "run_net_op (now (pf_hal P)) g3 = (t, g4)" by fastforce
  obtain u g5 where r5: "run_net_op (maybe_request_auto_rejoin_window (pf_hal P) (ev_type e) (ev_device_short_addr e) t) g4 = (u, g5)"
    by (metis surj_pair)
  have "same_views g3 g" using views_occupancy[of P e g] by (simp add: g3_def apply_reporting_def Let_def case_prod_unfold)
  moreover have "same_views g4 g3" "same_views g5 g4"
    using views_set(3)[of "now (pf_hal P)" g3] r4
      views_set(3)[of "maybe_request_auto_rejoin_window (pf_hal P) (ev_type e) (ev_device_short_addr e) t" g4] r5 by simp_all
  moreover have "apply_managers P e g = upd_stats (\<lambda>st. st\<lparr>rx_network_refresh_requests := nm_refresh_count (nt_network (gw_net g5))\<rparr>) g5"
    using r4 r5 unfolding g3_def by (simp add: apply_managers_def Let_def)
  ultimately show ?thesis by simp
qed

lemma views_perform: "same_views (snd (perform_effect P f g)) g"
  by (simp add: perform_effect_def execute_effect_def split: option.split CoreEffectType.split)

lemma views_save: "same_views (save_config P g) g"
  by (simp add: save_config_def Let_def deliver_notes_def split: prod.split)

lemma views_effects: "same_views (execute_effects P fs g) g"
proof (induction fs arbitrary: g)
  case Nil
  then show ?case by simp
next
  case (Cons f fs)
  obtain ok g1 where r: "perform_effect P f g = (ok, g1)" by fastforce
  have "same_views (after_effect P f (upd_stats (count_effect ok) g1)) g"
    using views_perform[of P f g] r views_save[of P "upd_stats (count_effect ok) g1"] by (simp add: after_effect_def)
  then show ?case using Cons.IH[of "after_effect P f (upd_stats (count_effect ok) g1)"] r by simp
qed

lemma reduce_stage:
  assumes "stage v w g"
  shows "stage (core_step v e) w (snd (reduce_and_publish e g))"
proof -
  have room: "has_room (gw_registry g)" and v: "visible (gw_registry g) = v" "core_inv v"
    and shown: "shows_state w (gw_read_models g)" "settled_storages (gw_read_models g)"
    using assms by (simp_all add: stage_def)
  have step: "rr_next (core_reduce v e) = core_step v e" by (simp add: core_step_def)
  show ?thesis
  proof (cases "st_revision (core_step v e) = st_revision v")
    case True
    then show ?thesis using unchanged_step[OF True] assms room v step by (simp add: reduce_and_publish_def Let_def)
  next
    case False
    then have "visible (snd (publish (core_step v e) (gw_registry g))) = core_step v e"
      using publish_with_room[OF room, of "core_step v e"] next_state_of_step[of v e] v by simp
    then show ?thesis
      using False publish_with_room[OF room, of "core_step v e"] room v step shown core_step_inv[OF v(2)]
      by (simp add: reduce_and_publish_def stage_def Let_def case_prod_unfold)
  qed
qed

lemma process_event_stage:
  assumes "stage v w g"
  shows "stage (core_step v e) w (process_event P e g)"
proof -
  define g1 where "g1 = apply_managers P e (upd_stats (\<lambda>st. st\<lparr>rx_processed_events := rx_processed_events st + 1\<rparr>) g)"
  define g2 where "g2 = (if ev_type e = kNetworkDown then snd (gw_autoconnect P g1) else g1)"
  have "stage v w g1" unfolding g1_def by (rule stage_same[OF views_managers], rule stage_same[OF _ assms]) simp
  then have "stage v w g2" using keeps_stageD[OF autoconnect_stage, of v w g1 P] by (simp add: g2_def)
  from reduce_stage[OF this] have "stage (core_step v e) w (snd (reduce_and_publish e g2))" .
  then show ?thesis
    by (simp add: process_event_def g1_def[symmetric] g2_def[symmetric] Let_def case_prod_unfold)
      (rule stage_same[OF views_effects])
qed


section \<open>The cycle\<close>

lemma core_snapshot_stage:
  assumes "has_room (gw_registry g)" "visible (gw_registry g) = v" "core_inv v" "settled_storages (gw_read_models g)"
  shows "stage v v (notify_read_models_from_core_snapshot g)"
proof -
  have ok: "registry_ok (gw_registry g)" and l: "length (st_devices (visible (gw_registry g))) = kMaxDevices"
    using has_room_ok[OF assms(1)] assms(2,3) by (simp_all add: core_inv_def)
  obtain mqtt where q: "build_mqtt_snapshot (gw_registry g) = (mqtt, gw_registry g)"
      "bs_revision mqtt = st_revision v" "bs_list mqtt = map mqtt_device_of (filter shown (st_devices v))"
    using build_mqtt_snapshot_list[OF ok l] assms(2) by (metis prod.collapse)
  obtain matter where m: "build_matter_snapshot (gw_registry g) = (matter, gw_registry g)"
      "bs_revision matter = st_revision v" "bs_list matter = map matter_device_of (filter shown (st_devices v))"
    using build_matter_snapshot_list[OF ok l] assms(2) by (metis prod.collapse)
  show ?thesis
    using assms q m
    by (simp add: stage_def notify_read_models_from_core_snapshot_def on_core_state_published_def refresh_bridge_snapshots_def
        rebuild_network_snapshot_def rebuild_config_snapshot_def shown_defs)
qed

lemma renewed_stage: "stage v w g \<Longrightarrow> stage v v (notify_read_models_from_core_snapshot g)"
  using core_snapshot_stage[of g v] by (simp add: stage_def)

definition cycle_stage :: "CoreState \<Rightarrow> 'd Cycle \<Rightarrow> bool" where
  "cycle_stage v c \<longleftrightarrow> (\<exists>es. length es = cy_processed c \<and> stage (core_run v es) v (cy_gateway c)) \<and>
     (cy_processed c = 0 \<or> cy_progress c)"

lemma cycle_step_stage:
  assumes "cycle_stage v c"
  shows "cycle_stage v (cycle_step P c)"
proof (cases "cy_processed c \<ge> kMaxProcessedEventsPerCycle")
  case True
  then show ?thesis using assms by (simp add: cycle_step_def cycle_stage_def)
next
  case False
  obtain es where es: "length es = cy_processed c" "stage (core_run v es) v (cy_gateway c)"
    using assms by (auto simp: cycle_stage_def)
  obtain n g1 where d: "take_dropped_ingress (cy_gateway c) = (n, g1)" by fastforce
  obtain b g2 where r: "run_drains (drains P) g1 = (b, g2)" by fastforce
  have "same_views g1 (cy_gateway c)" using views_drains(11)[of "cy_gateway c"] d by simp
  then have "stage (core_run v es) v g1" using es(2) by (rule stage_same)
  from keeps_stageD[OF drains_stage this, of P] have g2: "stage (core_run v es) v g2" by (simp add: r)
  show ?thesis
  proof (cases "pop_event (gw_rt g2)")
    case None
    then show ?thesis using False assms es(1) g2 by (auto simp: cycle_step_def cycle_stage_def d r)
  next
    case (Some x)
    obtain e rt where x: "x = (e, rt)" by fastforce
    have "stage (core_run v es) v (set_rt rt g2)" by (rule stage_same[OF _ g2]) simp
    from process_event_stage[OF this, of e P]
    have "stage (core_run v (es @ [e])) v (process_event P e (set_rt rt g2))" by (simp add: core_run_def)
    then have "\<exists>es. length es = cy_processed c + 1 \<and> stage (core_run v es) v (process_event P e (set_rt rt g2))"
      using es(1) by (intro exI[of _ "es @ [e]"]) simp
    then show ?thesis using False Some x by (simp add: cycle_step_def cycle_stage_def d r)
  qed
qed

lemma process_pending_stage:
  assumes "stage v v g"
  shows "\<exists>es h. process_pending P g = Some (length es, h) \<and> stage (core_run v es) (core_run v es) h"
proof -
  have "cycle_inv (cycle_start P g)" by (simp add: cycle_inv_def cycle_start_def Let_def split: prod.split)
  from cycle_returns[OF this] obtain c where c: "while_option cy_running (cycle_step P) (cycle_start P g) = Some c" by blast
  have "stage v v (cy_gateway (cycle_start P g))"
    using keeps_stageD[OF mqtt_status_stage assms]
    by (simp add: cycle_start_def case_prod_unfold Let_def)
      (rule stage_same[OF views_drains(8)], rule stage_same[OF views_drains(6)], assumption)
  then have "cycle_stage v (cycle_start P g)"
    by (auto simp: cycle_stage_def cycle_start_def core_run_def case_prod_unfold Let_def)
  then have i: "cycle_stage v c" using while_option_rule[where P = "cycle_stage v", OF _ c] cycle_step_stage by blast
  then obtain es where es: "length es = cy_processed c" "stage (core_run v es) v (cy_gateway c)" "es = [] \<or> cy_progress c"
    by (auto simp: cycle_stage_def)
  let ?g1 = "if cy_progress c then notify_read_models_from_config_cache (notify_read_models_from_runtime_stats (cy_gateway c))
    else cy_gateway c"
  have g1: "stage (core_run v es) v ?g1"
    using es(2) keeps_stageD[OF config_stage keeps_stageD[OF stats_stage es(2)]] by simp
  have "stage (core_run v es) (core_run v es) (snd (cycle_end c))"
  proof (cases "es = []")
    case True
    then show ?thesis using g1 es(1) by (simp add: cycle_end_def core_run_def Let_def)
  next
    case False
    then have "cy_processed c \<noteq> 0" using es(1)[symmetric] by simp
    then show ?thesis using False renewed_stage[OF g1] es(1,3) by (simp add: cycle_end_def Let_def)
  qed
  then show ?thesis using c es(1)
    by (intro exI[of _ es] exI[of _ "snd (cycle_end c)"]) (simp add: process_pending_def cycle_end_def Let_def)
qed

section \<open>The tick and the start\<close>

lemma pending_connect_views:
  assumes "stage v w g"
  shows "same_views (snd (tick_pending_sta_connect P t g)) g"
  using assms by (simp add: tick_pending_sta_connect_def stage_def)

lemma views_tick [simp]:
  "same_views (snd (tick_timeouts t g)) g" "same_views (snd (tick_stale t g)) g" "same_views (tick_tuya_init P t g) g"
  by (simp_all add: tick_timeouts_def tick_stale_def Let_def split: prod.split)
    (simp add: tick_tuya_init_def case_prod_unfold Let_def)

lemma tick_start_stage: "stage v w g \<Longrightarrow> stage v w (tick_start t g)"
  unfolding tick_start_def Let_def
  by (rule keeps_stageD[OF mqtt_status_stage], rule stage_same) simp_all

lemma tick_autoconnect_stage:
  assumes "stage v w g"
  shows "stage v w (tick_autoconnect P t g)"
proof -
  have "capture_core_read_model (gw_registry g) = (core_input_of v, gw_registry g)" using assms by (simp add: stage_def)
  then show ?thesis using assms keeps_stageD[OF autoconnect_stage assms, of P] by (simp add: tick_autoconnect_def Let_def)
qed

lemma tick_stage:
  assumes "stage v w g"
  shows "stage v w (snd (tick P t g))"
proof -
  let ?g0 = "tick_start t g"
  let ?g1 = "snd (run_net_op (process_zigbee_join_window_policy (pf_hal P) t) ?g0)"
  let ?g3 = "snd (tick_stale t (snd (tick_timeouts t ?g1)))"
  let ?g4 = "snd (tick_pending_sta_connect P t (tick_tuya_init P t ?g3))"
  let ?g5 = "snd (run_net_op (process_force_remove_timeouts t) ?g4)"
  have "stage v w ?g3" by (rule stage_same[OF _ tick_start_stage[OF assms, of t]]) simp
  then have "stage v w (tick_tuya_init P t ?g3)" by (rule stage_same[rotated]) simp
  then have "stage v w ?g4" using stage_same[OF pending_connect_views] by blast
  then have "stage v w ?g5" by (rule stage_same[rotated]) simp
  from keeps_stageD[OF stats_stage tick_autoconnect_stage[OF this, of P t]]
  show ?thesis by (simp add: tick_def case_prod_unfold Let_def)
qed

lemma devices_stage:
  assumes "stage v w g"
  shows "stage v w (snd (gw_devices_api_snapshot t g))"
proof -
  have ok: "registry_shape (gw_registry g)" "reg_pins (gw_registry g) ! reg_active (gw_registry g) \<noteq> - 1"
    using has_room_ok assms by (auto simp: stage_def)
  have "snd (release_snapshot (Some (ref_of (reg_active (gw_registry g)) (gw_registry g)))
      (add_pin (reg_active (gw_registry g)) (gw_registry g))) = gw_registry g"
    using ok by (intro pin_release) (simp_all add: ref_of_def)
  then show ?thesis
    using assms shows_after_input(4)[of w "gw_read_models g"]
    by (simp add: stage_def gw_devices_api_snapshot_def pin_current_def Let_def)
qed

lemma views_post [simp]: "same_views (snd (post_event e g)) g"
  by (simp add: post_event_def split: prod.split)

lemma views_callback: "same_views (hal_callback P hal_read e g) g"
  by (cases e)
    (simp_all add: zigbee_device_joined_cb_def zigbee_device_left_cb_def zigbee_attribute_report_cb_def
      zigbee_command_result_cb_def zigbee_interview_result_cb_def zigbee_bind_result_cb_def
      zigbee_configure_reporting_result_cb_def zigbee_read_attribute_result_cb_def zigbee_attribute_report_raw_cb_def
      wifi_network_up_cb_def wifi_network_down_cb_def nvs_u32_written_cb_def case_prod_unfold split: option.split)

lemma views_init_adapter: "same_views (snd (init_hal_event_adapter P A g)) g"
  by (simp add: init_hal_event_adapter_def case_prod_unfold Let_def)

lemma register_stage: "keeps_stage (\<lambda>g. snd (initialize_hal_adapter P A g))"
  unfolding keeps_stage_def
proof (intro allI impI)
  fix v w :: CoreState and g :: "'a Gateway"
  assume s: "stage v w g"
  let ?g1 = "snd (init_hal_event_adapter P A g)"
  have g1: "stage v w ?g1" by (rule stage_same[OF views_init_adapter s])
  have "stage v w (reload_config_bootstrap_state P ?g1)"
    unfolding reload_config_bootstrap_state_def Let_def case_prod_unfold
    by (rule keeps_stageD[OF config_stage], rule stage_same[OF _ g1]) (simp add: deliver_notes_def split: prod.split)
  then have "stage v w ((reload_config_bootstrap_state P ?g1)
      \<lparr>gw_state_persistence := mark_restore_pending (gw_state_persistence (reload_config_bootstrap_state P ?g1))\<rparr>)"
    by (rule stage_same[rotated]) simp
  then show "stage v w (snd (initialize_hal_adapter P A g))"
    using g1 by (simp add: initialize_hal_adapter_def case_prod_unfold Let_def)
qed

lemma settled_after_input [simp]:
  "settled_storages c \<Longrightarrow> settled_storages (on_runtime_stats_changed i c)"
  "settled_storages c \<Longrightarrow> settled_storages (on_config_changed k c)"
  by (simp_all add: settled_storages_def on_runtime_stats_changed_def on_config_changed_def rebuild_network_snapshot_def
      rebuild_config_snapshot_def)

lemma has_room_init: "has_room registry_init"
proof -
  have "reg_pins registry_init ! 0 = 0" "reg_pins registry_init ! 1 = 0" by (simp_all add: registry_init_def kSnapshotCount_def)
  then show ?thesis unfolding has_room_def using registry_ok_init
    by (intro conjI exI[of _ 0] exI[of _ 1]) (simp_all add: kSnapshotCount_def)
qed

lemma reload_views:
  "gw_registry (reload_config_bootstrap_state P g) = gw_registry g"
  "settled_storages (gw_read_models g) \<Longrightarrow> settled_storages (gw_read_models (reload_config_bootstrap_state P g))"
  by (simp_all add: reload_config_bootstrap_state_def notify_read_models_from_config_cache_def Let_def deliver_notes_def
      split: prod.split)

lemma init_stage: "stage core_state_default core_state_default (gateway_init P d)"
proof -
  let ?g = "snd (run_net_op (set_join_window_cache False 0) (reload_config_bootstrap_state P (gateway_default d)))"
  have g: "gw_registry ?g = registry_init" "settled_storages (gw_read_models ?g)"
    using reload_views[where P = P and g = "gateway_default d"]
    by (simp_all add: gateway_default_def read_model_init_def storage_init_def settled_storages_def)
  have v: "visible registry_init = core_state_default"
    by (simp add: visible_def registry_init_def kSnapshotCount_def)
  show ?thesis
    unfolding gateway_init_def
    by (rule core_snapshot_stage)
      (use g v has_room_init core_inv_default in \<open>simp_all add: notify_read_models_from_runtime_stats_def Let_def\<close>)
qed


section \<open>Every history\<close>

text \<open>
  What happens to the runtime between two cycles: a tick, a callback of the drivers, their registration, a report of
  the MQTT client, a request for the devices, a posted command, and any operation on the state of the network side
  and of the two updates (the posts of the web API, the drivers' own changes).
\<close>

datatype 'd gateway_op =
    RunCycle
  | RunTick u32
  | ReportMqtt MqttStatusSnapshot
  | ReadDevices u32
  | EnterCommand CoreCommand
  | DriverCallback hal_read HalEvent
  | RegisterCallbacks "'d AdapterHal"
  | ChangeSystem "'d System \<Rightarrow> 'd System"

text \<open>The number of events that were reduced, and the state after; \<open>None\<close> when a cycle does not return.\<close>

fun perform_op :: "'d Platform \<Rightarrow> 'd gateway_op \<Rightarrow> 'd Gateway \<Rightarrow> (nat \<times> 'd Gateway) option" where
  "perform_op P RunCycle g = process_pending P g"
| "perform_op P (RunTick t) g = Some (0, snd (tick P t g))"
| "perform_op P (ReportMqtt q) g = Some (0, snd (post_mqtt_status q g))"
| "perform_op P (ReadDevices t) g = Some (0, snd (gw_devices_api_snapshot t g))"
| "perform_op P (EnterCommand c) g =
     (case post_command c (gw_rt g) (gw_commands g) of (err, rt, m) \<Rightarrow> Some (0, set_rt rt (g\<lparr>gw_commands := m\<rparr>)))"
| "perform_op P (DriverCallback hal_read e) g = Some (0, hal_callback P hal_read e g)"
| "perform_op P (RegisterCallbacks A) g = Some (0, snd (initialize_hal_adapter P A g))"
| "perform_op P (ChangeSystem f) g = Some (0, g\<lparr>gw_system := f (gw_system g)\<rparr>)"

fun gateway_run :: "'d Platform \<Rightarrow> 'd gateway_op list \<Rightarrow> 'd Gateway \<Rightarrow> (nat \<times> 'd Gateway) option" where
  "gateway_run P [] g = Some (0, g)"
| "gateway_run P (x # xs) g =
     (case perform_op P x g of
        None \<Rightarrow> None
      | Some (n, g1) \<Rightarrow> map_option (\<lambda>(m, g2). (n + m, g2)) (gateway_run P xs g1))"

lemma gateway_op_stage:
  assumes "stage v v g"
  shows "\<exists>es h. perform_op P x g = Some (length es, h) \<and> stage (core_run v es) (core_run v es) h"
proof (cases x)
  case RunCycle
  then show ?thesis using process_pending_stage[OF assms] by simp
next
  case (RunTick t)
  then show ?thesis using tick_stage[OF assms] by (auto simp: core_run_def)
next
  case (ReportMqtt q)
  then show ?thesis using stage_same[OF _ assms, of "snd (post_mqtt_status q g)"] by (auto simp: core_run_def post_mqtt_status_def)
next
  case (ReadDevices t)
  then show ?thesis using devices_stage[OF assms] by (auto simp: core_run_def)
next
  case (EnterCommand c)
  then show ?thesis using stage_same[OF _ assms] by (auto simp: core_run_def split: prod.split)
next
  case (DriverCallback hal_read e)
  then show ?thesis using stage_same[OF views_callback assms] by (auto simp: core_run_def)
next
  case (RegisterCallbacks A)
  then show ?thesis using keeps_stageD[OF register_stage assms] by (auto simp: core_run_def)
next
  case (ChangeSystem f)
  then show ?thesis using stage_same[OF _ assms] by (auto simp: core_run_def)
qed

lemma gateway_run_stage:
  "stage v v g \<Longrightarrow> \<exists>es h. gateway_run P xs g = Some (length es, h) \<and> stage (core_run v es) (core_run v es) h"
proof (induction xs arbitrary: v g)
  case Nil
  then show ?case by (intro exI[of _ "[]"]) (simp add: core_run_def)
next
  case (Cons x xs)
  obtain es h where h: "perform_op P x g = Some (length es, h)" "stage (core_run v es) (core_run v es) h"
    using gateway_op_stage[OF Cons.prems] by blast
  obtain fs k where k: "gateway_run P xs h = Some (length fs, k)"
      "stage (core_run (core_run v es) fs) (core_run (core_run v es) fs) k"
    using Cons.IH[OF h(2)] by blast
  then show ?case using h(1) by (intro exI[of _ "es @ fs"] exI[of _ k]) (simp add: core_run_def)
qed


end
