(* ===== verification/CText.thy ===== *)
theory CText
  imports Prelude
begin

text \<open>
  Text as the C library handles it: searching, decimal printing, \<^verbatim>\<open>strtoul\<close>. A C string is the list of its
  characters before the terminating zero. The width of \<^verbatim>\<open>unsigned long\<close>, 64 bits on the host and 32 on the target,
  is an argument.
\<close>

section \<open>Searching\<close>

text \<open>\<^verbatim>\<open>strstr\<close>: the text from the first occurrence on.\<close>

fun strstr :: "string \<Rightarrow> string \<Rightarrow> string option" where
  "strstr pat [] = (if pat = [] then Some [] else None)"
| "strstr pat (c # cs) = (if take (length pat) (c # cs) = pat then Some (c # cs) else strstr pat cs)"

text \<open>\<^verbatim>\<open>strchr\<close>: the text after the first occurrence of a character.\<close>

definition after_char :: "char \<Rightarrow> string \<Rightarrow> string option" where
  "after_char c s = (case dropWhile (\<lambda>x. x \<noteq> c) s of [] \<Rightarrow> None | _ # rest \<Rightarrow> Some rest)"

definition has_suffix :: "string \<Rightarrow> string \<Rightarrow> bool" where
  "has_suffix s suffix \<longleftrightarrow> length suffix \<le> length s \<and> drop (length s - length suffix) s = suffix"

text \<open>\<^verbatim>\<open>isspace\<close> of the C locale, and the characters that the parsers skip.\<close>

definition isspace :: "char \<Rightarrow> bool" where
  "isspace c \<longleftrightarrow> of_char c = (32::nat) \<or> (9::nat) \<le> of_char c \<and> of_char c \<le> (13::nat)"

definition json_space :: "char \<Rightarrow> bool" where
  "json_space c \<longleftrightarrow> of_char c \<in> {32, 9, 10, 13 :: nat}"

section \<open>Numbers\<close>

definition is_dec_digit :: "char \<Rightarrow> bool" where
  "is_dec_digit c \<longleftrightarrow> (48::nat) \<le> of_char c \<and> (of_char c :: nat) \<le> 57"

definition digit_in :: "nat \<Rightarrow> char \<Rightarrow> nat option" where
  "digit_in base c =
     (let n = (of_char c :: nat);
          d = (if 48 \<le> n \<and> n \<le> 57 then n - 48
               else if 97 \<le> n \<and> n \<le> 122 then n - 87
               else if 65 \<le> n \<and> n \<le> 90 then n - 55 else 36)
      in if d < base then Some d else None)"

fun read_digits :: "nat \<Rightarrow> nat \<Rightarrow> string \<Rightarrow> nat \<times> string" where
  "read_digits base acc [] = (acc, [])"
| "read_digits base acc (c # cs) =
     (case digit_in base c of None \<Rightarrow> (acc, c # cs) | Some d \<Rightarrow> read_digits base (acc * base + d) cs)"

definition hex_prefix :: "string \<Rightarrow> bool" where
  "hex_prefix s \<longleftrightarrow> 3 \<le> length s \<and> s ! 0 = CHR ''0'' \<and> s ! 1 \<in> {CHR ''x'', CHR ''X''} \<and> digit_in 16 (s ! 2) \<noteq> None"

text \<open>
  \<^verbatim>\<open>strtoul\<close> for base 10, or 0 for the base that the prefix tells: the value, the text where it stopped (all of it
  when there was no number), and whether \<^verbatim>\<open>errno\<close> is set because the number was out of range.
\<close>

definition strtoul :: "nat \<Rightarrow> nat \<Rightarrow> string \<Rightarrow> nat \<times> string \<times> bool" where
  "strtoul bits base text =
     (let s0 = dropWhile isspace text;
          neg = (s0 \<noteq> [] \<and> hd s0 = CHR ''-'');
          s1 = (if s0 \<noteq> [] \<and> hd s0 \<in> {CHR ''-'', CHR ''+''} then tl s0 else s0);
          (b, s2) = (if base \<noteq> 0 then (base, s1)
                     else if hex_prefix s1 then (16, drop 2 s1)
                     else if s1 \<noteq> [] \<and> hd s1 = CHR ''0'' then (8, s1) else (10, s1));
          (n, rest) = read_digits b 0 s2
      in if rest = s2 then (0, text, False)
         else if n \<ge> 2 ^ bits then (2 ^ bits - 1, rest, True)
         else (if neg then (2 ^ bits - n) mod 2 ^ bits else n, rest, False))"

text \<open>\<^verbatim>\<open>%u\<close>.\<close>

fun dec :: "nat \<Rightarrow> string" where
  "dec n = (if n < 10 then [char_of (48 + n)] else dec (n div 10) @ [char_of (48 + n mod 10)])"

declare dec.simps [simp del]

text \<open>\<^verbatim>\<open>%d\<close>.\<close>

definition sdec :: "int \<Rightarrow> string" where
  "sdec i = (if i < 0 then CHR ''-'' # dec (nat (- i)) else dec (nat i))"

text \<open>\<^verbatim>\<open>snprintf\<close> into a buffer: what it holds when everything fitted.\<close>

definition fits :: "nat \<Rightarrow> string \<Rightarrow> string option" where
  "fits capacity s = (if s \<noteq> [] \<and> length s < capacity then Some s else None)"

section \<open>Reading back what was printed\<close>

lemma is_dec_digit_char [simp]: "d < 10 \<Longrightarrow> is_dec_digit (char_of (48 + d :: nat))"
  by (simp add: is_dec_digit_def)

lemma dec_digits: "list_all is_dec_digit (dec n)"
  by (induction n rule: dec.induct) (subst dec.simps, simp)

lemma dec_not_empty [simp]: "dec n \<noteq> []"
  by (subst dec.simps) simp

lemma digit_in_dec [simp]: "d < 10 \<Longrightarrow> digit_in 10 (char_of (48 + d :: nat)) = Some d"
  by (simp add: digit_in_def)

lemma digit_in_None: "\<not> is_dec_digit c \<Longrightarrow> digit_in 10 c = None"
  by (auto simp: digit_in_def is_dec_digit_def Let_def)

lemma read_dec: "read_digits 10 acc (dec n @ rest) = read_digits 10 (acc * 10 ^ length (dec n) + n) rest"
proof (induction n arbitrary: acc rest rule: dec.induct)
  case (1 n)
  show ?case
  proof (cases "n < 10")
    case True
    then show ?thesis by (simp add: dec.simps[of n])
  next
    case False
    have d: "dec n = dec (n div 10) @ [char_of (48 + n mod 10)]" using False by (simp add: dec.simps[of n])
    have "read_digits 10 acc (dec n @ rest) =
        read_digits 10 (acc * 10 ^ length (dec (n div 10)) + n div 10) (char_of (48 + n mod 10) # rest)"
      unfolding d using 1[OF False] by simp
    then show ?thesis by (simp add: d algebra_simps)
  qed
qed

lemma read_dec_stop: "rest = [] \<or> \<not> is_dec_digit (hd rest) \<Longrightarrow> read_digits 10 0 (dec n @ rest) = (n, rest)"
  using read_dec[of 0 n rest] by (cases rest) (auto simp: digit_in_None)

lemma dec_take: "k < length (dec n) \<Longrightarrow> 0 < k \<Longrightarrow> take k (dec n) = dec (n div 10 ^ (length (dec n) - k))"
proof (induction n rule: dec.induct)
  case (1 n)
  show ?case
  proof (cases "n < 10")
    case True
    then show ?thesis using 1(2,3) by (simp add: dec.simps[of n])
  next
    case False
    have d: "dec n = dec (n div 10) @ [char_of (48 + n mod 10)]" using False by (simp add: dec.simps[of n])
    show ?thesis
    proof (cases "k = length (dec (n div 10))")
      case True
      then show ?thesis by (simp add: d)
    next
      case k: False
      then have less: "k < length (dec (n div 10))" using 1(2) by (simp add: d)
      then have "length (dec n) - k = Suc (length (dec (n div 10)) - k)" by (simp add: d)
      then show ?thesis using 1(1)[OF False less 1(3)] less by (simp add: d div_mult2_eq)
    qed
  qed
qed

lemma dec_bounds: "10 ^ (length (dec n) - 1) \<le> n \<or> n = 0" "n < 10 ^ length (dec n)"
proof -
  have "(10 ^ (length (dec n) - 1) \<le> n \<or> n = 0) \<and> n < 10 ^ length (dec n)"
  proof (induction n rule: dec.induct)
    case (1 n)
    show ?case
    proof (cases "n < 10")
      case True
      then show ?thesis by (cases "n = 0") (auto simp: dec.simps[of n])
    next
      case False
      have d: "length (dec n) = Suc (length (dec (n div 10)))" using False by (simp add: dec.simps[of n])
      have "0 < length (dec (n div 10))" by simp
      then obtain m where m: "length (dec (n div 10)) = Suc m" using Suc_pred' by blast
      show ?thesis using 1[OF False] False unfolding d m by auto
    qed
  qed
  then show "10 ^ (length (dec n) - 1) \<le> n \<or> n = 0" "n < 10 ^ length (dec n)" by simp_all
qed

lemma dec_length: "n < 10 ^ k \<Longrightarrow> 0 < k \<Longrightarrow> length (dec n) \<le> k"
proof (rule ccontr)
  assume n: "n < 10 ^ k" "0 < k" and l: "\<not> length (dec n) \<le> k"
  show False
  proof (cases "n = 0")
    case True
    then show ?thesis using l n(2) by (simp add: dec.simps[of 0])
  next
    case False
    have "(10::nat) ^ k \<le> 10 ^ (length (dec n) - 1)" using l by (intro power_increasing) simp_all
    then show ?thesis using dec_bounds(1)[of n] False n(1) by (meson leD le_less_trans)
  qed
qed

lemma not_space_dec: "isspace (hd (dec n @ rest)) = False" "hd (dec n @ rest) \<notin> {CHR ''-'', CHR ''+''}"
proof -
  obtain c cs where c: "dec n = c # cs" by (meson dec_not_empty neq_Nil_conv)
  then have "is_dec_digit c" using dec_digits[of n] by simp
  then show "isspace (hd (dec n @ rest)) = False" "hd (dec n @ rest) \<notin> {CHR ''-'', CHR ''+''}"
    using c by (auto simp: isspace_def is_dec_digit_def)
qed

text \<open>Base 10 reads a printed number.\<close>

lemma strtoul_dec:
  assumes "n < 2 ^ bits" "rest = [] \<or> \<not> is_dec_digit (hd rest)"
  shows "strtoul bits 10 (dec n @ rest) = (n, rest, False)"
proof -
  have "dropWhile isspace (dec n @ rest) = dec n @ rest"
    using not_space_dec(1)[of n rest] by (cases "dec n @ rest") auto
  moreover have "rest \<noteq> dec n @ rest" by simp
  ultimately show ?thesis
    using read_dec_stop[OF assms(2)] not_space_dec(2)[of n rest] assms(1) by (auto simp: strtoul_def Let_def)
qed

lemma strtoul_dec_big:
  assumes "2 ^ bits \<le> n"
  shows "strtoul bits 10 (dec n) = (2 ^ bits - 1, [], True)"
proof -
  have "dropWhile isspace (dec n) = dec n"
    using not_space_dec(1)[of n "[]"] by (cases "dec n") auto
  then show ?thesis
    using read_dec_stop[of "[]" n] not_space_dec(2)[of n "[]"] assms by (auto simp: strtoul_def Let_def)
qed


section \<open>Values of a JSON text\<close>

definition quoted :: "string \<Rightarrow> string" where "quoted k = CHR 0x22 # k @ [CHR 0x22]"

text \<open>
  All parsers of the repository look for the quoted key anywhere in the text, for the next colon, and skip white
  space; the key must fit a buffer of 64 characters with its quotes.
\<close>

definition value_after_key :: "(char \<Rightarrow> bool) \<Rightarrow> string \<Rightarrow> string \<Rightarrow> string option" where
  "value_after_key ws body key =
     (if 64 \<le> length key + 2 then None
      else (case strstr (quoted key) body of
              None \<Rightarrow> None
            | Some s \<Rightarrow> map_option (dropWhile ws) (after_char CHR '':'' (drop (length key + 2) s))))"

text \<open>The objects that they read right: any fields in any order, with any white space, but flat.\<close>

datatype scalar = JNum nat | JBool bool | JText string

fun scalar_text :: "scalar \<Rightarrow> string" where
  "scalar_text (JNum n) = dec n"
| "scalar_text (JBool b) = (if b then ''true'' else ''false'')"
| "scalar_text (JText t) = quoted t"

record json_field =
  jf_before :: string
  jf_key :: string
  jf_after_key :: string
  jf_before_value :: string
  jf_value :: scalar
  jf_after :: string

definition field_text :: "json_field \<Rightarrow> string" where
  "field_text f = jf_before f @ quoted (jf_key f) @ jf_after_key f @ CHR '':'' # jf_before_value f @
     scalar_text (jf_value f) @ jf_after f"

fun fields_text :: "json_field list \<Rightarrow> string" where
  "fields_text [] = ''}''"
| "fields_text [f] = field_text f @ ''}''"
| "fields_text (f # g # fs) = field_text f @ CHR '','' # fields_text (g # fs)"

definition object_text :: "json_field list \<Rightarrow> string" where "object_text fs = CHR ''{'' # fields_text fs"

definition key_char :: "char \<Rightarrow> bool" where
  "key_char c \<longleftrightarrow> is_dec_digit c \<or> c = CHR ''_'' \<or> (97::nat) \<le> of_char c \<and> of_char c \<le> (122::nat) \<or>
     (65::nat) \<le> of_char c \<and> of_char c \<le> (90::nat)"

definition key_name :: "string \<Rightarrow> bool" where
  "key_name k \<longleftrightarrow> k \<noteq> [] \<and> list_all key_char k \<and> length k < 62"

text \<open>A text value that is itself the name of a field is taken for it.\<close>

definition field_ok :: "string set \<Rightarrow> json_field \<Rightarrow> bool" where
  "field_ok names f \<longleftrightarrow> key_name (jf_key f) \<and> list_all json_space (jf_before f) \<and> list_all json_space (jf_after_key f) \<and>
     list_all json_space (jf_before_value f) \<and> list_all json_space (jf_after f) \<and>
     (case jf_value f of JText t \<Rightarrow> CHR 0x22 \<notin> set t \<and> t \<notin> names | _ \<Rightarrow> True)"

definition object_ok :: "string set \<Rightarrow> json_field list \<Rightarrow> bool" where
  "object_ok names fs \<longleftrightarrow> list_all (field_ok names) fs \<and> distinct (map jf_key fs)"

definition field_value :: "string \<Rightarrow> json_field list \<Rightarrow> scalar option" where
  "field_value k fs = map_of (map (\<lambda>f. (jf_key f, jf_value f)) fs) k"

lemma quote_chars: "key_char c \<Longrightarrow> c \<noteq> CHR 0x22" "json_space c \<Longrightarrow> c \<noteq> CHR 0x22" "is_dec_digit c \<Longrightarrow> c \<noteq> CHR 0x22"
  "json_space c \<Longrightarrow> \<not> key_char c" "json_space c \<Longrightarrow> c \<noteq> CHR '':''"
  by (auto simp: key_char_def json_space_def is_dec_digit_def)

lemma strstr_skip: "CHR 0x22 \<notin> set xs \<Longrightarrow> strstr (quoted k) (xs @ ys) = strstr (quoted k) ys"
  by (induction xs) (auto simp: quoted_def)

lemma take_text_eq:
  assumes "CHR 0x22 \<notin> set k" "CHR 0x22 \<notin> set t"
  shows "take (length (quoted k)) (quoted t @ ys) = quoted k \<longleftrightarrow> t = k"
proof
  assume "take (length (quoted k)) (quoted t @ ys) = quoted k"
  then have e: "take (Suc (length k)) (t @ CHR 0x22 # ys) = k @ [CHR 0x22]" by (simp add: quoted_def)
  have nth: "(k @ [CHR 0x22]) ! i = (t @ CHR 0x22 # ys) ! i" if "i \<le> length k" for i
    using that arg_cong[OF e, of "\<lambda>s. s ! i"] by (simp del: take_append)
  have "length t = length k"
  proof (rule linorder_cases[of "length t" "length k"])
    assume "length t < length k"
    then have "k ! length t = CHR 0x22" "k ! length t \<in> set k" using nth[of "length t"] nth_mem[of "length t" k] by (simp_all add: nth_append)
    then show ?thesis using assms(1) by simp
  next
    assume "length k < length t"
    then have "t ! length k = CHR 0x22" "t ! length k \<in> set t" using nth[of "length k"] nth_mem[of "length k" t] by (simp_all add: nth_append)
    then show ?thesis using assms(2) by simp
  qed
  then show "t = k" using e by simp
qed (simp add: quoted_def)

text \<open>Past a quoted text: found, or after it, for what follows does not continue a key.\<close>

lemma strstr_quoted:
  assumes "key_name k" "CHR 0x22 \<notin> set t" "ys = [] \<or> \<not> key_char (hd ys)"
  shows "strstr (quoted k) (quoted t @ ys) = (if t = k then Some (quoted t @ ys) else strstr (quoted k) ys)"
proof -
  have k: "CHR 0x22 \<notin> set k" "k \<noteq> []" "key_char (hd k)"
    using assms(1) quote_chars(1) by (auto simp: key_name_def list_all_iff)
  have stop: "strstr (quoted k) (CHR 0x22 # ys) = strstr (quoted k) ys"
    using k(2,3) assms(3) by (cases k; cases ys) (auto simp: quoted_def)
  show ?thesis
  proof (cases "t = k")
    case True
    then show ?thesis using take_text_eq[OF k(1) assms(2), of ys] by (simp add: quoted_def)
  next
    case False
    then have "strstr (quoted k) (quoted t @ ys) = strstr (quoted k) (t @ CHR 0x22 # ys)"
      using take_text_eq[OF k(1) assms(2), of ys] by (simp add: quoted_def)
    then show ?thesis using strstr_skip[OF assms(2)] stop False by simp
  qed
qed


lemma no_quote: "list_all json_space s \<Longrightarrow> CHR 0x22 \<notin> set s" "CHR 0x22 \<notin> set (dec n)"
  using quote_chars(2,3) dec_digits[of n] by (force simp: list_all_iff)+

lemma value_no_key:
  assumes "key_name k" "field_ok names f" "k \<in> names" "\<not> key_char (hd (jf_after f @ c # ys))"
  shows "strstr (quoted k) (scalar_text (jf_value f) @ jf_after f @ c # ys) = strstr (quoted k) (jf_after f @ c # ys)"
proof (cases "jf_value f")
  case (JText t)
  then have "CHR 0x22 \<notin> set t" "t \<noteq> k" using assms(2,3) by (auto simp: field_ok_def)
  then show ?thesis using strstr_quoted[OF assms(1), of t "jf_after f @ c # ys"] assms(4) JText by simp
next
  case (JNum n)
  show ?thesis unfolding JNum scalar_text.simps by (rule strstr_skip) (simp add: no_quote)
next
  case (JBool b)
  show ?thesis unfolding JBool scalar_text.simps by (rule strstr_skip) simp
qed

lemma hd_spaces: "list_all json_space s \<Longrightarrow> \<not> key_char c \<Longrightarrow> \<not> key_char (hd (s @ c # ys))"
  using quote_chars(4) by (cases s) auto

lemma strstr_field:
  assumes "key_name k" "field_ok names f" "k \<in> names" "c \<in> {CHR '','', CHR ''}''}"
  shows "strstr (quoted k) (field_text f @ c # ys) =
    (if jf_key f = k then Some (quoted k @ jf_after_key f @ CHR '':'' # jf_before_value f @ scalar_text (jf_value f) @ jf_after f @ c # ys)
     else strstr (quoted k) ys)"
proof -
  let ?v = "scalar_text (jf_value f) @ jf_after f @ c # ys"
  have c: "\<not> key_char c" "c \<noteq> CHR 0x22" "\<not> key_char CHR '':''" using assms(4) by (auto simp: key_char_def is_dec_digit_def)
  have s: "list_all json_space (jf_before f)" "list_all json_space (jf_after_key f)" "list_all json_space (jf_before_value f)"
      "list_all json_space (jf_after f)" and key: "key_name (jf_key f)"
    using assms(2) by (simp_all add: field_ok_def)
  have q: "CHR 0x22 \<notin> set (jf_key f)" using key quote_chars(1) by (auto simp: key_name_def list_all_iff)
  have "strstr (quoted k) (field_text f @ c # ys) =
      strstr (quoted k) (quoted (jf_key f) @ jf_after_key f @ CHR '':'' # jf_before_value f @ ?v)"
    using strstr_skip[OF no_quote(1)[OF s(1)]] by (simp add: field_text_def)
  also have "\<dots> = (if jf_key f = k then Some (quoted k @ jf_after_key f @ CHR '':'' # jf_before_value f @ ?v)
      else strstr (quoted k) (jf_after_key f @ CHR '':'' # jf_before_value f @ ?v))"
    using strstr_quoted[OF assms(1) q, of "jf_after_key f @ CHR '':'' # jf_before_value f @ ?v"] hd_spaces[OF s(2) c(3)] by simp
  also have "strstr (quoted k) (jf_after_key f @ CHR '':'' # jf_before_value f @ ?v) = strstr (quoted k) ?v"
    using strstr_skip[of "jf_after_key f @ CHR '':'' # jf_before_value f" k ?v] no_quote(1)[OF s(2)] no_quote(1)[OF s(3)] by simp
  also have "\<dots> = strstr (quoted k) ys"
    using value_no_key[OF assms(1-3) hd_spaces[OF s(4) c(1)]] strstr_skip[of "jf_after f @ [c]" k ys] no_quote(1)[OF s(4)] c(2) by simp
  finally show ?thesis by simp
qed

lemma strstr_fields:
  assumes "key_name k" "k \<in> names" "object_ok names fs"
  shows "\<exists>c ys. c \<in> {CHR '','', CHR ''}''} \<and> strstr (quoted k) (fields_text fs) =
    map_option (\<lambda>f. quoted k @ jf_after_key f @ CHR '':'' # jf_before_value f @ scalar_text (jf_value f) @ jf_after f @ c # ys)
      (find (\<lambda>f. jf_key f = k) fs)"
  using assms(3)
proof (induction fs rule: fields_text.induct)
  case 1
  show ?case using strstr_skip[of "''}''" k "[]"] by (intro exI[of _ "CHR '',''"]) (simp add: quoted_def)
next
  case (2 f)
  then have "field_ok names f" by (simp add: object_ok_def)
  from strstr_field[OF assms(1) this assms(2), of "CHR ''}''" "[]"] show ?case
    by (intro exI[of _ "CHR ''}''"] exI[of _ "[]"]) (simp add: quoted_def)
next
  case (3 f g fs)
  then have ok: "field_ok names f" "object_ok names (g # fs)" by (simp_all add: object_ok_def)
  show ?case
  proof (cases "jf_key f = k")
    case True
    then show ?thesis using strstr_field[OF assms(1) ok(1) assms(2), of "CHR '',''" "fields_text (g # fs)"]
      by (intro exI[of _ "CHR '',''"] exI[of _ "fields_text (g # fs)"]) simp
  next
    case False
    then show ?thesis using strstr_field[OF assms(1) ok(1) assms(2), of "CHR '',''" "fields_text (g # fs)"] 3(1)[OF ok(2)] by simp
  qed
qed

lemma scalar_starts: "scalar_text v = c # cs \<Longrightarrow> \<not> json_space c \<and> \<not> isspace c"
  using dec_digits by (cases v) (auto simp: json_space_def isspace_def is_dec_digit_def quoted_def split: if_splits
      dest: arg_cong[where f = "\<lambda>s. list_all is_dec_digit s"])

lemma scalar_not_empty: "scalar_text v \<noteq> []" by (cases v) (simp_all add: quoted_def)

text \<open>A parser gets the text from the value of the field on, or nothing when there is no such field.\<close>

lemma value_of_field:
  assumes "key_name k" "k \<in> names" "object_ok names fs" "ws = json_space \<or> ws = isspace"
  shows "\<exists>c ys zs. c \<in> {CHR '','', CHR ''}''} \<and> list_all json_space zs \<and>
     value_after_key ws (object_text fs) k = map_option (\<lambda>v. scalar_text v @ zs @ c # ys) (field_value k fs)"
proof -
  obtain c ys where f: "c \<in> {CHR '','', CHR ''}''}" "strstr (quoted k) (fields_text fs) =
      map_option (\<lambda>f. quoted k @ jf_after_key f @ CHR '':'' # jf_before_value f @ scalar_text (jf_value f) @ jf_after f @ c # ys)
        (find (\<lambda>f. jf_key f = k) fs)"
    using strstr_fields[OF assms(1-3)] by blast
  have skip: "strstr (quoted k) (object_text fs) = strstr (quoted k) (fields_text fs)"
    using strstr_skip[of "''{''" k] by (simp add: object_text_def)
  have len: "length k < 62" using assms(1) by (simp add: key_name_def)
  show ?thesis
  proof (cases "find (\<lambda>f. jf_key f = k) fs")
    case None
    then have "field_value k fs = None" by (auto simp: field_value_def map_of_eq_None_iff find_None_iff)
    then show ?thesis using f(1) len None f(2) skip by (intro exI[of _ c] exI[of _ "[]"]) (simp add: value_after_key_def)
  next
    case (Some f)
    then have m: "f \<in> set fs" "jf_key f = k" by (auto simp: find_Some_iff)
    have v: "field_value k fs = Some (jf_value f)"
      using assms(3) m by (auto simp: field_value_def object_ok_def comp_def intro!: map_of_is_SomeI)
    have ok: "field_ok names f" using assms(3) m(1) by (simp add: object_ok_def list_all_iff)
    let ?v = "scalar_text (jf_value f) @ jf_after f @ c # ys"
    have colon: "after_char CHR '':'' (jf_after_key f @ CHR '':'' # jf_before_value f @ ?v) = Some (jf_before_value f @ ?v)"
      using ok quote_chars(5) by (simp add: after_char_def dropWhile_append2 field_ok_def list_all_iff)
    have sp: "ws x" if "json_space x" for x using that assms(4) by (auto simp: json_space_def isspace_def)
    obtain y xs where y: "scalar_text (jf_value f) = y # xs" using scalar_not_empty by (meson neq_Nil_conv)
    have "dropWhile ws (jf_before_value f @ ?v) = ?v"
      using ok sp scalar_starts[OF y] assms(4) y by (auto simp: dropWhile_append2 field_ok_def list_all_iff)
    then show ?thesis
      using f Some len skip colon v ok
      by (intro exI[of _ c] exI[of _ ys] exI[of _ "jf_after f"]) (simp add: value_after_key_def quoted_def field_ok_def)
  qed
qed

end
