(* ===== verification/CommandMapper.thy ===== *)
theory CommandMapper
  imports CText CoreTypes ConfigManager
begin

text \<open>
  \<^verbatim>\<open>components/service/application_command_mapper.cpp\<close>: the requests that the web API and MQTT messages ask for,
  parsed from their texts, and the topics of \<^verbatim>\<open>components/mqtt_bridge/mqtt_topics.cpp\<close>.
\<close>

datatype ApplicationCommandParseStatus =
    kParseOk | kInvalidPayload | kInvalidTopic | kInvalidShortAddr | kInvalidProfileKey
  | kInvalidProfileBounds | kInvalidCapabilityFlags

record DevicePowerCommandRequest =
  dq_correlation_id :: u32
  dq_short_addr :: u16
  dq_desired_power_on :: bool
  dq_issued_at_ms :: u32

definition power_request_default :: DevicePowerCommandRequest where
  "power_request_default = \<lparr>dq_correlation_id = 0, dq_short_addr = kUnknownDeviceShortAddr,
     dq_desired_power_on = False, dq_issued_at_ms = 0\<rparr>"

section \<open>The parsers\<close>

text \<open>The first argument of the parsers is the width of \<^verbatim>\<open>unsigned long\<close>.\<close>

definition parse_u32_strict :: "nat \<Rightarrow> string \<Rightarrow> u32 option" where
  "parse_u32_strict bits text =
     (if text = [] then None
      else (case strtoul bits 10 text of
              (n, stop, overflow) \<Rightarrow>
                if overflow \<or> stop = text \<or> stop \<noteq> [] \<or> n > 2 ^ 32 - 1 then None else Some (of_nat n)))"

definition find_json_u32_field :: "nat \<Rightarrow> string \<Rightarrow> string \<Rightarrow> u32 option" where
  "find_json_u32_field bits body key =
     (case value_after_key json_space body key of
        None \<Rightarrow> None
      | Some v \<Rightarrow> let number = take 15 (takeWhile is_dec_digit v)
                  in if number = [] then None else parse_u32_strict bits number)"

definition find_json_bool_field :: "string \<Rightarrow> string \<Rightarrow> bool option" where
  "find_json_bool_field body key =
     (case value_after_key json_space body key of
        None \<Rightarrow> None
      | Some v \<Rightarrow> if take 4 v = ''true'' then Some True else if take 5 v = ''false'' then Some False else None)"

definition kDeviceTopicPrefix :: string where "kDeviceTopicPrefix = ''zigbee-gateway/devices/''"

definition bad_short_addr :: "u32 \<Rightarrow> bool" where
  "bad_short_addr a \<longleftrightarrow> a = 0 \<or> a > 0xFFFF \<or> a = ucast kUnknownDeviceShortAddr"

definition extract_device_short_addr_from_topic ::
  "nat \<Rightarrow> string \<Rightarrow> string \<Rightarrow> ApplicationCommandParseStatus + u16" where
  "extract_device_short_addr_from_topic bits topic suffix =
     (let prefix_len = length kDeviceTopicPrefix
      in if length topic \<le> prefix_len + length suffix then Inl kInvalidTopic
         else if take prefix_len topic \<noteq> kDeviceTopicPrefix then Inl kInvalidTopic
         else if drop (length topic - length suffix) topic \<noteq> suffix then Inl kInvalidTopic
         else
           let short_len = length topic - prefix_len - length suffix
           in if short_len = 0 \<or> short_len \<ge> 8 then Inl kInvalidTopic
              else (case parse_u32_strict bits (take short_len (drop prefix_len topic)) of
                      None \<Rightarrow> Inl kInvalidTopic
                    | Some short_raw \<Rightarrow>
                        if bad_short_addr short_raw then Inl kInvalidShortAddr else Inr (ucast short_raw)))"

definition parse_reporting_profile_payload ::
  "nat \<Rightarrow> string \<Rightarrow> u16 \<Rightarrow> ApplicationCommandParseStatus + ReportingProfile" where
  "parse_reporting_profile_payload bits payload short_addr =
     (let u32_field = find_json_u32_field bits payload
      in case (u32_field ''endpoint'', u32_field ''cluster_id'', u32_field ''min_interval_seconds'',
               u32_field ''max_interval_seconds'') of
           (Some endpoint, Some cluster_id, Some min_interval, Some max_interval) \<Rightarrow>
             if short_addr = 0 \<or> short_addr = kUnknownDeviceShortAddr \<or> endpoint = 0 \<or> endpoint > 0xFF \<or>
                cluster_id = 0 \<or> cluster_id > 0xFFFF \<or> min_interval > 0xFFFF \<or> max_interval > 0xFFFF
             then Inl kInvalidProfileKey
             else if max_interval = 0 \<or> min_interval > max_interval then Inl kInvalidProfileBounds
             else
               let change = (case u32_field ''reportable_change'' of None \<Rightarrow> 0 | Some c \<Rightarrow> c);
                   profile = profile_default
                     \<lparr>rp_in_use := True,
                      rp_key := \<lparr>pk_short_addr = short_addr, pk_endpoint = ucast endpoint, pk_cluster_id = ucast cluster_id\<rparr>,
                      rp_min_interval_seconds := ucast min_interval, rp_max_interval_seconds := ucast max_interval,
                      rp_reportable_change := change\<rparr>
               in (case u32_field ''capability_flags'' of
                     None \<Rightarrow> Inr profile
                   | Some flags \<Rightarrow>
                       if flags > 0xFF then Inl kInvalidCapabilityFlags
                       else Inr (profile\<lparr>rp_capability_flags := ucast flags\<rparr>))
         | _ \<Rightarrow> Inl kInvalidPayload)"

fun application_command_parse_error :: "ApplicationCommandParseStatus \<Rightarrow> string" where
  "application_command_parse_error kInvalidPayload = ''invalid_payload''"
| "application_command_parse_error kInvalidTopic = ''invalid_topic''"
| "application_command_parse_error kInvalidShortAddr = ''invalid_short_addr''"
| "application_command_parse_error kInvalidProfileKey = ''invalid_profile_key''"
| "application_command_parse_error kInvalidProfileBounds = ''invalid_profile_bounds''"
| "application_command_parse_error kInvalidCapabilityFlags = ''invalid_capability_flags''"
| "application_command_parse_error kParseOk = ''ok''"

definition mqtt_topic_has_suffix :: "string \<Rightarrow> string \<Rightarrow> bool" where
  "mqtt_topic_has_suffix topic suffix = has_suffix topic suffix"

definition parse_web_device_power_request ::
  "nat \<Rightarrow> string \<Rightarrow> ApplicationCommandParseStatus + DevicePowerCommandRequest" where
  "parse_web_device_power_request bits body =
     (case (find_json_u32_field bits body ''short_addr'', find_json_bool_field body ''power_on'') of
        (Some short_addr_raw, Some desired_power_on) \<Rightarrow>
          if bad_short_addr short_addr_raw then Inl kInvalidShortAddr
          else Inr (power_request_default\<lparr>dq_short_addr := ucast short_addr_raw, dq_desired_power_on := desired_power_on\<rparr>)
      | _ \<Rightarrow> Inl kInvalidPayload)"

definition parse_web_reporting_profile_request ::
  "nat \<Rightarrow> string \<Rightarrow> ApplicationCommandParseStatus + ReportingProfile" where
  "parse_web_reporting_profile_request bits body =
     (case find_json_u32_field bits body ''short_addr'' of
        None \<Rightarrow> Inl kInvalidPayload
      | Some short_addr_raw \<Rightarrow>
          if bad_short_addr short_addr_raw then Inl kInvalidProfileKey
          else parse_reporting_profile_payload bits body (ucast short_addr_raw))"

definition parse_mqtt_device_power_request ::
  "nat \<Rightarrow> string \<Rightarrow> string \<Rightarrow> ApplicationCommandParseStatus + DevicePowerCommandRequest" where
  "parse_mqtt_device_power_request bits topic payload =
     (case extract_device_short_addr_from_topic bits topic ''/power/set'' of
        Inl err \<Rightarrow> Inl err
      | Inr short_addr \<Rightarrow>
          (case find_json_bool_field payload ''power_on'' of
             None \<Rightarrow> Inl kInvalidPayload
           | Some desired_power_on \<Rightarrow>
               Inr (power_request_default\<lparr>dq_short_addr := short_addr, dq_desired_power_on := desired_power_on\<rparr>)))"

definition parse_mqtt_reporting_profile_request ::
  "nat \<Rightarrow> string \<Rightarrow> string \<Rightarrow> ApplicationCommandParseStatus + ReportingProfile" where
  "parse_mqtt_reporting_profile_request bits topic payload =
     (case extract_device_short_addr_from_topic bits topic ''/config'' of
        Inl err \<Rightarrow> Inl err
      | Inr short_addr \<Rightarrow> parse_reporting_profile_payload bits payload short_addr)"

section \<open>Topics\<close>

definition kTopicRoot :: string where "kTopicRoot = ''zigbee-gateway''"

text \<open>Each fills a buffer of the given size, or fails.\<close>

definition build_device_topic :: "u16 \<Rightarrow> string \<Rightarrow> nat \<Rightarrow> string option" where
  "build_device_topic short_addr suffix out_size =
     fits out_size (kTopicRoot @ ''/devices/'' @ dec (unat short_addr) @ ''/'' @ suffix)"

definition topic_devices :: string where "topic_devices = ''zigbee-gateway/devices''"
definition topic_state :: string where "topic_state = ''zigbee-gateway/state''"

definition topic_device_state :: "u16 \<Rightarrow> nat \<Rightarrow> string option" where
  "topic_device_state short_addr = build_device_topic short_addr ''state''"
definition topic_device_telemetry :: "u16 \<Rightarrow> nat \<Rightarrow> string option" where
  "topic_device_telemetry short_addr = build_device_topic short_addr ''telemetry''"
definition topic_device_availability :: "u16 \<Rightarrow> nat \<Rightarrow> string option" where
  "topic_device_availability short_addr = build_device_topic short_addr ''availability''"
definition topic_device_config :: "u16 \<Rightarrow> nat \<Rightarrow> string option" where
  "topic_device_config short_addr = build_device_topic short_addr ''config''"
definition topic_device_power_set :: "u16 \<Rightarrow> nat \<Rightarrow> string option" where
  "topic_device_power_set short_addr = build_device_topic short_addr ''power/set''"

definition topic_device_config_wildcard :: string where
  "topic_device_config_wildcard = ''zigbee-gateway/devices/+/config''"
definition topic_device_power_set_wildcard :: string where
  "topic_device_power_set_wildcard = ''zigbee-gateway/devices/+/power/set''"


section \<open>What the parsers read\<close>

definition command_fields :: "string set" where
  "command_fields = {''short_addr'', ''power_on'', ''endpoint'', ''cluster_id'', ''min_interval_seconds'',
     ''max_interval_seconds'', ''reportable_change'', ''capability_flags''}"

definition num_field :: "string \<Rightarrow> json_field list \<Rightarrow> u32 option" where
  "num_field k fs = (case field_value k fs of Some (JNum n) \<Rightarrow> if n < 2 ^ 32 then Some (of_nat n) else None | _ \<Rightarrow> None)"

definition bool_field :: "string \<Rightarrow> json_field list \<Rightarrow> bool option" where
  "bool_field k fs = (case field_value k fs of Some (JBool b) \<Rightarrow> Some b | _ \<Rightarrow> None)"

lemma command_field_name: "k \<in> command_fields \<Longrightarrow> key_name k"
  by (auto simp: command_fields_def key_name_def key_char_def is_dec_digit_def)

lemma parse_u32_dec:
  assumes "32 \<le> bits"
  shows "parse_u32_strict bits (dec n) = (if n < 2 ^ 32 then Some (of_nat n) else None)"
proof (cases "n < 2 ^ bits")
  case True
  then show ?thesis using strtoul_dec[of n bits "[]"] dec_not_empty[of n, symmetric] by (simp add: parse_u32_strict_def)
next
  case False
  have "(2::nat) ^ 32 \<le> 2 ^ bits" using assms by (intro power_increasing) simp_all
  then show ?thesis using False strtoul_dec_big[of bits n] by (simp add: parse_u32_strict_def)
qed

text \<open>The buffer of 15 digits holds every number below \<open>2 ^ 32\<close>; a longer one keeps a prefix that is too big.\<close>

lemma parse_cut_number:
  assumes "32 \<le> bits"
  shows "parse_u32_strict bits (take 15 (dec n)) = (if n < 2 ^ 32 then Some (of_nat n) else None)"
proof (cases "length (dec n) \<le> 15")
  case True
  then show ?thesis using parse_u32_dec[OF assms] by simp
next
  case False
  define j where "j = length (dec n) - 15"
  have l: "length (dec n) = j + 15" and t: "take 15 (dec n) = dec (n div 10 ^ j)"
    using False dec_take[of 15 n] by (simp_all add: j_def)
  have "length (dec 0) = 1" by (simp add: dec.simps[of 0])
  then have "n \<noteq> 0" using l by (intro notI) simp
  moreover have "length (dec n) - 1 = j + 14" using l by simp
  ultimately have "10 ^ (j + 14) \<le> n" using dec_bounds(1)[of n] by simp
  then have "10 ^ 14 * 10 ^ j \<le> n" by (simp only: power_add mult.commute)
  then have big: "10 ^ 14 \<le> n div 10 ^ j" by (subst less_eq_div_iff_mult_less_eq) simp_all
  have "(2::nat) ^ 32 \<le> 10 ^ 14" by simp
  then have "\<not> n div 10 ^ j < 2 ^ 32" "\<not> n < 2 ^ 32" using big div_le_dividend[of n "10 ^ j"] by (meson leD le_trans)+
  then show ?thesis using parse_u32_dec[OF assms, of "n div 10 ^ j"] t by (simp only: if_False)
qed

lemma after_scalar: "list_all json_space zs \<Longrightarrow> c \<in> {CHR '','', CHR ''}''} \<Longrightarrow> \<not> is_dec_digit (hd (zs @ c # ys))"
  by (cases zs) (auto simp: json_space_def is_dec_digit_def)

lemma digits_of_value:
  assumes "list_all json_space zs" "c \<in> {CHR '','', CHR ''}''}"
  shows "takeWhile is_dec_digit (scalar_text v @ zs @ c # ys) = (case v of JNum n \<Rightarrow> dec n | _ \<Rightarrow> [])"
proof (cases v)
  case (JNum n)
  have "takeWhile is_dec_digit (zs @ c # ys) = []" using after_scalar[OF assms, of ys] by (cases "zs @ c # ys") auto
  then show ?thesis using dec_digits[of n] JNum by (simp add: takeWhile_append2 list_all_iff)
qed (simp_all add: quoted_def is_dec_digit_def)

lemma find_u32_flat:
  assumes "object_ok command_fields fs" "k \<in> command_fields" "32 \<le> bits"
  shows "find_json_u32_field bits (object_text fs) k = num_field k fs"
proof -
  obtain c ys zs where v: "c \<in> {CHR '','', CHR ''}''}" "list_all json_space zs"
      "value_after_key json_space (object_text fs) k = map_option (\<lambda>v. scalar_text v @ zs @ c # ys) (field_value k fs)"
    using value_of_field[OF command_field_name[OF assms(2)] assms(2,1) disjI1[OF refl]] by metis
  have cut: "take 15 (dec n) \<noteq> []" for n by simp
  show ?thesis
  proof (cases "field_value k fs")
    case (Some w)
    then show ?thesis
      using v(3) digits_of_value[OF v(2,1), of w ys] parse_cut_number[OF assms(3)] cut
      by (cases w) (simp_all add: find_json_u32_field_def num_field_def Let_def)
  qed (use v(3) in \<open>simp add: find_json_u32_field_def num_field_def\<close>)
qed

lemma find_bool_flat:
  assumes "object_ok command_fields fs" "k \<in> command_fields"
  shows "find_json_bool_field (object_text fs) k = bool_field k fs"
proof -
  obtain c ys zs where v: "value_after_key json_space (object_text fs) k = map_option (\<lambda>v. scalar_text v @ zs @ c # ys) (field_value k fs)"
    using value_of_field[OF command_field_name[OF assms(2)] assms(2,1) disjI1[OF refl]] by metis
  have num: "take 4 (dec n @ rest) \<noteq> ''true'' \<and> take 5 (dec n @ rest) \<noteq> ''false''" for n rest
    using dec_digits[of n] by (cases "dec n") (auto simp: is_dec_digit_def)
  show ?thesis
  proof (cases "field_value k fs")
    case (Some w)
    then show ?thesis using v num[of _ "zs @ c # ys"]
      by (cases w) (simp_all add: find_json_bool_field_def bool_field_def quoted_def del: take_append)
  qed (use v in \<open>simp add: find_json_bool_field_def bool_field_def\<close>)
qed

text \<open>The address in a topic.\<close>

lemma unat_u16_less32: "unat (a :: u16) < 4294967296"
  by (rule less_trans[OF unat_u16_less]) simp

lemma unat_ucast32 [simp]: "unat (ucast (a :: u16) :: u32) = unat a"
  using unat_u16_less32[of a] by (simp add: unsigned_ucast_eq take_bit_nat_def)

lemma of_nat_unat32: "of_nat (unat (a :: u16)) = (ucast a :: u32)"
  using unat_u16_less32[of a] by (simp add: word_unat_eq_iff unat_of_nat_u32)

lemma ucast_ucast_same: "ucast (ucast (a :: u16) :: u32) = a"
  by (rule ucast_up_ucast_id) (simp add: is_up)

lemma bad_ucast: "bad_short_addr (ucast (a :: u16)) \<longleftrightarrow> a = 0 \<or> a = kUnknownDeviceShortAddr"
proof -
  have "ucast a = (ucast b :: u32) \<longleftrightarrow> a = b" for b :: u16 by (metis ucast_ucast_same)
  note e = this[of 0] this[of kUnknownDeviceShortAddr]
  have "unat a \<le> 65535" using unat_u16_less[of a] by linarith
  then have "\<not> ucast a > (0xFFFF :: u32)" by (simp add: word_less_nat_alt not_less)
  then show ?thesis using e by (simp add: bad_short_addr_def)
qed

lemma read_topic:
  assumes "32 \<le> bits" "suffix \<noteq> []"
  shows "extract_device_short_addr_from_topic bits (kDeviceTopicPrefix @ dec (unat a) @ suffix) suffix =
    (if a = 0 \<or> a = kUnknownDeviceShortAddr then Inl kInvalidShortAddr else Inr a)"
proof -
  have a: "unat a < 65536" by simp
  have l: "length (dec (unat a)) \<le> 5" using dec_length[of "unat a" 5] a by simp
  have ne: "0 < length (dec (unat a))" by simp
  have n: "parse_u32_strict bits (dec (unat a)) = Some (ucast a)"
    using parse_u32_dec[OF assms(1), of "unat a"] a by (simp add: of_nat_unat32)
  have bad: "bad_short_addr (ucast a) \<longleftrightarrow> a = 0 \<or> a = kUnknownDeviceShortAddr"
    by (rule bad_ucast)
  have same: "ucast (ucast a :: u32) = a" by (simp add: ucast_ucast_same)
  show ?thesis
    using l ne n bad same by (simp add: extract_device_short_addr_from_topic_def Let_def)
qed


lemma topic_text:
  assumes "build_device_topic a suffix n = Some topic"
  shows "topic = kDeviceTopicPrefix @ dec (unat a) @ ''/'' @ suffix"
  using assms by (auto simp: build_device_topic_def fits_def kTopicRoot_def kDeviceTopicPrefix_def split: if_splits)

lemma field_value_insert:
  assumes "jf_key f = k'" "distinct (map jf_key (fs1 @ f # fs2))"
  shows "field_value k (fs1 @ f # fs2) = (if k = k' then Some (jf_value f) else field_value k (fs1 @ fs2))"
proof -
  have "map_of (map (\<lambda>f. (jf_key f, jf_value f)) fs1) (jf_key f) = None"
    using assms(2) by (simp add: map_of_eq_None_iff image_image)
  then show ?thesis using assms(1) by (auto simp: field_value_def map_add_def split: option.split)
qed

section \<open>Properties\<close>

text \<open>What a flat object asks for, by its fields.\<close>

definition wanted_profile :: "u16 \<Rightarrow> json_field list \<Rightarrow> ApplicationCommandParseStatus + ReportingProfile" where
  "wanted_profile a fs =
     (case (num_field ''endpoint'' fs, num_field ''cluster_id'' fs, num_field ''min_interval_seconds'' fs,
            num_field ''max_interval_seconds'' fs) of
        (Some ep, Some cl, Some lo, Some hi) \<Rightarrow>
          if a = 0 \<or> a = 0xFFFF \<or> ep \<notin> {1..0xFF} \<or> cl \<notin> {1..0xFFFF} \<or> lo > 0xFFFF \<or> hi > 0xFFFF then Inl kInvalidProfileKey
          else if hi = 0 \<or> hi < lo then Inl kInvalidProfileBounds
          else if \<exists>v. num_field ''capability_flags'' fs = Some v \<and> v > 0xFF then Inl kInvalidCapabilityFlags
          else Inr \<lparr>rp_in_use = True,
                    rp_key = \<lparr>pk_short_addr = a, pk_endpoint = ucast ep, pk_cluster_id = ucast cl\<rparr>,
                    rp_min_interval_seconds = ucast lo, rp_max_interval_seconds = ucast hi,
                    rp_reportable_change = (case num_field ''reportable_change'' fs of None \<Rightarrow> 0 | Some v \<Rightarrow> v),
                    rp_capability_flags = (case num_field ''capability_flags'' fs of None \<Rightarrow> 0 | Some v \<Rightarrow> ucast v)\<rparr>
      | _ \<Rightarrow> Inl kInvalidPayload)"

lemma one_le: "(1 :: u32) \<le> x \<longleftrightarrow> x \<noteq> 0"
  by (simp add: word_le_nat_alt Suc_le_eq unat_gt_0)

lemma profile_payload_flat:
  assumes "object_ok command_fields fs" "32 \<le> bits"
  shows "parse_reporting_profile_payload bits (object_text fs) a = wanted_profile a fs"
proof -
  have f: "find_json_u32_field bits (object_text fs) k = num_field k fs" if "k \<in> command_fields" for k
    by (rule find_u32_flat[OF assms(1) that assms(2)])
  have g: "find_json_u32_field bits (object_text fs) ''endpoint'' = num_field ''endpoint'' fs"
    "find_json_u32_field bits (object_text fs) ''cluster_id'' = num_field ''cluster_id'' fs"
    "find_json_u32_field bits (object_text fs) ''min_interval_seconds'' = num_field ''min_interval_seconds'' fs"
    "find_json_u32_field bits (object_text fs) ''max_interval_seconds'' = num_field ''max_interval_seconds'' fs"
    "find_json_u32_field bits (object_text fs) ''reportable_change'' = num_field ''reportable_change'' fs"
    "find_json_u32_field bits (object_text fs) ''capability_flags'' = num_field ''capability_flags'' fs"
    by (rule f; simp add: command_fields_def)+
  show ?thesis
    unfolding parse_reporting_profile_payload_def wanted_profile_def Let_def g kUnknownDeviceShortAddr_def
    by (simp add: profile_default_def one_le not_le split: option.split)
qed


definition sample_fields :: "json_field list" where
  "sample_fields =
     [\<lparr>jf_before = '' '', jf_key = ''min_interval_seconds'', jf_after_key = [], jf_before_value = '' '', jf_value = JNum 5, jf_after = []\<rparr>,
      \<lparr>jf_before = [], jf_key = ''cluster_id'', jf_after_key = [], jf_before_value = [], jf_value = JNum 1026, jf_after = []\<rparr>,
      \<lparr>jf_before = [], jf_key = ''name'', jf_after_key = [], jf_before_value = [], jf_value = JText ''hall'', jf_after = []\<rparr>,
      \<lparr>jf_before = [], jf_key = ''endpoint'', jf_after_key = [], jf_before_value = [], jf_value = JNum 1, jf_after = '' ''\<rparr>,
      \<lparr>jf_before = [], jf_key = ''max_interval_seconds'', jf_after_key = [], jf_before_value = [], jf_value = JNum 300, jf_after = []\<rparr>,
      \<lparr>jf_before = [], jf_key = ''short_addr'', jf_after_key = [], jf_before_value = [], jf_value = JNum 8705, jf_after = []\<rparr>]"

lemma sample_fields_ok: "object_ok command_fields sample_fields"
  by (simp add: object_ok_def sample_fields_def field_ok_def key_name_def key_char_def is_dec_digit_def json_space_def command_fields_def)




end
