(* ===== verification/MqttPayload.thy ===== *)
theory MqttPayload
  imports CText CommandMapper ReadModel
begin

text \<open>
  What the MQTT bridge writes (\<^verbatim>\<open>components/mqtt_bridge/mqtt_serializer.cpp\<close>, \<^verbatim>\<open>mqtt_discovery.cpp\<close>): the JSON of
  the sensors of a device, and the messages that announce its switch and sensors to Home Assistant. Every text is
  made in a buffer of a fixed size; a text that does not fit makes the operation fail.
\<close>

section \<open>Sensor payloads\<close>

definition kMqttPayloadMaxLen :: nat where "kMqttPayloadMaxLen = 384"

record MqttSensorSnapshot =
  ms_has_temperature :: bool
  ms_temperature_centi_c :: u16
  ms_occupancy :: DeviceOccupancyState
  ms_contact_state :: DeviceContactState
  ms_contact_tamper :: bool
  ms_contact_battery_low :: bool
  ms_has_battery_percent :: bool
  ms_battery_percent :: u8
  ms_has_battery_voltage :: bool
  ms_battery_voltage_mv :: u16
  ms_has_lqi :: bool
  ms_lqi :: u8
  ms_has_rssi :: bool
  ms_rssi_dbm :: u8
  ms_stale :: bool
  ms_timestamp_ms :: u32

fun occupancy_to_string :: "DeviceOccupancyState \<Rightarrow> string" where
  "occupancy_to_string kDevNotOccupied = ''not_occupied''"
| "occupancy_to_string kDevOccupied = ''occupied''"
| "occupancy_to_string kDevOccupancyUnknown = ''unknown''"

fun contact_to_string :: "DeviceContactState \<Rightarrow> string" where
  "contact_to_string kDevClosed = ''closed''"
| "contact_to_string kDevOpen = ''open''"
| "contact_to_string kDevContactUnknown = ''unknown''"

definition bool_text :: "bool \<Rightarrow> string" where
  "bool_text b = (if b then ''true'' else ''false'')"

text \<open>A number that may be absent, in a buffer of its own.\<close>

definition optional_text :: "bool \<Rightarrow> nat \<Rightarrow> string \<Rightarrow> string option" where
  "optional_text present capacity s = (if present then fits capacity s else Some ''null'')"

text \<open>Hundredths of a degree as \<^verbatim>\<open>%d.%02d\<close> of the quotient and the remainder, both rounded towards zero.\<close>

definition whole_degrees :: "int \<Rightarrow> int" where
  "whole_degrees t = (if 0 \<le> t then t div 100 else - ((- t) div 100))"

definition hundredths :: "int \<Rightarrow> int" where
  "hundredths t = (if 0 \<le> t then t mod 100 else (- t) mod 100)"

definition two_digits :: "int \<Rightarrow> string" where
  "two_digits n = (if n < 10 then ''0'' else []) @ dec (nat n)"

definition temperature_text :: "u16 \<Rightarrow> string" where
  "temperature_text centi = sdec (whole_degrees (sint centi)) @ ''.'' @ two_digits (hundredths (sint centi))"

definition sensor_json :: "MqttSensorSnapshot \<Rightarrow> string \<Rightarrow> string \<Rightarrow> string \<Rightarrow> string \<Rightarrow> string \<Rightarrow> string" where
  "sensor_json s temperature percent voltage lqi rssi =
     ''{\"temperature_c\":'' @ temperature @
     '',\"occupancy\":\"'' @ occupancy_to_string (ms_occupancy s) @
     ''\",\"contact\":{\"state\":\"'' @ contact_to_string (ms_contact_state s) @
     ''\",\"tamper\":'' @ bool_text (ms_contact_tamper s) @
     '',\"battery_low\":'' @ bool_text (ms_contact_battery_low s) @
     ''},\"battery\":{\"percent\":'' @ percent @ '',\"voltage_mv\":'' @ voltage @
     ''},\"lqi\":'' @ lqi @ '',\"rssi\":'' @ rssi @
     '',\"stale\":'' @ bool_text (ms_stale s) @ '',\"timestamp_ms\":'' @ dec (unat (ms_timestamp_ms s)) @ ''}''"

definition serialize_sensor_payload :: "MqttSensorSnapshot \<Rightarrow> nat \<Rightarrow> string option" where
  "serialize_sensor_payload s out_size =
     (if out_size = 0 then None
      else case optional_text (ms_has_temperature s) 16 (temperature_text (ms_temperature_centi_c s)) of
        None \<Rightarrow> None
      | Some temperature \<Rightarrow>
      case optional_text (ms_has_battery_percent s) 8 (dec (unat (ms_battery_percent s))) of
        None \<Rightarrow> None
      | Some percent \<Rightarrow>
      case optional_text (ms_has_battery_voltage s) 16 (dec (unat (ms_battery_voltage_mv s))) of
        None \<Rightarrow> None
      | Some voltage \<Rightarrow>
      case optional_text (ms_has_lqi s) 8 (dec (unat (ms_lqi s))) of
        None \<Rightarrow> None
      | Some lqi \<Rightarrow>
      case optional_text (ms_has_rssi s) 8 (sdec (sint (ms_rssi_dbm s))) of
        None \<Rightarrow> None
      | Some rssi \<Rightarrow> fits out_size (sensor_json s temperature percent voltage lqi rssi))"

lemma dec_len8: "length (dec (unat (b :: u8))) \<le> 3"
  by (rule dec_length) (rule less_le_trans[OF unsigned_less], simp_all)

lemma dec_len16: "length (dec (unat (b :: u16))) \<le> 5"
  by (rule dec_length) (rule less_le_trans[OF unsigned_less], simp_all)

lemma dec_len32: "length (dec (unat (b :: u32))) \<le> 10"
  by (rule dec_length) (rule less_le_trans[OF unsigned_less], simp_all)

lemma sdec_length:
  assumes "\<bar>i\<bar> < 10 ^ k" "0 < k" shows "length (sdec i) \<le> Suc k"
proof -
  have "nat \<bar>i\<bar> < 10 ^ k" using assms(1) by (simp add: nat_less_iff)
  then show ?thesis using dec_length[OF _ assms(2), of "nat \<bar>i\<bar>"] by (auto simp: sdec_def abs_if split: if_splits)
qed

lemma rssi_len: "length (sdec (sint (b :: u8))) \<le> 4"
  using sint_greater_eq[of b] sint_less[of b] by (intro sdec_length[of _ 3, simplified]) simp

lemma hundredths_range: "0 \<le> hundredths t" "hundredths t < 100"
  by (simp_all add: hundredths_def)

lemma two_digits_len: "0 \<le> n \<Longrightarrow> n < 100 \<Longrightarrow> length (two_digits n) \<le> 2"
  using dec_length[of "nat n" 1] dec_length[of "nat n" 2] by (auto simp: two_digits_def nat_less_iff)

lemma temperature_len: "length (temperature_text c) \<le> 7"
proof -
  have "\<bar>whole_degrees (sint c)\<bar> < 10 ^ 3"
    using sint_greater_eq[of c] sint_less[of c] by (auto simp: whole_degrees_def)
  then have "length (sdec (whole_degrees (sint c))) \<le> 4" using sdec_length[of "whole_degrees (sint c)" 3] by simp
  then show ?thesis using two_digits_len[OF hundredths_range, of "sint c"] by (simp add: temperature_text_def)
qed

lemma sdec_not_empty: "sdec i \<noteq> []"
  by (simp add: sdec_def)

lemma temperature_not_empty: "temperature_text c \<noteq> []"
  by (simp add: temperature_text_def Let_def sdec_def)

lemma optional_fits:
  assumes "s \<noteq> []" "length s < n"
  obtains x where "optional_text p n s = Some x" "x = (if p then s else ''null'')"
  using assms by (simp add: optional_text_def fits_def)

definition sensor_text :: "MqttSensorSnapshot \<Rightarrow> string" where
  "sensor_text s = sensor_json s
     (if ms_has_temperature s then temperature_text (ms_temperature_centi_c s) else ''null'')
     (if ms_has_battery_percent s then dec (unat (ms_battery_percent s)) else ''null'')
     (if ms_has_battery_voltage s then dec (unat (ms_battery_voltage_mv s)) else ''null'')
     (if ms_has_lqi s then dec (unat (ms_lqi s)) else ''null'')
     (if ms_has_rssi s then sdec (sint (ms_rssi_dbm s)) else ''null'')"

lemma bool_len: "length (bool_text b) \<le> 5" by (simp add: bool_text_def)

lemma occupancy_len: "length (occupancy_to_string s) \<le> 12" by (cases s) simp_all

lemma contact_len: "length (contact_to_string s) \<le> 7" by (cases s) simp_all

lemma sensor_len: "length (sensor_text s) \<le> 231"
proof -
  have "length (sensor_json s a b c d e) \<le> 204 + length a + length b + length c + length d + length e" for a b c d e
    using bool_len[of "ms_contact_tamper s"] bool_len[of "ms_contact_battery_low s"] bool_len[of "ms_stale s"]
      occupancy_len[of "ms_occupancy s"] contact_len[of "ms_contact_state s"] dec_len32[of "ms_timestamp_ms s"]
    by (simp add: sensor_json_def)
  note l = this[of "if ms_has_temperature s then temperature_text (ms_temperature_centi_c s) else ''null''"
     "if ms_has_battery_percent s then dec (unat (ms_battery_percent s)) else ''null''"
     "if ms_has_battery_voltage s then dec (unat (ms_battery_voltage_mv s)) else ''null''"
     "if ms_has_lqi s then dec (unat (ms_lqi s)) else ''null''"
     "if ms_has_rssi s then sdec (sint (ms_rssi_dbm s)) else ''null''"]
  then show ?thesis
    using temperature_len[of "ms_temperature_centi_c s"] dec_len8[of "ms_battery_percent s"] dec_len16[of "ms_battery_voltage_mv s"]
      dec_len8[of "ms_lqi s"] rssi_len[of "ms_rssi_dbm s"]
    unfolding sensor_text_def by (auto split: if_splits)
qed

lemma serialize_total:
  assumes "231 < n" shows "serialize_sensor_payload s n = Some (sensor_text s)"
proof -
  have t: "optional_text (ms_has_temperature s) 16 (temperature_text (ms_temperature_centi_c s)) =
      Some (if ms_has_temperature s then temperature_text (ms_temperature_centi_c s) else ''null'')"
    using temperature_len[of "ms_temperature_centi_c s"] by (simp add: optional_text_def fits_def temperature_not_empty)
  have p: "optional_text q 8 (dec (unat (b :: u8))) = Some (if q then dec (unat b) else ''null'')" for q b
    using dec_len8[of b] by (simp add: optional_text_def fits_def)
  have v: "optional_text q 16 (dec (unat (b :: u16))) = Some (if q then dec (unat b) else ''null'')" for q b
    using dec_len16[of b] by (simp add: optional_text_def fits_def)
  have r: "optional_text q 8 (sdec (sint (b :: u8))) = Some (if q then sdec (sint b) else ''null'')" for q b
    using rssi_len[of b] by (simp add: optional_text_def fits_def sdec_not_empty)
  have "fits n (sensor_text s) = Some (sensor_text s)"
    using sensor_len[of s] assms by (auto simp: fits_def sensor_text_def sensor_json_def)
  then show ?thesis
    using assms unfolding serialize_sensor_payload_def t p v r option.case sensor_text_def by simp
qed

text \<open>The text of a temperature tells its whole degrees and its hundredths, and nothing else.\<close>

lemma dec_inject [simp]: "dec m = dec n \<longleftrightarrow> m = n"
proof
  assume "dec m = dec n"
  then have "read_digits 10 0 (dec m @ []) = read_digits 10 0 (dec n @ [])" by simp
  then show "m = n" using read_dec_stop[of "[]" m] read_dec_stop[of "[]" n] by simp
qed simp

lemma dec_no_sign: "c \<in> set (dec n) \<Longrightarrow> c \<noteq> CHR ''-'' \<and> c \<noteq> CHR ''.''"
  using dec_digits[of n] by (auto simp: list_all_iff is_dec_digit_def)

lemma sdec_inject: "sdec i = sdec j \<longleftrightarrow> i = j"
proof -
  have "dec m \<noteq> CHR ''-'' # xs" for m xs using dec_no_sign[of "CHR ''-''" m] by auto
  note n = this this[symmetric]
  show ?thesis using n by (auto simp: sdec_def nat_eq_iff2 eq_nat_nat_iff)
qed

lemma read_two_digits: "read_digits 10 0 (two_digits n) = (nat n, [])"
  using read_dec_stop[of "[]" "nat n"] by (simp add: two_digits_def digit_in_def)

lemma two_digits_inject: "0 \<le> m \<Longrightarrow> 0 \<le> n \<Longrightarrow> two_digits m = two_digits n \<longleftrightarrow> m = n"
  by (metis read_two_digits prod.inject eq_nat_nat_iff)

lemma temperature_text_inject:
  "temperature_text c = temperature_text d \<longleftrightarrow>
     whole_degrees (sint c) = whole_degrees (sint d) \<and> hundredths (sint c) = hundredths (sint d)"
proof -
  have p: "CHR ''.'' \<notin> set (sdec i)" for i using dec_no_sign by (auto simp: sdec_def)
  have "takeWhile (\<lambda>x. x \<noteq> CHR ''.'') (sdec i @ ''.'' @ xs) = sdec i" for i xs
    by (subst takeWhile_append2) (use p[of i] in auto)
  then have "sdec i @ ''.'' @ xs = sdec j @ ''.'' @ ys \<longleftrightarrow> i = j \<and> xs = ys" for i j xs ys
    by (metis append_same_eq same_append_eq sdec_inject)
  then show ?thesis
    using two_digits_inject[OF hundredths_range(1) hundredths_range(1), of "sint c" "sint d"]
    by (simp add: temperature_text_def)
qed

lemma degrees_split:
  "0 \<le> t \<Longrightarrow> t = 100 * whole_degrees t + hundredths t" "\<not> 0 \<le> t \<Longrightarrow> t = 100 * whole_degrees t - hundredths t"
  "0 \<le> t \<Longrightarrow> 0 \<le> whole_degrees t" "\<not> 0 \<le> t \<Longrightarrow> whole_degrees t \<le> 0"
proof -
  have "t = - (100 * (- t div 100)) - - t mod 100" using mult_div_mod_eq[of 100 "- t"] by linarith
  then show "\<not> 0 \<le> t \<Longrightarrow> t = 100 * whole_degrees t - hundredths t" by (simp add: whole_degrees_def hundredths_def)
qed (simp_all add: whole_degrees_def hundredths_def)

lemma degrees_alike:
  "whole_degrees s = whole_degrees t \<and> hundredths s = hundredths t \<longleftrightarrow> s = t \<or> s = - t \<and> \<bar>t\<bar> < 100"
proof
  assume "whole_degrees s = whole_degrees t \<and> hundredths s = hundredths t"
  then obtain w f where f: "whole_degrees s = w" "whole_degrees t = w" "hundredths s = f" "hundredths t = f" by metis
  then have r: "0 \<le> f" "f < 100" using hundredths_range by metis+
  note d = degrees_split[of s, unfolded f] degrees_split[of t, unfolded f]
  show "s = t \<or> s = - t \<and> \<bar>t\<bar> < 100"
  proof (cases "0 \<le> s \<longleftrightarrow> 0 \<le> t")
    case True
    then show ?thesis using d by (cases "0 \<le> s") auto
  next
    case False
    then have "w = 0" using d by (cases "0 \<le> s") auto
    then show ?thesis using False d r by (cases "0 \<le> s") auto
  qed
next
  assume "s = t \<or> s = - t \<and> \<bar>t\<bar> < 100"
  then show "whole_degrees s = whole_degrees t \<and> hundredths s = hundredths t"
    by (auto simp: whole_degrees_def hundredths_def)
qed

text \<open>
  C40: two temperatures have the same payload exactly when they are equal, or opposite and less than a degree from
  zero: the text of a temperature between -0.99 and -0.01 degrees has lost its sign, and no other temperatures are
  confused.
\<close>
theorem small_temperatures_lose_their_sign:
  "serialize_sensor_payload (s\<lparr>ms_has_temperature := True, ms_temperature_centi_c := c\<rparr>) kMqttPayloadMaxLen =
   serialize_sensor_payload (s\<lparr>ms_has_temperature := True, ms_temperature_centi_c := d\<rparr>) kMqttPayloadMaxLen \<longleftrightarrow>
     c = d \<or> sint c = - sint d \<and> \<bar>sint d\<bar> < 100"
proof -
  have "231 < kMqttPayloadMaxLen" by (simp add: kMqttPayloadMaxLen_def)
  moreover have same: "sint c = sint d \<longleftrightarrow> c = d" by (metis signed_word_eqI)
  ultimately show ?thesis
    using temperature_text_inject[of c d] degrees_alike[of "sint c" "sint d"] same
    by (simp add: serialize_total sensor_text_def sensor_json_def)
qed

section \<open>Announcements to Home Assistant\<close>

definition kTopicMaxLen :: nat where "kTopicMaxLen = 64"
definition kDiscoveryTopicMaxLen :: nat where "kDiscoveryTopicMaxLen = 128"
definition kDiscoveryPayloadMaxLen :: nat where "kDiscoveryPayloadMaxLen = 768"
definition kMaxDiscoveryMessagesPerDevice :: nat where "kMaxDiscoveryMessagesPerDevice = 7"

record HomeAssistantDiscoveryMessage =
  hd_topic :: string
  hd_payload :: string
  hd_retain :: bool

definition build_discovery_topic :: "string \<Rightarrow> string \<Rightarrow> nat \<Rightarrow> string option" where
  "build_discovery_topic component object_id out_size =
     fits out_size (''homeassistant/'' @ component @ ''/zigbee_gateway/'' @ object_id @ ''/config'')"

definition build_device_name :: "u16 \<Rightarrow> nat \<Rightarrow> string option" where
  "build_device_name short_addr out_size = fits out_size (''ZGW '' @ dec (unat short_addr))"

definition build_object_id :: "u16 \<Rightarrow> string \<Rightarrow> nat \<Rightarrow> string option" where
  "build_object_id short_addr suffix out_size = fits out_size (''zgw_'' @ dec (unat short_addr) @ ''_'' @ suffix)"

definition build_device_descriptor :: "u16 \<Rightarrow> nat \<Rightarrow> string option" where
  "build_device_descriptor short_addr out_size =
     (case build_device_name short_addr 32 of
        None \<Rightarrow> None
      | Some device_name \<Rightarrow>
          fits out_size (''\"device\":{\"identifiers\":[\"zgw_'' @ dec (unat short_addr) @ ''\"],\"name\":\"'' @ device_name @
            ''\",\"manufacturer\":\"Alex.K.\",\"model\":\"Zigbee Gateway Device\"}''))"

text \<open>The four topics of a device that the announcements name.\<close>

record common_topics =
  ct_availability :: string
  ct_state :: string
  ct_telemetry :: string
  ct_power_set :: string

definition build_common_topics :: "u16 \<Rightarrow> common_topics option" where
  "build_common_topics short_addr =
     (case (topic_device_availability short_addr kTopicMaxLen, topic_device_state short_addr kTopicMaxLen,
            topic_device_telemetry short_addr kTopicMaxLen, topic_device_power_set short_addr kTopicMaxLen) of
        (Some a, Some s, Some t, Some p) \<Rightarrow>
          Some \<lparr>ct_availability = a, ct_state = s, ct_telemetry = t, ct_power_set = p\<rparr>
      | _ \<Rightarrow> None)"

text \<open>
  What every builder makes first: the object id, the topic, the descriptor, the name and the topics of the device;
  then the payload from them.
\<close>

definition build_discovery ::
  "string \<Rightarrow> string \<Rightarrow> (string \<Rightarrow> string \<Rightarrow> common_topics \<Rightarrow> string \<Rightarrow> string) \<Rightarrow> u16 \<Rightarrow>
     HomeAssistantDiscoveryMessage option" where
  "build_discovery component suffix payload short_addr =
     (case build_object_id short_addr suffix 48 of
        None \<Rightarrow> None
      | Some object_id \<Rightarrow>
      case build_discovery_topic component object_id kDiscoveryTopicMaxLen of
        None \<Rightarrow> None
      | Some topic \<Rightarrow>
      case build_device_descriptor short_addr 192 of
        None \<Rightarrow> None
      | Some descriptor \<Rightarrow>
      case build_device_name short_addr 32 of
        None \<Rightarrow> None
      | Some device_name \<Rightarrow>
      case build_common_topics short_addr of
        None \<Rightarrow> None
      | Some topics \<Rightarrow>
          map_option (\<lambda>p. \<lparr>hd_topic = topic, hd_payload = p, hd_retain = True\<rparr>)
            (fits kDiscoveryPayloadMaxLen (payload device_name object_id topics descriptor)))"

text \<open>A quotation mark inside a JSON text.\<close>

definition escaped :: "string \<Rightarrow> string" where
  "escaped s = concat (map (\<lambda>c. if c = CHR 0x22 then [CHR 0x5C, CHR 0x22] else [c]) s)"

definition power_payload :: "bool \<Rightarrow> string" where
  "power_payload on = ''{\"power_on\":'' @ bool_text on @ ''}''"

definition availability_json :: "common_topics \<Rightarrow> string \<Rightarrow> string" where
  "availability_json topics descriptor =
     ''\"availability_topic\":\"'' @ ct_availability topics @
     ''\",\"payload_available\":\"online\",\"payload_not_available\":\"offline\",'' @ descriptor @ ''}''"

definition switch_json :: "string \<Rightarrow> string \<Rightarrow> common_topics \<Rightarrow> string \<Rightarrow> string" where
  "switch_json device_name object_id topics descriptor =
       ''{\"name\":\"'' @ device_name @ '' Power\",\"unique_id\":\"'' @ object_id @
       ''\",\"command_topic\":\"'' @ ct_power_set topics @
       ''\",\"payload_on\":\"'' @ escaped (power_payload True) @
       ''\",\"payload_off\":\"'' @ escaped (power_payload False) @
       ''\",\"state_topic\":\"'' @ ct_state topics @
       ''\",\"value_template\":\"{{ '' @ [CHR 0x27] @ ''ON'' @ [CHR 0x27] @ '' if value_json.power_on else '' @
       [CHR 0x27] @ ''OFF'' @ [CHR 0x27] @ '' }}\",\"state_on\":\"ON\",\"state_off\":\"OFF\",'' @
       availability_json topics descriptor"

definition build_switch_discovery :: "MqttBridgeDeviceSnapshot \<Rightarrow> HomeAssistantDiscoveryMessage option" where
  "build_switch_discovery device =
     build_discovery ''switch'' ''power'' switch_json (mb_short_addr device)"

definition temperature_json :: "string \<Rightarrow> string \<Rightarrow> common_topics \<Rightarrow> string \<Rightarrow> string" where
  "temperature_json device_name object_id topics descriptor =
       ''{\"name\":\"'' @ device_name @ '' Temperature\",\"unique_id\":\"'' @ object_id @
       ''\",\"state_topic\":\"'' @ ct_telemetry topics @
       ''\",\"value_template\":\"{{ value_json.temperature_c }}\",\"unit_of_measurement\":\"'' @ [CHR 0xC2, CHR 0xB0] @
       ''C\",\"device_class\":\"temperature\",\"state_class\":\"measurement\",'' @
       availability_json topics descriptor"

definition build_temperature_discovery :: "MqttBridgeDeviceSnapshot \<Rightarrow> HomeAssistantDiscoveryMessage option" where
  "build_temperature_discovery device =
     (if \<not> mb_has_temperature device then None
      else build_discovery ''sensor'' ''temperature'' temperature_json (mb_short_addr device))"

definition occupancy_json :: "string \<Rightarrow> string \<Rightarrow> common_topics \<Rightarrow> string \<Rightarrow> string" where
  "occupancy_json device_name object_id topics descriptor =
       ''{\"name\":\"'' @ device_name @ '' Occupancy\",\"unique_id\":\"'' @ object_id @
       ''\",\"state_topic\":\"'' @ ct_telemetry topics @
       ''\",\"value_template\":\"{{ value_json.occupancy }}\",\"payload_on\":\"occupied\",\"payload_off\":\"not_occupied\",'' @
       ''\"device_class\":\"occupancy\",'' @ availability_json topics descriptor"

definition build_occupancy_discovery :: "MqttBridgeDeviceSnapshot \<Rightarrow> HomeAssistantDiscoveryMessage option" where
  "build_occupancy_discovery device =
     (if mb_occupancy_state device = kDevOccupancyUnknown then None
      else build_discovery ''binary_sensor'' ''occupancy'' occupancy_json (mb_short_addr device))"

definition contact_json :: "string \<Rightarrow> string \<Rightarrow> common_topics \<Rightarrow> string \<Rightarrow> string" where
  "contact_json device_name object_id topics descriptor =
       ''{\"name\":\"'' @ device_name @ '' Contact\",\"unique_id\":\"'' @ object_id @
       ''\",\"state_topic\":\"'' @ ct_telemetry topics @
       ''\",\"value_template\":\"{{ value_json.contact.state }}\",\"payload_on\":\"open\",\"payload_off\":\"closed\",'' @
       ''\"device_class\":\"door\",'' @ availability_json topics descriptor"

definition build_contact_discovery :: "MqttBridgeDeviceSnapshot \<Rightarrow> HomeAssistantDiscoveryMessage option" where
  "build_contact_discovery device =
     (if mb_contact_state device = kDevContactUnknown then None
      else build_discovery ''binary_sensor'' ''contact'' contact_json (mb_short_addr device))"

definition battery_json :: "string \<Rightarrow> string \<Rightarrow> common_topics \<Rightarrow> string \<Rightarrow> string" where
  "battery_json device_name object_id topics descriptor =
       ''{\"name\":\"'' @ device_name @ '' Battery\",\"unique_id\":\"'' @ object_id @
       ''\",\"state_topic\":\"'' @ ct_telemetry topics @
       ''\",\"value_template\":\"{{ value_json.battery.percent }}\",\"unit_of_measurement\":\"%\",'' @
       ''\"device_class\":\"battery\",\"state_class\":\"measurement\",'' @
       availability_json topics descriptor"

definition build_battery_discovery :: "MqttBridgeDeviceSnapshot \<Rightarrow> HomeAssistantDiscoveryMessage option" where
  "build_battery_discovery device =
     (if \<not> mb_has_battery device then None
      else build_discovery ''sensor'' ''battery'' battery_json (mb_short_addr device))"

fun append_built :: "nat \<Rightarrow> 'm option list \<Rightarrow> 'm list \<Rightarrow> 'm list" where
  "append_built capacity [] out = out"
| "append_built capacity (m # ms) out =
     append_built capacity ms
       (if length out < capacity then (case m of None \<Rightarrow> out | Some x \<Rightarrow> out @ [x]) else out)"

definition build_homeassistant_discovery_messages ::
  "MqttBridgeDeviceSnapshot \<Rightarrow> nat \<Rightarrow> HomeAssistantDiscoveryMessage list" where
  "build_homeassistant_discovery_messages device capacity =
     (if capacity = 0 \<or> mb_short_addr device = kUnknownShortAddr \<or> \<not> mb_online device then []
      else append_built capacity [build_switch_discovery device, build_temperature_discovery device,
             build_occupancy_discovery device, build_contact_discovery device, build_battery_discovery device] [])"

definition discovery_schema_changed :: "MqttBridgeDeviceSnapshot \<Rightarrow> MqttBridgeDeviceSnapshot \<Rightarrow> bool" where
  "discovery_schema_changed previous current \<longleftrightarrow>
     mb_has_temperature previous \<noteq> mb_has_temperature current \<or>
     (mb_occupancy_state previous = kDevOccupancyUnknown) \<noteq> (mb_occupancy_state current = kDevOccupancyUnknown) \<or>
     (mb_contact_state previous = kDevContactUnknown) \<noteq> (mb_contact_state current = kDevContactUnknown) \<or>
     mb_has_battery previous \<noteq> mb_has_battery current"

section \<open>Every announcement fits\<close>

definition device_topic :: "u16 \<Rightarrow> string \<Rightarrow> string" where
  "device_topic a suffix = kDeviceTopicPrefix @ dec (unat a) @ ''/'' @ suffix"

lemma topic_total:
  assumes "length suffix \<le> 12" shows "build_device_topic a suffix kTopicMaxLen = Some (device_topic a suffix)"
  using assms dec_len16[of a]
  by (simp add: build_device_topic_def fits_def kTopicRoot_def kDeviceTopicPrefix_def device_topic_def kTopicMaxLen_def)

definition topics_of :: "u16 \<Rightarrow> common_topics" where
  "topics_of a = \<lparr>ct_availability = device_topic a ''availability'', ct_state = device_topic a ''state'',
     ct_telemetry = device_topic a ''telemetry'', ct_power_set = device_topic a ''power/set''\<rparr>"

definition name_of :: "u16 \<Rightarrow> string" where "name_of a = ''ZGW '' @ dec (unat a)"

definition object_of :: "u16 \<Rightarrow> string \<Rightarrow> string" where "object_of a suffix = ''zgw_'' @ dec (unat a) @ ''_'' @ suffix"

definition descriptor_of :: "u16 \<Rightarrow> string" where
  "descriptor_of a = ''\"device\":{\"identifiers\":[\"zgw_'' @ dec (unat a) @ ''\"],\"name\":\"'' @ name_of a @
     ''\",\"manufacturer\":\"Alex.K.\",\"model\":\"Zigbee Gateway Device\"}''"

definition discovery_topic :: "string \<Rightarrow> string \<Rightarrow> string" where
  "discovery_topic component object_id = ''homeassistant/'' @ component @ ''/zigbee_gateway/'' @ object_id @ ''/config''"

lemma topics_total: "build_common_topics a = Some (topics_of a)"
  by (simp add: build_common_topics_def topic_device_availability_def topic_device_state_def topic_device_telemetry_def
      topic_device_power_set_def topic_total topics_of_def)

lemma topics_len:
  "length (ct_availability (topics_of a)) \<le> 41" "length (ct_state (topics_of a)) \<le> 41"
  "length (ct_telemetry (topics_of a)) \<le> 41" "length (ct_power_set (topics_of a)) \<le> 41"
  using dec_len16[of a] by (simp_all add: topics_of_def device_topic_def kDeviceTopicPrefix_def)

lemma descriptor_len: "length (descriptor_of a) \<le> 130"
  using dec_len16[of a] by (simp add: descriptor_of_def name_of_def)

lemma discovery_total:
  assumes "length component \<le> 13" "length suffix \<le> 11"
    and "payload (name_of a) (object_of a suffix) (topics_of a) (descriptor_of a) = p" "p \<noteq> []" "length p < 768"
  shows "build_discovery component suffix payload a =
    Some \<lparr>hd_topic = discovery_topic component (object_of a suffix), hd_payload = p, hd_retain = True\<rparr>"
proof -
  have o: "build_object_id a suffix 48 = Some (object_of a suffix)"
    using dec_len16[of a] assms(2) by (simp add: build_object_id_def fits_def object_of_def)
  have t: "build_discovery_topic component (object_of a suffix) kDiscoveryTopicMaxLen = Some (discovery_topic component (object_of a suffix))"
    using dec_len16[of a] assms(1,2)
    by (simp add: build_discovery_topic_def fits_def object_of_def kDiscoveryTopicMaxLen_def discovery_topic_def)
  have n: "build_device_name a 32 = Some (name_of a)"
    using dec_len16[of a] by (simp add: build_device_name_def fits_def name_of_def)
  have d: "build_device_descriptor a 192 = Some (descriptor_of a)"
    using n descriptor_len[of a] by (simp add: build_device_descriptor_def fits_def descriptor_of_def)
  have "fits kDiscoveryPayloadMaxLen p = Some p" using assms(4,5) by (simp add: fits_def kDiscoveryPayloadMaxLen_def)
  then show ?thesis by (simp add: build_discovery_def o t n d topics_total assms(3))
qed

lemma part_lens:
  "length (name_of a) \<le> 9" "length (object_of a suffix) \<le> 10 + length suffix"
  "length (availability_json (topics_of a) (descriptor_of a)) \<le> 260"
  using dec_len16[of a] topics_len(1)[of a] descriptor_len[of a] by (simp_all add: name_of_def object_of_def availability_json_def)

lemma escaped_payload: "length (escaped (power_payload on)) \<le> 20"
  by (cases on) (simp_all add: escaped_def power_payload_def bool_text_def)

lemma json_starts:
  "switch_json n i t e \<noteq> []" "temperature_json n i t e \<noteq> []" "occupancy_json n i t e \<noteq> []" "contact_json n i t e \<noteq> []"
  "battery_json n i t e \<noteq> []"
  by (simp_all add: switch_json_def temperature_json_def occupancy_json_def contact_json_def battery_json_def)

lemma json_lens:
  "length (switch_json (name_of a) (object_of a ''power'') (topics_of a) (descriptor_of a)) < 768"
  "length (temperature_json (name_of a) (object_of a ''temperature'') (topics_of a) (descriptor_of a)) < 768"
  "length (occupancy_json (name_of a) (object_of a ''occupancy'') (topics_of a) (descriptor_of a)) < 768"
  "length (contact_json (name_of a) (object_of a ''contact'') (topics_of a) (descriptor_of a)) < 768"
  "length (battery_json (name_of a) (object_of a ''battery'') (topics_of a) (descriptor_of a)) < 768"
  using part_lens[of a] part_lens(2)[of a "''power''"] part_lens(2)[of a "''temperature''"] part_lens(2)[of a "''occupancy''"]
    part_lens(2)[of a "''contact''"] part_lens(2)[of a "''battery''"] topics_len[of a] escaped_payload[of True] escaped_payload[of False]
  by (simp_all add: switch_json_def temperature_json_def occupancy_json_def contact_json_def battery_json_def)

definition sensor_topic :: "MqttBridgeDeviceSnapshot \<Rightarrow> string \<Rightarrow> string \<Rightarrow> string" where
  "sensor_topic d component suffix = discovery_topic component (object_of (mb_short_addr d) suffix)"

definition announced_with ::
  "(string \<Rightarrow> string \<Rightarrow> common_topics \<Rightarrow> string \<Rightarrow> string) \<Rightarrow> string \<Rightarrow> string \<Rightarrow> MqttBridgeDeviceSnapshot \<Rightarrow>
     HomeAssistantDiscoveryMessage" where
  "announced_with json component suffix d =
     \<lparr>hd_topic = sensor_topic d component suffix,
      hd_payload = json (name_of (mb_short_addr d)) (object_of (mb_short_addr d) suffix) (topics_of (mb_short_addr d))
        (descriptor_of (mb_short_addr d)),
      hd_retain = True\<rparr>"

lemma all_announced:
  "build_switch_discovery d = Some (announced_with switch_json ''switch'' ''power'' d)"
  "build_temperature_discovery d =
     (if mb_has_temperature d then Some (announced_with temperature_json ''sensor'' ''temperature'' d) else None)"
  "build_occupancy_discovery d =
     (if mb_occupancy_state d \<noteq> kDevOccupancyUnknown then Some (announced_with occupancy_json ''binary_sensor'' ''occupancy'' d) else None)"
  "build_contact_discovery d =
     (if mb_contact_state d \<noteq> kDevContactUnknown then Some (announced_with contact_json ''binary_sensor'' ''contact'' d) else None)"
  "build_battery_discovery d =
     (if mb_has_battery d then Some (announced_with battery_json ''sensor'' ''battery'' d) else None)"
  using discovery_total[where payload = switch_json and suffix = "''power''", OF _ _ refl json_starts(1) json_lens(1), of "''switch''" "mb_short_addr d"]
    discovery_total[where payload = temperature_json and suffix = "''temperature''", OF _ _ refl json_starts(2) json_lens(2), of "''sensor''" "mb_short_addr d"]
    discovery_total[where payload = occupancy_json and suffix = "''occupancy''", OF _ _ refl json_starts(3) json_lens(3), of "''binary_sensor''" "mb_short_addr d"]
    discovery_total[where payload = contact_json and suffix = "''contact''", OF _ _ refl json_starts(4) json_lens(4), of "''binary_sensor''" "mb_short_addr d"]
    discovery_total[where payload = battery_json and suffix = "''battery''", OF _ _ refl json_starts(5) json_lens(5), of "''sensor''" "mb_short_addr d"]
  by (simp_all add: build_switch_discovery_def build_temperature_discovery_def build_occupancy_discovery_def
      build_contact_discovery_def build_battery_discovery_def announced_with_def sensor_topic_def)

lemma append_built_all:
  "length out < n \<Longrightarrow> append_built n (Some x # ms) out = append_built n ms (out @ [x])"
  "length out < n \<Longrightarrow> append_built n ((if p then Some x else None) # ms) out = append_built n ms (out @ (if p then [x] else []))"
  "append_built n [] out = out"
  by simp_all

definition announcements :: "MqttBridgeDeviceSnapshot \<Rightarrow> HomeAssistantDiscoveryMessage list" where
  "announcements d =
     announced_with switch_json ''switch'' ''power'' d #
     (if mb_has_temperature d then [announced_with temperature_json ''sensor'' ''temperature'' d] else []) @
     (if mb_occupancy_state d \<noteq> kDevOccupancyUnknown then [announced_with occupancy_json ''binary_sensor'' ''occupancy'' d] else []) @
     (if mb_contact_state d \<noteq> kDevContactUnknown then [announced_with contact_json ''binary_sensor'' ''contact'' d] else []) @
     (if mb_has_battery d then [announced_with battery_json ''sensor'' ''battery'' d] else [])"

lemma discovery_announces:
  assumes "mb_short_addr d \<noteq> kUnknownShortAddr" "mb_online d"
  shows "build_homeassistant_discovery_messages d kMaxDiscoveryMessagesPerDevice = announcements d"
  using assms by (simp add: build_homeassistant_discovery_messages_def kMaxDiscoveryMessagesPerDevice_def append_built_all
      all_announced announcements_def le_Suc_eq numeral_eq_Suc del: append_built.simps)

lemma topics_apart:
  "sensor_topic d ''sensor'' ''temperature'' \<noteq> sensor_topic d ''sensor'' ''battery''"
  "sensor_topic d ''binary_sensor'' ''occupancy'' \<noteq> sensor_topic d ''binary_sensor'' ''contact''"
  "sensor_topic d ''sensor'' s \<noteq> sensor_topic d ''binary_sensor'' t"
  "sensor_topic d ''switch'' s \<noteq> sensor_topic d ''binary_sensor'' t" "sensor_topic d ''switch'' s \<noteq> sensor_topic d ''sensor'' t"
  by (simp_all add: sensor_topic_def discovery_topic_def object_of_def)

lemma announced_topics:
  "sensor_topic d ''sensor'' ''temperature'' \<in> hd_topic ` set (announcements d) \<longleftrightarrow> mb_has_temperature d"
  "sensor_topic d ''binary_sensor'' ''occupancy'' \<in> hd_topic ` set (announcements d) \<longleftrightarrow> mb_occupancy_state d \<noteq> kDevOccupancyUnknown"
  "sensor_topic d ''binary_sensor'' ''contact'' \<in> hd_topic ` set (announcements d) \<longleftrightarrow> mb_contact_state d \<noteq> kDevContactUnknown"
  "sensor_topic d ''sensor'' ''battery'' \<in> hd_topic ` set (announcements d) \<longleftrightarrow> mb_has_battery d"
  by (cases "mb_has_temperature d"; cases "mb_occupancy_state d = kDevOccupancyUnknown";
      cases "mb_contact_state d = kDevContactUnknown"; cases "mb_has_battery d";
      simp add: announcements_def announced_with_def topics_apart topics_apart[symmetric])+

text \<open>
  The bridge repeats the announcements of a device exactly when they have changed: for two snapshots of one
  device that is online, the schema counts as changed if and only if the messages for Home Assistant differ.
\<close>
theorem schema_change_is_a_change_of_announcements:
  assumes "mb_short_addr p = mb_short_addr c" "mb_short_addr c \<noteq> kUnknownShortAddr" "mb_online p" "mb_online c"
  shows "discovery_schema_changed p c \<longleftrightarrow>
    build_homeassistant_discovery_messages p kMaxDiscoveryMessagesPerDevice \<noteq>
    build_homeassistant_discovery_messages c kMaxDiscoveryMessagesPerDevice"
proof -
  have p: "build_homeassistant_discovery_messages p kMaxDiscoveryMessagesPerDevice = announcements p"
    and c: "build_homeassistant_discovery_messages c kMaxDiscoveryMessagesPerDevice = announcements c"
    using assms by (simp_all add: discovery_announces)
  have same: "announced_with j k s p = announced_with j k s c" "sensor_topic p k s = sensor_topic c k s" for j k s
    using assms(1) by (simp_all add: announced_with_def sensor_topic_def)
  have "announcements p = announcements c" if "\<not> discovery_schema_changed p c"
    using that by (auto simp: discovery_schema_changed_def announcements_def same)
  moreover have "\<not> discovery_schema_changed p c" if "announcements p = announcements c"
    using announced_topics[of p] announced_topics[of c] that by (simp add: discovery_schema_changed_def same)
  ultimately show ?thesis unfolding p c by metis
qed

definition sample_device :: MqttBridgeDeviceSnapshot where
  "sample_device = mqtt_device_default\<lparr>mb_short_addr := 8705, mb_online := True\<rparr>"

lemma schema_change_is_a_change_of_announcements_witness:
  "build_homeassistant_discovery_messages sample_device kMaxDiscoveryMessagesPerDevice \<noteq>
   build_homeassistant_discovery_messages (sample_device\<lparr>mb_has_battery := True\<rparr>) kMaxDiscoveryMessagesPerDevice"
  using schema_change_is_a_change_of_announcements[of sample_device "sample_device\<lparr>mb_has_battery := True\<rparr>"]
  by (simp add: sample_device_def mqtt_device_default_def kUnknownShortAddr_def discovery_schema_changed_def)

text \<open>A command is read as what it says.\<close>

lemma power_payload_read:
  assumes "32 \<le> bits" "a \<noteq> 0" "a \<noteq> kUnknownDeviceShortAddr"
  shows "parse_mqtt_device_power_request bits (device_topic a ''power/set'') (power_payload on) =
    Inr (power_request_default\<lparr>dq_short_addr := a, dq_desired_power_on := on\<rparr>)"
proof -
  have "extract_device_short_addr_from_topic bits (device_topic a ''power/set'') ''/power/set'' = Inr a"
    using read_topic[OF assms(1), of "''/power/set''" a] assms(2,3) by (simp add: device_topic_def)
  moreover have "find_json_bool_field (power_payload on) ''power_on'' = Some on"
    by (cases on) (simp_all add: find_json_bool_field_def value_after_key_def power_payload_def quoted_def bool_text_def
        after_char_def json_space_def)
  ultimately show ?thesis by (simp add: parse_mqtt_device_power_request_def)
qed

text \<open>
  C39: what the gateway tells Home Assistant to send is what it understands: the first announcement of a device that
  is online names a command topic and two commands, and a message with either command on that topic is read as the
  request to switch this device on or off.
\<close>
theorem announced_commands_are_understood:
  assumes "32 \<le> bits" "mb_short_addr d \<noteq> 0" "mb_short_addr d \<noteq> kUnknownShortAddr" "mb_online d"
  shows "\<exists>before topic after.
    hd_payload (hd (build_homeassistant_discovery_messages d kMaxDiscoveryMessagesPerDevice)) =
      before @ ''\",\"command_topic\":\"'' @ topic @ ''\",\"payload_on\":\"'' @ escaped (power_payload True) @
      ''\",\"payload_off\":\"'' @ escaped (power_payload False) @ ''\",'' @ after \<and>
    (\<forall>on. parse_mqtt_device_power_request bits topic (power_payload on) =
       Inr (power_request_default\<lparr>dq_short_addr := mb_short_addr d, dq_desired_power_on := on\<rparr>))"
proof -
  let ?a = "mb_short_addr d"
  let ?before = "''{\"name\":\"'' @ name_of ?a @ '' Power\",\"unique_id\":\"'' @ object_of ?a ''power''"
  let ?after = "''\"state_topic\":\"'' @ ct_state (topics_of ?a) @
       ''\",\"value_template\":\"{{ '' @ [CHR 0x27] @ ''ON'' @ [CHR 0x27] @ '' if value_json.power_on else '' @
       [CHR 0x27] @ ''OFF'' @ [CHR 0x27] @ '' }}\",\"state_on\":\"ON\",\"state_off\":\"OFF\",'' @
       availability_json (topics_of ?a) (descriptor_of ?a)"
  have p: "hd_payload (hd (build_homeassistant_discovery_messages d kMaxDiscoveryMessagesPerDevice)) =
      switch_json (name_of ?a) (object_of ?a ''power'') (topics_of ?a) (descriptor_of ?a)"
    using discovery_announces[OF assms(3,4)] by (simp add: announcements_def announced_with_def)
  have j: "switch_json (name_of ?a) (object_of ?a ''power'') (topics_of ?a) (descriptor_of ?a) =
      ?before @ ''\",\"command_topic\":\"'' @ device_topic ?a ''power/set'' @ ''\",\"payload_on\":\"'' @ escaped (power_payload True) @
      ''\",\"payload_off\":\"'' @ escaped (power_payload False) @ ''\",'' @ ?after"
    by (simp add: switch_json_def topics_of_def)
  have c: "\<forall>on. parse_mqtt_device_power_request bits (device_topic ?a ''power/set'') (power_payload on) =
      Inr (power_request_default\<lparr>dq_short_addr := ?a, dq_desired_power_on := on\<rparr>)"
    using power_payload_read[OF assms(1,2)] assms(3) by (simp add: kUnknownShortAddr_def kUnknownDeviceShortAddr_def)
  show ?thesis by (intro exI conjI, rule trans[OF p j], rule c)
qed

lemma announced_commands_are_understood_witness:
  "\<exists>before topic after.
    hd_payload (hd (build_homeassistant_discovery_messages sample_device kMaxDiscoveryMessagesPerDevice)) =
      before @ ''\",\"command_topic\":\"'' @ topic @ ''\",\"payload_on\":\"'' @ escaped (power_payload True) @
      ''\",\"payload_off\":\"'' @ escaped (power_payload False) @ ''\",'' @ after \<and>
    (\<forall>on. parse_mqtt_device_power_request 32 topic (power_payload on) =
       Inr (power_request_default\<lparr>dq_short_addr := 8705, dq_desired_power_on := on\<rparr>))"
proof -
  have "mb_short_addr sample_device = 8705" "mb_online sample_device" by (simp_all add: sample_device_def)
  then show ?thesis
    using announced_commands_are_understood[of 32 sample_device] unfolding kUnknownShortAddr_def by simp
qed

end
