(* ===== verification/MqttSync.thy ===== *)
theory MqttSync
  imports MqttPayload
begin

text \<open>
  The retained messages of the MQTT bridge (\<^verbatim>\<open>components/mqtt_bridge/mqtt_device_sync.cpp\<close> and the parts of
  \<^verbatim>\<open>mqtt_bridge.cpp\<close> that need neither the transport nor the runtime): which messages a new snapshot of the
  devices asks for, the queue they wait in, and the power states that commands set ahead of the devices. An array of
  the code with the count of its filled entries is the list of these entries.
\<close>

section \<open>The bridge\<close>

definition kMaxMqttPublicationsPerSync :: nat where "kMaxMqttPublicationsPerSync = kServiceMaxDevices * 3"

definition kMqttPowerOverrideWindowMs :: u32 where "kMqttPowerOverrideWindowMs = 15000"

record MqttPublishedMessage =
  pm_topic :: string
  pm_payload :: string
  pm_retain :: bool

record PendingPowerOverride =
  po_short_addr :: u16
  po_power_on :: bool
  po_active :: bool
  po_expires_at_ms :: u32

definition power_override_default :: PendingPowerOverride where
  "power_override_default = \<lparr>po_short_addr = kUnknownShortAddr, po_power_on = False, po_active = False, po_expires_at_ms = 0\<rparr>"

record MqttBridge =
  br_started :: bool
  br_next_correlation_id :: u32
  br_runtime_status_cache :: MqttStatusSnapshot
  br_cached_devices :: "MqttBridgeDeviceSnapshot list"
  br_cache_initialized :: bool
  br_pending :: "MqttPublishedMessage list"
  br_attached :: bool
  br_published_message_count :: u32
  br_transport_enabled :: bool
  br_command_topics_subscribed :: bool
  br_discovery_republish_requested :: bool
  br_power_overrides :: "PendingPowerOverride list"
  br_task_running :: bool

definition mqtt_bridge_default :: MqttBridge where
  "mqtt_bridge_default =
     \<lparr>br_started = False, br_next_correlation_id = 1, br_runtime_status_cache = mqtt_status_default,
      br_cached_devices = [], br_cache_initialized = False, br_pending = [], br_attached = False,
      br_published_message_count = 0, br_transport_enabled = False, br_command_topics_subscribed = False,
      br_discovery_republish_requested = True,
      br_power_overrides = replicate kServiceMaxDevices power_override_default, br_task_running = False\<rparr>"

section \<open>Messages of a device\<close>

definition is_active_device :: "MqttBridgeDeviceSnapshot \<Rightarrow> bool" where
  "is_active_device d \<longleftrightarrow> mb_short_addr d \<noteq> kUnknownShortAddr \<and> mb_online d"

definition find_device_by_short :: "MqttBridgeDeviceSnapshot list \<Rightarrow> u16 \<Rightarrow> MqttBridgeDeviceSnapshot option" where
  "find_device_by_short devices a = find (\<lambda>d. mb_short_addr d = a) devices"

definition telemetry_fields_equal :: "MqttBridgeDeviceSnapshot \<Rightarrow> MqttBridgeDeviceSnapshot \<Rightarrow> bool" where
  "telemetry_fields_equal a b \<longleftrightarrow>
     mb_has_temperature a = mb_has_temperature b \<and> mb_temperature_centi_c a = mb_temperature_centi_c b \<and>
     mb_occupancy_state a = mb_occupancy_state b \<and> mb_contact_state a = mb_contact_state b \<and>
     mb_contact_tamper a = mb_contact_tamper b \<and> mb_contact_battery_low a = mb_contact_battery_low b \<and>
     mb_has_battery a = mb_has_battery b \<and> mb_battery_percent a = mb_battery_percent b \<and>
     mb_has_battery_voltage a = mb_has_battery_voltage b \<and> mb_battery_voltage_mv a = mb_battery_voltage_mv b \<and>
     mb_has_lqi a = mb_has_lqi b \<and> mb_lqi a = mb_lqi b \<and> mb_has_rssi a = mb_has_rssi b \<and>
     mb_rssi_dbm a = mb_rssi_dbm b \<and> mb_stale a = mb_stale b \<and> mb_last_report_at_ms a = mb_last_report_at_ms b"

definition message_of :: "string option \<Rightarrow> string option \<Rightarrow> MqttPublishedMessage option" where
  "message_of topic payload =
     (case (topic, payload) of
        (Some t, Some p) \<Rightarrow> Some \<lparr>pm_topic = t, pm_payload = p, pm_retain = True\<rparr>
      | _ \<Rightarrow> None)"

definition build_availability_publication :: "u16 \<Rightarrow> bool \<Rightarrow> MqttPublishedMessage option" where
  "build_availability_publication short_addr online =
     message_of (topic_device_availability short_addr kTopicMaxLen)
       (fits kMqttPayloadMaxLen (if online then ''online'' else ''offline''))"

definition build_state_publication :: "MqttBridgeDeviceSnapshot \<Rightarrow> MqttPublishedMessage option" where
  "build_state_publication device =
     message_of (topic_device_state (mb_short_addr device) kTopicMaxLen)
       (fits kMqttPayloadMaxLen (power_payload (mb_power_on device)))"

definition sensor_snapshot_of :: "MqttBridgeDeviceSnapshot \<Rightarrow> MqttSensorSnapshot" where
  "sensor_snapshot_of d =
     \<lparr>ms_has_temperature = mb_has_temperature d, ms_temperature_centi_c = mb_temperature_centi_c d,
      ms_occupancy = mb_occupancy_state d, ms_contact_state = mb_contact_state d,
      ms_contact_tamper = mb_contact_tamper d, ms_contact_battery_low = mb_contact_battery_low d,
      ms_has_battery_percent = mb_has_battery d, ms_battery_percent = mb_battery_percent d,
      ms_has_battery_voltage = mb_has_battery_voltage d, ms_battery_voltage_mv = mb_battery_voltage_mv d,
      ms_has_lqi = mb_has_lqi d, ms_lqi = mb_lqi d, ms_has_rssi = mb_has_rssi d, ms_rssi_dbm = mb_rssi_dbm d,
      ms_stale = mb_stale d, ms_timestamp_ms = mb_last_report_at_ms d\<rparr>"

definition build_telemetry_publication :: "MqttBridgeDeviceSnapshot \<Rightarrow> MqttPublishedMessage option" where
  "build_telemetry_publication device =
     message_of (topic_device_telemetry (mb_short_addr device) kTopicMaxLen)
       (serialize_sensor_payload (sensor_snapshot_of device) kMqttPayloadMaxLen)"

section \<open>A new snapshot\<close>

definition enqueue_publication :: "MqttPublishedMessage \<Rightarrow> MqttPublishedMessage list \<Rightarrow> MqttPublishedMessage list" where
  "enqueue_publication m pending = (if length pending \<ge> kMaxMqttPublicationsPerSync then pending else pending @ [m])"

definition enqueue_if :: "bool \<Rightarrow> MqttPublishedMessage option \<Rightarrow> MqttPublishedMessage list \<Rightarrow> MqttPublishedMessage list" where
  "enqueue_if wanted built pending =
     (if wanted then (case built of None \<Rightarrow> pending | Some m \<Rightarrow> enqueue_publication m pending) else pending)"

definition previous_device :: "MqttBridge \<Rightarrow> u16 \<Rightarrow> MqttBridgeDeviceSnapshot option" where
  "previous_device b a = (if br_cache_initialized b then find_device_by_short (br_cached_devices b) a else None)"

fun sync_devices ::
  "MqttBridge \<Rightarrow> MqttBridgeDeviceSnapshot list \<Rightarrow> MqttBridgeDeviceSnapshot list \<Rightarrow> MqttPublishedMessage list \<Rightarrow>
     MqttBridgeDeviceSnapshot list \<times> MqttPublishedMessage list" where
  "sync_devices b [] scratch pending = (scratch, pending)"
| "sync_devices b (current # ds) scratch pending =
     (if \<not> length scratch < kServiceMaxDevices then (scratch, pending)
      else if \<not> is_active_device current then sync_devices b ds scratch pending
      else
        let previous = previous_device b (mb_short_addr current);
            (publish_availability, publish_state, publish_telemetry) =
              (case previous of
                 None \<Rightarrow> (True, True, True)
               | Some p \<Rightarrow> (False, mb_power_on p \<noteq> mb_power_on current, \<not> telemetry_fields_equal p current));
            p1 = enqueue_if publish_availability (build_availability_publication (mb_short_addr current) True) pending;
            p2 = enqueue_if publish_state (build_state_publication current) p1;
            p3 = enqueue_if publish_telemetry (build_telemetry_publication current) p2
        in sync_devices b ds (scratch @ [current]) p3)"

fun sync_gone ::
  "MqttBridgeDeviceSnapshot list \<Rightarrow> MqttBridgeDeviceSnapshot list \<Rightarrow> MqttPublishedMessage list \<Rightarrow> MqttPublishedMessage list" where
  "sync_gone scratch [] pending = pending"
| "sync_gone scratch (c # cs) pending =
     sync_gone scratch cs
       (if find_device_by_short scratch (mb_short_addr c) \<noteq> None then pending
        else enqueue_if True (build_availability_publication (mb_short_addr c) False) pending)"

definition sync_snapshot :: "MqttBridgeDeviceSnapshot BridgeSnapshot \<Rightarrow> MqttBridge \<Rightarrow> nat \<times> MqttBridge" where
  "sync_snapshot snapshot b =
     (if \<not> br_started b then (0, b)
      else
        case sync_devices b (bs_list snapshot) [] [] of
          (scratch, p1) \<Rightarrow>
            let p2 = (if br_cache_initialized b then sync_gone scratch (br_cached_devices b) p1 else p1)
            in (length p2, b\<lparr>br_pending := p2, br_cached_devices := scratch, br_cache_initialized := True\<rparr>))"

definition drain_publications :: "nat \<Rightarrow> MqttBridge \<Rightarrow> MqttPublishedMessage list \<times> MqttBridge" where
  "drain_publications capacity b =
     (if capacity = 0 \<or> br_pending b = [] then ([], b)
      else let to_copy = min capacity (length (br_pending b))
           in (take to_copy (br_pending b), b\<lparr>br_pending := drop to_copy (br_pending b)\<rparr>))"

section \<open>Power states set by commands\<close>

fun sync_cached_state :: "u16 \<Rightarrow> bool \<Rightarrow> MqttBridgeDeviceSnapshot list \<Rightarrow>
    MqttBridgeDeviceSnapshot list \<times> MqttBridgeDeviceSnapshot option" where
  "sync_cached_state a on [] = ([], None)"
| "sync_cached_state a on (d # ds) =
     (if mb_short_addr d \<noteq> a then (case sync_cached_state a on ds of (es, r) \<Rightarrow> (d # es, r))
      else if mb_power_on d = on then (d # ds, None)
      else (let d1 = d\<lparr>mb_power_on := on\<rparr> in (d1 # ds, Some d1)))"

definition sync_device_state :: "u16 \<Rightarrow> bool \<Rightarrow> MqttBridge \<Rightarrow> MqttBridge" where
  "sync_device_state short_addr on b =
     (if \<not> br_cache_initialized b then b
      else (case sync_cached_state short_addr on (br_cached_devices b) of
              (devices, changed) \<Rightarrow>
                b\<lparr>br_cached_devices := devices,
                  br_pending := (case changed of None \<Rightarrow> br_pending b
                                 | Some d \<Rightarrow> enqueue_if True (build_state_publication d) (br_pending b))\<rparr>))"

definition set_power_override :: "u32 \<Rightarrow> u16 \<Rightarrow> bool \<Rightarrow> MqttBridge \<Rightarrow> MqttBridge" where
  "set_power_override now_ms short_addr on b =
     (let expires_at_ms = now_ms + kMqttPowerOverrideWindowMs;
          os = br_power_overrides b
      in case find_index (\<lambda>e. po_active e \<and> po_short_addr e = short_addr) os of
           Some i \<Rightarrow> b\<lparr>br_power_overrides := os[i := (os ! i)\<lparr>po_power_on := on, po_expires_at_ms := expires_at_ms\<rparr>]\<rparr>
         | None \<Rightarrow>
             (case find_index (\<lambda>e. \<not> po_active e) os of
                None \<Rightarrow> b
              | Some i \<Rightarrow> b\<lparr>br_power_overrides := os[i := \<lparr>po_short_addr = short_addr, po_power_on = on, po_active = True,
                                                           po_expires_at_ms = expires_at_ms\<rparr>]\<rparr>))"

text \<open>
  The overrides are applied to the snapshot; one that the device has reached, or that has expired, is dropped.
\<close>

fun override_device :: "PendingPowerOverride \<Rightarrow> MqttBridgeDeviceSnapshot list \<Rightarrow> PendingPowerOverride \<times> MqttBridgeDeviceSnapshot list" where
  "override_device e [] = (e, [])"
| "override_device e (d # ds) =
     (if mb_short_addr d \<noteq> po_short_addr e \<or> \<not> mb_online d
      then (case override_device e ds of (e1, ds1) \<Rightarrow> (e1, d # ds1))
      else if mb_power_on d = po_power_on e then (power_override_default, d # ds)
      else (e, d\<lparr>mb_power_on := po_power_on e\<rparr> # ds))"

fun apply_overrides ::
  "u32 \<Rightarrow> PendingPowerOverride list \<Rightarrow> MqttBridgeDeviceSnapshot list \<Rightarrow>
     PendingPowerOverride list \<times> MqttBridgeDeviceSnapshot list" where
  "apply_overrides now_ms [] ds = ([], ds)"
| "apply_overrides now_ms (e # es) ds =
     (if \<not> po_active e then (case apply_overrides now_ms es ds of (es1, ds1) \<Rightarrow> (e # es1, ds1))
      else if now_ms \<ge> po_expires_at_ms e
      then (case apply_overrides now_ms es ds of (es1, ds1) \<Rightarrow> (power_override_default # es1, ds1))
      else (case override_device e ds of
              (e1, ds1) \<Rightarrow> (case apply_overrides now_ms es ds1 of (es1, ds2) \<Rightarrow> (e1 # es1, ds2))))"

definition apply_power_overrides ::
  "u32 \<Rightarrow> MqttBridgeDeviceSnapshot BridgeSnapshot \<Rightarrow> MqttBridge \<Rightarrow> MqttBridgeDeviceSnapshot BridgeSnapshot \<times> MqttBridge" where
  "apply_power_overrides now_ms snapshot b =
     (let n = unat (bs_device_count snapshot)
      in case apply_overrides now_ms (br_power_overrides b) (take n (bs_devices snapshot)) of
           (os, ds) \<Rightarrow> (snapshot\<lparr>bs_devices := ds @ drop n (bs_devices snapshot)\<rparr>, b\<lparr>br_power_overrides := os\<rparr>))"

section \<open>Status and identifiers\<close>

definition set_runtime_status :: "bool \<Rightarrow> bool \<Rightarrow> MqttConnectionError \<Rightarrow> MqttBridge \<Rightarrow> MqttBridge" where
  "set_runtime_status enabled connected err b =
     b\<lparr>br_runtime_status_cache := (br_runtime_status_cache b)\<lparr>mq_enabled := enabled, mq_connected := connected,
         mq_last_connect_error := err\<rparr>\<rparr>"

definition reset_sync_cache :: "MqttBridge \<Rightarrow> MqttBridge" where
  "reset_sync_cache b =
     b\<lparr>br_cached_devices := [], br_cache_initialized := False, br_pending := [], br_command_topics_subscribed := False,
       br_discovery_republish_requested := True,
       br_power_overrides := replicate (length (br_power_overrides b)) power_override_default\<rparr>"

definition next_command_correlation_id :: "MqttBridge \<Rightarrow> u32 \<times> MqttBridge" where
  "next_command_correlation_id b =
     (let n = br_next_correlation_id b
      in if n \<noteq> kNoCorrelationId then (n, b\<lparr>br_next_correlation_id := n + 1\<rparr>)
         else (n + 1, b\<lparr>br_next_correlation_id := n + 1 + 1\<rparr>))"

section \<open>The messages that a snapshot asks for\<close>

definition availability_message :: "u16 \<Rightarrow> bool \<Rightarrow> MqttPublishedMessage" where
  "availability_message a online = \<lparr>pm_topic = device_topic a ''availability'',
     pm_payload = (if online then ''online'' else ''offline''), pm_retain = True\<rparr>"

definition state_message :: "MqttBridgeDeviceSnapshot \<Rightarrow> MqttPublishedMessage" where
  "state_message d = \<lparr>pm_topic = device_topic (mb_short_addr d) ''state'', pm_payload = power_payload (mb_power_on d), pm_retain = True\<rparr>"

definition telemetry_message :: "MqttBridgeDeviceSnapshot \<Rightarrow> MqttPublishedMessage" where
  "telemetry_message d = \<lparr>pm_topic = device_topic (mb_short_addr d) ''telemetry'', pm_payload = sensor_text (sensor_snapshot_of d),
     pm_retain = True\<rparr>"

lemma messages_built [simp]:
  "build_availability_publication a online = Some (availability_message a online)"
  "build_state_publication d = Some (state_message d)"
  "build_telemetry_publication d = Some (telemetry_message d)"
proof -
  have "fits kMqttPayloadMaxLen (power_payload on) = Some (power_payload on)" for on
    by (cases on) (simp_all add: power_payload_def bool_text_def fits_def kMqttPayloadMaxLen_def)
  then show "build_state_publication d = Some (state_message d)"
    by (simp add: build_state_publication_def message_of_def topic_device_state_def topic_total state_message_def)
  show "build_telemetry_publication d = Some (telemetry_message d)"
    by (simp add: build_telemetry_publication_def message_of_def topic_device_telemetry_def topic_total telemetry_message_def
        serialize_total kMqttPayloadMaxLen_def)
qed (simp add: build_availability_publication_def message_of_def topic_device_availability_def topic_total availability_message_def
      fits_def kMqttPayloadMaxLen_def)

definition device_messages :: "MqttBridge \<Rightarrow> MqttBridgeDeviceSnapshot \<Rightarrow> MqttPublishedMessage list" where
  "device_messages b d =
     (case previous_device b (mb_short_addr d) of
        None \<Rightarrow> [availability_message (mb_short_addr d) True, state_message d, telemetry_message d]
      | Some p \<Rightarrow> (if mb_power_on p \<noteq> mb_power_on d then [state_message d] else []) @
                  (if telemetry_fields_equal p d then [] else [telemetry_message d]))"

definition gone_devices :: "MqttBridgeDeviceSnapshot list \<Rightarrow> MqttBridgeDeviceSnapshot list \<Rightarrow> MqttBridgeDeviceSnapshot list" where
  "gone_devices scratch cached = filter (\<lambda>c. mb_short_addr c \<notin> mb_short_addr ` set scratch) cached"

text \<open>A full queue takes no more.\<close>

definition queue_of :: "MqttPublishedMessage list \<Rightarrow> MqttPublishedMessage list" where
  "queue_of ms = take kMaxMqttPublicationsPerSync ms"

lemma enqueue_queue: "enqueue_publication m (queue_of xs) = queue_of (xs @ [m])"
  by (cases "kMaxMqttPublicationsPerSync \<le> length xs") (simp_all add: enqueue_publication_def queue_of_def)

lemma enqueue_if_queue [simp]: "enqueue_if w (Some m) (queue_of xs) = queue_of (xs @ (if w then [m] else []))"
  by (simp add: enqueue_if_def enqueue_queue)

lemma queue_of_small: "length ms \<le> kMaxMqttPublicationsPerSync \<Longrightarrow> queue_of ms = ms"
  by (simp add: queue_of_def)

lemma sync_devices_all:
  assumes "length scratch + length ds \<le> kServiceMaxDevices"
  shows "sync_devices b ds scratch (queue_of p) =
    (scratch @ filter is_active_device ds,
     queue_of (p @ concat (map (device_messages b) (filter is_active_device ds))))"
  using assms
proof (induction ds arbitrary: scratch p)
  case (Cons d ds)
  show ?case
  proof (cases "is_active_device d")
    case True
    then have "sync_devices b (d # ds) scratch (queue_of p) = sync_devices b ds (scratch @ [d]) (queue_of (p @ device_messages b d))"
      using Cons.prems by (cases "previous_device b (mb_short_addr d)") (simp_all add: device_messages_def)
    then show ?thesis using True Cons.prems Cons.IH[of "scratch @ [d]" "p @ device_messages b d"] by simp
  qed (use Cons in simp)
qed simp

lemma find_none_iff: "find_device_by_short ds a = None \<longleftrightarrow> a \<notin> mb_short_addr ` set ds"
  by (auto simp: find_device_by_short_def find_None_iff)

lemma sync_gone_all:
  "sync_gone scratch cs (queue_of p) =
     queue_of (p @ map (\<lambda>c. availability_message (mb_short_addr c) False) (gone_devices scratch cs))"
  by (induction cs arbitrary: p) (simp_all add: find_none_iff gone_devices_def)

definition old_devices :: "MqttBridge \<Rightarrow> MqttBridgeDeviceSnapshot list" where
  "old_devices b = (if br_cache_initialized b then br_cached_devices b else [])"

definition active_devices :: "MqttBridgeDeviceSnapshot BridgeSnapshot \<Rightarrow> MqttBridgeDeviceSnapshot list" where
  "active_devices s = filter is_active_device (bs_list s)"

definition wanted_messages :: "MqttBridgeDeviceSnapshot BridgeSnapshot \<Rightarrow> MqttBridge \<Rightarrow> MqttPublishedMessage list" where
  "wanted_messages s b = concat (map (device_messages b) (active_devices s)) @
     map (\<lambda>c. availability_message (mb_short_addr c) False) (gone_devices (active_devices s) (old_devices b))"

lemma sync_snapshot_all:
  assumes "br_started b" "length (bs_list s) \<le> kServiceMaxDevices"
  shows "sync_snapshot s b =
    (length (queue_of (wanted_messages s b)),
     b\<lparr>br_pending := queue_of (wanted_messages s b), br_cached_devices := active_devices s,
       br_cache_initialized := True\<rparr>)"
proof -
  have l: "length [] + length (bs_list s) \<le> kServiceMaxDevices" using assms(2) by simp
  then show ?thesis
    using assms(1) sync_devices_all[OF l, of b "[]"]
      sync_gone_all[of "active_devices s" "br_cached_devices b" "concat (map (device_messages b) (active_devices s))"]
    by (simp add: sync_snapshot_def wanted_messages_def active_devices_def old_devices_def gone_devices_def Let_def queue_of_def)
qed

section \<open>What the broker holds\<close>

text \<open>The retained messages: a topic holds the payload that was published last.\<close>

definition deliver :: "MqttPublishedMessage list \<Rightarrow> (string \<rightharpoonup> string) \<Rightarrow> string \<rightharpoonup> string" where
  "deliver ms r = foldl (\<lambda>r m. r(pm_topic m \<mapsto> pm_payload m)) r ms"

lemma deliver_simps [simp]:
  "deliver [] r = r" "deliver (m # ms) r = deliver ms (r(pm_topic m \<mapsto> pm_payload m))"
  "deliver (ms @ ns) r = deliver ns (deliver ms r)"
  by (simp_all add: deliver_def)

lemma deliver_agreed:
  "\<forall>m \<in> set ms. pm_topic m = t \<longrightarrow> pm_payload m = p \<Longrightarrow>
     deliver ms r t = (if \<exists>m \<in> set ms. pm_topic m = t then Some p else r t)"
  by (induction ms arbitrary: r) auto

definition mirrors :: "(string \<rightharpoonup> string) \<Rightarrow> MqttBridgeDeviceSnapshot \<Rightarrow> bool" where
  "mirrors r d \<longleftrightarrow>
     r (device_topic (mb_short_addr d) ''availability'') = Some ''online'' \<and>
     r (device_topic (mb_short_addr d) ''state'') = Some (power_payload (mb_power_on d)) \<and>
     r (device_topic (mb_short_addr d) ''telemetry'') = Some (sensor_text (sensor_snapshot_of d))"

lemma device_topic_inject:
  "device_topic a s = device_topic b t \<longleftrightarrow> a = b \<and> s = t"
proof -
  have "takeWhile (\<lambda>c. c \<noteq> CHR ''/'') (dec n @ ''/'' @ xs) = dec n" for n xs
    using dec_digits[of n] by (subst takeWhile_append2) (auto simp: list_all_iff is_dec_digit_def)
  then have "dec m @ ''/'' @ xs = dec n @ ''/'' @ ys \<longleftrightarrow> m = n \<and> xs = ys" for m n xs ys
    by (metis dec_inject same_append_eq)
  then show ?thesis by (simp add: device_topic_def word_unat_eq_iff)
qed


text \<open>After a synchronisation whose messages fit the queue and are delivered, the broker mirrors the snapshot.\<close>

lemma message_topics [simp]:
  "pm_topic (availability_message a on) = device_topic a ''availability''"
  "pm_topic (state_message d) = device_topic (mb_short_addr d) ''state''"
  "pm_topic (telemetry_message d) = device_topic (mb_short_addr d) ''telemetry''"
  by (simp_all add: availability_message_def state_message_def telemetry_message_def)

lemma message_payloads [simp]:
  "pm_payload (availability_message a on) = (if on then ''online'' else ''offline'')"
  "pm_payload (state_message d) = power_payload (mb_power_on d)"
  "pm_payload (telemetry_message d) = sensor_text (sensor_snapshot_of d)"
  by (simp_all add: availability_message_def state_message_def telemetry_message_def)

lemma device_message_cases:
  assumes "m \<in> set (device_messages b d)"
  obtains "m = availability_message (mb_short_addr d) True" | "m = state_message d" | "m = telemetry_message d"
  using assms by (auto simp: device_messages_def split: option.splits if_splits)

lemma wanted_cases:
  assumes "m \<in> set (wanted_messages s b)"
  obtains d where "d \<in> set (active_devices s)" "m \<in> set (device_messages b d)"
  | c where "c \<in> set (old_devices b)" "mb_short_addr c \<notin> mb_short_addr ` set (active_devices s)"
      "m = availability_message (mb_short_addr c) False"
  using assms by (auto simp: wanted_messages_def gone_devices_def)

lemma same_device:
  "distinct (map mb_short_addr ds) \<Longrightarrow> d \<in> set ds \<Longrightarrow> e \<in> set ds \<Longrightarrow> mb_short_addr d = mb_short_addr e \<Longrightarrow> d = e"
  by (metis distinct_map inj_onD)

lemma message_owner:
  assumes "distinct (map mb_short_addr (active_devices s))" "d \<in> set (active_devices s)" "m \<in> set (wanted_messages s b)"
    and "pm_topic m = device_topic (mb_short_addr d) suffix"
  shows "m \<in> {availability_message (mb_short_addr d) True, state_message d, telemetry_message d}"
  using assms(3)
proof (cases rule: wanted_cases)
  case (1 e)
  from 1(2) have "mb_short_addr d = mb_short_addr e"
    by (cases rule: device_message_cases) (use assms(4) in \<open>simp_all add: device_topic_inject\<close>)
  then have "d = e" using same_device[OF assms(1,2) 1(1)] by simp
  then show ?thesis using 1(2) by (auto elim: device_message_cases)
next
  case (2 c)
  then have "mb_short_addr c = mb_short_addr d" using assms(4) by (simp add: device_topic_inject)
  then show ?thesis using 2(2) assms(2) by simp
qed

lemma wanted_agree:
  assumes "distinct (map mb_short_addr (active_devices s))" "d \<in> set (active_devices s)" "m \<in> set (wanted_messages s b)"
  shows "pm_topic m = device_topic (mb_short_addr d) ''availability'' \<Longrightarrow> pm_payload m = ''online''"
    "pm_topic m = device_topic (mb_short_addr d) ''state'' \<Longrightarrow> pm_payload m = power_payload (mb_power_on d)"
    "pm_topic m = device_topic (mb_short_addr d) ''telemetry'' \<Longrightarrow> pm_payload m = sensor_text (sensor_snapshot_of d)"
  using message_owner[OF assms] by (auto simp: device_topic_inject)

lemma telemetry_same: "telemetry_fields_equal p d \<Longrightarrow> sensor_text (sensor_snapshot_of p) = sensor_text (sensor_snapshot_of d)"
  by (simp add: telemetry_fields_equal_def sensor_snapshot_of_def)

lemma previous_mirrored:
  assumes "previous_device b a = Some p" "\<forall>c \<in> set (old_devices b). mirrors r c"
  shows "mirrors r p" "mb_short_addr p = a"
  using assms by (auto simp: previous_device_def old_devices_def find_device_by_short_def find_Some_iff split: if_splits)

lemma delivered_mirrors:
  assumes "distinct (map mb_short_addr (active_devices s))" "\<forall>c \<in> set (old_devices b). mirrors r c" "d \<in> set (active_devices s)"
  shows "mirrors (deliver (wanted_messages s b) r) d"
proof -
  let ?ms = "wanted_messages s b"
  have sub: "set (device_messages b d) \<subseteq> set ?ms" using assms(3) by (auto simp: wanted_messages_def)
  note agree = wanted_agree[OF assms(1,3)]
  have a: "deliver ?ms r (device_topic (mb_short_addr d) ''availability'') =
      (if \<exists>m \<in> set ?ms. pm_topic m = device_topic (mb_short_addr d) ''availability'' then Some ''online''
       else r (device_topic (mb_short_addr d) ''availability''))"
    by (rule deliver_agreed) (use agree(1) in blast)
  have s: "deliver ?ms r (device_topic (mb_short_addr d) ''state'') =
      (if \<exists>m \<in> set ?ms. pm_topic m = device_topic (mb_short_addr d) ''state'' then Some (power_payload (mb_power_on d))
       else r (device_topic (mb_short_addr d) ''state''))"
    by (rule deliver_agreed) (use agree(2) in blast)
  have t: "deliver ?ms r (device_topic (mb_short_addr d) ''telemetry'') =
      (if \<exists>m \<in> set ?ms. pm_topic m = device_topic (mb_short_addr d) ''telemetry'' then Some (sensor_text (sensor_snapshot_of d))
       else r (device_topic (mb_short_addr d) ''telemetry''))"
    by (rule deliver_agreed) (use agree(3) in blast)
  show ?thesis
  proof (cases "previous_device b (mb_short_addr d)")
    case None
    then have "{availability_message (mb_short_addr d) True, state_message d, telemetry_message d} \<subseteq> set ?ms"
      using sub by (simp add: device_messages_def)
    then show ?thesis unfolding mirrors_def a s t by (auto simp: bex_reg_left)
  next
    case (Some p)
    note p = previous_mirrored[OF Some assms(2)]
    have "state_message d \<in> set ?ms" if "mb_power_on p \<noteq> mb_power_on d"
      using sub Some that by (simp add: device_messages_def)
    then have s1: "deliver ?ms r (device_topic (mb_short_addr d) ''state'') = Some (power_payload (mb_power_on d))"
      unfolding s using p by (cases "mb_power_on p = mb_power_on d") (auto simp: mirrors_def)
    have "telemetry_message d \<in> set ?ms" if "\<not> telemetry_fields_equal p d"
      using sub Some that by (simp add: device_messages_def)
    then have t1: "deliver ?ms r (device_topic (mb_short_addr d) ''telemetry'') = Some (sensor_text (sensor_snapshot_of d))"
      unfolding t using p telemetry_same[of p d] by (cases "telemetry_fields_equal p d") (auto simp: mirrors_def)
    show ?thesis using s1 t1 p unfolding mirrors_def a by (simp add: mirrors_def)
  qed
qed

lemma gone_offline:
  assumes "distinct (map mb_short_addr (active_devices s))" "c \<in> set (old_devices b)"
    "mb_short_addr c \<notin> mb_short_addr ` set (active_devices s)"
  shows "deliver (wanted_messages s b) r (device_topic (mb_short_addr c) ''availability'') = Some ''offline''"
proof -
  have m: "availability_message (mb_short_addr c) False \<in> set (wanted_messages s b)"
    using assms(2,3) by (auto simp: wanted_messages_def gone_devices_def)
  have "pm_payload m = ''offline''" if "m \<in> set (wanted_messages s b)" "pm_topic m = device_topic (mb_short_addr c) ''availability''" for m
    using that(1)
  proof (cases rule: wanted_cases)
    case (1 d)
    from 1(2) have "mb_short_addr d = mb_short_addr c"
      by (cases rule: device_message_cases) (use that(2) in \<open>simp_all add: device_topic_inject\<close>)
    then show ?thesis using 1(1) assms(3) by (metis imageI)
  qed simp
  then have "deliver (wanted_messages s b) r (device_topic (mb_short_addr c) ''availability'') =
    (if \<exists>m \<in> set (wanted_messages s b). pm_topic m = device_topic (mb_short_addr c) ''availability'' then Some ''offline''
     else r (device_topic (mb_short_addr c) ''availability''))"
    by (intro deliver_agreed) blast
  then show ?thesis using m by (auto simp: bexI)
qed

lemma wanted_length: "length (wanted_messages s b) \<le> 3 * length (active_devices s) + length (old_devices b)"
proof -
  have "length (device_messages b d) \<le> 3" for d by (simp add: device_messages_def split: option.split)
  then have "length (concat (map (device_messages b) ds)) \<le> 3 * length ds" for ds
    by (induction ds) (simp_all add: add_le_mono)
  then show ?thesis by (simp add: wanted_messages_def gone_devices_def add_le_mono)
qed

text \<open>A power state set by a command.\<close>

lemma sync_cached_cases:
  "sync_cached_state a on ds = (es, c) \<Longrightarrow>
     c = None \<and> es = ds \<and> (\<forall>d \<in> set ds. mb_short_addr d \<noteq> a) \<or>
     (\<exists>xs d ys. ds = xs @ d # ys \<and> mb_short_addr d = a \<and> (\<forall>x \<in> set xs. mb_short_addr x \<noteq> a) \<and>
        es = xs @ d\<lparr>mb_power_on := on\<rparr> # ys \<and> c = (if mb_power_on d = on then None else Some (d\<lparr>mb_power_on := on\<rparr>)))"
proof (induction ds arbitrary: es)
  case (Cons d ds)
  show ?case
  proof (cases "mb_short_addr d = a")
    case True
    have "mb_power_on d = on \<Longrightarrow> d\<lparr>mb_power_on := on\<rparr> = d" by simp
    then show ?thesis using True Cons.prems by (intro disjI2 exI[of _ "[]"] exI[of _ d] exI[of _ ds]) (auto simp: Let_def split: if_splits)
  next
    case False
    then obtain fs where f: "sync_cached_state a on ds = (fs, c)" "es = d # fs" using Cons.prems by (auto split: prod.splits)
    from Cons.IH[OF f(1)] show ?thesis
    proof (elim disjE exE conjE)
      fix xs e ys
      assume h: "ds = xs @ e # ys" "mb_short_addr e = a" "\<forall>x \<in> set xs. mb_short_addr x \<noteq> a"
        "fs = xs @ e\<lparr>mb_power_on := on\<rparr> # ys" "c = (if mb_power_on e = on then None else Some (e\<lparr>mb_power_on := on\<rparr>))"
      then show ?thesis using False f(2) by (intro disjI2 exI[of _ "d # xs"] exI[of _ e] exI[of _ ys]) simp
    qed (use False f(2) in simp)
  qed
qed simp

definition pending_mirrors :: "(string \<rightharpoonup> string) \<Rightarrow> MqttBridge \<Rightarrow> bool" where
  "pending_mirrors r b \<longleftrightarrow> distinct (map mb_short_addr (old_devices b)) \<and>
     (\<forall>d \<in> set (old_devices b). mirrors (deliver (br_pending b) r) d)"

lemma device_state_cases:
  assumes "br_cache_initialized b"
  obtains "sync_device_state a on b = b"
  | xs d ys where "br_cached_devices b = xs @ d # ys" "mb_short_addr d = a" "mb_power_on d \<noteq> on"
      "sync_device_state a on b = b\<lparr>br_cached_devices := xs @ d\<lparr>mb_power_on := on\<rparr> # ys,
         br_pending := enqueue_publication (state_message (d\<lparr>mb_power_on := on\<rparr>)) (br_pending b)\<rparr>"
proof -
  obtain es c where e: "sync_cached_state a on (br_cached_devices b) = (es, c)" by fastforce
  from sync_cached_cases[OF e] show thesis
  proof (elim disjE exE conjE)
    fix xs d ys
    assume h: "br_cached_devices b = xs @ d # ys" "mb_short_addr d = a" "es = xs @ d\<lparr>mb_power_on := on\<rparr> # ys"
      "c = (if mb_power_on d = on then None else Some (d\<lparr>mb_power_on := on\<rparr>))"
    show thesis
    proof (cases "mb_power_on d = on")
      case True
      then have "d\<lparr>mb_power_on := on\<rparr> = d" by simp
      then have "es = br_cached_devices b" "c = None" using h True by simp_all
      then show thesis using that(1) e assms by (simp add: sync_device_state_def)
    next
      case False
      then show thesis using that(2)[OF h(1,2) False] e assms h(3,4) by (simp add: sync_device_state_def enqueue_if_def)
    qed
  qed (use that(1) e assms in \<open>simp add: sync_device_state_def\<close>)
qed

lemma device_state_mirrors:
  assumes "pending_mirrors r b" "length (br_pending b) < kMaxMqttPublicationsPerSync"
  shows "pending_mirrors r (sync_device_state a on b)"
proof (cases "br_cache_initialized b")
  case True
  then show ?thesis
  proof (cases rule: device_state_cases[of b a on])
    case (2 xs d ys)
    have d: "distinct (map mb_short_addr (xs @ d # ys))" "\<forall>e \<in> set (xs @ d # ys). mirrors (deliver (br_pending b) r) e"
      using assms(1) True 2(1) by (simp_all add: pending_mirrors_def old_devices_def)
    have p: "br_pending (sync_device_state a on b) = br_pending b @ [state_message (d\<lparr>mb_power_on := on\<rparr>)]"
      using 2(4) assms(2) by (simp add: enqueue_publication_def)
    have "mirrors (deliver (br_pending (sync_device_state a on b)) r) e" if "e \<in> set (xs @ d\<lparr>mb_power_on := on\<rparr> # ys)" for e
    proof -
      let ?r = "deliver (br_pending b) r"
      have other: "mirrors (?r(device_topic (mb_short_addr d) ''state'' \<mapsto> p)) e"
        if "e \<in> set xs \<union> set ys" for p
      proof -
        have "mb_short_addr e \<noteq> mb_short_addr d" using that d(1) by (force simp: image_iff)
        moreover have "mirrors ?r e" using that d(2) by auto
        ultimately show ?thesis by (simp add: mirrors_def device_topic_inject)
      qed
      have "mirrors (?r(device_topic (mb_short_addr d) ''state'' \<mapsto> power_payload on)) (d\<lparr>mb_power_on := on\<rparr>)"
        using d(2) by (simp add: mirrors_def device_topic_inject sensor_snapshot_of_def)
      then show ?thesis using that other by (auto simp: p)
    qed
    moreover have "old_devices (sync_device_state a on b) = xs @ d\<lparr>mb_power_on := on\<rparr> # ys"
      using 2(4) True by (simp add: old_devices_def)
    ultimately show ?thesis using d(1) by (simp add: pending_mirrors_def)
  qed (use assms(1) in simp)
qed (use assms(1) in \<open>simp add: sync_device_state_def\<close>)

lemma sync_mirrors:
  assumes "br_started b" "length (bs_list s) \<le> kServiceMaxDevices" "br_pending b = []" "pending_mirrors r b"
    and "distinct (map mb_short_addr (active_devices s))"
    and "3 * length (active_devices s) + length (old_devices b) \<le> kMaxMqttPublicationsPerSync"
  shows "pending_mirrors r (snd (sync_snapshot s b))"
    "old_devices (snd (sync_snapshot s b)) = active_devices s"
    "\<forall>c \<in> set (old_devices b). mb_short_addr c \<notin> mb_short_addr ` set (active_devices s) \<longrightarrow>
       deliver (br_pending (snd (sync_snapshot s b))) r (device_topic (mb_short_addr c) ''availability'') = Some ''offline''"
proof -
  have q: "queue_of (wanted_messages s b) = wanted_messages s b"
    by (rule queue_of_small) (use wanted_length[of s b] assms(6) in linarith)
  show old: "old_devices (snd (sync_snapshot s b)) = active_devices s"
    using sync_snapshot_all[OF assms(1,2)] by (simp add: old_devices_def)
  have "\<forall>c \<in> set (old_devices b). mirrors r c" using assms(3,4) by (simp add: pending_mirrors_def)
  then show "pending_mirrors r (snd (sync_snapshot s b))"
    unfolding pending_mirrors_def old using delivered_mirrors[OF assms(5)] assms(5) sync_snapshot_all[OF assms(1,2)] q by simp
  show "\<forall>c \<in> set (old_devices b). mb_short_addr c \<notin> mb_short_addr ` set (active_devices s) \<longrightarrow>
       deliver (br_pending (snd (sync_snapshot s b))) r (device_topic (mb_short_addr c) ''availability'') = Some ''offline''"
    using gone_offline[OF assms(5)] sync_snapshot_all[OF assms(1,2)] q by simp
qed

section \<open>What is lost\<close>

lemma state_message_wanted:
  assumes "distinct (map mb_short_addr (active_devices s))" "d \<in> set (active_devices s)" "m \<in> set (wanted_messages s b)"
    and "pm_topic m = device_topic (mb_short_addr d) ''state''" "previous_device b (mb_short_addr d) = Some p"
  shows "mb_power_on p \<noteq> mb_power_on d"
  using assms(3)
proof (cases rule: wanted_cases)
  case (1 e)
  from 1(2) have "mb_short_addr d = mb_short_addr e"
    by (cases rule: device_message_cases) (use assms(4) in \<open>simp_all add: device_topic_inject\<close>)
  then have "e = d" using same_device[OF assms(1,2) 1(1)] by simp
  then show ?thesis using 1(2) assms(4,5) by (auto simp: device_messages_def device_topic_inject split: if_splits)
next
  case (2 c)
  then show ?thesis using assms(4) by (simp add: device_topic_inject)
qed

lemma find_device_at:
  "distinct (map mb_short_addr (xs @ d # ys)) \<Longrightarrow> find_device_by_short (xs @ d # ys) (mb_short_addr d) = Some d"
  by (induction xs) (auto simp: find_device_by_short_def)

text \<open>
  C37: a command that comes between the delivery of the waiting messages and the next synchronisation loses its
  message: when a command sets the power state of a known device ahead, and the next snapshot shows the device in that
  state, the synchronisation discards the message that was to tell so and queues none in its place, because the
  bridge already believes the state to be published; the broker keeps the old state.
\<close>
theorem sync_loses_the_state_of_a_command:
  assumes "br_started b" "br_cache_initialized b" "br_pending b = []"
    and "distinct (map mb_short_addr (br_cached_devices b))" "d \<in> set (br_cached_devices b)" "mb_power_on d \<noteq> on"
    and "length (bs_list s) \<le> kServiceMaxDevices" "distinct (map mb_short_addr (active_devices s))"
    and "d' \<in> set (active_devices s)" "mb_short_addr d' = mb_short_addr d" "mb_power_on d' = on"
    and "r (device_topic (mb_short_addr d) ''state'') = Some (power_payload (\<not> on))"
    and "b1 = sync_device_state (mb_short_addr d) on b" "b2 = snd (sync_snapshot s b1)"
  shows "deliver (br_pending b1) r (device_topic (mb_short_addr d) ''state'') = Some (power_payload on) \<and>
    deliver (br_pending b2) r (device_topic (mb_short_addr d) ''state'') = Some (power_payload (\<not> on)) \<and>
    d' \<in> set (br_cached_devices b2)"
proof -
  have "\<exists>xs ys. b1 = b\<lparr>br_cached_devices := xs @ d\<lparr>mb_power_on := on\<rparr> # ys, br_pending := [state_message (d\<lparr>mb_power_on := on\<rparr>)]\<rparr> \<and>
      distinct (map mb_short_addr (xs @ d # ys))"
  proof -
    obtain es c where e: "sync_cached_state (mb_short_addr d) on (br_cached_devices b) = (es, c)" by fastforce
    from sync_cached_cases[OF e] assms(5) obtain xs e' ys where h: "br_cached_devices b = xs @ e' # ys"
        "mb_short_addr e' = mb_short_addr d" "es = xs @ e'\<lparr>mb_power_on := on\<rparr> # ys"
        "c = (if mb_power_on e' = on then None else Some (e'\<lparr>mb_power_on := on\<rparr>))" by blast
    have "e' = d" using same_device[OF assms(4)] h(1,2) assms(5) by auto
    then show ?thesis
      using h e assms(2-4,6,13) by (intro exI[of _ xs] exI[of _ ys])
        (simp add: sync_device_state_def enqueue_if_def enqueue_publication_def kMaxMqttPublicationsPerSync_def kServiceMaxDevices_def)
  qed
  then obtain xs ys where b1: "b1 = b\<lparr>br_cached_devices := xs @ d\<lparr>mb_power_on := on\<rparr> # ys,
      br_pending := [state_message (d\<lparr>mb_power_on := on\<rparr>)]\<rparr>" "distinct (map mb_short_addr (xs @ d # ys))" by blast
  have p: "previous_device b1 (mb_short_addr d') = Some (d\<lparr>mb_power_on := on\<rparr>)"
    using find_device_at[of xs "d\<lparr>mb_power_on := on\<rparr>" ys] b1 assms(2,10) by (simp add: previous_device_def)
  have b2: "br_pending b2 = queue_of (wanted_messages s b1)" "br_cached_devices b2 = active_devices s"
    using sync_snapshot_all[of b1 s] b1(1) assms(1,7,14) by simp_all
  have "pm_topic m \<noteq> device_topic (mb_short_addr d') ''state''" if "m \<in> set (queue_of (wanted_messages s b1))" for m
    using state_message_wanted[OF assms(8,9) _ _ p] that assms(11) by (auto simp: queue_of_def dest: in_set_takeD)
  then have "deliver (br_pending b2) r (device_topic (mb_short_addr d') ''state'') = r (device_topic (mb_short_addr d') ''state'')"
    using deliver_agreed[of "br_pending b2" "device_topic (mb_short_addr d') ''state''" "[]" r] b2(1) by auto
  then show ?thesis using b1(1) b2(2) assms(9,10,12) by simp
qed

definition sample_snapshot :: "bool \<Rightarrow> MqttBridgeDeviceSnapshot BridgeSnapshot" where
  "sample_snapshot on = \<lparr>bs_revision = 1, bs_device_count = 1,
     bs_devices = sample_device\<lparr>mb_power_on := on\<rparr> # replicate 63 mqtt_device_default\<rparr>"

definition sample_bridge :: MqttBridge where
  "sample_bridge = mqtt_bridge_default\<lparr>br_started := True, br_cache_initialized := True, br_cached_devices := [sample_device]\<rparr>"

lemma sample_active: "active_devices (sample_snapshot on) = [sample_device\<lparr>mb_power_on := on\<rparr>]"
  by (simp add: active_devices_def sample_snapshot_def bs_list_def is_active_device_def sample_device_def kUnknownShortAddr_def)

lemma sync_loses_the_state_of_a_command_witness:
  "deliver (br_pending (snd (sync_snapshot (sample_snapshot True) (sync_device_state 8705 True sample_bridge))))
     [device_topic 8705 ''state'' \<mapsto> power_payload False] (device_topic 8705 ''state'') = Some (power_payload False)"
proof -
  have d: "mb_short_addr sample_device = 8705" "\<not> mb_power_on sample_device"
    by (simp_all add: sample_device_def mqtt_device_default_def)
  show ?thesis
    using sync_loses_the_state_of_a_command[of sample_bridge sample_device True "sample_snapshot True"
        "sample_device\<lparr>mb_power_on := True\<rparr>" "[device_topic 8705 ''state'' \<mapsto> power_payload False]", OF _ _ _ _ _ _ _ _ _ _ _ _ refl refl]
      d sample_active
    by (simp add: sample_bridge_def mqtt_bridge_default_def sample_snapshot_def bs_list_def kServiceMaxDevices_def)
qed

text \<open>
  C38: when every place of a full directory is taken by another device between two synchronisations, the old
  devices stay online for the broker: the messages of the new devices fill the queue, the messages that the old ones are
  gone are dropped without a trace, and the bridge forgets these devices.
\<close>
theorem replaced_devices_stay_online:
  assumes "br_started b" "length (bs_list s) \<le> kServiceMaxDevices" "distinct (map mb_short_addr (active_devices s))"
    and "length (active_devices s) = kServiceMaxDevices"
    and "mb_short_addr ` set (active_devices s) \<inter> mb_short_addr ` set (old_devices b) = {}"
    and "c \<in> set (old_devices b)" "r (device_topic (mb_short_addr c) ''availability'') = Some ''online''"
    and "b' = snd (sync_snapshot s b)"
  shows "deliver (br_pending b') r (device_topic (mb_short_addr c) ''availability'') = Some ''online'' \<and>
    mb_short_addr c \<notin> mb_short_addr ` set (br_cached_devices b')"
proof -
  have none: "previous_device b (mb_short_addr d) = None" if "d \<in> set (active_devices s)" for d
    using that assms(5) by (auto simp: previous_device_def old_devices_def find_none_iff)
  have three: "length (concat (map (device_messages b) ds)) = 3 * length ds" if "set ds \<subseteq> set (active_devices s)" for ds
    using that by (induction ds) (simp_all add: device_messages_def none)
  have "queue_of (wanted_messages s b) = concat (map (device_messages b) (active_devices s))"
    using three[OF order_refl] assms(4) by (simp add: wanted_messages_def queue_of_def kMaxMqttPublicationsPerSync_def)
  then have p: "br_pending b' = concat (map (device_messages b) (active_devices s))" "br_cached_devices b' = active_devices s"
    using sync_snapshot_all[OF assms(1,2)] assms(8) by simp_all
  have "pm_topic m \<noteq> device_topic (mb_short_addr c) ''availability''" if "m \<in> set (br_pending b')" for m
  proof -
    from that p(1) obtain d where d: "d \<in> set (active_devices s)" "m \<in> set (device_messages b d)" by auto
    then have "mb_short_addr d \<noteq> mb_short_addr c" using assms(5,6) by blast
    with d(2) show ?thesis by (auto elim!: device_message_cases simp: device_topic_inject)
  qed
  then have "deliver (br_pending b') r (device_topic (mb_short_addr c) ''availability'') = r (device_topic (mb_short_addr c) ''availability'')"
    using deliver_agreed[of "br_pending b'" "device_topic (mb_short_addr c) ''availability''" "[]" r] by auto
  then show ?thesis using p(2) assms(5,6,7) by auto
qed

definition full_snapshot :: "nat \<Rightarrow> MqttBridgeDeviceSnapshot BridgeSnapshot" where
  "full_snapshot n = \<lparr>bs_revision = 1, bs_device_count = 64,
     bs_devices = map (\<lambda>i. sample_device\<lparr>mb_short_addr := of_nat (n + i)\<rparr>) [0..<64]\<rparr>"

lemma small_u16: "i < 64 \<Longrightarrow> unat (of_nat (1 + i) :: u16) = 1 + i"
  by (subst unat_of_nat) simp

lemma full_active: "active_devices (full_snapshot 1) = map (\<lambda>i. sample_device\<lparr>mb_short_addr := of_nat (1 + i)\<rparr>) [0..<64]"
proof -
  have "(of_nat (1 + i) :: u16) \<noteq> kUnknownShortAddr" if "i < 64" for i
    using small_u16[OF that] that by (auto simp: kUnknownShortAddr_def word_unat_eq_iff simp del: of_nat_add)
  then show ?thesis
    unfolding active_devices_def full_snapshot_def bs_list_def
    by (subst filter_True) (auto simp: is_active_device_def sample_device_def)
qed

lemma replaced_devices_stay_online_witness:
  "deliver (br_pending (snd (sync_snapshot (full_snapshot 1) sample_bridge)))
     [device_topic 8705 ''availability'' \<mapsto> ''online''] (device_topic 8705 ''availability'') = Some ''online''"
proof -
  note u = small_u16
  have d: "mb_short_addr sample_device = 8705" by (simp add: sample_device_def)
  have "inj_on (\<lambda>i. of_nat (1 + i) :: u16) {0..<64}" using u by (intro inj_onI) (metis add_left_imp_eq atLeastLessThan_iff)
  then have dist: "distinct (map mb_short_addr (active_devices (full_snapshot 1)))"
    unfolding full_active by (simp add: comp_def distinct_map)
  have other: "mb_short_addr ` set (active_devices (full_snapshot 1)) \<inter> mb_short_addr ` set (old_devices sample_bridge) = {}"
  proof -
    have "(of_nat (1 + i) :: u16) \<noteq> 8705" if "i < 64" for i using u[OF that] that by (auto simp: word_unat_eq_iff)
    then show ?thesis unfolding full_active by (auto simp: old_devices_def sample_bridge_def d)
  qed
  have "length (active_devices (full_snapshot 1)) = kServiceMaxDevices" unfolding full_active by (simp add: kServiceMaxDevices_def)
  then show ?thesis
    using replaced_devices_stay_online[OF _ _ dist _ other _ _ refl, of sample_device "[device_topic 8705 ''availability'' \<mapsto> ''online'']"] d
    by (simp add: sample_bridge_def old_devices_def full_snapshot_def bs_list_def kServiceMaxDevices_def)
qed

end
