(* ===== verification/MqttLoop.thy ===== *)
theory MqttLoop
  imports MqttSync GatewayView
begin

text \<open>
  The MQTT bridge at work (\<^verbatim>\<open>components/mqtt_bridge/mqtt_bridge.cpp\<close>): the commands that arrive, the status of the
  transport, and the loop that delivers the waiting messages and synchronises the devices. The transport, the clock
  and the creation of the task are operations on a state of their own; the runtime is the gateway. The code of the
  target is modelled; each operation runs alone, since the lock of the bridge separates the loop from the callbacks.
\<close>

section \<open>The transport and the world\<close>

datatype hal_mqtt_status =
  HAL_MQTT_STATUS_OK | HAL_MQTT_STATUS_INVALID_ARG | HAL_MQTT_STATUS_DISABLED | HAL_MQTT_STATUS_NOT_INITIALIZED | HAL_MQTT_STATUS_FAILED

record 't MqttTransport =
  mt_init :: "'t \<Rightarrow> hal_mqtt_status \<times> 't"
  mt_get_broker_endpoint_summary :: "'t \<Rightarrow> string option \<times> 't"
  mt_register_callbacks :: "'t \<Rightarrow> hal_mqtt_status \<times> 't"
  mt_start :: "'t \<Rightarrow> hal_mqtt_status \<times> 't"
  mt_subscribe :: "string \<Rightarrow> nat \<Rightarrow> 't \<Rightarrow> hal_mqtt_status \<times> 't"
  mt_is_connected :: "'t \<Rightarrow> bool \<times> 't"
  mt_publish :: "string \<Rightarrow> string \<Rightarrow> bool \<Rightarrow> nat \<Rightarrow> 't \<Rightarrow> hal_mqtt_status \<times> 't"
  mt_monotonic_now_ms :: "'t \<Rightarrow> u32 \<times> 't"
  mt_create_task :: "'t \<Rightarrow> bool \<times> 't"

record ('t, 'd) MqttWorld =
  mw_bridge :: MqttBridge
  mw_transport :: 't
  mw_gateway :: "'d Gateway"

type_synonym ('t, 'd, 'a) mq = "('t, 'd) MqttWorld \<Rightarrow> 'a \<times> ('t, 'd) MqttWorld"

definition on_bridge :: "(MqttBridge \<Rightarrow> MqttBridge) \<Rightarrow> ('t, 'd) MqttWorld \<Rightarrow> ('t, 'd) MqttWorld" where
  "on_bridge f w = w\<lparr>mw_bridge := f (mw_bridge w)\<rparr>"

definition on_transport :: "('t \<Rightarrow> 'a \<times> 't) \<Rightarrow> ('t, 'd, 'a) mq" where
  "on_transport f w = (case f (mw_transport w) of (a, t) \<Rightarrow> (a, w\<lparr>mw_transport := t\<rparr>))"

definition kDrainBatchCapacity :: nat where "kDrainBatchCapacity = 8"
definition kMqttQosAtLeastOnce :: nat where "kMqttQosAtLeastOnce = 1"

section \<open>Status\<close>

definition publish_runtime_status :: "('t, 'd) MqttWorld \<Rightarrow> ('t, 'd) MqttWorld" where
  "publish_runtime_status w =
     (if \<not> br_attached (mw_bridge w) then w
      else w\<lparr>mw_gateway := snd (post_mqtt_status (br_runtime_status_cache (mw_bridge w)) (mw_gateway w))\<rparr>)"

definition handle_transport_connected :: "('t, 'd) MqttWorld \<Rightarrow> ('t, 'd) MqttWorld" where
  "handle_transport_connected w =
     publish_runtime_status
       (on_bridge (\<lambda>b. (set_runtime_status True True kMqttNone b)\<lparr>br_discovery_republish_requested := True\<rparr>) w)"

definition handle_transport_disconnected :: "('t, 'd) MqttWorld \<Rightarrow> ('t, 'd) MqttWorld" where
  "handle_transport_disconnected w =
     publish_runtime_status
       (on_bridge (\<lambda>b. set_runtime_status True False (mq_last_connect_error (br_runtime_status_cache b))
          (b\<lparr>br_command_topics_subscribed := False\<rparr>)) w)"

definition handle_transport_error :: "MqttConnectionError \<Rightarrow> ('t, 'd) MqttWorld \<Rightarrow> ('t, 'd) MqttWorld" where
  "handle_transport_error err w = publish_runtime_status (on_bridge (set_runtime_status True False err) w)"

definition handle_transport_subscribe_failure :: "('t, 'd) MqttWorld \<Rightarrow> ('t, 'd) MqttWorld" where
  "handle_transport_subscribe_failure w =
     publish_runtime_status (on_bridge (set_runtime_status True False kMqttSubscribeFailed) w)"

definition subscribe_command_topics :: "'t MqttTransport \<Rightarrow> ('t, 'd, bool) mq" where
  "subscribe_command_topics T w =
     (if br_command_topics_subscribed (mw_bridge w) then (True, w)
      else
        case on_transport (mt_subscribe T topic_device_config_wildcard kMqttQosAtLeastOnce) w of
          (config_status, w1) \<Rightarrow>
            if config_status \<noteq> HAL_MQTT_STATUS_OK then (False, handle_transport_subscribe_failure w1)
            else
              case on_transport (mt_subscribe T topic_device_power_set_wildcard kMqttQosAtLeastOnce) w1 of
                (power_status, w2) \<Rightarrow>
                  if power_status \<noteq> HAL_MQTT_STATUS_OK then (False, handle_transport_subscribe_failure w2)
                  else
                    case on_transport (mt_is_connected T) (on_bridge (\<lambda>b. b\<lparr>br_command_topics_subscribed := True\<rparr>) w2) of
                      (connected, w3) \<Rightarrow>
                        (True, if connected then publish_runtime_status (on_bridge (set_runtime_status True True kMqttNone) w3)
                               else w3))"

definition on_transport_connected :: "'t MqttTransport \<Rightarrow> ('t, 'd) MqttWorld \<Rightarrow> ('t, 'd) MqttWorld" where
  "on_transport_connected T w = snd (subscribe_command_topics T (handle_transport_connected w))"

definition on_transport_disconnected :: "('t, 'd) MqttWorld \<Rightarrow> ('t, 'd) MqttWorld" where
  "on_transport_disconnected w = handle_transport_disconnected w"

section \<open>Start and stop\<close>

definition start_transport :: "'t MqttTransport \<Rightarrow> ('t, 'd, bool) mq" where
  "start_transport T w =
     (case on_transport (mt_init T) w of
        (hal_init_status, w1) \<Rightarrow>
          if hal_init_status = HAL_MQTT_STATUS_DISABLED
          then (False, publish_runtime_status (on_bridge (set_runtime_status False False kMqttDisabled) w1))
          else if hal_init_status \<noteq> HAL_MQTT_STATUS_OK then (False, handle_transport_error kMqttInitFailed w1)
          else
            case on_transport (mt_get_broker_endpoint_summary T) w1 of
              (summary, w2) \<Rightarrow>
                let w3 = on_bridge (\<lambda>b. b\<lparr>br_runtime_status_cache := (br_runtime_status_cache b)
                           \<lparr>mq_broker_endpoint_summary := (case summary of None \<Rightarrow> [] | Some s \<Rightarrow> s)\<rparr>\<rparr>) w2
                in case on_transport (mt_register_callbacks T) w3 of
                  (register_status, w4) \<Rightarrow>
                    if register_status \<noteq> HAL_MQTT_STATUS_OK then (False, handle_transport_error kMqttInitFailed w4)
                    else
                      case on_transport (mt_start T) w4 of
                        (start_status, w5) \<Rightarrow>
                          if start_status \<noteq> HAL_MQTT_STATUS_OK then (False, handle_transport_error kMqttStartFailed w5)
                          else (True, publish_runtime_status (on_bridge (set_runtime_status True False kMqttNone) w5)))"

definition ensure_task_started :: "'t MqttTransport \<Rightarrow> ('t, 'd, bool) mq" where
  "ensure_task_started T w =
     (let b = mw_bridge w
      in if \<not> br_started b then (False, w)
         else if br_task_running b then (True, w)
         else if \<not> br_attached b then (True, w)
         else
           case on_transport (mt_create_task T) w of
             (created, w1) \<Rightarrow> if \<not> created then (False, w1) else (True, on_bridge (\<lambda>b. b\<lparr>br_task_running := True\<rparr>) w1))"

definition mqtt_start :: "'t MqttTransport \<Rightarrow> ('t, 'd, bool) mq" where
  "mqtt_start T w =
     (case start_transport T (on_bridge reset_sync_cache w) of
        (enabled, w1) \<Rightarrow>
          ensure_task_started T
            (publish_runtime_status (on_bridge (\<lambda>b. b\<lparr>br_transport_enabled := enabled, br_started := True\<rparr>) w1)))"

text \<open>What is left after \<^verbatim>\<open>stop\<close> but for the wait until the task has ended.\<close>

definition mqtt_stop :: "('t, 'd) MqttWorld \<Rightarrow> ('t, 'd) MqttWorld" where
  "mqtt_stop w =
     publish_runtime_status
       (on_bridge (\<lambda>b. let b1 = (reset_sync_cache b)\<lparr>br_transport_enabled := False, br_started := False\<rparr>;
                           s = br_runtime_status_cache b1
                       in set_runtime_status (mq_enabled s) False (mq_last_connect_error s) b1) w)"

definition attach_runtime :: "'t MqttTransport \<Rightarrow> ('t, 'd) MqttWorld \<Rightarrow> ('t, 'd) MqttWorld" where
  "attach_runtime T w = snd (ensure_task_started T (publish_runtime_status (on_bridge (\<lambda>b. b\<lparr>br_attached := True\<rparr>) w)))"

section \<open>Commands\<close>

definition handle_config_command :: "nat \<Rightarrow> string \<Rightarrow> string \<Rightarrow> u32 \<Rightarrow> ('t, 'd, bool) mq" where
  "handle_config_command bits topic payload correlation_id w =
     (if \<not> br_attached (mw_bridge w) \<or> correlation_id = kNoCorrelationId then (False, w)
      else
        case parse_mqtt_reporting_profile_request bits topic payload of
          Inl err \<Rightarrow> (False, w)
        | Inr profile \<Rightarrow>
            (let g = mw_gateway w
             in case post_reporting_profile_write profile (gw_rt g) (gw_persistence g) of
                  (ok, rt, pm) \<Rightarrow> (ok, w\<lparr>mw_gateway := set_rt rt (g\<lparr>gw_persistence := pm\<rparr>)\<rparr>)))"

definition handle_power_command :: "'t MqttTransport \<Rightarrow> nat \<Rightarrow> string \<Rightarrow> string \<Rightarrow> u32 \<Rightarrow> ('t, 'd, bool) mq" where
  "handle_power_command T bits topic payload correlation_id w =
     (if \<not> br_attached (mw_bridge w) \<or> correlation_id = kNoCorrelationId then (False, w)
      else
        case parse_mqtt_device_power_request bits topic payload of
          Inl err \<Rightarrow> (False, w)
        | Inr request \<Rightarrow>
            case on_transport (mt_monotonic_now_ms T) w of
              (issued_at_ms, w1) \<Rightarrow>
                let g = mw_gateway w1
                in case post_device_power_request correlation_id (dq_short_addr request) (dq_desired_power_on request)
                          issued_at_ms (gw_rt g) (gw_commands g) (gw_persistence g) of
                     (status, rt, m, pm) \<Rightarrow>
                       let w2 = w1\<lparr>mw_gateway := set_rt rt (g\<lparr>gw_commands := m, gw_persistence := pm\<rparr>)\<rparr>
                       in if status \<noteq> kSubmitAccepted then (False, w2)
                          else
                            case on_transport (mt_monotonic_now_ms T) w2 of
                              (now_ms, w3) \<Rightarrow>
                                (True, on_bridge (\<lambda>b. sync_device_state (dq_short_addr request) (dq_desired_power_on request)
                                   (set_power_override now_ms (dq_short_addr request) (dq_desired_power_on request) b)) w3))"

definition handle_command_message :: "'t MqttTransport \<Rightarrow> nat \<Rightarrow> string \<Rightarrow> string \<Rightarrow> u32 \<Rightarrow> ('t, 'd, bool) mq" where
  "handle_command_message T bits topic payload correlation_id w =
     (if mqtt_topic_has_suffix topic ''/config'' then handle_config_command bits topic payload correlation_id w
      else if mqtt_topic_has_suffix topic ''/power/set'' then handle_power_command T bits topic payload correlation_id w
      else (False, w))"

text \<open>A message of the transport: both texts are copied and read as C strings.\<close>

definition c_string :: "string \<Rightarrow> string" where
  "c_string s = takeWhile (\<lambda>c. c \<noteq> CHR 0x00) s"

definition on_transport_message :: "'t MqttTransport \<Rightarrow> nat \<Rightarrow> string \<Rightarrow> string \<Rightarrow> ('t, 'd) MqttWorld \<Rightarrow> ('t, 'd) MqttWorld" where
  "on_transport_message T bits topic payload w =
     (if topic = [] \<or> payload = [] then w
      else if length topic \<ge> kTopicMaxLen \<or> length payload \<ge> kMqttPayloadMaxLen then w
      else
        case next_command_correlation_id (mw_bridge w) of
          (correlation_id, b) \<Rightarrow>
            snd (handle_command_message T bits (c_string topic) (c_string payload) correlation_id (w\<lparr>mw_bridge := b\<rparr>)))"

section \<open>The loop\<close>

definition publish_message :: "'t MqttTransport \<Rightarrow> MqttPublishedMessage \<Rightarrow> ('t, 'd, bool) mq" where
  "publish_message T m w =
     (case on_transport (mt_publish T (pm_topic m) (pm_payload m) (pm_retain m) kMqttQosAtLeastOnce) w of
        (status, w1) \<Rightarrow> (status = HAL_MQTT_STATUS_OK, w1))"

fun publish_batch :: "'t MqttTransport \<Rightarrow> MqttPublishedMessage list \<Rightarrow> ('t, 'd, nat) mq" where
  "publish_batch T [] w = (0, w)"
| "publish_batch T (m # ms) w =
     (case publish_message T m w of
        (ok, w1) \<Rightarrow> (case publish_batch T ms w1 of (n, w2) \<Rightarrow> ((if ok then Suc n else n), w2)))"

lemma publish_batch_bridge [simp]: "mw_bridge (snd (publish_batch T ms w)) = mw_bridge w"
  by (induction ms arbitrary: w) (simp_all add: publish_message_def on_transport_def case_prod_unfold)

lemma publish_batch_bridgeD: "publish_batch T ms w = (n, w1) \<Longrightarrow> mw_bridge w1 = mw_bridge w"
  using publish_batch_bridge[of T ms w] by simp

lemma drain_shortens:
  "drain_publications kDrainBatchCapacity b = (batch, b1) \<Longrightarrow> batch \<noteq> [] \<Longrightarrow> length (br_pending b1) < length (br_pending b)"
  by (auto simp: drain_publications_def kDrainBatchCapacity_def Let_def split: if_splits)

text \<open>Batches of eight until none is left.\<close>

function publish_batches :: "'t MqttTransport \<Rightarrow> ('t, 'd, nat) mq" where
  "publish_batches T w =
     (case drain_publications kDrainBatchCapacity (mw_bridge w) of
        (batch, b) \<Rightarrow>
          if batch = [] then (0, w\<lparr>mw_bridge := b\<rparr>)
          else
            let (n, w1) = publish_batch T batch (w\<lparr>mw_bridge := b\<rparr>);
                (m, w2) = publish_batches T w1
            in (n + m, w2))"
  by auto
termination
  by (relation "measure (\<lambda>(T, w). length (br_pending (mw_bridge w)))")
    (auto dest!: publish_batch_bridgeD[OF sym] drain_shortens[OF sym])

declare publish_batches.simps [simp del]

definition publish_pending_publications :: "'t MqttTransport \<Rightarrow> ('t, 'd, nat) mq" where
  "publish_pending_publications T w =
     (if \<not> br_transport_enabled (mw_bridge w) then (0, on_bridge (\<lambda>b. b\<lparr>br_pending := []\<rparr>) w)
      else
        case publish_batches T w of
          (published, w1) \<Rightarrow>
            (published, on_bridge (\<lambda>b. b\<lparr>br_published_message_count := br_published_message_count b + of_nat published\<rparr>) w1))"

definition discovery_wanted :: "MqttBridge \<Rightarrow> bool \<Rightarrow> MqttBridgeDeviceSnapshot \<Rightarrow> bool" where
  "discovery_wanted b force_republish current \<longleftrightarrow>
     force_republish \<or>
     (case previous_device b (mb_short_addr current) of
        None \<Rightarrow> True
      | Some previous \<Rightarrow> discovery_schema_changed previous current)"

fun publish_announcements :: "'t MqttTransport \<Rightarrow> HomeAssistantDiscoveryMessage list \<Rightarrow> ('t, 'd, bool) mq" where
  "publish_announcements T [] w = (False, w)"
| "publish_announcements T (m # ms) w =
     (case on_transport (mt_publish T (hd_topic m) (hd_payload m) True kMqttQosAtLeastOnce) w of
        (status, w1) \<Rightarrow>
          (case publish_announcements T ms w1 of (any, w2) \<Rightarrow> (status = HAL_MQTT_STATUS_OK \<or> any, w2)))"

fun announce_devices :: "'t MqttTransport \<Rightarrow> bool \<Rightarrow> MqttBridgeDeviceSnapshot list \<Rightarrow> ('t, 'd, bool) mq" where
  "announce_devices T force_republish [] w = (False, w)"
| "announce_devices T force_republish (current # ds) w =
     (if mb_short_addr current = kUnknownShortAddr \<or> \<not> mb_online current
      then announce_devices T force_republish ds w
      else if \<not> discovery_wanted (mw_bridge w) force_republish current
      then announce_devices T force_republish ds w
      else
        case publish_announcements T (build_homeassistant_discovery_messages current kMaxDiscoveryMessagesPerDevice) w of
          (any, w1) \<Rightarrow>
            (case announce_devices T force_republish ds w1 of (later, w2) \<Rightarrow> (any \<or> later, w2)))"

definition publish_homeassistant_discovery ::
  "'t MqttTransport \<Rightarrow> MqttBridgeDeviceSnapshot BridgeSnapshot \<Rightarrow> bool \<Rightarrow> ('t, 'd, bool) mq" where
  "publish_homeassistant_discovery T snapshot force_republish w =
     (if \<not> br_transport_enabled (mw_bridge w) then (False, w)
      else
        case announce_devices T force_republish (bs_list snapshot) w of
          (any, w1) \<Rightarrow>
            (any, if force_republish then on_bridge (\<lambda>b. b\<lparr>br_discovery_republish_requested := False\<rparr>) w1 else w1))"

definition sync_runtime_snapshot :: "'t MqttTransport \<Rightarrow> ('t, 'd, nat) mq" where
  "sync_runtime_snapshot T w =
     (let b = mw_bridge w
      in if \<not> br_started b \<or> \<not> br_attached b \<or> \<not> br_transport_enabled b then (0, w)
         else
           case build_mqtt_bridge_snapshot (gw_read_models (mw_gateway w)) of
             None \<Rightarrow> (0, w)
           | Some snapshot \<Rightarrow>
               case on_transport (mt_monotonic_now_ms T) w of
                 (now_ms, w1) \<Rightarrow>
                   case apply_power_overrides now_ms snapshot (mw_bridge w1) of
                     (snapshot1, b1) \<Rightarrow>
                       let w2 = snd (publish_homeassistant_discovery T snapshot1 (br_discovery_republish_requested b1)
                                      (w1\<lparr>mw_bridge := b1\<rparr>))
                       in case sync_snapshot snapshot1 (mw_bridge w2) of (n, b2) \<Rightarrow> (n, w2\<lparr>mw_bridge := b2\<rparr>))"

text \<open>One round of \<^verbatim>\<open>run_loop\<close>.\<close>

definition bridge_round :: "'t MqttTransport \<Rightarrow> ('t, 'd) MqttWorld \<Rightarrow> ('t, 'd) MqttWorld" where
  "bridge_round T w =
     snd (publish_pending_publications T (snd (sync_runtime_snapshot T (snd (publish_pending_publications T w)))))"

text \<open>The loop goes on while the bridge is started; then the task ends.\<close>

definition run_loop_step :: "'t MqttTransport \<Rightarrow> ('t, 'd) MqttWorld \<Rightarrow> ('t, 'd) MqttWorld" where
  "run_loop_step T w =
     (if br_started (mw_bridge w) then bridge_round T w else on_bridge (\<lambda>b. b\<lparr>br_task_running := False\<rparr>) w)"

end
