(* ===== verification/MqttMirror.thy ===== *)
theory MqttMirror
  imports MqttLoop
begin

text \<open>
  The MQTT broker as a mirror of the gateway: a transport that retains what is published to it, and any sequence of
  rounds of the bridge, messages that arrive, events of the transport and operations of the gateway.
\<close>

section \<open>Publishing\<close>

text \<open>The broker keeps the last payload of every topic, and nothing but a publication changes what it keeps.\<close>

definition retains :: "'t MqttTransport \<Rightarrow> ('t \<Rightarrow> string \<rightharpoonup> string) \<Rightarrow> bool" where
  "retains T held \<longleftrightarrow>
     (\<forall>topic payload retain qos t. fst (mt_publish T topic payload retain qos t) = HAL_MQTT_STATUS_OK \<and>
        held (snd (mt_publish T topic payload retain qos t)) = (held t)(topic \<mapsto> payload)) \<and>
     (\<forall>t. held (snd (mt_monotonic_now_ms T t)) = held t) \<and>
     (\<forall>t. held (snd (mt_is_connected T t)) = held t) \<and>
     (\<forall>filter qos t. held (snd (mt_subscribe T filter qos t)) = held t)"

lemma on_transport_simps [simp]:
  "fst (on_transport f w) = fst (f (mw_transport w))"
  "mw_bridge (snd (on_transport f w)) = mw_bridge w" "mw_gateway (snd (on_transport f w)) = mw_gateway w"
  "mw_transport (snd (on_transport f w)) = snd (f (mw_transport w))"
  by (simp_all add: on_transport_def case_prod_unfold)

lemma on_bridge_simps [simp]:
  "mw_bridge (on_bridge f w) = f (mw_bridge w)" "mw_gateway (on_bridge f w) = mw_gateway w"
  "mw_transport (on_bridge f w) = mw_transport w"
  by (simp_all add: on_bridge_def)

abbreviation held_by :: "('t \<Rightarrow> string \<rightharpoonup> string) \<Rightarrow> ('t, 'd) MqttWorld \<Rightarrow> string \<rightharpoonup> string" where
  "held_by held w \<equiv> held (mw_transport w)"

lemma publish_batch_held:
  assumes "retains T held"
  shows "held_by held (snd (publish_batch T ms w)) = deliver ms (held_by held w) \<and>
    mw_bridge (snd (publish_batch T ms w)) = mw_bridge w \<and> mw_gateway (snd (publish_batch T ms w)) = mw_gateway w"
  using assms by (induction ms arbitrary: w) (simp_all add: publish_message_def case_prod_unfold retains_def)

lemma drain_all:
  assumes "drain_publications kDrainBatchCapacity b = (batch, b1)"
  shows "br_pending b = batch @ br_pending b1" "b1 = b\<lparr>br_pending := br_pending b1\<rparr>" "batch = [] \<Longrightarrow> br_pending b1 = []"
  using assms by (auto simp: drain_publications_def kDrainBatchCapacity_def Let_def min_def split: if_splits)

lemma publish_batches_held:
  assumes "retains T held"
  shows "held_by held (snd (publish_batches T w)) = deliver (br_pending (mw_bridge w)) (held_by held w) \<and>
    mw_bridge (snd (publish_batches T w)) = (mw_bridge w)\<lparr>br_pending := []\<rparr> \<and>
    mw_gateway (snd (publish_batches T w)) = mw_gateway w"
  using assms
proof (induction T w rule: publish_batches.induct)
  case (1 T w)
  obtain batch b where d: "drain_publications kDrainBatchCapacity (mw_bridge w) = (batch, b)" by fastforce
  note d' = drain_all[OF d]
  show ?case
  proof (cases "batch = []")
    case True
    then have "br_pending (mw_bridge w) = []" "b = mw_bridge w"
      using d by (auto simp: drain_publications_def kDrainBatchCapacity_def Let_def min_def split: if_splits)
    then show ?thesis using True d by (simp add: publish_batches.simps[of T w])
  next
    case False
    obtain n w1 where p: "publish_batch T batch (w\<lparr>mw_bridge := b\<rparr>) = (n, w1)" by fastforce
    have h: "held_by held w1 = deliver batch (held_by held w)" "mw_bridge w1 = b" "mw_gateway w1 = mw_gateway w"
      using publish_batch_held[OF 1(2), of batch "w\<lparr>mw_bridge := b\<rparr>"] p by simp_all
    have "held_by held (snd (publish_batches T w1)) = deliver (br_pending b) (held_by held w1) \<and>
        mw_bridge (snd (publish_batches T w1)) = b\<lparr>br_pending := []\<rparr> \<and> mw_gateway (snd (publish_batches T w1)) = mw_gateway w1"
      using 1(1)[OF d[symmetric] False refl p[symmetric] 1(2)] h(2) by simp
    moreover have "b\<lparr>br_pending := []\<rparr> = (mw_bridge w)\<lparr>br_pending := []\<rparr>" by (subst d'(2)) simp
    ultimately show ?thesis
      using False d p h d'(1) by (simp add: publish_batches.simps[of T w] case_prod_unfold Let_def)
  qed
qed

lemma publish_pending_held:
  assumes "retains T held" "br_transport_enabled (mw_bridge w)"
  shows "held_by held (snd (publish_pending_publications T w)) = deliver (br_pending (mw_bridge w)) (held_by held w)"
    "mw_gateway (snd (publish_pending_publications T w)) = mw_gateway w"
    "\<exists>n. mw_bridge (snd (publish_pending_publications T w)) = (mw_bridge w)\<lparr>br_pending := [], br_published_message_count := n\<rparr>"
  using publish_batches_held[OF assms(1), of w] assms(2)
  by (auto simp: publish_pending_publications_def case_prod_unfold)

section \<open>Announcements leave the topics of the devices alone\<close>

definition same_on_devices :: "(string \<rightharpoonup> string) \<Rightarrow> (string \<rightharpoonup> string) \<Rightarrow> bool" where
  "same_on_devices r r' \<longleftrightarrow> (\<forall>a suffix. r (device_topic a suffix) = r' (device_topic a suffix))"

lemma same_refl [simp]: "same_on_devices r r"
  by (simp add: same_on_devices_def)

lemma same_trans: "same_on_devices r s \<Longrightarrow> same_on_devices s t \<Longrightarrow> same_on_devices r t"
  by (simp add: same_on_devices_def)

lemma same_deliver: "same_on_devices r r' \<Longrightarrow> same_on_devices (deliver ms r) (deliver ms r')"
  by (induction ms arbitrary: r r') (simp_all add: same_on_devices_def)

lemma same_mirrors: "same_on_devices r r' \<Longrightarrow> mirrors r d \<Longrightarrow> mirrors r' d"
  by (simp add: same_on_devices_def mirrors_def)

lemma same_pending_mirrors: "same_on_devices r r' \<Longrightarrow> pending_mirrors r b \<Longrightarrow> pending_mirrors r' b"
  unfolding pending_mirrors_def using same_mirrors same_deliver by blast

lemma announcement_elsewhere: "m \<in> set (announcements d) \<Longrightarrow> hd_topic m \<noteq> device_topic a suffix"
  by (auto simp: announcements_def announced_with_def sensor_topic_def discovery_topic_def device_topic_def kDeviceTopicPrefix_def
      split: if_splits)

lemma publish_announcements_held:
  assumes "retains T held" "\<forall>m \<in> set ms. \<forall>a suffix. hd_topic m \<noteq> device_topic a suffix"
  shows "same_on_devices (held_by held w) (held_by held (snd (publish_announcements T ms w))) \<and>
    mw_bridge (snd (publish_announcements T ms w)) = mw_bridge w \<and> mw_gateway (snd (publish_announcements T ms w)) = mw_gateway w"
  using assms(2)
proof (induction ms arbitrary: w)
  case (Cons m ms)
  let ?w = "snd (on_transport (mt_publish T (hd_topic m) (hd_payload m) True kMqttQosAtLeastOnce) w)"
  have "same_on_devices (held_by held w) (held_by held ?w)"
    using assms(1) Cons.prems by (auto simp: retains_def same_on_devices_def eq_commute[of "hd_topic m"])
  then show ?case using Cons.IH[of ?w] Cons.prems same_trans by (auto simp: case_prod_unfold)
qed simp

lemma announce_devices_held:
  assumes "retains T held"
  shows "same_on_devices (held_by held w) (held_by held (snd (announce_devices T force ds w))) \<and>
    mw_bridge (snd (announce_devices T force ds w)) = mw_bridge w \<and> mw_gateway (snd (announce_devices T force ds w)) = mw_gateway w"
proof (induction ds arbitrary: w)
  case (Cons d ds)
  show ?case
  proof (cases "mb_short_addr d = kUnknownShortAddr \<or> \<not> mb_online d \<or> \<not> discovery_wanted (mw_bridge w) force d")
    case True
    then show ?thesis using Cons.IH[of w] by auto
  next
    case False
    then have "build_homeassistant_discovery_messages d kMaxDiscoveryMessagesPerDevice = announcements d"
      by (simp add: discovery_announces)
    then show ?thesis
      using False publish_announcements_held[OF assms, of "announcements d" w] announcement_elsewhere
        Cons.IH[of "snd (publish_announcements T (announcements d) w)"] same_trans
      by (auto simp: case_prod_unfold)
  qed
qed simp

section \<open>Overrides change the power only\<close>

definition but_power :: "MqttBridgeDeviceSnapshot \<Rightarrow> MqttBridgeDeviceSnapshot \<Rightarrow> bool" where
  "but_power d e \<longleftrightarrow> e = d\<lparr>mb_power_on := mb_power_on e\<rparr>"

lemma but_power_fields:
  assumes "but_power d e"
  shows "mb_short_addr e = mb_short_addr d" "mb_online e = mb_online d" "sensor_snapshot_of e = sensor_snapshot_of d"
proof -
  obtain p where "e = d\<lparr>mb_power_on := p\<rparr>" using assms unfolding but_power_def by blast
  then show "mb_short_addr e = mb_short_addr d" "mb_online e = mb_online d" "sensor_snapshot_of e = sensor_snapshot_of d"
    by (simp_all add: sensor_snapshot_of_def)
qed

lemma but_power_trans:
  assumes "but_power d e" "but_power e f" shows "but_power d f"
proof -
  obtain p q where "e = d\<lparr>mb_power_on := p\<rparr>" "f = e\<lparr>mb_power_on := q\<rparr>" using assms unfolding but_power_def by blast
  then show ?thesis by (simp add: but_power_def)
qed

definition power_explained :: "PendingPowerOverride list \<Rightarrow> MqttBridgeDeviceSnapshot \<Rightarrow> MqttBridgeDeviceSnapshot \<Rightarrow> bool" where
  "power_explained os d e \<longleftrightarrow> but_power d e \<and>
     (mb_power_on e = mb_power_on d \<or>
      (\<exists>o' \<in> set os. po_active o' \<and> po_short_addr o' = mb_short_addr d \<and> po_power_on o' = mb_power_on e))"

lemma explained_refl: "power_explained os d d"
  by (simp add: power_explained_def but_power_def)

lemma explained_trans:
  assumes "power_explained os d e" "power_explained os e f" shows "power_explained os d f"
proof -
  have b: "but_power d e" "but_power e f" using assms by (simp_all add: power_explained_def)
  show ?thesis
    using assms but_power_trans[OF b] but_power_fields(1)[OF b(1)] by (auto simp: power_explained_def)
qed

lemma explained_all_refl: "list_all2 (power_explained os) ds ds"
  by (simp add: list.rel_refl explained_refl)

lemma explained_all_trans:
  "list_all2 (power_explained os) ds es \<Longrightarrow> list_all2 (power_explained os) es fs \<Longrightarrow> list_all2 (power_explained os) ds fs"
  by (rule list_all2_trans[of "power_explained os" "power_explained os" "power_explained os"]) (blast intro: explained_trans)

lemma override_device_explained:
  "po_active o' \<Longrightarrow> o' \<in> set os \<Longrightarrow> list_all2 (power_explained os) ds (snd (override_device o' ds))"
proof (induction ds)
  case (Cons d ds)
  have "power_explained os d (d\<lparr>mb_power_on := po_power_on o'\<rparr>)" if "mb_short_addr d = po_short_addr o'"
    using that Cons.prems by (auto simp: power_explained_def but_power_def)
  then show ?case using Cons by (simp add: explained_refl explained_all_refl case_prod_unfold)
qed simp

lemma apply_overrides_explained:
  "set os \<subseteq> set all \<Longrightarrow> list_all2 (power_explained all) ds (snd (apply_overrides now_ms os ds))"
proof (induction os arbitrary: ds)
  case (Cons e es)
  have "list_all2 (power_explained all) ds (snd (override_device e ds))" if "po_active e"
    using override_device_explained[OF that] Cons.prems by simp
  then show ?case
    using Cons.IH[of ds] Cons.IH[of "snd (override_device e ds)"] Cons.prems explained_all_trans
    by (auto simp: case_prod_unfold)
qed (simp add: explained_all_refl)

lemma overridden_list:
  assumes "apply_power_overrides now_ms s b = (s1, b1)"
  shows "list_all2 (power_explained (br_power_overrides b)) (bs_list s) (bs_list s1)" "\<exists>os. b1 = b\<lparr>br_power_overrides := os\<rparr>"
proof -
  let ?n = "unat (bs_device_count s)"
  obtain os ds where o: "apply_overrides now_ms (br_power_overrides b) (take ?n (bs_devices s)) = (os, ds)" by fastforce
  have a: "list_all2 (power_explained (br_power_overrides b)) (take ?n (bs_devices s)) ds"
    using apply_overrides_explained[of "br_power_overrides b" "br_power_overrides b" "take ?n (bs_devices s)" now_ms] o by simp
  then have "length ds = min (length (bs_devices s)) ?n" by (auto dest: list_all2_lengthD)
  then have "take ?n (ds @ drop ?n (bs_devices s)) = ds" by (cases "length (bs_devices s) \<le> ?n") auto
  moreover have "s1 = s\<lparr>bs_devices := ds @ drop ?n (bs_devices s)\<rparr>" "b1 = b\<lparr>br_power_overrides := os\<rparr>"
    using assms o by (simp_all add: apply_power_overrides_def Let_def)
  ultimately show "list_all2 (power_explained (br_power_overrides b)) (bs_list s) (bs_list s1)"
    "\<exists>os. b1 = b\<lparr>br_power_overrides := os\<rparr>" using a by (auto simp: bs_list_def)
qed

lemma explained_active:
  assumes "list_all2 (power_explained os) ds es"
  shows "list_all2 (power_explained os) (filter is_active_device ds) (filter is_active_device es)"
  using assms
proof (induction rule: list_all2_induct)
  case (Cons d ds e es)
  have "is_active_device e = is_active_device d"
    using Cons.hyps(1) but_power_fields[of d e] by (simp add: power_explained_def is_active_device_def)
  then show ?case using Cons by simp
qed simp

section \<open>A round\<close>

text \<open>The devices of a published state as the bridge is shown them, without overrides.\<close>

definition shown_devices :: "CoreState \<Rightarrow> MqttBridgeDeviceSnapshot list" where
  "shown_devices v = map mqtt_device_of (filter shown (st_devices v))"

lemma shown_active: "filter is_active_device (shown_devices v) = shown_devices v"
proof -
  have "kUnknownShortAddr = kUnknownDeviceShortAddr" by (simp add: kUnknownShortAddr_def kUnknownDeviceShortAddr_def)
  then show ?thesis by (auto simp: shown_devices_def is_active_device_def mqtt_device_of_def shown_def intro!: filter_True)
qed

definition bridge_ok :: "('t \<Rightarrow> string \<rightharpoonup> string) \<Rightarrow> ('t, 'd) MqttWorld \<Rightarrow> bool" where
  "bridge_ok held w \<longleftrightarrow> br_started (mw_bridge w) \<and> br_attached (mw_bridge w) \<and> br_transport_enabled (mw_bridge w) \<and>
     pending_mirrors (held_by held w) (mw_bridge w)"

lemma explained_addresses: "list_all2 (power_explained os) ds es \<Longrightarrow> map mb_short_addr es = map mb_short_addr ds"
  by (induction rule: list_all2_induct) (auto simp: power_explained_def but_power_fields)

text \<open>The synchronisation, from a queue that is empty.\<close>

lemma sync_runtime_held:
  assumes "retains T held" "bridge_ok held w" "br_pending (mw_bridge w) = []" "stage v v (mw_gateway w)"
    and "distinct (map mb_short_addr (shown_devices v))"
    and "3 * length (shown_devices v) + length (old_devices (mw_bridge w)) \<le> kMaxMqttPublicationsPerSync"
  defines "w' \<equiv> snd (sync_runtime_snapshot T w)"
  shows "bridge_ok held w' \<and> mw_gateway w' = mw_gateway w \<and>
    list_all2 (power_explained (br_power_overrides (mw_bridge w))) (shown_devices v) (old_devices (mw_bridge w')) \<and>
    (\<forall>c \<in> set (old_devices (mw_bridge w)). mb_short_addr c \<notin> mb_short_addr ` set (shown_devices v) \<longrightarrow>
       deliver (br_pending (mw_bridge w')) (held_by held w') (device_topic (mb_short_addr c) ''availability'') = Some ''offline'')"
proof -
  let ?b = "mw_bridge w"
  have st: "br_started ?b" "br_attached ?b" "br_transport_enabled ?b" "pending_mirrors (held_by held w) ?b"
    using assms(2) by (simp_all add: bridge_ok_def)
  obtain s where s: "build_mqtt_bridge_snapshot (gw_read_models (mw_gateway w)) = Some s" "bs_list s = shown_devices v"
    using assms(4) by (auto simp: stage_def shows_state_def shown_devices_def)
  define w1 where "w1 = snd (on_transport (mt_monotonic_now_ms T) w)"
  obtain now_ms where now: "on_transport (mt_monotonic_now_ms T) w = (now_ms, w1)" by (simp add: w1_def prod_eq_iff)
  have w1: "mw_bridge w1 = ?b" "mw_gateway w1 = mw_gateway w" "held_by held w1 = held_by held w"
    using assms(1) by (simp_all add: w1_def retains_def)
  obtain s1 b1 where o: "apply_power_overrides now_ms s ?b = (s1, b1)" by fastforce
  then obtain os where b1: "b1 = ?b\<lparr>br_power_overrides := os\<rparr>" using overridden_list(2) by blast
  define d where "d = publish_homeassistant_discovery T s1 (br_discovery_republish_requested b1) (w1\<lparr>mw_bridge := b1\<rparr>)"
  have d: "same_on_devices (held_by held w1) (held_by held (snd d))" "mw_gateway (snd d) = mw_gateway w"
      "\<exists>f. mw_bridge (snd d) = b1\<lparr>br_discovery_republish_requested := f\<rparr>"
  proof -
    let ?a = "announce_devices T (br_discovery_republish_requested b1) (bs_list s1) (w1\<lparr>mw_bridge := b1\<rparr>)"
    have b: "b1\<lparr>br_discovery_republish_requested := br_discovery_republish_requested b1\<rparr> = b1" by simp
    have "same_on_devices (held_by held w1) (held_by held (snd ?a)) \<and> mw_bridge (snd ?a) = b1 \<and> mw_gateway (snd ?a) = mw_gateway w"
      using announce_devices_held[OF assms(1), of "w1\<lparr>mw_bridge := b1\<rparr>" "br_discovery_republish_requested b1" "bs_list s1"] w1(2) by simp
    moreover have "\<exists>f. b1 = b1\<lparr>br_discovery_republish_requested := f\<rparr>" using b by metis
    ultimately show "same_on_devices (held_by held w1) (held_by held (snd d))" "mw_gateway (snd d) = mw_gateway w"
      "\<exists>f. mw_bridge (snd d) = b1\<lparr>br_discovery_republish_requested := f\<rparr>"
      using st(3) b1 by (auto simp: d_def publish_homeassistant_discovery_def case_prod_unfold)
  qed
  then obtain f where f: "mw_bridge (snd d) = b1\<lparr>br_discovery_republish_requested := f\<rparr>" by blast
  let ?c = "mw_bridge (snd d)"
  have c: "br_started ?c" "br_attached ?c" "br_transport_enabled ?c" "br_pending ?c = []" "old_devices ?c = old_devices ?b"
    using st b1 f assms(3) by (simp_all add: old_devices_def)
  have pm: "pending_mirrors (held_by held (snd d)) ?c"
  proof -
    have "pending_mirrors (held_by held w) ?c" using st(4) c(4,5) assms(3) by (simp add: pending_mirrors_def)
    then show ?thesis using same_pending_mirrors[OF d(1)] w1(3) by simp
  qed
  have ex: "list_all2 (power_explained (br_power_overrides ?b)) (shown_devices v) (active_devices s1)"
    using explained_active[OF overridden_list(1)[OF o]] s(2) shown_active by (simp add: active_devices_def)
  have addr: "map mb_short_addr (active_devices s1) = map mb_short_addr (shown_devices v)" by (rule explained_addresses[OF ex])
  have len: "length (bs_list s1) \<le> kServiceMaxDevices"
  proof -
    have "length (st_devices v) = kMaxDevices" using assms(4) by (simp add: stage_def core_inv_def)
    then have "length (shown_devices v) \<le> kServiceMaxDevices"
      using length_filter_le[of shown "st_devices v"] by (simp add: shown_devices_def kServiceMaxDevices_def kMaxDevices_def)
    then show ?thesis using list_all2_lengthD[OF overridden_list(1)[OF o]] s(2) by simp
  qed
  have l: "length (active_devices s1) = length (shown_devices v)" using list_all2_lengthD[OF ex] by simp
  note m = sync_mirrors[OF c(1) len c(4) pm]
  have m: "pending_mirrors (held_by held (snd d)) (snd (sync_snapshot s1 ?c))" "old_devices (snd (sync_snapshot s1 ?c)) = active_devices s1"
    "\<forall>x \<in> set (old_devices ?c). mb_short_addr x \<notin> mb_short_addr ` set (active_devices s1) \<longrightarrow>
       deliver (br_pending (snd (sync_snapshot s1 ?c))) (held_by held (snd d)) (device_topic (mb_short_addr x) ''availability'') = Some ''offline''"
    using m[of] addr assms(5,6) c(5) l by simp_all
  have w': "w' = (snd d)\<lparr>mw_bridge := snd (sync_snapshot s1 ?c)\<rparr>"
    using st(1-3) s(1) now o by (simp add: w'_def sync_runtime_snapshot_def w1(1) d_def case_prod_unfold Let_def)
  have flags: "br_started (mw_bridge w')" "br_attached (mw_bridge w')" "br_transport_enabled (mw_bridge w')"
    using c sync_snapshot_all[OF c(1) len] by (simp_all add: w')
  have img: "mb_short_addr ` set (active_devices s1) = mb_short_addr ` set (shown_devices v)" using addr by (metis set_map)
  show ?thesis using m flags d(2) ex c(5) img by (simp add: w' bridge_ok_def)
qed

lemma round_held:
  assumes "retains T held" "bridge_ok held w" "stage v v (mw_gateway w)" "distinct (map mb_short_addr (shown_devices v))"
    and "3 * length (shown_devices v) + length (old_devices (mw_bridge w)) \<le> kMaxMqttPublicationsPerSync"
  defines "w' \<equiv> bridge_round T w"
  shows "bridge_ok held w' \<and> mw_gateway w' = mw_gateway w \<and> br_pending (mw_bridge w') = [] \<and>
    list_all2 (power_explained (br_power_overrides (mw_bridge w))) (shown_devices v) (old_devices (mw_bridge w')) \<and>
    (\<forall>c \<in> set (old_devices (mw_bridge w)). mb_short_addr c \<notin> mb_short_addr ` set (shown_devices v) \<longrightarrow>
       held_by held w' (device_topic (mb_short_addr c) ''availability'') = Some ''offline'')"
proof -
  have st: "br_transport_enabled (mw_bridge w)" using assms(2) by (simp add: bridge_ok_def)
  define w1 where "w1 = snd (publish_pending_publications T w)"
  note p1 = publish_pending_held[OF assms(1) st, folded w1_def]
  have ok1: "bridge_ok held w1" "br_pending (mw_bridge w1) = []" "old_devices (mw_bridge w1) = old_devices (mw_bridge w)"
    "br_power_overrides (mw_bridge w1) = br_power_overrides (mw_bridge w)"
    using p1 assms(2) by (auto simp: bridge_ok_def pending_mirrors_def old_devices_def)
  define w2 where "w2 = snd (sync_runtime_snapshot T w1)"
  note p2 = sync_runtime_held[OF assms(1) ok1(1,2) _ assms(4), folded w2_def]
  have p2: "bridge_ok held w2" "mw_gateway w2 = mw_gateway w"
    "list_all2 (power_explained (br_power_overrides (mw_bridge w))) (shown_devices v) (old_devices (mw_bridge w2))"
    "\<forall>c \<in> set (old_devices (mw_bridge w)). mb_short_addr c \<notin> mb_short_addr ` set (shown_devices v) \<longrightarrow>
       deliver (br_pending (mw_bridge w2)) (held_by held w2) (device_topic (mb_short_addr c) ''availability'') = Some ''offline''"
    using p2 assms(3,5) p1(2) ok1(3,4) by simp_all
  have "br_transport_enabled (mw_bridge w2)" using p2(1) by (simp add: bridge_ok_def)
  note p3 = publish_pending_held[OF assms(1) this]
  have "w' = snd (publish_pending_publications T w2)" by (simp add: w'_def bridge_round_def w1_def w2_def)
  then show ?thesis
    using p2 p3 by (auto simp: bridge_ok_def pending_mirrors_def old_devices_def)
qed

section \<open>Every history of the bridge\<close>

text \<open>
  What happens once the bridge is started and its transport runs: operations of the gateway, events and messages of
  the transport, and rounds of the loop. At most 192 messages arrive between two rounds, and a round finds at most 48
  devices, with different addresses, and room for the messages of the devices that are gone.
\<close>

datatype 'd mqtt_op = GatewayDoes "'d gateway_op" | MessageArrives string string | TransportConnects | TransportDisconnects
  | TransportFails MqttConnectionError | BridgeRound

definition round_fits :: "('t, 'd) MqttWorld \<Rightarrow> bool" where
  "round_fits w \<longleftrightarrow> (let ds = shown_devices (visible (gw_registry (mw_gateway w)))
     in length ds \<le> 48 \<and> distinct (map mb_short_addr ds))"

inductive mqtt_history ::
  "'d Platform \<Rightarrow> 't MqttTransport \<Rightarrow> nat \<Rightarrow> ('t, 'd) MqttWorld \<Rightarrow> nat \<Rightarrow> ('t, 'd) MqttWorld \<Rightarrow> bool"
  for P :: "'d Platform" and T :: "'t MqttTransport" and bits :: nat and w0 :: "('t, 'd) MqttWorld" where
  started: "mqtt_history P T bits w0 0 w0"
| gateway: "mqtt_history P T bits w0 n w \<Longrightarrow> perform_op P x (mw_gateway w) = Some (k, g) \<Longrightarrow>
    mqtt_history P T bits w0 n (w\<lparr>mw_gateway := g\<rparr>)"
| message: "mqtt_history P T bits w0 n w \<Longrightarrow> n < kMaxMqttPublicationsPerSync \<Longrightarrow>
    mqtt_history P T bits w0 (Suc n) (on_transport_message T bits topic payload w)"
| connected: "mqtt_history P T bits w0 n w \<Longrightarrow> mqtt_history P T bits w0 n (on_transport_connected T w)"
| disconnected: "mqtt_history P T bits w0 n w \<Longrightarrow> mqtt_history P T bits w0 n (on_transport_disconnected w)"
| failed: "mqtt_history P T bits w0 n w \<Longrightarrow> mqtt_history P T bits w0 n (handle_transport_error err w)"
| round: "mqtt_history P T bits w0 n w \<Longrightarrow> round_fits w \<Longrightarrow> mqtt_history P T bits w0 0 (run_loop_step T w)"

text \<open>What the steps keep.\<close>

definition history_ok :: "('t \<Rightarrow> string \<rightharpoonup> string) \<Rightarrow> nat \<Rightarrow> ('t, 'd) MqttWorld \<Rightarrow> bool" where
  "history_ok held n w \<longleftrightarrow> bridge_ok held w \<and> length (br_pending (mw_bridge w)) \<le> n \<and>
     length (old_devices (mw_bridge w)) \<le> 48 \<and> (\<exists>v. stage v v (mw_gateway w))"

definition same_bridge :: "MqttBridge \<Rightarrow> MqttBridge \<Rightarrow> bool" where
  "same_bridge b c \<longleftrightarrow> br_started c = br_started b \<and> br_attached c = br_attached b \<and> br_transport_enabled c = br_transport_enabled b \<and>
     br_pending c = br_pending b \<and> br_cached_devices c = br_cached_devices b \<and> br_cache_initialized c = br_cache_initialized b"

lemma same_bridge_ok:
  assumes "history_ok held n w" "same_bridge (mw_bridge w) (mw_bridge w')" "held_by held w' = held_by held w"
    and "same_views (mw_gateway w') (mw_gateway w)"
  shows "history_ok held n w'"
  using assms stage_same[OF assms(4)]
  by (auto simp: history_ok_def bridge_ok_def same_bridge_def pending_mirrors_def old_devices_def)

lemma same_bridge_refl [simp]: "same_bridge b b"
  by (simp add: same_bridge_def)

lemma same_bridge_trans: "same_bridge a b \<Longrightarrow> same_bridge b c \<Longrightarrow> same_bridge a c"
  by (simp add: same_bridge_def)

definition quiet :: "('t \<Rightarrow> string \<rightharpoonup> string) \<Rightarrow> ('t, 'd) MqttWorld \<Rightarrow> ('t, 'd) MqttWorld \<Rightarrow> bool" where
  "quiet held w w' \<longleftrightarrow> same_bridge (mw_bridge w) (mw_bridge w') \<and> held_by held w' = held_by held w \<and>
     same_views (mw_gateway w') (mw_gateway w)"

lemma quiet_trans: "quiet held a b \<Longrightarrow> quiet held b c \<Longrightarrow> quiet held a c"
  using same_bridge_trans by (auto simp: quiet_def)

lemma quiet_status: "quiet held w (publish_runtime_status w)"
  by (simp add: quiet_def publish_runtime_status_def post_mqtt_status_def)

lemma quiet_set:
  "same_bridge (mw_bridge w) (f (mw_bridge w)) \<Longrightarrow> quiet held w (publish_runtime_status (on_bridge f w))"
  by (rule quiet_trans[OF _ quiet_status]) (simp add: quiet_def)

lemma quiet_events:
  "quiet held w (handle_transport_connected w)" "quiet held w (handle_transport_disconnected w)"
  "quiet held w (handle_transport_error err w)" "quiet held w (handle_transport_subscribe_failure w)"
  unfolding handle_transport_connected_def handle_transport_disconnected_def handle_transport_error_def
    handle_transport_subscribe_failure_def
  by (rule quiet_set; simp add: same_bridge_def set_runtime_status_def)+

lemma quiet_transport: "held (snd (f (mw_transport w))) = held_by held w \<Longrightarrow> quiet held w (snd (on_transport f w))"
  by (simp add: quiet_def)

lemma quiet_subscribe:
  assumes "retains T held" shows "quiet held w (snd (subscribe_command_topics T w))"
proof (cases "br_command_topics_subscribed (mw_bridge w)")
  case False
  define w1 where "w1 = snd (on_transport (mt_subscribe T topic_device_config_wildcard kMqttQosAtLeastOnce) w)"
  define w2 where "w2 = snd (on_transport (mt_subscribe T topic_device_power_set_wildcard kMqttQosAtLeastOnce) w1)"
  define w3 where "w3 = on_bridge (\<lambda>b. b\<lparr>br_command_topics_subscribed := True\<rparr>) w2"
  define w4 where "w4 = snd (on_transport (mt_is_connected T) w3)"
  have q1: "quiet held w w1" unfolding w1_def by (rule quiet_transport) (use assms in \<open>simp add: retains_def\<close>)
  have "quiet held w1 w2" unfolding w2_def by (rule quiet_transport) (use assms in \<open>simp add: retains_def\<close>)
  note q2 = quiet_trans[OF q1 this]
  have "quiet held w2 w3" by (simp add: w3_def quiet_def same_bridge_def)
  note q3 = quiet_trans[OF q2 this]
  have "quiet held w3 w4" unfolding w4_def by (rule quiet_transport) (use assms in \<open>simp add: retains_def\<close>)
  note q4 = quiet_trans[OF q3 this]
  have "quiet held w4 (publish_runtime_status (on_bridge (set_runtime_status True True kMqttNone) w4))"
    by (rule quiet_set) (simp add: same_bridge_def set_runtime_status_def)
  note q5 = quiet_trans[OF q4 this]
  show ?thesis
    using False quiet_trans[OF q1 quiet_events(4)] quiet_trans[OF q2 quiet_events(4)] q4 q5
    by (auto simp: subscribe_command_topics_def case_prod_unfold w1_def[symmetric] w2_def[symmetric] w3_def[symmetric] w4_def[symmetric])
qed (simp add: subscribe_command_topics_def quiet_def)

lemma history_mono: "history_ok held n w \<Longrightarrow> n \<le> m \<Longrightarrow> history_ok held m w"
  by (simp add: history_ok_def)

lemma quiet_ok: "history_ok held n w \<Longrightarrow> quiet held w w' \<Longrightarrow> history_ok held n w'"
  using same_bridge_ok[of held n w w'] by (simp add: quiet_def)

lemma override_same [simp]: "same_bridge b (set_power_override now_ms a on b)"
  by (auto simp: same_bridge_def set_power_override_def Let_def split: option.split)

lemma device_state_ok:
  assumes "history_ok held n w" "n < kMaxMqttPublicationsPerSync"
  shows "history_ok held (Suc n) (on_bridge (sync_device_state a on) w)"
proof -
  let ?b = "mw_bridge w"
  have h: "pending_mirrors (held_by held w) ?b" "length (br_pending ?b) \<le> n" "length (old_devices ?b) \<le> 48"
    using assms(1) by (simp_all add: history_ok_def bridge_ok_def)
  have m: "pending_mirrors (held_by held w) (sync_device_state a on ?b)"
    by (rule device_state_mirrors[OF h(1)]) (use h(2) assms(2) in simp)
  have "length (br_pending (sync_device_state a on ?b)) \<le> Suc n \<and> length (old_devices (sync_device_state a on ?b)) \<le> 48 \<and>
      br_started (sync_device_state a on ?b) = br_started ?b \<and> br_attached (sync_device_state a on ?b) = br_attached ?b \<and>
      br_transport_enabled (sync_device_state a on ?b) = br_transport_enabled ?b"
  proof (cases "br_cache_initialized ?b")
    case True
    then show ?thesis
      by (cases rule: device_state_cases[of ?b a on]) (use h in \<open>auto simp: old_devices_def enqueue_publication_def\<close>)
  qed (use h in \<open>simp add: sync_device_state_def\<close>)
  then show ?thesis using assms(1) m by (simp add: history_ok_def bridge_ok_def)
qed

lemma message_ok:
  assumes "retains T held" "history_ok held n w" "n < kMaxMqttPublicationsPerSync"
  shows "history_ok held (Suc n) (on_transport_message T bits topic payload w)"
proof -
  have id: "history_ok held n (w\<lparr>mw_bridge := snd (next_command_correlation_id (mw_bridge w))\<rparr>)" if "history_ok held n w" for w :: "('a, 'b) MqttWorld"
    by (rule quiet_ok[OF that]) (simp add: quiet_def next_command_correlation_id_def same_bridge_def Let_def)
  have clock: "history_ok held n (snd (on_transport (mt_monotonic_now_ms T) w))" if "history_ok held n w" for w :: "('a, 'b) MqttWorld"
    by (rule quiet_ok[OF that], rule quiet_transport) (use assms(1) in \<open>simp add: retains_def\<close>)
  have post: "history_ok held n (w\<lparr>mw_gateway := set_rt rt (mw_gateway w\<lparr>gw_persistence := pm\<rparr>)\<rparr>)"
    "history_ok held n (w\<lparr>mw_gateway := set_rt rt (mw_gateway w\<lparr>gw_commands := m, gw_persistence := pm\<rparr>)\<rparr>)"
    if "history_ok held n w" for w :: "('a, 'b) MqttWorld" and rt pm m
    by (rule quiet_ok[OF that]; simp add: quiet_def set_rt_def set_net_def)+
  have over: "history_ok held (Suc n) (on_bridge (\<lambda>b. sync_device_state a on (set_power_override t a on b)) w)"
    if "history_ok held n w" for w :: "('a, 'b) MqttWorld" and a on t
  proof -
    have "history_ok held n (on_bridge (set_power_override t a on) w)" by (rule quiet_ok[OF that]) (simp add: quiet_def)
    from device_state_ok[OF this assms(3), of a on] show ?thesis by (simp add: on_bridge_def)
  qed
  have power: "history_ok held (Suc n) (snd (handle_power_command T bits t p i w))" if "history_ok held n w" for w :: "('a, 'b) MqttWorld" and t p i
    using that over[OF clock[OF post(2)[OF clock[OF that]]]] history_mono[OF post(2)[OF clock[OF that]], of "Suc n"] history_mono[OF that, of "Suc n"]
    by (auto simp: handle_power_command_def case_prod_unfold Let_def split: sum.split)
  have config: "history_ok held (Suc n) (snd (handle_config_command bits t p i w))" if "history_ok held n w" for w :: "('a, 'b) MqttWorld" and t p i
    using history_mono[OF post(1)[OF that], of "Suc n"] history_mono[OF that, of "Suc n"]
    by (auto simp: handle_config_command_def case_prod_unfold Let_def split: sum.split)
  show ?thesis
    using history_mono[OF assms(2), of "Suc n"] power[OF id[OF assms(2)]] config[OF id[OF assms(2)]] history_mono[OF id[OF assms(2)], of "Suc n"]
    by (auto simp: on_transport_message_def handle_command_message_def case_prod_unfold)
qed

lemma round_ok:
  assumes "retains T held" "history_ok held n w" "round_fits w"
  defines "w' \<equiv> run_loop_step T w" and "v \<equiv> visible (gw_registry (mw_gateway w))"
  shows "history_ok held 0 w' \<and>
    list_all2 (power_explained (br_power_overrides (mw_bridge w))) (shown_devices v) (old_devices (mw_bridge w')) \<and>
    (\<forall>d \<in> set (old_devices (mw_bridge w')). mirrors (held_by held w') d) \<and>
    (\<forall>c \<in> set (old_devices (mw_bridge w)). mb_short_addr c \<notin> mb_short_addr ` set (shown_devices v) \<longrightarrow>
       held_by held w' (device_topic (mb_short_addr c) ''availability'') = Some ''offline'')"
proof -
  have b: "bridge_ok held w" "length (old_devices (mw_bridge w)) \<le> 48" "stage v v (mw_gateway w)"
    using assms(2) by (auto simp: history_ok_def v_def stage_def)
  have f: "length (shown_devices v) \<le> 48" "distinct (map mb_short_addr (shown_devices v))"
    using assms(3) by (simp_all add: round_fits_def v_def Let_def)
  have w': "w' = bridge_round T w" using b(1) by (simp add: w'_def run_loop_step_def bridge_ok_def)
  have room: "3 * length (shown_devices v) + length (old_devices (mw_bridge w)) \<le> kMaxMqttPublicationsPerSync"
    using f(1) b(2) by (simp add: kMaxMqttPublicationsPerSync_def kServiceMaxDevices_def)
  note r = round_held[OF assms(1) b(1,3) f(2) room, folded w']
  have "length (old_devices (mw_bridge w')) = length (shown_devices v)" using r by (auto dest: list_all2_lengthD)
  then show ?thesis using r f(1) b(3) by (auto simp: history_ok_def bridge_ok_def pending_mirrors_def)
qed

lemma history_preserved:
  assumes "retains T held" "history_ok held 0 w0" "mqtt_history P T bits w0 n w"
  shows "history_ok held n w"
  using assms(3)
proof (induction rule: mqtt_history.induct)
  case (gateway n w x k g)
  then obtain v where "stage v v (mw_gateway w)" by (auto simp: history_ok_def)
  from gateway_op_stage[OF this, of P x] gateway(2) have "\<exists>v. stage v v g" by auto
  then show ?case using gateway by (simp add: history_ok_def bridge_ok_def)
next
  case (connected n w)
  show ?case
    unfolding on_transport_connected_def
    by (rule quiet_ok[OF quiet_ok[OF connected(2) quiet_events(1)] quiet_subscribe[OF assms(1)]])
next
  case (disconnected n w)
  then show ?case using quiet_ok[OF _ quiet_events(2)] by (simp add: on_transport_disconnected_def)
next
  case (failed n w err)
  show ?case by (rule quiet_ok[OF failed(2) quiet_events(3)])
qed (use assms(2) message_ok[OF assms(1)] round_ok[OF assms(1)] in blast)+

text \<open>The bridge after its start.\<close>

lemma quiet_start:
  "quiet (\<lambda>_. Map.empty) w (snd (start_transport T w))"
proof -
  define w1 where "w1 = snd (on_transport (mt_init T) w)"
  define w2 where "w2 = snd (on_transport (mt_get_broker_endpoint_summary T) w1)"
  define s where "s = fst (mt_get_broker_endpoint_summary T (mw_transport w1))"
  define w3 where "w3 = on_bridge (\<lambda>b. b\<lparr>br_runtime_status_cache := (br_runtime_status_cache b)
      \<lparr>mq_broker_endpoint_summary := (case s of None \<Rightarrow> [] | Some x \<Rightarrow> x)\<rparr>\<rparr>) w2"
  define w4 where "w4 = snd (on_transport (mt_register_callbacks T) w3)"
  define w5 where "w5 = snd (on_transport (mt_start T) w4)"
  have q1: "quiet (\<lambda>_. Map.empty) w w1" by (simp add: quiet_def w1_def)
  have "quiet (\<lambda>_. Map.empty) w1 w3" by (simp add: quiet_def w2_def w3_def same_bridge_def)
  note q3 = quiet_trans[OF q1 this]
  have "quiet (\<lambda>_. Map.empty) w3 w4" by (simp add: quiet_def w4_def)
  note q4 = quiet_trans[OF q3 this]
  have "quiet (\<lambda>_. Map.empty) w4 w5" by (simp add: quiet_def w5_def)
  note q5 = quiet_trans[OF q4 this]
  have sets: "quiet (\<lambda>_. Map.empty) a (publish_runtime_status (on_bridge (set_runtime_status x y z) a))" for a :: "('a, 'b) MqttWorld" and x y z
    by (rule quiet_set) (simp add: same_bridge_def set_runtime_status_def)
  show ?thesis
    using quiet_trans[OF q1 sets] quiet_trans[OF q1 quiet_events(3)] quiet_trans[OF q4 quiet_events(3)] quiet_trans[OF q5 quiet_events(3)]
      quiet_trans[OF q5 sets]
    by (auto simp: start_transport_def case_prod_unfold Let_def w1_def[symmetric] w2_def[symmetric] s_def[symmetric] w3_def[symmetric]
        w4_def[symmetric] w5_def[symmetric])
qed

lemma started_ok:
  assumes "mqtt_start T (attach_runtime T \<lparr>mw_bridge = mqtt_bridge_default, mw_transport = t, mw_gateway = g\<rparr>) = (ok, w0)"
    "br_transport_enabled (mw_bridge w0)" "stage v v g"
  shows "history_ok held 0 w0"
proof -
  let ?w = "\<lparr>mw_bridge = mqtt_bridge_default, mw_transport = t, mw_gateway = g\<rparr>"
  have a: "br_attached (mw_bridge (attach_runtime T ?w))" "same_views (mw_gateway (attach_runtime T ?w)) g"
    by (simp_all add: attach_runtime_def ensure_task_started_def publish_runtime_status_def post_mqtt_status_def
        mqtt_bridge_default_def Let_def)
  define w1 where "w1 = on_bridge reset_sync_cache (attach_runtime T ?w)"
  define w2 where "w2 = snd (start_transport T w1)"
  have w1: "br_attached (mw_bridge w1)" "br_pending (mw_bridge w1) = []" "old_devices (mw_bridge w1) = []" "same_views (mw_gateway w1) g"
    using a by (simp_all add: w1_def reset_sync_cache_def old_devices_def)
  have q: "quiet (\<lambda>_. Map.empty) w1 w2" unfolding w2_def by (rule quiet_start)
  have w2: "br_attached (mw_bridge w2)" "br_pending (mw_bridge w2) = []" "old_devices (mw_bridge w2) = []" "same_views (mw_gateway w2) g"
    using q w1 by (auto simp: quiet_def same_bridge_def old_devices_def)
  define f where "f = fst (start_transport T w1)"
  define w3 where "w3 = publish_runtime_status (on_bridge (\<lambda>b. b\<lparr>br_transport_enabled := f, br_started := True\<rparr>) w2)"
  have w3: "br_attached (mw_bridge w3)" "br_pending (mw_bridge w3) = []" "old_devices (mw_bridge w3) = []" "same_views (mw_gateway w3) g"
    "br_started (mw_bridge w3)"
    using w2 by (auto simp: w3_def publish_runtime_status_def post_mqtt_status_def old_devices_def split: if_splits)
  have "w0 = snd (ensure_task_started T w3)"
    using assms(1) by (simp add: mqtt_start_def w1_def[symmetric] case_prod_unfold f_def[symmetric] w2_def[symmetric] w3_def[symmetric])
  then have "br_attached (mw_bridge w0)" "br_pending (mw_bridge w0) = []" "old_devices (mw_bridge w0) = []" "same_views (mw_gateway w0) g"
    "br_started (mw_bridge w0)"
    using w3 by (auto simp: ensure_task_started_def Let_def case_prod_unfold old_devices_def split: if_splits)
  then show ?thesis
    using assms(2,3) stage_same[of "mw_gateway w0" g v v] by (auto simp: history_ok_def bridge_ok_def pending_mirrors_def)
qed


text \<open>A broker that is a map, and a gateway with one lamp.\<close>

definition retained_broker :: "(string \<rightharpoonup> string) MqttTransport" where
  "retained_broker =
     \<lparr>mt_init = (\<lambda>t. (HAL_MQTT_STATUS_OK, t)), mt_get_broker_endpoint_summary = (\<lambda>t. (None, t)),
      mt_register_callbacks = (\<lambda>t. (HAL_MQTT_STATUS_OK, t)), mt_start = (\<lambda>t. (HAL_MQTT_STATUS_OK, t)),
      mt_subscribe = (\<lambda>_ _ t. (HAL_MQTT_STATUS_OK, t)), mt_is_connected = (\<lambda>t. (True, t)),
      mt_publish = (\<lambda>topic payload retain qos t. (HAL_MQTT_STATUS_OK, t(topic \<mapsto> payload))),
      mt_monotonic_now_ms = (\<lambda>t. (0, t)), mt_create_task = (\<lambda>t. (True, t))\<rparr>"

definition lamp_record :: CoreDeviceRecord where
  "lamp_record = device_record_default\<lparr>dr_short_addr := 8705, dr_online := True, dr_power_on := True\<rparr>"

definition lamp_state :: CoreState where
  "lamp_state = core_state_default\<lparr>st_devices := lamp_record # replicate 63 device_record_default, st_device_count := 1\<rparr>"

definition lamp_gateway :: "unit Gateway" where
  "lamp_gateway = notify_read_models_from_core_snapshot
     (gateway_default ()\<lparr>gw_registry := registry_init\<lparr>reg_slots := replicate kSnapshotCount \<lparr>ss_id = 0, ss_state = lamp_state\<rparr>\<rparr>\<rparr>)"

definition lamp_world :: "((string \<rightharpoonup> string), unit) MqttWorld" where
  "lamp_world = snd (mqtt_start retained_broker
     (attach_runtime retained_broker \<lparr>mw_bridge = mqtt_bridge_default, mw_transport = Map.empty, mw_gateway = lamp_gateway\<rparr>))"

lemma lamp_record_facts: "occupied lamp_record" "shown lamp_record" "record_ok lamp_record" "dr_online lamp_record"
  by (simp_all add: lamp_record_def occupied_def shown_def record_ok_def kUnknownDeviceShortAddr_def device_record_default_def)

lemma lamp_inv: "core_inv lamp_state"
proof -
  have "unique_slots occupied identity (lamp_record # replicate 63 device_record_default)"
    unfolding unique_slots_def by (auto simp: nth_Cons split: nat.splits)
  then show ?thesis
    using lamp_record_facts
    by (simp add: core_inv_def lamp_state_def kMaxDevices_def list_all_iff count_where_def)
qed

lemma lamp_shown: "filter shown (st_devices lamp_state) = [lamp_record]"
proof -
  have "\<not> shown device_record_default" by (simp add: shown_def)
  then have "filter shown (replicate n device_record_default) = []" for n by (simp add: filter_replicate)
  then show ?thesis using lamp_record_facts(2) by (simp add: lamp_state_def)
qed

lemma lamp_stage: "stage lamp_state lamp_state lamp_gateway"
  unfolding lamp_gateway_def
proof (rule core_snapshot_stage)
  let ?g = "gateway_default ()\<lparr>gw_registry := registry_init\<lparr>reg_slots := replicate kSnapshotCount \<lparr>ss_id = 0, ss_state = lamp_state\<rparr>\<rparr>\<rparr>"
  have "reg_pins registry_init ! 0 = 0" "reg_pins registry_init ! 1 = 0" by (simp_all add: registry_init_def kSnapshotCount_def)
  then show "has_room (gw_registry ?g)" using registry_ok_init
    by (simp add: has_room_def registry_ok_def registry_shape_def kSnapshotCount_def) (intro exI[of _ 0] conjI exI[of _ 1], simp_all)
qed (use lamp_inv in \<open>simp_all add: visible_def registry_init_def kSnapshotCount_def gateway_default_def read_model_init_def storage_init_def settled_storages_def\<close>)

lemma lamp_world_facts: "br_transport_enabled (mw_bridge lamp_world)" "gw_registry (mw_gateway lamp_world) = gw_registry lamp_gateway"
  by (simp_all add: lamp_world_def mqtt_start_def start_transport_def attach_runtime_def ensure_task_started_def retained_broker_def
      on_transport_def Let_def on_bridge_def publish_runtime_status_def set_runtime_status_def reset_sync_cache_def mqtt_bridge_default_def
      post_mqtt_status_def)


end
