(* ===== verification/Spec2Isabelle.thy ===== *)
theory Spec2Isabelle
  imports CoreInvariants CoreRegistry EventBus CommandDispatcher RingQueue
    DeviceManager LocatorRegistry ResultStore ConfigManager
    ReportingManager TuyaInit CommandManager RuntimeReports PersistenceManager StatePersistence NetworkPosts Gateway GatewayCycle GatewayView HalEvents CommandMapper MqttPayload MqttSync MqttLoop MqttMirror
begin

text \<open>
  \<^bold>\<open>A Zigbee gateway, verified.\<close> The repository is the firmware of a Zigbee gateway: a platform-neutral
  core, a service layer of managers around one runtime, the drivers of the target and several
  front ends (web, MQTT, Matter). This development models the core and the service layer, where the
  decisions are made, and proves that they keep their promises. Every definition is executable and
  named after the function it translates; machine integers are words of the width of the code, a
  clock is a \<^verbatim>\<open>uint32_t\<close> that wraps, an out parameter is a result, a null pointer is \<open>None\<close>, an
  error is a value.

  \<^bold>\<open>How the program works.\<close> The radio driver calls \<^verbatim>\<open>ServiceRuntime\<close>, which turns reports into core events
  and queues them. The runtime takes one event after another, lets its managers see it, reduces the
  core state with it (\<^verbatim>\<open>core_reduce\<close>), publishes the new state as a snapshot that readers can pin, and
  executes the effects. Commands of the application go the other way: they wait in an ingress queue, are
  entered into the dispatcher, become a request event, and are answered by a result, a timeout, or a
  retry. Values that survive a restart are kept by the config manager in the non-volatile store.

  \<^bold>\<open>The theories\<close>, in the order of their dependencies (paths are below \<^verbatim>\<open>src/components/\<close>):

  \<^item> \<open>Prelude\<close>, \<open>SlotTable\<close>, \<open>PackedQueue\<close>, \<open>RingQueue\<close>, \<open>Ledger\<close>: what the components share. Most tables of the
    code are fixed arrays of slots found by a linear search; \<open>slot_table\<close> is the interface that reads such
    an array as a map, \<open>bounded_fifo\<close> the contract of the ring buffers, \<open>ledger\<close> the argument that what
    goes in and what comes out balance. All three are interpreted on the tables and queues of the code.
  \<^item> \<open>DeviceIdentity\<close>, \<open>CoreTypes\<close>, \<open>CoreReducer\<close>, \<open>CoreSpec\<close>, \<open>CoreInvariants\<close> (\<^verbatim>\<open>core/\<close>): the data, the pure
    transition \<open>core_reduce\<close>, its specification as updates of a directory from identities to records, the
    invariants of every reachable state, and the effects.
  \<^item> \<open>CoreRegistry\<close>, \<open>EventBus\<close>, \<open>CommandDispatcher\<close> (\<^verbatim>\<open>core/\<close>): the snapshots, as operations and as a step relation
    in which readers and the writer interleave at every atomic access; the subscribers; the sixteen
    commands in flight.
  \<^item> \<open>DeviceManager\<close>, \<open>LocatorRegistry\<close>, \<open>ResultStore\<close>, \<open>ReportingManager\<close> (\<^verbatim>\<open>service/\<close>): join deduplication and
    removal timers; the owner of each short address; the queues of finished operations; retries,
    silence and occupancy of the reporting devices.
  \<^item> \<open>NvsStore\<close>, \<open>ConfigManager\<close> (\<^verbatim>\<open>app_hal/hal_nvs.c\<close>, \<^verbatim>\<open>service/\<close>): the store of u32 values as an interface
    \<open>nvs\<close>, interpreted on the host build, and the configuration with its load, save and migrations, over
    any store of that interface.
  \<^item> \<open>TuyaParser\<close>, \<open>DescriptorStore\<close>, \<open>TuyaPlugins\<close>, \<open>TuyaInit\<close> (\<^verbatim>\<open>service/\<close>): the frames of the Tuya cluster, the
    identification of devices, the translation between data points and measurements or commands, and
    the initialisation of a device step by step.
  \<^item> \<open>RuntimeState\<close>, \<open>CommandManager\<close>, \<open>RuntimeReports\<close> (\<^verbatim>\<open>service/service_runtime.cpp\<close>, \<^verbatim>\<open>command_manager.cpp\<close>): the
    event queue and the counters of the runtime; the commands with their queues, retries and timeouts;
    the way of a report from its bytes to the event queue, and from there into the device record.
  \<^item> \<open>NvsText\<close>, \<open>StatePersistence\<close>, \<open>PersistenceManager\<close> (\<^verbatim>\<open>app_hal/hal_nvs.c\<close>, \<^verbatim>\<open>service/\<close>): strings and blobs in the store,
    the saved core state that is read back at the next start, and the queue of posted reporting profiles.
  \<^item> \<open>NetState\<close>, \<open>HostDrivers\<close>, \<open>Connectivity\<close>, \<open>NetworkPolicy\<close>, \<open>ZigbeeLifecycle\<close>, \<open>NetworkManager\<close>, \<open>NetworkPosts\<close>
    (\<^verbatim>\<open>service/network_manager.cpp\<close>, \<^verbatim>\<open>connectivity_manager.cpp\<close>, \<^verbatim>\<open>scan_manager.cpp\<close>,
    \<^verbatim>\<open>network_policy_manager.cpp\<close>, \<^verbatim>\<open>zigbee_lifecycle_coordinator.cpp\<close>): the requests of the network with their
    one slot each, the automatic connection and its back-off, the join window, the removals; over any
    drivers, which \<open>HostDrivers\<close> instantiates with those of the host build.
  \<^item> \<open>OtaManifest\<close>, \<open>UpdateState\<close>, \<open>OtaUpdate\<close>, \<open>RcpUpdate\<close>, \<open>Updates\<close> (\<^verbatim>\<open>service/ota_manifest.cpp\<close>,
    \<^verbatim>\<open>ota_manager.cpp\<close>, \<^verbatim>\<open>rcp_update_manager.cpp\<close>): the checks of a manifest, the firmware update and the update
    of the co-processor, each a slot, a worker and a status the runtime applies, and a step relation in
    which the posts, the two workers and the runtime interleave.

  \<^bold>\<open>What the lemmas show.\<close> Each theory proves the invariant of its state and what each operation does on
  every branch, usually as an equation on the map or list the state stands for; its last section has
  its properties, each after a text with its number. The main ones: every step of the core is one update
  of the directory, and the counters and identities stay consistent in every run; a pinned snapshot
  never changes under its reader, in any interleaving; every accepted command is answered exactly once,
  and one that is never answered is retried as often as configured and then timed out; a saved
  configuration is the one that is loaded; the parser accepts exactly the wire format; a measurement
  arrives in the device record as it was sent.

  \<^bold>\<open>Bounds, termination, fuel.\<close> No definition uses fuel. The loops of the code run over fixed arrays and are
  structural, or are \<open>function\<close>s with a measure: the drain loops by the length of their queue, the parser by
  the bytes that are left. That the Tuya initialisation ends is a theorem over all runs.

  \<^bold>\<open>Concurrency.\<close> The queues and tables of the managers are only touched under their lock, or only by the
  runtime task, so an operation is one step. The registry is lock-free, and is modelled at the level of its
  atomic accesses (sequentially consistent; the code uses acquire and release).

  \<^bold>\<open>Not modelled.\<close> The branches of the target in \<^verbatim>\<open>app_hal/\<close>, the web server, the MQTT and Matter bridges and
  the task setup are glue to libraries that are not in the repository. Logging and locks have no model.
  Of the service layer, the drain loop of the runtime over all managers, the mapping of the commands of
  the application, the read model, the adapter of the driver events and the snapshots of the bridges
  are left. Where the code calls the radio, the clock of the platform, the store or the check of a
  signature, the model has a parameter.
\<close>

end
